(* ===== verification/Prelude.thy ===== *)
theory Prelude
  imports Main "HOL-Library.Word" "HOL-Library.Char_ord" "HOL-Library.List_Lexorder"
begin

section \<open>Bytes, fixed-width integers and the shared automation\<close>

text \<open>
  The vocabulary every other theory uses.  A Go \<open>string\<close> and a Go \<open>[]byte\<close> are both sequences
  of bytes; they are modelled by the same type, \<^typ>\<open>char list\<close> (a \<^typ>\<open>char\<close> is one of the 256
  byte values).  \<open>HOL-Library.Char_ord\<close> and \<open>HOL-Library.List_Lexorder\<close> make \<open><\<close> on byte strings
  the order of \<open>bytes.Compare\<close>, which is also the order of Go's string comparison.

  The theory holds the big-endian encoding of \<open>encoding/binary\<close> with its round trip and its
  order preservation, and the collections of facts the component proofs are driven by.
\<close>

type_synonym bytes = "char list"
type_synonym u64 = "64 word"
type_synonym u32 = "32 word"

named_theorems store_simps \<open>what an engine operation does to the contents of the store\<close>
named_theorems key_simps \<open>shapes and lengths of the keys of the store\<close>
named_theorems err_simps \<open>how error values are classified\<close>

abbreviation NUL :: char where
  "NUL \<equiv> CHR 0x00"

subsection \<open>Big-endian encoding\<close>

text \<open>\<open>binary.BigEndian.PutUint64\<close> and \<open>PutUint32\<close> write the most significant byte first.\<close>

primrec be_bytes :: "nat \<Rightarrow> nat \<Rightarrow> bytes" where
  "be_bytes 0 v = []"
| "be_bytes (Suc n) v = be_bytes n (v div 256) @ [char_of v]"

definition be_nat :: "bytes \<Rightarrow> nat" where
  "be_nat bs = foldl (\<lambda>a c. 256 * a + of_char c) 0 bs"

lemma length_be_bytes [simp]: "length (be_bytes n v) = n"
  by (induction n arbitrary: v) auto

lemma be_nat_Nil [simp]: "be_nat [] = 0"
  by (simp add: be_nat_def)

lemma be_nat_snoc [simp]: "be_nat (bs @ [c]) = 256 * be_nat bs + of_char c"
  by (simp add: be_nat_def)

lemma be_nat_be_bytes: "v < 256 ^ n \<Longrightarrow> be_nat (be_bytes n v) = v"
proof (induction n arbitrary: v)
  case (Suc n)
  then have "v div 256 < 256 ^ n"
    by (simp add: less_mult_imp_div_less)
  with Suc.IH show ?case by simp
qed simp

lemma be_nat_less: "be_nat bs < 256 ^ length bs"
proof (induction bs rule: rev_induct)
  case (snoc c bs)
  have "(of_char c :: nat) \<le> 255"
    using nat_of_char_less_256 [of c] by linarith
  with snoc show ?case by simp
qed simp

lemma be_bytes_be_nat: "be_bytes (length bs) (be_nat bs) = bs"
proof (induction bs rule: rev_induct)
  case (snoc c bs)
  have "(256 * be_nat bs + of_char c) div 256 = be_nat bs"
    using nat_of_char_less_256 [of c] by simp
  moreover have "(char_of (256 * be_nat bs + (of_char c :: nat)) :: char) = c"
    by (metis char_of_char mod_mult_self4 of_char_mod_256 of_char_of)
  ultimately show ?case using snoc by simp
qed simp

lemma be_bytes_inject:
  "v < 256 ^ n \<Longrightarrow> w < 256 ^ n \<Longrightarrow> be_bytes n v = be_bytes n w \<longleftrightarrow> v = w"
  by (metis be_nat_be_bytes)

subsection \<open>Byte order\<close>

text \<open>
  The order of the encoding is the order of the numbers: an engine that iterates over keys in
  byte order visits big-endian counters in ascending order.
\<close>

lemma list_less_snoc:
  fixes xs ys :: "'a::linorder list"
  assumes "length xs = length ys"
  shows "xs @ [a] < ys @ [b] \<longleftrightarrow> xs < ys \<or> (xs = ys \<and> a < b)"
  using assms by (induction xs ys rule: list_induct2) auto

lemma char_of_less:
  "v < 256 \<Longrightarrow> w < 256 \<Longrightarrow> (char_of v :: char) < char_of w \<longleftrightarrow> v < (w::nat)"
  by (simp add: less_char_def)

lemma char_of_mod: "(char_of (v mod 256) :: char) = char_of (v::nat)"
  by (metis char_of_char of_char_mod_256 of_char_of)

lemma digit_less_iff:
  fixes a b c d :: nat
  assumes "b < 256" and "d < 256"
  shows "256 * a + b < 256 * c + d \<longleftrightarrow> a < c \<or> (a = c \<and> b < d)"
proof (cases a c rule: linorder_cases)
  case less
  then have "256 * Suc a \<le> 256 * c" by simp
  with less assms show ?thesis by simp
next
  case greater
  then have "256 * Suc c \<le> 256 * a" by simp
  with greater assms show ?thesis by simp
qed simp

lemma be_bytes_less_iff:
  "v < 256 ^ n \<Longrightarrow> w < 256 ^ n \<Longrightarrow> be_bytes n v < be_bytes n w \<longleftrightarrow> v < w"
proof (induction n arbitrary: v w)
  case (Suc n)
  then have d: "v div 256 < 256 ^ n" "w div 256 < 256 ^ n"
    by (simp_all add: less_mult_imp_div_less)
  have m: "(char_of v :: char) < char_of w \<longleftrightarrow> v mod 256 < w mod 256"
    using char_of_less [of "v mod 256" "w mod 256"] by (simp add: char_of_mod)
  have "be_bytes (Suc n) v < be_bytes (Suc n) w
      \<longleftrightarrow> v div 256 < w div 256 \<or> (v div 256 = w div 256 \<and> v mod 256 < w mod 256)"
    using Suc.IH [OF d] be_bytes_inject [OF d] m by (auto simp: list_less_snoc)
  also have "\<dots> \<longleftrightarrow> v < w"
    using digit_less_iff [of "v mod 256" "w mod 256" "v div 256" "w div 256"] by simp
  finally show ?case .
qed simp

lemma append_less_append_iff [simp]:
  fixes p :: "'a::linorder list"
  shows "p @ xs < p @ ys \<longleftrightarrow> xs < ys"
  by (induction p) auto

lemma append_le_append_iff [simp]:
  fixes p :: "'a::linorder list"
  shows "p @ xs \<le> p @ ys \<longleftrightarrow> xs \<le> ys"
  by (induction p) auto

lemma append_le_self [simp]: "p \<le> p @ (t :: 'a::linorder list)"
  by (induction p) auto

end
