(* ===== verification/Errors.thy ===== *)
theory Errors
  imports GoStrings
begin

section \<open>Error values, their classes and their annotations\<close>

text \<open>
  Every error of the program is a value of one datatype.  Its constructors are the ways the code
  builds an error: a package-level error compared by identity, a message, an \<open>errs.Class\<close> around
  an error (\<open>Class.New\<close>, \<open>Class.Wrap\<close>), a message wrapping an error with \<open>%w\<close>, the annotation of
  \<open>pkg/errdata\<close>, a combination of several errors (\<open>errs.Combine\<close>), a status of the DRPC layer
  (\<open>rpcstatus\<close>).  A Go \<open>error\<close> that may be \<open>nil\<close> is an \<^typ>\<open>'a option\<close> of it; a pair
  \<open>(value, error)\<close> of which only one part is used is a sum.  Message texts are kept where the
  program sends them on, otherwise only their constant part.

  \<open>Has\<close> and \<open>Is\<close> of \<open>zeebo/errs\<close> look through every wrapping and into every member of a
  combination.  The second half is \<open>pkg/errdata\<close>.
\<close>

subsection \<open>The errors of the storage engine\<close>

datatype badger_error =
    ErrKeyNotFound | ErrValueLogSize | ErrTxnTooBig | ErrConflict | ErrReadOnlyTxn
  | ErrDiscardedTxn | ErrEmptyKey | ErrInvalidKey | ErrBannedKey | ErrThresholdZero
  | ErrNoRewrite | ErrRejected | ErrInvalidRequest | ErrManagedTxn | ErrNamespaceMode
  | ErrInvalidDump | ErrZeroBandwidth | ErrWindowsNotSupported | ErrPlan9NotSupported
  | ErrTruncateNeeded | ErrBlockedWrites | ErrNilCallback | ErrEncryptionKeyMismatch
  | ErrInvalidDataKeyID | ErrInvalidEncryptionKey | ErrGCInMemoryMode | ErrDBClosed

text \<open>Package-level errors of the program and of the libraries whose errors it compares.\<close>

datatype sentinel =
    Badger badger_error
  | KeyAlreadyExists | OperationNotSupported | KeyAlreadyExistsRecordsNotEqual
  | GcsNotFound | GcsPreconditionFailed | FsNotExist
  | ContextCanceled | DeadlineExceeded
  | BucketNotFound | ObjectNotFound | BucketNameInvalid | ObjectKeyInvalid
  | PermissionDenied | BandwidthLimitExceeded | TooManyRequests
  | MissingAuthorizationHeader
  | NoAccessKey | MalformedAuthorizationV2 | CredentialMalformed | MalformedCredentialDate
  | InvalidDate | InvalidAlgorithm | InvalidDateHeader
  | AccessKeyEmpty | MinioNotImplemented | MinioObjectNotFound | IoEOF | HttpServerClosed

text \<open>The \<open>errs.Class\<close> values of the program.\<close>

datatype eclass =
    BadgerauthError | ClockError | ReplicationLogError | NodeIDError | ProtoError
  | WrongNodeID | DialError
  | InvalidRecord | KeyHashError | NotFoundError | AccessGrantError
  | AuthServiceError | CacheEncryptError | CacheDecryptError
  | GcslockError | GcsopsError | CertstorageError | NodeListError | StartupCheckError
  | AuthAdminClientError | RegisterError | GpubliccaError | TLSError | GatewayError
  | UnsupportedRange | InvalidRange | ObjectmapError | DnsError
  | SigningVerification | SigningInfoError | CredentialPart | SignedHeadersPart | SignaturePart
  | V4CredentialError | HeaderError | QueryError | V4MultipartError | V2MultipartError
  | InvalidQuery | MissingFields | MalformedPOST
  | GatewayAccessGrant | CriticalError | MinioError

datatype rpc_code =
    RpcCanceled | RpcInvalidArgument | RpcNotFound | RpcInternal | RpcUnknown

datatype err_key = ErrAction | ErrStatusCode

datatype err_val = StrVal string | IntVal int

datatype err =
    Sentinel sentinel
  | Message string
  | Classed eclass err
  | Detail string err
  | Annotated err_key err_val err
  | Grouped "err list"
  | Rpc rpc_code err

abbreviation badger_err :: "badger_error \<Rightarrow> err" where
  "badger_err b \<equiv> Sentinel (Badger b)"

subsection \<open>Wrapping and classifying\<close>

text \<open>\<open>Class.Wrap\<close> leaves an error that is already of the class as it is, and \<open>nil\<close> as \<open>nil\<close>.\<close>

fun wrap :: "eclass \<Rightarrow> err \<Rightarrow> err" where
  "wrap c (Classed d e) = (if d = c then Classed d e else Classed c (Classed d e))"
| "wrap c e = Classed c e"

definition wrap_opt :: "eclass \<Rightarrow> err option \<Rightarrow> err option" where
  "wrap_opt c e = map_option (wrap c) e"

definition wrap_res :: "eclass \<Rightarrow> err + 'a \<Rightarrow> err + 'a" where
  "wrap_res c r = (case r of Inl e \<Rightarrow> Inl (wrap c e) | Inr a \<Rightarrow> Inr a)"

text \<open>\<open>errs.Combine\<close> drops the \<open>nil\<close>s, and returns a single error unwrapped.\<close>

fun somes :: "'a option list \<Rightarrow> 'a list" where
  "somes [] = []"
| "somes (None # es) = somes es"
| "somes (Some x # es) = x # somes es"

definition combine :: "err option list \<Rightarrow> err option" where
  "combine es =
     (case somes es of
        [] \<Rightarrow> None
      | [e] \<Rightarrow> Some e
      | e # f # fs \<Rightarrow> Some (Grouped (e # f # fs)))"

fun has_class :: "eclass \<Rightarrow> err \<Rightarrow> bool" where
  "has_class c (Sentinel s) = False"
| "has_class c (Message m) = False"
| "has_class c (Classed d e) = (d = c \<or> has_class c e)"
| "has_class c (Detail m e) = has_class c e"
| "has_class c (Annotated k v e) = has_class c e"
| "has_class c (Grouped es) = (\<exists>e \<in> set es. has_class c e)"
| "has_class c (Rpc r e) = has_class c e"

fun is_err :: "sentinel \<Rightarrow> err \<Rightarrow> bool" where
  "is_err t (Sentinel s) = (s = t)"
| "is_err t (Message m) = False"
| "is_err t (Classed d e) = is_err t e"
| "is_err t (Detail m e) = is_err t e"
| "is_err t (Annotated k v e) = is_err t e"
| "is_err t (Grouped es) = (\<exists>e \<in> set es. is_err t e)"
| "is_err t (Rpc r e) = is_err t e"

text \<open>\<open>errors.Unwrap\<close>: one layer; the first member of a combination.\<close>

fun unwrap :: "err \<Rightarrow> err option" where
  "unwrap (Sentinel s) = None"
| "unwrap (Message m) = None"
| "unwrap (Classed d e) = Some e"
| "unwrap (Detail m e) = Some e"
| "unwrap (Annotated k v e) = Some e"
| "unwrap (Grouped es) = (case es of [] \<Rightarrow> None | e # _ \<Rightarrow> Some e)"
| "unwrap (Rpc r e) = Some e"

subsection \<open>Annotations: pkg/errdata\<close>

text \<open>\<open>Annotate\<close>, \<open>WithAction\<close>, \<open>WithStatus\<close>: no effect on \<open>nil\<close>.\<close>

definition annotate :: "err option \<Rightarrow> err_key \<Rightarrow> err_val \<Rightarrow> err option" where
  "annotate e k v = (case e of None \<Rightarrow> None | Some x \<Rightarrow> Some (Annotated k v x))"

definition with_action :: "err \<Rightarrow> string \<Rightarrow> err" where
  "with_action e a = Annotated ErrAction (StrVal a) e"

definition with_status :: "err \<Rightarrow> int \<Rightarrow> err" where
  "with_status e s = Annotated ErrStatusCode (IntVal s) e"

text \<open>
  \<open>Value\<close> walks the chain of wrapped errors to the first annotated one, whose \<open>Value\<close> method
  answers if its key is the one asked for and continues below it otherwise.
\<close>

fun err_value :: "err \<Rightarrow> err_key \<Rightarrow> err_val option" where
  "err_value (Annotated k v e) key = (if k = key then Some v else err_value e key)"
| "err_value (Classed d e) key = err_value e key"
| "err_value (Detail m e) key = err_value e key"
| "err_value (Rpc r e) key = err_value e key"
| "err_value (Grouped (e # es)) key = err_value e key"
| "err_value (Grouped []) key = None"
| "err_value (Sentinel s) key = None"
| "err_value (Message m) key = None"

text \<open>
  \<open>GetAction\<close> and \<open>GetStatus\<close>: a type assertion guards the annotation, and a \<open>nil\<close> error has
  none.
\<close>

definition get_action :: "err option \<Rightarrow> string \<Rightarrow> string" where
  "get_action e def =
     (case e of
        None \<Rightarrow> def
      | Some x \<Rightarrow> (case err_value x ErrAction of Some (StrVal a) \<Rightarrow> a | _ \<Rightarrow> def))"

definition get_status :: "err option \<Rightarrow> int \<Rightarrow> int" where
  "get_status e def =
     (case e of
        None \<Rightarrow> def
      | Some x \<Rightarrow> (case err_value x ErrStatusCode of Some (IntVal s) \<Rightarrow> s | _ \<Rightarrow> def))"

definition HTTPStatusClientClosedRequest :: int where
  "HTTPStatusClientClosedRequest = 499"

subsection \<open>Facts\<close>

lemma has_class_wrap [err_simps, simp]: "has_class c (wrap d e) \<longleftrightarrow> c = d \<or> has_class c e"
  by (cases e) auto

lemma is_err_wrap [err_simps, simp]: "is_err t (wrap d e) = is_err t e"
  by (cases e) auto

lemma err_value_wrap [err_simps, simp]: "err_value (wrap d e) k = err_value e k"
  by (cases e) auto

lemma wrap_idem [simp]: "wrap c (wrap c e) = wrap c e"
  by (cases e) auto

lemma wrap_opt_simps [simp]:
  "wrap_opt c None = None"
  "wrap_opt c (Some e) = Some (wrap c e)"
  by (simp_all add: wrap_opt_def)

lemma wrap_opt_eq_None [simp]: "wrap_opt c e = None \<longleftrightarrow> e = None"
  by (cases e) auto

lemma wrap_res_simps [simp]:
  "wrap_res c (Inl e) = Inl (wrap c e)"
  "wrap_res c (Inr a) = Inr a"
  by (simp_all add: wrap_res_def)

lemma wrap_res_eq_Inr [simp]: "wrap_res c r = Inr a \<longleftrightarrow> r = Inr a"
  by (cases r) auto

lemma combine_simps [simp]:
  "combine [] = None"
  "combine (None # es) = combine es"
  "combine [Some e] = Some e"
  by (simp_all add: combine_def)

lemma set_somes [simp]: "set (somes es) = {x. Some x \<in> set es}"
  by (induction es rule: somes.induct) auto

lemma somes_Nil_iff: "somes es = [] \<longleftrightarrow> (\<forall>e \<in> set es. e = None)"
  by (induction es rule: somes.induct) auto

lemma combine_None_iff: "combine es = None \<longleftrightarrow> (\<forall>e \<in> set es. e = None)"
  by (auto simp: combine_def somes_Nil_iff [symmetric] split: list.splits)

lemma get_status_with_status [err_simps, simp]: "get_status (Some (with_status e s)) d = s"
  by (simp add: get_status_def with_status_def)

lemma get_status_with_action [err_simps, simp]:
  "get_status (Some (with_action e a)) d = get_status (Some e) d"
  by (simp add: get_status_def with_action_def)

lemma get_status_wrap [err_simps, simp]:
  "get_status (Some (wrap c e)) d = get_status (Some e) d"
  by (simp add: get_status_def)

lemma get_status_nil [simp]: "get_status None d = d"
  by (simp add: get_status_def)

lemma is_err_with_status [err_simps, simp]: "is_err t (with_status e s) = is_err t e"
  by (simp add: with_status_def)

lemma is_err_with_action [err_simps, simp]: "is_err t (with_action e s) = is_err t e"
  by (simp add: with_action_def)

lemma has_class_with_status [err_simps, simp]: "has_class c (with_status e s) = has_class c e"
  by (simp add: with_status_def)

lemma has_class_with_action [err_simps, simp]: "has_class c (with_action e s) = has_class c e"
  by (simp add: with_action_def)

end
