(* ===== verification/TrustedIP.thy ===== *)
theory TrustedIP
  imports Errors
begin

section \<open>Trusted addresses and the client's address (pkg/trustedip)\<close>

text \<open>
  \<open>GetClientIP\<close> takes the client's address from the headers of a request when the peer that sent
  it is trusted.  A header is the list of its fields in the order received; \<open>header_get\<close> is
  \<open>http.Header.Get\<close>, the first field of the name, in any case of its letters.  A panic (an index
  or a slice out of range) is the result \<open>None\<close>.
\<close>

type_synonym header = "(string \<times> string) list"

fun header_get :: "header \<Rightarrow> string \<Rightarrow> string" where
  "header_get [] name = []"
| "header_get ((n, v) # h) name = (if equal_fold n name then v else header_get h name)"

text \<open>\<open>Header.Set\<close> replaces every field of the name.\<close>

definition header_set :: "string \<Rightarrow> string \<Rightarrow> header \<Rightarrow> header" where
  "header_set name v h = filter (\<lambda>(n, _). \<not> equal_fold n name) h @ [(name, v)]"

lemma equal_fold_sym: "equal_fold s t = equal_fold t s"
  by (auto simp: equal_fold_def)

lemma header_get_append:
  "\<forall>(n, _) \<in> set h. \<not> equal_fold n m \<Longrightarrow> header_get (h @ g) m = header_get g m"
  by (induction h m rule: header_get.induct) auto

lemma header_get_set [simp]:
  "header_get (header_set name v h) m = (if equal_fold name m then v else header_get h m)"
proof (cases "equal_fold name m")
  case True
  then show ?thesis
    by (auto simp: header_set_def equal_fold_def intro!: trans [OF header_get_append])
next
  case False
  then show ?thesis
    unfolding header_set_def by (induction h m rule: header_get.induct) (auto simp: equal_fold_def)
qed

subsection \<open>The list\<close>

record trusted_list =
  tl_ips :: "string list"
  tl_untrustAll :: bool

definition NewListUntrustAll :: trusted_list where
  "NewListUntrustAll = \<lparr>tl_ips = [], tl_untrustAll = True\<rparr>"

definition NewListTrustAll :: trusted_list where
  "NewListTrustAll = \<lparr>tl_ips = [], tl_untrustAll = False\<rparr>"

definition NewList :: "string list \<Rightarrow> trusted_list" where
  "NewList ips = \<lparr>tl_ips = remdups ips, tl_untrustAll = False\<rparr>"

definition IsTrusted :: "trusted_list \<Rightarrow> string \<Rightarrow> bool" where
  "IsTrusted l ip =
     (if tl_untrustAll l then False
      else if length (tl_ips l) = 0 then True
      else List.member (tl_ips l) ip)"

subsection \<open>Addresses\<close>

text \<open>A slice \<open>s[a:b]\<close>, which panics out of range.\<close>

definition go_slice :: "string \<Rightarrow> int \<Rightarrow> int \<Rightarrow> string option" where
  "go_slice s a b =
     (if 0 \<le> a \<and> a \<le> b \<and> b \<le> int (length s) then Some (take (nat (b - a)) (drop (nat a) s)) else None)"

definition stripPort :: "string \<Rightarrow> string option" where
  "stripPort addr =
     (if addr = [] then Some []
      else if hd addr = CHR ''['' then
        (let idx = last_index CHR '':'' addr in
         if idx \<le> 1 then Some addr else go_slice addr 1 (idx - 1))
      else if count_byte CHR '':'' addr = 1 then
        (let idx = last_index CHR '':'' addr in
         if idx < 0 then Some addr else go_slice addr 0 idx)
      else Some addr)"

text \<open>
  The regular expression \<open>(?i:(?:^|;)for=([^,; ]+))\<close>: the first group of the leftmost match.
\<close>

definition is_delim :: "char \<Rightarrow> bool" where
  "is_delim c = (c = CHR '','' \<or> c = CHR '';'' \<or> c = CHR '' '')"

definition for_value :: "string \<Rightarrow> string option" where
  "for_value s =
     (if has_prefix (to_lower s) ''for=''
      then (case takeWhile (\<lambda>c. \<not> is_delim c) (drop 4 s) of
              [] \<Rightarrow> None | v \<Rightarrow> Some v)
      else None)"

fun for_after_semicolon :: "string \<Rightarrow> string option" where
  "for_after_semicolon [] = None"
| "for_after_semicolon (c # s) =
     (if c = CHR '';'' then (case for_value s of None \<Rightarrow> for_after_semicolon s | Some v \<Rightarrow> Some v)
      else for_after_semicolon s)"

definition forwarded_match :: "string \<Rightarrow> string option" where
  "forwarded_match h = (case for_value h of None \<Rightarrow> for_after_semicolon h | Some v \<Rightarrow> Some v)"

definition forwarded_ip :: "string \<Rightarrow> string option" where
  "forwarded_ip m =
     (case stripPort (trim_both (\<lambda>c. c = CHR 0x22) m) of
        None \<Rightarrow> None
      | Some [] \<Rightarrow> None
      | Some (c # cs) \<Rightarrow>
          if c = CHR ''['' then go_slice (c # cs) 1 (int (length (c # cs)) - 1) else Some (c # cs))"

definition GetIPFromHeaders :: "header \<Rightarrow> (string \<times> bool) option" where
  "GetIPFromHeaders headers =
     (let rest =
        (let h = header_get headers ''X-Forwarded-For'' in
         if h \<noteq> [] then Some (hd (splitn 2 CHR '','' h), True)
         else let r = header_get headers ''X-Real-Ip'' in
           if r \<noteq> [] then Some (r, True) else Some ([], False));
        h = header_get headers ''Forwarded'' in
      if h \<noteq> []
      then (case forwarded_match h of
              Some m \<Rightarrow> map_option (\<lambda>ip. (ip, True)) (forwarded_ip m)
            | None \<Rightarrow> rest)
      else rest)"

definition GetClientIP :: "trusted_list \<Rightarrow> string \<Rightarrow> header \<Rightarrow> string option" where
  "GetClientIP l remoteAddr headers =
     (case stripPort remoteAddr of
        None \<Rightarrow> None
      | Some addr \<Rightarrow>
          if IsTrusted l addr
          then (case GetIPFromHeaders headers of
                  None \<Rightarrow> None
                | Some (ip, ok) \<Rightarrow> if ok then Some ip else Some addr)
          else Some addr)"

subsection \<open>Facts\<close>

lemma index_byte_range: "index_byte c s = - 1 \<or> (0 \<le> index_byte c s \<and> index_byte c s < int (length s))"
  by (induction c s rule: index_byte.induct) (auto simp: Let_def)

lemma index_byte_notin: "c \<notin> set s \<Longrightarrow> index_byte c s = - 1"
  by (induction c s rule: index_byte.induct) auto

lemma index_byte_at: "c \<notin> set a \<Longrightarrow> index_byte c (a @ c # b) = int (length a)"
  by (induction a) auto

lemma last_index_at: "c \<notin> set b \<Longrightarrow> last_index c (a @ c # b) = int (length a)"
  by (simp add: last_index_def index_byte_at)

lemma last_index_notin: "c \<notin> set s \<Longrightarrow> last_index c s = - 1"
  by (simp add: last_index_def index_byte_notin)

lemma last_index_less: "last_index c s < int (length s)"
  using index_byte_range [of c "rev s"] by (auto simp: last_index_def Let_def)

lemma count_byte_append [simp]: "count_byte c (a @ b) = count_byte c a + count_byte c b"
  by (simp add: count_byte_def)

lemma count_byte_Cons [simp]: "count_byte c (x # b) = (if x = c then 1 else 0) + count_byte c b"
  by (simp add: count_byte_def)

lemma count_byte_Nil [simp]: "count_byte c [] = 0"
  by (simp add: count_byte_def)

lemma count_byte_0_iff: "count_byte c s = 0 \<longleftrightarrow> c \<notin> set s"
  by (auto simp: count_byte_def filter_empty_conv)

lemma slice_prefix: "go_slice (a @ b) 0 (int (length a)) = Some a"
  by (simp add: go_slice_def)

lemma slice_inner: "go_slice (x # a @ b) 1 (1 + int (length a)) = Some a"
  by (simp add: go_slice_def)

lemma stripPort_total: "\<exists>ip. stripPort addr = Some ip"
  using last_index_less [of "CHR '':''" addr] by (auto simp: stripPort_def Let_def go_slice_def)

lemma stripPort_host_port:
  assumes "CHR '':'' \<notin> set host" and "CHR '':'' \<notin> set port" and "host = [] \<or> hd host \<noteq> CHR ''[''"
  shows "stripPort (host @ CHR '':'' # port) = Some host"
proof -
  have "hd (host @ CHR '':'' # port) \<noteq> CHR ''[''" using assms(3) by (cases host) auto
  moreover have "count_byte CHR '':'' (host @ CHR '':'' # port) = 1"
    using assms(1,2) by (simp add: count_byte_0_iff)
  ultimately show ?thesis
    using last_index_at [OF assms(2), of host] slice_prefix [of host "CHR '':'' # port"]
    by (simp add: stripPort_def Let_def)
qed

lemma stripPort_bracketed:
  assumes "CHR '':'' \<notin> set port" and "ip \<noteq> []"
  shows "stripPort (CHR ''['' # ip @ '']:'' @ port) = Some ip"
proof -
  have "last_index CHR '':'' ((CHR ''['' # ip @ '']'') @ CHR '':'' # port) = int (length ip) + 2"
    using last_index_at [OF assms(1), of "CHR ''['' # ip @ '']''"] by simp
  moreover have "0 < length ip" using assms(2) by simp
  ultimately show ?thesis
    using slice_inner [of "CHR ''[''" ip "'']:'' @ port"] by (simp add: stripPort_def Let_def)
qed

lemma stripPort_plain:
  "addr \<noteq> [] \<Longrightarrow> hd addr \<noteq> CHR ''['' \<Longrightarrow> count_byte CHR '':'' addr \<noteq> 1 \<Longrightarrow> stripPort addr = Some addr"
  by (simp add: stripPort_def)

lemma stripPort_bracketed_no_port:
  assumes "CHR '':'' \<notin> set b" and "a \<noteq> []"
  shows "stripPort (CHR ''['' # a @ CHR '':'' # b @ '']'') = Some (butlast a)"
proof -
  obtain a' z where a: "a = a' @ [z]" using assms(2) by (metis append_butlast_last_id)
  have "last_index CHR '':'' ((CHR ''['' # a) @ CHR '':'' # b @ '']'') = int (length a) + 1"
    using last_index_at [of "CHR '':''" "b @ '']''" "CHR ''['' # a"] assms(1) by simp
  then show ?thesis
    using slice_inner [of "CHR ''[''" a' "z # CHR '':'' # b @ '']''"] by (simp add: stripPort_def Let_def a)
qed

text \<open>A quoted value is trimmed of its quotes when it neither starts nor ends with one itself.\<close>

lemma trim_quotes:
  assumes "s \<noteq> []" and "hd s \<noteq> q" and "last s \<noteq> q"
  shows "trim_both (\<lambda>c. c = q) (q # s @ [q]) = s"
proof -
  have "dropWhile (\<lambda>c. c = q) (q # s @ [q]) = s @ [q]"
    using assms(1,2) by (cases s) auto
  moreover have "dropWhile (\<lambda>c. c = q) (rev s) = rev s"
    using assms(1,3) by (cases "rev s") (auto simp: hd_rev [symmetric])
  ultimately show ?thesis by (simp add: trim_both_def trim_left_def trim_right_def)
qed

lemma is_delim_quote [simp]: "\<not> is_delim CHR 0x22" "\<not> is_delim CHR ''[''" "\<not> is_delim CHR '']''"
  "\<not> is_delim CHR '':''"
  by (simp_all add: is_delim_def)

lemma for_value_at:
  assumes "to_lower f = ''for=''" and "v \<noteq> []"
    and "\<forall>c \<in> set v. \<not> is_delim c"
    and "rest = [] \<or> is_delim (hd rest)"
  shows "for_value (f @ v @ rest) = Some v"
proof -
  have f: "length f = 4" using assms(1) length_to_lower [of f] by simp
  have "has_prefix (to_lower (f @ v @ rest)) ''for=''"
    using assms(1) has_prefix_append [of "''for=''"] by simp
  moreover have "takeWhile (\<lambda>c. \<not> is_delim c) (v @ rest) = v"
    using assms(3,4) by (cases rest) (auto simp: takeWhile_append)
  ultimately show ?thesis using f assms(2) by (cases v) (simp_all add: for_value_def)
qed

lemma forwarded_plain:
  assumes f: "to_lower f = ''for=''" and v: "v \<noteq> []" "hd v \<noteq> CHR ''[''"
    "\<forall>c \<in> set v. \<not> is_delim c \<and> c \<noteq> CHR 0x22 \<and> c \<noteq> CHR '':''"
    and rest: "rest = [] \<or> is_delim (hd rest)"
  shows "forwarded_match (f @ v @ rest) = Some v \<and> forwarded_ip v = Some v"
proof
  show "forwarded_match (f @ v @ rest) = Some v"
    using for_value_at [OF f v(1) _ rest] v(3) by (simp add: forwarded_match_def)
  have q: "dropWhile (\<lambda>c. c = CHR 0x22) xs = xs" if "set xs \<subseteq> set v" for xs
    using that v(3) by (cases xs) auto
  have "trim_both (\<lambda>c. c = CHR 0x22) v = v"
    by (simp add: trim_both_def trim_left_def trim_right_def q)
  moreover have "CHR '':'' \<notin> set v" using v(3) by blast
  then have "count_byte CHR '':'' v \<noteq> 1" by (simp add: count_byte_0_iff [symmetric])
  then have "stripPort v = Some v" using v(1,2) by (intro stripPort_plain)
  ultimately show "forwarded_ip v = Some v"
    using v(1,2) by (cases v) (simp_all add: forwarded_ip_def)
qed

lemma forwarded_quoted:
  assumes f: "to_lower f = ''for=''" and v: "v \<noteq> []" "hd v \<noteq> CHR 0x22" "last v \<noteq> CHR 0x22"
    and c: "\<forall>c \<in> set v. \<not> is_delim c"
  shows "forwarded_match (f @ [CHR 0x22] @ v @ [CHR 0x22]) = Some ([CHR 0x22] @ v @ [CHR 0x22])"
    and "forwarded_ip ([CHR 0x22] @ v @ [CHR 0x22]) =
      (case stripPort v of None \<Rightarrow> None | Some [] \<Rightarrow> None
       | Some (c # cs) \<Rightarrow> if c = CHR ''['' then go_slice (c # cs) 1 (int (length (c # cs)) - 1) else Some (c # cs))"
proof -
  have "for_value (f @ ([CHR 0x22] @ v @ [CHR 0x22]) @ []) = Some ([CHR 0x22] @ v @ [CHR 0x22])"
    by (rule for_value_at [OF f]) (use c in auto)
  then show "forwarded_match (f @ [CHR 0x22] @ v @ [CHR 0x22]) = Some ([CHR 0x22] @ v @ [CHR 0x22])"
    by (simp add: forwarded_match_def)
  have "trim_both (\<lambda>c. c = CHR 0x22) ([CHR 0x22] @ v @ [CHR 0x22]) = v"
    using trim_quotes [OF v] by simp
  then show "forwarded_ip ([CHR 0x22] @ v @ [CHR 0x22]) =
      (case stripPort v of None \<Rightarrow> None | Some [] \<Rightarrow> None
       | Some (c # cs) \<Rightarrow> if c = CHR ''['' then go_slice (c # cs) 1 (int (length (c # cs)) - 1) else Some (c # cs))"
    unfolding forwarded_ip_def by presburger
qed

lemma GetClientIP_Forwarded:
  assumes "stripPort remote = Some addr" and "IsTrusted l addr" and "header_get hs ''Forwarded'' = h" and "h \<noteq> []"
    and "forwarded_match h = Some m"
  shows "GetClientIP l remote hs = forwarded_ip m"
  using assms by (simp add: GetClientIP_def GetIPFromHeaders_def Let_def split: option.splits)

lemma hd_splitn: "hd (splitn 2 c s) = hd (split_on c s)"
proof (cases "cut_byte c s")
  case None
  then show ?thesis by (simp add: eval_nat_numeral) (simp add: cut_byte_None_iff)
next
  case (Some ab)
  then obtain a b where "cut_byte c s = Some (a, b)" by (cases ab) simp
  then show ?thesis using cut_byte_SomeD [of c s a b] by (simp add: eval_nat_numeral split_on_append)
qed

subsection \<open>Properties\<close>

text \<open>
  The address of a peer is stripped of its port for a host name or an IPv4 address with a port
  and for a bracketed IPv6 address with a port, and is taken as it is without a port; stripping
  never panics.  When the peer is not trusted no header has any influence on the client's address.
\<close>

lemma client_ip_of_remote_address:
  assumes "CHR '':'' \<notin> set port" and "CHR '':'' \<notin> set host" and "host \<noteq> []" and "hd host \<noteq> CHR ''[''"
    and "1 < count_byte CHR '':'' ip6" and "hd ip6 \<noteq> CHR ''[''"
  shows "(\<not> IsTrusted l host \<longrightarrow> GetClientIP l (host @ CHR '':'' # port) hs = Some host
           \<and> GetClientIP l host hs = Some host)
    \<and> (\<not> IsTrusted l ip6 \<longrightarrow> GetClientIP l (CHR ''['' # ip6 @ '']:'' @ port) hs = Some ip6
           \<and> GetClientIP l ip6 hs = Some ip6)
    \<and> (\<exists>ip. stripPort remote = Some ip)"
proof -
  have "ip6 \<noteq> []" using assms(5) by auto
  moreover have "count_byte CHR '':'' host \<noteq> 1" using assms(2) count_byte_0_iff [of "CHR '':''" host] by simp
  ultimately show ?thesis
    using stripPort_host_port [OF assms(2,1)] stripPort_bracketed [OF assms(1), of ip6]
      stripPort_plain [of host] stripPort_plain [of ip6] stripPort_total [of remote] assms
    by (simp add: GetClientIP_def)
qed

lemma client_ip_of_remote_address_witness:
  "GetClientIP NewListUntrustAll ''10.0.0.1:80'' [(''X-Real-Ip'', ''1.2.3.4'')] = Some ''10.0.0.1''
   \<and> GetClientIP (NewList [''10.0.0.2'']) ''[fe80::1]:80'' [(''X-Real-Ip'', ''1.2.3.4'')] = Some ''fe80::1''"
  using client_ip_of_remote_address [of "''80''" "''10.0.0.1''" "''fe80::1''" NewListUntrustAll
      "[(''X-Real-Ip'', ''1.2.3.4'')]" "[]"]
    client_ip_of_remote_address [of "''80''" "''10.0.0.1''" "''fe80::1''" "NewList [''10.0.0.2'']"
      "[(''X-Real-Ip'', ''1.2.3.4'')]" "[]"]
  by (simp add: NewListUntrustAll_def NewList_def IsTrusted_def)

text \<open>
  The headers of a trusted peer are looked at in a fixed order.  The \<open>for\<close> parameter of
  \<open>Forwarded\<close>, in any case of its letters, in the first element or after a semicolon that no other
  one precedes, decides first: a plain address is taken as it is, an address in quotes and brackets
  is unwrapped when it has a port.  Without one the first element of \<open>X-Forwarded-For\<close> decides,
  then \<open>X-Real-Ip\<close>, and without any header the address of the peer.
\<close>

lemma client_ip_of_headers:
  assumes "stripPort remote = Some addr" and "IsTrusted l addr"
  shows "(\<forall>f v rest. to_lower f = ''for='' \<and> v \<noteq> [] \<and> (\<forall>c \<in> set v. \<not> is_delim c \<and> c \<noteq> CHR 0x22 \<and> c \<noteq> CHR '':'')
            \<and> hd v \<noteq> CHR ''['' \<and> (rest = [] \<or> is_delim (hd rest))
            \<and> header_get hs ''Forwarded'' = f @ v @ rest
          \<longrightarrow> GetClientIP l remote hs = Some v)
    \<and> (\<forall>f ip port. to_lower f = ''for='' \<and> ip \<noteq> [] \<and> hd ip \<noteq> CHR ''['' \<and> (\<forall>c \<in> set (ip @ port). \<not> is_delim c \<and> c \<noteq> CHR 0x22)
            \<and> CHR '':'' \<notin> set port
            \<and> header_get hs ''Forwarded'' = f @ [CHR 0x22] @ (CHR ''['' # ip @ '']:'' @ port) @ [CHR 0x22]
          \<longrightarrow> GetClientIP l remote hs = Some ip)
    \<and> (header_get hs ''Forwarded'' = [] \<longrightarrow>
          GetClientIP l remote hs = Some
            (if header_get hs ''X-Forwarded-For'' \<noteq> [] then hd (split_on CHR '','' (header_get hs ''X-Forwarded-For''))
             else if header_get hs ''X-Real-Ip'' \<noteq> [] then header_get hs ''X-Real-Ip'' else addr))"
  (is "?plain \<and> ?quoted \<and> ?none")
proof (intro conjI)
  show ?plain
  proof (intro allI impI, elim conjE)
    fix f v rest
    assume v: "to_lower f = ''for=''" "v \<noteq> []" "hd v \<noteq> CHR ''[''"
      "\<forall>c \<in> set v. \<not> is_delim c \<and> c \<noteq> CHR 0x22 \<and> c \<noteq> CHR '':''" "rest = [] \<or> is_delim (hd rest)"
      and h: "header_get hs ''Forwarded'' = f @ v @ rest"
    show "GetClientIP l remote hs = Some v"
      using GetClientIP_Forwarded [OF assms h] forwarded_plain [OF v] v(2) by simp
  qed
  show ?quoted
  proof (intro allI impI, elim conjE)
    fix f ip port
    let ?v = "CHR ''['' # ip @ '']:'' @ port"
    assume f: "to_lower f = ''for=''" and ip: "ip \<noteq> []" "hd ip \<noteq> CHR ''[''" and p: "CHR '':'' \<notin> set port"
      and c: "\<forall>c \<in> set (ip @ port). \<not> is_delim c \<and> c \<noteq> CHR 0x22"
      and h: "header_get hs ''Forwarded'' = f @ [CHR 0x22] @ ?v @ [CHR 0x22]"
    have v: "?v \<noteq> []" "hd ?v \<noteq> CHR 0x22" "\<forall>c \<in> set ?v. \<not> is_delim c" using c by auto
    have l: "last ?v \<noteq> CHR 0x22" using c by (cases "port = []") (auto simp: last_append)
    show "GetClientIP l remote hs = Some ip"
      using GetClientIP_Forwarded [OF assms h _ forwarded_quoted(1) [OF f v(1,2) l v(3)]]
        forwarded_quoted(2) [OF f v(1,2) l v(3)] stripPort_bracketed [OF p ip(1)] ip
      by (cases ip) simp_all
  qed
  show ?none
    using assms by (simp add: GetClientIP_def GetIPFromHeaders_def Let_def hd_splitn)
qed

lemma client_ip_of_headers_witness:
  "GetClientIP NewListTrustAll ''10.0.0.1:80''
     [(''forwarded'', ''For='' @ [CHR 0x22] @ ''[2001:db8::17]:4711'' @ [CHR 0x22])] = Some ''2001:db8::17''"
proof -
  have "stripPort ''10.0.0.1:80'' = Some ''10.0.0.1''" and "IsTrusted NewListTrustAll ''10.0.0.1''"
    and "to_lower ''For='' = ''for=''" and "equal_fold ''forwarded'' ''Forwarded''"
    by code_simp+
  then show ?thesis
    using client_ip_of_headers [of "''10.0.0.1:80''" "''10.0.0.1''" NewListTrustAll
        "[(''forwarded'', ''For='' @ [CHR 0x22] @ ''[2001:db8::17]:4711'' @ [CHR 0x22])]",
        THEN conjunct2, THEN conjunct1, rule_format, of "''For=''" "''2001:db8::17''" "''4711''"]
    by (simp add: is_delim_def)
qed

text \<open>
  A bracketed IPv6 address without a port is mistaken for one with a port: the address that
  \<open>Forwarded\<close> names loses its last group and the character before it, and when nothing is left, as
  for \<open>[::1]\<close>, the handler of the request panics.
\<close>

lemma forwarded_ipv6_without_port:
  assumes "stripPort remote = Some addr" and "IsTrusted l addr"
    and "header_get hs ''Forwarded'' = ''for='' @ [CHR 0x22] @ (CHR ''['' # a @ CHR '':'' # b @ '']'') @ [CHR 0x22]"
    and "CHR '':'' \<notin> set b" and "a \<noteq> []" and "hd a \<noteq> CHR ''[''"
    and "\<forall>c \<in> set (a @ b). \<not> is_delim c \<and> c \<noteq> CHR 0x22"
  shows "GetClientIP l remote hs = (if length a = 1 then None else Some (butlast a))"
proof -
  let ?v = "CHR ''['' # a @ CHR '':'' # b @ '']''"
  have f: "to_lower ''for='' = ''for=''" by code_simp
  have v: "?v \<noteq> []" "hd ?v \<noteq> CHR 0x22" "last ?v \<noteq> CHR 0x22" "\<forall>c \<in> set ?v. \<not> is_delim c"
    using assms(7) by auto
  have "GetClientIP l remote hs = forwarded_ip ([CHR 0x22] @ ?v @ [CHR 0x22])"
    using GetClientIP_Forwarded [OF assms(1-3) _ forwarded_quoted(1) [OF f v]] by simp
  also have "\<dots> = (if length a = 1 then None else Some (butlast a))"
  proof (cases a)
    case (Cons x xs)
    then show ?thesis
      using forwarded_quoted(2) [OF f v] stripPort_bracketed_no_port [OF assms(4,5)] assms(6)
      by (cases xs) simp_all
  qed (use assms(5) in simp)
  finally show ?thesis .
qed

lemma forwarded_ipv6_without_port_witness:
  "GetClientIP NewListTrustAll ''10.0.0.1:80''
     [(''Forwarded'', ''for='' @ [CHR 0x22] @ ''[::1]'' @ [CHR 0x22])] = None
   \<and> GetClientIP NewListTrustAll ''10.0.0.1:80''
     [(''Forwarded'', ''for='' @ [CHR 0x22] @ ''[2001:db8::17]'' @ [CHR 0x22])] = Some ''2001:db8''"
proof -
  have r: "stripPort ''10.0.0.1:80'' = Some ''10.0.0.1''" "IsTrusted NewListTrustAll ''10.0.0.1''"
    by code_simp+
  show ?thesis
    using forwarded_ipv6_without_port [OF r, of "[(''Forwarded'', ''for='' @ [CHR 0x22] @ ''[::1]'' @ [CHR 0x22])]" "'':''" "''1''"]
      forwarded_ipv6_without_port [OF r, of "[(''Forwarded'', ''for='' @ [CHR 0x22] @ ''[2001:db8::17]'' @ [CHR 0x22])]" "''2001:db8:''" "''17''"]
    by (simp add: is_delim_def)
qed

end
