(* ===== verification/Backoff.thy ===== *)
theory Backoff
  imports Errors
begin

section \<open>Exponential backoff (pkg/backoff/backoff.go)\<close>

text \<open>
  \<open>ExponentialBackoff\<close> with its three durations kept at their width, a signed 64-bit count of
  nanoseconds: \<open>Delay *= 2\<close> is a multiplication of words.  \<open>bo_wait\<close> is \<open>Wait\<close>; the sleep has no
  state, so the call is given what the context says: the error of a context that is done before
  or during the sleep, if it is.  \<open>bo_maxed\<close> is \<open>Maxed\<close>, which also runs \<open>init\<close>.

  The lemmas show that the delay never exceeds \<open>Max\<close>, and that a bounded number of waits reaches
  \<open>Max\<close>, on which the retry loops of the program rest.
\<close>

type_synonym duration = "64 word"

abbreviation millisecond :: duration where
  "millisecond \<equiv> 1000000"

abbreviation second :: duration where
  "second \<equiv> 1000000000"

record backoff =
  bo_Delay :: duration
  bo_Max :: duration
  bo_Min :: duration

definition bo_init :: "backoff \<Rightarrow> backoff" where
  "bo_init b =
     (let b1 = (if bo_Max b = 0 then b\<lparr>bo_Max := second\<rparr> else b)
      in if bo_Min b1 = 0 then b1\<lparr>bo_Min := 5 * millisecond\<rparr> else b1)"

definition bo_next :: "backoff \<Rightarrow> duration" where
  "bo_next b =
     (let d = (if bo_Delay b = 0 then bo_Min b else bo_Delay b * 2)
      in if bo_Max b <s d then bo_Max b else d)"

definition bo_wait :: "err option \<Rightarrow> backoff \<Rightarrow> err option \<times> backoff" where
  "bo_wait ctx b = (let b1 = bo_init b in (ctx, b1\<lparr>bo_Delay := bo_next b1\<rparr>))"

definition bo_maxed :: "backoff \<Rightarrow> bool \<times> backoff" where
  "bo_maxed b = (let b1 = bo_init b in (bo_Delay b1 = bo_Max b1, b1))"

subsection \<open>Facts\<close>

lemma bo_init_Delay [simp]: "bo_Delay (bo_init b) = bo_Delay b"
  by (simp add: bo_init_def Let_def)

lemma bo_init_nonzero [simp]: "bo_Max (bo_init b) \<noteq> 0" "bo_Min (bo_init b) \<noteq> 0"
  by (auto simp: bo_init_def Let_def)

lemma bo_init_idem [simp]: "bo_init (bo_init b) = bo_init b"
  by (auto simp: bo_init_def Let_def)

lemma bo_init_set_Delay [simp]:
  "bo_init (bo_init b\<lparr>bo_Delay := d\<rparr>) = bo_init b\<lparr>bo_Delay := d\<rparr>"
  by (auto simp: bo_init_def Let_def)

text \<open>The state after one call of \<open>Wait\<close>.\<close>

definition waited :: "backoff \<Rightarrow> backoff" where
  "waited b = (bo_init b)\<lparr>bo_Delay := bo_next (bo_init b)\<rparr>"

lemma bo_wait_simps [simp]:
  "fst (bo_wait ctx b) = ctx"
  "snd (bo_wait ctx b) = waited b"
  "bo_Max (waited b) = bo_Max (bo_init b)"
  "bo_Min (waited b) = bo_Min (bo_init b)"
  "bo_Delay (waited b) = bo_next (bo_init b)"
  "bo_init (waited b) = waited b"
  by (simp_all add: bo_wait_def waited_def Let_def)

lemma bo_maxed_simps [simp]:
  "fst (bo_maxed b) \<longleftrightarrow> bo_Delay b = bo_Max (bo_init b)"
  "snd (bo_maxed b) = bo_init b"
  by (simp_all add: bo_maxed_def Let_def)

lemma bo_next_le_Max: "\<not> bo_Max b <s bo_next b"
  by (simp add: bo_next_def Let_def word_sless_alt)

text \<open>
  A configuration whose durations are positive and whose maximum leaves room for one doubling
  (about 146 years) never overflows.
\<close>

definition bo_sane :: "backoff \<Rightarrow> bool" where
  "bo_sane b \<longleftrightarrow>
     0 < sint (bo_Min (bo_init b)) \<and> 0 < sint (bo_Max (bo_init b))
     \<and> sint (bo_Max (bo_init b)) < 2 ^ 62
     \<and> 0 \<le> sint (bo_Delay b) \<and> sint (bo_Delay b) \<le> sint (bo_Max (bo_init b))"

lemma sint_double:
  fixes d :: duration
  assumes "0 \<le> sint d" and "sint d < 2 ^ 62"
  shows "sint (d * 2) = 2 * sint d"
proof -
  have "sint (d * 2) = signed_take_bit 63 (sint d * sint (2 :: duration))"
    by (simp add: sint_word_ariths)
  also have "\<dots> = sint d * 2"
    using assms by (simp add: signed_take_bit_int_eq_self)
  finally show ?thesis by simp
qed

lemma sint_bo_next:
  assumes "bo_sane b"
  shows "sint (bo_next (bo_init b)) =
    min (sint (bo_Max (bo_init b)))
        (if bo_Delay b = 0 then sint (bo_Min (bo_init b)) else 2 * sint (bo_Delay b))"
  using assms by (auto simp: bo_next_def Let_def bo_sane_def word_sless_alt sint_double)

lemma bo_sane_waited:
  assumes "bo_sane b"
  shows "bo_sane (waited b)"
proof -
  have "0 \<le> sint (bo_next (bo_init b))" and "sint (bo_next (bo_init b)) \<le> sint (bo_Max (bo_init b))"
    using assms by (auto simp: sint_bo_next bo_sane_def)
  with assms show ?thesis by (simp add: bo_sane_def)
qed

lemma bo_sane_funpow: "bo_sane b \<Longrightarrow> bo_sane ((waited ^^ n) b)"
  by (induction n) (auto intro: bo_sane_waited)

lemma bo_sane_init [simp]: "bo_sane (bo_init b) = bo_sane b"
  by (simp add: bo_sane_def)

lemma waited_grows:
  assumes "bo_sane b" and "b' = (waited ^^ Suc n) b"
  shows "min (sint (bo_Max (bo_init b))) (2 ^ n) \<le> sint (bo_Delay b')"
  using assms(2)
proof (induction n arbitrary: b')
  case 0
  have "sint (bo_Delay b) \<noteq> 0" if "bo_Delay b \<noteq> 0"
    using that word_eq_iff_signed [of "bo_Delay b" 0] by simp
  with 0 assms(1) sint_bo_next [OF assms(1)] show ?case by (auto simp: bo_sane_def)
next
  case (Suc n)
  define c where "c = (waited ^^ Suc n) b"
  have c: "bo_sane c" and b': "b' = waited c"
    using bo_sane_funpow [OF assms(1), of "Suc n"] Suc.prems by (simp_all add: c_def)
  have M: "bo_Max (bo_init c) = bo_Max (bo_init b)"
    unfolding c_def by (induction n) auto
  have IH: "min (sint (bo_Max (bo_init b))) (2 ^ n) \<le> sint (bo_Delay c)"
    by (rule Suc.IH) (simp add: c_def)
  moreover have "0 < sint (bo_Max (bo_init b))"
    using assms(1) by (simp add: bo_sane_def)
  moreover from this IH have "0 < sint (bo_Delay c)"
    by (smt (verit, best) zero_less_power)
  ultimately show ?case
    unfolding b' using sint_bo_next [OF c] M by auto
qed

text \<open>Sixty-three waits reach the maximum, from any starting delay.\<close>

lemma waited_maxed:
  assumes "bo_sane b"
  shows "fst (bo_maxed ((waited ^^ 63) b))"
proof -
  let ?b = "(waited ^^ 63) b"
  have M: "bo_Max (bo_init ((waited ^^ n) b)) = bo_Max (bo_init b)" for n
    by (induction n) auto
  have "min (sint (bo_Max (bo_init b))) (2 ^ 62) \<le> sint (bo_Delay ?b)"
    by (rule waited_grows [OF assms]) (simp add: numeral_eq_Suc)
  moreover have "sint (bo_Max (bo_init b)) < 2 ^ 62"
    using assms by (simp add: bo_sane_def)
  moreover have "sint (bo_Delay ?b) \<le> sint (bo_Max (bo_init b))"
    using bo_sane_funpow [OF assms, of 63] M [of 63] by (simp add: bo_sane_def)
  ultimately have "sint (bo_Delay ?b) = sint (bo_Max (bo_init ?b))"
    using M [of 63] by simp
  then have "bo_Delay ?b = bo_Max (bo_init ?b)"
    by (rule signed_word_eqI)
  then show ?thesis by simp
qed

lemma waited_stays_maxed:
  assumes "bo_sane b" and "fst (bo_maxed b)"
  shows "fst (bo_maxed (waited b))"
proof -
  have "sint (bo_next (bo_init b)) = sint (bo_Max (bo_init b))"
    using assms sint_bo_next [OF assms(1)] by (auto simp: bo_sane_def)
  then have "bo_next (bo_init b) = bo_Max (bo_init b)"
    by (rule signed_word_eqI)
  then show ?thesis by simp
qed

end
