(* ===== verification/Engine.thy ===== *)
theory Engine
  imports Backoff "HOL-Library.AList" "HOL-Library.Multiset"
begin

section \<open>The interface of the storage engine (BadgerDB)\<close>

text \<open>
  BadgerDB is a library: what the program calls of it is a record of operations, an argument of
  every definition that uses the store.  A value of type \<open>'s\<close> is what a transaction sees.
  \<^item> \<open>tx_get\<close>: \<open>txn.Get\<close> followed by reading the value; an error when there is none.
  \<^item> \<open>tx_set\<close>: \<open>txn.SetEntry\<close> of a key, a value and the Unix time \<open>ExpiresAt\<close> (\<open>txn.Set\<close> is
    \<open>ExpiresAt = 0\<close>, which never expires).
  \<^item> \<open>tx_delete\<close>: \<open>txn.Delete\<close>.
  \<^item> \<open>tx_iterate\<close> \<open>s prefix start\<close>: the items an iterator with \<open>opt.Prefix\<close> visits from
    \<open>Seek(start)\<close> on (\<open>Rewind\<close> is \<open>Seek(prefix)\<close>).
  \<^item> \<open>tx_commit\<close> \<open>s t\<close>: committing the transaction that began in \<open>s\<close> and made it \<open>t\<close>; the error
    or \<open>nil\<close>, and what the next transaction sees.

  The locale \<open>badger_txn\<close> states the documented behaviour the program relies on, with the
  contents \<open>view\<close> of a state (expired and deleted keys are not in it) and the expiry times \<open>live\<close>
  that are still to come; \<open>badger_total\<close> adds that nothing fails.  The list store at the end
  of the theory satisfies both, for every reading of the clock.
\<close>

record 's engine =
  tx_get :: "'s \<Rightarrow> bytes \<Rightarrow> err + bytes"
  tx_set :: "'s \<Rightarrow> bytes \<Rightarrow> bytes \<Rightarrow> u64 \<Rightarrow> err option \<times> 's"
  tx_delete :: "'s \<Rightarrow> bytes \<Rightarrow> err option \<times> 's"
  tx_iterate :: "'s \<Rightarrow> bytes \<Rightarrow> bytes \<Rightarrow> (bytes \<times> bytes) list"
  tx_commit :: "'s \<Rightarrow> 's \<Rightarrow> err option \<times> 's"

subsection \<open>Transactions: db.Update and txnWithBackoff\<close>

text \<open>\<open>db.Update\<close>: an error of the function discards what it wrote; otherwise the commit decides.\<close>

definition db_update :: "'s engine \<Rightarrow> ('s \<Rightarrow> err option \<times> 's) \<Rightarrow> 's \<Rightarrow> err option \<times> 's" where
  "db_update B f s =
     (case f s of
        (Some e, t) \<Rightarrow> (Some e, s)
      | (None, t) \<Rightarrow> tx_commit B s t)"

text \<open>
  \<open>txnWithBackoff\<close> (pkg/auth/badgerauth/db.go): retry while the commit reports a conflict and
  the backoff has not maxed out.  \<open>ctx n\<close> is what the context says at the \<open>n\<close>-th wait.  The loop
  works on its own copy of the configured backoff.  \<open>None\<close> is "does not return".
\<close>

partial_function (option) backoff_loop ::
  "'s engine \<Rightarrow> (nat \<Rightarrow> err option) \<Rightarrow> ('s \<Rightarrow> err option \<times> 's) \<Rightarrow> backoff \<Rightarrow> nat \<Rightarrow> 's
    \<Rightarrow> (err option \<times> 's) option" where
  "backoff_loop B ctx f b n s =
     (case db_update B f s of
        (None, s') \<Rightarrow> Some (None, s')
      | (Some e, s') \<Rightarrow>
          (if is_err (Badger ErrConflict) e \<and> \<not> fst (bo_maxed b) then
             (case bo_wait (ctx n) b of
                (Some e', b') \<Rightarrow> Some (Some e', s')
              | (None, b') \<Rightarrow> backoff_loop B ctx f b' (Suc n) s')
           else Some (Some e, s')))"

definition txn_with_backoff ::
  "'s engine \<Rightarrow> backoff \<Rightarrow> (nat \<Rightarrow> err option) \<Rightarrow> ('s \<Rightarrow> err option \<times> 's) \<Rightarrow> 's
    \<Rightarrow> (err option \<times> 's) option" where
  "txn_with_backoff B conflictBackoff ctx f s = backoff_loop B ctx f conflictBackoff 0 s"

lemma backoff_loop_Some:
  assumes "bo_sane b" and "fst (bo_maxed ((waited ^^ k) b))"
  shows "\<exists>r. backoff_loop B ctx f b n s = Some r"
  using assms
proof (induction k arbitrary: b n s)
  case 0
  then show ?case
    by (subst backoff_loop.simps) (auto split: prod.splits option.splits)
next
  case (Suc k)
  have next_ok: "\<exists>r. backoff_loop B ctx f (waited b) (Suc n) s' = Some r" for s'
    by (rule Suc.IH) (use Suc.prems in \<open>auto intro: bo_sane_waited simp: funpow_swap1\<close>)
  obtain e' b' where w: "bo_wait (ctx n) b = (e', b')" by fastforce
  then have "b' = waited b"
    by (metis bo_wait_simps(2) snd_conv)
  with w next_ok show ?case
    by (subst backoff_loop.simps) (auto split: prod.splits option.splits)
qed

text \<open>The retry loop returns: a configuration without overflow maxes out after 63 waits.\<close>

lemma txn_with_backoff_returns:
  assumes "bo_sane b"
  shows "\<exists>r. txn_with_backoff B b ctx f s = Some r"
  unfolding txn_with_backoff_def
  by (rule backoff_loop_Some [OF assms waited_maxed [OF assms]])

lemma txn_with_backoff_step:
  assumes "db_update B f s = (None, s')"
  shows "txn_with_backoff B b ctx f s = Some (None, s')"
  using assms unfolding txn_with_backoff_def by (subst backoff_loop.simps) simp

lemma txn_with_backoff_abort:
  assumes "f s = (Some e, t)" and "\<not> is_err (Badger ErrConflict) e"
  shows "txn_with_backoff B b ctx f s = Some (Some e, s)"
  using assms unfolding txn_with_backoff_def
  by (subst backoff_loop.simps) (simp add: db_update_def)

text \<open>
  A proof rule for the loop: a property that failed attempts keep holds before the last one, and
  what the last one establishes is the result.
\<close>

lemma backoff_loop_rule:
  assumes ret: "backoff_loop B ctx f b n s = Some r"
    and start: "P s"
    and keep: "\<And>s e s'. P s \<Longrightarrow> db_update B f s = (Some e, s') \<Longrightarrow> P s'"
    and ok: "\<And>s s'. P s \<Longrightarrow> db_update B f s = (None, s') \<Longrightarrow> Q (None, s')"
    and failed: "\<And>e s. P s \<Longrightarrow> Q (Some e, s)"
  shows "Q r"
proof -
  have "B' = B \<longrightarrow> f' = f \<longrightarrow> P s \<longrightarrow> Q r"
    if "backoff_loop B' ctx f' b n s = Some r" for B' f' b n s r
    using that
  proof (rule backoff_loop.raw_induct [where P = "\<lambda>B' ctx f' b n s r.
      B' = B \<longrightarrow> f' = f \<longrightarrow> P s \<longrightarrow> Q r", rotated])
    fix loop B' ctx' f' b n s r
    assume IH: "\<And>B' ctx' f' b n s r. loop B' ctx' f' b n s = Some r \<Longrightarrow>
        B' = B \<longrightarrow> f' = f \<longrightarrow> P s \<longrightarrow> Q r"
      and eq: "(case db_update B' f' s of
          (None, s') \<Rightarrow> Some (None, s')
        | (Some e, s') \<Rightarrow>
            (if is_err (Badger ErrConflict) e \<and> \<not> fst (bo_maxed b) then
               (case bo_wait (ctx' n) b of
                  (Some e', b') \<Rightarrow> Some (Some e', s')
                | (None, b') \<Rightarrow> loop B' ctx' f' b' (Suc n) s')
             else Some (Some e, s'))) = Some r"
    show "B' = B \<longrightarrow> f' = f \<longrightarrow> P s \<longrightarrow> Q r"
    proof (intro impI)
      assume B': "B' = B" and f': "f' = f" and P: "P s"
      obtain res s1 where u: "db_update B f s = (res, s1)" by fastforce
      show "Q r"
      proof (cases res)
        case None
        with u eq B' f' ok [OF P, of s1] show ?thesis by auto
      next
        case (Some e)
        with u P have P1: "P s1" by (auto intro: keep)
        obtain e' b' where w: "bo_wait (ctx' n) b = (e', b')" by fastforce
        from eq have "r = (Some e, s1) \<or> (\<exists>e''. r = (Some e'', s1))
            \<or> loop B' ctx' f' b' (Suc n) s1 = Some r"
          unfolding B' f' using u Some w by (auto split: if_splits option.splits)
        with P1 B' f' IH failed show ?thesis by blast
      qed
    qed
  qed
  with ret start show ?thesis by blast
qed

text \<open>What a run of the loop did: one committed run of \<open>f\<close>, from a state it reached by failures.\<close>

lemma backoff_loop_committed:
  assumes "backoff_loop B ctx f b n s = Some (None, s')"
    and "P s"
    and "\<And>s e s'. P s \<Longrightarrow> db_update B f s = (Some e, s') \<Longrightarrow> P s'"
  shows "\<exists>u t. P u \<and> f u = (None, t) \<and> tx_commit B u t = (None, s')"
  using backoff_loop_rule [OF assms(1), where P = P and Q = "\<lambda>r. case r of (None, s') \<Rightarrow>
      \<exists>u t. P u \<and> f u = (None, t) \<and> tx_commit B u t = (None, s') | _ \<Rightarrow> True"] assms(2,3)
  by (fastforce simp: db_update_def split: prod.splits option.splits)

subsection \<open>What the program relies on\<close>

locale badger_txn =
  fixes B :: "'s engine" and view :: "'s \<Rightarrow> bytes \<Rightarrow> bytes option" and live :: "u64 \<Rightarrow> bool"
  assumes get: "tx_get B s k =
      (if k = [] then Inl (badger_err ErrEmptyKey)
       else case view s k of None \<Rightarrow> Inl (badger_err ErrKeyNotFound) | Some v \<Rightarrow> Inr v)"
    and set_view: "tx_set B s k v x = (None, t) \<Longrightarrow>
      view t = (view s)(k := (if live x then Some v else None))"
    and delete_view: "tx_delete B s k = (None, t) \<Longrightarrow> view t = (view s)(k := None)"
    and iterate_set: "set (tx_iterate B s p a) =
      {(k, v). view s k = Some v \<and> has_prefix k p \<and> a \<le> k}"
    and iterate_sorted: "sorted_wrt (<) (map fst (tx_iterate B s p a))"
    and commit_view: "tx_commit B s t = (None, u) \<Longrightarrow> view u = view t"
    and commit_error: "tx_commit B s t = (Some e, u) \<Longrightarrow> view u = view s"
    and live_0: "live 0"
    and view_Nil: "view s [] = None"
begin

lemma get_some [store_simps]: "view s k = Some v \<Longrightarrow> tx_get B s k = Inr v"
  using view_Nil by (auto simp: get)

lemma get_none [store_simps]:
  "view s k = None \<Longrightarrow> k \<noteq> [] \<Longrightarrow> tx_get B s k = Inl (badger_err ErrKeyNotFound)"
  by (simp add: get)

lemma get_Inr_iff: "tx_get B s k = Inr v \<longleftrightarrow> view s k = Some v"
  using view_Nil by (auto simp: get split: option.splits if_splits)

lemma set_view0 [store_simps]: "tx_set B s k v 0 = (None, t) \<Longrightarrow> view t = (view s)(k \<mapsto> v)"
  using set_view live_0 by simp

lemma update_error_view:
  assumes "db_update B f s = (Some e, s')"
  shows "view s' = view s"
  using assms by (auto simp: db_update_def commit_error split: option.splits prod.splits)

lemma update_ok_view:
  assumes "db_update B f s = (None, s')"
  obtains t where "f s = (None, t)" and "view s' = view t"
  using assms by (auto simp: db_update_def commit_view split: option.splits prod.splits)

text \<open>
  The two outcomes of a write with backoff: it committed one run of \<open>f\<close> from an unchanged view,
  or it returned an error and left the view unchanged.
\<close>

lemma update_error_keeps:
  "view u = view s \<Longrightarrow> db_update B f u = (Some e, s') \<Longrightarrow> view s' = view s"
  using update_error_view [of f u e s'] by simp

lemma txn_with_backoff_ok:
  assumes "txn_with_backoff B b ctx f s = Some (None, s')"
  obtains u t where "view u = view s" and "f u = (None, t)" and "view s' = view t"
proof -
  have "\<exists>u t. view u = view s \<and> f u = (None, t) \<and> tx_commit B u t = (None, s')"
    using assms unfolding txn_with_backoff_def
    by (rule backoff_loop_committed) (auto intro: update_error_keeps)
  with that commit_view show thesis by blast
qed

lemma backoff_loop_error_view:
  assumes "backoff_loop B ctx f b n s = Some (Some e, s')"
  shows "view s' = view s"
proof -
  have "(\<lambda>r. fst r = None \<or> view (snd r) = view s) (Some e, s')"
    using assms by (rule backoff_loop_rule [where P = "\<lambda>u. view u = view s"])
      (auto intro: update_error_keeps)
  then show ?thesis by simp
qed

lemma txn_with_backoff_error:
  "txn_with_backoff B b ctx f s = Some (Some e, s') \<Longrightarrow> view s' = view s"
  unfolding txn_with_backoff_def by (rule backoff_loop_error_view)

end

locale badger_total = badger_txn +
  assumes set_total: "k \<noteq> [] \<Longrightarrow> fst (tx_set B s k v x) = None"
    and delete_total: "k \<noteq> [] \<Longrightarrow> fst (tx_delete B s k) = None"
    and commit_total: "fst (tx_commit B s t) = None"
begin

lemma update_total:
  assumes "f s = (None, t)"
  obtains s' where "db_update B f s = (None, s')" and "view s' = view t"
proof -
  obtain s' where "tx_commit B s t = (None, s')"
    using commit_total by (metis prod.collapse)
  with assms commit_view that show thesis by (auto simp: db_update_def)
qed

lemma txn_with_backoff_total:
  assumes "f s = (None, t)"
  obtains s' where "txn_with_backoff B b ctx f s = Some (None, s')" and "view s' = view t"
  using update_total [where f = f and s = s, OF assms] txn_with_backoff_step by metis

lemma set_totalE:
  assumes "k \<noteq> []"
  obtains t where "tx_set B s k v x = (None, t)"
    and "view t = (view s)(k := (if live x then Some v else None))"
  using set_total [OF assms] set_view by (metis prod.collapse)

lemma delete_totalE:
  assumes "k \<noteq> []"
  obtains t where "tx_delete B s k = (None, t)" and "view t = (view s)(k := None)"
  using delete_total [OF assms] delete_view by (metis prod.collapse)

end

subsection \<open>A list store\<close>

text \<open>
  The store as a list of key-value pairs, the latest first, at the Unix time \<open>now\<close>: an engine
  without failures that satisfies every law above.
\<close>

definition unexpired :: "nat \<Rightarrow> u64 \<Rightarrow> bool" where
  "unexpired now x = (x = 0 \<or> now < unat x)"

definition list_engine :: "nat \<Rightarrow> (bytes \<times> bytes) list engine" where
  "list_engine now =
     \<lparr>tx_get = (\<lambda>s k. if k = [] then Inl (badger_err ErrEmptyKey)
                     else case map_of s k of
                        None \<Rightarrow> Inl (badger_err ErrKeyNotFound) | Some v \<Rightarrow> Inr v),
      tx_set = (\<lambda>s k v x. if k = [] then (Some (badger_err ErrEmptyKey), s)
                          else (None, if unexpired now x then AList.update k v s
                                      else AList.delete k s)),
      tx_delete = (\<lambda>s k. if k = [] then (Some (badger_err ErrEmptyKey), s)
                         else (None, AList.delete k s)),
      tx_iterate = (\<lambda>s p a. sort_key fst
                      (filter (\<lambda>(k, v). k \<noteq> [] \<and> has_prefix k p \<and> a \<le> k) (AList.clearjunk s))),
      tx_commit = (\<lambda>s t. (None, t))\<rparr>"

definition list_view :: "(bytes \<times> bytes) list \<Rightarrow> bytes \<Rightarrow> bytes option" where
  "list_view s k = (if k = [] then None else map_of s k)"

lemma sorted_wrt_less_sort_key:
  assumes "distinct (map fst xs)"
  shows "sorted_wrt (<) (map fst (sort_key fst xs :: ('a::linorder \<times> 'b) list))"
proof -
  have "mset (map fst (sort_key fst xs)) = mset (map fst xs)" by simp
  then have "distinct (map fst (sort_key fst xs))"
    using assms by (metis mset_eq_imp_distinct_iff)
  then show ?thesis by (simp add: strict_sorted_iff)
qed

lemma map_of_filter_key:
  "map_of (filter (\<lambda>(k, v). P k) s) k = (if P k then map_of s k else None)"
  by (induction s) auto

interpretation list_store: badger_total "list_engine now" list_view "unexpired now"
proof
  fix s :: "(bytes \<times> bytes) list" and t u :: "(bytes \<times> bytes) list" and k v p a x e
  show "tx_get (list_engine now) s k =
      (if k = [] then Inl (badger_err ErrEmptyKey)
       else case list_view s k of None \<Rightarrow> Inl (badger_err ErrKeyNotFound) | Some v \<Rightarrow> Inr v)"
    by (simp add: list_engine_def list_view_def)
  show "list_view t = (list_view s)(k := (if unexpired now x then Some v else None))"
    if "tx_set (list_engine now) s k v x = (None, t)"
    using that by (auto simp: list_engine_def list_view_def update_conv' delete_conv' split: if_splits)
  show "list_view t = (list_view s)(k := None)"
    if "tx_delete (list_engine now) s k = (None, t)"
    using that by (auto simp: list_engine_def list_view_def delete_conv' split: if_splits)
  have "(aa, b) \<in> set (AList.clearjunk s) \<longleftrightarrow> map_of s aa = Some b" for aa b
    using map_of_eq_Some_iff [OF distinct_clearjunk, of s] by (simp add: map_of_clearjunk)
  then show "set (tx_iterate (list_engine now) s p a) =
      {(k, v). list_view s k = Some v \<and> has_prefix k p \<and> a \<le> k}"
    by (auto simp: list_engine_def list_view_def split: if_splits)
  have "distinct (map fst (AList.clearjunk s))" by (rule distinct_clearjunk)
  then show "sorted_wrt (<) (map fst (tx_iterate (list_engine now) s p a))"
    by (auto simp: list_engine_def intro!: sorted_wrt_less_sort_key distinct_map_filter)
qed (auto simp: list_engine_def list_view_def unexpired_def)

end
