(* ===== verification/Keys.thy ===== *)
theory Keys
  imports Engine
begin

section \<open>The keys of the store\<close>

text \<open>
  Everything the badgerauth node writes has a key of one of four shapes: the constant
  \<open>node_id\<close>, a 32-byte key hash, a clock key per node, and a replication log entry, whose whole
  content is in the key.  The theory holds \<open>NodeID\<close> (nodeid.go), \<open>KeyHash\<close> (authdb/kv.go),
  \<open>Clock\<close> with its key (clock.go) and \<open>ReplicationLogEntry\<close> (replication_log.go).

  A \<open>[32]byte\<close> is a byte list of length 32; what a \<open>SetBytes\<close> returns always has that length.
  The lemmas are the round trips, and the facts that keep the four kinds of keys apart.
\<close>

type_synonym node_id = bytes
type_synonym key_hash = bytes
type_synonym clock = u64

definition pad32 :: "bytes \<Rightarrow> bytes" where
  "pad32 v = v @ replicate (32 - length v) NUL"

subsection \<open>NodeID\<close>

definition node_id_set_bytes :: "bytes \<Rightarrow> err + node_id" where
  "node_id_set_bytes v =
     (if length v > 32 then Inl (Classed NodeIDError (Message ''v exceeds the acceptable length''))
      else Inr (pad32 v))"

definition node_id_String :: "node_id \<Rightarrow> string" where
  "node_id_String nid = trim_right (\<lambda>c. c = NUL) nid"

subsection \<open>KeyHash\<close>

definition key_hash_set_bytes :: "bytes \<Rightarrow> err + key_hash" where
  "key_hash_set_bytes v =
     (if length v > 32 then Inl (Classed KeyHashError (Message ''v exceeds the acceptable length''))
      else Inr (pad32 v))"

text \<open>\<open>encoding/hex\<close>: lowercase output, either case accepted.\<close>

definition hex_digit :: "nat \<Rightarrow> char" where
  "hex_digit n = ''0123456789abcdef'' ! n"

fun hex_encode :: "bytes \<Rightarrow> string" where
  "hex_encode [] = []"
| "hex_encode (c # cs) = hex_digit (code c div 16) # hex_digit (code c mod 16) # hex_encode cs"

definition hex_value :: "char \<Rightarrow> nat option" where
  "hex_value c =
     (if code CHR ''0'' \<le> code c \<and> code c \<le> code CHR ''9'' then Some (code c - code CHR ''0'')
      else if code CHR ''a'' \<le> code c \<and> code c \<le> code CHR ''f''
        then Some (code c - code CHR ''a'' + 10)
      else if code CHR ''A'' \<le> code c \<and> code c \<le> code CHR ''F''
        then Some (code c - code CHR ''A'' + 10)
      else None)"

fun hex_decode :: "string \<Rightarrow> bytes option" where
  "hex_decode [] = Some []"
| "hex_decode [c] = None"
| "hex_decode (c # d # cs) =
     (case (hex_value c, hex_value d, hex_decode cs) of
        (Some a, Some b, Some bs) \<Rightarrow> Some (char_of (16 * a + b) # bs)
      | _ \<Rightarrow> None)"

definition KeyHashSizeEncoded :: nat where
  "KeyHashSizeEncoded = 64"

definition key_hash_from_hex :: "string \<Rightarrow> err + key_hash" where
  "key_hash_from_hex encoded =
     (if length encoded \<noteq> KeyHashSizeEncoded
      then Inl (Classed KeyHashError (Message ''length expected to be 64''))
      else case hex_decode encoded of
        None \<Rightarrow> Inl (Classed KeyHashError (Detail ''error decoding key hash'' (Message ''hex'')))
      | Some bs \<Rightarrow>
          (case key_hash_set_bytes bs of
             Inl e \<Rightarrow> Inl (Classed KeyHashError (Detail ''error setting key hash bytes'' e))
           | Inr kh \<Rightarrow> Inr kh))"

definition key_hash_to_hex :: "key_hash \<Rightarrow> string" where
  "key_hash_to_hex kh = hex_encode kh"

subsection \<open>Clock\<close>

definition clockPrefix :: bytes where
  "clockPrefix = ''clock_value/''"

definition clock_set_bytes :: "bytes \<Rightarrow> err + clock" where
  "clock_set_bytes v =
     (if length v \<noteq> 8 then Inl (Classed ClockError (Message ''invalid length''))
      else Inr (of_nat (be_nat v)))"

definition clock_bytes :: "clock \<Rightarrow> bytes" where
  "clock_bytes c = be_bytes 8 (unat c)"

definition makeClockKey :: "node_id \<Rightarrow> bytes" where
  "makeClockKey nid = clockPrefix @ nid"

subsection \<open>ReplicationLogEntry\<close>

type_synonym record_state = u32

definition CREATED :: record_state where
  "CREATED = 0"

definition replicationLogPrefix :: bytes where
  "replicationLogPrefix = ''replication_log/''"

definition replicationLogEntrySeparator :: bytes where
  "replicationLogEntrySeparator = ''/''"

definition lenReplicationLogEntry :: nat where
  "lenReplicationLogEntry = length replicationLogPrefix + 3 * length replicationLogEntrySeparator
     + 32 + 32 + 8 + 4"

record log_entry =
  le_ID :: node_id
  le_Clock :: clock
  le_KeyHash :: key_hash
  le_State :: record_state

definition entry_bytes :: "log_entry \<Rightarrow> bytes" where
  "entry_bytes e =
     replicationLogPrefix @ le_ID e @ replicationLogEntrySeparator
     @ clock_bytes (le_Clock e) @ replicationLogEntrySeparator
     @ le_KeyHash e @ replicationLogEntrySeparator
     @ be_bytes 4 (unat (le_State e))"

definition entry_set_bytes :: "bytes \<Rightarrow> err + log_entry" where
  "entry_set_bytes entry =
     (if length entry \<noteq> lenReplicationLogEntry
      then Inl (Classed ReplicationLogError (Message ''incorrect entry length''))
      else
        let entry = drop (length replicationLogPrefix) entry;
            idBytes = take 32 entry; entry = drop 32 entry;
            entry = drop (length replicationLogEntrySeparator) entry;
            clockBytes = take 8 entry; entry = drop 8 entry;
            entry = drop (length replicationLogEntrySeparator) entry;
            keyHash = take 32 entry; entry = drop 32 entry;
            stateBytes = drop (length replicationLogEntrySeparator) entry
        in case clock_set_bytes clockBytes of
             Inl e \<Rightarrow> Inl (wrap ReplicationLogError e)
           | Inr c \<Rightarrow>
               (case node_id_set_bytes idBytes of
                  Inl e \<Rightarrow> Inl (wrap ReplicationLogError e)
                | Inr nid \<Rightarrow>
                    Inr \<lparr>le_ID = nid, le_Clock = c, le_KeyHash = keyHash,
                         le_State = of_nat (be_nat stateBytes)\<rparr>))"

definition makeIterationStartKey :: "node_id \<Rightarrow> clock \<Rightarrow> bytes" where
  "makeIterationStartKey nid c =
     replicationLogPrefix @ nid @ replicationLogEntrySeparator @ clock_bytes c"

subsection \<open>Facts: fixed-length values\<close>

lemma length_pad32 [simp]: "length v \<le> 32 \<Longrightarrow> length (pad32 v) = 32"
  by (simp add: pad32_def)

lemma pad32_id [simp]: "length v = 32 \<Longrightarrow> pad32 v = v"
  by (simp add: pad32_def)

lemma node_id_set_bytes_32 [simp]: "length v = 32 \<Longrightarrow> node_id_set_bytes v = Inr v"
  by (simp add: node_id_set_bytes_def)

lemma key_hash_set_bytes_32 [simp]: "length v = 32 \<Longrightarrow> key_hash_set_bytes v = Inr v"
  by (simp add: key_hash_set_bytes_def)

lemma node_id_set_bytes_length: "node_id_set_bytes v = Inr nid \<Longrightarrow> length nid = 32"
  by (auto simp: node_id_set_bytes_def split: if_splits)

lemma key_hash_set_bytes_length: "key_hash_set_bytes v = Inr kh \<Longrightarrow> length kh = 32"
  by (auto simp: key_hash_set_bytes_def split: if_splits)

lemma node_id_set_bytes_Inl: "node_id_set_bytes v = Inl e \<longleftrightarrow>
    length v > 32 \<and> e = Classed NodeIDError (Message ''v exceeds the acceptable length'')"
  by (auto simp: node_id_set_bytes_def)

lemma length_clock_bytes [simp]: "length (clock_bytes c) = 8"
  by (simp add: clock_bytes_def)

lemma unat_less_256_8: "unat (c :: u64) < 256 ^ 8"
  using unsigned_less [of c, where ?'a = nat] by simp

lemma unat_less_256_4: "unat (s :: u32) < 256 ^ 4"
  using unsigned_less [of s, where ?'a = nat] by simp

lemma clock_set_clock_bytes [simp]: "clock_set_bytes (clock_bytes c) = Inr c"
  using be_nat_be_bytes [OF unat_less_256_8 [of c]]
  by (simp add: clock_set_bytes_def clock_bytes_def)

lemma be_nat_less_8: "length v = 8 \<Longrightarrow> be_nat v < 2 ^ 64"
  using be_nat_less [of v] by simp

lemma clock_bytes_set: "clock_set_bytes v = Inr c \<Longrightarrow> clock_bytes c = v"
  using be_nat_less_8 [of v] be_bytes_be_nat [of v]
  by (auto simp: clock_set_bytes_def clock_bytes_def unat_of_nat take_bit_nat_eq_self split: if_splits)

lemma clock_bytes_inject [simp]: "clock_bytes c = clock_bytes d \<longleftrightarrow> c = d"
  by (metis clock_set_clock_bytes sum.inject(2))

text \<open>Big-endian clocks: the byte order of the keys is the order of the clocks.\<close>

lemma clock_bytes_less [simp]: "clock_bytes c < clock_bytes d \<longleftrightarrow> c < d"
  using be_bytes_less_iff [OF unat_less_256_8 [of c] unat_less_256_8 [of d]]
  by (simp add: clock_bytes_def word_less_nat_alt)

subsection \<open>Facts: hexadecimal\<close>

lemma code_div_mod: "code c div 16 < 16" "code c mod 16 < 16"
  using nat_of_char_less_256 [of c] by (auto simp: less_mult_imp_div_less)

lemma hex_value_digit: "n < 16 \<Longrightarrow> hex_value (hex_digit n) = Some n"
proof -
  assume "n < 16"
  then have "n \<in> set [0 ..< 16]" by simp
  moreover have "\<forall>n \<in> set [0 ..< 16]. hex_value (hex_digit n) = Some n" by code_simp
  ultimately show ?thesis by blast
qed

lemma hex_decode_encode: "hex_decode (hex_encode bs) = Some bs"
proof (induction bs)
  case (Cons c bs)
  have "16 * (code c div 16) + code c mod 16 = code c" by simp
  then have "(char_of (16 * (code c div 16) + code c mod 16) :: char) = c"
    by (metis char_of_char)
  with Cons show ?case
    by (simp add: hex_value_digit code_div_mod)
qed simp

lemma length_hex_encode [simp]: "length (hex_encode bs) = 2 * length bs"
  by (induction bs) auto

lemma key_hash_from_to_hex: "length kh = 32 \<Longrightarrow> key_hash_from_hex (key_hash_to_hex kh) = Inr kh"
  by (simp add: key_hash_from_hex_def key_hash_to_hex_def KeyHashSizeEncoded_def hex_decode_encode)

lemma hex_decode_length: "hex_decode s = Some bs \<Longrightarrow> length s = 2 * length bs"
  by (induction s arbitrary: bs rule: hex_decode.induct) (auto split: option.splits)

lemma key_hash_from_hex_length: "key_hash_from_hex s = Inr kh \<Longrightarrow> length kh = 32"
  by (auto simp: key_hash_from_hex_def dest!: key_hash_set_bytes_length
      split: if_splits option.splits sum.splits)

subsection \<open>Facts: the replication log entry\<close>

text \<open>A well-formed entry: what the code's types guarantee.\<close>

definition entry_wf :: "log_entry \<Rightarrow> bool" where
  "entry_wf e \<longleftrightarrow> length (le_ID e) = 32 \<and> length (le_KeyHash e) = 32"

lemma key_lengths [key_simps]:
  "length replicationLogPrefix = 16" "length replicationLogEntrySeparator = 1"
  "length clockPrefix = 12" "lenReplicationLogEntry = 95"
  by (simp_all add: replicationLogPrefix_def replicationLogEntrySeparator_def clockPrefix_def
      lenReplicationLogEntry_def)

lemma length_entry_bytes [key_simps]: "entry_wf e \<Longrightarrow> length (entry_bytes e) = 95"
  by (simp add: entry_bytes_def entry_wf_def key_lengths)

lemma length_clock_key [key_simps]: "length nid = 32 \<Longrightarrow> length (makeClockKey nid) = 44"
  by (simp add: makeClockKey_def key_lengths)

lemma state_of_be_bytes [simp]: "of_nat (be_nat (be_bytes 4 (unat s))) = (s :: u32)"
  using be_nat_be_bytes [OF unat_less_256_4 [of s]] by simp

text \<open>The encoding of an entry can be read back.\<close>

lemma entry_set_bytes_bytes: "entry_wf e \<Longrightarrow> entry_set_bytes (entry_bytes e) = Inr e"
  unfolding entry_set_bytes_def
  by (simp add: length_entry_bytes key_lengths)
    (simp add: entry_bytes_def entry_wf_def key_lengths Let_def drop_append take_append)

lemma entry_bytes_inject:
  "entry_wf e \<Longrightarrow> entry_wf f \<Longrightarrow> entry_bytes e = entry_bytes f \<longleftrightarrow> e = f"
  by (metis entry_set_bytes_bytes sum.inject(2))

lemma entry_set_bytes_wf: "entry_set_bytes b = Inr e \<Longrightarrow> entry_wf e"
  by (auto simp: entry_set_bytes_def Let_def entry_wf_def key_lengths
      dest: node_id_set_bytes_length split: if_splits sum.splits)

lemma entry_has_prefix [simp]: "has_prefix (entry_bytes e) replicationLogPrefix"
  by (simp add: entry_bytes_def)

lemma entry_has_node_prefix:
  assumes "entry_wf e" and "length nid = 32"
  shows "has_prefix (entry_bytes e) (replicationLogPrefix @ nid) \<longleftrightarrow> le_ID e = nid"
  using assms by (auto simp: entry_bytes_def entry_wf_def has_prefix_take key_lengths)

text \<open>
  Seeking to \<open>makeIterationStartKey\<close> and iterating forward visits the entries of a node from the
  given clock on, and entries of one node with different clocks are ordered by their clocks.
\<close>

lemma append_eq_length_le_iff:
  fixes a b :: "'a::linorder list"
  assumes "length a = length b"
  shows "a \<le> b @ t \<longleftrightarrow> a \<le> b"
  using assms by (induction a b rule: list_induct2) auto

lemma start_key_le_entry:
  assumes "entry_wf e" and "le_ID e = nid"
  shows "makeIterationStartKey nid c \<le> entry_bytes e \<longleftrightarrow> c \<le> le_Clock e"
proof -
  have "makeIterationStartKey nid c \<le> entry_bytes e \<longleftrightarrow>
      clock_bytes c \<le> clock_bytes (le_Clock e) @ replicationLogEntrySeparator
        @ le_KeyHash e @ replicationLogEntrySeparator @ be_bytes 4 (unat (le_State e))"
    using assms by (simp add: makeIterationStartKey_def entry_bytes_def)
  also have "\<dots> \<longleftrightarrow> clock_bytes c \<le> clock_bytes (le_Clock e)"
    by (rule append_eq_length_le_iff) simp
  also have "\<dots> \<longleftrightarrow> c \<le> le_Clock e"
    by (auto simp: le_less)
  finally show ?thesis .
qed

lemma append_eq_length_less_iff:
  fixes a b :: "'a::linorder list"
  assumes "length a = length b" and "a \<noteq> b"
  shows "a @ s < b @ t \<longleftrightarrow> a < b"
  using assms by (induction a b rule: list_induct2) auto

lemma entry_bytes_less:
  assumes "le_ID e = le_ID f" and "le_Clock e \<noteq> le_Clock f"
  shows "entry_bytes e < entry_bytes f \<longleftrightarrow> le_Clock e < le_Clock f"
  using assms by (simp add: entry_bytes_def append_eq_length_less_iff)

subsection \<open>Facts: the kinds of keys are disjoint\<close>

text \<open>
  Key hashes, clock keys, log entries and the node-ID key have four different lengths.  An
  iteration over a prefix, however, also visits a key hash that happens to start with it:
  \<open>plain_hash\<close> excludes these (a SHA-256 value starts with a given prefix of 12 bytes with
  probability \<open>2 ^ -96\<close>).
\<close>

definition nodeIDKey :: bytes where
  "nodeIDKey = ''node_id''"

definition plain_hash :: "key_hash \<Rightarrow> bool" where
  "plain_hash kh \<longleftrightarrow> length kh = 32
     \<and> \<not> has_prefix kh replicationLogPrefix \<and> \<not> has_prefix kh clockPrefix"

lemma length_nodeIDKey [key_simps]: "length nodeIDKey = 7"
  by (simp add: nodeIDKey_def)

lemma keys_distinct [key_simps]:
  assumes "length kh = 32" and "length nid = 32" and "entry_wf e"
  shows "kh \<noteq> makeClockKey nid" "makeClockKey nid \<noteq> kh" "kh \<noteq> entry_bytes e" "entry_bytes e \<noteq> kh"
    "kh \<noteq> nodeIDKey" "nodeIDKey \<noteq> kh" "makeClockKey nid \<noteq> entry_bytes e" "entry_bytes e \<noteq> makeClockKey nid"
    "makeClockKey nid \<noteq> nodeIDKey" "nodeIDKey \<noteq> makeClockKey nid" "entry_bytes e \<noteq> nodeIDKey" "nodeIDKey \<noteq> entry_bytes e"
  using assms length_entry_bytes [of e] length_clock_key [of nid] length_nodeIDKey
  by auto

lemma makeClockKey_inject [simp]: "makeClockKey a = makeClockKey b \<longleftrightarrow> a = b"
  by (simp add: makeClockKey_def)

lemma keys_not_Nil [simp]: "makeClockKey a \<noteq> []" "entry_bytes e \<noteq> []" "nodeIDKey \<noteq> []"
  by (simp_all add: makeClockKey_def clockPrefix_def entry_bytes_def replicationLogPrefix_def
      nodeIDKey_def)

lemma prefixes_disjoint [simp]:
  "\<not> has_prefix (makeClockKey a) replicationLogPrefix"
  "\<not> has_prefix (entry_bytes e) clockPrefix"
  "has_prefix (makeClockKey a) clockPrefix"
  "\<not> has_prefix nodeIDKey replicationLogPrefix"
  "\<not> has_prefix nodeIDKey clockPrefix"
  by (simp_all add: makeClockKey_def clockPrefix_def entry_bytes_def replicationLogPrefix_def
      nodeIDKey_def)

end
