(* ===== verification/Clocks.thy ===== *)
theory Clocks
  imports Keys
begin

section \<open>Logical clocks in the store (pkg/auth/badgerauth/clock.go)\<close>

text \<open>
  A node counts the operations it has stored for every node, itself included, in a 64-bit clock
  under the node's clock key.  The operations run inside a transaction: they take the engine and
  the state the transaction sees.  A Go map is an association list with distinct keys.

  The lemmas, under the engine's contract, say what each operation does to the contents, errors
  included, and that \<open>readAvailableClocks\<close> returns exactly the clocks in the store.
\<close>

definition ReadClock :: "'s engine \<Rightarrow> node_id \<Rightarrow> 's \<Rightarrow> err + clock" where
  "ReadClock B nid s =
     (case tx_get B s (makeClockKey nid) of
        Inl e \<Rightarrow> Inl (wrap ClockError e)
      | Inr v \<Rightarrow> wrap_res ClockError (clock_set_bytes v))"

definition advanceClock :: "'s engine \<Rightarrow> node_id \<Rightarrow> 's \<Rightarrow> (err + clock) \<times> 's" where
  "advanceClock B nid s =
     (let key = makeClockKey nid;
          set_next = (\<lambda>current.
            case tx_set B s key (clock_bytes (current + 1)) 0 of
              (Some e, t) \<Rightarrow> (Inl (wrap ClockError e), t)
            | (None, t) \<Rightarrow> (Inr (current + 1), t))
      in case tx_get B s key of
           Inl e \<Rightarrow> (if \<not> is_err (Badger ErrKeyNotFound) e then (Inl (wrap ClockError e), s)
                     else set_next 0)
         | Inr v \<Rightarrow>
             (case clock_set_bytes v of
                Inl e \<Rightarrow> (Inl (wrap ClockError e), s)
              | Inr current \<Rightarrow> set_next current))"

definition ensureClock :: "'s engine \<Rightarrow> node_id \<Rightarrow> 's \<Rightarrow> err option \<times> 's" where
  "ensureClock B nid s =
     (case tx_get B s (makeClockKey nid) of
        Inl e \<Rightarrow>
          (if \<not> is_err (Badger ErrKeyNotFound) e then (Some (wrap ClockError e), s)
           else case tx_set B s (makeClockKey nid) (clock_bytes 0) 0 of
                  (r, t) \<Rightarrow> (wrap_opt ClockError r, t))
      | Inr v \<Rightarrow> (None, s))"

fun read_clocks_loop :: "(bytes \<times> bytes) list \<Rightarrow> (node_id \<times> clock) list
    \<Rightarrow> err + (node_id \<times> clock) list" where
  "read_clocks_loop [] idToClock = Inr idToClock"
| "read_clocks_loop ((k, v) # items) idToClock =
     (case node_id_set_bytes (drop (length clockPrefix) k) of
        Inl e \<Rightarrow> Inl (wrap ClockError e)
      | Inr nid \<Rightarrow>
          (case clock_set_bytes v of
             Inl e \<Rightarrow> Inl (wrap ClockError e)
           | Inr c \<Rightarrow> read_clocks_loop items (AList.update nid c idToClock)))"

definition readAvailableClocks :: "'s engine \<Rightarrow> 's \<Rightarrow> err + (node_id \<times> clock) list" where
  "readAvailableClocks B s = read_clocks_loop (tx_iterate B s clockPrefix clockPrefix) []"

subsection \<open>The clocks of a state\<close>

definition clock_of :: "(bytes \<Rightarrow> bytes option) \<Rightarrow> node_id \<Rightarrow> clock option" where
  "clock_of V nid =
     (case V (makeClockKey nid) of
        None \<Rightarrow> None
      | Some v \<Rightarrow> (case clock_set_bytes v of Inl e \<Rightarrow> None | Inr c \<Rightarrow> Some c))"

text \<open>The clock keys of a well-formed store: a node ID of 32 bytes, a value of 8.\<close>

definition clocks_ok :: "(bytes \<Rightarrow> bytes option) \<Rightarrow> bool" where
  "clocks_ok V \<longleftrightarrow>
     (\<forall>k v. V k = Some v \<longrightarrow> has_prefix k clockPrefix \<longrightarrow>
        (\<exists>nid. length nid = 32 \<and> k = makeClockKey nid) \<and> length v = 8)"

text \<open>The clock of a node that counts from nothing.\<close>

definition clock0 :: "(bytes \<Rightarrow> bytes option) \<Rightarrow> node_id \<Rightarrow> clock" where
  "clock0 V nid = (case clock_of V nid of None \<Rightarrow> 0 | Some c \<Rightarrow> c)"

lemma clock_of_upd [simp]:
  "clock_of (V(makeClockKey a \<mapsto> clock_bytes c)) b = (if a = b then Some c else clock_of V b)"
  by (simp add: clock_of_def)

lemma clock_of_upd_other [simp]:
  "length k \<noteq> 44 \<Longrightarrow> length nid = 32 \<Longrightarrow> clock_of (V(k := x)) nid = clock_of V nid"
  using length_clock_key [of nid] by (auto simp: clock_of_def)

lemma clocks_ok_upd [intro]:
  "clocks_ok V \<Longrightarrow> length a = 32 \<Longrightarrow> clocks_ok (V(makeClockKey a \<mapsto> clock_bytes c))"
  by (auto simp: clocks_ok_def)

lemma clocks_ok_upd_other [intro]:
  "clocks_ok V \<Longrightarrow> \<not> has_prefix k clockPrefix \<Longrightarrow> clocks_ok (V(k := x))"
  by (auto simp: clocks_ok_def)

lemma clock_set_bytes_8: "length v = 8 \<Longrightarrow> \<exists>c. clock_set_bytes v = Inr c"
  by (simp add: clock_set_bytes_def)

lemma clocks_ok_clock_of:
  assumes "clocks_ok V" and "V (makeClockKey nid) = Some v"
  obtains c where "clock_set_bytes v = Inr c" and "clock_of V nid = Some c"
proof -
  have "length v = 8"
    using assms prefixes_disjoint(3) [of nid] unfolding clocks_ok_def by blast
  then obtain c where "clock_set_bytes v = Inr c" using clock_set_bytes_8 by blast
  with that assms(2) show thesis by (simp add: clock_of_def)
qed

lemma clock_of_SomeD: "clock_of V nid = Some c \<Longrightarrow> V (makeClockKey nid) = Some (clock_bytes c)"
  by (auto simp: clock_of_def clock_bytes_set split: option.splits sum.splits)

subsection \<open>What the operations do, under the engine's contract\<close>

context badger_txn
begin

lemma ReadClock_ok:
  "clocks_ok (view s) \<Longrightarrow> ReadClock B nid s =
     (case clock_of (view s) nid of
        None \<Rightarrow> Inl (Classed ClockError (badger_err ErrKeyNotFound)) | Some c \<Rightarrow> Inr c)"
  by (cases "view s (makeClockKey nid)")
    (auto simp: ReadClock_def get_some get_none clock_of_def elim!: clocks_ok_clock_of)

text \<open>A successful advance: the next clock is stored and returned; nothing else changes.\<close>

lemma advanceClock_ok:
  assumes "advanceClock B nid s = (Inr c, t)" and "clocks_ok (view s)"
  shows "c = clock0 (view s) nid + 1"
    and "view t = (view s)(makeClockKey nid \<mapsto> clock_bytes c)"
proof -
  have *: "c = clock0 (view s) nid + 1 \<and> view t = (view s)(makeClockKey nid \<mapsto> clock_bytes c)"
  proof (cases "view s (makeClockKey nid)")
    case None
    with assms show ?thesis
      by (auto simp: advanceClock_def get_none Let_def clock0_def clock_of_def set_view0
          split: option.splits prod.splits)
  next
    case (Some v)
    with assms show ?thesis
      by (auto simp: advanceClock_def get_some Let_def clock0_def set_view0
          elim!: clocks_ok_clock_of split: option.splits prod.splits)
  qed
  then show "c = clock0 (view s) nid + 1"
    and "view t = (view s)(makeClockKey nid \<mapsto> clock_bytes c)" by simp_all
qed

lemma ensureClock_ok:
  assumes "ensureClock B nid s = (None, t)"
  shows "view t = (if view s (makeClockKey nid) = None
      then (view s)(makeClockKey nid \<mapsto> clock_bytes 0) else view s)"
  using assms by (cases "view s (makeClockKey nid)")
    (auto simp: ensureClock_def get_some get_none set_view0 split: prod.splits)

lemma read_clocks_loop_ok:
  assumes "\<And>k v. (k, v) \<in> set items \<Longrightarrow> \<exists>nid. length nid = 32 \<and> k = makeClockKey nid \<and> length v = 8"
  shows "\<exists>m'. read_clocks_loop items m = Inr m' \<and>
    (\<forall>nid. map_of m' nid =
      (case map_of (rev items) (makeClockKey nid) of
         None \<Rightarrow> map_of m nid
       | Some v \<Rightarrow> (case clock_set_bytes v of Inl e \<Rightarrow> None | Inr c \<Rightarrow> Some c)))
    \<and> (distinct (map fst m) \<longrightarrow> distinct (map fst m'))"
  using assms
proof (induction items arbitrary: m)
  case (Cons x items)
  obtain k v where x: "x = (k, v)" by fastforce
  with Cons.prems obtain nid where nid: "length nid = 32" "k = makeClockKey nid" "length v = 8"
    by auto
  obtain c where c: "clock_set_bytes v = Inr c" using clock_set_bytes_8 nid by blast
  from Cons.IH [of "AList.update nid c m"] Cons.prems
  obtain m' where m': "read_clocks_loop items (AList.update nid c m) = Inr m'"
    "\<forall>nid'. map_of m' nid' =
      (case map_of (rev items) (makeClockKey nid') of
         None \<Rightarrow> map_of (AList.update nid c m) nid'
       | Some v \<Rightarrow> (case clock_set_bytes v of Inl e \<Rightarrow> None | Inr c \<Rightarrow> Some c))"
    "distinct (map fst (AList.update nid c m)) \<longrightarrow> distinct (map fst m')"
    by fastforce
  have "drop (length clockPrefix) k = nid" using nid by (simp add: makeClockKey_def)
  with m' x nid c show ?case
    by (auto simp: update_conv' map_add_def distinct_update split: option.splits)
qed auto

text \<open>\<open>readAvailableClocks\<close> returns exactly the clocks in the store.\<close>

lemma readAvailableClocks_ok:
  assumes "clocks_ok (view s)"
  obtains m where "readAvailableClocks B s = Inr m" and "\<And>nid. map_of m nid = clock_of (view s) nid"
    and "distinct (map fst m)"
proof -
  let ?I = "tx_iterate B s clockPrefix clockPrefix"
  have "\<And>k v. (k, v) \<in> set ?I \<Longrightarrow> \<exists>nid. length nid = 32 \<and> k = makeClockKey nid \<and> length v = 8"
    using assms by (auto simp: iterate_set clocks_ok_def)
  then have *: "\<exists>m'. read_clocks_loop ?I [] = Inr m' \<and>
    (\<forall>nid. map_of m' nid =
      (case map_of (rev ?I) (makeClockKey nid) of
         None \<Rightarrow> map_of [] nid
       | Some v \<Rightarrow> (case clock_set_bytes v of Inl e \<Rightarrow> None | Inr c \<Rightarrow> Some c)))
    \<and> (distinct (map fst ([] :: (node_id \<times> clock) list)) \<longrightarrow> distinct (map fst m'))"
    by (rule read_clocks_loop_ok)
  then obtain m' where m':
    "read_clocks_loop ?I [] = Inr m'" "distinct (map fst m')"
    "\<And>nid. map_of m' nid = (case map_of (rev ?I) (makeClockKey nid) of
         None \<Rightarrow> None | Some v \<Rightarrow> (case clock_set_bytes v of Inl e \<Rightarrow> None | Inr c \<Rightarrow> Some c))"
    by (metis (no_types, lifting) distinct.simps(1) list.map(1) map_of.simps(1))
  have d: "distinct (map fst (rev ?I))"
    using iterate_sorted [of s clockPrefix clockPrefix]
    by (simp add: rev_map [symmetric] strict_sorted_iff)
  have le: "clockPrefix \<le> makeClockKey nid" for nid
    by (simp add: makeClockKey_def)
  have "map_of (rev ?I) (makeClockKey nid) = view s (makeClockKey nid)" for nid
  proof (cases "view s (makeClockKey nid)")
    case None
    then show ?thesis by (auto simp: map_of_eq_None_iff iterate_set)
  next
    case (Some v)
    then have "(makeClockKey nid, v) \<in> set (rev ?I)" by (simp add: iterate_set le)
    with d Some show ?thesis by (simp add: map_of_eq_Some_iff)
  qed
  with m' that show thesis by (simp add: readAvailableClocks_def clock_of_def)
qed

end

end
