(* ===== verification/Records.thy ===== *)
theory Records
  imports Clocks
begin

section \<open>Records, their serialisation and the configuration of the store\<close>

text \<open>
  \<open>pb.Record\<close> and the messages around it (badgerauth.proto), \<open>authdb.Record\<close> (authdb/kv.go), the
  times of util.go, the configuration fields the store reads, and \<open>DB\<close> itself.

  Marshalling is the protobuf library's: \<open>proto\<close> holds its two functions and \<open>proto_codec\<close> states
  what the program needs of them, that a marshalled record can be read back.  \<open>pb.Equal\<close> compares
  all fields, which is equality here.  A time is a count of nanoseconds since 1970, a Unix time its
  floor in seconds; an \<open>int64\<close> field of a message is an \<open>int\<close>, converted with its wrap-around where
  the code converts it.
\<close>

record pb_record =
  pb_CreatedAtUnix :: int
  pb_Public :: bool
  pb_SatelliteAddress :: string
  pb_MacaroonHead :: bytes
  pb_ExpiresAtUnix :: int
  pb_EncryptedSecretKey :: bytes
  pb_EncryptedAccessGrant :: bytes
  pb_InvalidationReason :: string
  pb_InvalidatedAtUnix :: int
  pb_State :: record_state

definition recordsEqual :: "pb_record \<Rightarrow> pb_record \<Rightarrow> bool" where
  "recordsEqual a b = (a = b)"

record request_entry =
  rq_NodeId :: bytes
  rq_Clock :: u64

record response_entry =
  rs_NodeId :: bytes
  rs_EncryptionKeyHash :: bytes
  rs_Record :: pb_record

subsection \<open>Times: util.go\<close>

type_synonym time = int

definition unix :: "time \<Rightarrow> int" where
  "unix t = t div 1000000000"

definition timestampToTime :: "int \<Rightarrow> time option" where
  "timestampToTime sec = (if sec > 0 then Some (sec * 1000000000) else None)"

definition timeToTimestamp :: "time option \<Rightarrow> int" where
  "timeToTimestamp t = (case t of Some t \<Rightarrow> unix t | None \<Rightarrow> 0)"

record auth_record =
  ar_SatelliteAddress :: string
  ar_MacaroonHead :: bytes
  ar_EncryptedSecretKey :: bytes
  ar_EncryptedAccessGrant :: bytes
  ar_ExpiresAt :: "time option"
  ar_Public :: bool

subsection \<open>The marshalling library\<close>

record proto =
  pb_marshal :: "pb_record \<Rightarrow> err + bytes"
  pb_unmarshal :: "bytes \<Rightarrow> err + pb_record"

locale proto_codec =
  fixes P :: proto
  assumes unmarshal_marshal: "pb_marshal P r = Inr b \<Longrightarrow> pb_unmarshal P b = Inr r"
begin

lemma marshal_inject: "pb_marshal P r = Inr b \<Longrightarrow> pb_marshal P q = Inr b \<Longrightarrow> r = q"
  by (metis sum.inject(2) unmarshal_marshal)

end

text \<open>
  A codec that satisfies the law: fixed-width numbers and length-prefixed strings.  Like
  protobuf's, its \<open>Marshal\<close> fails on what the message cannot carry.
\<close>

definition put_blob :: "bytes \<Rightarrow> bytes" where
  "put_blob b = be_bytes 4 (length b) @ b"

definition get_blob :: "bytes \<Rightarrow> bytes \<times> bytes" where
  "get_blob s = (let n = be_nat (take 4 s) in (take n (drop 4 s), drop n (drop 4 s)))"

definition put_int :: "int \<Rightarrow> bytes" where
  "put_int i = be_bytes 8 (nat (i + 2 ^ 63))"

definition get_int :: "bytes \<Rightarrow> int" where
  "get_int s = int (be_nat (take 8 s)) - 2 ^ 63"

definition int64_ok :: "int \<Rightarrow> bool" where
  "int64_ok i \<longleftrightarrow> - (2 ^ 63) \<le> i \<and> i < 2 ^ 63"

definition flat_marshal :: "pb_record \<Rightarrow> err + bytes" where
  "flat_marshal r =
     (if int64_ok (pb_CreatedAtUnix r) \<and> int64_ok (pb_ExpiresAtUnix r)
         \<and> int64_ok (pb_InvalidatedAtUnix r)
         \<and> (\<forall>b \<in> set [pb_SatelliteAddress r, pb_MacaroonHead r, pb_EncryptedSecretKey r,
                      pb_EncryptedAccessGrant r, pb_InvalidationReason r]. length b < 2 ^ 32)
      then Inr (put_int (pb_CreatedAtUnix r) @ put_int (pb_ExpiresAtUnix r)
        @ put_int (pb_InvalidatedAtUnix r) @ be_bytes 4 (unat (pb_State r))
        @ (if pb_Public r then CHR 0x01 else NUL) # put_blob (pb_SatelliteAddress r)
        @ put_blob (pb_MacaroonHead r) @ put_blob (pb_EncryptedSecretKey r)
        @ put_blob (pb_EncryptedAccessGrant r) @ put_blob (pb_InvalidationReason r))
      else Inl (Message ''marshal''))"

definition flat_unmarshal :: "bytes \<Rightarrow> err + pb_record" where
  "flat_unmarshal s =
     (if length s < 29 then Inl (Message ''unmarshal'')
      else
        let (sat, s1) = get_blob (drop 29 s);
            (head, s2) = get_blob s1;
            (sk, s3) = get_blob s2;
            (ag, s4) = get_blob s3;
            (why, s5) = get_blob s4
        in Inr \<lparr>pb_CreatedAtUnix = get_int s, pb_Public = (s ! 28 \<noteq> NUL),
                pb_SatelliteAddress = sat, pb_MacaroonHead = head,
                pb_ExpiresAtUnix = get_int (drop 8 s), pb_EncryptedSecretKey = sk,
                pb_EncryptedAccessGrant = ag, pb_InvalidationReason = why,
                pb_InvalidatedAtUnix = get_int (drop 16 s),
                pb_State = of_nat (be_nat (take 4 (drop 24 s)))\<rparr>)"

definition flat_proto :: proto where
  "flat_proto = \<lparr>pb_marshal = flat_marshal, pb_unmarshal = flat_unmarshal\<rparr>"

lemma length_put_int [simp]: "length (put_int i) = 8"
  by (simp add: put_int_def)

lemma get_put_int: "int64_ok i \<Longrightarrow> get_int (put_int i @ s) = i"
  using be_nat_be_bytes [of "nat (i + 2 ^ 63)" 8]
  by (simp add: get_int_def put_int_def int64_ok_def nat_less_iff)

lemma get_put_blob: "length b < 2 ^ 32 \<Longrightarrow> get_blob (put_blob b @ s) = (b, s)"
  using be_nat_be_bytes [of "length b" 4] by (simp add: get_blob_def put_blob_def)

lemma flat_unmarshal_marshal: "flat_marshal r = Inr b \<Longrightarrow> flat_unmarshal b = Inr r"
  by (auto simp: flat_marshal_def flat_unmarshal_def get_put_int get_put_blob nth_append
      get_put_blob [where s = "[]", simplified] split: if_splits)

interpretation flat: proto_codec flat_proto
  by unfold_locales (simp add: flat_proto_def flat_unmarshal_marshal)

subsection \<open>Configuration and DB\<close>

record badger_config =
  cfg_ID :: node_id
  cfg_FirstStart :: bool
  cfg_ReplicationLimit :: int
  cfg_ConflictBackoff :: backoff

text \<open>
  \<open>DB\<close>: the storage engine and the configuration.  Beside them stand the library functions its
  methods call, and the order in which Go ranges over a map, which the language leaves open.
\<close>

record 's db =
  db_engine :: "'s engine"
  db_proto :: proto
  db_config :: badger_config
  db_range :: "(node_id \<times> clock) list \<Rightarrow> (node_id \<times> clock) list"

text \<open>What is assumed of a \<open>DB\<close>: the contracts of its libraries and a 32-byte node ID.\<close>

locale badger_db =
  badger_txn "db_engine D" view live + proto_codec "db_proto D"
  for D :: "'s db" and view :: "'s \<Rightarrow> bytes \<Rightarrow> bytes option" and live :: "u64 \<Rightarrow> bool" +
  assumes id_length: "length (cfg_ID (db_config D)) = 32"
    and range_perm: "mset (db_range D m) = mset m"
    and live_far: "2 ^ 63 \<le> x \<Longrightarrow> live x"

locale badger_db_total = badger_db + badger_total "db_engine D"

text \<open>The concrete instance: the list store and the flat codec, at the time \<open>now\<close>.\<close>

definition list_db :: "nat \<Rightarrow> badger_config \<Rightarrow> (bytes \<times> bytes) list db" where
  "list_db now cfg = \<lparr>db_engine = list_engine now, db_proto = flat_proto, db_config = cfg,
     db_range = (\<lambda>m. m)\<rparr>"

definition test_config :: badger_config where
  "test_config = \<lparr>cfg_ID = pad32 ''n1'', cfg_FirstStart = True, cfg_ReplicationLimit = 1000,
     cfg_ConflictBackoff = \<lparr>bo_Delay = 0, bo_Max = 0, bo_Min = 0\<rparr>\<rparr>"

lemma length_test_id [simp]: "length (cfg_ID test_config) = 32"
  by (simp add: test_config_def pad32_def)

lemma badger_db_total_list_db:
  assumes "length (cfg_ID cfg) = 32" and "now < 2 ^ 63"
  shows "badger_db_total (list_db now cfg) list_view (unexpired now)"
proof -
  have "badger_total (db_engine (list_db now cfg)) list_view (unexpired now)"
    using list_store.badger_total_axioms by (simp add: list_db_def)
  moreover have "proto_codec (db_proto (list_db now cfg))"
    using flat.proto_codec_axioms by (simp add: list_db_def)
  moreover have "unexpired now x" if "2 ^ 63 \<le> x" for x
  proof -
    have "unat (2 ^ 63 :: u64) \<le> unat x" using that by (simp add: word_le_nat_alt)
    with assms(2) show ?thesis by (simp add: unexpired_def)
  qed
  ultimately show ?thesis using assms(1)
    by (simp add: badger_db_total_def badger_db_def badger_db_axioms_def badger_total_def
        list_db_def)
qed

interpretation list_db: badger_db_total "list_db 1000 test_config" list_view "unexpired 1000"
  by (rule badger_db_total_list_db) simp_all

end
