(* ===== verification/GcsOps.thy ===== *)
theory GcsOps
  imports TrustedIP GoNum Records
begin

section \<open>The Cloud Storage client (pkg/gcslock/gcsops)\<close>

text \<open>
  The client's operations over the HTTP client, which is the function \<open>D\<close>: what a request is
  answered with and what becomes of the bucket, whose state is the type \<open>'s\<close>.  A request that
  cannot be built and a request without an answer are both an error of \<open>D\<close>, as the code wraps them
  alike.  The URL of a request is its target: an object of the XML API, or a resource of the JSON
  API; the query is the list of its parameters.  Decoding of JSON, XML and media types is the
  record \<open>gcs_lib\<close>.

  What Cloud Storage documents of preconditions is the function \<open>gcs_effect\<close>, and the locale
  \<open>gcs_server\<close> says how far a client can rely on it: an answer may get lost after the request
  took effect.
\<close>

subsection \<open>Requests and answers\<close>

datatype gcs_target =
    XmlObject string string
  | JsonObject string string
  | JsonObjects string
  | JsonTestPermissions string

record gcs_request =
  gq_Method :: string
  gq_Target :: gcs_target
  gq_Query :: "(string \<times> string) list"
  gq_Header :: header
  gq_Body :: bytes

record gcs_response =
  gr_StatusCode :: int
  gr_Status :: string
  gr_Header :: header
  gr_Body :: bytes

type_synonym 's gcs = "gcs_request \<Rightarrow> 's \<Rightarrow> (err + gcs_response) \<times> 's"

record listing =
  li_NextPageToken :: string
  li_Prefixes :: "string list"
  li_Items :: "string list"

record gcs_lib =
  gl_listing :: "bytes \<Rightarrow> err + listing"
  gl_json_error :: "bytes \<Rightarrow> string"
  gl_xml_error :: "bytes \<Rightarrow> string"
  gl_mediatype :: "string \<Rightarrow> string"
  gl_metageneration :: "bytes \<Rightarrow> err + string"
  gl_metadata :: "(string \<times> string) list \<Rightarrow> bytes"
  gl_RFC3339 :: "time \<Rightarrow> string"
  gl_parse_RFC3339 :: "string \<Rightarrow> err + time"
  gl_parse_RFC1123 :: "string \<Rightarrow> err + time"

definition gcs_ErrNotFound :: err where
  "gcs_ErrNotFound = Classed GcsopsError (Sentinel GcsNotFound)"

definition gcs_ErrPreconditionFailed :: err where
  "gcs_ErrPreconditionFailed = Classed GcsopsError (Sentinel GcsPreconditionFailed)"

subsection \<open>Errors of the API\<close>

definition APIError_Error :: "string \<Rightarrow> string \<Rightarrow> string" where
  "APIError_Error status message =
     (''unexpected status: '' @ status) @ (if message \<noteq> [] then '': '' @ message else [])"

definition header_values :: "header \<Rightarrow> string \<Rightarrow> string list" where
  "header_values h name = map snd (filter (\<lambda>(n, _). equal_fold n name) h)"

definition contentType :: "gcs_lib \<Rightarrow> gcs_response \<Rightarrow> string \<Rightarrow> bool" where
  "contentType L resp value =
     list_ex (\<lambda>v. equal_fold (gl_mediatype L v) value) (header_values (gr_Header resp) ''Content-Type'')"

definition responseError :: "gcs_lib \<Rightarrow> gcs_response \<Rightarrow> err" where
  "responseError L resp =
     Message (APIError_Error (gr_Status resp)
       (if gr_StatusCode resp \<ge> 400 \<and> contentType L resp ''application/json'' then gl_json_error L (gr_Body resp)
        else if gr_StatusCode resp \<ge> 400 \<and> contentType L resp ''application/xml'' then gl_xml_error L (gr_Body resp)
        else []))"

subsection \<open>Operations\<close>

definition gcs_request_of :: "string \<Rightarrow> gcs_target \<Rightarrow> gcs_request" where
  "gcs_request_of meth target =
     \<lparr>gq_Method = meth, gq_Target = target, gq_Query = [], gq_Header = [], gq_Body = []\<rparr>"

definition TestPermissions :: "'s gcs \<Rightarrow> gcs_lib \<Rightarrow> string \<Rightarrow> 's \<Rightarrow> err option \<times> 's" where
  "TestPermissions D L bucket s =
     (let b = (case cut_byte CHR ''/'' bucket of Some (p, _) \<Rightarrow> p | None \<Rightarrow> bucket);
          q = map (\<lambda>p. (''permissions'', p))
                [''storage.objects.delete'', ''storage.objects.get'', ''storage.objects.list'', ''storage.objects.create'']
      in case D ((gcs_request_of ''GET'' (JsonTestPermissions b))\<lparr>gq_Query := q\<rparr>) s of
           (Inl e, t) \<Rightarrow> (Some (wrap GcsopsError e), t)
         | (Inr resp, t) \<Rightarrow>
             (if gr_StatusCode resp \<noteq> 200 then Some (wrap GcsopsError (responseError L resp)) else None, t))"

definition gcs_Delete :: "'s gcs \<Rightarrow> gcs_lib \<Rightarrow> header \<Rightarrow> string \<Rightarrow> string \<Rightarrow> 's \<Rightarrow> err option \<times> 's" where
  "gcs_Delete D L headers bucket name s =
     (case D ((gcs_request_of ''DELETE'' (XmlObject bucket name))\<lparr>gq_Header := headers\<rparr>) s of
        (Inl e, t) \<Rightarrow> (Some (wrap GcsopsError e), t)
      | (Inr resp, t) \<Rightarrow>
          (if gr_StatusCode resp = 204 then None
           else if gr_StatusCode resp = 404 then Some gcs_ErrNotFound
           else if gr_StatusCode resp = 412 then Some gcs_ErrPreconditionFailed
           else Some (wrap GcsopsError (responseError L resp)), t))"

definition gcs_Download :: "'s gcs \<Rightarrow> gcs_lib \<Rightarrow> string \<Rightarrow> string \<Rightarrow> 's \<Rightarrow> (err + bytes) \<times> 's" where
  "gcs_Download D L bucket name s =
     (case D (gcs_request_of ''GET'' (XmlObject bucket name)) s of
        (Inl e, t) \<Rightarrow> (Inl (wrap GcsopsError e), t)
      | (Inr resp, t) \<Rightarrow>
          (if gr_StatusCode resp = 200 then Inr (gr_Body resp)
           else if gr_StatusCode resp = 404 then Inl gcs_ErrNotFound
           else Inl (wrap GcsopsError (responseError L resp)), t))"

definition gcs_Stat :: "'s gcs \<Rightarrow> gcs_lib \<Rightarrow> string \<Rightarrow> string \<Rightarrow> 's \<Rightarrow> (err + header) \<times> 's" where
  "gcs_Stat D L bucket name s =
     (case D (gcs_request_of ''HEAD'' (XmlObject bucket name)) s of
        (Inl e, t) \<Rightarrow> (Inl (wrap GcsopsError e), t)
      | (Inr resp, t) \<Rightarrow>
          (if gr_StatusCode resp = 200 then Inr (gr_Header resp)
           else if gr_StatusCode resp = 404 then Inl gcs_ErrNotFound
           else Inl (wrap GcsopsError (responseError L resp)), t))"

definition gcs_Upload :: "'s gcs \<Rightarrow> gcs_lib \<Rightarrow> header \<Rightarrow> string \<Rightarrow> string \<Rightarrow> bytes \<Rightarrow> 's \<Rightarrow> err option \<times> 's" where
  "gcs_Upload D L headers bucket name body s =
     (case D ((gcs_request_of ''PUT'' (XmlObject bucket name))\<lparr>gq_Header := headers, gq_Body := body\<rparr>) s of
        (Inl e, t) \<Rightarrow> (Some (wrap GcsopsError e), t)
      | (Inr resp, t) \<Rightarrow>
          (if gr_StatusCode resp = 200 then None
           else if gr_StatusCode resp = 412 then Some gcs_ErrPreconditionFailed
           else Some (wrap GcsopsError (responseError L resp)), t))"

text \<open>\<open>combineLists\<close>: the merge of two sorted lists.\<close>

fun combineLists :: "string list \<Rightarrow> string list \<Rightarrow> string list" where
  "combineLists (p # prefixes) (i # items) =
     (if p < i then p # combineLists prefixes (i # items) else i # combineLists (p # prefixes) items)"
| "combineLists prefixes [] = prefixes"
| "combineLists [] items = items"

definition list_query :: "string \<Rightarrow> bool \<Rightarrow> string \<Rightarrow> (string \<times> string) list" where
  "list_query prefix recursive nextPageToken =
     [(''fields'', ''nextPageToken,prefixes,items(name)''), (''prettyPrint'', ''false''), (''prefix'', prefix)]
     @ (if \<not> recursive then [(''delimiter'', ''/'')] else [])
     @ (if length nextPageToken > 0 then [(''pageToken'', nextPageToken)] else [])"

text \<open>The loop of \<open>List\<close> runs until a page names no next one.\<close>

partial_function (option) list_loop ::
  "'s gcs \<Rightarrow> gcs_lib \<Rightarrow> string \<Rightarrow> string \<Rightarrow> bool \<Rightarrow> string \<Rightarrow> string list \<Rightarrow> 's
    \<Rightarrow> ((err + string list) \<times> 's) option" where
  "list_loop D L bucket prefix recursive nextPageToken acc s =
     (case D ((gcs_request_of ''GET'' (JsonObjects bucket))
                \<lparr>gq_Query := list_query prefix recursive nextPageToken\<rparr>) s of
        (Inl e, t) \<Rightarrow> Some (Inl (wrap GcsopsError e), t)
      | (Inr resp, t) \<Rightarrow>
          (if gr_StatusCode resp \<noteq> 200 then Some (Inl (wrap GcsopsError (responseError L resp)), t)
           else case gl_listing L (gr_Body resp) of
             Inl e \<Rightarrow> Some (Inl (wrap GcsopsError e), t)
           | Inr rawList \<Rightarrow>
               (let acc' = acc @ combineLists (li_Prefixes rawList) (li_Items rawList)
                in if length (li_NextPageToken rawList) > 0
                   then list_loop D L bucket prefix recursive (li_NextPageToken rawList) acc' t
                   else Some (Inr acc', t))))"

definition gcs_List :: "'s gcs \<Rightarrow> gcs_lib \<Rightarrow> string \<Rightarrow> string \<Rightarrow> bool \<Rightarrow> 's
    \<Rightarrow> ((err + string list) \<times> 's) option" where
  "gcs_List D L bucket prefix recursive s = list_loop D L bucket prefix recursive [] [] s"

subsection \<open>What Cloud Storage documents\<close>

text \<open>
  An object has a metageneration, which counts the changes of its metadata and starts at one for
  every new object, the custom metadata fields, and its contents.
\<close>

record gcs_object =
  go_metageneration :: nat
  go_metadata :: header
  go_body :: bytes

definition custom_metadata :: "header \<Rightarrow> header" where
  "custom_metadata h = filter (\<lambda>(n, _). has_prefix (to_lower n) ''x-goog-meta-'') h"

text \<open>
  The effect of a request on its object: the status of the answer and the object after it.
  A precondition header that is absent does not restrict the request; an update of the metadata
  through the JSON API carries it as a query parameter.
\<close>

definition query_get :: "(string \<times> string) list \<Rightarrow> string \<Rightarrow> string" where
  "query_get q k = (case map_of q k of None \<Rightarrow> [] | Some v \<Rightarrow> v)"

definition gcs_effect :: "(bytes \<Rightarrow> header) \<Rightarrow> gcs_request \<Rightarrow> gcs_object option \<Rightarrow> int \<times> gcs_object option" where
  "gcs_effect meta q o0 =
     (if gq_Method q = ''PUT'' then
        (if header_get (gq_Header q) ''x-goog-if-generation-match'' = ''0'' \<and> o0 \<noteq> None then (412, o0)
         else (200, Some \<lparr>go_metageneration = 1, go_metadata = custom_metadata (gq_Header q), go_body = gq_Body q\<rparr>))
      else case o0 of
        None \<Rightarrow> (404, None)
      | Some ob \<Rightarrow>
          let hm = header_get (gq_Header q) ''x-goog-if-metageneration-match'';
              qm = query_get (gq_Query q) ''ifMetagenerationMatch''
          in if hm \<noteq> [] \<and> hm \<noteq> dec (go_metageneration ob) \<or> qm \<noteq> [] \<and> qm \<noteq> dec (go_metageneration ob)
             then (412, o0)
             else if gq_Method q = ''DELETE'' then (204, None)
             else if gq_Method q = ''PATCH'' then
               (200, Some (ob\<lparr>go_metageneration := go_metageneration ob + 1,
                              go_metadata := fold (\<lambda>(k, v). header_set (''x-goog-meta-'' @ k) v) (meta (gq_Body q))
                                (go_metadata ob)\<rparr>))
             else (200, o0))"

definition object_of :: "gcs_target \<Rightarrow> (string \<times> string) option" where
  "object_of t =
     (case t of XmlObject b n \<Rightarrow> Some (b, n) | JsonObject b n \<Rightarrow> Some (b, n) | _ \<Rightarrow> None)"

text \<open>
  \<open>V s b n\<close> is the object of the name \<open>n\<close> in the bucket \<open>b\<close>.  A success and the statuses 404 and
  412 of an answer are those of the documented effect, which has then taken place; without an
  answer, or with another status, it may or may not have taken place.  A success of a read carries
  the object.
\<close>

locale gcs_server =
  fixes D :: "'s gcs" and L :: gcs_lib and meta :: "bytes \<Rightarrow> header"
    and V :: "'s \<Rightarrow> string \<Rightarrow> string \<Rightarrow> gcs_object option"
  assumes answered: "D q s = (Inr r, t) \<Longrightarrow> object_of (gq_Target q) = Some (b, n) \<Longrightarrow>
      gr_StatusCode r \<in> {200, 204, 404, 412} \<Longrightarrow>
      gcs_effect meta q (V s b n) = (gr_StatusCode r, V t b n)"
    and effect_or_not: "D q s = (a, t) \<Longrightarrow> object_of (gq_Target q) = Some (b, n) \<Longrightarrow>
      V t b n = V s b n \<or> V t b n = snd (gcs_effect meta q (V s b n))"
    and others_kept: "D q s = (a, t) \<Longrightarrow> object_of (gq_Target q) \<noteq> Some (b, n) \<Longrightarrow> V t b n = V s b n"
    and head_carries: "D q s = (Inr r, t) \<Longrightarrow> gq_Target q = XmlObject b n \<Longrightarrow> gq_Method q = ''HEAD'' \<Longrightarrow>
      gr_StatusCode r = 200 \<Longrightarrow> V s b n = Some ob \<Longrightarrow>
      header_get (gr_Header r) ''x-goog-metageneration'' = dec (go_metageneration ob)
      \<and> (\<forall>k. header_get (gr_Header r) (''x-goog-meta-'' @ k) = header_get (go_metadata ob) (''x-goog-meta-'' @ k))"
    and get_carries: "D q s = (Inr r, t) \<Longrightarrow> gq_Target q = XmlObject b n \<Longrightarrow> gq_Method q = ''GET'' \<Longrightarrow>
      gr_StatusCode r = 200 \<Longrightarrow> V s b n = Some ob \<Longrightarrow> gr_Body r = go_body ob"
    and patch_carries: "D q s = (Inr r, t) \<Longrightarrow> gq_Target q = JsonObject b n \<Longrightarrow> gq_Method q = ''PATCH'' \<Longrightarrow>
      gr_StatusCode r = 200 \<Longrightarrow> V t b n = Some ob \<Longrightarrow>
      gl_metageneration L (gr_Body r) = Inr (dec (go_metageneration ob))"

subsection \<open>A bucket kept in a list\<close>

text \<open>
  A server that answers every request, over an association list of objects, with flat encodings of
  the JSON documents.  It stands for Cloud Storage in the witnesses.
\<close>

type_synonym gcs_objects = "((string \<times> string) \<times> gcs_object) list"

definition flat_gcs_lib :: gcs_lib where
  "flat_gcs_lib =
     \<lparr>gl_listing = (\<lambda>b. Inr \<lparr>li_NextPageToken = [], li_Prefixes = [], li_Items = split_on (CHR 0x0A) b\<rparr>),
      gl_json_error = (\<lambda>b. b), gl_xml_error = (\<lambda>b. b), gl_mediatype = (\<lambda>v. v),
      gl_metageneration = Inr,
      gl_metadata = (\<lambda>kvs. case kvs of [] \<Rightarrow> [] | (k, v) # _ \<Rightarrow> v),
      gl_RFC3339 = (\<lambda>t. itoa (t div 1000000000)),
      gl_parse_RFC3339 = (\<lambda>b. case parse_int64 b of None \<Rightarrow> Inl (Message ''parsing time'') | Some i \<Rightarrow> Inr (i * 1000000000)),
      gl_parse_RFC1123 = (\<lambda>b. case parse_int64 b of None \<Rightarrow> Inl (Message ''parsing time'') | Some i \<Rightarrow> Inr (i * 1000000000))\<rparr>"

definition flat_meta :: "bytes \<Rightarrow> header" where
  "flat_meta b = [(''expiration'', b)]"

definition list_gcs :: "gcs_objects gcs" where
  "list_gcs q s =
     (case object_of (gq_Target q) of
        None \<Rightarrow> (Inr \<lparr>gr_StatusCode = 200, gr_Status = ''200 OK'', gr_Header = [],
                    gr_Body = join [CHR 0x0A] (map (snd \<circ> fst) s)\<rparr>, s)
      | Some k \<Rightarrow>
          let (st, v) = gcs_effect flat_meta q (map_of s k);
              hd = (case v of None \<Rightarrow> [] | Some ob \<Rightarrow>
                 (''x-goog-metageneration'', dec (go_metageneration ob)) # go_metadata ob);
              bd = (case v of None \<Rightarrow> [] | Some ob \<Rightarrow>
                 if gq_Method q = ''PATCH'' then dec (go_metageneration ob) else go_body ob)
          in (Inr \<lparr>gr_StatusCode = st, gr_Status = dec (nat st), gr_Header = hd, gr_Body = bd\<rparr>,
              case v of None \<Rightarrow> AList.delete k s | Some ob \<Rightarrow> AList.update k ob s))"

definition list_objects :: "gcs_objects \<Rightarrow> string \<Rightarrow> string \<Rightarrow> gcs_object option" where
  "list_objects s b n = map_of s (b, n)"

lemma meta_header_neq: "\<not> equal_fold ''x-goog-metageneration'' (''x-goog-meta-'' @ k)"
  by (simp add: equal_fold_def to_lower_def lower_char_def)

lemma list_gcs_view:
  assumes "list_gcs q s = (a, t)"
  shows "list_objects t b n =
    (if object_of (gq_Target q) = Some (b, n) then snd (gcs_effect flat_meta q (list_objects s b n))
     else list_objects s b n)"
  using assms
  by (auto simp: list_gcs_def list_objects_def delete_conv' update_conv' Let_def
      split: option.splits prod.splits if_splits)

interpretation list_gcs: gcs_server list_gcs flat_gcs_lib flat_meta list_objects
proof
  fix q s r t b n a ob
  show "gcs_effect flat_meta q (list_objects s b n) = (gr_StatusCode r, list_objects t b n)"
    if "list_gcs q s = (Inr r, t)" "object_of (gq_Target q) = Some (b, n)"
    using that list_gcs_view [OF that(1), of b n]
    by (auto simp: list_gcs_def list_objects_def Let_def split: prod.splits)
  show "list_objects t b n = list_objects s b n \<or>
      list_objects t b n = snd (gcs_effect flat_meta q (list_objects s b n))"
    if "list_gcs q s = (a, t)" "object_of (gq_Target q) = Some (b, n)"
    using that list_gcs_view [OF that(1), of b n] by simp
  show "list_objects t b n = list_objects s b n"
    if "list_gcs q s = (a, t)" "object_of (gq_Target q) \<noteq> Some (b, n)"
    using that list_gcs_view [OF that(1), of b n] by simp
  show "header_get (gr_Header r) ''x-goog-metageneration'' = dec (go_metageneration ob)
      \<and> (\<forall>k. header_get (gr_Header r) (''x-goog-meta-'' @ k) = header_get (go_metadata ob) (''x-goog-meta-'' @ k))"
    if "list_gcs q s = (Inr r, t)" "gq_Target q = XmlObject b n" "gq_Method q = ''HEAD''"
      "gr_StatusCode r = 200" "list_objects s b n = Some ob"
    using that meta_header_neq
    by (auto simp: list_gcs_def list_objects_def object_of_def gcs_effect_def Let_def split: if_splits)
  show "gr_Body r = go_body ob"
    if "list_gcs q s = (Inr r, t)" "gq_Target q = XmlObject b n" "gq_Method q = ''GET''"
      "gr_StatusCode r = 200" "list_objects s b n = Some ob"
    using that by (auto simp: list_gcs_def list_objects_def object_of_def gcs_effect_def Let_def split: if_splits)
  show "gl_metageneration flat_gcs_lib (gr_Body r) = Inr (dec (go_metageneration ob))"
    if "list_gcs q s = (Inr r, t)" "gq_Target q = JsonObject b n" "gq_Method q = ''PATCH''"
      "gr_StatusCode r = 200" "list_objects t b n = Some ob"
    using that list_gcs_view [OF that(1), of b n]
    by (auto simp: list_gcs_def list_objects_def object_of_def flat_gcs_lib_def Let_def
        split: prod.splits option.splits)
qed

subsection \<open>Listing\<close>

lemma mset_combineLists: "mset (combineLists ps is) = mset ps + mset is"
  by (induction ps "is" rule: combineLists.induct) auto

lemma set_combineLists: "set (combineLists ps is) = set ps \<union> set is"
  using arg_cong [OF mset_combineLists, of set_mset ps "is"] by simp

lemma sorted_combineLists: "sorted ps \<Longrightarrow> sorted is \<Longrightarrow> sorted (combineLists ps is)"
  by (induction ps "is" rule: combineLists.induct) (auto simp: set_combineLists)

lemma combineLists_sort: "sorted ps \<Longrightarrow> sorted is \<Longrightarrow> combineLists ps is = sort (ps @ is)"
  by (rule properties_for_sort [symmetric]) (simp_all add: mset_combineLists sorted_combineLists)

text \<open>A finite chain of pages, from the token of its first request.\<close>

inductive page_chain :: "'s gcs \<Rightarrow> gcs_lib \<Rightarrow> string \<Rightarrow> string \<Rightarrow> bool \<Rightarrow> string \<Rightarrow> 's \<Rightarrow> listing list \<Rightarrow> 's \<Rightarrow> bool"
  for D L bucket prefix recursive where
  last_page: "D ((gcs_request_of ''GET'' (JsonObjects bucket))\<lparr>gq_Query := list_query prefix recursive tok\<rparr>) s = (Inr r, t) \<Longrightarrow>
    gr_StatusCode r = 200 \<Longrightarrow> gl_listing L (gr_Body r) = Inr l \<Longrightarrow> li_NextPageToken l = [] \<Longrightarrow>
    page_chain D L bucket prefix recursive tok s [l] t"
| next_page: "D ((gcs_request_of ''GET'' (JsonObjects bucket))\<lparr>gq_Query := list_query prefix recursive tok\<rparr>) s = (Inr r, u) \<Longrightarrow>
    gr_StatusCode r = 200 \<Longrightarrow> gl_listing L (gr_Body r) = Inr l \<Longrightarrow> li_NextPageToken l \<noteq> [] \<Longrightarrow>
    page_chain D L bucket prefix recursive (li_NextPageToken l) u ls t \<Longrightarrow>
    page_chain D L bucket prefix recursive tok s (l # ls) t"

lemma list_loop_pages:
  "page_chain D L bucket prefix recursive tok s ls t \<Longrightarrow>
   list_loop D L bucket prefix recursive tok acc s =
     Some (Inr (acc @ concat (map (\<lambda>l. combineLists (li_Prefixes l) (li_Items l)) ls)), t)"
proof (induction arbitrary: acc rule: page_chain.induct)
  case (last_page tok s r t l)
  then show ?case by (subst list_loop.simps) simp
next
  case (next_page tok s r u l ls t)
  then show ?case by (subst list_loop.simps) (simp add: Let_def)
qed

text \<open>
  When the service's pages come to an end, \<open>List\<close> returns all of them, in their order, each page's
  prefixes and items as one sorted list.
\<close>

lemma list_returns_pages:
  assumes "page_chain D L bucket prefix recursive [] s ls t"
    and "\<forall>l \<in> set ls. sorted (li_Prefixes l) \<and> sorted (li_Items l)"
  shows "gcs_List D L bucket prefix recursive s =
    Some (Inr (concat (map (\<lambda>l. sort (li_Prefixes l @ li_Items l)) ls)), t)"
proof -
  have "map (\<lambda>l. combineLists (li_Prefixes l) (li_Items l)) ls = map (\<lambda>l. sort (li_Prefixes l @ li_Items l)) ls"
    using assms(2) by (simp add: combineLists_sort)
  with list_loop_pages [OF assms(1), of "[]"] show ?thesis by (simp add: gcs_List_def)
qed

lemma list_returns_pages_witness:
  "gcs_List (\<lambda>q (s :: unit). (Inr \<lparr>gr_StatusCode = 200, gr_Status = [], gr_Header = [],
       gr_Body = query_get (gq_Query q) ''pageToken''\<rparr>, s))
     (flat_gcs_lib\<lparr>gl_listing := (\<lambda>b. Inr (if b = [] then \<lparr>li_NextPageToken = ''x'', li_Prefixes = [''b/''], li_Items = [''a'']\<rparr>
        else \<lparr>li_NextPageToken = [], li_Prefixes = [], li_Items = [''c'']\<rparr>))\<rparr>) ''bucket'' [] False () =
   Some (Inr [''a'', ''b/'', ''c''], ())"
proof -
  let ?D = "\<lambda>q (s :: unit). (Inr \<lparr>gr_StatusCode = 200, gr_Status = [], gr_Header = [],
       gr_Body = query_get (gq_Query q) ''pageToken''\<rparr>, s)"
  let ?l1 = "\<lparr>li_NextPageToken = ''x'', li_Prefixes = [''b/''], li_Items = [''a'']\<rparr>"
    and ?l2 = "\<lparr>li_NextPageToken = [], li_Prefixes = [], li_Items = [''c'']\<rparr>"
  let ?L = "flat_gcs_lib\<lparr>gl_listing := (\<lambda>b. Inr (if b = [] then ?l1 else ?l2))\<rparr>"
  have p2: "page_chain ?D ?L ''bucket'' [] False ''x'' () [?l2] ()"
    by (rule page_chain.last_page, simp add: list_query_def query_get_def, simp_all)
  have "page_chain ?D ?L ''bucket'' [] False [] () [?l1, ?l2] ()"
    by (rule page_chain.next_page, simp add: list_query_def query_get_def, simp_all add: p2)
  from list_returns_pages [OF this] have "gcs_List ?D ?L ''bucket'' [] False () =
      Some (Inr (concat (map (\<lambda>l. sort (li_Prefixes l @ li_Items l)) [?l1, ?l2])), ())"
    by simp
  moreover have "concat (map (\<lambda>l. sort (li_Prefixes l @ li_Items l)) [?l1, ?l2]) = [''a'', ''b/'', ''c'']"
    by code_simp
  ultimately show ?thesis by simp
qed

end
