(* ===== verification/Gcslock.thy ===== *)
theory Gcslock
  imports GcsOps Backoff
begin

section \<open>The distributed lock (pkg/gcslock)\<close>

text \<open>
  \<open>Mutex\<close> is a lock kept as an object of a bucket: whoever creates the object holds the lock,
  refreshes its expiration while holding it and deletes it in the end; a lock seen expired is
  deleted by the waiters.  The first part has the operations as the code has them, with the time
  as an argument and the background refresh as the flag \<open>mx_refreshing\<close>; \<open>lock_loop\<close> is the
  loop of \<open>Lock\<close>, in which \<open>env\<close> is what the others do between two iterations.

  The second part is the protocol: any number of processes, each at a point of \<open>Lock\<close>, whose
  requests interleave.  Mutual exclusion is an invariant of the runs in which no waiter sees the lock
  expired, and fails otherwise.
\<close>

definition expirationHeader :: string where
  "expirationHeader = ''x-goog-meta-expiration''"

record mutex =
  mx_name :: string
  mx_bucket :: string
  mx_ttl :: duration
  mx_refreshInterval :: duration
  mx_backoff :: backoff
  mx_refreshing :: bool
  mx_lastKnown :: string

text \<open>\<open>NewMutex\<close>, of the name, the bucket and the two durations of the options.\<close>

definition NewMutex :: "string \<Rightarrow> string \<Rightarrow> duration \<Rightarrow> duration \<Rightarrow> mutex" where
  "NewMutex name bucket ttl refreshInterval =
     \<lparr>mx_name = name, mx_bucket = bucket,
      mx_ttl = (if ttl = 0 then 300 * second else ttl),
      mx_refreshInterval = (if refreshInterval = 0 then 37 * second else refreshInterval),
      mx_backoff = \<lparr>bo_Delay = 0, bo_Max = 30 * second, bo_Min = second\<rparr>,
      mx_refreshing = False, mx_lastKnown = ''1''\<rparr>"

subsection \<open>The operations\<close>

definition mutex_put :: "'s gcs \<Rightarrow> gcs_lib \<Rightarrow> mutex \<Rightarrow> time \<Rightarrow> 's \<Rightarrow> err option \<times> 's" where
  "mutex_put D L m now s =
     gcs_Upload D L
       [(''x-goog-if-generation-match'', ''0''), (''Cache-Control'', ''no-store''),
        (expirationHeader, gl_RFC3339 L (now + sint (mx_ttl m)))]
       (mx_bucket m) (mx_name m) [] s"

definition mutex_delete :: "'s gcs \<Rightarrow> gcs_lib \<Rightarrow> mutex \<Rightarrow> string \<Rightarrow> 's \<Rightarrow> err option \<times> 's" where
  "mutex_delete D L m metageneration s =
     gcs_Delete D L [(''x-goog-if-metageneration-match'', metageneration)] (mx_bucket m) (mx_name m) s"

definition mutex_refresh :: "'s gcs \<Rightarrow> gcs_lib \<Rightarrow> mutex \<Rightarrow> time \<Rightarrow> 's \<Rightarrow> err option \<times> mutex \<times> 's" where
  "mutex_refresh D L m now s =
     (case D \<lparr>gq_Method = ''PATCH'', gq_Target = JsonObject (mx_bucket m) (mx_name m),
              gq_Query = [(''fields'', ''metageneration''), (''ifMetagenerationMatch'', mx_lastKnown m),
                          (''prettyPrint'', ''false'')],
              gq_Header = [(''Content-Type'', ''application/json'')],
              gq_Body = gl_metadata L [(''expiration'', gl_RFC3339 L (now + sint (mx_ttl m)))]\<rparr> s of
        (Inl e, t) \<Rightarrow> (Some e, m, t)
      | (Inr resp, t) \<Rightarrow>
          if gr_StatusCode resp \<noteq> 200
          then (Some (Message (''unhealthy lock: ret. status code: '' @ itoa (gr_StatusCode resp))), m, t)
          else case gl_metageneration L (gr_Body resp) of
            Inl e \<Rightarrow> (Some e, m, t)
          | Inr metageneration \<Rightarrow> (None, m\<lparr>mx_lastKnown := metageneration\<rparr>, t))"

text \<open>
  \<open>shouldWait\<close> up to the request that deletes an expired lock: the decision, or the metageneration
  to delete.
\<close>

definition stat_says :: "gcs_lib \<Rightarrow> time \<Rightarrow> err + header \<Rightarrow> bool + string" where
  "stat_says L now r =
     (case r of
        Inl e \<Rightarrow> Inl (\<not> is_err GcsNotFound e)
      | Inr headers \<Rightarrow>
          (case gl_parse_RFC3339 L (header_get headers expirationHeader) of
             Inl e \<Rightarrow> Inl True
           | Inr expiration \<Rightarrow>
               if now > expiration then Inr (header_get headers ''x-goog-metageneration'') else Inl True))"

definition shouldWait :: "'s gcs \<Rightarrow> gcs_lib \<Rightarrow> mutex \<Rightarrow> time \<Rightarrow> 's \<Rightarrow> bool \<times> 's" where
  "shouldWait D L m now s =
     (case gcs_Stat D L (mx_bucket m) (mx_name m) s of
        (r, t) \<Rightarrow>
          (case stat_says L now r of
             Inl w \<Rightarrow> (w, t)
           | Inr metageneration \<Rightarrow>
               (case mutex_delete D L m metageneration t of (e, u) \<Rightarrow> (e \<noteq> None, u))))"

datatype lock_outcome = Acquired mutex | MustWait | TryAgain

definition acquired :: "mutex \<Rightarrow> mutex" where
  "acquired m = m\<lparr>mx_lastKnown := ''1'', mx_refreshing := True\<rparr>"

definition lock_iteration :: "'s gcs \<Rightarrow> gcs_lib \<Rightarrow> mutex \<Rightarrow> time \<Rightarrow> time \<Rightarrow> 's \<Rightarrow> lock_outcome \<times> 's" where
  "lock_iteration D L m put_time stat_time s =
     (case mutex_put D L m put_time s of
        (None, t) \<Rightarrow> (Acquired (acquired m), t)
      | (Some e, t) \<Rightarrow>
          if \<not> is_err GcsPreconditionFailed e then (MustWait, t)
          else case shouldWait D L m stat_time t of (w, u) \<Rightarrow> (if w then MustWait else TryAgain, u))"

partial_function (option) lock_loop ::
  "'s gcs \<Rightarrow> gcs_lib \<Rightarrow> mutex \<Rightarrow> (nat \<Rightarrow> 's \<Rightarrow> 's) \<Rightarrow> (nat \<Rightarrow> time \<times> time) \<Rightarrow> (nat \<Rightarrow> err option)
    \<Rightarrow> backoff \<Rightarrow> nat \<Rightarrow> 's \<Rightarrow> ((err + mutex) \<times> 's) option" where
  "lock_loop D L m env now ctx b i s =
     (case lock_iteration D L m (fst (now i)) (snd (now i)) (env i s) of
        (Acquired m', t) \<Rightarrow> Some (Inr m', t)
      | (MustWait, t) \<Rightarrow>
          (case bo_wait (ctx i) b of
             (Some e, b') \<Rightarrow> Some (Inl (wrap GcslockError e), t)
           | (None, b') \<Rightarrow> lock_loop D L m env now ctx b' (Suc i) t)
      | (TryAgain, t) \<Rightarrow> lock_loop D L m env now ctx b (Suc i) t)"

definition mutex_Lock :: "'s gcs \<Rightarrow> gcs_lib \<Rightarrow> mutex \<Rightarrow> (nat \<Rightarrow> 's \<Rightarrow> 's) \<Rightarrow> (nat \<Rightarrow> time \<times> time)
    \<Rightarrow> (nat \<Rightarrow> err option) \<Rightarrow> 's \<Rightarrow> ((err + mutex) \<times> 's) option" where
  "mutex_Lock D L m env now ctx s = lock_loop D L m env now ctx (mx_backoff m) 0 s"

definition mutex_Unlock :: "'s gcs \<Rightarrow> gcs_lib \<Rightarrow> mutex \<Rightarrow> 's \<Rightarrow> err option \<times> mutex \<times> 's" where
  "mutex_Unlock D L m s =
     (let m1 = m\<lparr>mx_refreshing := False\<rparr>
      in case mutex_delete D L m1 (mx_lastKnown m1) s of
           (None, t) \<Rightarrow> (None, m1, t)
         | (Some e, t) \<Rightarrow>
             (if \<not> is_err GcsPreconditionFailed e
              then Some (Classed GcslockError (Detail ''unexpected response: '' e)) else None, m1, t))"

subsection \<open>The protocol\<close>

text \<open>
  The points of a process: outside, before creating the object, before looking at it, before deleting
  it at a metageneration, in the backoff, inside.  \<open>lw_expires\<close> is the expiration that a process wrote
  last; the code does not keep it.
\<close>

datatype lock_pc = LIdle | LTrying | LFound | LStale string | LWaiting | LHeld

datatype lock_event = Quiet | SawExpired

record ('p, 's) lock_world =
  lw_server :: 's
  lw_now :: time
  lw_pc :: "'p \<Rightarrow> lock_pc"
  lw_mutex :: "'p \<Rightarrow> mutex"
  lw_expires :: "'p \<Rightarrow> time"

inductive lock_world_step :: "'s gcs \<Rightarrow> gcs_lib \<Rightarrow> ('p, 's) lock_world \<Rightarrow> lock_event
    \<Rightarrow> ('p, 's) lock_world \<Rightarrow> bool" for D L where
  tick: "lw_now w \<le> now \<Longrightarrow> lock_world_step D L w Quiet (w\<lparr>lw_now := now\<rparr>)"
| enter: "lw_pc w p = LIdle \<Longrightarrow> lock_world_step D L w Quiet (w\<lparr>lw_pc := (lw_pc w)(p := LTrying)\<rparr>)"
| put_ok: "lw_pc w p = LTrying \<Longrightarrow> mutex_put D L (lw_mutex w p) (lw_now w) (lw_server w) = (None, t) \<Longrightarrow>
    lock_world_step D L w Quiet
      (w\<lparr>lw_server := t, lw_pc := (lw_pc w)(p := LHeld),
         lw_mutex := (lw_mutex w)(p := acquired (lw_mutex w p)),
         lw_expires := (lw_expires w)(p := lw_now w + sint (mx_ttl (lw_mutex w p)))\<rparr>)"
| put_failed: "lw_pc w p = LTrying \<Longrightarrow> mutex_put D L (lw_mutex w p) (lw_now w) (lw_server w) = (Some e, t) \<Longrightarrow>
    lock_world_step D L w Quiet
      (w\<lparr>lw_server := t,
         lw_pc := (lw_pc w)(p := if is_err GcsPreconditionFailed e then LFound else LWaiting)\<rparr>)"
| stat_decides: "lw_pc w p = LFound \<Longrightarrow>
    gcs_Stat D L (mx_bucket (lw_mutex w p)) (mx_name (lw_mutex w p)) (lw_server w) = (r, t) \<Longrightarrow>
    stat_says L (lw_now w) r = Inl b \<Longrightarrow>
    lock_world_step D L w Quiet
      (w\<lparr>lw_server := t, lw_pc := (lw_pc w)(p := if b then LWaiting else LTrying)\<rparr>)"
| stat_expired: "lw_pc w p = LFound \<Longrightarrow>
    gcs_Stat D L (mx_bucket (lw_mutex w p)) (mx_name (lw_mutex w p)) (lw_server w) = (r, t) \<Longrightarrow>
    stat_says L (lw_now w) r = Inr mg \<Longrightarrow>
    lock_world_step D L w SawExpired (w\<lparr>lw_server := t, lw_pc := (lw_pc w)(p := LStale mg)\<rparr>)"
| delete_stale: "lw_pc w p = LStale mg \<Longrightarrow> mutex_delete D L (lw_mutex w p) mg (lw_server w) = (e, t) \<Longrightarrow>
    lock_world_step D L w Quiet
      (w\<lparr>lw_server := t, lw_pc := (lw_pc w)(p := if e \<noteq> None then LWaiting else LTrying)\<rparr>)"
| wake: "lw_pc w p = LWaiting \<Longrightarrow> lock_world_step D L w Quiet (w\<lparr>lw_pc := (lw_pc w)(p := LTrying)\<rparr>)"
| give_up: "lw_pc w p = LWaiting \<Longrightarrow> lock_world_step D L w Quiet (w\<lparr>lw_pc := (lw_pc w)(p := LIdle)\<rparr>)"
| refresh: "lw_pc w p = LHeld \<Longrightarrow> mx_refreshing (lw_mutex w p) \<Longrightarrow>
    mutex_refresh D L (lw_mutex w p) (lw_now w) (lw_server w) = (e, m, t) \<Longrightarrow>
    lock_world_step D L w Quiet
      (w\<lparr>lw_server := t,
         lw_mutex := (lw_mutex w)(p := if e = None then m else m\<lparr>mx_refreshing := False\<rparr>),
         lw_expires := (lw_expires w)(p := if e = None then lw_now w + sint (mx_ttl m) else lw_expires w p)\<rparr>)"
| unlock: "lw_pc w p = LHeld \<Longrightarrow> mutex_Unlock D L (lw_mutex w p) (lw_server w) = (e, m, t) \<Longrightarrow>
    lock_world_step D L w Quiet
      (w\<lparr>lw_server := t, lw_pc := (lw_pc w)(p := LIdle), lw_mutex := (lw_mutex w)(p := m)\<rparr>)"

text \<open>The worlds reached by steps whose events are allowed.\<close>

inductive lock_reach :: "'s gcs \<Rightarrow> gcs_lib \<Rightarrow> lock_event set \<Rightarrow> ('p, 's) lock_world \<Rightarrow> ('p, 's) lock_world \<Rightarrow> bool"
  for D L A w0 where
  start: "lock_reach D L A w0 w0"
| more: "lock_reach D L A w0 w \<Longrightarrow> lock_world_step D L w ev w' \<Longrightarrow> ev \<in> A \<Longrightarrow> lock_reach D L A w0 w'"

text \<open>At the beginning every process is outside, and all use the same object.\<close>

definition lock_start :: "string \<Rightarrow> string \<Rightarrow> ('p, 's) lock_world \<Rightarrow> bool" where
  "lock_start b n w \<longleftrightarrow> (\<forall>p. lw_pc w p = LIdle \<and> mx_bucket (lw_mutex w p) = b \<and> mx_name (lw_mutex w p) = n)"

subsection \<open>What the operations do to the object\<close>

definition lock_object :: "gcs_lib \<Rightarrow> mutex \<Rightarrow> time \<Rightarrow> gcs_object" where
  "lock_object L m now =
     \<lparr>go_metageneration = 1, go_metadata = [(expirationHeader, gl_RFC3339 L (now + sint (mx_ttl m)))],
      go_body = []\<rparr>"

lemma put_gcs_effect:
  "gcs_effect meta ((gcs_request_of ''PUT'' (XmlObject b n))\<lparr>gq_Header :=
       [(''x-goog-if-generation-match'', ''0''), (''Cache-Control'', ''no-store''),
        (expirationHeader, x)], gq_Body := []\<rparr>) ob =
   (case ob of Some _ \<Rightarrow> (412, ob)
    | None \<Rightarrow> (200, Some \<lparr>go_metageneration = 1, go_metadata = [(expirationHeader, x)], go_body = []\<rparr>))"
proof -
  have "to_lower ''x-goog-if-generation-match'' = ''x-goog-if-generation-match''"
    "to_lower ''Cache-Control'' = ''cache-control''" "to_lower expirationHeader = ''x-goog-meta-expiration''"
    by code_simp+
  then show ?thesis
    by (cases ob) (simp_all add: gcs_effect_def gcs_request_of_def custom_metadata_def)
qed

lemma dec_1: "dec 1 = ''1''"
  by code_simp

lemma dec_neq_Nil [simp]: "[] \<noteq> dec n"
  using dec_not_Nil [of n] by metis

context gcs_server
begin

abbreviation the_object :: "mutex \<Rightarrow> 's \<Rightarrow> gcs_object option" where
  "the_object m s \<equiv> V s (mx_bucket m) (mx_name m)"

lemma put_held:
  assumes "mutex_put D L m now s = (e, t)" and "the_object m s = Some ob"
  shows "the_object m t = Some ob \<and> e \<noteq> None"
proof -
  obtain a where a: "D ((gcs_request_of ''PUT'' (XmlObject (mx_bucket m) (mx_name m)))\<lparr>gq_Header :=
       [(''x-goog-if-generation-match'', ''0''), (''Cache-Control'', ''no-store''),
        (expirationHeader, gl_RFC3339 L (now + sint (mx_ttl m)))], gq_Body := []\<rparr>) s = (a, t)"
    and e: "e = (case a of Inl x \<Rightarrow> Some (wrap GcsopsError x) | Inr r \<Rightarrow>
      if gr_StatusCode r = 200 then None
      else if gr_StatusCode r = 412 then Some gcs_ErrPreconditionFailed
      else Some (wrap GcsopsError (responseError L r)))"
    using assms(1) by (auto simp: mutex_put_def gcs_Upload_def split: prod.splits sum.splits)
  have tgt: "object_of (gq_Target (((gcs_request_of ''PUT'' (XmlObject (mx_bucket m) (mx_name m)))\<lparr>gq_Header := h, gq_Body := []\<rparr>)))
      = Some (mx_bucket m, mx_name m)" for h
    by (simp add: gcs_request_of_def object_of_def)
  have "the_object m t = Some ob"
    using effect_or_not [OF a tgt] assms(2) by (simp add: put_gcs_effect)
  moreover have "gr_StatusCode r \<noteq> 200" if "a = Inr r" for r
    using answered [OF a [unfolded that] tgt] assms(2) by (auto simp: put_gcs_effect)
  ultimately show ?thesis using e by (auto split: sum.splits)
qed

lemma put_absent:
  assumes "mutex_put D L m now s = (None, t)"
  shows "the_object m s = None \<and> the_object m t = Some (lock_object L m now)"
proof -
  have none: "the_object m s = None" using put_held [OF assms] by (cases "the_object m s") auto
  obtain r where a: "D ((gcs_request_of ''PUT'' (XmlObject (mx_bucket m) (mx_name m)))\<lparr>gq_Header :=
       [(''x-goog-if-generation-match'', ''0''), (''Cache-Control'', ''no-store''),
        (expirationHeader, gl_RFC3339 L (now + sint (mx_ttl m)))], gq_Body := []\<rparr>) s = (Inr r, t)"
    and st: "gr_StatusCode r = 200"
    using assms by (auto simp: mutex_put_def gcs_Upload_def split: prod.splits sum.splits if_splits)
  have "gcs_effect meta ((gcs_request_of ''PUT'' (XmlObject (mx_bucket m) (mx_name m)))\<lparr>gq_Header :=
       [(''x-goog-if-generation-match'', ''0''), (''Cache-Control'', ''no-store''),
        (expirationHeader, gl_RFC3339 L (now + sint (mx_ttl m)))], gq_Body := []\<rparr>) (the_object m s)
    = (gr_StatusCode r, the_object m t)"
    by (rule answered [OF a]) (simp_all add: gcs_request_of_def object_of_def st)
  with none show ?thesis by (simp add: put_gcs_effect lock_object_def)
qed

lemma put_refused:
  assumes "mutex_put D L m now s = (Some e, t)" and "\<And>q. \<exists>r u. D q s = (Inr r, u) \<and> gr_StatusCode r \<in> {200, 204, 404, 412}"
  shows "e = gcs_ErrPreconditionFailed \<and> the_object m s \<noteq> None \<and> the_object m t = the_object m s"
proof -
  define q where "q = (gcs_request_of ''PUT'' (XmlObject (mx_bucket m) (mx_name m)))\<lparr>gq_Header :=
       [(''x-goog-if-generation-match'', ''0''), (''Cache-Control'', ''no-store''),
        (expirationHeader, gl_RFC3339 L (now + sint (mx_ttl m)))], gq_Body := []\<rparr>"
  obtain r u where a: "D q s = (Inr r, u)" and st: "gr_StatusCode r \<in> {200, 204, 404, 412}"
    using assms(2) by blast
  have "(gr_StatusCode r, the_object m u) = gcs_effect meta q (the_object m s)"
    by (rule answered [OF a _ st, symmetric]) (simp add: q_def gcs_request_of_def object_of_def)
  then have eff: "gr_StatusCode r = (if the_object m s = None then 200 else 412)"
    "the_object m s \<noteq> None \<longrightarrow> the_object m u = the_object m s"
    unfolding q_def put_gcs_effect by (cases "the_object m s", auto)
  have "u = t \<and> e = gcs_ErrPreconditionFailed \<and> gr_StatusCode r = 412"
    using assms(1) a eff(1) by (auto simp: mutex_put_def gcs_Upload_def q_def [symmetric] split: if_splits)
  with eff show ?thesis by (auto split: if_splits)
qed

lemma stat_keeps: "gcs_Stat D L b n s = (r, t) \<Longrightarrow> V t b n = V s b n"
proof -
  assume "gcs_Stat D L b n s = (r, t)"
  then obtain a where a: "D (gcs_request_of ''HEAD'' (XmlObject b n)) s = (a, t)"
    by (auto simp: gcs_Stat_def split: prod.splits sum.splits)
  have "V t b n = V s b n \<or> V t b n = snd (gcs_effect meta (gcs_request_of ''HEAD'' (XmlObject b n)) (V s b n))"
    by (rule effect_or_not [OF a]) (simp add: gcs_request_of_def object_of_def)
  then show ?thesis
    by (auto simp: gcs_effect_def gcs_request_of_def Let_def query_get_def split: option.splits if_splits)
qed

lemma stat_reads:
  assumes "gcs_Stat D L b n s = (Inr h, t)"
  obtains ob where "V s b n = Some ob" and "header_get h ''x-goog-metageneration'' = dec (go_metageneration ob)"
    and "header_get h expirationHeader = header_get (go_metadata ob) expirationHeader"
proof -
  obtain r where a: "D (gcs_request_of ''HEAD'' (XmlObject b n)) s = (Inr r, t)"
    and st: "gr_StatusCode r = 200" and h: "h = gr_Header r"
    using assms by (auto simp: gcs_Stat_def split: prod.splits sum.splits if_splits)
  have "gcs_effect meta (gcs_request_of ''HEAD'' (XmlObject b n)) (V s b n) = (gr_StatusCode r, V t b n)"
    by (rule answered [OF a]) (simp_all add: gcs_request_of_def object_of_def st)
  then obtain ob where ob: "V s b n = Some ob"
    using st by (auto simp: gcs_effect_def gcs_request_of_def split: option.splits)
  have "header_get (gr_Header r) ''x-goog-metageneration'' = dec (go_metageneration ob)
      \<and> (\<forall>k. header_get (gr_Header r) (''x-goog-meta-'' @ k) = header_get (go_metadata ob) (''x-goog-meta-'' @ k))"
    by (rule head_carries [OF a _ _ st ob]) (simp_all add: gcs_request_of_def)
  moreover have "expirationHeader = ''x-goog-meta-'' @ ''expiration''" by (simp add: expirationHeader_def)
  ultimately show thesis using that ob h by metis
qed

lemma refresh_keeps:
  assumes "mutex_refresh D L m now s = (e, m', t)" and "the_object m s \<noteq> None"
  shows "the_object m t \<noteq> None \<and> mx_bucket m' = mx_bucket m \<and> mx_name m' = mx_name m \<and> mx_ttl m' = mx_ttl m"
proof -
  define q where "q = \<lparr>gq_Method = ''PATCH'', gq_Target = JsonObject (mx_bucket m) (mx_name m),
              gq_Query = [(''fields'', ''metageneration''), (''ifMetagenerationMatch'', mx_lastKnown m),
                          (''prettyPrint'', ''false'')],
              gq_Header = [(''Content-Type'', ''application/json'')],
              gq_Body = gl_metadata L [(''expiration'', gl_RFC3339 L (now + sint (mx_ttl m)))]\<rparr>"
  obtain a where a: "D q s = (a, t)"
    using assms(1) by (auto simp: mutex_refresh_def q_def [symmetric] split: prod.splits sum.splits if_splits)
  have "the_object m t = the_object m s \<or> the_object m t = snd (gcs_effect meta q (the_object m s))"
    by (rule effect_or_not [OF a]) (simp add: q_def object_of_def)
  then have "the_object m t \<noteq> None"
    using assms(2) by (auto simp: gcs_effect_def q_def Let_def split: if_splits)
  then show ?thesis
    using assms(1) by (auto simp: mutex_refresh_def split: prod.splits sum.splits if_splits)
qed

lemma refresh_advances:
  assumes "mutex_refresh D L m now s = (None, m', t)"
  obtains ob ob' where "the_object m s = Some ob" and "the_object m t = Some ob'"
    and "mx_lastKnown m = [] \<or> mx_lastKnown m = dec (go_metageneration ob)"
    and "mx_lastKnown m' = dec (go_metageneration ob')"
proof -
  define q where "q = \<lparr>gq_Method = ''PATCH'', gq_Target = JsonObject (mx_bucket m) (mx_name m),
              gq_Query = [(''fields'', ''metageneration''), (''ifMetagenerationMatch'', mx_lastKnown m),
                          (''prettyPrint'', ''false'')],
              gq_Header = [(''Content-Type'', ''application/json'')],
              gq_Body = gl_metadata L [(''expiration'', gl_RFC3339 L (now + sint (mx_ttl m)))]\<rparr>"
  obtain r where a: "D q s = (Inr r, t)" and st: "gr_StatusCode r = 200"
    and m': "gl_metageneration L (gr_Body r) = Inr (mx_lastKnown m')"
    using assms by (auto simp: mutex_refresh_def q_def [symmetric] split: prod.splits sum.splits if_splits)
  have eff: "(200, the_object m t) = gcs_effect meta q (the_object m s)"
    using answered [OF a, of "mx_bucket m" "mx_name m"] st by (simp add: q_def object_of_def)
  then obtain ob ob' where ob: "the_object m s = Some ob" "the_object m t = Some ob'"
    "mx_lastKnown m = [] \<or> mx_lastKnown m = dec (go_metageneration ob)"
    by (auto simp: gcs_effect_def q_def Let_def query_get_def split: option.splits if_splits)
  have "gl_metageneration L (gr_Body r) = Inr (dec (go_metageneration ob'))"
    by (rule patch_carries [OF a _ _ st ob(2)]) (simp_all add: q_def)
  with m' ob that show thesis by simp
qed

lemma delete_matching:
  assumes "mutex_delete D L m (dec k) s = (e, t)" and "the_object m s = Some ob"
    and "\<And>q. \<exists>r u. D q s = (Inr r, u) \<and> gr_StatusCode r \<in> {200, 204, 404, 412}"
  shows "if k = go_metageneration ob then e = None \<and> the_object m t = None
    else e = Some gcs_ErrPreconditionFailed \<and> the_object m t = Some ob"
proof -
  define q where "q = (gcs_request_of ''DELETE'' (XmlObject (mx_bucket m) (mx_name m)))\<lparr>gq_Header :=
       [(''x-goog-if-metageneration-match'', dec k)]\<rparr>"
  obtain r u where a: "D q s = (Inr r, u)" and st: "gr_StatusCode r \<in> {200, 204, 404, 412}"
    using assms(3) by blast
  have "(gr_StatusCode r, the_object m u) = gcs_effect meta q (Some ob)"
    unfolding assms(2) [symmetric]
    by (rule answered [OF a _ st, symmetric]) (simp add: q_def gcs_request_of_def object_of_def)
  then have "(gr_StatusCode r, the_object m u) = (if k = go_metageneration ob then (204, None) else (412, Some ob))"
    by (simp add: gcs_effect_def q_def gcs_request_of_def Let_def query_get_def)
  moreover have "u = t"
    and "e = (if gr_StatusCode r = 204 then None else if gr_StatusCode r = 404 then Some gcs_ErrNotFound
      else if gr_StatusCode r = 412 then Some gcs_ErrPreconditionFailed
      else Some (wrap GcsopsError (responseError L r)))"
    using assms(1) a by (auto simp: mutex_delete_def gcs_Delete_def q_def [symmetric])
  ultimately show ?thesis by (auto split: if_splits)
qed

subsection \<open>The invariant of mutual exclusion\<close>

definition exclusive :: "string \<Rightarrow> string \<Rightarrow> ('p, 's) lock_world \<Rightarrow> bool" where
  "exclusive b n w \<longleftrightarrow>
     (\<forall>p. mx_bucket (lw_mutex w p) = b \<and> mx_name (lw_mutex w p) = n)
     \<and> (\<forall>p mg. lw_pc w p \<noteq> LStale mg)
     \<and> (\<forall>p. lw_pc w p = LHeld \<longrightarrow> V (lw_server w) b n \<noteq> None)
     \<and> (\<forall>p q. lw_pc w p = LHeld \<longrightarrow> lw_pc w q = LHeld \<longrightarrow> p = q)"

lemma exclusive_start: "lock_start b n w \<Longrightarrow> exclusive b n w"
  by (simp add: lock_start_def exclusive_def)

lemma Unlock_mutex: "mutex_Unlock D L m s = (e, m', t) \<Longrightarrow> mx_bucket m' = mx_bucket m \<and> mx_name m' = mx_name m"
  by (auto simp: mutex_Unlock_def Let_def split: prod.splits option.splits)

lemma exclusive_step:
  assumes "lock_world_step D L w ev w'" and "ev = Quiet" and "exclusive b n w"
  shows "exclusive b n w'"
  using assms(1)
proof (cases rule: lock_world_step.cases)
  case (put_ok p t)
  have "the_object (lw_mutex w p) (lw_server w) = None \<and> the_object (lw_mutex w p) t \<noteq> None"
    using put_absent [OF put_ok(4)] by simp
  with put_ok assms(2,3) show ?thesis
    by (auto simp: exclusive_def acquired_def)
next
  case (put_failed p e t)
  have "V (lw_server w) b n \<noteq> None \<longrightarrow> V t b n \<noteq> None"
    using put_held [OF put_failed(4)] assms(3) by (auto simp: exclusive_def)
  with put_failed assms(3) show ?thesis
    by (auto simp: exclusive_def split: if_splits)
next
  case (stat_decides p r t x)
  have "V t b n = V (lw_server w) b n"
    using stat_keeps [OF stat_decides(4)] assms(3) by (auto simp: exclusive_def)
  with stat_decides assms(3) show ?thesis
    by (auto simp: exclusive_def split: if_splits)
next
  case (refresh p e m t)
  have "V (lw_server w) b n \<noteq> None" using refresh assms(3) by (auto simp: exclusive_def)
  then have "V t b n \<noteq> None" "mx_bucket m = b" "mx_name m = n"
    using refresh_keeps [OF refresh(5)] assms(3) by (auto simp: exclusive_def)
  with refresh assms(3) show ?thesis
    by (auto simp: exclusive_def)
next
  case (unlock p e m t)
  have "mx_bucket m = b" "mx_name m = n"
    using Unlock_mutex [OF unlock(4)] assms(3) by (auto simp: exclusive_def)
  with unlock assms(3) show ?thesis
    by (auto simp: exclusive_def)
qed (use assms(2,3) in \<open>auto simp: exclusive_def split: if_splits\<close>)

lemma exclusive_reach:
  "lock_reach D L {Quiet} w0 w \<Longrightarrow> lock_start b n w0 \<Longrightarrow> exclusive b n w"
  by (induction rule: lock_reach.induct) (auto intro: exclusive_start exclusive_step)

subsection \<open>The life of a lock\<close>

lemma acquired_matches:
  assumes "lock_iteration D L m t1 t2 s = (Acquired m', t)"
  shows "the_object m s = None \<and> the_object m t = Some (lock_object L m t1)
    \<and> m' = acquired m \<and> mx_lastKnown m' = dec (go_metageneration (lock_object L m t1))"
proof -
  have p: "mutex_put D L m t1 s = (None, t)" and m': "m' = acquired m"
    using assms by (auto simp: lock_iteration_def split: prod.splits option.splits if_splits)
  show ?thesis
    using put_absent [OF p] m' dec_1 by (simp add: acquired_def lock_object_def)
qed

lemma iteration_outcomes:
  assumes "\<And>q s. \<exists>r u. D q s = (Inr r, u) \<and> gr_StatusCode r \<in> {200, 204, 404, 412}"
    and "lock_iteration D L m t1 t2 s = (r, t)"
  shows "case the_object m s of
      None \<Rightarrow> r = Acquired (acquired m) \<and> the_object m t = Some (lock_object L m t1)
    | Some ob \<Rightarrow>
        (case gl_parse_RFC3339 L (header_get (go_metadata ob) expirationHeader) of
           Inr expiration \<Rightarrow>
             if expiration < t2 then r = TryAgain \<and> the_object m t = None
             else r = MustWait \<and> the_object m t = Some ob
         | Inl _ \<Rightarrow> r = MustWait \<and> the_object m t = Some ob)"
proof -
  obtain e u where p: "mutex_put D L m t1 s = (e, u)" by fastforce
  show ?thesis
  proof (cases e)
    case None
    then show ?thesis using put_absent [of m t1 s u] p assms(2) by (simp add: lock_iteration_def)
  next
    case (Some x)
    then have x: "x = gcs_ErrPreconditionFailed" and u: "the_object m s \<noteq> None" "the_object m u = the_object m s"
      using put_refused [of m t1 s x u] p assms(1) by blast+
    then obtain ob where ob: "the_object m u = Some ob" "the_object m s = Some ob" by auto
    obtain h v where st: "gcs_Stat D L (mx_bucket m) (mx_name m) u = (h, v)" by fastforce
    have v: "the_object m v = Some ob" using stat_keeps [OF st] ob by simp
    have "\<exists>hd. h = Inr hd"
    proof -
      obtain r' w where a: "D (gcs_request_of ''HEAD'' (XmlObject (mx_bucket m) (mx_name m))) u = (Inr r', w)"
        and c: "gr_StatusCode r' \<in> {200, 204, 404, 412}" using assms(1) by blast
      have "gcs_effect meta (gcs_request_of ''HEAD'' (XmlObject (mx_bucket m) (mx_name m))) (the_object m u)
          = (gr_StatusCode r', the_object m w)"
        by (rule answered [OF a _ c]) (simp add: gcs_request_of_def object_of_def)
      then have "gr_StatusCode r' = 200"
        using ob by (simp add: gcs_effect_def gcs_request_of_def Let_def query_get_def)
      then show ?thesis using st a by (auto simp: gcs_Stat_def)
    qed
    then obtain hd where h: "h = Inr hd" ..
    have hd: "header_get hd ''x-goog-metageneration'' = dec (go_metageneration ob)"
      "header_get hd expirationHeader = header_get (go_metadata ob) expirationHeader"
      using stat_reads [OF st [unfolded h]] ob by (metis option.inject)+
    obtain y z where d: "mutex_delete D L m (dec (go_metageneration ob)) v = (y, z)" by fastforce
    have "y = None \<and> the_object m z = None"
      using delete_matching [OF d v assms(1)] by simp
    then show ?thesis
      using assms(2) p Some x st h hd d v ob
      by (auto simp: lock_iteration_def shouldWait_def stat_says_def gcs_ErrPreconditionFailed_def
          split: sum.splits if_splits prod.splits)
  qed
qed

lemma unlock_object:
  assumes "\<And>q s. \<exists>r u. D q s = (Inr r, u) \<and> gr_StatusCode r \<in> {200, 204, 404, 412}"
    and "the_object m s = Some ob" and "mx_lastKnown m = dec k"
  shows "\<exists>t. mutex_Unlock D L m s = (None, m\<lparr>mx_refreshing := False\<rparr>, t)
    \<and> the_object m t = (if k = go_metageneration ob then None else Some ob)"
proof -
  let ?m = "m\<lparr>mx_refreshing := False\<rparr>"
  obtain e t where d: "mutex_delete D L ?m (dec k) s = (e, t)" by fastforce
  have same: "mx_bucket ?m = mx_bucket m" "mx_name ?m = mx_name m" by simp_all
  have "if k = go_metageneration ob then e = None \<and> the_object m t = None
      else e = Some gcs_ErrPreconditionFailed \<and> the_object m t = Some ob"
    using delete_matching [OF d _ assms(1), of ob] assms(2) unfolding same by blast
  with d assms(3) show ?thesis
    by (auto simp: mutex_Unlock_def Let_def gcs_ErrPreconditionFailed_def split: if_splits)
qed

end

lemma reach_step: "lock_world_step D L w ev w' \<Longrightarrow> lock_reach D L UNIV w0 w \<Longrightarrow> lock_reach D L UNIV w0 w'"
  by (blast intro: lock_reach.more)

text \<open>An iteration of \<open>Lock\<close> that nobody disturbs is a run of the protocol.\<close>

lemma iteration_runs:
  assumes "lock_iteration D L (lw_mutex w p) (lw_now w) t2 (lw_server w) = (r, t)"
    and "lw_pc w p = LTrying" and "lw_now w \<le> t2"
  shows "\<exists>w'. lock_reach D L UNIV w w' \<and> lw_server w' = t
    \<and> lw_pc w' p = (case r of Acquired _ \<Rightarrow> LHeld | MustWait \<Rightarrow> LWaiting | TryAgain \<Rightarrow> LTrying)
    \<and> (\<forall>m. r = Acquired m \<longrightarrow> lw_mutex w' p = m)"
proof -
  obtain e u where p: "mutex_put D L (lw_mutex w p) (lw_now w) (lw_server w) = (e, u)" by fastforce
  show ?thesis
  proof (cases e)
    case None
    have "lock_reach D L UNIV w (w\<lparr>lw_server := u, lw_pc := (lw_pc w)(p := LHeld),
         lw_mutex := (lw_mutex w)(p := acquired (lw_mutex w p)),
         lw_expires := (lw_expires w)(p := lw_now w + sint (mx_ttl (lw_mutex w p)))\<rparr>)" (is "lock_reach _ _ _ _ ?w1")
      using p None by (intro reach_step [OF lock_world_step.put_ok lock_reach.start] assms(2)) simp
    with p None assms(1) show ?thesis by (intro exI [of _ ?w1]) (auto simp: lock_iteration_def)
  next
    case (Some x)
    let ?w1 = "w\<lparr>lw_server := u, lw_pc := (lw_pc w)(p := if is_err GcsPreconditionFailed x then LFound else LWaiting)\<rparr>"
    have s1: "lock_reach D L UNIV w ?w1"
      using p Some by (intro reach_step [OF lock_world_step.put_failed lock_reach.start] assms(2)) simp
    show ?thesis
    proof (cases "is_err GcsPreconditionFailed x")
      case False
      with s1 assms(1) p Some show ?thesis by (intro exI [of _ ?w1]) (auto simp: lock_iteration_def)
    next
      case True
      let ?w2 = "?w1\<lparr>lw_now := t2\<rparr>"
      have s2: "lock_reach D L UNIV w ?w2"
        by (rule reach_step [OF lock_world_step.tick s1]) (simp add: assms(3))
      obtain h v where st: "gcs_Stat D L (mx_bucket (lw_mutex w p)) (mx_name (lw_mutex w p)) u = (h, v)"
        by fastforce
      show ?thesis
      proof (cases "stat_says L t2 h")
        case (Inl b)
        let ?w3 = "?w2\<lparr>lw_server := v, lw_pc := (lw_pc ?w2)(p := if b then LWaiting else LTrying)\<rparr>"
        have "lock_reach D L UNIV w ?w3"
          by (rule reach_step [OF lock_world_step.stat_decides s2]) (use True st Inl in simp_all)
        with assms(1) p Some True st Inl show ?thesis
          by (intro exI [of _ ?w3]) (auto simp: lock_iteration_def shouldWait_def)
      next
        case (Inr mg)
        let ?w3 = "?w2\<lparr>lw_server := v, lw_pc := (lw_pc ?w2)(p := LStale mg)\<rparr>"
        have s3: "lock_reach D L UNIV w ?w3"
          by (rule reach_step [OF lock_world_step.stat_expired s2]) (use True st Inr in simp_all)
        obtain y z where d: "mutex_delete D L (lw_mutex w p) mg v = (y, z)" by fastforce
        let ?w4 = "?w3\<lparr>lw_server := z, lw_pc := (lw_pc ?w3)(p := if y \<noteq> None then LWaiting else LTrying)\<rparr>"
        have "lock_reach D L UNIV w ?w4"
          by (rule reach_step [OF lock_world_step.delete_stale s3]) (use d in simp_all)
        with assms(1) p Some True st Inr d show ?thesis
          by (intro exI [of _ ?w4]) (auto simp: lock_iteration_def shouldWait_def)
      qed
    qed
  qed
qed

subsection \<open>Properties\<close>

definition demo_mutex :: mutex where
  "demo_mutex = NewMutex ''lock'' ''bucket'' 0 0"

definition demo_world :: "(nat, gcs_objects) lock_world" where
  "demo_world = \<lparr>lw_server = [], lw_now = 0, lw_pc = (\<lambda>_. LIdle), lw_mutex = (\<lambda>_. demo_mutex),
     lw_expires = (\<lambda>_. 0)\<rparr>"

definition demo_lock :: "string \<Rightarrow> gcs_objects" where
  "demo_lock expiration = [((''bucket'', ''lock''),
     \<lparr>go_metageneration = 1, go_metadata = [(expirationHeader, expiration)], go_body = []\<rparr>)]"

lemma list_gcs_answers: "\<exists>r u. list_gcs q s = (Inr r, u) \<and>
    (gr_StatusCode r = 200 \<or> gr_StatusCode r = 204 \<or> gr_StatusCode r = 404 \<or> gr_StatusCode r = 412)"
  by (auto simp: list_gcs_def gcs_effect_def Let_def split: option.splits)

lemma demo_lock_put:
  "mutex_put list_gcs flat_gcs_lib demo_mutex 0 [] = (None, demo_lock ''300'')"
  "mutex_put list_gcs flat_gcs_lib demo_mutex 301000000000 [] = (None, demo_lock ''601'')"
  "mutex_put list_gcs flat_gcs_lib demo_mutex 301000000000 (demo_lock ''300'') =
    (Some gcs_ErrPreconditionFailed, demo_lock ''300'')"
  by code_simp+

lemma demo_stat:
  "gcs_Stat list_gcs flat_gcs_lib ''bucket'' ''lock'' (demo_lock ''300'') =
    (Inr [(''x-goog-metageneration'', ''1''), (expirationHeader, ''300'')], demo_lock ''300'')"
  "stat_says flat_gcs_lib 301000000000 (Inr [(''x-goog-metageneration'', ''1''), (expirationHeader, ''300'')]) = Inr ''1''"
  by code_simp+

lemma demo_delete:
  "mutex_delete list_gcs flat_gcs_lib demo_mutex ''1'' (demo_lock x) = (None, [])"
  "mutex_delete list_gcs flat_gcs_lib (acquired demo_mutex) ''1'' (demo_lock x) = (None, [])"
  by (simp_all add: mutex_delete_def gcs_Delete_def list_gcs_def demo_mutex_def NewMutex_def acquired_def
      gcs_request_of_def object_of_def gcs_effect_def demo_lock_def query_get_def Let_def dec_1 [simplified, symmetric])

text \<open>
  C9: mutual exclusion.  In every run of any number of processes, whatever the interleaving of their
  requests, and also when requests fail or their answers are lost, at most one process is inside and
  the object exists while one is, as long as no waiter sees the lock expired.
\<close>

theorem mutual_exclusion:
  assumes "gcs_server D L meta V" and "lock_start b n w0" and "lock_reach D L {Quiet} w0 w"
  shows "(\<forall>p q. lw_pc w p = LHeld \<and> lw_pc w q = LHeld \<longrightarrow> p = q)
    \<and> (\<forall>p. lw_pc w p = LHeld \<longrightarrow> V (lw_server w) b n \<noteq> None)"
  using gcs_server.exclusive_reach [OF assms(1,3,2)]
  by (auto simp: gcs_server.exclusive_def [OF assms(1)])

lemma mutual_exclusion_witness:
  "\<exists>w. lock_reach list_gcs flat_gcs_lib {Quiet} demo_world w \<and> lw_pc w 0 = LHeld \<and> (\<forall>q. lw_pc w q = LHeld \<longrightarrow> q = 0)"
proof -
  let ?w1 = "demo_world\<lparr>lw_pc := (lw_pc demo_world)(0 := LTrying)\<rparr>"
  let ?w2 = "?w1\<lparr>lw_server := demo_lock ''300'', lw_pc := (lw_pc ?w1)(0 := LHeld),
         lw_mutex := (lw_mutex ?w1)(0 := acquired (lw_mutex ?w1 0)),
         lw_expires := (lw_expires ?w1)(0 := lw_now ?w1 + sint (mx_ttl (lw_mutex ?w1 0)))\<rparr>"
  have "lock_reach list_gcs flat_gcs_lib {Quiet} demo_world ?w1"
    by (rule lock_reach.more [OF lock_reach.start lock_world_step.enter]) (simp_all add: demo_world_def)
  then have r: "lock_reach list_gcs flat_gcs_lib {Quiet} demo_world ?w2"
    by (rule lock_reach.more [OF _ lock_world_step.put_ok]) (simp_all add: demo_world_def demo_lock_put)
  have st: "lock_start ''bucket'' ''lock'' demo_world"
    by (simp add: lock_start_def demo_world_def demo_mutex_def NewMutex_def)
  have h: "lw_pc ?w2 0 = LHeld" by simp
  have "\<forall>q. lw_pc ?w2 q = LHeld \<longrightarrow> q = 0"
    using mutual_exclusion [OF list_gcs.gcs_server_axioms st r] h by blast
  with r h show ?thesis by blast
qed

text \<open>
  C10: a waiter's delayed delete takes a fresh lock away.  The delete of an expired lock is guarded
  by its metageneration alone, which is 1 again for the next lock object: there is a run, with a
  server that answers every request at once, in which two processes are inside and neither of the
  expirations they wrote has passed.
\<close>

theorem stale_delete_breaks_exclusion:
  "\<exists>w :: (nat, gcs_objects) lock_world.
     lock_reach list_gcs flat_gcs_lib UNIV demo_world w
     \<and> lw_pc w 1 = LHeld \<and> lw_pc w 2 = LHeld \<and> lw_now w < lw_expires w 1 \<and> lw_now w < lw_expires w 2"
proof -
  let ?D = list_gcs and ?L = flat_gcs_lib
  let ?t = "301000000000 :: time"
  define W :: "gcs_objects \<Rightarrow> time \<Rightarrow> (nat \<Rightarrow> lock_pc) \<Rightarrow> (nat \<Rightarrow> mutex) \<Rightarrow> (nat \<Rightarrow> time) \<Rightarrow> (nat, gcs_objects) lock_world"
    where "W s now pc m x = \<lparr>lw_server = s, lw_now = now, lw_pc = pc, lw_mutex = m, lw_expires = x\<rparr>" for s now pc m x
  have ttl: "sint (mx_ttl demo_mutex) = 300000000000" by code_simp
  have step: "lock_reach ?D ?L UNIV demo_world w'" if "lock_reach ?D ?L UNIV demo_world w"
    "lock_world_step ?D ?L w ev w'" for w ev w'
    using that by (blast intro: lock_reach.more)
  have enter: "lock_world_step ?D ?L (W s now pc m x) Quiet (W s now (pc(p := LTrying)) m x)" if "pc p = LIdle" for s now pc m x p
    using lock_world_step.enter [of "W s now pc m x" p ?D ?L] that by (simp add: W_def)
  have tick: "lock_world_step ?D ?L (W s now pc m x) Quiet (W s now' pc m x)" if "now \<le> now'" for s now now' pc m x
    using lock_world_step.tick [of "W s now pc m x" now' ?D ?L] that by (simp add: W_def)
  have put: "lock_world_step ?D ?L (W [] now pc m x) Quiet
      (W (demo_lock e) now (pc(p := LHeld)) (m(p := acquired demo_mutex)) (x(p := now + 300000000000)))"
    if "pc p = LTrying" "m p = demo_mutex" "mutex_put ?D ?L demo_mutex now [] = (None, demo_lock e)" for now pc m x p e
    using lock_world_step.put_ok [of "W [] now pc m x" p ?D ?L] that by (simp add: W_def ttl)
  have found: "lock_world_step ?D ?L (W (demo_lock ''300'') ?t pc m x) Quiet (W (demo_lock ''300'') ?t (pc(p := LFound)) m x)"
    if "pc p = LTrying" "m p = demo_mutex" for pc m x p
    using lock_world_step.put_failed [of "W (demo_lock ''300'') ?t pc m x" p ?D ?L] that
    by (simp add: W_def demo_lock_put gcs_ErrPreconditionFailed_def)
  have stale: "lock_world_step ?D ?L (W (demo_lock ''300'') ?t pc m x) SawExpired
      (W (demo_lock ''300'') ?t (pc(p := LStale ''1'')) m x)"
    if "pc p = LFound" "m p = demo_mutex" for pc m x p
    using lock_world_step.stat_expired [of "W (demo_lock ''300'') ?t pc m x" p ?D ?L] that demo_stat
    by (simp add: W_def demo_mutex_def NewMutex_def)
  have delete: "lock_world_step ?D ?L (W (demo_lock e) ?t pc m x) Quiet (W [] ?t (pc(p := LTrying)) m x)"
    if "pc p = LStale ''1''" "m p = demo_mutex" for pc m x p e
    using lock_world_step.delete_stale [of "W (demo_lock e) ?t pc m x" p "''1''" ?D ?L] that
    by (simp add: W_def demo_delete)
  let ?pc = "\<lambda>_. LIdle" and ?m = "\<lambda>_. demo_mutex"
  have "lock_reach ?D ?L UNIV demo_world (W [] 0 ?pc ?m (\<lambda>_. 0))"
    unfolding demo_world_def W_def by (rule lock_reach.start)
  from step [OF step [OF step [OF this enter [of ?pc 0]] put [of _ 0 _ _ "''300''"]] tick [of _ ?t]]
  have a: "lock_reach ?D ?L UNIV demo_world
      (W (demo_lock ''300'') ?t (?pc(0 := LHeld)) (?m(0 := acquired demo_mutex)) ((\<lambda>_. 0)(0 := 300000000000)))"
    by (simp add: demo_lock_put)
  define m x where "m = ((\<lambda>_ :: nat. demo_mutex)(0 := acquired demo_mutex))"
    and "x = ((\<lambda>_ :: nat. 0 :: time)(0 := 300000000000))"
  have m: "m 1 = demo_mutex" "m (Suc 0) = demo_mutex" "m 2 = demo_mutex" by (simp_all add: m_def)
  from step [OF step [OF step [OF a enter [of _ 1]] found [of _ 1]] stale [of _ 1]]
  have b: "lock_reach ?D ?L UNIV demo_world
      (W (demo_lock ''300'') ?t (?pc(0 := LHeld, 1 := LStale ''1'')) m x)"
    by (simp add: m_def x_def)
  from step [OF step [OF step [OF b enter [of _ 2]] found [of _ 2]] stale [of _ 2]]
  have c: "lock_reach ?D ?L UNIV demo_world
      (W (demo_lock ''300'') ?t (?pc(0 := LHeld, 1 := LStale ''1'', 2 := LStale ''1'')) m x)"
    by (simp add: m)
  from step [OF step [OF c delete [of _ 2]] put [of _ 2 _ _ "''601''"]]
  have d: "lock_reach ?D ?L UNIV demo_world
      (W (demo_lock ''601'') ?t (?pc(0 := LHeld, 1 := LStale ''1'', 2 := LHeld)) (m(2 := acquired demo_mutex))
        (x(2 := ?t + 300000000000)))"
    by (simp add: m demo_lock_put)
  from step [OF step [OF d delete [of _ 1]] put [of _ 1 _ _ "''601''"]]
  have "lock_reach ?D ?L UNIV demo_world
      (W (demo_lock ''601'') ?t (?pc(0 := LHeld, 1 := LHeld, 2 := LHeld))
        (m(2 := acquired demo_mutex, 1 := acquired demo_mutex))
        (x(2 := ?t + 300000000000, 1 := ?t + 300000000000)))"
    by (simp add: m demo_lock_put fun_upd_twist)
  then show ?thesis by (intro exI conjI, assumption) (simp_all add: W_def)
qed

text \<open>
  C11: \<open>Lock\<close> against a server that answers, with nobody else at work.  If there is no lock object it
  takes the lock in the first iteration; if the object's expiration has passed it deletes the object
  and takes the lock in the second; otherwise, also when the expiration cannot be read, it leaves the
  object alone and waits, and gives up when the context is done.
\<close>

theorem lock_takes_free_or_expired:
  assumes "gcs_server D L meta V"
    and "\<And>q s. \<exists>r u. D q s = (Inr r, u) \<and> gr_StatusCode r \<in> {200, 204, 404, 412}"
    and "\<And>i s. env i s = s"
  shows "(V s (mx_bucket m) (mx_name m) = None \<longrightarrow>
        (\<exists>t. mutex_Lock D L m env now ctx s = Some (Inr (acquired m), t)
           \<and> V t (mx_bucket m) (mx_name m) = Some (lock_object L m (fst (now 0)))))
    \<and> (\<forall>ob. V s (mx_bucket m) (mx_name m) = Some ob \<longrightarrow>
        (if \<exists>x. gl_parse_RFC3339 L (header_get (go_metadata ob) expirationHeader) = Inr x \<and> x < snd (now 0)
         then \<exists>t. mutex_Lock D L m env now ctx s = Some (Inr (acquired m), t)
           \<and> V t (mx_bucket m) (mx_name m) = Some (lock_object L m (fst (now 1)))
         else \<forall>e. ctx 0 = Some e \<longrightarrow>
           (\<exists>t. mutex_Lock D L m env now ctx s = Some (Inl (wrap GcslockError e), t)
              \<and> V t (mx_bucket m) (mx_name m) = Some ob)))"
proof -
  note out = gcs_server.iteration_outcomes [OF assms(1,2)]
  have free: "\<exists>t'. lock_loop D L m env now ctx b i t = Some (Inr (acquired m), t')
      \<and> V t' (mx_bucket m) (mx_name m) = Some (lock_object L m (fst (now i)))"
    if "V t (mx_bucket m) (mx_name m) = None" for b i t
  proof -
    obtain r u where it: "lock_iteration D L m (fst (now i)) (snd (now i)) t = (r, u)" by fastforce
    with out [OF it] that assms(3) show ?thesis by (subst lock_loop.simps) simp
  qed
  show ?thesis
  proof (intro conjI allI impI)
    assume "V s (mx_bucket m) (mx_name m) = None"
    then show "\<exists>t. mutex_Lock D L m env now ctx s = Some (Inr (acquired m), t)
           \<and> V t (mx_bucket m) (mx_name m) = Some (lock_object L m (fst (now 0)))"
      unfolding mutex_Lock_def by (rule free)
  next
    fix ob assume ob: "V s (mx_bucket m) (mx_name m) = Some ob"
    let ?exp = "gl_parse_RFC3339 L (header_get (go_metadata ob) expirationHeader)"
    obtain r u where it: "lock_iteration D L m (fst (now 0)) (snd (now 0)) s = (r, u)" by fastforce
    note o = out [OF it]
    show "if \<exists>x. ?exp = Inr x \<and> x < snd (now 0)
         then \<exists>t. mutex_Lock D L m env now ctx s = Some (Inr (acquired m), t)
           \<and> V t (mx_bucket m) (mx_name m) = Some (lock_object L m (fst (now 1)))
         else \<forall>e. ctx 0 = Some e \<longrightarrow>
           (\<exists>t. mutex_Lock D L m env now ctx s = Some (Inl (wrap GcslockError e), t)
              \<and> V t (mx_bucket m) (mx_name m) = Some ob)"
    proof (cases "\<exists>x. ?exp = Inr x \<and> x < snd (now 0)")
      case True
      with o ob have r: "r = TryAgain" "V u (mx_bucket m) (mx_name m) = None" by auto
      have "mutex_Lock D L m env now ctx s = lock_loop D L m env now ctx (mx_backoff m) 1 u"
        unfolding mutex_Lock_def by (subst lock_loop.simps) (simp add: assms(3) it r)
      with True free [OF r(2), of "mx_backoff m" 1] show ?thesis by simp
    next
      case False
      with o ob have r: "r = MustWait" "V u (mx_bucket m) (mx_name m) = Some ob"
        by (auto split: sum.splits if_splits)
      have "mutex_Lock D L m env now ctx s = Some (Inl (wrap GcslockError e), u)" if "ctx 0 = Some e" for e
        unfolding mutex_Lock_def by (subst lock_loop.simps) (simp add: assms(3) it r that bo_wait_def Let_def)
      with False r(2) show ?thesis by auto
    qed
  qed
qed

lemma lock_takes_free_or_expired_witness:
  "\<exists>t. mutex_Lock list_gcs flat_gcs_lib demo_mutex (\<lambda>_ s. s) (\<lambda>_. (301000000000, 301000000000)) (\<lambda>_. None)
      (demo_lock ''300'') = Some (Inr (acquired demo_mutex), t)
    \<and> list_objects t ''bucket'' ''lock'' = Some (lock_object flat_gcs_lib demo_mutex 301000000000)"
proof -
  have "list_objects (demo_lock ''300'') ''bucket'' ''lock'' =
      Some \<lparr>go_metageneration = 1, go_metadata = [(expirationHeader, ''300'')], go_body = []\<rparr>"
    and p: "gl_parse_RFC3339 flat_gcs_lib ''300'' = Inr 300000000000"
    and n: "mx_bucket demo_mutex = ''bucket''" "mx_name demo_mutex = ''lock''"
    by code_simp+
  moreover have "\<And>q s. \<exists>r u. list_gcs q s = (Inr r, u) \<and> gr_StatusCode r \<in> {200, 204, 404, 412}"
    using list_gcs_answers by auto
  ultimately show ?thesis
    using lock_takes_free_or_expired [OF list_gcs.gcs_server_axioms, of "\<lambda>_ s. s" "demo_lock ''300''" demo_mutex
        "\<lambda>_. (301000000000, 301000000000)" "\<lambda>_. None"]
    by simp
qed

text \<open>
  The metageneration a process keeps follows its object.  Taking the lock and every successful
  refresh leave it equal to the object's; unlocking then deletes the object, and unlocking when the
  object is another or has changed leaves it alone and reports no error.
\<close>

lemma lock_refresh_unlock:
  assumes "gcs_server D L meta V"
  shows "(\<forall>m t1 t2 s m' t. lock_iteration D L m t1 t2 s = (Acquired m', t) \<longrightarrow>
            (\<exists>ob. V t (mx_bucket m) (mx_name m) = Some ob \<and> mx_lastKnown m' = dec (go_metageneration ob)
               \<and> mx_bucket m' = mx_bucket m \<and> mx_name m' = mx_name m))
    \<and> (\<forall>m now s m' t. mutex_refresh D L m now s = (None, m', t) \<longrightarrow>
            (\<exists>ob. V t (mx_bucket m) (mx_name m) = Some ob \<and> mx_lastKnown m' = dec (go_metageneration ob)
               \<and> mx_bucket m' = mx_bucket m \<and> mx_name m' = mx_name m))
    \<and> (\<forall>(m :: mutex) s ob k. (\<forall>q s. \<exists>r u. D q s = (Inr r, u) \<and> gr_StatusCode r \<in> {200, 204, 404, 412})
            \<and> V s (mx_bucket m) (mx_name m) = Some ob \<and> mx_lastKnown m = dec k \<longrightarrow>
            (\<exists>t. mutex_Unlock D L m s = (None, m\<lparr>mx_refreshing := False\<rparr>, t)
               \<and> V t (mx_bucket m) (mx_name m) = (if k = go_metageneration ob then None else Some ob)))"
proof (intro conjI allI impI)
  fix m t1 t2 s m' t assume "lock_iteration D L m t1 t2 s = (Acquired m', t)"
  from gcs_server.acquired_matches [OF assms this]
  show "\<exists>ob. V t (mx_bucket m) (mx_name m) = Some ob \<and> mx_lastKnown m' = dec (go_metageneration ob)
      \<and> mx_bucket m' = mx_bucket m \<and> mx_name m' = mx_name m"
    by (auto simp: acquired_def)
next
  fix m now s m' t assume r: "mutex_refresh D L m now s = (None, m', t)"
  show "\<exists>ob. V t (mx_bucket m) (mx_name m) = Some ob \<and> mx_lastKnown m' = dec (go_metageneration ob)
      \<and> mx_bucket m' = mx_bucket m \<and> mx_name m' = mx_name m"
    using gcs_server.refresh_advances [OF assms r] gcs_server.refresh_keeps [OF assms r]
    by (metis option.discI)
next
  fix m :: mutex and s ob k
  assume "(\<forall>q s. \<exists>r u. D q s = (Inr r, u) \<and> gr_StatusCode r \<in> {200, 204, 404, 412})
      \<and> V s (mx_bucket m) (mx_name m) = Some ob \<and> mx_lastKnown m = dec k"
  then show "\<exists>t. mutex_Unlock D L m s = (None, m\<lparr>mx_refreshing := False\<rparr>, t)
      \<and> V t (mx_bucket m) (mx_name m) = (if k = go_metageneration ob then None else Some ob)"
    using gcs_server.unlock_object [OF assms, of s m ob k] by blast
qed

lemma lock_refresh_unlock_witness:
  "\<exists>t. mutex_Unlock list_gcs flat_gcs_lib (acquired demo_mutex) (demo_lock ''300'') =
     (None, (acquired demo_mutex)\<lparr>mx_refreshing := False\<rparr>, t) \<and> list_objects t ''bucket'' ''lock'' = None"
proof -
  let ?m = "acquired demo_mutex"
  have o: "list_objects (demo_lock ''300'') (mx_bucket ?m) (mx_name ?m) =
      Some \<lparr>go_metageneration = 1, go_metadata = [(expirationHeader, ''300'')], go_body = []\<rparr>"
    and n: "mx_bucket ?m = ''bucket''" "mx_name ?m = ''lock''" and k: "mx_lastKnown ?m = dec 1"
    by code_simp+
  have "\<forall>q s. \<exists>r u. list_gcs q s = (Inr r, u) \<and> gr_StatusCode r \<in> {200, 204, 404, 412}"
    using list_gcs_answers by auto
  then show ?thesis
    using lock_refresh_unlock [OF list_gcs.gcs_server_axioms, THEN conjunct2, THEN conjunct2, rule_format,
        of "demo_lock ''300''" ?m _ 1] o k n by auto
qed

text \<open>
  The loop of \<open>Lock\<close> is the protocol: an iteration that runs undisturbed from a world where the
  process is about to create the object leads, by the steps of the protocol, to the world it
  computes, with the process inside, in the backoff or about to try again.
\<close>

lemma iteration_is_a_run:
  assumes "lock_iteration D L (lw_mutex w p) (lw_now w) t2 (lw_server w) = (r, t)"
    and "lw_pc w p = LTrying" and "lw_now w \<le> t2"
  shows "\<exists>w'. lock_reach D L UNIV w w' \<and> lw_server w' = t
    \<and> lw_pc w' p = (case r of Acquired _ \<Rightarrow> LHeld | MustWait \<Rightarrow> LWaiting | TryAgain \<Rightarrow> LTrying)
    \<and> (\<forall>m. r = Acquired m \<longrightarrow> lw_mutex w' p = m)"
  by (rule iteration_runs [OF assms])

lemma iteration_is_a_run_witness:
  "\<exists>w'. lock_reach list_gcs flat_gcs_lib UNIV (demo_world\<lparr>lw_pc := (\<lambda>_. LTrying)\<rparr>) w'
    \<and> lw_server w' = demo_lock ''300'' \<and> lw_pc w' 0 = LHeld"
proof -
  have "lock_iteration list_gcs flat_gcs_lib demo_mutex 0 0 [] = (Acquired (acquired demo_mutex), demo_lock ''300'')"
    by (simp add: lock_iteration_def demo_lock_put)
  from iteration_is_a_run [of list_gcs flat_gcs_lib "demo_world\<lparr>lw_pc := (\<lambda>_. LTrying)\<rparr>" 0 0, simplified, unfolded demo_world_def, simplified, OF this]
  show ?thesis unfolding demo_world_def by auto
qed

end
