(* ===== verification/Certstorage.thy ===== *)
theory Certstorage
  imports Gcslock
begin

section \<open>Certificates kept in Cloud Storage (pkg/certstorage)\<close>

text \<open>
  The storage interface of certmagic over the client of Cloud Storage: values under keys, and named
  distributed locks, created on demand and kept in a map.  \<open>store_then_load\<close> shows that the values
  behave as a map of keys.
\<close>

record certs =
  cs_bucket :: string
  cs_locks :: "(string \<times> mutex) list"

record key_info =
  ki_Key :: string
  ki_Modified :: time
  ki_Size :: int
  ki_IsTerminal :: bool

text \<open>\<open>creds\<close> is the outcome of reading the credentials, which makes the HTTP client.\<close>

definition NewGCS :: "err + 's gcs \<Rightarrow> gcs_lib \<Rightarrow> string \<Rightarrow> 's \<Rightarrow> (err + certs) \<times> 's" where
  "NewGCS creds L bucket s =
     (case creds of
        Inl e \<Rightarrow> (Inl (wrap CertstorageError (wrap GcsopsError e)), s)
      | Inr D \<Rightarrow>
          (case TestPermissions D L bucket s of
             (Some e, t) \<Rightarrow> (Inl (wrap CertstorageError e), t)
           | (None, t) \<Rightarrow> (Inr \<lparr>cs_bucket = bucket, cs_locks = []\<rparr>, t)))"

definition certs_Lock :: "'s gcs \<Rightarrow> gcs_lib \<Rightarrow> (nat \<Rightarrow> 's \<Rightarrow> 's) \<Rightarrow> (nat \<Rightarrow> time \<times> time) \<Rightarrow> (nat \<Rightarrow> err option)
    \<Rightarrow> string \<Rightarrow> certs \<Rightarrow> 's \<Rightarrow> (err option \<times> certs \<times> 's) option" where
  "certs_Lock D L env now ctx name g s =
     (let lock = (case map_of (cs_locks g) name of Some m \<Rightarrow> m | None \<Rightarrow> NewMutex name (cs_bucket g) 0 0);
          g1 = g\<lparr>cs_locks := AList.update name lock (cs_locks g)\<rparr>
      in case mutex_Lock D L lock env now ctx s of
           None \<Rightarrow> None
         | Some (Inl e, t) \<Rightarrow> Some (Some (wrap CertstorageError e), g1, t)
         | Some (Inr m, t) \<Rightarrow> Some (None, g1\<lparr>cs_locks := AList.update name m (cs_locks g1)\<rparr>, t))"

definition certs_Unlock :: "'s gcs \<Rightarrow> gcs_lib \<Rightarrow> string \<Rightarrow> certs \<Rightarrow> 's \<Rightarrow> err option \<times> certs \<times> 's" where
  "certs_Unlock D L name g s =
     (case map_of (cs_locks g) name of
        None \<Rightarrow> (Some (Classed CertstorageError (Message ((''mutex for '' @ name) @ '' not exists''))), g, s)
      | Some lock \<Rightarrow>
          (case mutex_Unlock D L lock s of
             (e, m, t) \<Rightarrow> (wrap_opt CertstorageError e, g\<lparr>cs_locks := AList.update name m (cs_locks g)\<rparr>, t)))"

definition certs_Store :: "'s gcs \<Rightarrow> gcs_lib \<Rightarrow> certs \<Rightarrow> string \<Rightarrow> bytes \<Rightarrow> 's \<Rightarrow> err option \<times> 's" where
  "certs_Store D L g key val s =
     (case gcs_Upload D L [] (cs_bucket g) key val s of (e, t) \<Rightarrow> (wrap_opt CertstorageError e, t))"

text \<open>\<open>readErr\<close> and \<open>closeErr\<close> are what reading and closing the body may fail with.\<close>

definition certs_Load :: "'s gcs \<Rightarrow> gcs_lib \<Rightarrow> certs \<Rightarrow> err option \<Rightarrow> err option \<Rightarrow> string \<Rightarrow> 's \<Rightarrow> (err + bytes) \<times> 's" where
  "certs_Load D L g readErr closeErr key s =
     (case gcs_Download D L (cs_bucket g) key s of
        (Inl e, t) \<Rightarrow>
          (Inl (wrap CertstorageError (if is_err GcsNotFound e then Sentinel FsNotExist else e)), t)
      | (Inr bs, t) \<Rightarrow>
          (case combine [readErr, closeErr] of
             Some e \<Rightarrow> (Inl (wrap CertstorageError e), t)
           | None \<Rightarrow> (Inr bs, t)))"

definition certs_Delete :: "'s gcs \<Rightarrow> gcs_lib \<Rightarrow> certs \<Rightarrow> string \<Rightarrow> 's \<Rightarrow> err option \<times> 's" where
  "certs_Delete D L g key s =
     (case gcs_Delete D L [] (cs_bucket g) key s of
        (None, t) \<Rightarrow> (None, t)
      | (Some e, t) \<Rightarrow>
          (Some (wrap CertstorageError (if is_err GcsNotFound e then Sentinel FsNotExist else e)), t))"

definition certs_Exists :: "'s gcs \<Rightarrow> gcs_lib \<Rightarrow> certs \<Rightarrow> string \<Rightarrow> 's \<Rightarrow> bool \<times> 's" where
  "certs_Exists D L g key s =
     (case gcs_Stat D L (cs_bucket g) key s of (r, t) \<Rightarrow> (case r of Inl _ \<Rightarrow> False | Inr _ \<Rightarrow> True, t))"

definition certs_List :: "'s gcs \<Rightarrow> gcs_lib \<Rightarrow> certs \<Rightarrow> string \<Rightarrow> bool \<Rightarrow> 's \<Rightarrow> ((err + string list) \<times> 's) option" where
  "certs_List D L g prefix recursive s =
     map_option (\<lambda>(r, t). (wrap_res CertstorageError r, t)) (gcs_List D L (cs_bucket g) prefix recursive s)"

definition certs_Stat :: "'s gcs \<Rightarrow> gcs_lib \<Rightarrow> certs \<Rightarrow> string \<Rightarrow> 's \<Rightarrow> (err + key_info) \<times> 's" where
  "certs_Stat D L g key s =
     (case gcs_Stat D L (cs_bucket g) key s of
        (Inl e, t) \<Rightarrow>
          (Inl (wrap CertstorageError (if is_err GcsNotFound e then Sentinel FsNotExist else e)), t)
      | (Inr headers, t) \<Rightarrow>
          (case gl_parse_RFC1123 L (header_get headers ''last-modified'') of
             Inl e \<Rightarrow> (Inl (wrap CertstorageError e), t)
           | Inr modified \<Rightarrow>
               (case parse_int64 (header_get headers ''content-length'') of
                  None \<Rightarrow> (Inl (Classed CertstorageError (Message ''strconv.ParseInt'')), t)
                | Some sz \<Rightarrow>
                    (Inr \<lparr>ki_Key = key, ki_Modified = modified, ki_Size = sz, ki_IsTerminal = True\<rparr>, t))))"

subsection \<open>Facts\<close>

lemma upload_effect:
  "gcs_effect meta ((gcs_request_of ''PUT'' (XmlObject b n))\<lparr>gq_Header := [], gq_Body := v\<rparr>) ob =
   (200, Some \<lparr>go_metageneration = 1, go_metadata = [], go_body = v\<rparr>)"
  by (simp add: gcs_effect_def gcs_request_of_def custom_metadata_def)

context gcs_server
begin

lemma Store_object:
  assumes "certs_Store D L g key val s = (None, t)"
  shows "V t (cs_bucket g) key = Some \<lparr>go_metageneration = 1, go_metadata = [], go_body = val\<rparr>
    \<and> (\<forall>k. k \<noteq> key \<longrightarrow> V t (cs_bucket g) k = V s (cs_bucket g) k)"
proof -
  let ?q = "(gcs_request_of ''PUT'' (XmlObject (cs_bucket g) key))\<lparr>gq_Header := [], gq_Body := val\<rparr>"
  obtain r where a: "D ?q s = (Inr r, t)" and st: "gr_StatusCode r = 200"
    using assms by (auto simp: certs_Store_def gcs_Upload_def split: prod.splits sum.splits if_splits)
  have "gcs_effect meta ?q (V s (cs_bucket g) key) = (gr_StatusCode r, V t (cs_bucket g) key)"
    by (rule answered [OF a]) (simp_all add: gcs_request_of_def object_of_def st)
  moreover have "V t (cs_bucket g) k = V s (cs_bucket g) k" if "k \<noteq> key" for k
    by (rule others_kept [OF a]) (use that in \<open>simp add: gcs_request_of_def object_of_def\<close>)
  ultimately show ?thesis unfolding upload_effect by auto
qed

lemma Delete_object:
  assumes "certs_Delete D L g key s = (None, t)"
  shows "V t (cs_bucket g) key = None \<and> (\<forall>k. k \<noteq> key \<longrightarrow> V t (cs_bucket g) k = V s (cs_bucket g) k)"
proof -
  let ?q = "(gcs_request_of ''DELETE'' (XmlObject (cs_bucket g) key))\<lparr>gq_Header := []\<rparr>"
  obtain r where a: "D ?q s = (Inr r, t)" and st: "gr_StatusCode r = 204"
    using assms by (auto simp: certs_Delete_def gcs_Delete_def split: prod.splits sum.splits if_splits option.splits)
  have "gcs_effect meta ?q (V s (cs_bucket g) key) = (204, V t (cs_bucket g) key)"
    unfolding st [symmetric] by (rule answered [OF a]) (simp_all add: gcs_request_of_def object_of_def st)
  moreover have "V t (cs_bucket g) k = V s (cs_bucket g) k" if "k \<noteq> key" for k
    by (rule others_kept [OF a]) (use that in \<open>simp add: gcs_request_of_def object_of_def\<close>)
  ultimately show ?thesis
    by (auto simp: gcs_effect_def gcs_request_of_def Let_def split: option.splits if_splits)
qed

lemma Load_object:
  assumes "\<And>q s. \<exists>r u. D q s = (Inr r, u) \<and> gr_StatusCode r \<in> {200, 204, 404, 412}"
  shows "fst (certs_Load D L g None None key s) =
    (case V s (cs_bucket g) key of
       None \<Rightarrow> Inl (Classed CertstorageError (Sentinel FsNotExist))
     | Some ob \<Rightarrow> Inr (go_body ob))"
proof -
  let ?q = "gcs_request_of ''GET'' (XmlObject (cs_bucket g) key)"
  obtain r t where a: "D ?q s = (Inr r, t)" and c: "gr_StatusCode r \<in> {200, 204, 404, 412}"
    using assms by blast
  have e: "gcs_effect meta ?q (V s (cs_bucket g) key) = (gr_StatusCode r, V t (cs_bucket g) key)"
    by (rule answered [OF a _ c]) (simp add: gcs_request_of_def object_of_def)
  show ?thesis
  proof (cases "V s (cs_bucket g) key")
    case None
    with e a show ?thesis
      by (simp add: certs_Load_def gcs_Download_def gcs_effect_def gcs_request_of_def gcs_ErrNotFound_def)
  next
    case (Some ob)
    with e have st: "gr_StatusCode r = 200"
      by (simp add: gcs_effect_def gcs_request_of_def Let_def query_get_def)
    have "gr_Body r = go_body ob"
      by (rule get_carries [OF a _ _ st Some]) (simp_all add: gcs_request_of_def)
    with Some st a show ?thesis by (simp add: certs_Load_def gcs_Download_def)
  qed
qed

end

text \<open>
  C12: the stored values are a map: after a successful \<open>Store\<close> of a key, \<open>Load\<close> of it returns the
  value, after a successful \<open>Delete\<close> it fails with "does not exist", and the other keys are
  untouched by both.
\<close>

theorem store_then_load:
  assumes "gcs_server D L meta V"
    and "\<And>q s. \<exists>r u. D q s = (Inr r, u) \<and> gr_StatusCode r \<in> {200, 204, 404, 412}"
  shows "(certs_Store D L g key val s = (None, t) \<longrightarrow>
        fst (certs_Load D L g None None key t) = Inr val
        \<and> (\<forall>k. k \<noteq> key \<longrightarrow> fst (certs_Load D L g None None k t) = fst (certs_Load D L g None None k s)))
    \<and> (certs_Delete D L g key s = (None, t) \<longrightarrow>
        fst (certs_Load D L g None None key t) = Inl (Classed CertstorageError (Sentinel FsNotExist))
        \<and> (\<forall>k. k \<noteq> key \<longrightarrow> fst (certs_Load D L g None None k t) = fst (certs_Load D L g None None k s)))"
  using gcs_server.Store_object [OF assms(1), of g key val s t] gcs_server.Delete_object [OF assms(1), of g key s t]
  by (auto simp: gcs_server.Load_object [OF assms])

lemma store_then_load_witness:
  "fst (certs_Load list_gcs flat_gcs_lib \<lparr>cs_bucket = ''b'', cs_locks = []\<rparr> None None ''k''
     (snd (certs_Store list_gcs flat_gcs_lib \<lparr>cs_bucket = ''b'', cs_locks = []\<rparr> ''k'' ''v'' []))) = Inr ''v''"
proof -
  let ?g = "\<lparr>cs_bucket = ''b'', cs_locks = []\<rparr>"
  have "certs_Store list_gcs flat_gcs_lib ?g ''k'' ''v'' [] =
      (None, snd (certs_Store list_gcs flat_gcs_lib ?g ''k'' ''v'' []))"
    by code_simp
  moreover have "\<And>q s. \<exists>r u. list_gcs q s = (Inr r, u) \<and> gr_StatusCode r \<in> {200, 204, 404, 412}"
    using list_gcs_answers by auto
  ultimately show ?thesis
    using store_then_load [OF list_gcs.gcs_server_axioms, of ?g "''k''" "''v''" "[]"] by blast
qed

end
