(* ===== verification/Base32.thy ===== *)
theory Base32
  imports GoStrings
begin

section \<open>RFC 4648 base32 without padding\<close>

text \<open>
  \<open>encoding/base32\<close> with \<open>StdEncoding.WithPadding(NoPadding)\<close>, as Go does it: five bytes are
  eight characters; a shorter last group is filled with zero bits; decoding strips carriage
  returns and line feeds first, ignores the superfluous low bits of the last group, and makes no
  byte out of a last group of one, three or six characters.

  The main lemma is the round trip for every byte string.
\<close>

subsection \<open>Positional notation\<close>

primrec digits :: "nat \<Rightarrow> nat \<Rightarrow> nat \<Rightarrow> nat list" where
  "digits b 0 v = []"
| "digits b (Suc n) v = digits b n (v div b) @ [v mod b]"

definition undigits :: "nat \<Rightarrow> nat list \<Rightarrow> nat" where
  "undigits b ds = foldl (\<lambda>a d. b * a + d) 0 ds"

lemma length_digits [simp]: "length (digits b n v) = n"
  by (induction n arbitrary: v) auto

lemma undigits_snoc [simp]: "undigits b (ds @ [d]) = b * undigits b ds + d"
  by (simp add: undigits_def)

lemma undigits_Nil [simp]: "undigits b [] = 0"
  by (simp add: undigits_def)

lemma undigits_digits: "v < b ^ n \<Longrightarrow> undigits b (digits b n v) = v"
proof (induction n arbitrary: v)
  case (Suc n)
  then have "v div b < b ^ n" by (simp add: less_mult_imp_div_less mult.commute)
  with Suc.IH show ?case by simp
qed simp

lemma digits_less: "0 < b \<Longrightarrow> d \<in> set (digits b n v) \<Longrightarrow> d < b"
  by (induction n arbitrary: v) auto

text \<open>Trailing zeros: what a partial last group leaves out.\<close>

lemma digits_trailing:
  assumes "v mod b ^ m = 0" and "m \<le> n" and "0 < b"
  shows "digits b n v = take (n - m) (digits b n v) @ replicate m 0"
  using assms(1,2)
proof (induction m arbitrary: n v)
  case (Suc m)
  obtain n' where n: "n = Suc n'" using Suc.prems(2) by (cases n) auto
  obtain k where "v = b ^ Suc m * k" using Suc.prems(1) by (metis mod_0_imp_dvd dvd_def)
  then have v: "v mod b = 0" "(v div b) mod b ^ m = 0"
    using assms(3) by (simp_all add: mult.assoc)
  have "digits b n' (v div b) = take (n' - m) (digits b n' (v div b)) @ replicate m 0"
    using Suc.IH [OF v(2)] Suc.prems(2) n by simp
  then have "digits b n v = take (n' - m) (digits b n' (v div b)) @ replicate m 0 @ [0]"
    using n v(1) by (metis append_assoc digits.simps(2))
  then show ?case using n by (simp add: replicate_append_same)
qed simp

subsection \<open>The alphabet\<close>

definition b32_alphabet :: string where
  "b32_alphabet = ''ABCDEFGHIJKLMNOPQRSTUVWXYZ234567''"

definition b32_char :: "nat \<Rightarrow> char" where
  "b32_char d = b32_alphabet ! d"

definition b32_value :: "char \<Rightarrow> nat option" where
  "b32_value c =
     (if 65 \<le> code c \<and> code c \<le> 90 then Some (code c - 65)
      else if 50 \<le> code c \<and> code c \<le> 55 then Some (code c - 50 + 26)
      else None)"

fun b32_values :: "string \<Rightarrow> nat list option" where
  "b32_values [] = Some []"
| "b32_values (c # cs) =
     (case (b32_value c, b32_values cs) of (Some d, Some ds) \<Rightarrow> Some (d # ds) | _ \<Rightarrow> None)"

lemma b32_value_char: "d < 32 \<Longrightarrow> b32_value (b32_char d) = Some d"
proof -
  assume "d < 32"
  then have "d \<in> set [0 ..< 32]" by simp
  moreover have "\<forall>d \<in> set [0 ..< 32]. b32_value (b32_char d) = Some d" by code_simp
  ultimately show ?thesis by blast
qed

lemma b32_values_map: "\<forall>d \<in> set ds. d < 32 \<Longrightarrow> b32_values (map b32_char ds) = Some ds"
  by (induction ds) (auto simp: b32_value_char)

subsection \<open>Groups\<close>

text \<open>How many characters a last group of bytes takes, and how many bytes of characters.\<close>

definition b32_chars :: "nat \<Rightarrow> nat" where
  "b32_chars k = (8 * k + 4) div 5"

definition b32_bytes :: "nat \<Rightarrow> nat" where
  "b32_bytes j = (if j = 8 then 5 else if j = 7 then 4 else if j = 5 then 3
     else if j = 4 then 2 else if j = 2 then 1 else 0)"

definition b32_enc_group :: "bytes \<Rightarrow> nat list" where
  "b32_enc_group bs =
     take (b32_chars (length bs)) (digits 32 8 (be_nat (bs @ replicate (5 - length bs) NUL)))"

definition b32_dec_group :: "nat list \<Rightarrow> bytes" where
  "b32_dec_group ds =
     take (b32_bytes (length ds)) (be_bytes 5 (undigits 32 (ds @ replicate (8 - length ds) 0)))"

function b32_enc :: "bytes \<Rightarrow> nat list" where
  "b32_enc [] = []"
| "b32_enc (c # cs) = b32_enc_group (take 5 (c # cs)) @ b32_enc (drop 5 (c # cs))"
  by pat_completeness auto
termination by (relation "measure length") auto

function b32_dec :: "nat list \<Rightarrow> bytes" where
  "b32_dec [] = []"
| "b32_dec (d # ds) = b32_dec_group (take 8 (d # ds)) @ b32_dec (drop 8 (d # ds))"
  by pat_completeness auto
termination by (relation "measure length") auto

definition b32_encode :: "bytes \<Rightarrow> string" where
  "b32_encode bs = map b32_char (b32_enc bs)"

definition b32_strip :: "string \<Rightarrow> string" where
  "b32_strip s = filter (\<lambda>c. code c \<noteq> 10 \<and> code c \<noteq> 13) s"

definition b32_decode :: "string \<Rightarrow> bytes option" where
  "b32_decode s = map_option b32_dec (b32_values (b32_strip s))"

subsection \<open>The round trip\<close>

lemma be_nat_zeros: "be_nat (bs @ replicate m NUL) = be_nat bs * 256 ^ m"
  by (induction m) (simp_all add: replicate_append_same [symmetric] append_assoc [symmetric]
      del: append_assoc replicate_append_same)

lemma b32_group:
  assumes "1 \<le> length bs" and "length bs \<le> 5"
  shows "b32_dec_group (b32_enc_group bs) = bs"
    and "length (b32_enc_group bs) = b32_chars (length bs)"
proof -
  let ?k = "length bs" and ?v = "be_nat (bs @ replicate (5 - length bs) NUL)"
  have k: "?k = 1 \<or> ?k = 2 \<or> ?k = 3 \<or> ?k = 4 \<or> ?k = 5" using assms by linarith
  have v: "?v < 256 ^ 5" using be_nat_less [of "bs @ replicate (5 - ?k) NUL"] assms by simp
  have "?v mod 32 ^ (8 - b32_chars ?k) = 0"
    using k by (auto simp: be_nat_zeros b32_chars_def)
  then have "digits 32 8 ?v = take (b32_chars ?k) (digits 32 8 ?v) @ replicate (8 - b32_chars ?k) 0"
    using digits_trailing [of ?v 32 "8 - b32_chars ?k" 8] k by (auto simp: b32_chars_def)
  moreover show len: "length (b32_enc_group bs) = b32_chars ?k"
    using k by (auto simp: b32_enc_group_def b32_chars_def)
  ultimately have "undigits 32 (b32_enc_group bs @ replicate (8 - length (b32_enc_group bs)) 0) = ?v"
    using v undigits_digits [of ?v 32 8] unfolding len by (simp add: b32_enc_group_def)
  moreover have "b32_bytes (b32_chars ?k) = ?k"
    using k by (auto simp: b32_chars_def b32_bytes_def)
  moreover have "be_bytes 5 ?v = bs @ replicate (5 - ?k) NUL"
    using be_bytes_be_nat [of "bs @ replicate (5 - ?k) NUL"] assms by simp
  ultimately show "b32_dec_group (b32_enc_group bs) = bs"
    by (simp add: b32_dec_group_def len)
qed

lemma b32_dec_enc: "b32_dec (b32_enc bs) = bs"
proof (induction bs rule: b32_enc.induct)
  case (2 c cs)
  let ?g = "take 5 (c # cs)" and ?r = "drop 5 (c # cs)"
  have g: "b32_dec_group (b32_enc_group ?g) = ?g" "length (b32_enc_group ?g) = b32_chars (length ?g)"
    by (rule b32_group; simp)+
  obtain d ds where d: "b32_enc_group ?g = d # ds"
    using g by (cases "b32_enc_group ?g") (auto simp: b32_chars_def)
  show ?case
  proof (cases "?r = []")
    case True
    have "b32_chars (length ?g) \<le> 8" by (simp add: b32_chars_def)
    with True g d show ?thesis by simp
  next
    case False
    then have "length ?g = 5" by auto
    then have "length (b32_enc_group ?g) = 8" using g by (simp add: b32_chars_def)
    with 2 g d show ?thesis by simp
  qed
qed simp

lemma b32_enc_less: "d \<in> set (b32_enc bs) \<Longrightarrow> d < 32"
  by (induction bs rule: b32_enc.induct)
    (auto simp: b32_enc_group_def dest!: in_set_takeD intro: digits_less [of 32])

lemma b32_char_plain: "d < 32 \<Longrightarrow> code (b32_char d) \<noteq> 10 \<and> code (b32_char d) \<noteq> 13"
proof -
  assume "d < 32"
  then have "d \<in> set [0 ..< 32]" by simp
  moreover have "\<forall>d \<in> set [0 ..< 32]. code (b32_char d) \<noteq> 10 \<and> code (b32_char d) \<noteq> 13" by code_simp
  ultimately show ?thesis by blast
qed

lemma b32_decode_encode: "b32_decode (b32_encode bs) = Some bs"
proof -
  have "b32_strip (b32_encode bs) = b32_encode bs"
    using b32_enc_less b32_char_plain
    by (auto simp: b32_strip_def b32_encode_def filter_id_conv)
  then show ?thesis
    using b32_enc_less b32_values_map [of "b32_enc bs"]
    by (simp add: b32_decode_def b32_encode_def b32_dec_enc)
qed

lemma length_b32_enc: "length (b32_enc bs) = 8 * (length bs div 5) + b32_chars (length bs mod 5)"
proof (induction bs rule: b32_enc.induct)
  case (2 c cs)
  let ?g = "take 5 (c # cs)"
  have g: "length (b32_enc_group ?g) = b32_chars (length ?g)" by (rule b32_group) simp_all
  show ?case
  proof (cases "length (c # cs) < 5")
    case True
    with g show ?thesis by simp
  next
    case False
    then have "length (c # cs) = 5 + length (drop 5 (c # cs))" by simp
    then obtain m where m: "length (c # cs) = 5 + m" "length (drop 5 (c # cs)) = m" by blast
    have "b32_chars 5 = 8" "(5 + m) div 5 = Suc (m div 5)" by (simp_all add: b32_chars_def)
    with g m 2 show ?thesis by (simp only: b32_enc.simps length_append) (simp add: b32_chars_def)
  qed
qed (simp add: b32_chars_def)

lemma b32_char_range: "d < 32 \<Longrightarrow>
  65 \<le> code (b32_char d) \<and> code (b32_char d) \<le> 90 \<or> 50 \<le> code (b32_char d) \<and> code (b32_char d) \<le> 55"
proof -
  assume "d < 32"
  then have "d \<in> set [0 ..< 32]" by simp
  moreover have "\<forall>d \<in> set [0 ..< 32]. 65 \<le> code (b32_char d) \<and> code (b32_char d) \<le> 90
      \<or> 50 \<le> code (b32_char d) \<and> code (b32_char d) \<le> 55" by code_simp
  ultimately show ?thesis by blast
qed

lemma b32_char_upper_lower: "d < 32 \<Longrightarrow> upper_char (lower_char (b32_char d)) = b32_char d"
  using b32_char_range [of d] by (auto simp: upper_char_def lower_char_def)

lemma upper_lower_b32: "to_upper (to_lower (b32_encode bs)) = b32_encode bs"
  using b32_enc_less b32_char_upper_lower by (auto simp: to_upper_def to_lower_def b32_encode_def)

end
