(* ===== verification/Store.thy ===== *)
theory Store
  imports Records
begin

section \<open>The badgerauth store (pkg/auth/badgerauth/db.go)\<close>

text \<open>
  The methods of \<open>DB\<close>, one definition each.  A read takes the state of the engine; a write takes
  what the context says at each wait (\<open>ctx\<close>) and the state, and returns the error or \<open>nil\<close> with
  the new state, or \<open>None\<close> when its retry loop would not return.  Functions that run inside a
  transaction map the state the transaction sees to an error and a state.
\<close>

abbreviation badgerauth_msg :: "string \<Rightarrow> err \<Rightarrow> err" where
  "badgerauth_msg m e \<equiv> Classed BadgerauthError (Detail m e)"

definition ErrKeyAlreadyExists :: err where
  "ErrKeyAlreadyExists = Classed BadgerauthError (Sentinel KeyAlreadyExists)"

definition errOperationNotSupported :: err where
  "errOperationNotSupported = Classed BadgerauthError (Sentinel OperationNotSupported)"

definition errKeyAlreadyExistsRecordsNotEqual :: err where
  "errKeyAlreadyExistsRecordsNotEqual =
     Classed BadgerauthError (Sentinel KeyAlreadyExistsRecordsNotEqual)"

subsection \<open>Opening\<close>

text \<open>
  \<open>checkFirstStart\<close> and \<open>prepare\<close>.  When the key is missing \<open>prepare\<close> writes it; on any other
  error of \<open>txn.Get\<close> the code goes on with a \<open>nil\<close> item, whose \<open>Value\<close> is a nil dereference:
  that branch is \<open>None\<close>, a panic.
\<close>

definition checkFirstStart :: "'s db \<Rightarrow> 's \<Rightarrow> err option" where
  "checkFirstStart D s =
     (if cfg_FirstStart (db_config D) then None
      else case tx_get (db_engine D) s nodeIDKey of
        Inl e \<Rightarrow>
          (if is_err (Badger ErrKeyNotFound) e
           then Some (Message ''clean storage directory, toggle FirstStart'')
           else Some e)
      | Inr v \<Rightarrow> None)"

definition prepare_txn :: "'s db \<Rightarrow> 's \<Rightarrow> (err option \<times> 's) option" where
  "prepare_txn D s =
     (case tx_get (db_engine D) s nodeIDKey of
        Inl e \<Rightarrow>
          (if is_err (Badger ErrKeyNotFound) e
           then (case tx_set (db_engine D) s nodeIDKey (cfg_ID (db_config D)) 0 of
                   (r, t) \<Rightarrow> Some (wrap_opt BadgerauthError r, t))
           else None)
      | Inr val \<Rightarrow>
          Some (if val \<noteq> cfg_ID (db_config D)
                then Some (wrap BadgerauthError (Classed WrongNodeID (Message ''database, configuration'')))
                else None, s))"

definition prepare :: "'s db \<Rightarrow> 's \<Rightarrow> (err option \<times> 's) option" where
  "prepare D s =
     (case prepare_txn D s of
        None \<Rightarrow> None
      | Some r \<Rightarrow> Some (db_update (db_engine D) (\<lambda>_. r) s))"

text \<open>\<open>OpenDB\<close>, after the engine is open: the logger is always there in the model.\<close>

definition OpenDB :: "'s db \<Rightarrow> 's \<Rightarrow> (err option \<times> 's) option" where
  "OpenDB D s =
     (case checkFirstStart D s of
        Some e \<Rightarrow> Some (Some (badgerauth_msg ''checkFirstStart'' e), s)
      | None \<Rightarrow>
          (case prepare D s of
             None \<Rightarrow> None
           | Some (Some e, t) \<Rightarrow> Some (Some (badgerauth_msg ''prepare'' e), t)
           | Some (None, t) \<Rightarrow> Some (None, t)))"

definition PingDB :: "'s db \<Rightarrow> 's \<Rightarrow> err option" where
  "PingDB D s =
     (case tx_get (db_engine D) s nodeIDKey of
        Inl e \<Rightarrow> Some (badgerauth_msg ''unable to read start time'' e)
      | Inr v \<Rightarrow> None)"

subsection \<open>Inside a transaction\<close>

definition lookupRecordWithTxn :: "'s db \<Rightarrow> key_hash \<Rightarrow> 's \<Rightarrow> err + pb_record" where
  "lookupRecordWithTxn D keyHash s =
     (case tx_get (db_engine D) s keyHash of
        Inl e \<Rightarrow> Inl e
      | Inr val \<Rightarrow> wrap_res ProtoError (pb_unmarshal (db_proto D) val))"

text \<open>The second half of \<open>InsertRecord\<close>: advance the clock, set the record and its log entry.\<close>

definition insert_entries :: "'s db \<Rightarrow> node_id \<Rightarrow> key_hash \<Rightarrow> pb_record \<Rightarrow> 's \<Rightarrow> err option \<times> 's" where
  "insert_entries D nodeID keyHash record s =
     (case pb_marshal (db_proto D) record of
        Inl e \<Rightarrow> (Some (wrap BadgerauthError (wrap ProtoError e)), s)
      | Inr marshaled \<Rightarrow>
          (case advanceClock (db_engine D) nodeID s of
             (Inl e, t) \<Rightarrow> (Some (wrap BadgerauthError e), t)
           | (Inr clock, t) \<Rightarrow>
               let rlogEntry = \<lparr>le_ID = nodeID, le_Clock = clock, le_KeyHash = keyHash,
                                le_State = pb_State record\<rparr>;
                   expiresAt = (if pb_ExpiresAtUnix record > 0
                                then word_of_int (pb_ExpiresAtUnix record) else 0);
                   (e1, u) = tx_set (db_engine D) t keyHash marshaled expiresAt;
                   (e2, w) = tx_set (db_engine D) u (entry_bytes rlogEntry) [] expiresAt
               in (wrap_opt BadgerauthError (combine [e1, e2]), w)))"

definition InsertRecord :: "'s db \<Rightarrow> node_id \<Rightarrow> key_hash \<Rightarrow> pb_record \<Rightarrow> 's \<Rightarrow> err option \<times> 's" where
  "InsertRecord D nodeID keyHash record s =
     (if pb_State record \<noteq> CREATED then (Some errOperationNotSupported, s)
      else case tx_get (db_engine D) s keyHash of
        Inr val \<Rightarrow>
          (case pb_unmarshal (db_proto D) val of
             Inl e \<Rightarrow> (Some (wrap BadgerauthError (wrap ProtoError e)), s)
           | Inr loaded \<Rightarrow>
               if \<not> recordsEqual record loaded then (Some errKeyAlreadyExistsRecordsNotEqual, s)
               else insert_entries D nodeID keyHash record s)
      | Inl e \<Rightarrow>
          (if \<not> is_err (Badger ErrKeyNotFound) e then (Some (wrap BadgerauthError e), s)
           else insert_entries D nodeID keyHash record s))"

text \<open>\<open>deleteReplicationLogEntries\<close>: the iterator sees the store as it was when it was made.\<close>

fun delete_log_loop :: "'s engine \<Rightarrow> key_hash \<Rightarrow> (bytes \<times> bytes) list \<Rightarrow> 's \<Rightarrow> err option \<times> 's" where
  "delete_log_loop B soughtKeyHash [] s = (None, s)"
| "delete_log_loop B soughtKeyHash ((k, v) # items) s =
     (case entry_set_bytes k of
        Inl e \<Rightarrow> (Some e, s)
      | Inr entry \<Rightarrow>
          if le_KeyHash entry = soughtKeyHash
          then (case tx_delete B s k of
                  (Some e, t) \<Rightarrow> (Some e, t)
                | (None, t) \<Rightarrow> delete_log_loop B soughtKeyHash items t)
          else delete_log_loop B soughtKeyHash items s)"

definition deleteReplicationLogEntries :: "'s engine \<Rightarrow> key_hash \<Rightarrow> 's \<Rightarrow> err option \<times> 's" where
  "deleteReplicationLogEntries B soughtKeyHash s =
     delete_log_loop B soughtKeyHash (tx_iterate B s replicationLogPrefix replicationLogPrefix) s"

subsection \<open>Put and Get\<close>

definition put_check :: "'s db \<Rightarrow> key_hash \<Rightarrow> 's \<Rightarrow> err option" where
  "put_check D keyHash s =
     (case tx_get (db_engine D) s keyHash of
        Inr v \<Rightarrow> Some ErrKeyAlreadyExists
      | Inl e \<Rightarrow> (if is_err (Badger ErrKeyNotFound) e then None else Some e))"

definition record_at :: "time \<Rightarrow> auth_record \<Rightarrow> pb_record" where
  "record_at now record =
     \<lparr>pb_CreatedAtUnix = unix now, pb_Public = ar_Public record,
      pb_SatelliteAddress = ar_SatelliteAddress record, pb_MacaroonHead = ar_MacaroonHead record,
      pb_ExpiresAtUnix = timeToTimestamp (ar_ExpiresAt record),
      pb_EncryptedSecretKey = ar_EncryptedSecretKey record,
      pb_EncryptedAccessGrant = ar_EncryptedAccessGrant record,
      pb_InvalidationReason = [], pb_InvalidatedAtUnix = 0, pb_State = CREATED\<rparr>"

definition db_txn :: "'s db \<Rightarrow> (nat \<Rightarrow> err option) \<Rightarrow> ('s \<Rightarrow> err option \<times> 's) \<Rightarrow> 's
    \<Rightarrow> (err option \<times> 's) option" where
  "db_txn D ctx f s =
     map_option (\<lambda>(e, t). (wrap_opt BadgerauthError e, t))
       (txn_with_backoff (db_engine D) (cfg_ConflictBackoff (db_config D)) ctx f s)"

definition PutAtTime :: "'s db \<Rightarrow> (nat \<Rightarrow> err option) \<Rightarrow> key_hash \<Rightarrow> auth_record \<Rightarrow> time \<Rightarrow> 's
    \<Rightarrow> (err option \<times> 's) option" where
  "PutAtTime D ctx keyHash record now s =
     (case put_check D keyHash s of
        Some e \<Rightarrow> Some (Some (wrap BadgerauthError e), s)
      | None \<Rightarrow>
          db_txn D ctx (InsertRecord D (cfg_ID (db_config D)) keyHash (record_at now record)) s)"

definition to_auth_record :: "pb_record \<Rightarrow> auth_record" where
  "to_auth_record r =
     \<lparr>ar_SatelliteAddress = pb_SatelliteAddress r, ar_MacaroonHead = pb_MacaroonHead r,
      ar_EncryptedSecretKey = pb_EncryptedSecretKey r,
      ar_EncryptedAccessGrant = pb_EncryptedAccessGrant r,
      ar_ExpiresAt = timestampToTime (pb_ExpiresAtUnix r), ar_Public = pb_Public r\<rparr>"

definition Get :: "'s db \<Rightarrow> key_hash \<Rightarrow> 's \<Rightarrow> err + auth_record option" where
  "Get D keyHash s =
     (case lookupRecordWithTxn D keyHash s of
        Inl e \<Rightarrow> (if is_err (Badger ErrKeyNotFound) e then Inr None else Inl (wrap BadgerauthError e))
      | Inr r \<Rightarrow>
          if pb_InvalidationReason r \<noteq> []
          then Inl (wrap BadgerauthError (Classed InvalidRecord (Message (pb_InvalidationReason r))))
          else Inr (Some (to_auth_record r)))"

definition lookupRecord :: "'s db \<Rightarrow> key_hash \<Rightarrow> 's \<Rightarrow> err + pb_record" where
  "lookupRecord D keyHash s = wrap_res BadgerauthError (lookupRecordWithTxn D keyHash s)"

subsection \<open>Updating and deleting\<close>

definition update_txn :: "'s db \<Rightarrow> key_hash \<Rightarrow> (pb_record \<Rightarrow> pb_record) \<Rightarrow> 's \<Rightarrow> err option \<times> 's" where
  "update_txn D keyHash fn s =
     (case lookupRecordWithTxn D keyHash s of
        Inl e \<Rightarrow> (Some e, s)
      | Inr record \<Rightarrow>
          (case pb_marshal (db_proto D) (fn record) of
             Inl e \<Rightarrow> (Some (wrap ProtoError e), s)
           | Inr marshaled \<Rightarrow>
               tx_set (db_engine D) s keyHash marshaled
                 (word_of_int (pb_ExpiresAtUnix (fn record)))))"

definition updateRecord :: "'s db \<Rightarrow> (nat \<Rightarrow> err option) \<Rightarrow> key_hash \<Rightarrow> (pb_record \<Rightarrow> pb_record)
    \<Rightarrow> 's \<Rightarrow> (err option \<times> 's) option" where
  "updateRecord D ctx keyHash fn s = db_txn D ctx (update_txn D keyHash fn) s"

definition delete_txn :: "'s db \<Rightarrow> key_hash \<Rightarrow> 's \<Rightarrow> err option \<times> 's" where
  "delete_txn D keyHash s =
     (case tx_get (db_engine D) s keyHash of
        Inl e \<Rightarrow> (Some e, s)
      | Inr v \<Rightarrow>
          let (e1, t) = tx_delete (db_engine D) s keyHash;
              (e2, u) = deleteReplicationLogEntries (db_engine D) keyHash t
          in (combine [e1, e2], u))"

definition deleteRecord :: "'s db \<Rightarrow> (nat \<Rightarrow> err option) \<Rightarrow> key_hash \<Rightarrow> 's \<Rightarrow> (err option \<times> 's) option" where
  "deleteRecord D ctx keyHash s = db_txn D ctx (delete_txn D keyHash) s"

subsection \<open>Replication: the queries and the insert\<close>

fun find_entries_loop :: "'s db \<Rightarrow> 's \<Rightarrow> int \<Rightarrow> (bytes \<times> bytes) list \<Rightarrow> err + response_entry list" where
  "find_entries_loop D s cnt [] = Inr []"
| "find_entries_loop D s cnt ((k, v) # items) =
     (if cnt = cfg_ReplicationLimit (db_config D) then Inr []
      else case entry_set_bytes k of
        Inl e \<Rightarrow> Inl e
      | Inr entry \<Rightarrow>
          (case lookupRecordWithTxn D (le_KeyHash entry) s of
             Inl e \<Rightarrow> Inl e
           | Inr r \<Rightarrow>
               (case find_entries_loop D s (cnt + 1) items of
                  Inl e \<Rightarrow> Inl e
                | Inr response \<Rightarrow>
                    Inr (\<lparr>rs_NodeId = le_ID entry, rs_EncryptionKeyHash = le_KeyHash entry,
                          rs_Record = r\<rparr> # response))))"

definition findResponseEntries :: "'s db \<Rightarrow> node_id \<Rightarrow> clock \<Rightarrow> 's \<Rightarrow> err + response_entry list" where
  "findResponseEntries D nodeID c s =
     find_entries_loop D s 0
       (tx_iterate (db_engine D) s (replicationLogPrefix @ nodeID)
          (makeIterationStartKey nodeID (c + 1)))"

definition db_ensureClock :: "'s db \<Rightarrow> (nat \<Rightarrow> err option) \<Rightarrow> node_id \<Rightarrow> 's \<Rightarrow> (err option \<times> 's) option" where
  "db_ensureClock D ctx nid s = db_txn D ctx (ensureClock (db_engine D) nid) s"

definition buildRequestEntries :: "'s db \<Rightarrow> 's \<Rightarrow> err + request_entry list" where
  "buildRequestEntries D s =
     (case readAvailableClocks (db_engine D) s of
        Inl e \<Rightarrow> Inl (wrap BadgerauthError e)
      | Inr availableClocks \<Rightarrow>
          Inr (map (\<lambda>(nid, c). \<lparr>rq_NodeId = nid, rq_Clock = c\<rparr>)
                 (db_range D (AList.delete (cfg_ID (db_config D)) availableClocks))))"

fun insert_response_loop :: "'s db \<Rightarrow> response_entry list \<Rightarrow> 's \<Rightarrow> err option \<times> 's" where
  "insert_response_loop D [] s = (None, s)"
| "insert_response_loop D (entry # entries) s =
     (case node_id_set_bytes (rs_NodeId entry) of
        Inl e \<Rightarrow> (Some e, s)
      | Inr nid \<Rightarrow>
          (case key_hash_set_bytes (rs_EncryptionKeyHash entry) of
             Inl e \<Rightarrow> (Some e, s)
           | Inr keyHash \<Rightarrow>
               (case InsertRecord D nid keyHash (rs_Record entry) s of
                  (Some e, t) \<Rightarrow> (Some (Detail ''failed to insert entry'' e), t)
                | (None, t) \<Rightarrow> insert_response_loop D entries t)))"

definition insertResponseEntries :: "'s db \<Rightarrow> (nat \<Rightarrow> err option) \<Rightarrow> response_entry list \<Rightarrow> 's
    \<Rightarrow> (err option \<times> 's) option" where
  "insertResponseEntries D ctx response s = db_txn D ctx (insert_response_loop D response) s"

end
