(* ===== verification/Store_Facts.thy ===== *)
theory Store_Facts
  imports Store
begin

section \<open>The store: contents, invariant and what every operation does\<close>

text \<open>
  The contents of a state are read at three levels: the records by key hash, the clocks by node,
  and the replication log as a set of entries.  \<open>store_ok\<close> is the invariant of the store, and the
  lemmas of the context say what each write does to the contents and that it keeps the invariant.
\<close>

definition record_of :: "proto \<Rightarrow> (bytes \<Rightarrow> bytes option) \<Rightarrow> key_hash \<Rightarrow> pb_record option" where
  "record_of P V kh =
     (case V kh of
        None \<Rightarrow> None
      | Some b \<Rightarrow> (case pb_unmarshal P b of Inl e \<Rightarrow> None | Inr r \<Rightarrow> Some r))"

definition log_of :: "(bytes \<Rightarrow> bytes option) \<Rightarrow> log_entry set" where
  "log_of V = {e. entry_wf e \<and> V (entry_bytes e) \<noteq> None}"

definition expiry :: "pb_record \<Rightarrow> u64" where
  "expiry r = (if pb_ExpiresAtUnix r > 0 then word_of_int (pb_ExpiresAtUnix r) else 0)"

definition logs_ok :: "(bytes \<Rightarrow> bytes option) \<Rightarrow> bool" where
  "logs_ok V \<longleftrightarrow>
     (\<forall>k. V k \<noteq> None \<longrightarrow> has_prefix k replicationLogPrefix \<longrightarrow>
        (\<exists>e. entry_wf e \<and> k = entry_bytes e))"

text \<open>A stored record: created, its expiry an \<open>int64\<close> that has not passed.\<close>

definition rec_ok :: "(u64 \<Rightarrow> bool) \<Rightarrow> pb_record \<Rightarrow> bool" where
  "rec_ok live r \<longleftrightarrow> live (word_of_int (pb_ExpiresAtUnix r)) \<and> pb_State r = CREATED
     \<and> int64_ok (pb_ExpiresAtUnix r)"

definition records_ok :: "proto \<Rightarrow> (u64 \<Rightarrow> bool) \<Rightarrow> (bytes \<Rightarrow> bytes option) \<Rightarrow> bool" where
  "records_ok P live V \<longleftrightarrow>
     (\<forall>kh b. length kh = 32 \<longrightarrow> V kh = Some b \<longrightarrow>
        (\<exists>r. pb_unmarshal P b = Inr r \<and> rec_ok live r))"

text \<open>Every log entry is within its node's clock, alone at its clock, and has its record.\<close>

definition log_ok :: "(bytes \<Rightarrow> bytes option) \<Rightarrow> bool" where
  "log_ok V \<longleftrightarrow>
     (\<forall>e \<in> log_of V. V (le_KeyHash e) \<noteq> None \<and> le_State e = CREATED
        \<and> 0 < le_Clock e \<and> le_Clock e \<le> clock0 V (le_ID e) \<and> clock_of V (le_ID e) \<noteq> None)
     \<and> (\<forall>e \<in> log_of V. \<forall>f \<in> log_of V.
          le_ID e = le_ID f \<longrightarrow> le_Clock e = le_Clock f \<longrightarrow> e = f)"

definition store_ok :: "proto \<Rightarrow> (u64 \<Rightarrow> bool) \<Rightarrow> (bytes \<Rightarrow> bytes option) \<Rightarrow> bool" where
  "store_ok P live V \<longleftrightarrow> clocks_ok V \<and> logs_ok V \<and> records_ok P live V \<and> log_ok V"

text \<open>What an insert makes of the contents.\<close>

definition next_entry :: "(bytes \<Rightarrow> bytes option) \<Rightarrow> node_id \<Rightarrow> key_hash \<Rightarrow> pb_record \<Rightarrow> log_entry" where
  "next_entry V nid kh r =
     \<lparr>le_ID = nid, le_Clock = clock0 V nid + 1, le_KeyHash = kh, le_State = pb_State r\<rparr>"

definition inserted :: "(u64 \<Rightarrow> bool) \<Rightarrow> node_id \<Rightarrow> key_hash \<Rightarrow> pb_record \<Rightarrow> bytes
    \<Rightarrow> (bytes \<Rightarrow> bytes option) \<Rightarrow> bytes \<Rightarrow> bytes option" where
  "inserted live nid kh r m V =
     (V(makeClockKey nid \<mapsto> clock_bytes (clock0 V nid + 1)))
       (kh := (if live (expiry r) then Some m else None),
        entry_bytes (next_entry V nid kh r) := (if live (expiry r) then Some [] else None))"

lemma next_entry_simps [simp]:
  "le_ID (next_entry V nid kh r) = nid" "le_KeyHash (next_entry V nid kh r) = kh"
  "le_Clock (next_entry V nid kh r) = clock0 V nid + 1"
  "le_State (next_entry V nid kh r) = pb_State r"
  by (simp_all add: next_entry_def)

lemma next_entry_wf [simp]: "length nid = 32 \<Longrightarrow> length kh = 32 \<Longrightarrow> entry_wf (next_entry V nid kh r)"
  by (simp add: entry_wf_def)

lemma plain_hash_length [simp]: "plain_hash kh \<Longrightarrow> length kh = 32"
  by (simp add: plain_hash_def)

lemma clock0_Some [simp]: "clock_of V nid = Some c \<Longrightarrow> clock0 V nid = c"
  by (simp add: clock0_def)

lemma log_of_upd_entry:
  "entry_wf e \<Longrightarrow> log_of (V(entry_bytes e := x)) = (if x = None then log_of V - {e} else insert e (log_of V))"
  by (auto simp: log_of_def entry_bytes_inject)

lemma log_of_upd_other: "length k \<noteq> 95 \<Longrightarrow> log_of (V(k := x)) = log_of V"
  by (auto simp: log_of_def length_entry_bytes)

lemma record_of_upd_other: "k \<noteq> kh \<Longrightarrow> record_of P (V(k := x)) kh = record_of P V kh"
  by (simp add: record_of_def)

lemma record_of_cong: "V kh = W kh \<Longrightarrow> record_of P V kh = record_of P W kh"
  by (simp add: record_of_def)

subsection \<open>The contents after an insert\<close>

lemma inserted_other:
  assumes "length nid = 32" and "length kh = 32" and "k \<noteq> makeClockKey nid" and "k \<noteq> kh"
    and "length k \<noteq> 95"
  shows "inserted live nid kh r m V k = V k"
  using assms length_entry_bytes [of "next_entry V nid kh r"] by (auto simp: inserted_def)

lemma inserted_record:
  assumes "length nid = 32" and "length kh = 32"
  shows "inserted live nid kh r m V kh = (if live (expiry r) then Some m else None)"
  using assms by (auto simp: inserted_def keys_distinct [OF assms(2,1) next_entry_wf [OF assms]])

lemma inserted_record_other:
  assumes "length nid = 32" and "length kh = 32" and "length k = 32" and "k \<noteq> kh"
  shows "inserted live nid kh r m V k = V k"
  by (rule inserted_other) (use assms length_clock_key [of nid] in auto)

lemma inserted_clock:
  assumes "length nid = 32" and "length kh = 32" and "length a = 32"
  shows "clock_of (inserted live nid kh r m V) a =
    (if a = nid then Some (clock0 V nid + 1) else clock_of V a)"
  using assms length_entry_bytes [of "next_entry V nid kh r"] by (simp add: inserted_def)

lemma inserted_log:
  assumes "length nid = 32" and "length kh = 32"
  shows "log_of (inserted live nid kh r m V) =
    (if live (expiry r) then insert (next_entry V nid kh r) (log_of V)
     else log_of V - {next_entry V nid kh r})"
  using assms by (simp add: inserted_def log_of_upd_entry log_of_upd_other length_clock_key)

lemma live_expiry:
  assumes live_0: "live (0 :: u64)" and live_far: "\<And>x. 2 ^ 63 \<le> x \<Longrightarrow> live x"
    and "live (expiry r)" and "int64_ok (pb_ExpiresAtUnix r)"
  shows "live (word_of_int (pb_ExpiresAtUnix r))"
proof (cases "pb_ExpiresAtUnix r < 0")
  case True
  with assms(4) have "uint (word_of_int (pb_ExpiresAtUnix r) :: u64) = pb_ExpiresAtUnix r + 2 ^ 64"
    unfolding int64_ok_def
    by (simp add: uint_word_of_int) (smt (verit, best) mod_add_self2 mod_pos_pos_trivial)
  with assms(4) have "2 ^ 63 \<le> (word_of_int (pb_ExpiresAtUnix r) :: u64)"
    by (simp add: word_le_def int64_ok_def)
  then show ?thesis by (rule live_far)
next
  case False
  with assms(1,3) show ?thesis by (cases "pb_ExpiresAtUnix r = 0") (auto simp: expiry_def)
qed

lemma logs_ok_upd_other [intro]: "logs_ok V \<Longrightarrow> \<not> has_prefix k replicationLogPrefix \<Longrightarrow> logs_ok (V(k := x))"
  by (auto simp: logs_ok_def)

lemma logs_ok_upd_entry [intro]: "logs_ok V \<Longrightarrow> entry_wf e \<Longrightarrow> logs_ok (V(entry_bytes e := x))"
  by (auto simp: logs_ok_def)

lemma records_ok_upd_other [intro]: "records_ok P live V \<Longrightarrow> length k \<noteq> 32 \<Longrightarrow> records_ok P live (V(k := x))"
  by (auto simp: records_ok_def)

text \<open>In a well-formed store a 32-byte key is a plain key hash.\<close>

lemma store_ok_plain:
  assumes "store_ok P live V" and "V kh \<noteq> None" and "length kh = 32"
  shows "plain_hash kh"
proof -
  have "\<not> has_prefix kh clockPrefix"
  proof
    assume "has_prefix kh clockPrefix"
    with assms(1,2) obtain nid where "length nid = 32" "kh = makeClockKey nid"
      unfolding store_ok_def clocks_ok_def by blast
    with assms(3) show False by (simp add: length_clock_key)
  qed
  moreover have "\<not> has_prefix kh replicationLogPrefix"
  proof
    assume "has_prefix kh replicationLogPrefix"
    with assms(1,2) obtain e where "entry_wf e" "kh = entry_bytes e"
      unfolding store_ok_def logs_ok_def by blast
    with assms(3) show False by (simp add: length_entry_bytes)
  qed
  ultimately show ?thesis using assms(3) by (simp add: plain_hash_def)
qed

lemma rec_ok_expiry: "rec_ok live r \<Longrightarrow> live 0 \<Longrightarrow> live (expiry r)"
  by (simp add: rec_ok_def expiry_def)

subsection \<open>An insert keeps the invariant\<close>

lemma word_less_succ: "c \<le> d \<Longrightarrow> d + 1 \<noteq> 0 \<Longrightarrow> c < d + (1 :: u64)"
  by unat_arith

lemma log_okD:
  assumes "log_ok V" and "e \<in> log_of V"
  shows "V (le_KeyHash e) \<noteq> None" "0 < le_Clock e" "le_Clock e \<le> clock0 V (le_ID e)"
    "clock_of V (le_ID e) \<noteq> None" "le_State e = CREATED"
  using assms by (auto simp: log_ok_def)

lemma log_of_wf: "e \<in> log_of V \<Longrightarrow> entry_wf e"
  by (simp add: log_of_def)

lemma log_of_lengths: "e \<in> log_of V \<Longrightarrow> length (le_ID e) = 32 \<and> length (le_KeyHash e) = 32"
  by (simp add: log_of_def entry_wf_def)

text \<open>When an insert of \<open>r\<close>, marshalled as \<open>m\<close>, meets a well-formed store.\<close>

definition can_insert :: "proto \<Rightarrow> (u64 \<Rightarrow> bool) \<Rightarrow> (bytes \<Rightarrow> bytes option) \<Rightarrow> node_id \<Rightarrow> key_hash
    \<Rightarrow> pb_record \<Rightarrow> bytes \<Rightarrow> bool" where
  "can_insert P live V nid kh r m \<longleftrightarrow>
     store_ok P live V \<and> length nid = 32 \<and> plain_hash kh \<and> pb_State r = CREATED
     \<and> (V kh = None \<or> record_of P V kh = Some r) \<and> pb_unmarshal P m = Inr r
     \<and> int64_ok (pb_ExpiresAtUnix r) \<and> clock0 V nid + 1 \<noteq> 0
     \<and> live 0 \<and> (\<forall>x. 2 ^ 63 \<le> x \<longrightarrow> live x)"

lemma can_insertD:
  assumes "can_insert P live V nid kh r m"
  shows "clocks_ok V" "logs_ok V" "records_ok P live V" "log_ok V" "length nid = 32"
    "plain_hash kh" "length kh = 32" "V kh = None \<or> record_of P V kh = Some r"
    "pb_unmarshal P m = Inr r" "clock0 V nid + 1 \<noteq> 0" "live 0"
    "live (expiry r) \<Longrightarrow> rec_ok live r" "pb_State r = CREATED"
  using assms live_expiry [of live r] by (auto simp: can_insert_def store_ok_def rec_ok_def)

lemma inserted_clocks_ok:
  "can_insert P live V nid kh r m \<Longrightarrow> clocks_ok (inserted live nid kh r m V)"
  unfolding inserted_def
  by (intro clocks_ok_upd_other clocks_ok_upd) (auto simp: can_insertD dest: can_insertD(6) simp: plain_hash_def)

lemma inserted_logs_ok:
  assumes "can_insert P live V nid kh r m"
  shows "logs_ok (inserted live nid kh r m V)"
  using can_insertD [OF assms] unfolding inserted_def
  by (intro logs_ok_upd_entry logs_ok_upd_other) (auto simp: plain_hash_def)

lemma inserted_records_ok:
  assumes I: "can_insert P live V nid kh r m"
  shows "records_ok P live (inserted live nid kh r m V)"
  unfolding records_ok_def
proof (intro allI impI)
  fix k b assume k: "length k = 32" and b: "inserted live nid kh r m V k = Some b"
  show "\<exists>q. pb_unmarshal P b = Inr q \<and> rec_ok live q"
  proof (cases "k = kh")
    case True
    with b can_insertD [OF I] show ?thesis by (auto simp: inserted_record split: if_splits)
  next
    case False
    with k b have "V k = Some b" by (simp add: inserted_record_other can_insertD [OF I])
    with k can_insertD(3) [OF I] show ?thesis by (auto simp: records_ok_def)
  qed
qed

text \<open>A record that is being overwritten by an expired one would have been expired itself.\<close>

lemma dead_insert:
  assumes I: "can_insert P live V nid kh r m" and dead: "\<not> live (expiry r)"
  shows "V kh = None"
proof (rule ccontr)
  assume "V kh \<noteq> None"
  with can_insertD(8) [OF I] obtain b where "V kh = Some b" "pb_unmarshal P b = Inr r"
    by (auto simp: record_of_def split: option.splits sum.splits)
  then have "live (word_of_int (pb_ExpiresAtUnix r))"
    using can_insertD(3,7) [OF I] unfolding records_ok_def rec_ok_def by (metis sum.inject(2))
  with dead can_insertD(11) [OF I] show False by (auto simp: expiry_def split: if_splits)
qed

lemma kept_key:
  assumes I: "can_insert P live V nid kh r m" and e: "e \<in> log_of V"
  shows "inserted live nid kh r m V (le_KeyHash e) \<noteq> None"
proof (cases "le_KeyHash e = kh")
  case True
  with log_okD(1) [OF can_insertD(4) [OF I] e] dead_insert [OF I] have "live (expiry r)" by metis
  with True show ?thesis by (simp add: inserted_record can_insertD [OF I])
next
  case False
  with log_okD(1) [OF can_insertD(4) [OF I] e] log_of_lengths [OF e] show ?thesis
    by (simp add: inserted_record_other can_insertD [OF I])
qed

lemma old_entry_ok:
  assumes I: "can_insert P live V nid kh r m" and e: "e \<in> log_of V"
  shows "le_Clock e \<le> clock0 (inserted live nid kh r m V) (le_ID e)"
    and "clock_of (inserted live nid kh r m V) (le_ID e) \<noteq> None"
  using log_okD [OF can_insertD(4) [OF I] e] log_of_lengths [OF e] can_insertD(5,7,10) [OF I]
    word_less_succ [of "le_Clock e" "clock0 V nid"]
  by (auto simp: clock0_def [of "inserted live nid kh r m V"] inserted_clock
      split: option.splits if_splits)

lemma new_is_later:
  assumes I: "can_insert P live V nid kh r m" and e: "e \<in> log_of V" "le_ID e = nid"
  shows "le_Clock e < clock0 V nid + 1"
  using log_okD(3) [OF can_insertD(4) [OF I] e(1)] e(2) can_insertD(10) [OF I]
  by (auto intro: word_less_succ)

lemma inserted_log_ok:
  assumes I: "can_insert P live V nid kh r m"
  shows "log_ok (inserted live nid kh r m V)" (is "log_ok ?W")
proof -
  let ?n = "next_entry V nid kh r"
  have log: "log_of ?W \<subseteq> insert ?n (log_of V)"
    by (auto simp: inserted_log can_insertD [OF I] split: if_splits)
  have old: "?W (le_KeyHash e) \<noteq> None \<and> le_State e = CREATED \<and> 0 < le_Clock e
      \<and> le_Clock e \<le> clock0 ?W (le_ID e) \<and> clock_of ?W (le_ID e) \<noteq> None"
    if e: "e \<in> log_of V" for e
    using kept_key [OF I e] old_entry_ok [OF I e] log_okD(2,5) [OF can_insertD(4) [OF I] e] by simp
  have new: "?W kh \<noteq> None \<and> 0 < clock0 V nid + 1
      \<and> clock0 V nid + 1 \<le> clock0 ?W nid \<and> clock_of ?W nid \<noteq> None"
    if "?n \<in> log_of ?W"
  proof -
    have "live (expiry r)" using that by (auto simp: inserted_log can_insertD [OF I] split: if_splits)
    with can_insertD(10) [OF I] show ?thesis
      by (simp add: inserted_record can_insertD [OF I] clock0_def [of ?W] inserted_clock word_gt_0)
  qed
  have unique: "e = f" if ef: "e \<in> log_of ?W" "f \<in> log_of ?W" "le_ID e = le_ID f" "le_Clock e = le_Clock f" for e f
  proof -
    from ef log consider "e \<in> log_of V" "f \<in> log_of V" | "e = f"
      | "e = ?n" "f \<in> log_of V" | "f = ?n" "e \<in> log_of V" by blast
    then show ?thesis
    proof cases
      case 1
      with can_insertD(4) [OF I] ef show ?thesis by (auto simp: log_ok_def)
    next
      case 3
      with ef new_is_later [OF I, of f] show ?thesis by simp
    next
      case 4
      with ef new_is_later [OF I, of e] show ?thesis by simp
    qed
  qed
  show ?thesis
    unfolding log_ok_def
  proof (intro conjI ballI)
    fix e assume e: "e \<in> log_of ?W"
    then consider "e = ?n" | "e \<in> log_of V" using log by blast
    then have all: "?W (le_KeyHash e) \<noteq> None \<and> le_State e = CREATED \<and> 0 < le_Clock e
        \<and> le_Clock e \<le> clock0 ?W (le_ID e) \<and> clock_of ?W (le_ID e) \<noteq> None"
      using old new e can_insertD(13) [OF I] by cases auto
    then show "?W (le_KeyHash e) \<noteq> None" "le_State e = CREATED" "0 < le_Clock e"
      "le_Clock e \<le> clock0 ?W (le_ID e)" "clock_of ?W (le_ID e) \<noteq> None" by auto
    show "le_ID e = le_ID f \<longrightarrow> le_Clock e = le_Clock f \<longrightarrow> e = f" if "f \<in> log_of ?W" for f
      using unique e that by blast
  qed
qed

lemma inserted_ok:
  "can_insert P live V nid kh r m \<Longrightarrow> store_ok P live (inserted live nid kh r m V)"
  by (simp add: store_ok_def inserted_clocks_ok inserted_logs_ok inserted_records_ok inserted_log_ok)

end
