(* ===== verification/Store_Ops.thy ===== *)
theory Store_Ops
  imports Store_Facts
begin

section \<open>What the methods of the store do to its contents\<close>

text \<open>
  The effect of every method of \<open>DB\<close> on the contents, proved once under the contracts of the
  engine and of the codec: an insert is \<open>inserted\<close>, a failed write changes nothing, a delete
  removes the record with its log entries, a query returns the log in clock order.  The methods
  keep \<open>store_ok\<close>.
\<close>

definition take_limit :: "int \<Rightarrow> 'a list \<Rightarrow> 'a list" where
  "take_limit limit xs = (if limit < 0 then xs else take (nat limit) xs)"

definition response_of :: "proto \<Rightarrow> (bytes \<Rightarrow> bytes option) \<Rightarrow> log_entry \<Rightarrow> response_entry" where
  "response_of P V e =
     \<lparr>rs_NodeId = le_ID e, rs_EncryptionKeyHash = le_KeyHash e,
      rs_Record = the (record_of P V (le_KeyHash e))\<rparr>"

text \<open>What a delete of the key hash \<open>kh\<close> makes of the contents.\<close>

definition deleted :: "key_hash \<Rightarrow> (bytes \<Rightarrow> bytes option) \<Rightarrow> bytes \<Rightarrow> bytes option" where
  "deleted kh V = (\<lambda>k. if k = kh \<or> (\<exists>e \<in> log_of V. k = entry_bytes e \<and> le_KeyHash e = kh)
     then None else V k)"

context badger_db
begin

lemma not_Nil_32: "length (k :: bytes) = 32 \<Longrightarrow> k \<noteq> []"
  by auto

lemma lookup_ok:
  assumes "length kh = 32"
  shows "lookupRecordWithTxn D kh s =
    (case view s kh of
       None \<Rightarrow> Inl (badger_err ErrKeyNotFound)
     | Some b \<Rightarrow> wrap_res ProtoError (pb_unmarshal (db_proto D) b))"
  using not_Nil_32 [OF assms]
  by (cases "view s kh") (auto simp: lookupRecordWithTxn_def get_some get_none)

lemma lookup_Inr_iff:
  assumes "length kh = 32"
  shows "lookupRecordWithTxn D kh s = Inr r \<longleftrightarrow> record_of (db_proto D) (view s) kh = Some r"
  using assms by (auto simp: lookup_ok record_of_def split: option.splits sum.splits)

lemma records_ok_lookup:
  assumes "records_ok (db_proto D) live (view s)" and "length kh = 32" and "view s kh \<noteq> None"
  obtains r where "record_of (db_proto D) (view s) kh = Some r" and "rec_ok live r"
proof -
  obtain b where b: "view s kh = Some b" using assms(3) by blast
  with assms obtain r where r: "pb_unmarshal (db_proto D) b = Inr r"
      "rec_ok live r"
    unfolding records_ok_def by blast
  show thesis by (rule that [of r]) (simp_all add: r b record_of_def)
qed

subsection \<open>InsertRecord\<close>

lemma insert_entries_ok:
  assumes "insert_entries D nid kh r s = (None, t)" and "clocks_ok (view s)"
  obtains m where "pb_marshal (db_proto D) r = Inr m"
    and "view t = inserted live nid kh r m (view s)"
proof -
  obtain m where m: "pb_marshal (db_proto D) r = Inr m"
    using assms(1) by (auto simp: insert_entries_def split: sum.splits)
  obtain c s1 where c: "advanceClock (db_engine D) nid s = (Inr c, s1)"
    using assms(1) m by (auto simp: insert_entries_def split: sum.splits prod.splits)
  note adv = advanceClock_ok [OF c assms(2)]
  let ?x = "expiry r"
  let ?e = "\<lparr>le_ID = nid, le_Clock = c, le_KeyHash = kh, le_State = pb_State r\<rparr>"
  obtain e1 s2 where s2: "tx_set (db_engine D) s1 kh m ?x = (e1, s2)" by fastforce
  obtain e2 s3 where s3: "tx_set (db_engine D) s2 (entry_bytes ?e) [] ?x = (e2, s3)" by fastforce
  have "combine [e1, e2] = None" and t: "s3 = t"
    using assms(1) m c s2 s3 by (simp_all add: insert_entries_def expiry_def [symmetric] Let_def)
  then have e: "e1 = None" "e2 = None" by (simp_all add: combine_None_iff)
  have "view t = (view s)(makeClockKey nid \<mapsto> clock_bytes c,
      kh := (if live ?x then Some m else None),
      entry_bytes ?e := (if live ?x then Some [] else None))"
    using set_view [OF s2 [unfolded e]] set_view [OF s3 [unfolded e]] adv(2) t by simp
  then show thesis
    using adv(1) m by (intro that [of m]) (simp_all add: inserted_def next_entry_def)
qed

lemma InsertRecord_ok:
  assumes "InsertRecord D nid kh r s = (None, t)" and "clocks_ok (view s)" and "length kh = 32"
  obtains m where "pb_marshal (db_proto D) r = Inr m" and "pb_State r = CREATED"
    and "view s kh = None \<or> record_of (db_proto D) (view s) kh = Some r"
    and "view t = inserted live nid kh r m (view s)"
proof -
  have "pb_State r = CREATED" and ins: "insert_entries D nid kh r s = (None, t)"
    and same: "view s kh = None \<or> record_of (db_proto D) (view s) kh = Some r"
    using assms(1) not_Nil_32 [OF assms(3)]
    by (cases "view s kh"; force simp: InsertRecord_def errOperationNotSupported_def
        errKeyAlreadyExistsRecordsNotEqual_def recordsEqual_def get_some get_none record_of_def
        split: if_splits sum.splits)+
  from insert_entries_ok [OF ins assms(2)] this that show thesis by blast
qed

lemma InsertRecord_can_insert:
  assumes "InsertRecord D nid kh r s = (None, t)" and "store_ok (db_proto D) live (view s)"
    and "length nid = 32" and "plain_hash kh" and "int64_ok (pb_ExpiresAtUnix r)"
    and "clock0 (view s) nid + 1 \<noteq> 0"
  obtains m where "can_insert (db_proto D) live (view s) nid kh r m"
    and "view t = inserted live nid kh r m (view s)"
proof -
  have "clocks_ok (view s)" using assms(2) by (simp add: store_ok_def)
  from InsertRecord_ok [OF assms(1) this plain_hash_length [OF assms(4)]] obtain m where m:
    "pb_marshal (db_proto D) r = Inr m" "pb_State r = CREATED" "view t = inserted live nid kh r m (view s)"
    "view s kh = None \<or> record_of (db_proto D) (view s) kh = Some r" by blast
  moreover have "can_insert (db_proto D) live (view s) nid kh r m"
    using assms m unmarshal_marshal [OF m(1)] live_0 live_far by (simp add: can_insert_def)
  ultimately show thesis using that by blast
qed

lemma InsertRecord_not_created:
  "pb_State r \<noteq> CREATED \<Longrightarrow> InsertRecord D nid kh r s = (Some errOperationNotSupported, s)"
  by (simp add: InsertRecord_def)

lemma InsertRecord_differs:
  assumes "pb_State r = CREATED" and "length kh = 32"
    and "record_of (db_proto D) (view s) kh = Some q" and "q \<noteq> r"
  shows "InsertRecord D nid kh r s = (Some errKeyAlreadyExistsRecordsNotEqual, s)"
  using assms by (auto simp: InsertRecord_def record_of_def recordsEqual_def get_some
      split: option.splits sum.splits)

subsection \<open>Transactions of the store\<close>

lemma db_txn_ok:
  assumes "db_txn D ctx f s = Some (None, s')"
  obtains u t where "view u = view s" and "f u = (None, t)" and "view s' = view t"
proof -
  from assms obtain e where "txn_with_backoff (db_engine D) (cfg_ConflictBackoff (db_config D)) ctx f s = Some (e, s')"
    and "e = None"
    by (auto simp: db_txn_def)
  with txn_with_backoff_ok that show thesis by blast
qed

lemma db_txn_error:
  assumes "db_txn D ctx f s = Some (Some e, s')"
  shows "view s' = view s"
  using assms by (auto simp: db_txn_def wrap_opt_def intro: txn_with_backoff_error)

lemma db_txn_returns:
  assumes "bo_sane (cfg_ConflictBackoff (db_config D))"
  shows "\<exists>r. db_txn D ctx f s = Some r"
  using txn_with_backoff_returns [OF assms] by (fastforce simp: db_txn_def)

lemma db_txn_abort:
  assumes "f s = (Some e, t)" and "\<not> is_err (Badger ErrConflict) e"
  shows "db_txn D ctx f s = Some (Some (wrap BadgerauthError e), s)"
  using txn_with_backoff_abort [where f = f and s = s, OF assms] by (simp add: db_txn_def)

subsection \<open>Put and Get\<close>

lemma Put_ok:
  assumes "PutAtTime D ctx kh rec now s = Some (None, s')" and "clocks_ok (view s)" and "length kh = 32"
  obtains m where "pb_marshal (db_proto D) (record_at now rec) = Inr m" and "view s kh = None"
    and "view s' = inserted live (cfg_ID (db_config D)) kh (record_at now rec) m (view s)"
proof -
  have none: "view s kh = None"
    using assms(1) by (cases "view s kh") (auto simp: PutAtTime_def put_check_def get_some)
  with assms(1) not_Nil_32 [OF assms(3)]
  have "db_txn D ctx (InsertRecord D (cfg_ID (db_config D)) kh (record_at now rec)) s = Some (None, s')"
    by (simp add: PutAtTime_def put_check_def get_none)
  then obtain u t where u: "view u = view s" and
    i: "InsertRecord D (cfg_ID (db_config D)) kh (record_at now rec) u = (None, t)" and t: "view s' = view t"
    by (rule db_txn_ok)
  from InsertRecord_ok [OF i _ assms(3)] assms(2) u t none that show thesis by metis
qed

lemma Put_exists:
  assumes "view s kh \<noteq> None"
  shows "PutAtTime D ctx kh rec now s = Some (Some ErrKeyAlreadyExists, s)"
  using assms by (auto simp: PutAtTime_def put_check_def get_some ErrKeyAlreadyExists_def)

lemma Put_error:
  assumes "PutAtTime D ctx kh rec now s = Some (Some e, s')"
  shows "view s' = view s"
  using assms by (auto simp: PutAtTime_def intro: db_txn_error split: option.splits)

lemma Put_returns:
  assumes "bo_sane (cfg_ConflictBackoff (db_config D))"
  shows "\<exists>r. PutAtTime D ctx kh rec now s = Some r"
  using db_txn_returns [OF assms] by (auto simp: PutAtTime_def split: option.splits)

lemma Get_ok:
  assumes "length kh = 32"
  shows "Get D kh s =
    (case view s kh of
       None \<Rightarrow> Inr None
     | Some b \<Rightarrow>
         (case pb_unmarshal (db_proto D) b of
            Inl e \<Rightarrow> (if is_err (Badger ErrKeyNotFound) e then Inr None
                      else Inl (wrap BadgerauthError (wrap ProtoError e)))
          | Inr r \<Rightarrow>
              if pb_InvalidationReason r \<noteq> []
              then Inl (Classed BadgerauthError (Classed InvalidRecord (Message (pb_InvalidationReason r))))
              else Inr (Some (to_auth_record r))))"
  using assms by (cases "view s kh") (auto simp: Get_def lookup_ok split: sum.splits)

lemma Put_Get:
  assumes "PutAtTime D ctx kh rec now s = Some (None, s')" and "clocks_ok (view s)" and "length kh = 32"
  shows "Get D kh s' =
    Inr (if live (expiry (record_at now rec)) then Some (to_auth_record (record_at now rec)) else None)"
proof -
  from Put_ok [OF assms] obtain m where m: "pb_marshal (db_proto D) (record_at now rec) = Inr m"
    and v: "view s' = inserted live (cfg_ID (db_config D)) kh (record_at now rec) m (view s)" by blast
  have "pb_InvalidationReason (record_at now rec) = []" by (simp add: record_at_def)
  with m v id_length assms(3) show ?thesis
    by (simp add: Get_ok inserted_record unmarshal_marshal)
qed

subsection \<open>Update\<close>

lemma update_txn_ok:
  assumes "update_txn D kh fn s = (None, t)" and "length kh = 32"
  obtains r m where "record_of (db_proto D) (view s) kh = Some r"
    and "pb_marshal (db_proto D) (fn r) = Inr m"
    and "view t = (view s)(kh := (if live (word_of_int (pb_ExpiresAtUnix (fn r))) then Some m else None))"
proof -
  obtain r where r: "lookupRecordWithTxn D kh s = Inr r"
    using assms(1) by (auto simp: update_txn_def split: sum.splits)
  obtain m where m: "pb_marshal (db_proto D) (fn r) = Inr m"
    using assms(1) r by (auto simp: update_txn_def split: sum.splits)
  have "tx_set (db_engine D) s kh m (word_of_int (pb_ExpiresAtUnix (fn r))) = (None, t)"
    using assms(1) r m by (simp add: update_txn_def)
  from set_view [OF this] r m that show thesis by (simp add: lookup_Inr_iff [OF assms(2)])
qed

text \<open>An update that leaves the expiry alone replaces the record and nothing else.\<close>

lemma updateRecord_ok:
  assumes "updateRecord D ctx kh fn s = Some (None, s')" and "length kh = 32"
    and "records_ok (db_proto D) live (view s)" and "\<And>r. pb_ExpiresAtUnix (fn r) = pb_ExpiresAtUnix r"
  obtains r m where "record_of (db_proto D) (view s) kh = Some r"
    and "pb_unmarshal (db_proto D) m = Inr (fn r)" and "rec_ok live r"
    and "view s' = (view s)(kh \<mapsto> m)"
proof -
  obtain u t where u: "view u = view s" "update_txn D kh fn u = (None, t)" "view s' = view t"
    using assms(1) unfolding updateRecord_def by (rule db_txn_ok)
  from update_txn_ok [OF u(2) assms(2)] obtain r m where r: "record_of (db_proto D) (view s) kh = Some r"
    and m: "pb_marshal (db_proto D) (fn r) = Inr m"
    and v: "view t = (view s)(kh := (if live (word_of_int (pb_ExpiresAtUnix r)) then Some m else None))"
    using u(1) assms(4) by metis
  have "view s kh \<noteq> None" using r by (auto simp: record_of_def split: option.splits)
  from records_ok_lookup [OF assms(3,2) this] r have "rec_ok live r" by auto
  moreover from this have "live (word_of_int (pb_ExpiresAtUnix r))" by (simp add: rec_ok_def)
  ultimately show thesis using r m v u(3) that unmarshal_marshal [OF m] by simp
qed

lemma store_ok_set_record:
  assumes "store_ok P live V" and "plain_hash kh" and "V kh \<noteq> None"
    and "pb_unmarshal P m = Inr r" and "rec_ok live r"
  shows "store_ok P live (V(kh \<mapsto> m))"
proof -
  have kh: "length kh = 32" "\<not> has_prefix kh clockPrefix" "\<not> has_prefix kh replicationLogPrefix"
    using assms(2) by (simp_all add: plain_hash_def)
  have log: "log_of (V(kh \<mapsto> m)) = log_of V" using kh by (simp add: log_of_upd_other)
  have clk: "clock_of (V(kh \<mapsto> m)) (le_ID e) = clock_of V (le_ID e)" if "e \<in> log_of V" for e
    using kh log_of_lengths [OF that] by simp
  have "log_ok (V(kh \<mapsto> m))"
    using assms(1,3) unfolding store_ok_def log_ok_def log
    by (auto simp: clk clock0_def)
  moreover have "records_ok P live (V(kh \<mapsto> m))"
    using assms(1,4,5) by (auto simp: store_ok_def records_ok_def)
  ultimately show ?thesis
    using assms(1) kh by (auto simp: store_ok_def)
qed

lemma updateRecord_missing:
  assumes "view s kh = None" and "length kh = 32"
  shows "updateRecord D ctx kh fn s =
    Some (Some (wrap BadgerauthError (badger_err ErrKeyNotFound)), s)"
  unfolding updateRecord_def
  by (rule db_txn_abort [where t = s]) (use assms in \<open>simp_all add: update_txn_def lookup_ok\<close>)

subsection \<open>Delete\<close>

lemma delete_log_loop_ok:
  assumes "delete_log_loop (db_engine D) kh items s = (None, t)"
    and "\<And>k v. (k, v) \<in> set items \<Longrightarrow> \<exists>e. entry_wf e \<and> k = entry_bytes e"
  shows "view t k = (if \<exists>e. entry_wf e \<and> k = entry_bytes e \<and> le_KeyHash e = kh \<and> k \<in> fst ` set items
    then None else view s k)"
  using assms
proof (induction items arbitrary: s)
  case (Cons x items)
  obtain k' v where x: "x = (k', v)" by fastforce
  with Cons.prems(2) obtain e where e: "entry_wf e" "k' = entry_bytes e" by auto
  have IH: "view t k = (if \<exists>e. entry_wf e \<and> k = entry_bytes e \<and> le_KeyHash e = kh \<and> k \<in> fst ` set items
      then None else view s1 k)" if "delete_log_loop (db_engine D) kh items s1 = (None, t)" for s1
    using that Cons.prems(2) by (intro Cons.IH) auto
  show ?case
  proof (cases "le_KeyHash e = kh")
    case True
    with Cons.prems(1) x e obtain s1 where s1: "tx_delete (db_engine D) s k' = (None, s1)"
      and rest: "delete_log_loop (db_engine D) kh items s1 = (None, t)"
      by (auto simp: entry_set_bytes_bytes split: prod.splits option.splits)
    from IH [OF rest] delete_view [OF s1] x e True show ?thesis by auto
  next
    case False
    with Cons.prems(1) x e have "delete_log_loop (db_engine D) kh items s = (None, t)"
      by (simp add: entry_set_bytes_bytes)
    from IH [OF this] x e False show ?thesis by (auto simp: entry_bytes_inject)
  qed
qed simp

lemma delete_txn_ok:
  assumes "delete_txn D kh s = (None, t)" and "logs_ok (view s)" and "plain_hash kh"
  shows "view t = deleted kh (view s)"
proof
  fix k
  obtain v where v: "view s kh = Some v"
    using assms(1) not_Nil_32 [of kh] plain_hash_length [OF assms(3)]
    by (cases "view s kh") (auto simp: delete_txn_def get_none)
  obtain e1 s1 where d: "tx_delete (db_engine D) s kh = (e1, s1)" by fastforce
  obtain e2 s2 where l: "deleteReplicationLogEntries (db_engine D) kh s1 = (e2, s2)" by fastforce
  have e: "e1 = None" "e2 = None" and t: "s2 = t"
    using assms(1) v d l by (auto simp: delete_txn_def get_some combine_None_iff)
  note v1 = delete_view [OF d [unfolded e]]
  let ?I = "tx_iterate (db_engine D) s1 replicationLogPrefix replicationLogPrefix"
  have wf: "\<And>k w. (k, w) \<in> set ?I \<Longrightarrow> \<exists>e. entry_wf e \<and> k = entry_bytes e"
    using assms(2) v1 by (auto simp: iterate_set logs_ok_def split: if_splits)
  have loop: "delete_log_loop (db_engine D) kh ?I s1 = (None, t)"
    using l e t by (simp add: deleteReplicationLogEntries_def)
  have "view t k = (if \<exists>e. entry_wf e \<and> k = entry_bytes e \<and> le_KeyHash e = kh \<and> k \<in> fst ` set ?I
      then None else view s1 k)" by (rule delete_log_loop_ok [OF loop wf])
  moreover have "k \<in> fst ` set ?I \<longleftrightarrow> view s1 k \<noteq> None \<and> has_prefix k replicationLogPrefix"
    by (auto simp: iterate_set image_iff has_prefix_le)
  ultimately show "view t k = deleted kh (view s) k"
    using v1 assms(3) by (auto simp: deleted_def log_of_def plain_hash_def)
qed

lemma deleteRecord_ok:
  assumes "deleteRecord D ctx kh s = Some (None, s')" and "logs_ok (view s)" and "plain_hash kh"
  shows "view s' = deleted kh (view s)"
proof -
  obtain u t where u: "view u = view s" "delete_txn D kh u = (None, t)" "view s' = view t"
    using assms(1) unfolding deleteRecord_def by (rule db_txn_ok)
  from delete_txn_ok [OF u(2) assms(2) [folded u(1)] assms(3)] u(1,3) show ?thesis by simp
qed

lemma log_of_deleted:
  "length kh = 32 \<Longrightarrow> log_of (deleted kh V) = {e \<in> log_of V. le_KeyHash e \<noteq> kh}"
  by (auto simp: deleted_def log_of_def entry_bytes_inject length_entry_bytes)

lemma deleted_short:
  assumes "length k \<noteq> 95" and "k \<noteq> kh"
  shows "deleted kh V k = V k"
  using assms by (auto simp: deleted_def log_of_def length_entry_bytes)

lemma clock_of_deleted: "length a = 32 \<Longrightarrow> length kh = 32 \<Longrightarrow> clock_of (deleted kh V) a = clock_of V a"
  unfolding clock_of_def
  by (subst deleted_short) (auto simp: length_clock_key dest: arg_cong [where f = length])

lemma store_ok_deleted:
  assumes "store_ok P l V" and "length kh = 32"
  shows "store_ok P l (deleted kh V)"
proof -
  have "clocks_ok (deleted kh V)" "logs_ok (deleted kh V)" "records_ok P l (deleted kh V)"
    using assms(1) by (auto simp: deleted_def store_ok_def clocks_ok_def logs_ok_def records_ok_def split: if_splits)
  moreover have "log_ok (deleted kh V)"
    unfolding log_ok_def
  proof (intro conjI ballI)
    fix e assume "e \<in> log_of (deleted kh V)"
    then have e: "e \<in> log_of V" "le_KeyHash e \<noteq> kh" using assms(2) by (auto simp: log_of_deleted)
    have ok: "log_ok V" using assms(1) by (simp add: store_ok_def)
    show "deleted kh V (le_KeyHash e) \<noteq> None"
      using log_okD(1) [OF ok e(1)] log_of_lengths [OF e(1)] e(2) deleted_short [of "le_KeyHash e" kh V] by simp
    show "0 < le_Clock e" "le_State e = CREATED" using log_okD(2,5) [OF ok e(1)] by simp_all
    show "clock_of (deleted kh V) (le_ID e) \<noteq> None" "le_Clock e \<le> clock0 (deleted kh V) (le_ID e)"
      using log_okD [OF ok e(1)] log_of_lengths [OF e(1)] assms(2)
      by (simp_all add: clock_of_deleted clock0_def)
    show "le_ID e = le_ID f \<longrightarrow> le_Clock e = le_Clock f \<longrightarrow> e = f" if "f \<in> log_of (deleted kh V)" for f
      using that ok e(1) assms(2) by (auto simp: log_of_deleted log_ok_def)
  qed
  ultimately show ?thesis by (simp add: store_ok_def)
qed

subsection \<open>The replication queries\<close>

lemma find_entries_loop_ok:
  assumes "\<And>e. e \<in> set es \<Longrightarrow> entry_wf e \<and> record_of (db_proto D) (view s) (le_KeyHash e) \<noteq> None"
    and "map fst items = map entry_bytes es" and "0 \<le> n"
    and "cfg_ReplicationLimit (db_config D) < 0 \<or> n \<le> cfg_ReplicationLimit (db_config D)"
  shows "find_entries_loop D s n items =
    Inr (map (response_of (db_proto D) (view s))
      (if cfg_ReplicationLimit (db_config D) < 0 then es
       else take (nat (cfg_ReplicationLimit (db_config D) - n)) es))"
  using assms
proof (induction es arbitrary: items n)
  case (Cons e es)
  let ?lim = "cfg_ReplicationLimit (db_config D)"
  obtain v items' where items: "items = (entry_bytes e, v) # items'" "map fst items' = map entry_bytes es"
    using Cons.prems(2) by (cases items) auto
  from Cons.prems(1) [of e] obtain r where e: "entry_wf e" "record_of (db_proto D) (view s) (le_KeyHash e) = Some r"
    by auto
  then have l: "lookupRecordWithTxn D (le_KeyHash e) s = Inr r"
    by (simp add: lookup_Inr_iff entry_wf_def)
  show ?case
  proof (cases "n = ?lim")
    case True
    then show ?thesis using items Cons.prems(3) by simp
  next
    case False
    have "find_entries_loop D s (n + 1) items' = Inr (map (response_of (db_proto D) (view s))
        (if ?lim < 0 then es else take (nat (?lim - (n + 1))) es))"
      using Cons.prems items False by (intro Cons.IH) auto
    moreover have "?lim \<ge> 0 \<Longrightarrow> nat (?lim - n) = Suc (nat (?lim - (n + 1)))"
      using Cons.prems(4) False by linarith
    ultimately show ?thesis
      using items e l False by (auto simp: entry_set_bytes_bytes response_of_def)
  qed
qed simp

text \<open>
  \<open>findResponseEntries\<close> returns the log entries of the node from the next clock on, in the order
  of their clocks, with their records, up to the configured limit.
\<close>

lemma find_ok:
  assumes ok: "store_ok (db_proto D) live (view s)" and nid: "length nid = 32"
  obtains es where "sorted_wrt (\<lambda>e f. le_Clock e < le_Clock f) es"
    and "set es = {e \<in> log_of (view s). le_ID e = nid \<and> c + 1 \<le> le_Clock e}"
    and "findResponseEntries D nid c s =
      Inr (map (response_of (db_proto D) (view s)) (take_limit (cfg_ReplicationLimit (db_config D)) es))"
proof -
  let ?I = "tx_iterate (db_engine D) s (replicationLogPrefix @ nid) (makeIterationStartKey nid (c + 1))"
  let ?dec = "\<lambda>k. projr (entry_set_bytes k)"
  define es where "es = map (?dec \<circ> fst) ?I"
  have logs: "logs_ok (view s)" and records: "records_ok (db_proto D) live (view s)" and log: "log_ok (view s)"
    using ok by (simp_all add: store_ok_def)
  have pre: "has_prefix k replicationLogPrefix" if "has_prefix k (replicationLogPrefix @ nid)" for k
    using that by (auto simp: has_prefix_iff)
  have dec: "entry_wf (?dec k) \<and> entry_bytes (?dec k) = k" if k: "k \<in> fst ` set ?I" for k
  proof -
    from k logs pre obtain e where "entry_wf e" "k = entry_bytes e"
      by (auto simp: iterate_set logs_ok_def)
    then show ?thesis by (simp add: entry_set_bytes_bytes)
  qed
  have map_es: "map fst ?I = map entry_bytes es"
    unfolding es_def using dec by simp
  have wf: "entry_wf e" if "e \<in> set es" for e
    using that dec unfolding es_def by auto
  have set_es: "set es = {e \<in> log_of (view s). le_ID e = nid \<and> c + 1 \<le> le_Clock e}"
  proof -
    have "e \<in> set es \<longleftrightarrow> entry_wf e \<and> entry_bytes e \<in> fst ` set ?I" for e
      using map_es wf by (metis (no_types, lifting) entry_bytes_inject image_iff image_set list.set_map)
    also have "\<dots> e \<longleftrightarrow> e \<in> log_of (view s) \<and> le_ID e = nid \<and> c + 1 \<le> le_Clock e" for e
      using nid by (auto simp: iterate_set image_iff log_of_def entry_has_node_prefix start_key_le_entry)
    finally show ?thesis by blast
  qed
  have sorted: "sorted_wrt (\<lambda>e f. le_Clock e < le_Clock f) es"
  proof -
    have "sorted_wrt (<) (map entry_bytes es)"
      using iterate_sorted map_es by metis
    then have "sorted_wrt (\<lambda>e f. entry_bytes e < entry_bytes f) es" by (simp add: sorted_wrt_map)
    then show ?thesis
    proof (rule sorted_wrt_mono_rel [rotated])
      fix e f assume e: "e \<in> set es" and f: "f \<in> set es" and "entry_bytes e < entry_bytes f"
      moreover from this have "le_Clock e \<noteq> le_Clock f"
        using log set_es unfolding log_ok_def by fastforce
      ultimately show "le_Clock e < le_Clock f"
        using entry_bytes_less [of e f] set_es by auto
    qed
  qed
  have rec: "record_of (db_proto D) (view s) (le_KeyHash e) \<noteq> None" if "e \<in> set es" for e
  proof -
    from that set_es have e: "e \<in> log_of (view s)" by simp
    have "view s (le_KeyHash e) \<noteq> None" by (rule log_okD(1) [OF log e])
    with log_of_lengths [OF e] obtain r where "record_of (db_proto D) (view s) (le_KeyHash e) = Some r"
      using records_ok_lookup [OF records] by metis
    then show ?thesis by simp
  qed
  have "findResponseEntries D nid c s =
      Inr (map (response_of (db_proto D) (view s)) (take_limit (cfg_ReplicationLimit (db_config D)) es))"
    unfolding findResponseEntries_def take_limit_def
    by (subst find_entries_loop_ok [OF _ map_es]) (use wf rec in auto)
  with sorted set_es that show thesis by blast
qed

lemma buildRequestEntries_ok:
  assumes "clocks_ok (view s)"
  obtains req where "buildRequestEntries D s = Inr req"
    and "\<And>nid c. \<lparr>rq_NodeId = nid, rq_Clock = c\<rparr> \<in> set req \<longleftrightarrow>
      clock_of (view s) nid = Some c \<and> nid \<noteq> cfg_ID (db_config D)"
    and "distinct (map rq_NodeId req)"
proof -
  let ?me = "cfg_ID (db_config D)"
  obtain m where m: "readAvailableClocks (db_engine D) s = Inr m"
    "\<And>nid. map_of m nid = clock_of (view s) nid" "distinct (map fst m)"
    using readAvailableClocks_ok [OF assms] by blast
  let ?m = "AList.delete ?me m"
  have d: "distinct (map fst ?m)" using m(3) by (rule distinct_delete)
  have s: "set (db_range D ?m) = set ?m"
    using range_perm [of ?m] by (metis set_mset_mset)
  have dr: "distinct (map fst (db_range D ?m))"
    using range_perm [of ?m] d by (metis mset_map mset_eq_imp_distinct_iff)
  show thesis
  proof (rule that)
    show "buildRequestEntries D s =
        Inr (map (\<lambda>(nid, c). \<lparr>rq_NodeId = nid, rq_Clock = c\<rparr>) (db_range D ?m))"
      by (simp add: buildRequestEntries_def m(1))
    show "\<lparr>rq_NodeId = nid, rq_Clock = c\<rparr> \<in> set (map (\<lambda>(nid, c). \<lparr>rq_NodeId = nid, rq_Clock = c\<rparr>) (db_range D ?m))
        \<longleftrightarrow> clock_of (view s) nid = Some c \<and> nid \<noteq> ?me" for nid c
    proof -
      have "(nid, c) \<in> set ?m \<longleftrightarrow> clock_of (view s) nid = Some c \<and> nid \<noteq> ?me"
        by (simp add: map_of_eq_Some_iff [OF d, symmetric] delete_conv' m(2))
      then show ?thesis by (force simp: s image_iff)
    qed
    show "distinct (map rq_NodeId (map (\<lambda>(nid, c). \<lparr>rq_NodeId = nid, rq_Clock = c\<rparr>) (db_range D ?m)))"
      using dr by (simp add: case_prod_beta comp_def)
  qed
qed

end

end
