(* ===== verification/Store_Batch.thy ===== *)
theory Store_Batch
  imports Store_Ops
begin

section \<open>Inserting a replication response, opening the store\<close>

text \<open>
  \<open>insertResponseEntries\<close> inserts a whole response in one transaction.  The lemmas say what it
  makes of the records, the clocks and the log, that it keeps the invariant, and, when the engine
  does not fail, when it succeeds.  The last part is about \<open>OpenDB\<close>.
\<close>

text \<open>A response entry as the code that sends it builds it, with an unexpired record.\<close>

definition response_ok :: "(u64 \<Rightarrow> bool) \<Rightarrow> response_entry \<Rightarrow> bool" where
  "response_ok live e \<longleftrightarrow> length (rs_NodeId e) = 32 \<and> plain_hash (rs_EncryptionKeyHash e)
     \<and> int64_ok (pb_ExpiresAtUnix (rs_Record e)) \<and> live (expiry (rs_Record e))"

text \<open>The log entries that inserting response entries of one node writes, from clock \<open>c\<close> on.\<close>

fun number_entries :: "clock \<Rightarrow> response_entry list \<Rightarrow> log_entry list" where
  "number_entries c [] = []"
| "number_entries c (e # es) =
     \<lparr>le_ID = rs_NodeId e, le_Clock = c + 1, le_KeyHash = rs_EncryptionKeyHash e,
      le_State = pb_State (rs_Record e)\<rparr> # number_entries (c + 1) es"

definition node_log :: "(bytes \<Rightarrow> bytes option) \<Rightarrow> node_id \<Rightarrow> log_entry set" where
  "node_log V a = {e \<in> log_of V. le_ID e = a}"

definition of_node :: "node_id \<Rightarrow> response_entry list \<Rightarrow> response_entry list" where
  "of_node a es = filter (\<lambda>e. rs_NodeId e = a) es"

definition room :: "(bytes \<Rightarrow> bytes option) \<Rightarrow> response_entry list \<Rightarrow> bool" where
  "room V es \<longleftrightarrow> (\<forall>a. length a = 32 \<longrightarrow> unat (clock0 V a) + length es < 2 ^ 64)"

lemma of_node_simps [simp]:
  "of_node a [] = []"
  "of_node a (e # es) = (if rs_NodeId e = a then e # of_node a es else of_node a es)"
  by (simp_all add: of_node_def)

lemma unat_add_one: "unat (c :: u64) + 1 < 2 ^ 64 \<Longrightarrow> unat (c + 1) = unat c + 1"
  by (simp add: unat_word_ariths)

lemma add_one_nonzero: "unat (c :: u64) + 1 < 2 ^ 64 \<Longrightarrow> c + 1 \<noteq> 0"
  using unat_add_one [of c] by (metis add_is_0 unsigned_0 zero_neq_one)

lemma clock0_inserted:
  assumes "length nid = 32" and "length kh = 32" and "length a = 32"
  shows "clock0 (inserted live nid kh r m V) a = (if a = nid then clock0 V nid + 1 else clock0 V a)"
  using assms by (simp add: clock0_def inserted_clock)

lemma room_inserted:
  assumes "room V (e # es)" and "length nid = 32" and "length kh = 32"
  shows "room (inserted live nid kh r m V) es"
  unfolding room_def
proof (intro allI impI)
  fix a :: bytes assume a: "length a = 32"
  have n: "unat (clock0 V nid) + 1 + length es < 2 ^ 64"
    using assms(1,2) unfolding room_def by fastforce
  have "unat (clock0 V nid + 1) = unat (clock0 V nid) + 1"
    by (rule unat_add_one) (use n in linarith)
  moreover have "unat (clock0 V a) + 1 + length es < 2 ^ 64"
    using assms(1) a unfolding room_def by fastforce
  ultimately show "unat (clock0 (inserted live nid kh r m V) a) + length es < 2 ^ 64"
    using n assms(2,3) a by (simp add: clock0_inserted)
qed

lemma room_no_wrap: "room V (e # es) \<Longrightarrow> length a = 32 \<Longrightarrow> clock0 V a + 1 \<noteq> 0"
  using add_one_nonzero [of "clock0 V a"] unfolding room_def by fastforce

lemma node_log_inserted:
  assumes "length nid = 32" and "length kh = 32" and "live (expiry r)"
  shows "node_log (inserted live nid kh r m V) a =
    (if a = nid then insert (next_entry V nid kh r) (node_log V a) else node_log V a)"
  using assms by (auto simp: node_log_def inserted_log)

lemma record_of_inserted:
  assumes "can_insert P live V nid kh r m" and "live (expiry r)" and "length k = 32"
  shows "record_of P (inserted live nid kh r m V) k = (if k = kh then Some r else record_of P V k)"
  using can_insertD [OF assms(1)] assms(2,3)
  by (auto simp: record_of_def inserted_record inserted_record_other)

context badger_db
begin

lemma insert_loop_step:
  assumes "insert_response_loop D (e # es) s = (None, t)" and "response_ok live e"
    and "store_ok (db_proto D) live (view s)" and "room (view s) (e # es)"
  obtains u m where "can_insert (db_proto D) live (view s) (rs_NodeId e) (rs_EncryptionKeyHash e) (rs_Record e) m"
    and "view u = inserted live (rs_NodeId e) (rs_EncryptionKeyHash e) (rs_Record e) m (view s)"
    and "insert_response_loop D es u = (None, t)"
proof -
  have len: "length (rs_NodeId e) = 32" "length (rs_EncryptionKeyHash e) = 32"
    and ok: "plain_hash (rs_EncryptionKeyHash e)" "int64_ok (pb_ExpiresAtUnix (rs_Record e))"
    using assms(2) by (simp_all add: response_ok_def)
  obtain u where i: "InsertRecord D (rs_NodeId e) (rs_EncryptionKeyHash e) (rs_Record e) s = (None, u)"
    and rest: "insert_response_loop D es u = (None, t)"
    using assms(1) len by (auto split: prod.splits option.splits)
  from InsertRecord_can_insert [OF i assms(3) len(1) ok room_no_wrap [OF assms(4) len(1)]] rest that
  show thesis by blast
qed

text \<open>What a successful batch did.\<close>

lemma insert_loop_ok:
  assumes "insert_response_loop D es s = (None, t)" and "\<forall>e \<in> set es. response_ok live e"
    and "store_ok (db_proto D) live (view s)" and "room (view s) es"
  shows "store_ok (db_proto D) live (view t)
    \<and> (\<forall>a. length a = 32 \<longrightarrow>
        clock0 (view t) a = clock0 (view s) a + of_nat (length (of_node a es))
        \<and> node_log (view t) a = node_log (view s) a
            \<union> set (number_entries (clock0 (view s) a) (of_node a es)))
    \<and> (\<forall>k r. length k = 32 \<longrightarrow> record_of (db_proto D) (view s) k = Some r \<longrightarrow>
        record_of (db_proto D) (view t) k = Some r)
    \<and> (\<forall>e \<in> set es. record_of (db_proto D) (view t) (rs_EncryptionKeyHash e) = Some (rs_Record e)
        \<and> pb_State (rs_Record e) = CREATED)"
  using assms
proof (induction es arbitrary: s)
  case (Cons e es)
  let ?n = "rs_NodeId e" and ?k = "rs_EncryptionKeyHash e" and ?r = "rs_Record e"
  have e: "response_ok live e" and es: "\<forall>e \<in> set es. response_ok live e" using Cons.prems(2) by auto
  then have live: "live (expiry ?r)" and len: "length ?n = 32" "length ?k = 32"
    by (simp_all add: response_ok_def)
  from insert_loop_step [OF Cons.prems(1) e Cons.prems(3,4)] obtain u m
    where I: "can_insert (db_proto D) live (view s) ?n ?k ?r m"
    and u: "view u = inserted live ?n ?k ?r m (view s)"
    and rest: "insert_response_loop D es u = (None, t)" by blast
  have su: "store_ok (db_proto D) live (view u)" using inserted_ok [OF I] u by simp
  have ru: "room (view u) es" using room_inserted [OF Cons.prems(4) len] u by simp
  note IH = Cons.IH [OF rest es su ru]
  have rec: "record_of (db_proto D) (view u) k = (if k = ?k then Some ?r else record_of (db_proto D) (view s) k)"
    if "length k = 32" for k
    using record_of_inserted [OF I live that] u by simp
  have keep: "record_of (db_proto D) (view t) k = Some r"
    if k: "length k = 32" and r: "record_of (db_proto D) (view s) k = Some r" for k r
  proof -
    have "record_of (db_proto D) (view u) k = Some r"
      using rec [OF k] r can_insertD(8) [OF I] by (auto simp: record_of_def split: if_splits)
    with IH k show ?thesis by blast
  qed
  have first: "record_of (db_proto D) (view t) ?k = Some ?r"
    using IH rec [OF len(2)] len(2) by simp
  have log: "clock0 (view t) a = clock0 (view s) a + of_nat (length (of_node a (e # es)))
      \<and> node_log (view t) a = node_log (view s) a
          \<union> set (number_entries (clock0 (view s) a) (of_node a (e # es)))" if a: "length a = 32" for a
    using IH a
      clock0_inserted [OF len a] node_log_inserted [where live = live, OF len live]
    by (auto simp: u next_entry_def)
  from IH keep first log can_insertD(13) [OF I]
  show ?case by simp
qed simp

end

text \<open>When the engine does not fail, an insert succeeds unless a different record is there.\<close>

context badger_db_total
begin

lemma InsertRecord_total:
  assumes "pb_State r = CREATED" and "pb_marshal (db_proto D) r = Inr m"
    and "view s kh = None \<or> record_of (db_proto D) (view s) kh = Some r"
    and "clocks_ok (view s)" and "length kh = 32"
  shows "\<exists>t. InsertRecord D nid kh r s = (None, t)"
proof -
  have ins: "InsertRecord D nid kh r s = insert_entries D nid kh r s"
    using assms not_Nil_32 [OF assms(5)]
    by (cases "view s kh") (auto simp: InsertRecord_def get_some get_none record_of_def
        recordsEqual_def split: sum.splits)
  obtain c s1 where c: "advanceClock (db_engine D) nid s = (Inr c, s1)"
  proof (cases "view s (makeClockKey nid)")
    case None
    obtain t where "tx_set (db_engine D) s (makeClockKey nid) (clock_bytes (0 + 1)) 0 = (None, t)"
      using set_totalE [OF keys_not_Nil(1)] by metis
    with None that show thesis by (simp add: advanceClock_def get_none Let_def)
  next
    case (Some v)
    then obtain d where d: "clock_set_bytes v = Inr d"
      using clocks_ok_clock_of [OF assms(4)] by blast
    obtain t where "tx_set (db_engine D) s (makeClockKey nid) (clock_bytes (d + 1)) 0 = (None, t)"
      using set_totalE [OF keys_not_Nil(1)] by metis
    with Some d that show thesis by (simp add: advanceClock_def get_some Let_def)
  qed
  obtain s2 where s2: "tx_set (db_engine D) s1 kh m (expiry r) = (None, s2)"
    using set_totalE [OF not_Nil_32 [OF assms(5)]] by metis
  obtain s3 where "tx_set (db_engine D) s2 (entry_bytes \<lparr>le_ID = nid, le_Clock = c,
      le_KeyHash = kh, le_State = pb_State r\<rparr>) [] (expiry r) = (None, s3)"
    using set_totalE [OF keys_not_Nil(2)] by metis
  with c s2 assms(2) show ?thesis
    by (simp add: ins insert_entries_def expiry_def [symmetric] Let_def)
qed

lemma insert_loop_total:
  assumes "\<forall>e \<in> set es. response_ok live e \<and> pb_State (rs_Record e) = CREATED
      \<and> (\<exists>m. pb_marshal (db_proto D) (rs_Record e) = Inr m)
      \<and> (view s (rs_EncryptionKeyHash e) = None
         \<or> record_of (db_proto D) (view s) (rs_EncryptionKeyHash e) = Some (rs_Record e))"
    and "\<forall>e \<in> set es. \<forall>f \<in> set es. rs_EncryptionKeyHash e = rs_EncryptionKeyHash f \<longrightarrow> rs_Record e = rs_Record f"
    and "store_ok (db_proto D) live (view s)" and "room (view s) es"
  shows "\<exists>t. insert_response_loop D es s = (None, t)"
  using assms
proof (induction es arbitrary: s)
  case Nil
  show ?case by simp
next
  case (Cons e es)
  let ?n = "rs_NodeId e" and ?k = "rs_EncryptionKeyHash e" and ?r = "rs_Record e"
  have ok: "response_ok live e" and live: "live (expiry ?r)" and len: "length ?n = 32" "length ?k = 32"
    and int: "int64_ok (pb_ExpiresAtUnix ?r)" and plain: "plain_hash ?k"
    using Cons.prems(1) by (auto simp: response_ok_def)
  have "clocks_ok (view s)" using Cons.prems(3) by (simp add: store_ok_def)
  with Cons.prems(1) len obtain u where u: "InsertRecord D ?n ?k ?r s = (None, u)"
    using InsertRecord_total by fastforce
  from InsertRecord_can_insert [OF u Cons.prems(3) len(1) plain int room_no_wrap [OF Cons.prems(4) len(1)]]
  obtain m where I: "can_insert (db_proto D) live (view s) ?n ?k ?r m"
    and v: "view u = inserted live ?n ?k ?r m (view s)" by blast
  have "\<exists>t. insert_response_loop D es u = (None, t)"
  proof (rule Cons.IH)
    show "store_ok (db_proto D) live (view u)" using inserted_ok [OF I] v by simp
    show "room (view u) es" using room_inserted [OF Cons.prems(4) len] v by simp
    show "\<forall>e \<in> set es. \<forall>f \<in> set es. rs_EncryptionKeyHash e = rs_EncryptionKeyHash f \<longrightarrow> rs_Record e = rs_Record f"
      using Cons.prems(2) by (meson list.set_intros(2))
    show "\<forall>e \<in> set es. response_ok live e \<and> pb_State (rs_Record e) = CREATED
      \<and> (\<exists>m. pb_marshal (db_proto D) (rs_Record e) = Inr m)
      \<and> (view u (rs_EncryptionKeyHash e) = None
         \<or> record_of (db_proto D) (view u) (rs_EncryptionKeyHash e) = Some (rs_Record e))"
    proof
      fix f assume f: "f \<in> set es"
      then have "length (rs_EncryptionKeyHash f) = 32" using Cons.prems(1) by (simp add: response_ok_def)
      moreover have "rs_EncryptionKeyHash f = ?k \<Longrightarrow> rs_Record f = ?r" using Cons.prems(2) f by (meson list.set_intros)
      ultimately show "response_ok live f \<and> pb_State (rs_Record f) = CREATED
        \<and> (\<exists>m. pb_marshal (db_proto D) (rs_Record f) = Inr m)
        \<and> (view u (rs_EncryptionKeyHash f) = None
           \<or> record_of (db_proto D) (view u) (rs_EncryptionKeyHash f) = Some (rs_Record f))"
        using Cons.prems(1) f record_of_inserted [OF I live] len
        by (cases "rs_EncryptionKeyHash f = ?k") (simp_all add: v inserted_record_other)
    qed
  qed
  with u len show ?case by simp
qed

end

subsection \<open>Opening the store\<close>

context badger_db
begin

lemma checkFirstStart_ok:
  "checkFirstStart D s = None \<longleftrightarrow> cfg_FirstStart (db_config D) \<or> view s nodeIDKey \<noteq> None"
  by (cases "view s nodeIDKey") (auto simp: checkFirstStart_def get_some get_none)

lemma prepare_ok:
  assumes "prepare D s = Some (None, t)"
  shows "view s nodeIDKey = Some (cfg_ID (db_config D)) \<and> view t = view s
    \<or> view s nodeIDKey = None \<and> view t = (view s)(nodeIDKey \<mapsto> cfg_ID (db_config D))"
proof (cases "view s nodeIDKey")
  case None
  obtain r u where u: "tx_set (db_engine D) s nodeIDKey (cfg_ID (db_config D)) 0 = (r, u)" by fastforce
  with assms None show ?thesis
    by (auto simp: prepare_def prepare_txn_def get_none db_update_def set_view0 commit_view
        split: option.splits prod.splits)
next
  case (Some v)
  with assms show ?thesis
    by (auto simp: prepare_def prepare_txn_def get_some db_update_def commit_view
        split: option.splits prod.splits if_splits)
qed

lemma prepare_wrong_id:
  assumes "view s nodeIDKey = Some v" and "v \<noteq> cfg_ID (db_config D)"
  obtains e where "prepare D s = Some (Some e, s)" and "has_class WrongNodeID e"
  using assms that by (simp add: prepare_def prepare_txn_def get_some db_update_def)

lemma prepare_returns: "prepare D s \<noteq> None"
  by (cases "view s nodeIDKey")
    (auto simp: prepare_def prepare_txn_def get_some get_none split: prod.splits)

end

end
