(* ===== verification/Node.thy ===== *)
theory Node
  imports Store_Batch
begin

section \<open>The node, its peers and its administration (pkg/auth/badgerauth)\<close>

text \<open>
  The services around the store: the replication service and the peers of node.go, the
  administration service of admin.go and the error names of errorname.go.

  What crosses the network is an argument: a peer is dialled to an error or to a \<open>client\<close>, the
  three calls of the replication service as the peer answers them.  An error status made with
  \<open>rpcstatus.Error\<close> carries a code and a text, not the error it was made from.  Logging and metrics
  have no effect on the state and are left out.
\<close>

subsection \<open>Error statuses and names\<close>

definition rpc_status :: "rpc_code \<Rightarrow> err" where
  "rpc_status c = Rpc c (Message ''rpcstatus'')"

definition errToRPCStatusErr :: "err option \<Rightarrow> err option" where
  "errToRPCStatusErr e =
     (case e of
        None \<Rightarrow> None
      | Some x \<Rightarrow>
          Some (if has_class ProtoError x \<or> has_class KeyHashError x
                   \<or> is_err (Badger ErrInvalidKey) x \<or> is_err (Badger ErrBannedKey) x
                   \<or> is_err (Badger ErrEmptyKey) x
                then rpc_status RpcInvalidArgument
                else if is_err (Badger ErrKeyNotFound) x then rpc_status RpcNotFound
                else rpc_status RpcInternal))"

definition sentinel_names :: "(sentinel \<times> string) list" where
  "sentinel_names =
    [(KeyAlreadyExists, ''KeyAlreadyExists''),
     (OperationNotSupported, ''OperationNotSupported''),
     (KeyAlreadyExistsRecordsNotEqual, ''KeyAlreadyExistsRecordsNotEqual''),
     (Badger ErrKeyNotFound, ''KeyNotFound''), (Badger ErrValueLogSize, ''ValueLogSize''),
     (Badger ErrTxnTooBig, ''TxnTooBig''), (Badger ErrConflict, ''Conflict''),
     (Badger ErrReadOnlyTxn, ''ReadonlyTxn''), (Badger ErrDiscardedTxn, ''DiscardedTxn''),
     (Badger ErrEmptyKey, ''EmptyKey''), (Badger ErrInvalidKey, ''InvalidKey''),
     (Badger ErrBannedKey, ''BannedKey''), (Badger ErrThresholdZero, ''ThresholdZero''),
     (Badger ErrNoRewrite, ''NoRewrite''), (Badger ErrRejected, ''Rejected''),
     (Badger ErrInvalidRequest, ''InvalidRequest''), (Badger ErrManagedTxn, ''ManagedTxn''),
     (Badger ErrNamespaceMode, ''NamespaceMode''), (Badger ErrInvalidDump, ''InvalidDump''),
     (Badger ErrZeroBandwidth, ''ZeroBandwidth''),
     (Badger ErrWindowsNotSupported, ''WindowsNotSupported''),
     (Badger ErrPlan9NotSupported, ''Plan9NotSupported''),
     (Badger ErrTruncateNeeded, ''TruncateNeeded''), (Badger ErrBlockedWrites, ''BlockedWrites''),
     (Badger ErrNilCallback, ''NilCallback''),
     (Badger ErrEncryptionKeyMismatch, ''EncryptionKeyMismatch''),
     (Badger ErrInvalidDataKeyID, ''InvalidDataKeyID''),
     (Badger ErrInvalidEncryptionKey, ''InvalidEncryptionKey''),
     (Badger ErrGCInMemoryMode, ''GCInMemoryMode''), (Badger ErrDBClosed, ''DBClosed'')]"

fun first_name :: "(sentinel \<times> string) list \<Rightarrow> err \<Rightarrow> string" where
  "first_name [] e = []"
| "first_name ((t, n) # ns) e = (if is_err t e then n else first_name ns e)"

lemma unwrap_size [termination_simp]: "unwrap e = Some e' \<Longrightarrow> size e' < size e"
  by (cases e) (auto split: list.splits)

text \<open>\<open>errorName\<close> returns \<open>name, len(name) > 0\<close>: the empty name is "not ok".\<close>

function errorName :: "err \<Rightarrow> string" where
  "errorName e =
     (let sub = (case unwrap e of
                   None \<Rightarrow> []
                 | Some x \<Rightarrow> (let n = errorName x in if n = [] then [] else '':'' @ n))
      in if has_class KeyHashError e then ''KeyHash''
         else if has_class InvalidRecord e then ''InvalidRecord''
         else if has_class ProtoError e then ''Proto''
         else if has_class ReplicationLogError e then ''ReplicationLog'' @ sub
         else if has_class ClockError e then ''Clock'' @ sub
         else if has_class NodeIDError e then ''NodeID'' @ sub
         else first_name sentinel_names e)"
  by pat_completeness auto
termination
  by (relation "measure size") (auto simp: unwrap_size)

declare errorName.simps [simp del]

subsection \<open>Admin\<close>

definition InvalidateRecord :: "'s db \<Rightarrow> (nat \<Rightarrow> err option) \<Rightarrow> time \<Rightarrow> bytes \<Rightarrow> string \<Rightarrow> 's
    \<Rightarrow> (err option \<times> 's) option" where
  "InvalidateRecord D ctx now key reason s =
     (if reason = [] then Some (Some (rpc_status RpcInvalidArgument), s)
      else case key_hash_set_bytes key of
        Inl e \<Rightarrow> Some (errToRPCStatusErr (Some e), s)
      | Inr keyHash \<Rightarrow>
          map_option (\<lambda>(e, t). (errToRPCStatusErr e, t))
            (updateRecord D ctx keyHash
               (\<lambda>r. r\<lparr>pb_InvalidatedAtUnix := unix now, pb_InvalidationReason := reason\<rparr>) s))"

definition UnpublishRecord :: "'s db \<Rightarrow> (nat \<Rightarrow> err option) \<Rightarrow> bytes \<Rightarrow> 's \<Rightarrow> (err option \<times> 's) option" where
  "UnpublishRecord D ctx key s =
     (case key_hash_set_bytes key of
        Inl e \<Rightarrow> Some (errToRPCStatusErr (Some e), s)
      | Inr keyHash \<Rightarrow>
          map_option (\<lambda>(e, t). (errToRPCStatusErr e, t))
            (updateRecord D ctx keyHash (\<lambda>r. r\<lparr>pb_Public := False\<rparr>) s))"

definition DeleteRecord :: "'s db \<Rightarrow> (nat \<Rightarrow> err option) \<Rightarrow> bytes \<Rightarrow> 's \<Rightarrow> (err option \<times> 's) option" where
  "DeleteRecord D ctx key s =
     (case key_hash_set_bytes key of
        Inl e \<Rightarrow> Some (errToRPCStatusErr (Some e), s)
      | Inr keyHash \<Rightarrow>
          map_option (\<lambda>(e, t). (errToRPCStatusErr e, t)) (deleteRecord D ctx keyHash s))"

subsection \<open>The replication service\<close>

definition node_Ping :: "'s db \<Rightarrow> bytes" where
  "node_Ping D = cfg_ID (db_config D)"

definition node_Peek :: "'s db \<Rightarrow> bytes \<Rightarrow> 's \<Rightarrow> err + pb_record" where
  "node_Peek D key s =
     (case key_hash_set_bytes key of
        Inl e \<Rightarrow> Inl (the (errToRPCStatusErr (Some e)))
      | Inr kh \<Rightarrow>
          (case lookupRecord D kh s of
             Inl e \<Rightarrow> Inl (the (errToRPCStatusErr (Some e)))
           | Inr r \<Rightarrow> Inr r))"

text \<open>\<open>Replicate\<close>: \<open>ctx i\<close> is what the context says before the \<open>i\<close>-th request entry.\<close>

fun replicate_loop :: "'s db \<Rightarrow> (nat \<Rightarrow> err option) \<Rightarrow> nat \<Rightarrow> request_entry list \<Rightarrow> 's
    \<Rightarrow> err + response_entry list" where
  "replicate_loop D ctx i [] s = Inr []"
| "replicate_loop D ctx i (reqEntry # reqs) s =
     (case ctx i of
        Some e \<Rightarrow> Inl (rpc_status RpcCanceled)
      | None \<Rightarrow>
          (case node_id_set_bytes (rq_NodeId reqEntry) of
             Inl e \<Rightarrow> Inl (rpc_status RpcInvalidArgument)
           | Inr nid \<Rightarrow>
               (case findResponseEntries D nid (rq_Clock reqEntry) s of
                  Inl e \<Rightarrow> Inl (rpc_status RpcInternal)
                | Inr entries \<Rightarrow>
                    (case replicate_loop D ctx (Suc i) reqs s of
                       Inl e \<Rightarrow> Inl e
                     | Inr response \<Rightarrow> Inr (entries @ response)))))"

definition node_Replicate :: "'s db \<Rightarrow> (nat \<Rightarrow> err option) \<Rightarrow> request_entry list \<Rightarrow> 's
    \<Rightarrow> err + response_entry list" where
  "node_Replicate D ctx reqs s = replicate_loop D ctx 0 reqs s"

subsection \<open>Peers\<close>

record peer_status =
  ps_Address :: string
  ps_NodeID :: node_id
  ps_LastUpdated :: time
  ps_LastWasUp :: bool
  ps_LastError :: "err option"
  ps_Clock :: clock

record peer =
  pr_address :: string
  pr_ensuredClock :: bool
  pr_status :: peer_status

record client =
  cl_Ping :: "err + bytes"
  cl_Peek :: "bytes \<Rightarrow> err + pb_record"
  cl_Replicate :: "request_entry list \<Rightarrow> err + response_entry list"

definition NewPeer :: "string \<Rightarrow> peer" where
  "NewPeer address =
     \<lparr>pr_address = address, pr_ensuredClock = False,
      pr_status = \<lparr>ps_Address = address, ps_NodeID = replicate 32 NUL, ps_LastUpdated = 0,
                   ps_LastWasUp = False, ps_LastError = None, ps_Clock = 0\<rparr>\<rparr>"

definition changeStatus :: "(peer_status \<Rightarrow> peer_status) \<Rightarrow> peer \<Rightarrow> peer" where
  "changeStatus fn p = p\<lparr>pr_status := fn (pr_status p)\<rparr>"

definition statusUp :: "time \<Rightarrow> peer \<Rightarrow> peer" where
  "statusUp now =
     changeStatus (\<lambda>st. st\<lparr>ps_LastUpdated := now, ps_LastWasUp := True, ps_LastError := None\<rparr>)"

definition statusDown :: "time \<Rightarrow> err \<Rightarrow> peer \<Rightarrow> peer" where
  "statusDown now e =
     changeStatus (\<lambda>st. st\<lparr>ps_LastUpdated := now, ps_LastWasUp := False, ps_LastError := Some e\<rparr>)"

definition withClient :: "time \<Rightarrow> err + client \<Rightarrow> peer
    \<Rightarrow> (client \<Rightarrow> peer \<Rightarrow> (err option \<times> peer \<times> 's) option) \<Rightarrow> 's
    \<Rightarrow> (err option \<times> peer \<times> 's) option" where
  "withClient now dialled p fn s =
     (case dialled of
        Inl e \<Rightarrow> Some (Some (wrap DialError e), statusDown now e p, s)
      | Inr cl \<Rightarrow> fn cl p)"

text \<open>\<open>Peer.Peek\<close> does not touch the store.\<close>

definition peer_Peek :: "err + client \<Rightarrow> key_hash \<Rightarrow> err + pb_record" where
  "peer_Peek dialled keyHash =
     (case dialled of
        Inl e \<Rightarrow> Inl (wrap DialError e)
      | Inr cl \<Rightarrow> wrap_res BadgerauthError (cl_Peek cl keyHash))"

definition pingClient :: "'s db \<Rightarrow> (nat \<Rightarrow> err option) \<Rightarrow> time \<Rightarrow> client \<Rightarrow> peer \<Rightarrow> 's
    \<Rightarrow> (bool \<times> err option \<times> peer \<times> 's) option" where
  "pingClient D ctx now cl p s =
     (case cl_Ping cl of
        Inl e \<Rightarrow> Some (False, None, statusDown now e p, s)
      | Inr v \<Rightarrow>
          (case node_id_set_bytes v of
             Inl e \<Rightarrow> Some (False, None, statusDown now e p, s)
           | Inr clientID \<Rightarrow>
               let p1 = statusUp now p
               in if clientID = cfg_ID (db_config D)
                  then Some (False, Some (Classed BadgerauthError (Message ''started with the same node ID'')), p1, s)
                  else if \<not> pr_ensuredClock p1
                  then (case db_ensureClock D ctx clientID s of
                          None \<Rightarrow> None
                        | Some (Some e, t) \<Rightarrow> Some (False, Some (badgerauth_msg ''ensure clock'' e), p1, t)
                        | Some (None, t) \<Rightarrow> Some (True, None, p1\<lparr>pr_ensuredClock := True\<rparr>, t))
                  else Some (True, None, p1, s)))"

definition syncRecords :: "'s db \<Rightarrow> (nat \<Rightarrow> err option) \<Rightarrow> client \<Rightarrow> 's \<Rightarrow> (err option \<times> 's) option" where
  "syncRecords D ctx cl s =
     (case buildRequestEntries D s of
        Inl e \<Rightarrow> Some (None, s)
      | Inr requestEntries \<Rightarrow>
          (case cl_Replicate cl requestEntries of
             Inl e \<Rightarrow> Some (None, s)
           | Inr response \<Rightarrow>
               (case insertResponseEntries D ctx response s of
                  None \<Rightarrow> None
                | Some (e, t) \<Rightarrow> Some (None, t))))"

definition peer_Sync :: "'s db \<Rightarrow> (nat \<Rightarrow> err option) \<Rightarrow> time \<Rightarrow> err + client \<Rightarrow> peer \<Rightarrow> 's
    \<Rightarrow> (err option \<times> peer \<times> 's) option" where
  "peer_Sync D ctx now dialled p s =
     withClient now dialled p
       (\<lambda>cl p. case pingClient D ctx now cl p s of
           None \<Rightarrow> None
         | Some (ok, Some e, p1, t) \<Rightarrow> Some (Some e, p1, t)
         | Some (ok, None, p1, t) \<Rightarrow>
             if \<not> ok then Some (None, p1, t)
             else (case syncRecords D ctx cl t of
                     None \<Rightarrow> None
                   | Some (e, u) \<Rightarrow> Some (e, p1, u))) s"

definition IgnoreDialFailures :: "err option \<Rightarrow> err option" where
  "IgnoreDialFailures e =
     (case e of None \<Rightarrow> None | Some x \<Rightarrow> if has_class DialError x then None else Some x)"

text \<open>\<open>syncAll\<close> visits the peers in order; \<open>dial\<close> is what dialling an address gives.\<close>

fun syncAll :: "'s db \<Rightarrow> (nat \<Rightarrow> err option) \<Rightarrow> time \<Rightarrow> (string \<Rightarrow> err + client) \<Rightarrow> peer list \<Rightarrow> 's
    \<Rightarrow> (err option \<times> peer list \<times> 's) option" where
  "syncAll D ctx now dial [] s = Some (None, [], s)"
| "syncAll D ctx now dial (p # ps) s =
     (case peer_Sync D ctx now (dial (pr_address p)) p s of
        None \<Rightarrow> None
      | Some (e, p', t) \<Rightarrow>
          (case IgnoreDialFailures e of
             Some x \<Rightarrow> Some (Some (wrap BadgerauthError x), p' # ps, t)
           | None \<Rightarrow>
               (case syncAll D ctx now dial ps t of
                  None \<Rightarrow> None
                | Some (x, ps', u) \<Rightarrow> Some (x, p' # ps', u))))"

subsection \<open>Node.Get\<close>

text \<open>
  When the record is not here all peers are asked at once, and the first record to arrive is the
  answer: \<open>answers\<close> are the results of the peers in the order in which they arrive.
\<close>

fun first_answer :: "(err + pb_record) list \<Rightarrow> pb_record option" where
  "first_answer [] = None"
| "first_answer (Inl e # rs) = first_answer rs"
| "first_answer (Inr r # rs) = Some r"

definition node_Get :: "'s db \<Rightarrow> (err + pb_record) list \<Rightarrow> key_hash \<Rightarrow> 's \<Rightarrow> err + auth_record option" where
  "node_Get D answers keyHash s =
     (case Get D keyHash s of
        Inl e \<Rightarrow> Inl e
      | Inr (Some r) \<Rightarrow> Inr (Some r)
      | Inr None \<Rightarrow> Inr (map_option to_auth_record (first_answer answers)))"

end
