(* ===== verification/Sync.thy ===== *)
theory Sync
  imports Node
begin

section \<open>Two nodes: what one synchronisation achieves\<close>

text \<open>
  The peer of a node is another node: \<open>client_of\<close> answers the three calls of the replication
  service with the other node's own methods, run on its state.  The lemmas follow one
  \<open>syncRecords\<close>: the request lists the clocks, the response is the log after them, the insert
  numbers what it receives exactly as the sender did.
\<close>

definition client_of :: "'s db \<Rightarrow> 's \<Rightarrow> client" where
  "client_of E s =
     \<lparr>cl_Ping = Inr (node_Ping E), cl_Peek = (\<lambda>k. node_Peek E k s),
      cl_Replicate = (\<lambda>reqs. node_Replicate E (\<lambda>_. None) reqs s)\<rparr>"

text \<open>The log of a node has an entry at every clock: nothing was deleted and nothing expired.\<close>

definition gap_free :: "(bytes \<Rightarrow> bytes option) \<Rightarrow> node_id \<Rightarrow> bool" where
  "gap_free V a \<longleftrightarrow> (\<forall>c. 0 < c \<longrightarrow> c \<le> clock0 V a \<longrightarrow> (\<exists>e \<in> node_log V a. le_Clock e = c))"

definition log_upto :: "(bytes \<Rightarrow> bytes option) \<Rightarrow> node_id \<Rightarrow> clock \<Rightarrow> log_entry set" where
  "log_upto V a c = {e \<in> node_log V a. le_Clock e \<le> c}"

subsection \<open>Consecutive clocks\<close>

lemma response_of_simps [simp]:
  "rs_NodeId (response_of P V e) = le_ID e"
  "rs_EncryptionKeyHash (response_of P V e) = le_KeyHash e"
  "rs_Record (response_of P V e) = the (record_of P V (le_KeyHash e))"
  by (simp_all add: response_of_def)

lemma number_entries_consecutive:
  assumes "\<forall>i < length es. unat (le_Clock (es ! i)) = Suc (unat c) + i"
    and "\<forall>e \<in> set es. le_State e = CREATED \<and> pb_State (rs_Record (response_of P V e)) = CREATED"
    and "unat c + length es < 2 ^ 64"
  shows "number_entries c (map (response_of P V) es) = es"
  using assms
proof (induction es arbitrary: c)
  case (Cons e es)
  have u: "unat (c + 1) = Suc (unat c)"
    using Cons.prems(3) unat_add_one [of c] by simp
  have "unat (le_Clock e) = unat (c + 1)" using Cons.prems(1) u by auto
  then have "le_Clock e = c + 1" by (metis word_unat_eq_iff)
  moreover have "number_entries (c + 1) (map (response_of P V) es) = es"
    by (rule Cons.IH) (use Cons.prems u in \<open>auto dest: spec [where x = "Suc _"]\<close>)
  ultimately show ?case using Cons.prems(2) by simp
qed simp

lemma sorted_clocks_upt:
  assumes "sorted_wrt (\<lambda>e f. le_Clock e < le_Clock f) es"
    and "(\<lambda>e. unat (le_Clock e)) ` set es = {Suc m ..< Suc n}"
  shows "map (\<lambda>e. unat (le_Clock e)) es = [Suc m ..< Suc n]"
proof (rule strict_sorted_equal)
  show "sorted_wrt (<) (map (\<lambda>e. unat (le_Clock e)) es)"
    using assms(1) by (simp add: sorted_wrt_map word_less_nat_alt)
  show "sorted_wrt (<) [Suc m ..< Suc n]" by (rule sorted_wrt_upt)
  show "set (map (\<lambda>e. unat (le_Clock e)) es) = set [Suc m ..< Suc n]"
    using assms(2) by (simp only: set_map set_upt)
qed

subsection \<open>The response\<close>

context badger_db
begin

lemma finite_log: "logs_ok (view s) \<Longrightarrow> finite (log_of (view s))"
proof -
  let ?I = "tx_iterate (db_engine D) s replicationLogPrefix replicationLogPrefix"
  have "entry_bytes ` log_of (view s) \<subseteq> fst ` set ?I"
    by (auto simp: log_of_def iterate_set image_iff has_prefix_le)
  then have "finite (entry_bytes ` log_of (view s))"
    by (rule finite_subset) simp
  moreover have "inj_on entry_bytes (log_of (view s))"
    by (auto simp: inj_on_def log_of_def entry_bytes_inject)
  ultimately show ?thesis by (rule finite_imageD)
qed

lemma record_of_log:
  assumes "store_ok (db_proto D) live (view s)" and "e \<in> log_of (view s)"
  obtains r where "record_of (db_proto D) (view s) (le_KeyHash e) = Some r" and "rec_ok live r"
proof -
  have "view s (le_KeyHash e) \<noteq> None" "length (le_KeyHash e) = 32"
    using assms log_okD(1) log_of_lengths unfolding store_ok_def by blast+
  then show thesis
    using assms(1) records_ok_lookup that unfolding store_ok_def by blast
qed

end

text \<open>The log of a node after a clock, in order.\<close>

definition later_of :: "(bytes \<Rightarrow> bytes option) \<Rightarrow> node_id \<Rightarrow> clock \<Rightarrow> log_entry list \<Rightarrow> bool" where
  "later_of V a c es \<longleftrightarrow> sorted_wrt (\<lambda>e f. le_Clock e < le_Clock f) es
     \<and> set es = {e \<in> log_of V. le_ID e = a \<and> c + 1 \<le> le_Clock e}"

lemma later_of_distinct: "later_of V a c es \<Longrightarrow> distinct es"
  unfolding later_of_def by (auto simp: distinct_conv_nth sorted_wrt_iff_nth_less) (metis linorder_neqE_nat less_irrefl)

lemma set_take_limit: "set (take_limit l xs) \<subseteq> set xs"
  by (auto simp: take_limit_def dest: in_set_takeD)

lemma take_limit_take: "take_limit l xs = take (length (take_limit l xs)) xs"
  by (auto simp: take_limit_def min_def)

context badger_db
begin

lemma replicate_loop_ok:
  assumes "\<And>a c. length a = 32 \<Longrightarrow> findResponseEntries D a c s = Inr (F a c)"
    and "\<forall>rq \<in> set reqs. length (rq_NodeId rq) = 32"
  shows "replicate_loop D (\<lambda>_. None) i reqs s =
    Inr (concat (map (\<lambda>rq. F (rq_NodeId rq) (rq_Clock rq)) reqs))"
  using assms(2) by (induction reqs arbitrary: i) (simp_all add: assms(1))

text \<open>\<open>Replicate\<close> answers with, for each requested node, the log after the requested clock.\<close>

lemma node_Replicate_ok:
  assumes "store_ok (db_proto D) live (view s)"
  obtains es where "\<And>a c. length a = 32 \<Longrightarrow> later_of (view s) a c (es a c)"
    and "\<And>reqs. \<forall>rq \<in> set reqs. length (rq_NodeId rq) = 32 \<Longrightarrow>
      node_Replicate D (\<lambda>_. None) reqs s =
        Inr (concat (map (\<lambda>rq. map (response_of (db_proto D) (view s))
          (take_limit (cfg_ReplicationLimit (db_config D)) (es (rq_NodeId rq) (rq_Clock rq)))) reqs))"
proof -
  have "\<forall>a c. \<exists>es. length a = 32 \<longrightarrow> later_of (view s) a c es \<and> findResponseEntries D a c s =
      Inr (map (response_of (db_proto D) (view s)) (take_limit (cfg_ReplicationLimit (db_config D)) es))"
  proof (intro allI)
    fix a c
    show "\<exists>es. length a = 32 \<longrightarrow> later_of (view s) a c es \<and> findResponseEntries D a c s =
      Inr (map (response_of (db_proto D) (view s)) (take_limit (cfg_ReplicationLimit (db_config D)) es))"
    proof (cases "length a = 32")
      case True
      from find_ok [OF assms True] obtain es where
        "sorted_wrt (\<lambda>e f. le_Clock e < le_Clock f) es"
        "set es = {e \<in> log_of (view s). le_ID e = a \<and> c + 1 \<le> le_Clock e}"
        "findResponseEntries D a c s = Inr (map (response_of (db_proto D) (view s))
          (take_limit (cfg_ReplicationLimit (db_config D)) es))" .
      then show ?thesis by (auto simp: later_of_def)
    qed simp
  qed
  then obtain es where es: "\<And>a c. length a = 32 \<Longrightarrow> later_of (view s) a c (es a c)"
    "\<And>a c. length a = 32 \<Longrightarrow> findResponseEntries D a c s =
      Inr (map (response_of (db_proto D) (view s)) (take_limit (cfg_ReplicationLimit (db_config D)) (es a c)))"
    by metis
  show thesis
    by (rule that [OF es(1)])
      (simp_all add: node_Replicate_def replicate_loop_ok [where F = "\<lambda>a c. map (response_of (db_proto D) (view s))
        (take_limit (cfg_ReplicationLimit (db_config D)) (es a c))", OF es(2)])
qed

end

subsection \<open>The parts of a response, node by node\<close>

lemma of_node_map_response:
  "\<forall>e \<in> set es. le_ID e = a \<Longrightarrow> of_node a (map (response_of P V) es) = map (response_of P V) es"
  "\<forall>e \<in> set es. le_ID e \<noteq> a \<Longrightarrow> of_node a (map (response_of P V) es) = []"
  by (induction es) simp_all

lemma of_node_append: "of_node a (xs @ ys) = of_node a xs @ of_node a ys"
  by (simp add: of_node_def)

lemma of_node_concat:
  assumes "distinct (map rq_NodeId reqs)" and "rq \<in> set reqs"
    and "\<And>rq. rq \<in> set reqs \<Longrightarrow> \<forall>e \<in> set (es rq). le_ID e = rq_NodeId rq"
  shows "of_node (rq_NodeId rq) (concat (map (\<lambda>rq. map (response_of P V) (es rq)) reqs)) =
    map (response_of P V) (es rq)"
  using assms
proof (induction reqs)
  case (Cons q reqs)
  have *: "of_node a (concat (map (\<lambda>rq. map (response_of P V) (es rq)) rs)) = []"
    if "a \<notin> rq_NodeId ` set rs" "\<And>rq. rq \<in> set rs \<Longrightarrow> \<forall>e \<in> set (es rq). le_ID e = rq_NodeId rq" for a rs
    using that
  proof (induction rs)
    case (Cons p rs)
    then have "of_node a (map (response_of P V) (es p)) = []"
      by (intro of_node_map_response(2)) auto
    with Cons show ?case by (simp add: of_node_append)
  qed simp
  show ?case
  proof (cases "rq = q")
    case True
    with Cons.prems * [of "rq_NodeId rq" reqs] show ?thesis
      by (auto simp: of_node_append of_node_map_response)
  next
    case False
    with Cons.prems have rq: "rq \<in> set reqs" by auto
    with Cons.prems(1) have "rq_NodeId rq \<noteq> rq_NodeId q"
      by (metis distinct.simps(2) image_eqI list.set_map list.simps(9))
    then have "of_node (rq_NodeId rq) (map (response_of P V) (es q)) = []"
      by (intro of_node_map_response(2)) (use Cons.prems(3) [of q] in auto)
    with Cons rq show ?thesis by (auto simp: of_node_append)
  qed
qed simp

lemma length_response_le:
  assumes "finite L" and "distinct (map rq_NodeId reqs)"
    and "\<And>rq. rq \<in> set reqs \<Longrightarrow> distinct (es rq) \<and> (\<forall>e \<in> set (es rq). e \<in> L \<and> le_ID e = rq_NodeId rq)"
  shows "length (concat (map (\<lambda>rq. map (response_of P V) (es rq)) reqs)) \<le> card L"
proof -
  have "distinct (concat (map es reqs)) \<and> set (concat (map es reqs)) \<subseteq> L"
    using assms(2,3)
  proof (induction reqs)
    case (Cons q reqs)
    moreover have "e \<notin> set (concat (map es reqs))" if "e \<in> set (es q)" for e
    proof
      assume "e \<in> set (concat (map es reqs))"
      then obtain rq where "rq \<in> set reqs" "e \<in> set (es rq)" by auto
      with that Cons.prems(2) have "rq_NodeId rq = rq_NodeId q" by (metis list.set_intros)
      with Cons.prems(1) \<open>rq \<in> set reqs\<close> show False by (metis distinct.simps(2) image_eqI list.set_map list.simps(9))
    qed
    ultimately show ?case by auto
  qed simp
  then have "length (concat (map es reqs)) \<le> card L"
    using assms(1) by (metis card_mono distinct_card)
  moreover have "length (concat (map (\<lambda>rq. map (response_of P V) (es rq)) reqs)) = length (concat (map es reqs))"
    by (induction reqs) auto
  ultimately show ?thesis by simp
qed

subsection \<open>The log after a clock, when it has no gaps\<close>

lemma later_consecutive:
  assumes "later_of V a c es" and "log_ok V" and "gap_free V a" and "c \<le> clock0 V a" and "c + 1 \<noteq> 0"
  shows "length es = unat (clock0 V a) - unat c"
    and "\<forall>i < length es. unat (le_Clock (es ! i)) = Suc (unat c) + i"
proof -
  let ?n = "unat (clock0 V a)"
  have c1: "unat (c + 1) = Suc (unat c)"
    using assms(5) by (metis Suc_eq_plus1 add.commute unatSuc)
  have "(\<lambda>e. unat (le_Clock e)) ` set es = {Suc (unat c) ..< Suc ?n}"
  proof (intro set_eqI iffI)
    fix k assume "k \<in> (\<lambda>e. unat (le_Clock e)) ` set es"
    then obtain e where e: "e \<in> log_of V" "le_ID e = a" "c + 1 \<le> le_Clock e" "k = unat (le_Clock e)"
      using assms(1) by (auto simp: later_of_def)
    with log_okD(3) [OF assms(2) e(1)] c1 show "k \<in> {Suc (unat c) ..< Suc ?n}"
      by (simp add: word_le_nat_alt less_Suc_eq_le)
  next
    fix k assume k: "k \<in> {Suc (unat c) ..< Suc ?n}"
    then have "k < 2 ^ 64" using unsigned_less [of "clock0 V a", where ?'a = nat] by simp
    then have u: "unat (of_nat k :: u64) = k" by (simp add: unat_of_nat take_bit_nat_eq_self)
    then have "0 < (of_nat k :: u64)" "(of_nat k :: u64) \<le> clock0 V a"
      using k by (auto simp: word_le_nat_alt word_less_nat_alt)
    then obtain e where e: "e \<in> node_log V a" "le_Clock e = of_nat k"
      using assms(3) unfolding gap_free_def by blast
    then have "e \<in> set es"
      using assms(1) k u c1 by (simp add: later_of_def node_log_def word_le_nat_alt)
    with e u show "k \<in> (\<lambda>e. unat (le_Clock e)) ` set es" by force
  qed
  then have m: "map (\<lambda>e. unat (le_Clock e)) es = [Suc (unat c) ..< Suc ?n]"
    using assms(1) by (intro sorted_clocks_upt) (auto simp: later_of_def)
  then show len: "length es = ?n - unat c"
    by (metis diff_Suc_Suc length_map length_upt)
  show "\<forall>i < length es. unat (le_Clock (es ! i)) = Suc (unat c) + i"
  proof (intro allI impI)
    fix i assume i: "i < length es"
    then have "unat (le_Clock (es ! i)) = [Suc (unat c) ..< Suc ?n] ! i"
      by (metis m nth_map)
    with i len show "unat (le_Clock (es ! i)) = Suc (unat c) + i"
      by (simp del: upt_Suc)
  qed
qed

lemma log_upto_extend:
  assumes "later_of V a c es" and "\<forall>i < length es. unat (le_Clock (es ! i)) = Suc (unat c) + i"
    and "k \<le> length es" and "unat d = unat c + k" and "c + 1 \<noteq> 0"
  shows "log_upto V a c \<union> set (take k es) = log_upto V a d"
proof -
  have c1: "unat (c + 1) = Suc (unat c)"
    using assms(5) by (metis Suc_eq_plus1 add.commute unatSuc)
  have take: "e \<in> set (take k es) \<longleftrightarrow> e \<in> set es \<and> unat (le_Clock e) \<le> unat d" for e
  proof
    assume "e \<in> set (take k es)"
    then obtain i where "i < k" "i < length es" "e = es ! i" by (auto simp: in_set_conv_nth)
    with assms(2,4) show "e \<in> set es \<and> unat (le_Clock e) \<le> unat d" by auto
  next
    assume e: "e \<in> set es \<and> unat (le_Clock e) \<le> unat d"
    then obtain i where "i < length es" "e = es ! i" by (auto simp: in_set_conv_nth)
    moreover from this e assms(2,4) have "i < k" by auto
    ultimately show "e \<in> set (take k es)"
      by (metis in_set_conv_nth length_take min_less_iff_conj nth_take)
  qed
  have later: "e \<in> set es \<longleftrightarrow> e \<in> node_log V a \<and> unat c < unat (le_Clock e)" for e
  proof -
    have "c + 1 \<le> x \<longleftrightarrow> unat c < unat x" for x
      by (simp only: word_le_nat_alt c1 Suc_le_eq)
    with assms(1) show ?thesis unfolding later_of_def node_log_def by simp
  qed
  show ?thesis
    by (rule set_eqI) (use assms(4) in \<open>auto simp: log_upto_def take later word_le_nat_alt\<close>)
qed

subsection \<open>One synchronisation\<close>

text \<open>
  What the receiver needs for a synchronisation to succeed: it can store every record of the
  sender (none differs from the one it has) and its clocks have room.
\<close>

definition can_sync :: "proto \<Rightarrow> proto \<Rightarrow> (bytes \<Rightarrow> bytes option) \<Rightarrow> (bytes \<Rightarrow> bytes option) \<Rightarrow> bool" where
  "can_sync PD PE W V \<longleftrightarrow>
     (\<forall>e \<in> log_of V. \<forall>q. record_of PE V (le_KeyHash e) = Some q \<longrightarrow>
        (\<exists>m. pb_marshal PD q = Inr m)
        \<and> (W (le_KeyHash e) = None \<or> record_of PD W (le_KeyHash e) = Some q))
     \<and> (\<forall>b. length b = 32 \<longrightarrow> unat (clock0 W b) + card (log_of V) + 1 < 2 ^ 64)"

lemma clock_of_length:
  assumes "clocks_ok V" and "clock_of V a = Some c"
  shows "length a = 32"
proof -
  have "V (makeClockKey a) \<noteq> None" using clock_of_SomeD [OF assms(2)] by simp
  then obtain b where "length b = 32" "makeClockKey a = makeClockKey b"
    using assms(1) prefixes_disjoint(3) [of a] unfolding clocks_ok_def by blast
  then show ?thesis by simp
qed

lemma room_response:
  assumes "can_sync PD PE W V" and "length res \<le> card (log_of V)"
  shows "room W res"
  using assms unfolding can_sync_def room_def by fastforce

context badger_db_total
begin

lemma insertResponseEntries_total:
  assumes "insert_response_loop D res r = (None, t)"
  obtains r' where "insertResponseEntries D ctx res r = Some (None, r')" and "view r' = view t"
proof -
  obtain r' where "txn_with_backoff (db_engine D) (cfg_ConflictBackoff (db_config D)) ctx
      (insert_response_loop D res) r = Some (None, r')" "view r' = view t"
    using txn_with_backoff_total [where f = "insert_response_loop D res" and s = r, OF assms] by metis
  then show thesis by (intro that [of r']) (simp_all add: insertResponseEntries_def db_txn_def)
qed

text \<open>Inserting what another well-formed store has in its log succeeds.\<close>

lemma insert_log_total:
  assumes okW: "store_ok (db_proto D) live (view r)" and okV: "store_ok P live V"
    and sync: "can_sync (db_proto D) P (view r) V"
    and es: "\<forall>e \<in> set es. e \<in> log_of V" and len: "length es \<le> card (log_of V)"
    and rec: "\<And>e. e \<in> log_of V \<Longrightarrow> \<exists>q. record_of P V (le_KeyHash e) = Some q \<and> rec_ok live q"
  obtains t where "insert_response_loop D (map (response_of P V) es) r = (None, t)"
    and "\<forall>x \<in> set (map (response_of P V) es). response_ok live x"
    and "room (view r) (map (response_of P V) es)"
proof -
  have each: "response_ok live x \<and> pb_State (rs_Record x) = CREATED
      \<and> (\<exists>m. pb_marshal (db_proto D) (rs_Record x) = Inr m)
      \<and> (view r (rs_EncryptionKeyHash x) = None
         \<or> record_of (db_proto D) (view r) (rs_EncryptionKeyHash x) = Some (rs_Record x))"
    if x: "x \<in> set (map (response_of P V) es)" for x
  proof -
    from x es obtain e where e: "e \<in> log_of V" "x = response_of P V e" by auto
    then obtain q where q: "record_of P V (le_KeyHash e) = Some q" "rec_ok live q" using rec by blast
    have "V (le_KeyHash e) \<noteq> None" using q(1) by (auto simp: record_of_def split: option.splits)
    then have "plain_hash (le_KeyHash e)"
      using store_ok_plain [OF okV] log_of_lengths [OF e(1)] by blast
    then have "response_ok live x"
      using e q log_of_lengths [OF e(1)] rec_ok_expiry [OF q(2) live_0]
      by (simp add: response_ok_def rec_ok_def)
    moreover have "(\<exists>m. pb_marshal (db_proto D) q = Inr m)
        \<and> (view r (le_KeyHash e) = None \<or> record_of (db_proto D) (view r) (le_KeyHash e) = Some q)"
      using sync e(1) q(1) unfolding can_sync_def by blast
    ultimately show ?thesis using e q by (simp add: rec_ok_def)
  qed
  have room: "room (view r) (map (response_of P V) es)"
    by (rule room_response [OF sync]) (simp add: len)
  have "\<exists>t. insert_response_loop D (map (response_of P V) es) r = (None, t)"
    by (rule insert_loop_total [OF _ _ okW room]) (use each in auto)
  with each room that show thesis by blast
qed

end

text \<open>
  The receiver \<open>D\<close> asks the sender \<open>E\<close>.  \<open>es\<close> are the sender's entries for the node \<open>a\<close> that are
  later than the receiver's clock; the response has the first of them up to the limit.
\<close>

lemma sync_response:
  assumes R: "badger_db_total D viewR live" and S: "badger_db E viewS live"
    and okR: "store_ok (db_proto D) live (viewR r)" and okS: "store_ok (db_proto E) live (viewS s)"
    and sync: "can_sync (db_proto D) (db_proto E) (viewR r) (viewS s)"
    and known: "clock_of (viewR r) a = Some c" and other: "a \<noteq> cfg_ID (db_config D)"
  obtains t r' es res where "syncRecords D ctx (client_of E s) r = Some (None, r')"
    and "viewR r' = viewR t"
    and "insert_response_loop D (map (response_of (db_proto E) (viewS s)) res) r = (None, t)"
    and "\<forall>x \<in> set (map (response_of (db_proto E) (viewS s)) res). response_ok live x"
    and "room (viewR r) (map (response_of (db_proto E) (viewS s)) res)"
    and "later_of (viewS s) a c es"
    and "of_node a (map (response_of (db_proto E) (viewS s)) res) =
      map (response_of (db_proto E) (viewS s)) (take_limit (cfg_ReplicationLimit (db_config E)) es)"
    and "set res \<subseteq> log_of (viewS s)"
proof -
  have R1: "badger_db D viewR live" and R2: "badger_txn (db_engine D) viewR live"
    using R by (simp_all add: badger_db_total_def badger_db_def)
  let ?resp = "response_of (db_proto E) (viewS s)" and ?lim = "cfg_ReplicationLimit (db_config E)"
  have clkR: "clocks_ok (viewR r)" using okR by (simp add: store_ok_def)
  obtain req where req: "buildRequestEntries D r = Inr req"
    "\<And>nid c. \<lparr>rq_NodeId = nid, rq_Clock = c\<rparr> \<in> set req \<longleftrightarrow>
      clock_of (viewR r) nid = Some c \<and> nid \<noteq> cfg_ID (db_config D)"
    "distinct (map rq_NodeId req)"
    using badger_db.buildRequestEntries_ok [OF R1 clkR] by metis
  have len: "\<forall>rq \<in> set req. length (rq_NodeId rq) = 32"
  proof
    fix rq assume rq: "rq \<in> set req"
    have "rq = \<lparr>rq_NodeId = rq_NodeId rq, rq_Clock = rq_Clock rq\<rparr>" by simp
    with rq have "\<lparr>rq_NodeId = rq_NodeId rq, rq_Clock = rq_Clock rq\<rparr> \<in> set req" by metis
    then have "clock_of (viewR r) (rq_NodeId rq) = Some (rq_Clock rq)"
      using req(2) [of "rq_NodeId rq" "rq_Clock rq"] by blast
    then show "length (rq_NodeId rq) = 32" by (rule clock_of_length [OF clkR])
  qed
  obtain es where later: "\<And>a c. length a = 32 \<Longrightarrow> later_of (viewS s) a c (es a c)"
    and rep: "\<And>reqs. \<forall>rq \<in> set reqs. length (rq_NodeId rq) = 32 \<Longrightarrow>
      node_Replicate E (\<lambda>_. None) reqs s =
        Inr (concat (map (\<lambda>rq. map ?resp (take_limit ?lim (es (rq_NodeId rq) (rq_Clock rq)))) reqs))"
    by (rule badger_db.node_Replicate_ok [OF S okS]) (rule that)
  define G where "G rq = take_limit ?lim (es (rq_NodeId rq) (rq_Clock rq))" for rq :: request_entry
  define res where "res = concat (map G req)"
  have G: "distinct (G rq) \<and> (\<forall>e \<in> set (G rq). e \<in> log_of (viewS s) \<and> le_ID e = rq_NodeId rq)"
    if "rq \<in> set req" for rq
  proof -
    have l: "later_of (viewS s) (rq_NodeId rq) (rq_Clock rq) (es (rq_NodeId rq) (rq_Clock rq))"
      using later len that by blast
    then have "distinct (G rq)"
      using later_of_distinct unfolding G_def by (metis distinct_take take_limit_take)
    with l set_take_limit show ?thesis unfolding later_of_def G_def by fastforce
  qed
  have map_res: "map ?resp res = concat (map (\<lambda>rq. map ?resp (G rq)) req)"
    unfolding res_def by (induction req) auto
  have fin: "finite (log_of (viewS s))"
    using badger_db.finite_log [OF S] okS by (simp add: store_ok_def)
  have len_res: "length res \<le> card (log_of (viewS s))"
    using length_response_le [OF fin req(3) G] map_res by (metis length_map)
  have set_res: "set res \<subseteq> log_of (viewS s)"
    using G by (auto simp: res_def)
  have rec: "\<exists>q. record_of (db_proto E) (viewS s) (le_KeyHash e) = Some q \<and> rec_ok live q"
    if "e \<in> log_of (viewS s)" for e
    using badger_db.record_of_log [OF S okS that] by metis
  obtain t where t: "insert_response_loop D (map ?resp res) r = (None, t)"
    "\<forall>x \<in> set (map ?resp res). response_ok live x" "room (viewR r) (map ?resp res)"
    using badger_db_total.insert_log_total [OF R okR okS sync _ len_res rec] set_res by blast
  obtain r' where r': "insertResponseEntries D ctx (map ?resp res) r = Some (None, r')" "viewR r' = viewR t"
    using badger_db_total.insertResponseEntries_total [OF R t(1)] by blast
  have "node_Replicate E (\<lambda>_. None) req s = Inr (map ?resp res)"
    using rep [OF len] map_res by (simp add: G_def)
  then have sr: "syncRecords D ctx (client_of E s) r = Some (None, r')"
    using req(1) r'(1) by (simp add: syncRecords_def client_of_def)
  let ?q = "\<lparr>rq_NodeId = a, rq_Clock = c\<rparr>"
  have q: "?q \<in> set req" using req(2) known other by blast
  have "of_node a (map ?resp res) = map ?resp (G ?q)"
    using of_node_concat [OF req(3) q, of G] G map_res by simp
  then have ofn: "of_node a (map ?resp res) = map ?resp (take_limit ?lim (es a c))"
    by (simp add: G_def)
  have "later_of (viewS s) a c (es a c)"
    using later clock_of_length [OF clkR known] by blast
  from that [OF sr r'(2) t this ofn set_res] show thesis .
qed

lemma sync_step:
  assumes R: "badger_db_total D viewR live" and S: "badger_db E viewS live"
    and okR: "store_ok (db_proto D) live (viewR r)" and okS: "store_ok (db_proto E) live (viewS s)"
    and sync: "can_sync (db_proto D) (db_proto E) (viewR r) (viewS s)"
    and known: "clock_of (viewR r) a = Some c" and other: "a \<noteq> cfg_ID (db_config D)"
    and gaps: "gap_free (viewS s) a" and le: "c \<le> clock0 (viewS s) a"
    and same: "node_log (viewR r) a = log_upto (viewS s) a c"
  obtains r' where "syncRecords D ctx (client_of E s) r = Some (None, r')"
    and "store_ok (db_proto D) live (viewR r')"
    and "unat (clock0 (viewR r') a) = unat c +
      (let k = unat (clock0 (viewS s) a) - unat c; l = cfg_ReplicationLimit (db_config E)
       in if l < 0 then k else min k (nat l))"
    and "node_log (viewR r') a = log_upto (viewS s) a (clock0 (viewR r') a)"
    and "\<forall>e \<in> node_log (viewR r') a.
      record_of (db_proto D) (viewR r') (le_KeyHash e) = record_of (db_proto E) (viewS s) (le_KeyHash e)"
proof -
  have R1: "badger_db D viewR live" using R by (simp add: badger_db_total_def)
  let ?resp = "response_of (db_proto E) (viewS s)" and ?lim = "cfg_ReplicationLimit (db_config E)"
  from sync_response [OF R S okR okS sync known other] obtain t r' es res where
    r': "syncRecords D ctx (client_of E s) r = Some (None, r')" "viewR r' = viewR t"
    and ins: "insert_response_loop D (map ?resp res) r = (None, t)"
    "\<forall>x \<in> set (map ?resp res). response_ok live x" "room (viewR r) (map ?resp res)"
    and later: "later_of (viewS s) a c es"
    and ofn: "of_node a (map ?resp res) = map ?resp (take_limit ?lim es)"
    and set_res: "set res \<subseteq> log_of (viewS s)" .
  have clkR: "clocks_ok (viewR r)" and logS: "log_ok (viewS s)"
    using okR okS by (simp_all add: store_ok_def)
  have a: "length a = 32" by (rule clock_of_length [OF clkR known])
  have c: "clock0 (viewR r) a = c" using known by simp
  have bound: "unat c + card (log_of (viewS s)) + 1 < 2 ^ 64"
    using sync a c unfolding can_sync_def by blast
  then have c1: "c + 1 \<noteq> 0" using add_one_nonzero [of c] by simp
  note cons = later_consecutive [OF later logS gaps le c1]
  define k where "k = length (take_limit ?lim es)"
  have take: "take_limit ?lim es = take k es" unfolding k_def by (rule take_limit_take)
  have kle: "k \<le> length es" unfolding k_def take_limit_def by simp
  have kval: "k = (let k = unat (clock0 (viewS s) a) - unat c in if ?lim < 0 then k else min k (nat ?lim))"
    unfolding k_def take_limit_def using cons(1) by simp
  have "unat c + k \<le> unat (clock0 (viewS s) a)"
    using kle cons(1) le by (simp add: word_le_nat_alt)
  then have room64: "unat c + k < 2 ^ 64"
    using unsigned_less [of "clock0 (viewS s) a", where ?'a = nat] by simp
  have upd: "unat (c + of_nat k) = unat c + k"
    using room64 by (simp add: unat_word_ariths unat_of_nat)
  note batch = badger_db.insert_loop_ok [OF R1 ins(1,2) okR ins(3)]
  have clk: "clock0 (viewR t) a = c + of_nat k"
    and log: "node_log (viewR t) a = node_log (viewR r) a
      \<union> set (number_entries c (map ?resp (take k es)))"
    using batch a c ofn kle by (auto simp: take)
  have rec: "\<exists>q. record_of (db_proto E) (viewS s) (le_KeyHash e) = Some q \<and> rec_ok live q"
    if "e \<in> log_of (viewS s)" for e
    using badger_db.record_of_log [OF S okS that] by metis
  have "number_entries c (map ?resp (take k es)) = take k es"
  proof (rule number_entries_consecutive)
    show "\<forall>i < length (take k es). unat (le_Clock (take k es ! i)) = Suc (unat c) + i"
      using cons(2) by simp
    show "unat c + length (take k es) < 2 ^ 64" using room64 kle by simp
    show "\<forall>e \<in> set (take k es). le_State e = CREATED \<and> pb_State (rs_Record (?resp e)) = CREATED"
    proof
      fix e assume "e \<in> set (take k es)"
      then have "e \<in> log_of (viewS s)" using later by (auto simp: later_of_def dest: in_set_takeD)
      with rec log_okD(5) [OF logS] show "le_State e = CREATED \<and> pb_State (rs_Record (?resp e)) = CREATED"
        by (fastforce simp: rec_ok_def)
    qed
  qed
  with log same log_upto_extend [OF later cons(2) kle upd c1]
  have logt: "node_log (viewR t) a = log_upto (viewS s) a (clock0 (viewR t) a)"
    by (simp add: clk)
  have recs: "\<forall>e \<in> node_log (viewR t) a.
      record_of (db_proto D) (viewR t) (le_KeyHash e) = record_of (db_proto E) (viewS s) (le_KeyHash e)"
  proof
    fix e assume e: "e \<in> node_log (viewR t) a"
    then have "e \<in> log_upto (viewS s) a (clock0 (viewR t) a)" by (simp only: logt)
    then have eS: "e \<in> log_of (viewS s)" by (simp add: log_upto_def node_log_def)
    then obtain q where q: "record_of (db_proto E) (viewS s) (le_KeyHash e) = Some q" using rec by blast
    have okt: "store_ok (db_proto D) live (viewR t)" using batch by blast
    have el: "e \<in> log_of (viewR t)" using e by (simp add: node_log_def)
    from badger_db.record_of_log [OF R1 okt el] obtain q' where
      q': "record_of (db_proto D) (viewR t) (le_KeyHash e) = Some q'" .
    show "record_of (db_proto D) (viewR t) (le_KeyHash e) = record_of (db_proto E) (viewS s) (le_KeyHash e)"
    proof (cases "e \<in> log_of (viewR r)")
      case True
      from badger_db.record_of_log [OF R1 okR True] obtain p where
        p: "record_of (db_proto D) (viewR r) (le_KeyHash e) = Some p" .
      then have "viewR r (le_KeyHash e) \<noteq> None" by (auto simp: record_of_def split: option.splits)
      with sync eS q have "record_of (db_proto D) (viewR r) (le_KeyHash e) = Some q"
        unfolding can_sync_def by metis
      with batch log_of_lengths [OF True] q show ?thesis by simp
    next
      case False
      then have "e \<in> set (take k es)"
        using e log \<open>number_entries c (map ?resp (take k es)) = take k es\<close> by (auto simp: node_log_def)
      then have "?resp e \<in> set (of_node a (map ?resp res))" using ofn take by auto
      then have "?resp e \<in> set (map ?resp res)" by (auto simp: of_node_def)
      with batch q show ?thesis by fastforce
    qed
  qed
  show thesis
    by (rule that [OF r'(1)]) (use batch clk upd kval logt recs r'(2) in \<open>simp_all add: Let_def\<close>)
qed

end
