(* ===== verification/Badgerauth.thy ===== *)
theory Badgerauth
  imports Sync
begin

section \<open>The properties of the badgerauth store and of its replication\<close>

text \<open>
  The step relation of one store with its reachable states, and the properties of the store, of
  the administration and of the replication, with their witnesses on the list store.
\<close>

subsection \<open>Every write keeps the invariant\<close>

definition response_wf :: "response_entry \<Rightarrow> bool" where
  "response_wf e \<longleftrightarrow> length (rs_NodeId e) = 32 \<and> plain_hash (rs_EncryptionKeyHash e)
     \<and> int64_ok (pb_ExpiresAtUnix (rs_Record e))"

text \<open>
  A step of the store: one of its writing methods returned.  The side conditions are the ones the
  types and the callers give: fixed lengths, \<open>int64\<close> expiries, and clocks that have not run out.
\<close>

inductive db_step :: "'s db \<Rightarrow> ('s \<Rightarrow> bytes \<Rightarrow> bytes option) \<Rightarrow> 's \<Rightarrow> 's \<Rightarrow> bool" for D view where
  opened: "OpenDB D s = Some (r, s') \<Longrightarrow> db_step D view s s'"
| put: "PutAtTime D ctx kh rec now s = Some (r, s') \<Longrightarrow> plain_hash kh \<Longrightarrow>
    int64_ok (timeToTimestamp (ar_ExpiresAt rec)) \<Longrightarrow>
    clock0 (view s) (cfg_ID (db_config D)) + 1 \<noteq> 0 \<Longrightarrow> db_step D view s s'"
| batch: "insertResponseEntries D ctx es s = Some (r, s') \<Longrightarrow> \<forall>e \<in> set es. response_wf e \<Longrightarrow>
    room (view s) es \<Longrightarrow> db_step D view s s'"
| ensure: "db_ensureClock D ctx nid s = Some (r, s') \<Longrightarrow> length nid = 32 \<Longrightarrow> db_step D view s s'"
| invalidate: "InvalidateRecord D ctx now key reason s = Some (r, s') \<Longrightarrow> db_step D view s s'"
| unpublish: "UnpublishRecord D ctx key s = Some (r, s') \<Longrightarrow> db_step D view s s'"
| remove: "DeleteRecord D ctx key s = Some (r, s') \<Longrightarrow> db_step D view s s'"

inductive db_reach :: "'s db \<Rightarrow> ('s \<Rightarrow> bytes \<Rightarrow> bytes option) \<Rightarrow> 's \<Rightarrow> bool" for D view where
  empty: "view s = Map.empty \<Longrightarrow> db_reach D view s"
| step: "db_reach D view s \<Longrightarrow> db_step D view s s' \<Longrightarrow> db_reach D view s'"

lemma store_ok_empty: "store_ok P live Map.empty"
  by (simp add: store_ok_def clocks_ok_def logs_ok_def records_ok_def log_ok_def log_of_def)

lemma store_ok_upd_nodeIDKey: "store_ok P live V \<Longrightarrow> store_ok P live (V(nodeIDKey \<mapsto> x))"
proof -
  assume ok: "store_ok P live V"
  have log: "log_of (V(nodeIDKey \<mapsto> x)) = log_of V"
    by (rule log_of_upd_other) (simp add: length_nodeIDKey)
  have clk: "clock_of (V(nodeIDKey \<mapsto> x)) (le_ID e) = clock_of V (le_ID e)" if "e \<in> log_of V" for e
    using log_of_lengths [OF that] by (simp add: length_nodeIDKey)
  have "log_ok (V(nodeIDKey \<mapsto> x))"
    using ok unfolding store_ok_def log_ok_def log by (auto simp: clk clock0_def)
  with ok show ?thesis
    by (auto simp: store_ok_def length_nodeIDKey)
qed

lemma store_ok_upd_clock:
  assumes "store_ok P live V" and "length a = 32" and "clock_of V a = None"
  shows "store_ok P live (V(makeClockKey a \<mapsto> clock_bytes 0))"
proof -
  let ?W = "V(makeClockKey a \<mapsto> clock_bytes 0)"
  have log: "log_of ?W = log_of V"
    by (rule log_of_upd_other) (simp add: length_clock_key assms(2))
  have rec: "?W (le_KeyHash e) = V (le_KeyHash e)" if "e \<in> log_of V" for e
    using log_of_lengths [OF that] length_clock_key [OF assms(2)] by auto
  have ne: "a \<noteq> le_ID e" if "e \<in> log_of V" for e
    using assms(1,3) that log_okD(4) unfolding store_ok_def by fastforce
  have "log_ok ?W"
    using assms(1) unfolding store_ok_def log_ok_def log by (simp add: ne clock0_def rec)
  with assms(1,2) show ?thesis
    by (auto simp: store_ok_def length_clock_key)
qed

context badger_db
begin

lemma insert_loop_store_ok:
  assumes "insert_response_loop D es s = (None, t)" and "\<forall>e \<in> set es. response_wf e"
    and "store_ok (db_proto D) live (view s)" and "room (view s) es"
  shows "store_ok (db_proto D) live (view t)"
  using assms
proof (induction es arbitrary: s)
  case (Cons e es)
  let ?n = "rs_NodeId e" and ?k = "rs_EncryptionKeyHash e" and ?r = "rs_Record e"
  have e: "length ?n = 32" "plain_hash ?k" "length ?k = 32" "int64_ok (pb_ExpiresAtUnix ?r)"
    using Cons.prems(2) by (simp_all add: response_wf_def)
  obtain u where i: "InsertRecord D ?n ?k ?r s = (None, u)" and rest: "insert_response_loop D es u = (None, t)"
    using Cons.prems(1) e by (auto split: prod.splits option.splits)
  from InsertRecord_can_insert [OF i Cons.prems(3) e(1,2,4) room_no_wrap [OF Cons.prems(4) e(1)]]
  obtain m where I: "can_insert (db_proto D) live (view s) ?n ?k ?r m"
    and v: "view u = inserted live ?n ?k ?r m (view s)" by blast
  show ?case
  proof (rule Cons.IH [OF rest])
    show "\<forall>e \<in> set es. response_wf e" using Cons.prems(2) by simp
    show "store_ok (db_proto D) live (view u)" using inserted_ok [OF I] v by simp
    show "room (view u) es" using room_inserted [OF Cons.prems(4) e(1,3)] v by simp
  qed
qed simp

lemma db_txn_store_ok:
  assumes "db_txn D ctx f s = Some (r, s')" and "store_ok (db_proto D) live (view s)"
    and "\<And>u t. view u = view s \<Longrightarrow> f u = (None, t) \<Longrightarrow> store_ok (db_proto D) live (view t)"
  shows "store_ok (db_proto D) live (view s')"
proof (cases r)
  case None
  with assms(1) obtain u t where "view u = view s" "f u = (None, t)" "view s' = view t"
    using db_txn_ok by blast
  with assms(3) show ?thesis by metis
next
  case (Some e)
  with assms(1,2) db_txn_error show ?thesis by metis
qed

lemma updateRecord_store_ok:
  assumes "updateRecord D ctx kh fn s = Some (r, s')" and "store_ok (db_proto D) live (view s)"
    and "length kh = 32"
    and "\<And>r. pb_ExpiresAtUnix (fn r) = pb_ExpiresAtUnix r" and "\<And>r. pb_State (fn r) = pb_State r"
  shows "store_ok (db_proto D) live (view s')"
proof (cases r)
  case None
  have "records_ok (db_proto D) live (view s)" using assms(2) by (simp add: store_ok_def)
  from updateRecord_ok [OF assms(1) [unfolded None] assms(3) this assms(4)] obtain q m where
    q: "record_of (db_proto D) (view s) kh = Some q" "pb_unmarshal (db_proto D) m = Inr (fn q)"
    "rec_ok live q" "view s' = (view s)(kh \<mapsto> m)" .
  then have "view s kh \<noteq> None" by (auto simp: record_of_def split: option.splits)
  with q assms show ?thesis
    by (auto simp: rec_ok_def intro!: store_ok_set_record store_ok_plain)
next
  case (Some e)
  with assms(1,2) show ?thesis unfolding updateRecord_def by (metis db_txn_error)
qed

lemma deleteRecord_store_ok:
  assumes "deleteRecord D ctx kh s = Some (r, s')" and "store_ok (db_proto D) live (view s)"
    and "length kh = 32"
  shows "store_ok (db_proto D) live (view s')"
  using assms(1,2) unfolding deleteRecord_def
proof (rule db_txn_store_ok)
  fix u t assume u: "view u = view s" and d: "delete_txn D kh u = (None, t)"
  have "view u kh \<noteq> None"
    using d not_Nil_32 [OF assms(3)] by (cases "view u kh") (auto simp: delete_txn_def get_none)
  with u assms(2,3) have "plain_hash kh" by (metis store_ok_plain)
  with d u assms(2,3) show "store_ok (db_proto D) live (view t)"
    using delete_txn_ok store_ok_deleted unfolding store_ok_def by metis
qed

lemma OpenDB_store_ok:
  assumes "OpenDB D s = Some (r, s')" and "store_ok (db_proto D) live (view s)"
  shows "store_ok (db_proto D) live (view s')"
proof -
  have "view s' = view s \<or> view s' = (view s)(nodeIDKey \<mapsto> cfg_ID (db_config D))"
    using assms(1) prepare_ok
    by (fastforce simp: OpenDB_def prepare_def dest: update_error_view split: option.splits)
  with assms(2) store_ok_upd_nodeIDKey show ?thesis by metis
qed

lemma db_step_store_ok:
  assumes "db_step D view s s'" and "store_ok (db_proto D) live (view s)"
  shows "store_ok (db_proto D) live (view s')"
  using assms
proof (cases rule: db_step.cases)
  case (opened r)
  with assms(2) show ?thesis by (blast intro: OpenDB_store_ok)
next
  case (put ctx kh rec now r)
  let ?r = "record_at now rec"
  have ins: "store_ok (db_proto D) live (view t)"
    if "view u = view s" "InsertRecord D (cfg_ID (db_config D)) kh ?r u = (None, t)" for u t
  proof -
    have "int64_ok (pb_ExpiresAtUnix ?r)" using put(3) by (simp add: record_at_def)
    with InsertRecord_can_insert [OF that(2)] assms(2) put(2,4) id_length inserted_ok that(1)
    show ?thesis by metis
  qed
  show ?thesis
  proof (cases "put_check D kh s")
    case None
    with put(1) have "db_txn D ctx (InsertRecord D (cfg_ID (db_config D)) kh ?r) s = Some (r, s')"
      by (simp add: PutAtTime_def)
    from db_txn_store_ok [OF this assms(2) ins] show ?thesis .
  next
    case (Some e)
    with put(1) assms(2) show ?thesis by (simp add: PutAtTime_def)
  qed
next
  case (batch ctx es r)
  from batch(1) assms(2) show ?thesis unfolding insertResponseEntries_def
    by (rule db_txn_store_ok) (use batch(2,3) assms(2) insert_loop_store_ok in metis)
next
  case (ensure ctx nid r)
  from ensure(1) assms(2) show ?thesis unfolding db_ensureClock_def
  proof (rule db_txn_store_ok)
    fix u t assume u: "view u = view s" and e: "ensureClock (db_engine D) nid u = (None, t)"
    show "store_ok (db_proto D) live (view t)"
      using ensureClock_ok [OF e] u assms(2) ensure(2) store_ok_upd_clock
      by (auto simp: clock_of_def)
  qed
next
  case (invalidate ctx now key reason r)
  with assms(2) updateRecord_store_ok key_hash_set_bytes_length show ?thesis
    by (auto simp: InvalidateRecord_def split: if_splits sum.splits)
next
  case (unpublish ctx key r)
  with assms(2) updateRecord_store_ok key_hash_set_bytes_length show ?thesis
    by (auto simp: UnpublishRecord_def split: sum.splits)
next
  case (remove ctx key r)
  with assms(2) deleteRecord_store_ok key_hash_set_bytes_length show ?thesis
    by (auto simp: DeleteRecord_def split: sum.splits)
qed

end

subsection \<open>A concrete store for the witnesses\<close>

definition demo_db :: "(bytes \<times> bytes) list db" where
  "demo_db = list_db 1000 test_config"

definition demo_hash :: key_hash where
  "demo_hash = replicate 32 CHR ''k''"

definition demo_record :: auth_record where
  "demo_record = \<lparr>ar_SatelliteAddress = ''sat'', ar_MacaroonHead = ''head'',
     ar_EncryptedSecretKey = ''sk'', ar_EncryptedAccessGrant = ''ag'',
     ar_ExpiresAt = Some (2000 * 1000000000 + 5), ar_Public = True\<rparr>"

lemma demo_total: "badger_db_total demo_db list_view (unexpired 1000)"
  unfolding demo_db_def by (rule badger_db_total_list_db) simp_all

lemma demo_ok: "badger_db demo_db list_view (unexpired 1000)"
  using demo_total by (simp add: badger_db_total_def)

lemma demo_hash_plain [simp]: "plain_hash demo_hash" "length demo_hash = 32"
  by (simp_all add: plain_hash_def demo_hash_def replicationLogPrefix_def clockPrefix_def numeral_eq_Suc)

lemma list_view_Nil [simp]: "list_view [] = Map.empty"
  by (simp add: list_view_def fun_eq_iff)

lemma store_ok_Nil [simp]: "store_ok P live (list_view [])"
  by (simp add: store_ok_empty)

lemma clocks_ok_Nil [simp]: "clocks_ok Map.empty"
  by (simp add: clocks_ok_def)

lemma demo_sane [simp]: "bo_sane (cfg_ConflictBackoff (db_config demo_db))"
  by (simp add: demo_db_def list_db_def test_config_def bo_sane_def bo_init_def)

lemma demo_marshal: "\<exists>m. pb_marshal (db_proto demo_db) (record_at 7 demo_record) = Inr m"
  by (simp add: demo_db_def list_db_def flat_proto_def flat_marshal_def record_at_def demo_record_def
      timeToTimestamp_def unix_def int64_ok_def)

lemma demo_live: "unexpired 1000 (expiry (record_at 7 demo_record))"
  by (simp add: unexpired_def expiry_def record_at_def demo_record_def timeToTimestamp_def unix_def)

context badger_db_total
begin

lemma Put_total:
  assumes "view s kh = None" and "length kh = 32" and "clocks_ok (view s)"
    and "\<exists>m. pb_marshal (db_proto D) (record_at now rec) = Inr m"
  obtains s' where "PutAtTime D ctx kh rec now s = Some (None, s')"
proof -
  obtain m where m: "pb_marshal (db_proto D) (record_at now rec) = Inr m" using assms(4) ..
  have "pb_State (record_at now rec) = CREATED" by (simp add: record_at_def)
  then obtain t where "InsertRecord D (cfg_ID (db_config D)) kh (record_at now rec) s = (None, t)"
    using InsertRecord_total [OF _ m] assms(1-3) by blast
  then obtain s' where "txn_with_backoff (db_engine D) (cfg_ConflictBackoff (db_config D)) ctx
      (InsertRecord D (cfg_ID (db_config D)) kh (record_at now rec)) s = Some (None, s')"
    using txn_with_backoff_total [where s = s] by metis
  with assms(1) not_Nil_32 [OF assms(2)] show thesis
    by (intro that [of s']) (simp add: PutAtTime_def put_check_def get_none db_txn_def)
qed

end

lemma demo_put:
  obtains s where "PutAtTime demo_db (\<lambda>_. None) demo_hash demo_record 7 [] = Some (None, s)"
proof -
  obtain s where "PutAtTime demo_db (\<lambda>_. None) demo_hash demo_record 7 [] = Some (None, s)"
    by (rule badger_db_total.Put_total [OF demo_total, where s = "[]" and kh = demo_hash
          and now = 7 and rec = demo_record and ctx = "\<lambda>_. None"]) (simp_all add: demo_marshal)
  then show thesis by (rule that)
qed

subsection \<open>Put and Get\<close>

text \<open>
  C3: a successful Put can be read back, unless it has expired meanwhile: Get returns the same
  satellite address, macaroon head, encrypted secret key and grant, public flag, and the expiry
  cut to whole seconds.  No other key hash is affected.
\<close>

theorem put_then_get:
  assumes "badger_db D view live" and "store_ok (db_proto D) live (view s)" and "length kh = 32"
    and "PutAtTime D ctx kh rec now s = Some (None, s')"
  shows "Get D kh s' =
      (if live (expiry (record_at now rec))
       then Inr (Some (rec\<lparr>ar_ExpiresAt := timestampToTime (timeToTimestamp (ar_ExpiresAt rec))\<rparr>))
       else Inr None)
    \<and> (\<forall>k. length k = 32 \<and> k \<noteq> kh \<longrightarrow> Get D k s' = Get D k s)"
proof -
  have clk: "clocks_ok (view s)" using assms(2) by (simp add: store_ok_def)
  obtain m where v: "view s' = inserted live (cfg_ID (db_config D)) kh (record_at now rec) m (view s)"
    using badger_db.Put_ok [OF assms(1,4) clk assms(3)] .
  have "Get D k s' = Get D k s" if "length k = 32" "k \<noteq> kh" for k
    using that assms(3) badger_db.id_length [OF assms(1)]
    by (simp add: badger_db.Get_ok [OF assms(1)] v inserted_record_other)
  moreover have "to_auth_record (record_at now rec) =
      rec\<lparr>ar_ExpiresAt := timestampToTime (timeToTimestamp (ar_ExpiresAt rec))\<rparr>"
    by (simp add: to_auth_record_def record_at_def)
  ultimately show ?thesis
    using badger_db.Put_Get [OF assms(1,4) clk assms(3)] by simp
qed

lemma put_then_get_witness:
  "\<exists>s. PutAtTime demo_db (\<lambda>_. None) demo_hash demo_record 7 [] = Some (None, s)
    \<and> Get demo_db demo_hash s = Inr (Some (demo_record\<lparr>ar_ExpiresAt := Some (2000 * 1000000000)\<rparr>))"
proof -
  obtain s where s: "PutAtTime demo_db (\<lambda>_. None) demo_hash demo_record 7 [] = Some (None, s)"
    by (rule demo_put)
  have "timestampToTime (timeToTimestamp (ar_ExpiresAt demo_record)) = Some (2000 * 1000000000)"
    by (simp add: demo_record_def timeToTimestamp_def timestampToTime_def unix_def)
  with s put_then_get [OF demo_ok store_ok_Nil demo_hash_plain(2) s] show ?thesis
    by (simp add: demo_live)
qed

text \<open>
  Put always returns.  When the retry loop is configured without overflow it stops; an error
  leaves the contents as they were; a key hash that is in use is refused with
  ErrKeyAlreadyExists before anything is written.
\<close>

lemma put_outcomes:
  assumes "badger_db D view live" and "bo_sane (cfg_ConflictBackoff (db_config D))"
  shows "\<exists>e s'. PutAtTime D ctx kh rec now s = Some (e, s')
    \<and> (e \<noteq> None \<longrightarrow> view s' = view s)
    \<and> (view s kh \<noteq> None \<longrightarrow> e = Some ErrKeyAlreadyExists \<and> s' = s)"
proof -
  obtain e s' where r: "PutAtTime D ctx kh rec now s = Some (e, s')"
    using badger_db.Put_returns [OF assms] by fastforce
  moreover have "view s' = view s" if "e \<noteq> None"
    using that r badger_db.Put_error [OF assms(1)] by blast
  moreover have "e = Some ErrKeyAlreadyExists \<and> s' = s" if "view s kh \<noteq> None"
    using r badger_db.Put_exists [OF assms(1) that] by simp
  ultimately show ?thesis by blast
qed

lemma put_outcomes_witness:
  "\<exists>e s'. PutAtTime demo_db (\<lambda>_. None) demo_hash demo_record 7 [(demo_hash, ''x'')] = Some (e, s')
    \<and> e = Some ErrKeyAlreadyExists \<and> s' = [(demo_hash, ''x'')]"
proof -
  have "list_view [(demo_hash, ''x'')] demo_hash \<noteq> None"
    by (auto simp: list_view_def demo_hash_def)
  with put_outcomes [OF demo_ok demo_sane] show ?thesis by metis
qed

text \<open>
  A successful Put advances the clock of this node by one and adds one entry, for this key
  hash at the new clock, to the log of this node; the clocks and the logs of all other nodes stay
  as they are.
\<close>

lemma put_logs:
  assumes "badger_db D view live" and "store_ok (db_proto D) live (view s)" and "length kh = 32"
    and "PutAtTime D ctx kh rec now s = Some (None, s')" and "live (expiry (record_at now rec))"
    and "length a = 32"
  shows "clock0 (view s') a = clock0 (view s) a + (if a = cfg_ID (db_config D) then 1 else 0)
    \<and> node_log (view s') a = node_log (view s) a \<union>
        (if a = cfg_ID (db_config D)
         then {\<lparr>le_ID = a, le_Clock = clock0 (view s) a + 1, le_KeyHash = kh, le_State = CREATED\<rparr>}
         else {})"
proof -
  have clk: "clocks_ok (view s)" using assms(2) by (simp add: store_ok_def)
  obtain m where v: "view s' = inserted live (cfg_ID (db_config D)) kh (record_at now rec) m (view s)"
    using badger_db.Put_ok [OF assms(1,4) clk assms(3)] .
  show ?thesis
    using badger_db.id_length [OF assms(1)] assms(3,5,6)
    by (auto simp: v clock0_inserted node_log_inserted next_entry_def record_at_def)
qed

lemma put_logs_witness:
  "\<exists>s. PutAtTime demo_db (\<lambda>_. None) demo_hash demo_record 7 [] = Some (None, s)
    \<and> clock0 (list_view s) (pad32 ''n1'') = 1"
proof -
  obtain s where s: "PutAtTime demo_db (\<lambda>_. None) demo_hash demo_record 7 [] = Some (None, s)"
    by (rule demo_put)
  have a: "length (pad32 ''n1'') = 32" by (simp add: pad32_def)
  have c: "cfg_ID (db_config demo_db) = pad32 ''n1''" by (simp add: demo_db_def list_db_def test_config_def)
  have "clock0 (list_view []) (pad32 ''n1'') = 0" by (simp add: clock0_def clock_of_def)
  with s put_logs [OF demo_ok store_ok_Nil demo_hash_plain(2) s demo_live a] c show ?thesis
    by auto
qed

subsection \<open>The invariant, in every reachable state\<close>

text \<open>
  C2: in every state that the writing methods can reach from an empty store the contents are
  well-formed: clock keys and values have their shapes, every log entry parses, has its record,
  is at a clock between one and its node's clock and alone at that clock, and every record is a
  created one that has not expired.
\<close>

theorem reachable_store_ok:
  assumes "db_reach D view s" and "badger_db D view live"
  shows "store_ok (db_proto D) live (view s)"
  using assms
proof (induction rule: db_reach.induct)
  case (empty s)
  then show ?case by (simp add: store_ok_empty)
next
  case (step s s')
  show ?case
    by (rule badger_db.db_step_store_ok [OF step.prems step.hyps(2) step.IH [OF step.prems]])
qed

lemma demo_reach:
  assumes "PutAtTime demo_db (\<lambda>_. None) demo_hash demo_record 7 [] = Some (None, s)"
  shows "db_reach demo_db list_view s"
proof (rule db_reach.step)
  show "db_reach demo_db list_view []" by (rule db_reach.empty) simp
  have "int64_ok (timeToTimestamp (ar_ExpiresAt demo_record))"
    by (simp add: demo_record_def timeToTimestamp_def unix_def int64_ok_def)
  moreover have "clock0 (list_view []) (cfg_ID (db_config demo_db)) + 1 \<noteq> 0"
    by (simp add: clock0_def clock_of_def)
  ultimately show "db_step demo_db list_view [] s"
    by (intro db_step.put [OF assms]) simp_all
qed

text \<open>The same fact for the demo state, by the preservation lemma itself.\<close>

lemma demo_store_ok:
  assumes "PutAtTime demo_db (\<lambda>_. None) demo_hash demo_record 7 [] = Some (None, s)"
  shows "store_ok (db_proto demo_db) (unexpired 1000) (list_view s)"
  using demo_reach [OF assms]
proof (induction rule: db_reach.induct)
  case (step s s')
  show ?case by (rule badger_db.db_step_store_ok [OF demo_ok step.hyps(2) step.IH])
qed (simp add: store_ok_empty)

lemma reachable_store_ok_witness:
  "\<exists>s. PutAtTime demo_db (\<lambda>_. None) demo_hash demo_record 7 [] = Some (None, s)
    \<and> store_ok (db_proto demo_db) (unexpired 1000) (list_view s)"
proof -
  obtain s where s: "PutAtTime demo_db (\<lambda>_. None) demo_hash demo_record 7 [] = Some (None, s)"
    by (rule demo_put)
  with reachable_store_ok [OF demo_reach [OF s] demo_ok] show ?thesis by blast
qed

subsection \<open>The replication log\<close>

text \<open>
  The entry of the replication log can be read back from its key, and the keys of one node
  are ordered by their clocks: iterating from the start key of a clock visits the entries from
  that clock on and no earlier one.
\<close>

lemma log_entry_keys:
  assumes "entry_wf e" and "entry_wf f" and "le_ID e = le_ID f"
  shows "entry_set_bytes (entry_bytes e) = Inr e
    \<and> length (entry_bytes e) = lenReplicationLogEntry
    \<and> (makeIterationStartKey (le_ID e) c \<le> entry_bytes e \<longleftrightarrow> c \<le> le_Clock e)
    \<and> (le_Clock e < le_Clock f \<longrightarrow> entry_bytes e < entry_bytes f)"
  using assms entry_bytes_less [of e f]
  by (simp add: entry_set_bytes_bytes start_key_le_entry length_entry_bytes key_lengths)

lemma log_entry_keys_witness:
  "let e = \<lparr>le_ID = replicate 32 CHR ''a'', le_Clock = 255, le_KeyHash = demo_hash, le_State = CREATED\<rparr>;
       f = e\<lparr>le_Clock := 256\<rparr>
   in entry_bytes e < entry_bytes f"
  unfolding Let_def
  by (rule log_entry_keys [THEN conjunct2, THEN conjunct2, THEN conjunct2, THEN mp])
    (simp_all add: entry_wf_def)

text \<open>
  FindResponseEntries returns the entries of the requested node that are later than the
  given clock, oldest first and without gaps up to the limit, each with its current record.  At
  the greatest clock the addition wraps, and it returns the log from its beginning.
\<close>

lemma find_response_entries:
  assumes "badger_db D view live" and "store_ok (db_proto D) live (view s)" and "length nid = 32"
  shows "\<exists>es. sorted_wrt (\<lambda>e f. le_Clock e < le_Clock f) es
    \<and> set es = {e \<in> log_of (view s). le_ID e = nid \<and> (c < le_Clock e \<or> c = - 1)}
    \<and> findResponseEntries D nid c s = Inr (map (response_of (db_proto D) (view s))
        (take_limit (cfg_ReplicationLimit (db_config D)) es))"
proof -
  obtain es where es: "sorted_wrt (\<lambda>e f. le_Clock e < le_Clock f) es"
    "set es = {e \<in> log_of (view s). le_ID e = nid \<and> c + 1 \<le> le_Clock e}"
    "findResponseEntries D nid c s = Inr (map (response_of (db_proto D) (view s))
        (take_limit (cfg_ReplicationLimit (db_config D)) es))"
    using badger_db.find_ok [OF assms] .
  have "c + 1 \<le> x \<longleftrightarrow> c < x \<or> c = - 1" for x
    by (auto simp: inc_less_eq_iff)
  with es show ?thesis by auto
qed

lemma find_response_entries_witness:
  "\<exists>s. PutAtTime demo_db (\<lambda>_. None) demo_hash demo_record 7 [] = Some (None, s)
    \<and> (\<exists>es. sorted_wrt (\<lambda>e f. le_Clock e < le_Clock f) es
      \<and> findResponseEntries demo_db (pad32 ''n1'') 0 s =
        Inr (map (response_of (db_proto demo_db) (list_view s)) (take_limit 1000 es)))"
proof -
  obtain s where s: "PutAtTime demo_db (\<lambda>_. None) demo_hash demo_record 7 [] = Some (None, s)"
    by (rule demo_put)
  have ok: "store_ok (db_proto demo_db) (unexpired 1000) (list_view s)"
    by (rule demo_store_ok [OF s])
  have len: "length (pad32 ''n1'') = 32" by (simp add: pad32_def)
  have "cfg_ReplicationLimit (db_config demo_db) = 1000"
    by (simp add: demo_db_def list_db_def test_config_def)
  with s find_response_entries [OF demo_ok ok len, of 0] show ?thesis by auto
qed

subsection \<open>Administration\<close>

context badger_db_total
begin

lemma updateRecord_total:
  assumes "record_of (db_proto D) (view s) kh = Some r" and "length kh = 32"
    and "pb_marshal (db_proto D) (fn r) = Inr m"
  obtains s' where "updateRecord D ctx kh fn s = Some (None, s')"
proof -
  have l: "lookupRecordWithTxn D kh s = Inr r" using assms(1,2) by (simp add: lookup_Inr_iff)
  obtain t where "tx_set (db_engine D) s kh m (word_of_int (pb_ExpiresAtUnix (fn r))) = (None, t)"
    by (rule set_totalE [OF not_Nil_32 [OF assms(2)]])
  with l assms(3) have "update_txn D kh fn s = (None, t)" by (simp add: update_txn_def)
  then obtain s' where "txn_with_backoff (db_engine D) (cfg_ConflictBackoff (db_config D)) ctx
      (update_txn D kh fn) s = Some (None, s')"
    using txn_with_backoff_total [where s = s] by metis
  then show thesis by (intro that [of s']) (simp add: updateRecord_def db_txn_def)
qed

lemma delete_log_loop_total:
  assumes "\<forall>k \<in> fst ` set items. \<exists>e. entry_wf e \<and> k = entry_bytes e"
  shows "\<exists>t. delete_log_loop (db_engine D) kh items s = (None, t)"
  using assms
proof (induction items arbitrary: s)
  case (Cons x items)
  obtain k v where x: "x = (k, v)" by fastforce
  with Cons.prems obtain e where e: "entry_wf e" "k = entry_bytes e" by auto
  obtain s1 where "tx_delete (db_engine D) s k = (None, s1)"
    using e(2) delete_totalE [of k] by (metis keys_not_Nil(2))
  with Cons x e show ?case by (simp add: entry_set_bytes_bytes)
qed simp

lemma deleteRecord_total:
  assumes "view s kh \<noteq> None" and "plain_hash kh" and "logs_ok (view s)"
  obtains s' where "deleteRecord D ctx kh s = Some (None, s')"
proof -
  obtain v where v: "view s kh = Some v" using assms(1) by blast
  obtain s1 where s1: "tx_delete (db_engine D) s kh = (None, s1)" "view s1 = (view s)(kh := None)"
    using delete_totalE [OF not_Nil_32 [OF plain_hash_length [OF assms(2)]]] by metis
  let ?I = "tx_iterate (db_engine D) s1 replicationLogPrefix replicationLogPrefix"
  have "\<forall>k \<in> fst ` set ?I. \<exists>e. entry_wf e \<and> k = entry_bytes e"
    using s1(2) assms(3) by (auto simp: iterate_set logs_ok_def split: if_splits)
  then obtain t where "delete_log_loop (db_engine D) kh ?I s1 = (None, t)"
    using delete_log_loop_total by blast
  with v s1 have "delete_txn D kh s = (None, t)"
    by (simp add: delete_txn_def get_some deleteReplicationLogEntries_def)
  then obtain s' where "txn_with_backoff (db_engine D) (cfg_ConflictBackoff (db_config D)) ctx
      (delete_txn D kh) s = Some (None, s')"
    using txn_with_backoff_total [where s = s] by metis
  then show thesis by (intro that [of s']) (simp add: deleteRecord_def db_txn_def)
qed

end

lemma errToRPCStatusErr_None [simp]: "errToRPCStatusErr e = None \<longleftrightarrow> e = None"
  by (simp add: errToRPCStatusErr_def split: option.splits)

text \<open>What an update of the public flag or of the invalidation does.\<close>

lemma admin_update:
  assumes "badger_db D view live" and "store_ok (db_proto D) live (view s)"
    and "updateRecord D ctx kh fn s = Some (None, s')" and "length kh = 32"
    and "\<And>r. pb_ExpiresAtUnix (fn r) = pb_ExpiresAtUnix r"
  obtains r where "record_of (db_proto D) (view s) kh = Some r"
    and "record_of (db_proto D) (view s') kh = Some (fn r)"
    and "\<And>k. k \<noteq> kh \<Longrightarrow> view s' k = view s k"
proof -
  have rec: "records_ok (db_proto D) live (view s)" using assms(2) by (simp add: store_ok_def)
  obtain r m where "record_of (db_proto D) (view s) kh = Some r"
    "pb_unmarshal (db_proto D) m = Inr (fn r)" "view s' = (view s)(kh \<mapsto> m)"
    using badger_db.updateRecord_ok [OF assms(1,3,4) rec assms(5)] .
  then show thesis by (intro that [of r]) (simp_all add: record_of_def)
qed

lemma Get_record_of:
  assumes "badger_db D view live" and "length kh = 32" and "record_of (db_proto D) (view s) kh = Some r"
  shows "Get D kh s =
    (if pb_InvalidationReason r = [] then Inr (Some (to_auth_record r))
     else Inl (Classed BadgerauthError (Classed InvalidRecord (Message (pb_InvalidationReason r)))))"
  using assms(3) by (auto simp: badger_db.Get_ok [OF assms(1,2)] record_of_def split: option.splits sum.splits)

text \<open>
  C5: after a successful InvalidateRecord Get refuses the record with an error of class Invalid
  that carries the reason, and the record is kept with reason and time; everything else in the
  store, the log included, is as before.  Without a reason, or with a key that is too long, the
  request is refused as an invalid argument.
\<close>

theorem invalidate_then_get:
  assumes "badger_db D view live" and "store_ok (db_proto D) live (view s)"
    and "InvalidateRecord D ctx now key reason s = Some (res, s')"
  shows "(res = None \<longrightarrow> (\<exists>kh r. key_hash_set_bytes key = Inr kh
      \<and> record_of (db_proto D) (view s) kh = Some r
      \<and> record_of (db_proto D) (view s') kh =
          Some (r\<lparr>pb_InvalidatedAtUnix := unix now, pb_InvalidationReason := reason\<rparr>)
      \<and> Get D kh s' = Inl (Classed BadgerauthError (Classed InvalidRecord (Message reason)))
      \<and> (\<forall>k. k \<noteq> kh \<longrightarrow> view s' k = view s k)))
    \<and> (reason = [] \<or> length key > 32 \<longrightarrow> res = Some (rpc_status RpcInvalidArgument) \<and> s' = s)"
proof (intro conjI impI)
  assume "res = None"
  with assms(3) obtain kh where kh: "key_hash_set_bytes key = Inr kh" "reason \<noteq> []"
    and upd: "updateRecord D ctx kh
      (\<lambda>r. r\<lparr>pb_InvalidatedAtUnix := unix now, pb_InvalidationReason := reason\<rparr>) s = Some (None, s')"
    by (auto simp: InvalidateRecord_def split: if_splits sum.splits)
  have len: "length kh = 32" using kh(1) by (rule key_hash_set_bytes_length)
  obtain r where r: "record_of (db_proto D) (view s) kh = Some r"
    "record_of (db_proto D) (view s') kh =
      Some (r\<lparr>pb_InvalidatedAtUnix := unix now, pb_InvalidationReason := reason\<rparr>)"
    "\<And>k. k \<noteq> kh \<Longrightarrow> view s' k = view s k"
    by (rule admin_update [OF assms(1,2) upd len]) (simp_all add: that)
  with kh Get_record_of [OF assms(1) len r(2)]
  show "\<exists>kh r. key_hash_set_bytes key = Inr kh \<and> record_of (db_proto D) (view s) kh = Some r
      \<and> record_of (db_proto D) (view s') kh =
          Some (r\<lparr>pb_InvalidatedAtUnix := unix now, pb_InvalidationReason := reason\<rparr>)
      \<and> Get D kh s' = Inl (Classed BadgerauthError (Classed InvalidRecord (Message reason)))
      \<and> (\<forall>k. k \<noteq> kh \<longrightarrow> view s' k = view s k)"
    by (intro exI [of _ kh] exI [of _ r]) auto
qed (use assms(3) in \<open>auto simp: InvalidateRecord_def key_hash_set_bytes_def errToRPCStatusErr_def
      split: if_splits\<close>)

lemma demo_invalidate:
  assumes "PutAtTime demo_db (\<lambda>_. None) demo_hash demo_record 7 [] = Some (None, s)"
  obtains s' where "InvalidateRecord demo_db (\<lambda>_. None) 9 demo_hash ''abuse'' s = Some (None, s')"
proof -
  let ?fn = "\<lambda>r. r\<lparr>pb_InvalidatedAtUnix := unix 9, pb_InvalidationReason := ''abuse''\<rparr>"
  obtain m where m: "pb_marshal (db_proto demo_db) (record_at 7 demo_record) = Inr m"
    and v: "list_view s = inserted (unexpired 1000) (cfg_ID (db_config demo_db)) demo_hash (record_at 7 demo_record) m (list_view [])"
    by (rule badger_db.Put_ok [OF demo_ok assms]) simp_all
  have r: "record_of (db_proto demo_db) (list_view s) demo_hash = Some (record_at 7 demo_record)"
    using m badger_db.id_length [OF demo_ok] flat.unmarshal_marshal
    by (simp add: record_of_def v inserted_record demo_live demo_db_def list_db_def)
  obtain m' where m': "pb_marshal (db_proto demo_db) (?fn (record_at 7 demo_record)) = Inr m'"
    by (simp add: demo_db_def list_db_def flat_proto_def flat_marshal_def record_at_def demo_record_def
        timeToTimestamp_def unix_def int64_ok_def)
  obtain s' where "updateRecord demo_db (\<lambda>_. None) demo_hash ?fn s = Some (None, s')"
    by (rule badger_db_total.updateRecord_total [where fn = ?fn, OF demo_total r _ m']) simp_all
  then show thesis
    by (intro that [of s']) (simp add: InvalidateRecord_def)
qed

lemma invalidate_then_get_witness:
  "\<exists>s s'. InvalidateRecord demo_db (\<lambda>_. None) 9 demo_hash ''abuse'' s = Some (None, s')
    \<and> Get demo_db demo_hash s' = Inl (Classed BadgerauthError (Classed InvalidRecord (Message ''abuse'')))"
proof -
  obtain s where s: "PutAtTime demo_db (\<lambda>_. None) demo_hash demo_record 7 [] = Some (None, s)"
    by (rule demo_put)
  obtain s' where s': "InvalidateRecord demo_db (\<lambda>_. None) 9 demo_hash ''abuse'' s = Some (None, s')"
    by (rule demo_invalidate [OF s])
  have ok: "store_ok (db_proto demo_db) (unexpired 1000) (list_view s)"
    by (rule demo_store_ok [OF s])
  from invalidate_then_get [OF demo_ok ok s'] s' show ?thesis by auto
qed

text \<open>
  After a successful UnpublishRecord the record is no longer public and otherwise as before:
  whoever could read it still reads the same credentials.
\<close>

lemma unpublish_then_get:
  assumes "badger_db D view live" and "store_ok (db_proto D) live (view s)"
    and "UnpublishRecord D ctx key s = Some (None, s')" and "key_hash_set_bytes key = Inr kh"
    and "Get D kh s = Inr (Some rec)"
  shows "Get D kh s' = Inr (Some (rec\<lparr>ar_Public := False\<rparr>)) \<and> (\<forall>k. k \<noteq> kh \<longrightarrow> view s' k = view s k)"
proof -
  have upd: "updateRecord D ctx kh (\<lambda>r. r\<lparr>pb_Public := False\<rparr>) s = Some (None, s')"
    using assms(3,4) by (auto simp: UnpublishRecord_def)
  have len: "length kh = 32" using assms(4) by (rule key_hash_set_bytes_length)
  obtain r where r: "record_of (db_proto D) (view s) kh = Some r"
    "record_of (db_proto D) (view s') kh = Some (r\<lparr>pb_Public := False\<rparr>)"
    "\<And>k. k \<noteq> kh \<Longrightarrow> view s' k = view s k"
    by (rule admin_update [OF assms(1,2) upd len]) (simp_all add: that)
  from assms(5) Get_record_of [OF assms(1) len r(1)] have "rec = to_auth_record r" "pb_InvalidationReason r = []"
    by (auto split: if_splits)
  with Get_record_of [OF assms(1) len r(2)] r(3) show ?thesis by (simp add: to_auth_record_def)
qed

lemma demo_record_of:
  assumes "PutAtTime demo_db (\<lambda>_. None) demo_hash demo_record 7 [] = Some (None, s)"
  shows "record_of (db_proto demo_db) (list_view s) demo_hash = Some (record_at 7 demo_record)"
proof -
  obtain m where m: "pb_marshal (db_proto demo_db) (record_at 7 demo_record) = Inr m"
    and v: "list_view s = inserted (unexpired 1000) (cfg_ID (db_config demo_db)) demo_hash (record_at 7 demo_record) m (list_view [])"
    by (rule badger_db.Put_ok [OF demo_ok assms]) simp_all
  show ?thesis
    using m badger_db.id_length [OF demo_ok] flat.unmarshal_marshal
    by (simp add: record_of_def v inserted_record demo_live demo_db_def list_db_def)
qed

lemma unpublish_then_get_witness:
  "\<exists>s s' rec. UnpublishRecord demo_db (\<lambda>_. None) demo_hash s = Some (None, s') \<and> ar_Public rec
    \<and> Get demo_db demo_hash s = Inr (Some rec) \<and> Get demo_db demo_hash s' = Inr (Some (rec\<lparr>ar_Public := False\<rparr>))"
proof -
  let ?fn = "\<lambda>r. r\<lparr>pb_Public := False\<rparr>" and ?r = "record_at 7 demo_record"
  obtain s where s: "PutAtTime demo_db (\<lambda>_. None) demo_hash demo_record 7 [] = Some (None, s)"
    by (rule demo_put)
  obtain m' where m': "pb_marshal (db_proto demo_db) (?fn ?r) = Inr m'"
    by (simp add: demo_db_def list_db_def flat_proto_def flat_marshal_def record_at_def demo_record_def
        timeToTimestamp_def unix_def int64_ok_def)
  obtain s' where "updateRecord demo_db (\<lambda>_. None) demo_hash ?fn s = Some (None, s')"
    by (rule badger_db_total.updateRecord_total [where fn = ?fn, OF demo_total demo_record_of [OF s] _ m']) simp_all
  then have u: "UnpublishRecord demo_db (\<lambda>_. None) demo_hash s = Some (None, s')"
    by (simp add: UnpublishRecord_def)
  have g: "Get demo_db demo_hash s = Inr (Some (to_auth_record ?r))"
    using Get_record_of [OF demo_ok _ demo_record_of [OF s]] by (simp add: record_at_def)
  have "ar_Public (to_auth_record ?r)" by (simp add: to_auth_record_def record_at_def demo_record_def)
  with u g unpublish_then_get [OF demo_ok demo_store_ok [OF s] u _ g] show ?thesis by auto
qed

text \<open>
  C4: after a successful DeleteRecord the key hash is gone: Get finds nothing, and no entry of the
  replication log names it any more; all other records, all clocks and all other log entries stay.
\<close>

theorem delete_then_get:
  assumes "badger_db D view live" and "store_ok (db_proto D) live (view s)"
    and "DeleteRecord D ctx key s = Some (None, s')" and "key_hash_set_bytes key = Inr kh"
    and "plain_hash kh"
  shows "Get D kh s' = Inr None
    \<and> log_of (view s') = {e \<in> log_of (view s). le_KeyHash e \<noteq> kh}
    \<and> (\<forall>k. length k = 32 \<and> k \<noteq> kh \<longrightarrow> Get D k s' = Get D k s)
    \<and> (\<forall>a. length a = 32 \<longrightarrow> clock_of (view s') a = clock_of (view s) a)"
proof -
  have del: "deleteRecord D ctx kh s = Some (None, s')"
    using assms(3,4) by (auto simp: DeleteRecord_def)
  have logs: "logs_ok (view s)" using assms(2) by (simp add: store_ok_def)
  note v = badger_db.deleteRecord_ok [OF assms(1) del logs assms(5)]
  have len: "length kh = 32" using assms(5) by simp
  have "Get D k s' = Get D k s" if "length k = 32" "k \<noteq> kh" for k
    using that by (simp add: badger_db.Get_ok [OF assms(1)] v badger_db.deleted_short [OF assms(1)])
  moreover have "Get D kh s' = Inr None"
    by (simp add: badger_db.Get_ok [OF assms(1) len] v deleted_def)
  ultimately show ?thesis
    using badger_db.log_of_deleted [OF assms(1) len] badger_db.clock_of_deleted [OF assms(1) _ len]
    by (simp add: v)
qed

lemma delete_then_get_witness:
  "\<exists>s s'. DeleteRecord demo_db (\<lambda>_. None) demo_hash s = Some (None, s')
    \<and> Get demo_db demo_hash s \<noteq> Inr None \<and> Get demo_db demo_hash s' = Inr None"
proof -
  obtain s where s: "PutAtTime demo_db (\<lambda>_. None) demo_hash demo_record 7 [] = Some (None, s)"
    by (rule demo_put)
  have ok: "store_ok (db_proto demo_db) (unexpired 1000) (list_view s)" by (rule demo_store_ok [OF s])
  have "list_view s demo_hash \<noteq> None"
    using demo_record_of [OF s] by (auto simp: record_of_def split: option.splits)
  then obtain s' where "deleteRecord demo_db (\<lambda>_. None) demo_hash s = Some (None, s')"
    by (rule badger_db_total.deleteRecord_total [OF demo_total]) (use ok in \<open>simp_all add: store_ok_def\<close>)
  then have d: "DeleteRecord demo_db (\<lambda>_. None) demo_hash s = Some (None, s')"
    by (simp add: DeleteRecord_def)
  have "Get demo_db demo_hash s \<noteq> Inr None"
    using Get_record_of [OF demo_ok _ demo_record_of [OF s]] by (simp add: record_at_def)
  with d delete_then_get [OF demo_ok ok d] show ?thesis by auto
qed

subsection \<open>Replication\<close>

text \<open>
  C1: one synchronisation catches up.  When the sender's log of the node \<open>a\<close> has no gaps and the
  receiver has the part of it up to its clock \<open>c\<close>, then asking the sender for its records makes
  the receiver advance by all the later entries, or by the response limit if there are more, and
  leaves it with the sender's log exactly up to its new clock, each entry with the sender's
  record.  Neither store is left ill-formed.
\<close>

theorem sync_catches_up:
  assumes "badger_db_total D viewR live" and "badger_db E viewS live"
    and "store_ok (db_proto D) live (viewR r)" and "store_ok (db_proto E) live (viewS s)"
    and "can_sync (db_proto D) (db_proto E) (viewR r) (viewS s)"
    and "clock_of (viewR r) a = Some c" and "a \<noteq> cfg_ID (db_config D)"
    and "gap_free (viewS s) a" and "c \<le> clock0 (viewS s) a"
    and "node_log (viewR r) a = log_upto (viewS s) a c"
  shows "\<exists>r'. syncRecords D ctx (client_of E s) r = Some (None, r')
    \<and> store_ok (db_proto D) live (viewR r')
    \<and> unat (clock0 (viewR r') a) = unat c +
        (let k = unat (clock0 (viewS s) a) - unat c; l = cfg_ReplicationLimit (db_config E)
         in if l < 0 then k else min k (nat l))
    \<and> node_log (viewR r') a = log_upto (viewS s) a (clock0 (viewR r') a)
    \<and> (\<forall>e \<in> node_log (viewR r') a.
        record_of (db_proto D) (viewR r') (le_KeyHash e) = record_of (db_proto E) (viewS s) (le_KeyHash e))"
  by (rule sync_step [OF assms]) blast

definition demo_receiver :: "(bytes \<times> bytes) list db" where
  "demo_receiver = list_db 1000 (test_config\<lparr>cfg_ID := pad32 ''n2''\<rparr>)"

abbreviation demo_node :: node_id where
  "demo_node \<equiv> pad32 ''n1''"

definition demo_state :: "(bytes \<times> bytes) list" where
  "demo_state = [(makeClockKey demo_node, clock_bytes 0)]"

lemma demo_node_length [simp]: "length demo_node = 32"
  by (simp add: pad32_def)

lemma demo_receiver_total: "badger_db_total demo_receiver list_view (unexpired 1000)"
  unfolding demo_receiver_def by (rule badger_db_total_list_db) (simp_all add: pad32_def)

lemma demo_state_view: "list_view demo_state = Map.empty(makeClockKey demo_node \<mapsto> clock_bytes 0)"
  by (auto simp: list_view_def demo_state_def fun_eq_iff makeClockKey_def clockPrefix_def)

lemma demo_state_facts:
  "store_ok P live (list_view demo_state)" "log_of (list_view demo_state) = {}"
  "clock_of (list_view demo_state) demo_node = Some 0" "length b = 32 \<Longrightarrow> clock0 (list_view demo_state) b = 0"
proof -
  show "store_ok P live (list_view demo_state)"
    unfolding demo_state_view by (rule store_ok_upd_clock) (simp_all add: store_ok_empty clock_of_def)
  show "log_of (list_view demo_state) = {}"
    unfolding demo_state_view by (auto simp: log_of_def keys_distinct [of demo_hash])
  show "clock_of (list_view demo_state) demo_node = Some 0" "length b = 32 \<Longrightarrow> clock0 (list_view demo_state) b = 0"
    by (simp_all add: demo_state_view clock0_def clock_of_def [of Map.empty])
qed

lemma demo_contents:
  assumes "PutAtTime demo_db (\<lambda>_. None) demo_hash demo_record 7 [] = Some (None, s)"
  shows "log_of (list_view s) =
      {\<lparr>le_ID = demo_node, le_Clock = 1, le_KeyHash = demo_hash, le_State = CREATED\<rparr>}"
    and "clock0 (list_view s) demo_node = 1"
proof -
  have c: "cfg_ID (db_config demo_db) = demo_node" by (simp add: demo_db_def list_db_def test_config_def)
  obtain m where v: "list_view s = inserted (unexpired 1000) demo_node demo_hash (record_at 7 demo_record) m (list_view [])"
    by (rule badger_db.Put_ok [OF demo_ok assms]) (simp_all add: c)
  have "clock0 Map.empty demo_node = 0" by (simp add: clock0_def clock_of_def)
  moreover have "pb_State (record_at 7 demo_record) = CREATED" by (simp add: record_at_def)
  ultimately show "log_of (list_view s) = {\<lparr>le_ID = demo_node, le_Clock = 1, le_KeyHash = demo_hash, le_State = CREATED\<rparr>}"
      "clock0 (list_view s) demo_node = 1"
    by (simp_all add: v inserted_log demo_live clock0_inserted next_entry_def log_of_def [of Map.empty])
qed

lemma sync_catches_up_witness:
  "\<exists>s r'. PutAtTime demo_db (\<lambda>_. None) demo_hash demo_record 7 [] = Some (None, s)
    \<and> syncRecords demo_receiver (\<lambda>_. None) (client_of demo_db s) demo_state = Some (None, r')
    \<and> unat (clock0 (list_view r') demo_node) = 1"
proof -
  obtain s where s: "PutAtTime demo_db (\<lambda>_. None) demo_hash demo_record 7 [] = Some (None, s)"
    by (rule demo_put)
  let ?V = "list_view s" and ?W = "list_view demo_state"
  note log = demo_contents [OF s]
  obtain m where "pb_marshal (db_proto demo_db) (record_at 7 demo_record) = Inr m" using demo_marshal ..
  then have m: "pb_marshal (db_proto demo_receiver) (record_at 7 demo_record) = Inr m"
    by (simp add: demo_receiver_def demo_db_def list_db_def)
  have "?W demo_hash = None"
    using length_clock_key [OF demo_node_length] demo_hash_plain(2)
    by (auto simp: demo_state_view simp del: demo_hash_plain)
  then have sync: "can_sync (db_proto demo_receiver) (db_proto demo_db) ?W ?V"
    using m demo_record_of [OF s] demo_state_facts(4) by (simp add: can_sync_def log)
  have gaps: "gap_free ?V demo_node"
    unfolding gap_free_def node_log_def log
    by (auto simp: word_less_nat_alt word_le_nat_alt) (metis One_nat_def Suc_leI le_antisym unat_1 word_unat_eq_iff)
  have same: "node_log ?W demo_node = log_upto ?V demo_node 0"
    by (simp add: node_log_def log_upto_def demo_state_facts log)
  have other: "demo_node \<noteq> cfg_ID (db_config demo_receiver)"
    by (simp add: demo_receiver_def list_db_def pad32_def)
  have "cfg_ReplicationLimit (db_config demo_db) = 1000"
    by (simp add: demo_db_def list_db_def test_config_def)
  with s sync_catches_up [where ctx = "\<lambda>_. None", OF demo_receiver_total demo_ok demo_state_facts(1) demo_store_ok [OF s] sync
      demo_state_facts(3) other gaps _ same] log(2)
  show ?thesis by (auto simp: Let_def)
qed

text \<open>
  A peer answers Peek with its record, without the check for invalidation that its own Get
  makes.  A node that does not have the record yet therefore hands out a record that its peer has
  invalidated, while the peer refuses it.
\<close>

lemma peek_ignores_invalidation:
  assumes "badger_db D view live" and "badger_db E viewE liveE" and "length kh = 32"
    and "view r kh = None" and "record_of (db_proto E) (viewE s) kh = Some q"
  shows "node_Get D [peer_Peek (Inr (client_of E s)) kh] kh r = Inr (Some (to_auth_record q))
    \<and> (pb_InvalidationReason q \<noteq> [] \<longrightarrow>
        Get E kh s = Inl (Classed BadgerauthError (Classed InvalidRecord (Message (pb_InvalidationReason q)))))"
proof -
  have "lookupRecord E kh s = Inr q"
    using assms(5) by (simp add: lookupRecord_def badger_db.lookup_Inr_iff [OF assms(2,3)])
  then have "peer_Peek (Inr (client_of E s)) kh = Inr q"
    using assms(3) by (simp add: peer_Peek_def client_of_def node_Peek_def)
  with assms(4) Get_record_of [OF assms(2,3,5)] show ?thesis
    by (simp add: node_Get_def badger_db.Get_ok [OF assms(1,3)])
qed

lemma peek_ignores_invalidation_witness:
  "\<exists>s q. record_of (db_proto demo_db) (list_view s) demo_hash = Some q \<and> pb_InvalidationReason q = ''abuse''
    \<and> node_Get demo_receiver [peer_Peek (Inr (client_of demo_db s)) demo_hash] demo_hash []
        = Inr (Some (to_auth_record q))"
proof -
  obtain s where s: "PutAtTime demo_db (\<lambda>_. None) demo_hash demo_record 7 [] = Some (None, s)"
    by (rule demo_put)
  obtain s' where s': "InvalidateRecord demo_db (\<lambda>_. None) 9 demo_hash ''abuse'' s = Some (None, s')"
    by (rule demo_invalidate [OF s])
  then have "updateRecord demo_db (\<lambda>_. None) demo_hash
      (\<lambda>r. r\<lparr>pb_InvalidatedAtUnix := unix 9, pb_InvalidationReason := ''abuse''\<rparr>) s = Some (None, s')"
    by (auto simp: InvalidateRecord_def)
  then obtain q where q: "record_of (db_proto demo_db) (list_view s') demo_hash = Some q"
    "pb_InvalidationReason q = ''abuse''"
    by (rule admin_update [OF demo_ok demo_store_ok [OF s]]) (auto simp: demo_record_of [OF s])
  have rec: "badger_db demo_receiver list_view (unexpired 1000)"
    using demo_receiver_total by (simp add: badger_db_total_def)
  from peek_ignores_invalidation [OF rec demo_ok _ _ q(1), of "[]"] q show ?thesis by auto
qed

text \<open>
  Peek, Replicate and the administration answer with error statuses only, by kind of error: a
  key that is too long is an invalid argument, a key hash that is not there is not found, and a
  request for a node ID that is too long is an invalid argument.
\<close>

lemma status_codes:
  assumes "badger_db D view live"
  shows "(length key > 32 \<longrightarrow> node_Peek D key s = Inl (rpc_status RpcInvalidArgument)
      \<and> DeleteRecord D ctx key s = Some (Some (rpc_status RpcInvalidArgument), s))
    \<and> (length key = 32 \<and> view s key = None \<longrightarrow> node_Peek D key s = Inl (rpc_status RpcNotFound)
      \<and> DeleteRecord D ctx key s = Some (Some (rpc_status RpcNotFound), s)
      \<and> UnpublishRecord D ctx key s = Some (Some (rpc_status RpcNotFound), s))
    \<and> (length (rq_NodeId rq) > 32 \<longrightarrow>
        node_Replicate D (\<lambda>_. None) (rq # rqs) s = Inl (rpc_status RpcInvalidArgument))
    \<and> (ctx 0 \<noteq> None \<longrightarrow> node_Replicate D ctx (rq # rqs) s = Inl (rpc_status RpcCanceled))"
proof (intro conjI impI)
  assume k: "length key = 32 \<and> view s key = None"
  then have "key \<noteq> []" by auto
  with k have get: "tx_get (db_engine D) s key = Inl (badger_err ErrKeyNotFound)"
    using badger_txn.get_none [of "db_engine D" view live s key] assms
    by (auto simp: badger_db_def)
  show "node_Peek D key s = Inl (rpc_status RpcNotFound)"
    using k get by (simp add: node_Peek_def lookupRecord_def lookupRecordWithTxn_def errToRPCStatusErr_def)
  have "db_txn D ctx (delete_txn D key) s = Some (Some (wrap BadgerauthError (badger_err ErrKeyNotFound)), s)"
    using get by (intro badger_db.db_txn_abort [OF assms, where t = s]) (simp_all add: delete_txn_def)
  with k show "DeleteRecord D ctx key s = Some (Some (rpc_status RpcNotFound), s)"
    by (simp add: DeleteRecord_def deleteRecord_def errToRPCStatusErr_def)
  show "UnpublishRecord D ctx key s = Some (Some (rpc_status RpcNotFound), s)"
    using k badger_db.updateRecord_missing [OF assms, of s key]
    by (simp add: UnpublishRecord_def errToRPCStatusErr_def)
qed (auto simp: node_Peek_def DeleteRecord_def node_Replicate_def errToRPCStatusErr_def
      key_hash_set_bytes_def node_id_set_bytes_def rpc_status_def)

lemma status_codes_witness:
  "node_Peek demo_db demo_hash [] = Inl (rpc_status RpcNotFound)"
  using status_codes [OF demo_ok, of demo_hash "[]"] by simp

subsection \<open>Opening\<close>

text \<open>
  Opening a store with a clean directory succeeds only when FirstStart is set, and then
  records the node's ID; opening it again with the same ID changes nothing; a store of another
  node is refused with the error class for a wrong node ID.
\<close>

lemma open_checks_identity:
  assumes "badger_db D view live" and "OpenDB D s = Some (r, s')"
  shows "(r = None \<longrightarrow> view s' nodeIDKey = Some (cfg_ID (db_config D)))
    \<and> (view s nodeIDKey = None \<and> \<not> cfg_FirstStart (db_config D) \<longrightarrow> r \<noteq> None \<and> s' = s)
    \<and> (\<forall>v. view s nodeIDKey = Some v \<and> v \<noteq> cfg_ID (db_config D) \<longrightarrow>
        (\<exists>e. r = Some e \<and> has_class WrongNodeID e) \<and> s' = s)"
proof (intro conjI impI allI)
  show "view s' nodeIDKey = Some (cfg_ID (db_config D))" if "r = None"
    using assms(2) that badger_db.prepare_ok [OF assms(1), of s s']
    by (auto simp: OpenDB_def split: option.splits)
  show "r \<noteq> None" "s' = s" if n: "view s nodeIDKey = None \<and> \<not> cfg_FirstStart (db_config D)"
  proof -
    obtain e where "checkFirstStart D s = Some e"
      using n badger_db.checkFirstStart_ok [OF assms(1), of s] by auto
    with assms(2) show "r \<noteq> None" "s' = s" by (auto simp: OpenDB_def)
  qed
  fix v assume v: "view s nodeIDKey = Some v \<and> v \<noteq> cfg_ID (db_config D)"
  then obtain e where e: "prepare D s = Some (Some e, s)" "has_class WrongNodeID e"
    using badger_db.prepare_wrong_id [OF assms(1)] by blast
  have "checkFirstStart D s = None"
    using v badger_db.checkFirstStart_ok [OF assms(1), of s] by simp
  with e assms(2) show "\<exists>e. r = Some e \<and> has_class WrongNodeID e" "s' = s"
    by (auto simp: OpenDB_def)
qed

lemma open_checks_identity_witness:
  "\<exists>s'. OpenDB demo_db [] = Some (None, s') \<and> list_view s' nodeIDKey = Some (pad32 ''n1'')"
proof -
  obtain s' where s': "OpenDB demo_db [] = Some (None, s')"
    by (simp add: OpenDB_def checkFirstStart_def prepare_def prepare_txn_def db_update_def demo_db_def
        list_db_def list_engine_def test_config_def)
  moreover have "cfg_ID (db_config demo_db) = pad32 ''n1''"
    by (simp add: demo_db_def list_db_def test_config_def)
  ultimately show ?thesis using open_checks_identity [OF demo_ok s'] by auto
qed

end
