(* ===== verification/AuthDB.thy ===== *)
theory AuthDB
  imports Base32 Badgerauth
begin

section \<open>Encrypted access grants over a key/value store (pkg/auth/authdb)\<close>

text \<open>
  \<open>authdb.Database\<close> stores an access grant encrypted under the access key and finds it again under
  the hash of the key.  What it calls of other modules is the record \<open>auth_lib\<close>: parsing an access
  grant and a node URL, AES-GCM encryption, SHA-256, the caveats of a macaroon.  The key/value
  store is the interface \<open>KV\<close>; the locale \<open>kv_store\<close> states what a client may rely on, the client's
  lemma is proved inside it, and the badgerauth store is shown to provide it.

  Random bytes are an argument.  The database has no state of its own beside the list of allowed
  satellites.
\<close>

subsection \<open>Keys\<close>

definition EncKeySizeEncoded :: nat where
  "EncKeySizeEncoded = 28"

definition encKeyVersionByte :: char where
  "encKeyVersionByte = char_of (77 :: nat)"

definition secKeyVersionByte :: char where
  "secKeyVersionByte = char_of (78 :: nat)"

text \<open>\<open>NewEncryptionKey\<close>: the random bytes overwrite the whole array.\<close>

definition NewEncryptionKey :: "err + bytes \<Rightarrow> err + bytes" where
  "NewEncryptionKey rnd = (case rnd of Inl e \<Rightarrow> Inl e | Inr bs \<Rightarrow> Inr bs)"

definition toBase32 :: "bytes \<Rightarrow> string" where
  "toBase32 k = to_lower (b32_encode k)"

definition key_ToBinary :: "bytes \<Rightarrow> bytes" where
  "key_ToBinary k = encKeyVersionByte # k"

definition key_ToBase32 :: "bytes \<Rightarrow> string" where
  "key_ToBase32 k = toBase32 (key_ToBinary k)"

definition secret_ToBinary :: "bytes \<Rightarrow> bytes" where
  "secret_ToBinary k = secKeyVersionByte # k"

definition secret_ToBase32 :: "bytes \<Rightarrow> string" where
  "secret_ToBase32 k = toBase32 (secret_ToBinary k)"

text \<open>\<open>copy(k[:], data)\<close> into an array of \<open>n\<close> bytes.\<close>

definition copy_into :: "bytes \<Rightarrow> bytes \<Rightarrow> bytes" where
  "copy_into k bs = take (length k) bs @ drop (length bs) k"

text \<open>\<open>FromBinary\<close> reads \<open>data[0]\<close>: of no bytes that is a panic, the result \<open>None\<close>.\<close>

definition key_FromBinary :: "bytes \<Rightarrow> bytes \<Rightarrow> (err + bytes) option" where
  "key_FromBinary k bs =
     (case bs of
        [] \<Rightarrow> None
      | c # cs \<Rightarrow>
          if c \<noteq> encKeyVersionByte
          then Some (Inl (Message ''encryption key did not start with expected byte''))
          else Some (Inr (copy_into k cs)))"

definition key_FromBase32 :: "string \<Rightarrow> (err + bytes) option" where
  "key_FromBase32 encoded =
     (if length encoded \<noteq> EncKeySizeEncoded
      then Some (Inl (Message ''alphanumeric encryption key length''))
      else case b32_decode (to_upper encoded) of
        None \<Rightarrow> Some (Inl (Message ''illegal base32 data''))
      | Some bs \<Rightarrow> key_FromBinary (replicate 16 NUL) bs)"

definition ToStorjKey :: "bytes \<Rightarrow> bytes" where
  "ToStorjKey k = pad32 k"

subsection \<open>What is called of other modules\<close>

record node_url =
  nu_ID :: bytes
  nu_Address :: string

record access =
  ac_SatelliteAddress :: string
  ac_Head :: bytes
  ac_Caveats :: "err + bytes list"

record auth_lib =
  lib_ParseAccess :: "string \<Rightarrow> err + access"
  lib_ParseNodeURL :: "string \<Rightarrow> err + node_url"
  lib_KnownNodeID :: "string \<Rightarrow> bytes option"
  lib_NotAfter :: "bytes \<Rightarrow> err + time option"
  lib_Encrypt :: "bytes \<Rightarrow> bytes \<Rightarrow> bytes \<Rightarrow> err + bytes"
  lib_Decrypt :: "bytes \<Rightarrow> bytes \<Rightarrow> bytes \<Rightarrow> err + bytes"
  lib_sha256 :: "bytes \<Rightarrow> bytes"

text \<open>\<open>nodelist.ParseNodeURL\<close> fills in the ID of a well-known satellite (pkg/nodelist).\<close>

definition ParseNodeURL :: "auth_lib \<Rightarrow> string \<Rightarrow> err + node_url" where
  "ParseNodeURL L s =
     (case lib_ParseNodeURL L s of
        Inl e \<Rightarrow> Inl (wrap NodeListError e)
      | Inr url \<Rightarrow>
          if nu_ID url = replicate 32 NUL
          then (case lib_KnownNodeID L (nu_Address url) of
                  None \<Rightarrow> Inl (Classed NodeListError (Message ''unknown node''))
                | Some nodeID \<Rightarrow> Inr (url\<lparr>nu_ID := nodeID\<rparr>))
          else Inr url)"

text \<open>\<open>apiKeyExpiration\<close>: the earliest \<open>NotAfter\<close> of the caveats.\<close>

fun expiration_loop :: "auth_lib \<Rightarrow> bytes list \<Rightarrow> time option \<Rightarrow> err + time option" where
  "expiration_loop L [] expiration = Inr expiration"
| "expiration_loop L (cavbuf # cavs) expiration =
     (case lib_NotAfter L cavbuf of
        Inl e \<Rightarrow> Inl e
      | Inr None \<Rightarrow> expiration_loop L cavs expiration
      | Inr (Some cavExpiration) \<Rightarrow>
          expiration_loop L cavs
            (case expiration of
               None \<Rightarrow> Some cavExpiration
             | Some t \<Rightarrow> if t > cavExpiration then Some cavExpiration else Some t))"

definition apiKeyExpiration :: "auth_lib \<Rightarrow> access \<Rightarrow> err + time option" where
  "apiKeyExpiration L a =
     (case ac_Caveats a of Inl e \<Rightarrow> Inl e | Inr cavs \<Rightarrow> expiration_loop L cavs None)"

subsection \<open>The KV interface and the database\<close>

record 's kv =
  kv_Put :: "key_hash \<Rightarrow> auth_record \<Rightarrow> 's \<Rightarrow> (err option \<times> 's) option"
  kv_Get :: "key_hash \<Rightarrow> 's \<Rightarrow> err + auth_record option"
  kv_PingDB :: "'s \<Rightarrow> err option"

definition key_Hash :: "auth_lib \<Rightarrow> bytes \<Rightarrow> key_hash" where
  "key_Hash L k = lib_sha256 L k"

abbreviation secret_nonce :: bytes where
  "secret_nonce \<equiv> replicate 24 NUL"

abbreviation grant_nonce :: bytes where
  "grant_nonce \<equiv> CHR 0x01 # replicate 23 NUL"

text \<open>The record a Put stores, or the error before it is stored.\<close>

definition make_record :: "auth_lib \<Rightarrow> node_url set \<Rightarrow> err + bytes \<Rightarrow> bytes \<Rightarrow> string \<Rightarrow> bool
    \<Rightarrow> err + (bytes \<times> auth_record)" where
  "make_record L allowed rnd key accessGrant public =
     (case lib_ParseAccess L accessGrant of
        Inl e \<Rightarrow> Inl (wrap AccessGrantError e)
      | Inr access \<Rightarrow>
          (case ParseNodeURL L (ac_SatelliteAddress access) of
             Inl e \<Rightarrow> Inl (wrap AccessGrantError e)
           | Inr nodeURL \<Rightarrow>
               if nodeURL \<notin> allowed
               then Inl (Classed AccessGrantError (Message ''disallowed satellite''))
               else case rnd of
                 Inl e \<Rightarrow> Inl e
               | Inr secretKey \<Rightarrow>
                   (case lib_Encrypt L secretKey (ToStorjKey key) secret_nonce of
                      Inl e \<Rightarrow> Inl e
                    | Inr encryptedSecretKey \<Rightarrow>
                        (case lib_Encrypt L accessGrant (ToStorjKey key) grant_nonce of
                           Inl e \<Rightarrow> Inl e
                         | Inr encryptedAccessGrant \<Rightarrow>
                             (case apiKeyExpiration L access of
                                Inl e \<Rightarrow> Inl e
                              | Inr expiration \<Rightarrow>
                                  Inr (secretKey,
                                    \<lparr>ar_SatelliteAddress = ac_SatelliteAddress access,
                                     ar_MacaroonHead = ac_Head access,
                                     ar_EncryptedSecretKey = encryptedSecretKey,
                                     ar_EncryptedAccessGrant = encryptedAccessGrant,
                                     ar_ExpiresAt = expiration, ar_Public = public\<rparr>))))))"

definition Database_Put :: "auth_lib \<Rightarrow> 's kv \<Rightarrow> node_url set \<Rightarrow> err + bytes \<Rightarrow> bytes \<Rightarrow> string
    \<Rightarrow> bool \<Rightarrow> 's \<Rightarrow> ((err + bytes) \<times> 's) option" where
  "Database_Put L K allowed rnd key accessGrant public s =
     (case make_record L allowed rnd key accessGrant public of
        Inl e \<Rightarrow> Some (Inl e, s)
      | Inr (secretKey, record) \<Rightarrow>
          (case kv_Put K (key_Hash L key) record s of
             None \<Rightarrow> None
           | Some (Some e, t) \<Rightarrow> Some (Inl e, t)
           | Some (None, t) \<Rightarrow> Some (Inr secretKey, t)))"

definition Database_Get :: "auth_lib \<Rightarrow> 's kv \<Rightarrow> bytes \<Rightarrow> 's \<Rightarrow> err + (string \<times> bool \<times> bytes)" where
  "Database_Get L K accessKeyID s =
     (case kv_Get K (key_Hash L accessKeyID) s of
        Inl e \<Rightarrow> Inl e
      | Inr None \<Rightarrow> Inl (Classed NotFoundError (Message ''key hash''))
      | Inr (Some record) \<Rightarrow>
          (case lib_Decrypt L (ar_EncryptedSecretKey record) (ToStorjKey accessKeyID) secret_nonce of
             Inl e \<Rightarrow> Inl e
           | Inr sk \<Rightarrow>
               (case lib_Decrypt L (ar_EncryptedAccessGrant record) (ToStorjKey accessKeyID) grant_nonce of
                  Inl e \<Rightarrow> Inl e
                | Inr ag \<Rightarrow> Inr (ag, ar_Public record, copy_into (replicate 32 NUL) sk))))"

definition Database_PingDB :: "'s kv \<Rightarrow> 's \<Rightarrow> err option" where
  "Database_PingDB K s = kv_PingDB K s"

text \<open>Bucket names are reserved in the same store, as empty records.\<close>

definition empty_record :: auth_record where
  "empty_record = \<lparr>ar_SatelliteAddress = [], ar_MacaroonHead = [], ar_EncryptedSecretKey = [],
     ar_EncryptedAccessGrant = [], ar_ExpiresAt = None, ar_Public = False\<rparr>"

definition GetBucket :: "'s kv \<Rightarrow> key_hash \<Rightarrow> 's \<Rightarrow> err + bool" where
  "GetBucket K hash s = (case kv_Get K hash s of Inl e \<Rightarrow> Inl e | Inr r \<Rightarrow> Inr (r \<noteq> None))"

definition PutBucket :: "'s kv \<Rightarrow> key_hash \<Rightarrow> 's \<Rightarrow> (err option \<times> 's) option" where
  "PutBucket K hash s = kv_Put K hash empty_record s"

subsection \<open>What a client relies on\<close>

text \<open>
  \<open>good\<close> is the invariant of the store and \<open>keeps\<close> says which records have not expired.  The
  expiry of a record that is read back is cut to whole seconds.
\<close>

abbreviation cut_expiry :: "auth_record \<Rightarrow> auth_record" where
  "cut_expiry r \<equiv> r\<lparr>ar_ExpiresAt := timestampToTime (timeToTimestamp (ar_ExpiresAt r))\<rparr>"

locale kv_store =
  fixes K :: "'s kv" and good :: "'s \<Rightarrow> bool" and keeps :: "auth_record \<Rightarrow> bool"
  assumes put_get: "good s \<Longrightarrow> length kh = 32 \<Longrightarrow> keeps r \<Longrightarrow> kv_Put K kh r s = Some (None, t) \<Longrightarrow>
      kv_Get K kh t = Inr (Some (cut_expiry r))"
    and put_other: "good s \<Longrightarrow> length kh = 32 \<Longrightarrow> length k = 32 \<Longrightarrow> k \<noteq> kh \<Longrightarrow>
      kv_Put K kh r s = Some (None, t) \<Longrightarrow> kv_Get K k t = kv_Get K k s"
    and put_error: "length k = 32 \<Longrightarrow> kv_Put K kh r s = Some (Some e, t) \<Longrightarrow> kv_Get K k t = kv_Get K k s"

locale crypto =
  fixes L :: auth_lib
  assumes decrypt_encrypt: "lib_Encrypt L d k n = Inr c \<Longrightarrow> lib_Decrypt L c k n = Inr d"
    and sha256_length: "length (lib_sha256 L d) = 32"

locale auth_service = kv_store + crypto
begin

lemma Database_Put_Get:
  assumes "Database_Put L K allowed (Inr sk) key accessGrant public s = Some (Inr sk', t)"
    and "good s" and "length sk = 32"
    and "\<And>r. make_record L allowed (Inr sk) key accessGrant public = Inr (sk, r) \<Longrightarrow> keeps r"
  shows "sk' = sk \<and> Database_Get L K key t = Inr (accessGrant, public, sk)"
proof -
  obtain r where r: "make_record L allowed (Inr sk) key accessGrant public = Inr (sk', r)"
    and put: "kv_Put K (key_Hash L key) r s = Some (None, t)"
    using assms(1) by (auto simp: Database_Put_def split: sum.splits prod.splits option.splits)
  then have sk: "sk' = sk"
    by (auto simp: make_record_def split: sum.splits if_splits)
  have enc: "lib_Encrypt L sk (ToStorjKey key) secret_nonce = Inr (ar_EncryptedSecretKey r)"
    "lib_Encrypt L accessGrant (ToStorjKey key) grant_nonce = Inr (ar_EncryptedAccessGrant r)"
    and pub: "ar_Public r = public"
    using r sk by (auto simp: make_record_def split: sum.splits if_splits)
  have "kv_Get K (key_Hash L key) t = Inr (Some (cut_expiry r))"
    using put_get [OF assms(2) _ _ put] assms(4) r sk sha256_length by (simp add: key_Hash_def)
  then show ?thesis
    using enc pub sk assms(3) by (simp add: Database_Get_def decrypt_encrypt copy_into_def)
qed

lemma Database_Put_error:
  assumes "Database_Put L K allowed rnd key accessGrant public s = Some (Inl e, t)" and "length k = 32"
  shows "kv_Get K k t = kv_Get K k s"
  using assms put_error by (auto simp: Database_Put_def split: sum.splits prod.splits option.splits)

end

text \<open>The badgerauth node is the key/value store of the service.\<close>

definition node_kv :: "'s db \<Rightarrow> (err + pb_record) list \<Rightarrow> (nat \<Rightarrow> err option) \<Rightarrow> time \<Rightarrow> 's kv" where
  "node_kv D answers ctx now =
     \<lparr>kv_Put = (\<lambda>kh r. PutAtTime D ctx kh r now), kv_Get = node_Get D answers, kv_PingDB = PingDB D\<rparr>"

context badger_db
begin

lemma Get_cong: "length kh = 32 \<Longrightarrow> view s kh = view t kh \<Longrightarrow> Get D kh s = Get D kh t"
  by (simp add: Get_ok)

end

sublocale badger_db \<subseteq> node_kv: kv_store "node_kv D answers ctx now"
  "\<lambda>s. store_ok (db_proto D) live (view s)" "\<lambda>r. live (expiry (record_at now r))"
  for answers ctx now
proof
  fix s t kh k r e
  show "kv_Get (node_kv D answers ctx now) kh t = Inr (Some (cut_expiry r))"
    if "store_ok (db_proto D) live (view s)" "length kh = 32" "live (expiry (record_at now r))"
      "kv_Put (node_kv D answers ctx now) kh r s = Some (None, t)"
    using Put_Get [of ctx kh r now s t] that
    by (simp add: node_kv_def node_Get_def store_ok_def to_auth_record_def record_at_def)
  show "kv_Get (node_kv D answers ctx now) k t = kv_Get (node_kv D answers ctx now) k s"
    if "store_ok (db_proto D) live (view s)" "length kh = 32" "length k = 32" "k \<noteq> kh"
      "kv_Put (node_kv D answers ctx now) kh r s = Some (None, t)"
  proof -
    have put: "PutAtTime D ctx kh r now s = Some (None, t)" "clocks_ok (view s)" "length kh = 32"
      using that by (simp_all add: node_kv_def store_ok_def)
    obtain m where "view t = inserted live (cfg_ID (db_config D)) kh (record_at now r) m (view s)"
      using Put_ok [OF put] .
    then have "Get D k t = Get D k s"
      using that id_length by (intro Get_cong) (simp_all add: inserted_record_other)
    then show ?thesis by (simp add: node_kv_def node_Get_def)
  qed
  show "kv_Get (node_kv D answers ctx now) k t = kv_Get (node_kv D answers ctx now) k s"
    if "length k = 32" "kv_Put (node_kv D answers ctx now) kh r s = Some (Some e, t)"
    using Put_error [of ctx kh r now s e t] Get_cong [of k t s] that
    by (simp add: node_kv_def node_Get_def)
qed

context badger_db
begin

lemma node_kv_store:
  "kv_store (node_kv D answers ctx now) (\<lambda>s. store_ok (db_proto D) live (view s))
    (\<lambda>r. live (expiry (record_at now r)))"
  by (rule node_kv.kv_store_axioms)

end

text \<open>A library for the witnesses: nothing is encrypted, every grant names the satellite \<open>sat\<close>.\<close>

definition demo_lib :: auth_lib where
  "demo_lib = \<lparr>lib_ParseAccess = (\<lambda>s. if s = [] then Inl (Message ''grant'')
       else Inr \<lparr>ac_SatelliteAddress = ''sat'', ac_Head = ''head'', ac_Caveats = Inr [''9'', ''5'', ''x'']\<rparr>),
     lib_ParseNodeURL = (\<lambda>s. Inr \<lparr>nu_ID = replicate 32 CHR ''i'', nu_Address = s\<rparr>),
     lib_KnownNodeID = (\<lambda>a. None),
     lib_NotAfter = (\<lambda>c. Inr (if c = ''9'' then Some 9000000000000 else if c = ''5'' then Some 5000000000000 else None)),
     lib_Encrypt = (\<lambda>d k n. Inr d), lib_Decrypt = (\<lambda>d k n. Inr d),
     lib_sha256 = (\<lambda>d. take 32 (d @ replicate 32 NUL))\<rparr>"

interpretation demo_lib: crypto demo_lib
  by unfold_locales (simp_all add: demo_lib_def)

interpretation demo_service: auth_service "node_kv (list_db 1000 test_config) [] (\<lambda>_. None) 7"
  "\<lambda>s. store_ok (db_proto (list_db 1000 test_config)) (unexpired 1000) (list_view s)"
  "\<lambda>r. unexpired 1000 (expiry (record_at 7 r))" demo_lib
  by (intro auth_service.intro list_db.node_kv.kv_store_axioms demo_lib.crypto_axioms)

definition demo_url :: node_url where
  "demo_url = \<lparr>nu_ID = replicate 32 CHR ''i'', nu_Address = ''sat''\<rparr>"

subsection \<open>Properties\<close>

lemma Min_insert_min:
  "finite S \<Longrightarrow> Min (insert (min a x) S) = Min (insert a (insert (x :: 'a::linorder) S))"
  by (cases "S = {}") (simp_all add: min.assoc)

lemma finite_Some [simp]: "finite {x. Some x \<in> set ts}"
  using finite_set [of "somes ts"] by simp

lemma expiration_loop_Min:
  assumes "list_all2 (\<lambda>c t. lib_NotAfter L c = Inr t) cavs ts"
  shows "expiration_loop L cavs e =
    Inr (if somes (e # ts) = [] then None else Some (Min (set (somes (e # ts)))))"
  using assms
proof (induction cavs ts arbitrary: e rule: list_all2_induct)
  case Nil
  show ?case by (cases e) auto
next
  case (Cons c cavs t ts)
  show ?case
  proof (cases t)
    case None
    with Cons show ?thesis by (cases e) simp_all
  next
    case (Some x)
    then have "expiration_loop L (c # cavs) e =
        expiration_loop L cavs (Some (case e of None \<Rightarrow> x | Some y \<Rightarrow> min x y))"
      using Cons(1) by (cases e) (auto simp: min_def)
    then show ?thesis
      unfolding Cons.IH using Some
      by (cases e) (simp_all add: Min_insert_min insert_commute del: Min_insert)
  qed
qed

text \<open>
  The expiry of a stored record is the earliest NotAfter among the caveats of the API key, and
  none when no caveat has one.
\<close>

lemma api_key_expiration:
  assumes "ac_Caveats a = Inr cavs" and "list_all2 (\<lambda>c t. lib_NotAfter L c = Inr t) cavs ts"
  shows "apiKeyExpiration L a = Inr (if somes ts = [] then None else Some (Min (set (somes ts))))"
  using expiration_loop_Min [OF assms(2), of None] assms(1) by (simp add: apiKeyExpiration_def)

lemma api_key_expiration_witness:
  "apiKeyExpiration demo_lib \<lparr>ac_SatelliteAddress = [], ac_Head = [], ac_Caveats = Inr [''9'', ''5'', ''x'']\<rparr>
    = Inr (Some 5000000000000)"
proof -
  have l: "list_all2 (\<lambda>c t. lib_NotAfter demo_lib c = Inr t) [''9'', ''5'', ''x'']
      [Some 9000000000000, Some 5000000000000, None]"
    by (intro list.rel_intros) (simp_all add: demo_lib_def)
  show ?thesis
    by (subst api_key_expiration [OF _ l]) (simp_all del: set_somes)
qed

text \<open>The client's lemma on the badgerauth node.\<close>

lemma node_Put_Get:
  assumes "badger_db D view live" and "crypto L" and "store_ok (db_proto D) live (view s)"
    and "length sk = 32"
    and "Database_Put L (node_kv D answers ctx now) allowed (Inr sk) key accessGrant public s = Some (Inr sk', t)"
    and "\<And>r. make_record L allowed (Inr sk) key accessGrant public = Inr (sk, r) \<Longrightarrow>
      live (expiry (record_at now r))"
  shows "sk' = sk \<and> Database_Get L (node_kv D answers ctx now) key t = Inr (accessGrant, public, sk)"
proof -
  have "auth_service (node_kv D answers ctx now) (\<lambda>s. store_ok (db_proto D) live (view s))
      (\<lambda>r. live (expiry (record_at now r))) L"
    using assms(1,2) badger_db.node_kv_store by (intro auth_service.intro) blast+
  from auth_service.Database_Put_Get [OF this assms(5,3,4,6)] show ?thesis .
qed

text \<open>
  C6: what Database.Put stored, Database.Get returns to whoever has the key: the same access grant,
  the same public flag, and the secret key that Put answered with, as long as the record has not
  expired.  This holds with the badgerauth node as the key/value store, whatever its peers answer.
\<close>

theorem database_put_then_get:
  assumes "badger_db D view live" and "crypto L" and "store_ok (db_proto D) live (view s)"
    and "length sk = 32"
    and "Database_Put L (node_kv D answers ctx now) allowed (Inr sk) key accessGrant public s = Some (Inr sk', t)"
    and "\<And>r. make_record L allowed (Inr sk) key accessGrant public = Inr (sk, r) \<Longrightarrow>
      live (expiry (record_at now r))"
  shows "sk' = sk \<and> Database_Get L (node_kv D answers ctx now) key t = Inr (accessGrant, public, sk)"
  by (rule node_Put_Get [OF assms])

lemma demo_make_record:
  "make_record demo_lib {demo_url} (Inr (replicate 32 CHR ''s'')) (replicate 16 CHR ''k'') ''grant'' True =
    Inr (replicate 32 CHR ''s'', \<lparr>ar_SatelliteAddress = ''sat'', ar_MacaroonHead = ''head'',
      ar_EncryptedSecretKey = replicate 32 CHR ''s'', ar_EncryptedAccessGrant = ''grant'',
      ar_ExpiresAt = Some 5000000000000, ar_Public = True\<rparr>)"
  by (simp add: make_record_def demo_lib_def ParseNodeURL_def demo_url_def apiKeyExpiration_def numeral_eq_Suc)

abbreviation demo_kv :: "(bytes \<times> bytes) list kv" where
  "demo_kv \<equiv> node_kv demo_db [] (\<lambda>_. None) 7"

lemma demo_database_put:
  obtains t where "Database_Put demo_lib demo_kv {demo_url} (Inr (replicate 32 CHR ''s''))
      (replicate 16 CHR ''k'') ''grant'' True [] = Some (Inr (replicate 32 CHR ''s''), t)"
    and "\<And>r. make_record demo_lib {demo_url} (Inr (replicate 32 CHR ''s'')) (replicate 16 CHR ''k'') ''grant'' True =
      Inr (replicate 32 CHR ''s'', r) \<Longrightarrow> unexpired 1000 (expiry (record_at 7 r))"
proof -
  let ?sk = "replicate 32 CHR ''s''" and ?k = "replicate 16 CHR ''k''"
  let ?r = "\<lparr>ar_SatelliteAddress = ''sat'', ar_MacaroonHead = ''head'', ar_EncryptedSecretKey = ?sk,
    ar_EncryptedAccessGrant = ''grant'', ar_ExpiresAt = Some 5000000000000, ar_Public = True\<rparr>"
  obtain m where "pb_marshal (db_proto demo_db) (record_at 7 ?r) = Inr m"
    by (simp add: demo_db_def list_db_def flat_proto_def flat_marshal_def record_at_def
        timeToTimestamp_def unix_def int64_ok_def)
  then obtain t where "PutAtTime demo_db (\<lambda>_. None) (key_Hash demo_lib ?k) ?r 7 [] = Some (None, t)"
    by (rule_tac badger_db_total.Put_total [OF demo_total, where s = "[]" and kh = "key_Hash demo_lib ?k"
          and now = 7 and rec = ?r and ctx = "\<lambda>_. None"])
      (auto simp: key_Hash_def demo_lib.sha256_length)
  then have put: "Database_Put demo_lib demo_kv {demo_url} (Inr ?sk) ?k ''grant'' True [] = Some (Inr ?sk, t)"
    by (simp add: Database_Put_def demo_make_record node_kv_def)
  have live: "unexpired 1000 (expiry (record_at 7 r))"
    if "make_record demo_lib {demo_url} (Inr ?sk) ?k ''grant'' True = Inr (?sk, r)" for r
    using that by (simp add: demo_make_record)
      (auto simp: unexpired_def expiry_def record_at_def timeToTimestamp_def unix_def)
  show thesis by (rule that [OF put live])
qed

lemma database_put_then_get_witness:
  "\<exists>t. Database_Put demo_lib demo_kv {demo_url} (Inr (replicate 32 CHR ''s''))
      (replicate 16 CHR ''k'') ''grant'' True [] = Some (Inr (replicate 32 CHR ''s''), t)
    \<and> Database_Get demo_lib demo_kv (replicate 16 CHR ''k'') t = Inr (''grant'', True, replicate 32 CHR ''s'')"
proof -
  obtain t where put: "Database_Put demo_lib demo_kv {demo_url} (Inr (replicate 32 CHR ''s''))
      (replicate 16 CHR ''k'') ''grant'' True [] = Some (Inr (replicate 32 CHR ''s''), t)"
    and live: "\<And>r. make_record demo_lib {demo_url} (Inr (replicate 32 CHR ''s'')) (replicate 16 CHR ''k'') ''grant'' True =
      Inr (replicate 32 CHR ''s'', r) \<Longrightarrow> unexpired 1000 (expiry (record_at 7 r))"
    by (rule demo_database_put) (rule that)
  have len: "length (replicate 32 CHR ''s'') = 32" by simp
  from put database_put_then_get [OF demo_ok demo_lib.crypto_axioms store_ok_Nil len put live]
  show ?thesis by blast
qed

text \<open>
  An access grant is stored only when it parses and its satellite, found by its node URL, is
  on the allowed list; otherwise Put answers with an error of class "access grant" and the store
  is not touched.
\<close>

lemma put_checks_satellite:
  assumes "Database_Put L K allowed rnd key accessGrant public s = Some (res, t)"
  shows "case lib_ParseAccess L accessGrant of
      Inl e \<Rightarrow> res = Inl (wrap AccessGrantError e) \<and> t = s
    | Inr a \<Rightarrow>
        (case ParseNodeURL L (ac_SatelliteAddress a) of
           Inl e \<Rightarrow> res = Inl (wrap AccessGrantError e) \<and> t = s
         | Inr url \<Rightarrow> url \<notin> allowed \<longrightarrow> (\<exists>e. res = Inl e \<and> has_class AccessGrantError e) \<and> t = s)"
  using assms by (auto simp: Database_Put_def make_record_def split: sum.splits if_splits)

lemma put_checks_satellite_witness:
  "\<exists>e t. Database_Put demo_lib demo_kv {} (Inr []) [] ''grant'' True [] = Some (Inl e, t)
    \<and> has_class AccessGrantError e \<and> t = []"
proof -
  obtain res t where r: "Database_Put demo_lib demo_kv {} (Inr []) [] ''grant'' True [] = Some (res, t)"
    by (simp add: Database_Put_def make_record_def demo_lib_def ParseNodeURL_def numeral_eq_Suc)
  then show ?thesis using put_checks_satellite [OF r]
    by (auto simp: demo_lib_def ParseNodeURL_def numeral_eq_Suc)
qed

lemma length_key_text: "length k = 16 \<Longrightarrow> length (key_ToBase32 k) = EncKeySizeEncoded"
  by (simp add: key_ToBase32_def toBase32_def key_ToBinary_def EncKeySizeEncoded_def b32_encode_def
      length_b32_enc b32_chars_def del: b32_enc.simps)

lemma key_text_roundtrip: "length k = 16 \<Longrightarrow> key_FromBase32 (key_ToBase32 k) = Some (Inr k)"
  using length_key_text [of k]
  by (simp add: key_FromBase32_def key_ToBase32_def toBase32_def upper_lower_b32
      b32_decode_encode key_ToBinary_def key_FromBinary_def copy_into_def)

text \<open>
  The text form of an access key, 28 lowercase base32 characters, is read back as the same
  key, and the text form of a secret key has 53 characters.  The parser panics on 28 line feeds,
  which the base32 decoder strips.
\<close>

lemma access_key_text:
  assumes "length k = 16"
  shows "key_FromBase32 (key_ToBase32 k) = Some (Inr k)
    \<and> length (key_ToBase32 k) = EncKeySizeEncoded
    \<and> (length sk = 32 \<longrightarrow> length (secret_ToBase32 sk) = 53)
    \<and> key_FromBase32 (replicate 28 CHR 0x0A) = None"
proof -
  have "to_upper (replicate 28 CHR 0x0A) = replicate 28 CHR 0x0A" by (simp add: to_upper_def upper_char_def)
  moreover have "b32_decode (replicate 28 CHR 0x0A) = Some []" by (simp add: b32_decode_def b32_strip_def)
  ultimately have "key_FromBase32 (replicate 28 CHR 0x0A) = None"
    by (simp add: key_FromBase32_def EncKeySizeEncoded_def key_FromBinary_def)
  moreover have "length (secret_ToBase32 sk) = 53" if "length sk = 32"
    using that by (simp add: secret_ToBase32_def toBase32_def secret_ToBinary_def b32_encode_def
        length_b32_enc b32_chars_def del: b32_enc.simps)
  ultimately show ?thesis using assms length_key_text key_text_roundtrip by blast
qed

lemma access_key_text_witness:
  "key_FromBase32 (key_ToBase32 (replicate 16 CHR ''k'')) = Some (Inr (replicate 16 CHR ''k''))"
  using access_key_text [of "replicate 16 CHR ''k''" "[]"] by simp

end
