(* ===== verification/HttpAuth.thy ===== *)
theory HttpAuth
  imports AuthDB
begin

section \<open>The auth service over HTTP and DRPC (pkg/auth/httpauth, pkg/auth/drpcauth)\<close>

text \<open>
  The routing of mux.go, the handlers of resources.go and the DRPC server.  A request is what the
  handlers read of it; decoding the JSON body is the standard library's, so a body is what the
  decoder makes of it.  A response is a status with the JSON object the handler encodes.

  Random bytes (the new access key, the secret key) are arguments, as is the KV interface.
\<close>

subsection \<open>Routing\<close>

text \<open>\<open>shift\<close> removes the first component of a path, its leading slash included.\<close>

definition path_trim :: "string \<Rightarrow> string" where
  "path_trim path = (case path of [] \<Rightarrow> [] | c # cs \<Rightarrow> if c = CHR ''/'' then cs else path)"

definition path_shift :: "string \<Rightarrow> string \<times> string" where
  "path_shift path =
     (let split = index_byte CHR ''/'' (path_trim path) + 1
      in if split = 0 then (path, []) else (take (nat split) path, drop (nat split) path))"

datatype endpoint = GetStartup | GetLive | NewAccess | NewAccessCORS | GetAccess | BucketAvailable

datatype mux =
    Dir "(string \<times> mux) list"
  | Capture mux
  | Method "(string \<times> endpoint) list"

datatype routed = Endpoint endpoint "string option" | StatusNotFound | StatusMethodNotAllowed

lemma mux_size: "map_of d k = Some h \<Longrightarrow> size h < size (Dir d)"
  by (induction d) (auto split: if_splits)

lemma capture_size: "size h < size (Capture h)"
  by simp

function route :: "mux \<Rightarrow> string \<Rightarrow> string \<Rightarrow> string option \<Rightarrow> routed" where
  "route (Method ms) meth path arg =
     (case map_of ms meth of Some e \<Rightarrow> Endpoint e arg | None \<Rightarrow> StatusMethodNotAllowed)"
| "route (Dir d) meth path arg =
     (case map_of d (fst (path_shift path)) of
        Some h \<Rightarrow> route h meth (snd (path_shift path)) arg
      | None \<Rightarrow>
          (case map_of d ''*'' of
             Some h \<Rightarrow> route h meth path arg
           | None \<Rightarrow> StatusNotFound))"
| "route (Capture h) meth path arg =
     (if fst (path_shift path) \<noteq> []
      then route h meth (snd (path_shift path)) (Some (path_trim (fst (path_shift path))))
      else StatusNotFound)"
  by pat_completeness auto
termination
  by (relation "measure (\<lambda>(h, _, _, _). size h)") (simp_all add: mux_size capture_size del: mux.size)

definition resources_mux :: mux where
  "resources_mux =
     Dir [(''/v1'', Dir
       [(''/health'', Dir
          [(''/startup'', Dir [('''', Method [(''GET'', GetStartup)])]),
           (''/live'', Dir [('''', Method [(''GET'', GetLive)])])]),
        (''/access'', Dir
          [('''', Method [(''POST'', NewAccess), (''OPTIONS'', NewAccessCORS)]),
           (''*'', Capture (Dir [('''', Method [(''GET'', GetAccess)])]))]),
        (''/bucket'', Dir [('''', Method [(''GET'', BucketAvailable)])])])]"

subsection \<open>Handlers\<close>

datatype json_body = BodyTooLarge | BodyInvalid | BodyDecoded string bool

record http_request =
  rq_Method :: string
  rq_Path :: string
  rq_ContentLength :: int
  rq_Authorization :: string
  rq_Bucket :: string
  rq_Body :: json_body

datatype response_body =
    NoBody
  | ErrorBody
  | AccessCreated string string string
  | AccessBody string string bool
  | BucketBody bool

record http_response =
  rp_Status :: int
  rp_CORS :: bool
  rp_Body :: response_body

record resources =
  rs_endpoint :: string
  rs_authToken :: "string list"
  rs_postSizeLimit :: int
  rs_startup :: bool
  rs_inShutdown :: bool

abbreviation respond :: "int \<Rightarrow> response_body \<Rightarrow> http_response" where
  "respond st b \<equiv> \<lparr>rp_Status = st, rp_CORS = False, rp_Body = b\<rparr>"

definition SetStartupDone :: "resources \<Rightarrow> resources" where
  "SetStartupDone res = res\<lparr>rs_startup := True\<rparr>"

definition SetShutdown :: "resources \<Rightarrow> resources" where
  "SetShutdown res = res\<lparr>rs_inShutdown := True\<rparr>"

definition getStartup :: "resources \<Rightarrow> http_response" where
  "getStartup res = respond (if rs_startup res then 200 else 503) NoBody"

definition getLive :: "resources \<Rightarrow> 's kv \<Rightarrow> 's \<Rightarrow> http_response" where
  "getLive res K s =
     (if \<not> rs_startup res \<or> rs_inShutdown res then respond 503 NoBody
      else if Database_PingDB K s \<noteq> None then respond 503 NoBody
      else respond 200 NoBody)"

text \<open>\<open>newAccess\<close>: \<open>keyRnd\<close> and \<open>skRnd\<close> are the two random reads.\<close>

definition newAccess :: "auth_lib \<Rightarrow> resources \<Rightarrow> 's kv \<Rightarrow> node_url set \<Rightarrow> err + bytes \<Rightarrow> err + bytes
    \<Rightarrow> json_body \<Rightarrow> 's \<Rightarrow> (http_response \<times> 's) option" where
  "newAccess L res K allowed keyRnd skRnd body s =
     (let cors = (\<lambda>st b. \<lparr>rp_Status = st, rp_CORS = True, rp_Body = b\<rparr>)
      in case body of
        BodyTooLarge \<Rightarrow> Some (cors 413 ErrorBody, s)
      | BodyInvalid \<Rightarrow> Some (cors 422 ErrorBody, s)
      | BodyDecoded accessGrant public \<Rightarrow>
          (case NewEncryptionKey keyRnd of
             Inl e \<Rightarrow> Some (cors 500 ErrorBody, s)
           | Inr key \<Rightarrow>
               (case Database_Put L K allowed skRnd key accessGrant public s of
                  None \<Rightarrow> None
                | Some (Inl e, t) \<Rightarrow>
                    Some (cors (if has_class AccessGrantError e then 400 else 500) ErrorBody, t)
                | Some (Inr secretKey, t) \<Rightarrow>
                    Some (cors 200 (AccessCreated (key_ToBase32 key) (secret_ToBase32 secretKey)
                      (rs_endpoint res)), t))))"

definition newAccessCORS :: http_response where
  "newAccessCORS = \<lparr>rp_Status = 200, rp_CORS = True, rp_Body = NoBody\<rparr>"

definition requestAuthorized :: "resources \<Rightarrow> string \<Rightarrow> bool" where
  "requestAuthorized res auth =
     (rs_authToken res = [] \<or> (\<exists>token \<in> set (rs_authToken res). auth = ''Bearer '' @ token))"

definition getAccess :: "auth_lib \<Rightarrow> resources \<Rightarrow> 's kv \<Rightarrow> string \<Rightarrow> string \<Rightarrow> 's \<Rightarrow> http_response option" where
  "getAccess L res K auth ident s =
     (if \<not> requestAuthorized res auth then Some (respond 401 ErrorBody)
      else case key_FromBase32 ident of
        None \<Rightarrow> None
      | Some (Inl e) \<Rightarrow> Some (respond 400 ErrorBody)
      | Some (Inr key) \<Rightarrow>
          (case Database_Get L K key s of
             Inl e \<Rightarrow>
               Some (respond (if has_class NotFoundError e \<or> has_class InvalidRecord e then 401 else 500) ErrorBody)
           | Inr (accessGrant, public, secretKey) \<Rightarrow>
               Some (respond 200 (AccessBody accessGrant (secret_ToBase32 secretKey) public))))"

definition littleSalt :: string where
  "littleSalt = ''my_bucket_name=''"

definition bucket_hash :: "auth_lib \<Rightarrow> string \<Rightarrow> bytes" where
  "bucket_hash L reqName = lib_sha256 L (littleSalt @ to_lower reqName)"

definition getBucket :: "auth_lib \<Rightarrow> resources \<Rightarrow> 's kv \<Rightarrow> string \<Rightarrow> string \<Rightarrow> 's
    \<Rightarrow> (http_response \<times> 's) option" where
  "getBucket L res K auth reqName s =
     (if \<not> requestAuthorized res auth then Some (respond 401 ErrorBody, s)
      else case key_hash_set_bytes (bucket_hash L reqName) of
        Inl e \<Rightarrow> Some (respond 500 ErrorBody, s)
      | Inr kh \<Rightarrow>
          (case GetBucket K kh s of
             Inl e \<Rightarrow> Some (respond 500 ErrorBody, s)
           | Inr True \<Rightarrow> Some (respond 200 (BucketBody False), s)
           | Inr False \<Rightarrow>
               (case PutBucket K kh s of
                  None \<Rightarrow> None
                | Some (Some e, t) \<Rightarrow> Some (respond 500 ErrorBody, t)
                | Some (None, t) \<Rightarrow> Some (respond 200 (BucketBody True), t))))"

text \<open>\<open>Resources.ServeHTTP\<close>: the size check, then the routes.\<close>

definition Resources_ServeHTTP :: "auth_lib \<Rightarrow> resources \<Rightarrow> 's kv \<Rightarrow> node_url set \<Rightarrow> err + bytes
    \<Rightarrow> err + bytes \<Rightarrow> http_request \<Rightarrow> 's \<Rightarrow> (http_response \<times> 's) option" where
  "Resources_ServeHTTP L res K allowed keyRnd skRnd req s =
     (if rq_ContentLength req > rs_postSizeLimit res then Some (respond 413 ErrorBody, s)
      else case route resources_mux (rq_Method req) (rq_Path req) None of
        StatusNotFound \<Rightarrow> Some (respond 404 NoBody, s)
      | StatusMethodNotAllowed \<Rightarrow> Some (respond 405 NoBody, s)
      | Endpoint GetStartup arg \<Rightarrow> Some (getStartup res, s)
      | Endpoint GetLive arg \<Rightarrow> Some (getLive res K s, s)
      | Endpoint NewAccess arg \<Rightarrow> newAccess L res K allowed keyRnd skRnd (rq_Body req) s
      | Endpoint NewAccessCORS arg \<Rightarrow> Some (newAccessCORS, s)
      | Endpoint GetAccess arg \<Rightarrow>
          map_option (\<lambda>r. (r, s))
            (getAccess L res K (rq_Authorization req) (case arg of None \<Rightarrow> [] | Some a \<Rightarrow> a) s)
      | Endpoint BucketAvailable arg \<Rightarrow>
          getBucket L res K (rq_Authorization req) (rq_Bucket req) s)"

subsection \<open>The DRPC server\<close>

definition RegisterAccess :: "auth_lib \<Rightarrow> 's kv \<Rightarrow> node_url set \<Rightarrow> int \<Rightarrow> string \<Rightarrow> err + bytes
    \<Rightarrow> err + bytes \<Rightarrow> string \<Rightarrow> bool \<Rightarrow> 's \<Rightarrow> ((err + (string \<times> string \<times> string)) \<times> 's) option" where
  "RegisterAccess L K allowed sizeLimit ep keyRnd skRnd accessGrant public s =
     (if int (length accessGrant) > sizeLimit
      then Some (Inl (Rpc RpcInvalidArgument (Message ''provided access grant is too large'')), s)
      else case NewEncryptionKey keyRnd of
        Inl e \<Rightarrow> Some (Inl (Rpc RpcInternal e), s)
      | Inr accessKey \<Rightarrow>
          (case Database_Put L K allowed skRnd accessKey accessGrant public s of
             None \<Rightarrow> None
           | Some (Inl e, t) \<Rightarrow> Some (Inl (Rpc RpcInternal e), t)
           | Some (Inr secretKey, t) \<Rightarrow>
               Some (Inr (key_ToBase32 accessKey, secret_ToBase32 secretKey, ep), t)))"

subsection \<open>Facts\<close>

lemma index_byte_absent: "c \<notin> set s \<Longrightarrow> index_byte c s = - 1"
  by (induction s) auto

lemma path_shift_last:
  "CHR ''/'' \<notin> set p \<Longrightarrow> path_shift (CHR ''/'' # p) = (CHR ''/'' # p, [])"
  by (simp add: path_shift_def path_trim_def index_byte_absent)

lemma index_byte_append: "c \<notin> set p \<Longrightarrow> index_byte c (p @ c # q) = int (length p)"
  by (induction p) auto

lemma path_shift_first:
  "CHR ''/'' \<notin> set p \<Longrightarrow> path_shift (CHR ''/'' # p @ CHR ''/'' # q) = (CHR ''/'' # p, CHR ''/'' # q)"
  by (simp add: path_shift_def path_trim_def index_byte_append nat_add_distrib)

lemma path_shift_Nil [simp]: "path_shift [] = ([], [])"
  by (simp add: path_shift_def path_trim_def)

lemma path_trim_Cons [simp]: "path_trim (CHR ''/'' # p) = p"
  by (simp add: path_trim_def)

text \<open>A request path is its components, each behind a slash.\<close>

fun path_of :: "string list \<Rightarrow> string" where
  "path_of [] = []"
| "path_of (p # ps) = CHR ''/'' # p @ path_of ps"

lemma path_shift_path_of:
  "CHR ''/'' \<notin> set p \<Longrightarrow> path_shift (path_of (p # ps)) = (CHR ''/'' # p, path_of ps)"
  by (cases ps) (simp_all add: path_shift_last path_shift_first)

text \<open>
  The routing table as a specification over path components: the three fixed resources, the
  collection of accesses, and one access by its identifier.
\<close>

definition routed_spec :: "string \<Rightarrow> string list \<Rightarrow> routed" where
  "routed_spec meth ps =
     (let only = (\<lambda>m e. if meth = m then Endpoint e None else StatusMethodNotAllowed)
      in if ps = [''v1'', ''health'', ''startup''] then only ''GET'' GetStartup
         else if ps = [''v1'', ''health'', ''live''] then only ''GET'' GetLive
         else if ps = [''v1'', ''access''] then
           (if meth = ''POST'' then Endpoint NewAccess None else only ''OPTIONS'' NewAccessCORS)
         else if ps = [''v1'', ''bucket''] then only ''GET'' BucketAvailable
         else if length ps = 3 \<and> take 2 ps = [''v1'', ''access''] then
           (if meth = ''GET'' then Endpoint GetAccess (Some (ps ! 2)) else StatusMethodNotAllowed)
         else StatusNotFound)"

lemma path_shift_path_of_eq:
  "\<forall>p \<in> set ps. CHR ''/'' \<notin> set p \<Longrightarrow>
    path_shift (path_of ps) = (case ps of [] \<Rightarrow> ([], []) | p # qs \<Rightarrow> (CHR ''/'' # p, path_of qs))"
  by (cases ps) (auto simp: path_shift_path_of simp del: path_of.simps(2))

lemma route_path_of:
  assumes "\<forall>p \<in> set ps. CHR ''/'' \<notin> set p"
  shows "route resources_mux meth (path_of ps) None = routed_spec meth ps"
proof -
  consider "ps = []" | a where "ps = [a]" | a b where "ps = [a, b]" | a b c where "ps = [a, b, c]"
    | a b c d cs where "ps = a # b # c # d # cs"
    by (metis list.exhaust)
  then show ?thesis
    using assms
    by cases (auto simp: resources_mux_def routed_spec_def path_shift_path_of simp del: path_of.simps(2))
qed

text \<open>
  The HTTP routes are exactly these: for every path made of components without slashes, the
  table of nested directories, the wildcard and the captured identifier give the resource, the
  method error or the not-found that the specification names.
\<close>

lemma routes:
  assumes "\<forall>p \<in> set ps. CHR ''/'' \<notin> set p"
  shows "route resources_mux meth (path_of ps) None = routed_spec meth ps"
  by (rule route_path_of [OF assms])

lemma routes_witness:
  "route resources_mux ''GET'' ''/v1/access/abc'' None = Endpoint GetAccess (Some ''abc'')"
  using routes [of "[''v1'', ''access'', ''abc'']" "''GET''"] by (simp add: routed_spec_def)

lemma base32_char:
  assumes "c \<in> set (toBase32 k)"
  shows "(97 \<le> code c \<and> code c \<le> 122) \<or> (50 \<le> code c \<and> code c \<le> 55)"
proof -
  obtain d where "d < 32" and "c = lower_char (b32_char d)"
    using assms b32_enc_less by (auto simp: toBase32_def to_lower_def b32_encode_def)
  then show ?thesis using b32_char_range [of d] by (auto simp: lower_char_def split: if_splits)
qed

lemma slash_not_in_base32: "CHR ''/'' \<notin> set (toBase32 k)"
  using base32_char [of "CHR ''/''"] by auto

lemma serve_register_then_get:
  assumes "badger_db D view live" and "crypto L" and "store_ok (db_proto D) live (view s)"
    and "length key = 16" and "length sk = 32" and "K = node_kv D answers ctx now"
    and "Resources_ServeHTTP L res K allowed (Inr key) (Inr sk) req s = Some (rsp, t)"
    and "rq_Path req = ''/v1/access''" and "rq_Body req = BodyDecoded accessGrant public"
    and "rp_Body rsp = AccessCreated keyID secret ep"
    and "\<And>r. make_record L allowed (Inr sk) key accessGrant public = Inr (sk, r) \<Longrightarrow>
      live (expiry (record_at now r))"
    and "rq_Method req' = ''GET''" and "rq_Path req' = ''/v1/access/'' @ keyID"
    and "rq_ContentLength req' \<le> rs_postSizeLimit res"
    and "requestAuthorized res (rq_Authorization req')"
  shows "keyID = key_ToBase32 key \<and> Resources_ServeHTTP L res K allowed kr skr req' t =
    Some (respond 200 (AccessBody accessGrant secret public), t)"
proof -
  have "route resources_mux (rq_Method req) (rq_Path req) None = routed_spec (rq_Method req) [''v1'', ''access'']"
    using route_path_of [of "[''v1'', ''access'']"] assms(8) by simp
  then have "newAccess L res K allowed (Inr key) (Inr sk) (BodyDecoded accessGrant public) s = Some (rsp, t)"
    using assms(7,9,10)
    by (auto simp: Resources_ServeHTTP_def routed_spec_def newAccessCORS_def Let_def split: if_splits)
  then obtain sk' where put: "Database_Put L K allowed (Inr sk) key accessGrant public s = Some (Inr sk', t)"
    and ids: "keyID = key_ToBase32 key" "secret = secret_ToBase32 sk'"
    using assms(10)
    by (auto simp: newAccess_def NewEncryptionKey_def split: option.splits sum.splits prod.splits if_splits)
  have get: "sk' = sk \<and> Database_Get L K key t = Inr (accessGrant, public, sk)"
    using node_Put_Get [OF assms(1,2,3,5) put [unfolded assms(6)] assms(11)] assms(6) by blast
  then have ident: "keyID = key_ToBase32 key" "secret = secret_ToBase32 sk" using ids by simp_all
  have "route resources_mux ''GET'' (''/v1/access/'' @ keyID) None = Endpoint GetAccess (Some keyID)"
    using route_path_of [of "[''v1'', ''access'', keyID]" "''GET''"] slash_not_in_base32
    by (simp add: ident key_ToBase32_def routed_spec_def)
  moreover have "getAccess L res K (rq_Authorization req') keyID t =
      Some (respond 200 (AccessBody accessGrant secret public))"
    using key_text_roundtrip [OF assms(4)] get assms(15) by (simp add: getAccess_def ident)
  ultimately show ?thesis
    using assms(12-14) ident(1) by (simp add: Resources_ServeHTTP_def)
qed

text \<open>
  The credentials that a successful POST /v1/access answers with open the access grant again:
  GET /v1/access with the returned access key ID, by an authorized client, gives the same grant,
  secret key and public flag, as long as the record has not expired.
\<close>

lemma http_register_then_resolve:
  assumes "badger_db D view live" and "crypto L" and "store_ok (db_proto D) live (view s)"
    and "length key = 16" and "length sk = 32" and "K = node_kv D answers ctx now"
    and "Resources_ServeHTTP L res K allowed (Inr key) (Inr sk) req s = Some (rsp, t)"
    and "rq_Path req = ''/v1/access''" and "rq_Body req = BodyDecoded accessGrant public"
    and "rp_Body rsp = AccessCreated keyID secret ep"
    and "\<And>r. make_record L allowed (Inr sk) key accessGrant public = Inr (sk, r) \<Longrightarrow>
      live (expiry (record_at now r))"
    and "rq_Method req' = ''GET''" and "rq_Path req' = ''/v1/access/'' @ keyID"
    and "rq_ContentLength req' \<le> rs_postSizeLimit res"
    and "requestAuthorized res (rq_Authorization req')"
  shows "Resources_ServeHTTP L res K allowed kr skr req' t =
    Some (respond 200 (AccessBody accessGrant secret public), t)"
  by (rule serve_register_then_get [THEN conjunct2, OF assms(1-10) _ assms(12-15)]) (rule assms(11))

definition demo_resources :: resources where
  "demo_resources = \<lparr>rs_endpoint = ''https://gw'', rs_authToken = [''tok''], rs_postSizeLimit = 4096,
     rs_startup = True, rs_inShutdown = False\<rparr>"

definition demo_post :: http_request where
  "demo_post = \<lparr>rq_Method = ''POST'', rq_Path = ''/v1/access'', rq_ContentLength = 40, rq_Authorization = [],
     rq_Bucket = [], rq_Body = BodyDecoded ''grant'' True\<rparr>"

definition demo_get :: "string \<Rightarrow> http_request" where
  "demo_get keyID = \<lparr>rq_Method = ''GET'', rq_Path = ''/v1/access/'' @ keyID, rq_ContentLength = 0,
     rq_Authorization = ''Bearer tok'', rq_Bucket = [], rq_Body = BodyInvalid\<rparr>"

lemma demo_route_post: "route resources_mux ''POST'' ''/v1/access'' None = Endpoint NewAccess None"
  using route_path_of [of "[''v1'', ''access'']" "''POST''"] by (simp add: routed_spec_def)

lemma demo_registered:
  obtains rsp t where "Resources_ServeHTTP demo_lib demo_resources demo_kv {demo_url} (Inr (replicate 16 CHR ''k''))
       (Inr (replicate 32 CHR ''s'')) demo_post [] = Some (rsp, t)"
    and "rp_Body rsp = AccessCreated (key_ToBase32 (replicate 16 CHR ''k'')) (secret_ToBase32 (replicate 32 CHR ''s'')) ''https://gw''"
    and "\<And>r. make_record demo_lib {demo_url} (Inr (replicate 32 CHR ''s'')) (replicate 16 CHR ''k'') ''grant'' True =
      Inr (replicate 32 CHR ''s'', r) \<Longrightarrow> unexpired 1000 (expiry (record_at 7 r))"
proof -
  let ?k = "replicate 16 CHR ''k''" and ?sk = "replicate 32 CHR ''s''"
  obtain t where put: "Database_Put demo_lib demo_kv {demo_url} (Inr ?sk) ?k ''grant'' True [] = Some (Inr ?sk, t)"
    and live: "\<And>r. make_record demo_lib {demo_url} (Inr ?sk) ?k ''grant'' True = Inr (?sk, r) \<Longrightarrow>
      unexpired 1000 (expiry (record_at 7 r))"
    by (rule demo_database_put) (rule that)
  obtain rsp where r: "Resources_ServeHTTP demo_lib demo_resources demo_kv {demo_url} (Inr ?k) (Inr ?sk) demo_post [] = Some (rsp, t)"
    and b: "rp_Body rsp = AccessCreated (key_ToBase32 ?k) (secret_ToBase32 ?sk) ''https://gw''"
    by (simp add: Resources_ServeHTTP_def demo_post_def demo_route_post newAccess_def NewEncryptionKey_def put
        demo_resources_def)
  show thesis by (rule that [OF r b live])
qed

lemma http_register_then_resolve_witness:
  "\<exists>rsp t keyID secret ep.
     Resources_ServeHTTP demo_lib demo_resources demo_kv {demo_url} (Inr (replicate 16 CHR ''k''))
       (Inr (replicate 32 CHR ''s'')) demo_post [] = Some (rsp, t)
     \<and> rp_Body rsp = AccessCreated keyID secret ep
     \<and> Resources_ServeHTTP demo_lib demo_resources demo_kv {demo_url} (Inr []) (Inr []) (demo_get keyID) t
       = Some (respond 200 (AccessBody ''grant'' secret True), t)"
proof -
  let ?k = "replicate 16 CHR ''k''" and ?sk = "replicate 32 CHR ''s''"
  obtain rsp t where r: "Resources_ServeHTTP demo_lib demo_resources demo_kv {demo_url} (Inr ?k) (Inr ?sk) demo_post [] = Some (rsp, t)"
    and b: "rp_Body rsp = AccessCreated (key_ToBase32 ?k) (secret_ToBase32 ?sk) ''https://gw''"
    and live: "\<And>r. make_record demo_lib {demo_url} (Inr ?sk) ?k ''grant'' True = Inr (?sk, r) \<Longrightarrow>
      unexpired 1000 (expiry (record_at 7 r))"
    by (rule demo_registered) (rule that)
  have "Resources_ServeHTTP demo_lib demo_resources demo_kv {demo_url} (Inr []) (Inr []) (demo_get (key_ToBase32 ?k)) t
       = Some (respond 200 (AccessBody ''grant'' (secret_ToBase32 ?sk) True), t)"
    by (rule http_register_then_resolve [OF demo_ok demo_lib.crypto_axioms store_ok_Nil _ _ refl r _ _ b live])
      (simp_all add: demo_post_def demo_get_def demo_resources_def requestAuthorized_def)
  with r b show ?thesis by blast
qed

text \<open>
  GET /v1/access is answered with 401 to a client without one of the configured tokens, with
  400 when the identifier is not an access key, with 401 when the key is unknown or its record is
  invalid, with 500 on any other failure of the store, and only otherwise with 200.  With no token
  configured every client is authorized.
\<close>

lemma get_access_statuses:
  assumes "getAccess L res K auth ident s = Some rsp"
  shows "rp_Status rsp =
     (if rs_authToken res \<noteq> [] \<and> (\<forall>token \<in> set (rs_authToken res). auth \<noteq> ''Bearer '' @ token) then 401
      else case key_FromBase32 ident of
        Some (Inr key) \<Rightarrow>
          (case Database_Get L K key s of
             Inr x \<Rightarrow> 200
           | Inl e \<Rightarrow> if has_class NotFoundError e \<or> has_class InvalidRecord e then 401 else 500)
      | _ \<Rightarrow> 400)
    \<and> (rp_Status rsp \<noteq> 200 \<longrightarrow> rp_Body rsp = ErrorBody)"
  using assms
  by (auto simp: getAccess_def requestAuthorized_def split: if_splits option.splits sum.splits prod.splits)

lemma get_access_statuses_witness:
  "\<exists>rsp. getAccess demo_lib demo_resources demo_kv ''Bearer tok'' (key_ToBase32 (replicate 16 CHR ''k'')) [] = Some rsp
    \<and> rp_Status rsp = 401"
proof -
  let ?i = "key_ToBase32 (replicate 16 CHR ''k'')"
  have k: "key_FromBase32 ?i = Some (Inr (replicate 16 CHR ''k''))"
    by (rule key_text_roundtrip) simp
  have g: "Database_Get demo_lib demo_kv (replicate 16 CHR ''k'') [] = Inl (Classed NotFoundError (Message ''key hash''))"
    using badger_db.Get_ok [OF demo_ok, of "key_Hash demo_lib (replicate 16 CHR ''k'')" "[]"]
    by (simp add: Database_Get_def node_kv_def node_Get_def key_Hash_def demo_lib.sha256_length)
  obtain rsp where r: "getAccess demo_lib demo_resources demo_kv ''Bearer tok'' ?i [] = Some rsp"
    by (simp add: getAccess_def requestAuthorized_def demo_resources_def k g)
  from r get_access_statuses [OF r] k g show ?thesis by (simp add: demo_resources_def)
qed

text \<open>
  The first request for a free bucket name reserves it and answers that it is available; from
  then on the same name, in any case of its letters, is answered as taken.
\<close>

lemma bucket_reserved_once:
  assumes "badger_db D view live" and "crypto L" and "store_ok (db_proto D) live (view s)"
    and "K = node_kv D [] ctx now" and "requestAuthorized res auth"
    and "getBucket L res K auth name s = Some (rsp, t)" and "rp_Body rsp = BucketBody True"
    and "to_lower name' = to_lower name"
  shows "getBucket L res K auth name' t = Some (respond 200 (BucketBody False), t)"
proof -
  let ?h = "bucket_hash L name"
  have h: "length ?h = 32" "key_hash_set_bytes ?h = Inr ?h"
    using crypto.sha256_length [OF assms(2)] by (simp_all add: bucket_hash_def)
  from assms(5-7) h have put: "kv_Put K ?h empty_record s = Some (None, t)"
    by (auto simp: getBucket_def PutBucket_def split: sum.splits bool.splits option.splits prod.splits)
  have kv: "kv_store K (\<lambda>s. store_ok (db_proto D) live (view s)) (\<lambda>r. live (expiry (record_at now r)))"
    unfolding assms(4) by (rule badger_db.node_kv_store [OF assms(1)])
  have "live (expiry (record_at now empty_record))"
    using assms(1) badger_txn.live_0
    by (auto simp: expiry_def record_at_def empty_record_def timeToTimestamp_def badger_db_def)
  then have "kv_Get K ?h t = Inr (Some (cut_expiry empty_record))"
    using kv_store.put_get [OF kv assms(3) h(1) _ put] by blast
  moreover have "bucket_hash L name' = ?h" using assms(8) by (simp add: bucket_hash_def)
  ultimately show ?thesis using assms(5) h by (simp add: getBucket_def GetBucket_def)
qed

lemma bucket_reserved_once_witness:
  "\<exists>rsp t. getBucket demo_lib demo_resources demo_kv ''Bearer tok'' ''My-Bucket'' [] = Some (rsp, t)
    \<and> rp_Body rsp = BucketBody True
    \<and> getBucket demo_lib demo_resources demo_kv ''Bearer tok'' ''my-bucket'' t = Some (respond 200 (BucketBody False), t)"
proof -
  let ?h = "bucket_hash demo_lib ''My-Bucket''"
  have h: "length ?h = 32" by (simp add: bucket_hash_def demo_lib.sha256_length)
  obtain m where "pb_marshal (db_proto demo_db) (record_at 7 empty_record) = Inr m"
    by (simp add: demo_db_def list_db_def flat_proto_def flat_marshal_def record_at_def empty_record_def
        timeToTimestamp_def unix_def int64_ok_def)
  then obtain t where t: "PutAtTime demo_db (\<lambda>_. None) ?h empty_record 7 [] = Some (None, t)"
    by (rule_tac badger_db_total.Put_total [OF demo_total, where s = "[]" and kh = ?h
          and now = 7 and rec = empty_record and ctx = "\<lambda>_. None"]) (auto simp: h)
  have auth: "requestAuthorized demo_resources ''Bearer tok''"
    by (simp add: requestAuthorized_def demo_resources_def)
  have "kv_Get demo_kv ?h [] = Inr None"
    using badger_db.Get_ok [OF demo_ok h, of "[]"] by (simp add: node_kv_def node_Get_def)
  then obtain rsp where r: "getBucket demo_lib demo_resources demo_kv ''Bearer tok'' ''My-Bucket'' [] = Some (rsp, t)"
    "rp_Body rsp = BucketBody True"
    using auth h t by (simp add: getBucket_def GetBucket_def PutBucket_def node_kv_def)
  have low: "to_lower ''my-bucket'' = to_lower ''My-Bucket''" by code_simp
  from r bucket_reserved_once [OF demo_ok demo_lib.crypto_axioms store_ok_Nil refl auth r low]
  show ?thesis by blast
qed

end
