(* ===== verification/GoPath.thy ===== *)
theory GoPath
  imports GoStrings
begin

section \<open>Slash-separated paths (Go's package path)\<close>

text \<open>
  \<open>path.Clean\<close> and \<open>path.Join\<close>: empty and \<open>.\<close> elements disappear, \<open>..\<close> takes the element before it
  away, at the root it disappears.  The lemma says when joining is plain concatenation.
\<close>

fun clean_elems :: "bool \<Rightarrow> string list \<Rightarrow> string list \<Rightarrow> string list" where
  "clean_elems rooted out [] = rev out"
| "clean_elems rooted out (e # es) =
     (if e = [] \<or> e = ''.'' then clean_elems rooted out es
      else if e = ''..'' then
        (case out of
           [] \<Rightarrow> clean_elems rooted (if rooted then [] else [''..'']) es
         | p # ps \<Rightarrow> clean_elems rooted (if p = ''..'' then ''..'' # out else ps) es)
      else clean_elems rooted (e # out) es)"

definition path_clean :: "string \<Rightarrow> string" where
  "path_clean p =
     (if p = [] then ''.''
      else if hd p = CHR ''/'' then CHR ''/'' # join ''/'' (clean_elems True [] (split_on CHR ''/'' p))
      else case clean_elems False [] (split_on CHR ''/'' p) of [] \<Rightarrow> ''.'' | es \<Rightarrow> join ''/'' es)"

definition path_join :: "string list \<Rightarrow> string" where
  "path_join es =
     (case filter (\<lambda>e. e \<noteq> []) es of [] \<Rightarrow> [] | fs \<Rightarrow> path_clean (join ''/'' fs))"

definition plain_elem :: "string \<Rightarrow> bool" where
  "plain_elem e = (e \<noteq> [] \<and> e \<noteq> ''.'' \<and> e \<noteq> ''..'' \<and> CHR ''/'' \<notin> set e)"

lemma clean_elems_plain: "\<forall>e \<in> set es. plain_elem e \<Longrightarrow> clean_elems r out es = rev out @ es"
  by (induction es arbitrary: out) (auto simp: plain_elem_def)

lemma path_clean_rooted:
  assumes "es \<noteq> []" and "\<forall>e \<in> set es. plain_elem e"
  shows "path_clean (CHR ''/'' # join ''/'' es) = CHR ''/'' # join ''/'' es"
proof -
  have "split_on CHR ''/'' (join ''/'' es) = es"
    using assms by (intro split_on_join) (auto simp: plain_elem_def)
  then show ?thesis
    using assms(2) by (simp add: path_clean_def clean_elems_plain)
qed

end
