(* ===== verification/AuthClient.thy ===== *)
theory AuthClient
  imports HttpAuth TrustedIP GoPath
begin

section \<open>The client of the authentication service (pkg/authclient)\<close>

text \<open>
  \<open>Resolve\<close> asks the authentication service for the access grant behind an access key and retries
  with exponential backoff; \<open>ResolveWithCache\<close> puts an LRU cache before it, whose entries are
  encrypted under the access key.  The network is the argument \<open>svc\<close>: what the \<open>n\<close>-th request is
  answered with.  The loop may not end, so it is a partial function; \<open>None\<close> is "does not return".
  Parsing a URL and building a key of bytes are the record \<open>client_lib\<close>; the cache is the record
  \<open>lru\<close>, whose laws are the locale \<open>lru_cache\<close>.
\<close>

subsection \<open>Requests and answers\<close>

record url =
  url_Scheme :: string
  url_Host :: string
  url_Path :: string

record access_request =
  arq_URL :: url
  arq_Header :: header

record auth_response =
  au_AccessGrant :: string
  au_SecretKey :: string
  au_Public :: bool

definition no_response :: auth_response where
  "no_response = \<lparr>au_AccessGrant = [], au_SecretKey = [], au_Public = False\<rparr>"

text \<open>An answer: a transport error, or a status with its text and the decoding of the body.\<close>

datatype answer = NoAnswer err | Answer int string "err + auth_response"

record client_lib =
  cl_crypto :: auth_lib
  cl_NewKey :: "bytes \<Rightarrow> err + bytes"
  cl_Parse :: "string \<Rightarrow> err + url"
  cl_ParseRef :: "url \<Rightarrow> string \<Rightarrow> err + url"

record client_config =
  cc_BaseURL :: string
  cc_Token :: string
  cc_BackOff :: backoff

definition Config_Validate :: "client_lib \<Rightarrow> client_config \<Rightarrow> err option" where
  "Config_Validate L a =
     (if cc_Token a = [] then Some (Classed AuthServiceError (Message ''token parameter is missing''))
      else case cl_Parse L (cc_BaseURL a) of
        Inl e \<Rightarrow> Some (with_status (wrap AuthServiceError e) 500)
      | Inr reqURL \<Rightarrow>
          if url_Scheme reqURL \<noteq> ''http'' \<and> url_Scheme reqURL \<noteq> ''https''
          then Some (Classed AuthServiceError (Message ''unexpected scheme found in endpoint parameter''))
          else if url_Host reqURL = []
          then Some (Classed AuthServiceError (Message ''host missing in parameter''))
          else None)"

definition XStorjRequestID :: string where
  "XStorjRequestID = ''X-Storj-Request-Id''"

text \<open>\<open>AddRequestIDToHeaders\<close> (pkg/middleware): the ID is empty when the context holds none.\<close>

definition AddRequestIDToHeaders :: "string \<Rightarrow> header \<Rightarrow> header" where
  "AddRequestIDToHeaders requestID h = header_set XStorjRequestID requestID h"

definition access_req :: "client_config \<Rightarrow> url \<Rightarrow> string \<Rightarrow> string \<Rightarrow> string \<Rightarrow> access_request" where
  "access_req a base accessKeyID clientIP requestID =
     \<lparr>arq_URL = base\<lparr>url_Path := path_join [url_Path base, ''/v1/access'', accessKeyID]\<rparr>,
      arq_Header = AddRequestIDToHeaders requestID
        (header_set ''Forwarded'' (''for='' @ clientIP)
          (header_set ''Authorization'' (''Bearer '' @ cc_Token a) []))\<rparr>"

subsection \<open>Resolve\<close>

text \<open>What the anonymous function of the loop makes of an answer: retry, or the result.\<close>

definition read_answer :: "bool \<Rightarrow> int \<Rightarrow> string \<Rightarrow> err + auth_response \<Rightarrow> (err + auth_response) option" where
  "read_answer maxed st txt body =
     (if st = 500 then None
      else if st \<noteq> 200 then Some (Inl (with_status (Classed AuthServiceError (Message txt)) st))
      else case body of
        Inl e \<Rightarrow> if \<not> maxed then None else Some (Inl (with_status (wrap AuthServiceError e) 500))
      | Inr r \<Rightarrow> Some (Inr r))"

abbreviation interrupted :: "err \<Rightarrow> err" where
  "interrupted e \<equiv> with_status (wrap AuthServiceError e) HTTPStatusClientClosedRequest"

partial_function (option) resolve_loop ::
  "(nat \<Rightarrow> answer) \<Rightarrow> (nat \<Rightarrow> err option) \<Rightarrow> backoff \<Rightarrow> nat \<Rightarrow> (err + auth_response) option" where
  "resolve_loop svc ctx delay n =
     (case svc n of
        NoAnswer e \<Rightarrow>
          (if \<not> fst (bo_maxed delay)
           then (case bo_wait (ctx n) delay of
                   (Some w, delay') \<Rightarrow> Some (Inl (interrupted w))
                 | (None, delay') \<Rightarrow> resolve_loop svc ctx delay' (Suc n))
           else Some (Inl (with_status (wrap AuthServiceError e) 500)))
      | Answer st txt body \<Rightarrow>
          (case read_answer (fst (bo_maxed delay)) st txt body of
             Some r \<Rightarrow> Some r
           | None \<Rightarrow>
               (case bo_wait (ctx n) delay of
                  (Some w, delay') \<Rightarrow> Some (Inl (interrupted w))
                | (None, delay') \<Rightarrow> resolve_loop svc ctx delay' (Suc n))))"

definition Resolve :: "client_lib \<Rightarrow> client_config \<Rightarrow> (access_request \<Rightarrow> nat \<Rightarrow> answer)
    \<Rightarrow> (nat \<Rightarrow> err option) \<Rightarrow> string \<Rightarrow> string \<Rightarrow> string \<Rightarrow> (err + auth_response) option" where
  "Resolve L a svc ctx requestID accessKeyID clientIP =
     (if length accessKeyID = 0
      then Some (Inl (with_status (Classed AuthServiceError (Message ''Access Key ID is empty'')) 400))
      else case key_FromBase32 accessKeyID of
        None \<Rightarrow> None
      | Some (Inl e) \<Rightarrow>
          Some (Inl (with_status (Classed AuthServiceError (Detail ''Access Key ID is invalid: '' e)) 400))
      | Some (Inr _) \<Rightarrow>
          (case cl_Parse L (cc_BaseURL a) of
             Inl e \<Rightarrow> Some (Inl (with_status (wrap AuthServiceError e) 500))
           | Inr base \<Rightarrow>
               resolve_loop (svc (access_req a base accessKeyID clientIP requestID)) ctx (cc_BackOff a) 0))"

subsection \<open>The encrypted cache\<close>

record cached =
  ca_accessGrant :: bytes
  ca_secretKey :: bytes
  ca_public :: bool
  ca_err :: "err option"

definition encryptResponse :: "client_lib \<Rightarrow> string \<Rightarrow> auth_response \<Rightarrow> err option \<Rightarrow> err + cached" where
  "encryptResponse L accessKeyID resp respErr =
     (case cl_NewKey L accessKeyID of
        Inl e \<Rightarrow> Inl (wrap CacheEncryptError e)
      | Inr key \<Rightarrow>
          (case lib_Encrypt (cl_crypto L) (au_SecretKey resp) key secret_nonce of
             Inl e \<Rightarrow> Inl (wrap CacheEncryptError e)
           | Inr secretKey \<Rightarrow>
               (case lib_Encrypt (cl_crypto L) (au_AccessGrant resp) key grant_nonce of
                  Inl e \<Rightarrow> Inl (wrap CacheEncryptError e)
                | Inr accessGrant \<Rightarrow>
                    Inr \<lparr>ca_accessGrant = accessGrant, ca_secretKey = secretKey,
                         ca_public = au_Public resp, ca_err = respErr\<rparr>)))"

definition decryptResponse :: "client_lib \<Rightarrow> cached \<Rightarrow> string \<Rightarrow> err + auth_response" where
  "decryptResponse L resp accessKeyID =
     (case cl_NewKey L accessKeyID of
        Inl e \<Rightarrow> Inl (wrap CacheDecryptError e)
      | Inr key \<Rightarrow>
          (case lib_Decrypt (cl_crypto L) (ca_secretKey resp) key secret_nonce of
             Inl e \<Rightarrow> Inl (wrap CacheDecryptError e)
           | Inr secretKey \<Rightarrow>
               (case lib_Decrypt (cl_crypto L) (ca_accessGrant resp) key grant_nonce of
                  Inl e \<Rightarrow> Inl (wrap CacheDecryptError e)
                | Inr accessGrant \<Rightarrow>
                    Inr \<lparr>au_AccessGrant = accessGrant, au_SecretKey = secretKey, au_Public = ca_public resp\<rparr>)))"

text \<open>
  The LRU cache: a lookup, which may move or drop entries, and an insertion.  \<open>Get\<close> of the library
  calls the function when there is no entry and stores its result unless it failed.
\<close>

record ('v, 'c) lru =
  lru_Load :: "string \<Rightarrow> 'c \<Rightarrow> 'v option \<times> 'c"
  lru_Store :: "string \<Rightarrow> 'v \<Rightarrow> 'c \<Rightarrow> 'c"

definition fill_cache :: "client_lib \<Rightarrow> string \<Rightarrow> err + auth_response \<Rightarrow> err + cached" where
  "fill_cache L accessKeyID r =
     (let response = (case r of Inr a \<Rightarrow> a | Inl _ \<Rightarrow> no_response);
          e = (case r of Inl x \<Rightarrow> Some x | Inr _ \<Rightarrow> None);
          status = get_status e 200
      in if status = 200 \<or> status = 404 then encryptResponse L accessKeyID response e
         else (case e of Some x \<Rightarrow> Inl x | None \<Rightarrow> Inr (\<lparr>ca_accessGrant = [], ca_secretKey = [], ca_public = False, ca_err = None\<rparr>)))"

definition ResolveWithCache :: "client_lib \<Rightarrow> (cached, 'c) lru option \<Rightarrow> client_config
    \<Rightarrow> (access_request \<Rightarrow> nat \<Rightarrow> answer) \<Rightarrow> (nat \<Rightarrow> err option) \<Rightarrow> string \<Rightarrow> string \<Rightarrow> string \<Rightarrow> 'c
    \<Rightarrow> ((err + auth_response) \<times> 'c) option" where
  "ResolveWithCache L cache a svc ctx requestID accessKeyID clientIP c =
     (case cache of
        None \<Rightarrow> map_option (\<lambda>r. (r, c)) (Resolve L a svc ctx requestID accessKeyID clientIP)
      | Some C \<Rightarrow>
          (let finish = (\<lambda>v d. Some (case decryptResponse L v accessKeyID of
                 Inl e \<Rightarrow> (Inl e, d)
               | Inr decResp \<Rightarrow> (case ca_err v of Some e \<Rightarrow> (Inl e, d) | None \<Rightarrow> (Inr decResp, d))))
           in case lru_Load C accessKeyID c of
                (Some v, d) \<Rightarrow> finish v d
              | (None, d) \<Rightarrow>
                  (case Resolve L a svc ctx requestID accessKeyID clientIP of
                     None \<Rightarrow> None
                   | Some r \<Rightarrow>
                       (case fill_cache L accessKeyID r of
                          Inl e \<Rightarrow> Some (Inl e, d)
                        | Inr v \<Rightarrow> finish v (lru_Store C accessKeyID v d)))))"

subsection \<open>GetHealthLive\<close>

text \<open>\<open>res\<close> is the status of the answer and the error of closing its body.\<close>

definition GetHealthLive :: "client_lib \<Rightarrow> client_config
    \<Rightarrow> (access_request \<Rightarrow> err + (int \<times> string \<times> err option)) \<Rightarrow> bool \<times> err option" where
  "GetHealthLive L a svc =
     (case cl_Parse L (cc_BaseURL a) of
        Inl e \<Rightarrow> (False, Some (with_status (wrap AuthServiceError e) 400))
      | Inr baseURL \<Rightarrow>
          (case cl_ParseRef L baseURL ''/v1/health/live'' of
             Inl e \<Rightarrow> (False, Some (with_status (wrap AuthServiceError e) 400))
           | Inr healthLiveURL \<Rightarrow>
               (case svc \<lparr>arq_URL = healthLiveURL,
                          arq_Header = header_set ''Authorization'' (''Bearer '' @ cc_Token a) []\<rparr> of
                  Inl e \<Rightarrow> (False, Some (wrap AuthServiceError e))
                | Inr (st, txt, closeErr) \<Rightarrow>
                    if st \<noteq> 200
                    then (False, combine [Some (Classed AuthServiceError (Message txt)), wrap_opt AuthServiceError closeErr])
                    else (True, combine [None, wrap_opt AuthServiceError closeErr]))))"

subsection \<open>Facts\<close>

definition is_500 :: "answer \<Rightarrow> bool" where
  "is_500 x = (case x of NoAnswer e \<Rightarrow> False | Answer st txt body \<Rightarrow> st = 500)"

lemma resolve_loop_maxed:
  assumes "\<not> is_500 (svc n)" and "fst (bo_maxed delay)"
  shows "\<exists>r. resolve_loop svc ctx delay n = Some r"
  using assms
  by (subst resolve_loop.simps) (auto simp: is_500_def read_answer_def split: answer.splits sum.splits)

lemma resolve_loop_later:
  assumes "\<exists>r. resolve_loop svc ctx (waited delay) (Suc n) = Some r"
  shows "\<exists>r. resolve_loop svc ctx delay n = Some r"
proof -
  obtain w b where w: "bo_wait (ctx n) delay = (w, b)" by fastforce
  then have b: "b = waited delay" by (metis bo_wait_simps(2) snd_conv)
  show ?thesis
    using assms unfolding resolve_loop.simps [of svc ctx delay n] w b
    by (auto split: answer.splits option.splits)
qed

lemma resolve_loop_funpow:
  "\<exists>r. resolve_loop svc ctx ((waited ^^ k) delay) (n + k) = Some r \<Longrightarrow>
   \<exists>r. resolve_loop svc ctx delay n = Some r"
proof (induction k arbitrary: delay n)
  case (Suc k)
  have "\<exists>r. resolve_loop svc ctx (waited delay) (Suc n) = Some r"
    by (rule Suc.IH) (use Suc.prems in \<open>simp add: funpow_swap1\<close>)
  then show ?case by (rule resolve_loop_later)
qed simp

lemma waited_maxed_mono:
  "bo_sane b \<Longrightarrow> fst (bo_maxed ((waited ^^ (63 + k)) b))"
proof (induction k)
  case 0
  then show ?case using waited_maxed by simp
next
  case (Suc k)
  then have "fst (bo_maxed (waited ((waited ^^ (63 + k)) b)))"
    using waited_stays_maxed bo_sane_funpow by blast
  then show ?case unfolding add_Suc_right funpow.simps comp_apply .
qed

lemma resolve_loop_returns:
  assumes "bo_sane delay" and "\<forall>n \<ge> N. \<not> is_500 (svc n)"
  shows "\<exists>r. resolve_loop svc ctx delay 0 = Some r"
proof (rule resolve_loop_funpow [of svc ctx "63 + N"])
  show "\<exists>r. resolve_loop svc ctx ((waited ^^ (63 + N)) delay) (0 + (63 + N)) = Some r"
    by (rule resolve_loop_maxed) (use assms waited_maxed_mono in auto)
qed

lemma resolve_loop_endless:
  assumes "resolve_loop svc ctx delay n = Some r" and "\<forall>k. is_500 (svc k)" and "\<forall>k. ctx k = None"
  shows False
proof -
  have "(\<forall>k. is_500 (svc' k)) \<longrightarrow> (\<forall>k. ctx' k = None) \<longrightarrow> False"
    if "resolve_loop svc' ctx' b m = Some r" for svc' ctx' b m r
    using that
  proof (rule resolve_loop.raw_induct [where P = "\<lambda>svc ctx b m r.
      (\<forall>k. is_500 (svc k)) \<longrightarrow> (\<forall>k. ctx k = None) \<longrightarrow> False", rotated])
    fix loop svc ctx b m r
    assume IH: "\<And>svc ctx b m r. loop svc ctx b m = Some r \<Longrightarrow>
        (\<forall>k. is_500 (svc k)) \<longrightarrow> (\<forall>k. ctx k = None) \<longrightarrow> False"
      and step: "(case svc m of
        NoAnswer e \<Rightarrow>
          (if \<not> fst (bo_maxed b)
           then (case bo_wait (ctx m) b of
                   (Some w, b') \<Rightarrow> Some (Inl (interrupted w))
                 | (None, b') \<Rightarrow> loop svc ctx b' (Suc m))
           else Some (Inl (with_status (wrap AuthServiceError e) 500)))
      | Answer st txt body \<Rightarrow>
          (case read_answer (fst (bo_maxed b)) st txt body of
             Some r \<Rightarrow> Some r
           | None \<Rightarrow>
               (case bo_wait (ctx m) b of
                  (Some w, b') \<Rightarrow> Some (Inl (interrupted w))
                | (None, b') \<Rightarrow> loop svc ctx b' (Suc m)))) = Some r"
    show "(\<forall>k. is_500 (svc k)) \<longrightarrow> (\<forall>k. ctx k = None) \<longrightarrow> False"
    proof (intro impI)
      assume a: "\<forall>k. is_500 (svc k)" "\<forall>k. ctx k = None"
      then have "is_500 (svc m)" by blast
      then obtain t body where "svc m = Answer 500 t body"
        by (cases "svc m") (auto simp: is_500_def)
      with step a have "loop svc ctx (waited b) (Suc m) = Some r"
        by (simp add: read_answer_def bo_wait_def Let_def waited_def)
      from IH [OF this] a show False by blast
    qed
  qed
  with assms show False by blast
qed

lemma resolve_first_answer:
  "svc 0 = Answer 200 txt (Inr r) \<Longrightarrow> resolve_loop svc ctx delay 0 = Some (Inr r)"
  by (subst resolve_loop.simps) (simp add: read_answer_def)

lemma encrypt_decrypt:
  assumes "crypto (cl_crypto L)" and "encryptResponse L k resp e = Inr v"
  shows "decryptResponse L v k = Inr resp \<and> ca_err v = e"
  using assms crypto.decrypt_encrypt [OF assms(1)]
  by (auto simp: encryptResponse_def decryptResponse_def split: sum.splits)

text \<open>The value of a cache entry, as the client returns it.\<close>

definition entry_value :: "client_lib \<Rightarrow> string \<Rightarrow> cached \<Rightarrow> err + auth_response" where
  "entry_value L k v =
     (case decryptResponse L v k of Inl e \<Rightarrow> Inl e
      | Inr a \<Rightarrow> (case ca_err v of Some e \<Rightarrow> Inl e | None \<Rightarrow> Inr a))"

lemma fill_cache_value:
  assumes "crypto (cl_crypto L)" and "fill_cache L k r = Inr v"
  shows "entry_value L k v = r"
proof -
  have enc: "encryptResponse L k (case r of Inr a \<Rightarrow> a | Inl _ \<Rightarrow> no_response)
      (case r of Inl x \<Rightarrow> Some x | Inr _ \<Rightarrow> None) = Inr v"
    using assms(2) by (cases r) (auto simp: fill_cache_def Let_def split: if_splits)
  from encrypt_decrypt [OF assms(1) this] show ?thesis
    by (cases r) (simp_all add: entry_value_def)
qed

subsection \<open>The cache's interface\<close>

text \<open>
  \<open>holds c k v\<close>: the cache holds \<open>v\<close> under \<open>k\<close>.  A lookup finds only what is held, and neither a
  lookup nor an insertion makes anything else appear; entries may disappear at any time.
\<close>

locale lru_cache =
  fixes C :: "('v, 'c) lru" and holds :: "'c \<Rightarrow> string \<Rightarrow> 'v \<Rightarrow> bool"
  assumes Load_holds: "lru_Load C k c = (Some v, d) \<Longrightarrow> holds c k v"
    and Load_keeps: "lru_Load C k c = (r, d) \<Longrightarrow> holds d k' v \<Longrightarrow> holds c k' v"
    and Store_holds: "holds (lru_Store C k v c) k' w \<Longrightarrow> k' = k \<and> w = v \<or> holds c k' w"
begin

definition sound :: "(string \<Rightarrow> 'v \<Rightarrow> bool) \<Rightarrow> 'c \<Rightarrow> bool" where
  "sound P c \<longleftrightarrow> (\<forall>k v. holds c k v \<longrightarrow> P k v)"

lemma sound_Load: "sound P c \<Longrightarrow> lru_Load C k c = (r, d) \<Longrightarrow> sound P d \<and> (\<forall>v. r = Some v \<longrightarrow> P k v)"
  using Load_holds Load_keeps unfolding sound_def by blast

lemma sound_Store: "sound P c \<Longrightarrow> P k v \<Longrightarrow> sound P (lru_Store C k v c)"
  using Store_holds unfolding sound_def by blast

end

text \<open>
  A least-recently-used cache of a given capacity, the most recent entry first; entries are looked
  up by key, moved to the front when found and dropped beyond the capacity.
\<close>

definition lru_list :: "nat \<Rightarrow> ('v, (string \<times> 'v) list) lru" where
  "lru_list cap =
     \<lparr>lru_Load = (\<lambda>k c. case map_of c k of None \<Rightarrow> (None, c)
        | Some v \<Rightarrow> (Some v, (k, v) # filter (\<lambda>(k', _). k' \<noteq> k) c)),
      lru_Store = (\<lambda>k v c. take cap ((k, v) # filter (\<lambda>(k', _). k' \<noteq> k) c))\<rparr>"

interpretation lru_list: lru_cache "lru_list cap" "\<lambda>c k v. (k, v) \<in> set c" for cap
proof
  fix k k' c v w d r
  show "(k, v) \<in> set c" if "lru_Load (lru_list cap) k c = (Some v, d)"
    using that by (auto simp: lru_list_def map_of_SomeD split: option.splits)
  show "(k', v) \<in> set c" if "lru_Load (lru_list cap) k c = (r, d)" "(k', v) \<in> set d"
    using that by (auto simp: lru_list_def map_of_SomeD split: option.splits)
  show "k' = k \<and> w = v \<or> (k', w) \<in> set c" if "(k', w) \<in> set (lru_Store (lru_list cap) k v c)"
    using that by (auto simp: lru_list_def dest: in_set_takeD)
qed

subsection \<open>Properties\<close>

text \<open>
  C7: resolving an access key returns as long as the service answers with status 500 only finitely
  often: whatever else it answers, also when no connection comes up or the body is not the
  expected JSON, the backoff runs out.  Status 500 is retried without a limit: when every answer is
  one and the context is never done, \<open>Resolve\<close> does not return.
\<close>

theorem resolve_returns:
  assumes "bo_sane (cc_BackOff a)" and "key_FromBase32 keyID = Some (Inr key)"
    and "cl_Parse L (cc_BaseURL a) = Inr base" and "keyID \<noteq> []"
  shows "(\<forall>N. (\<forall>n \<ge> N. \<not> is_500 (svc (access_req a base keyID clientIP requestID) n)) \<longrightarrow>
            (\<exists>r. Resolve L a svc ctx requestID keyID clientIP = Some r))
       \<and> ((\<forall>n. is_500 (svc (access_req a base keyID clientIP requestID) n)) \<and> (\<forall>n. ctx n = None) \<longrightarrow>
            Resolve L a svc ctx requestID keyID clientIP = None)"
proof -
  have r: "Resolve L a svc ctx requestID keyID clientIP =
      resolve_loop (svc (access_req a base keyID clientIP requestID)) ctx (cc_BackOff a) 0"
    using assms by (simp add: Resolve_def)
  show ?thesis
    unfolding r using resolve_loop_returns [OF assms(1)] resolve_loop_endless by (meson not_None_eq)
qed

definition demo_client :: client_lib where
  "demo_client = \<lparr>cl_crypto = demo_lib, cl_NewKey = (\<lambda>b. Inr (pad32 b)),
     cl_Parse = (\<lambda>u. Inr \<lparr>url_Scheme = ''http'', url_Host = u, url_Path = []\<rparr>),
     cl_ParseRef = (\<lambda>u p. Inr (u\<lparr>url_Path := p\<rparr>))\<rparr>"

definition demo_client_config :: client_config where
  "demo_client_config = \<lparr>cc_BaseURL = ''auth'', cc_Token = ''tok'',
     cc_BackOff = \<lparr>bo_Delay = 0, bo_Max = 0, bo_Min = 0\<rparr>\<rparr>"

definition demo_keyID :: string where
  "demo_keyID = key_ToBase32 (replicate 16 CHR ''k'')"

lemma demo_key: "key_FromBase32 demo_keyID = Some (Inr (replicate 16 CHR ''k''))" "demo_keyID \<noteq> []"
  using key_text_roundtrip [of "replicate 16 CHR ''k''"] length_key_text [of "replicate 16 CHR ''k''"]
  by (auto simp: EncKeySizeEncoded_def demo_keyID_def)

lemma demo_backoff_sane: "bo_sane (cc_BackOff demo_client_config)"
  by (simp add: demo_client_config_def bo_sane_def bo_init_def Let_def)

lemma resolve_returns_witness:
  "Resolve demo_client demo_client_config (\<lambda>_ _. Answer 500 [] (Inl (Message [])))
     (\<lambda>_. None) [] demo_keyID ''1.2.3.4'' = None
   \<and> (\<exists>r. Resolve demo_client demo_client_config (\<lambda>_ _. NoAnswer (Message ''refused''))
     (\<lambda>_. None) [] demo_keyID ''1.2.3.4'' = Some r)"
proof -
  have p: "cl_Parse demo_client (cc_BaseURL demo_client_config) =
      Inr \<lparr>url_Scheme = ''http'', url_Host = ''auth'', url_Path = []\<rparr>"
    by (simp add: demo_client_def demo_client_config_def)
  note r = resolve_returns [OF demo_backoff_sane demo_key(1) p demo_key(2)]
  show ?thesis
    using r [of "\<lambda>_ _. Answer 500 [] (Inl (Message []))" "''1.2.3.4''" "[]" "\<lambda>_. None"]
      r [of "\<lambda>_ _. NoAnswer (Message ''refused'')" "''1.2.3.4''" "[]" "\<lambda>_. None"]
    by (simp add: is_500_def)
qed

text \<open>
  C8: what the cache hands out is what the service answered.  \<open>past k\<close> are the results that
  resolving the access key \<open>k\<close> has had so far.  If every entry of the cache decrypts to one of
  them, then \<open>ResolveWithCache\<close> returns a result of the same key, an old one or the one of
  resolving it now, and the entries stay what they should be; a result with another status than 200
  or 404 leaves no entry.
\<close>

theorem cache_returns_resolved:
  assumes "lru_cache C holds" and "crypto (cl_crypto L)"
    and "\<forall>k v. holds c k v \<longrightarrow> entry_value L k v \<in> past k"
    and "ResolveWithCache L (Some C) a svc ctx requestID keyID clientIP c = Some (r, d)"
  shows "(\<forall>k v. holds d k v \<longrightarrow> entry_value L k v \<in> past k \<or>
            (k = keyID \<and> Resolve L a svc ctx requestID keyID clientIP = Some (entry_value L k v)
              \<and> get_status (case entry_value L k v of Inl x \<Rightarrow> Some x | Inr _ \<Rightarrow> None) 200 \<in> {200, 404}))
    \<and> (r \<in> past keyID \<or> Resolve L a svc ctx requestID keyID clientIP = Some r
        \<or> (\<exists>e. r = Inl (wrap CacheEncryptError e)))"
proof -
  note S = lru_cache.sound_def [OF assms(1)]
  define P where "P k v \<longleftrightarrow> entry_value L k v \<in> past k \<or>
      (k = keyID \<and> Resolve L a svc ctx requestID keyID clientIP = Some (entry_value L k v)
        \<and> get_status (case entry_value L k v of Inl x \<Rightarrow> Some x | Inr _ \<Rightarrow> None) 200 \<in> {200, 404})" for k v
  obtain l d' where load: "lru_Load C keyID c = (l, d')" by fastforce
  have s0: "lru_cache.sound holds P c" using assms(3) by (simp add: S P_def)
  note s1 = lru_cache.sound_Load [OF assms(1) s0 load]
  show ?thesis
  proof (cases l)
    case (Some v)
    then have "r = entry_value L keyID v" "d = d'" and "holds c keyID v"
      using assms(4) load lru_cache.Load_holds [OF assms(1)]
      by (auto simp: ResolveWithCache_def entry_value_def Let_def split: sum.splits option.splits)
    then show ?thesis using s1 assms(3) by (simp add: S P_def)
  next
    case None
    then obtain x where x: "Resolve L a svc ctx requestID keyID clientIP = Some x"
      using assms(4) load by (auto simp: ResolveWithCache_def Let_def split: option.splits)
    show ?thesis
    proof (cases "fill_cache L keyID x")
      case (Inl e)
      then have rd: "r = Inl e" "d = d'"
        using assms(4) load None x by (auto simp: ResolveWithCache_def Let_def)
      have "x = Inl e \<or> (\<exists>e'. e = wrap CacheEncryptError e')"
        using Inl by (cases x) (auto simp: fill_cache_def encryptResponse_def Let_def
            split: if_splits sum.splits)
      then show ?thesis using s1 x rd by (auto simp: S P_def)
    next
      case (Inr v)
      then have rd: "r = entry_value L keyID v" "d = lru_Store C keyID v d'"
        using assms(4) load None x
        by (auto simp: ResolveWithCache_def entry_value_def Let_def split: sum.splits option.splits)
      have v: "entry_value L keyID v = x" by (rule fill_cache_value [OF assms(2) Inr])
      have "get_status (case x of Inl x \<Rightarrow> Some x | Inr _ \<Rightarrow> None) 200 \<in> {200, 404}"
        using Inr by (cases x) (auto simp: fill_cache_def Let_def split: if_splits)
      then have "P keyID v" using v x by (simp add: P_def)
      then have "lru_cache.sound holds P d"
        unfolding rd(2) using lru_cache.sound_Store [OF assms(1)] s1 by blast
      then show ?thesis using rd(1) v x by (simp add: S P_def)
    qed
  qed
qed

lemma cache_returns_resolved_witness:
  "\<exists>d. ResolveWithCache demo_client (Some (lru_list 2)) demo_client_config
         (\<lambda>_ _. Answer 200 ''200 OK'' (Inr \<lparr>au_AccessGrant = ''g'', au_SecretKey = ''s'', au_Public = True\<rparr>))
         (\<lambda>_. None) [] demo_keyID ''1.2.3.4'' [] =
       Some (Inr \<lparr>au_AccessGrant = ''g'', au_SecretKey = ''s'', au_Public = True\<rparr>, d)
     \<and> (\<forall>v. (demo_keyID, v) \<in> set d \<longrightarrow>
          entry_value demo_client demo_keyID v = Inr \<lparr>au_AccessGrant = ''g'', au_SecretKey = ''s'', au_Public = True\<rparr>)"
proof -
  let ?r = "\<lparr>au_AccessGrant = ''g'', au_SecretKey = ''s'', au_Public = True\<rparr>"
  let ?svc = "\<lambda>_ _. Answer 200 ''200 OK'' (Inr ?r)"
  have res: "Resolve demo_client demo_client_config ?svc (\<lambda>_. None) [] demo_keyID ''1.2.3.4'' = Some (Inr ?r)"
    using demo_key by (simp add: Resolve_def demo_client_def resolve_first_answer)
  then obtain d where d: "ResolveWithCache demo_client (Some (lru_list 2)) demo_client_config ?svc
      (\<lambda>_. None) [] demo_keyID ''1.2.3.4'' [] = Some (Inr ?r, d)"
    by (simp add: ResolveWithCache_def lru_list_def fill_cache_def encryptResponse_def decryptResponse_def
        demo_client_def demo_lib_def Let_def)
  have c: "crypto (cl_crypto demo_client)"
    using demo_lib.crypto_axioms by (simp add: demo_client_def)
  have "entry_value demo_client demo_keyID v = Inr ?r" if "(demo_keyID, v) \<in> set d" for v
  proof -
    have "Resolve demo_client demo_client_config ?svc (\<lambda>_. None) [] demo_keyID ''1.2.3.4'' =
        Some (entry_value demo_client demo_keyID v)"
      using cache_returns_resolved [OF lru_list.lru_cache_axioms c _ d, of "\<lambda>_. {}", THEN conjunct1] that
      by simp
    with res show ?thesis by simp
  qed
  with d show ?thesis by blast
qed

subsection \<open>The client and the service together\<close>

text \<open>What the authentication service answers the client's requests with, in the state \<open>s\<close>.\<close>

definition auth_server :: "auth_lib \<Rightarrow> resources \<Rightarrow> 's kv \<Rightarrow> node_url set \<Rightarrow> 's \<Rightarrow> access_request \<Rightarrow> nat \<Rightarrow> answer" where
  "auth_server L res K allowed s req n =
     (case Resources_ServeHTTP L res K allowed (Inr []) (Inr [])
        \<lparr>rq_Method = ''GET'', rq_Path = url_Path (arq_URL req), rq_ContentLength = 0,
         rq_Authorization = header_get (arq_Header req) ''Authorization'', rq_Bucket = [],
         rq_Body = BodyInvalid\<rparr> s of
        None \<Rightarrow> NoAnswer (Message ''EOF'')
      | Some (rsp, t) \<Rightarrow> Answer (rp_Status rsp) []
          (case rp_Body rsp of
             AccessBody accessGrant secret public \<Rightarrow>
               Inr \<lparr>au_AccessGrant = accessGrant, au_SecretKey = secret, au_Public = public\<rparr>
           | _ \<Rightarrow> Inl (Message ''invalid body'')))"

lemma access_path: "length k = 16 \<Longrightarrow> path_join [[], ''/v1/access'', key_ToBase32 k] = ''/v1/access/'' @ key_ToBase32 k"
proof -
  assume k: "length k = 16"
  let ?es = "[''v1'', ''access'', key_ToBase32 k]"
  have l: "length (key_ToBase32 k) = 28" using length_key_text [OF k] by (simp add: EncKeySizeEncoded_def)
  have "\<forall>e \<in> set ?es. plain_elem e"
    using l slash_not_in_base32 [of "key_ToBinary k"] by (auto simp: plain_elem_def key_ToBase32_def)
  then have "path_clean (CHR ''/'' # join ''/'' ?es) = CHR ''/'' # join ''/'' ?es"
    by (intro path_clean_rooted) simp
  moreover have "key_ToBase32 k \<noteq> []" using l by auto
  ultimately show ?thesis by (simp add: path_join_def)
qed

text \<open>
  A client that holds one of the service's tokens resolves the access key that a successful
  POST /v1/access returned to exactly the grant, the secret key and the flag that were registered,
  with its first request.
\<close>

lemma client_resolves_registered:
  assumes "badger_db D view live" and "crypto L" and "store_ok (db_proto D) live (view s)"
    and "length key = 16" and "length sk = 32" and "K = node_kv D answers ctx now"
    and "Resources_ServeHTTP L res K allowed (Inr key) (Inr sk) req s = Some (rsp, t)"
    and "rq_Path req = ''/v1/access''" and "rq_Body req = BodyDecoded accessGrant public"
    and "rp_Body rsp = AccessCreated keyID secret ep"
    and "\<And>r. make_record L allowed (Inr sk) key accessGrant public = Inr (sk, r) \<Longrightarrow>
      live (expiry (record_at now r))"
    and "0 \<le> rs_postSizeLimit res" and "rs_authToken res = [] \<or> cc_Token a \<in> set (rs_authToken res)"
    and "cl_Parse CL (cc_BaseURL a) = Inr base" and "url_Path base = []"
  shows "Resolve CL a (auth_server L res K allowed t) sleeps requestID keyID clientIP =
    Some (Inr \<lparr>au_AccessGrant = accessGrant, au_SecretKey = secret, au_Public = public\<rparr>)"
proof -
  let ?req = "access_req a base keyID clientIP requestID"
  let ?http = "\<lparr>rq_Method = ''GET'', rq_Path = ''/v1/access/'' @ keyID, rq_ContentLength = 0,
         rq_Authorization = ''Bearer '' @ cc_Token a, rq_Bucket = [], rq_Body = BodyInvalid\<rparr>"
  have auth: "requestAuthorized res (rq_Authorization ?http)"
    using assms(13) by (auto simp: requestAuthorized_def)
  have "keyID = key_ToBase32 key \<and> Resources_ServeHTTP L res K allowed (Inr []) (Inr []) ?http t =
      Some (respond 200 (AccessBody accessGrant secret public), t)"
    by (rule serve_register_then_get [OF assms(1-10) _ _ _ _ auth]) (use assms(11,12) in simp_all)
  then have ident: "keyID = key_ToBase32 key"
    and g: "Resources_ServeHTTP L res K allowed (Inr []) (Inr []) ?http t =
      Some (respond 200 (AccessBody accessGrant secret public), t)" by blast+
  from ident have k: "key_FromBase32 keyID = Some (Inr key)" and l: "length keyID = 28"
    and path: "path_join [url_Path base, ''/v1/access'', keyID] = ''/v1/access/'' @ keyID"
    using key_text_roundtrip [OF assms(4)] length_key_text [OF assms(4)] access_path [OF assms(4)] assms(15)
    by (simp_all add: EncKeySizeEncoded_def)
  have "header_get (arq_Header ?req) ''Authorization'' = ''Bearer '' @ cc_Token a"
    unfolding access_req_def AddRequestIDToHeaders_def XStorjRequestID_def
    by (simp add: equal_fold_def to_lower_def lower_char_def)
  then have "auth_server L res K allowed t ?req 0 =
      Answer 200 [] (Inr \<lparr>au_AccessGrant = accessGrant, au_SecretKey = secret, au_Public = public\<rparr>)"
    using g path unfolding auth_server_def by (simp add: access_req_def)
  then show ?thesis
    using k l assms(14) by (auto simp: Resolve_def intro: resolve_first_answer)
qed

lemma client_resolves_registered_witness:
  "\<exists>rsp t keyID secret ep.
     Resources_ServeHTTP demo_lib demo_resources demo_kv {demo_url} (Inr (replicate 16 CHR ''k''))
       (Inr (replicate 32 CHR ''s'')) demo_post [] = Some (rsp, t)
     \<and> rp_Body rsp = AccessCreated keyID secret ep
     \<and> Resolve demo_client demo_client_config (auth_server demo_lib demo_resources demo_kv {demo_url} t)
         (\<lambda>_. None) [] keyID ''1.2.3.4'' =
       Some (Inr \<lparr>au_AccessGrant = ''grant'', au_SecretKey = secret, au_Public = True\<rparr>)"
proof -
  obtain rsp t where r: "Resources_ServeHTTP demo_lib demo_resources demo_kv {demo_url} (Inr (replicate 16 CHR ''k''))
       (Inr (replicate 32 CHR ''s'')) demo_post [] = Some (rsp, t)"
    and b: "rp_Body rsp = AccessCreated (key_ToBase32 (replicate 16 CHR ''k'')) (secret_ToBase32 (replicate 32 CHR ''s'')) ''https://gw''"
    and live: "\<And>r. make_record demo_lib {demo_url} (Inr (replicate 32 CHR ''s'')) (replicate 16 CHR ''k'') ''grant'' True =
      Inr (replicate 32 CHR ''s'', r) \<Longrightarrow> unexpired 1000 (expiry (record_at 7 r))"
    by (rule demo_registered) (rule that)
  have "Resolve demo_client demo_client_config (auth_server demo_lib demo_resources demo_kv {demo_url} t)
         (\<lambda>_. None) [] (key_ToBase32 (replicate 16 CHR ''k'')) ''1.2.3.4'' =
       Some (Inr \<lparr>au_AccessGrant = ''grant'', au_SecretKey = secret_ToBase32 (replicate 32 CHR ''s''), au_Public = True\<rparr>)"
    by (rule client_resolves_registered [OF demo_ok demo_lib.crypto_axioms store_ok_Nil _ _ refl r _ _ b live,
          where base = "\<lparr>url_Scheme = ''http'', url_Host = ''auth'', url_Path = []\<rparr>"])
      (simp_all add: demo_post_def demo_resources_def demo_client_def demo_client_config_def)
  with r b show ?thesis by blast
qed

end
