(* ===== verification/GoHttp.thy ===== *)
theory GoHttp
  imports TrustedIP GoNum
begin

section \<open>Requests and their queries (Go's packages net/http and net/url)\<close>

text \<open>
  What the handlers read of a request.  The URL has been parsed: \<open>hr_Path\<close> is its decoded path,
  \<open>hr_EscapedPath\<close> what \<open>EscapedPath\<close> returns, and the query is the list of its parameters in the
  order they come.  \<open>q_Encode\<close> is \<open>Values.Encode\<close>: the parameters sorted by key, escaped.
\<close>

type_synonym query = "(string \<times> string) list"

record http_req =
  hr_Method :: string
  hr_Path :: string
  hr_EscapedPath :: string
  hr_Query :: query
  hr_Header :: header
  hr_Host :: string
  hr_RemoteAddr :: string
  hr_ContentLength :: int
  hr_TransferEncoding :: "string list"
  hr_RawQuery :: string
  hr_Scheme :: string
  hr_RequestURI :: string

definition q_has :: "query \<Rightarrow> string \<Rightarrow> bool" where
  "q_has q k = (k \<in> set (map fst q))"

definition q_values :: "query \<Rightarrow> string \<Rightarrow> string list" where
  "q_values q k = map snd (filter (\<lambda>(n, _). n = k) q)"

definition q_get :: "query \<Rightarrow> string \<Rightarrow> string" where
  "q_get q k = (case q_values q k of [] \<Rightarrow> [] | v # _ \<Rightarrow> v)"

definition h_has :: "header \<Rightarrow> string \<Rightarrow> bool" where
  "h_has h k = list_ex (\<lambda>(n, _). equal_fold n k) h"

text \<open>\<open>url.QueryEscape\<close>.\<close>

definition upper_hex :: "nat \<Rightarrow> char" where
  "upper_hex n = (if n < 10 then char_of (48 + n) else char_of (55 + n))"

definition query_unreserved :: "char \<Rightarrow> bool" where
  "query_unreserved c =
     (let n = code c in (97 \<le> n \<and> n \<le> 122) \<or> (65 \<le> n \<and> n \<le> 90) \<or> (48 \<le> n \<and> n \<le> 57)
        \<or> c \<in> {CHR ''-'', CHR ''_'', CHR ''.'', CHR ''~''})"

definition query_escape_char :: "char \<Rightarrow> string" where
  "query_escape_char c =
     (if query_unreserved c then [c]
      else if c = CHR '' '' then ''+''
      else [CHR 0x25, upper_hex (code c div 16), upper_hex (code c mod 16)])"

definition query_escape :: "string \<Rightarrow> string" where
  "query_escape s = concat (map query_escape_char s)"

definition q_Encode :: "query \<Rightarrow> string" where
  "q_Encode q =
     join ''&'' (concat (map (\<lambda>k. map (\<lambda>v. query_escape k @ ''='' @ query_escape v) (q_values q k))
       (sort (remdups (map fst q)))))"

text \<open>\<open>EscapedPath\<close> and \<open>String\<close> of a URL that has a path, beginning with a slash, and a query only.\<close>

definition escape_path :: "string \<Rightarrow> string" where
  "escape_path s = concat (map (\<lambda>c.
     if query_unreserved c \<or> c \<in> set ''$&+,/:;=@'' then [c]
     else [CHR 0x25, upper_hex (code c div 16), upper_hex (code c mod 16)]) s)"

definition path_query_String :: "string \<Rightarrow> string \<Rightarrow> string" where
  "path_query_String path rawQuery = escape_path path @ (if rawQuery = [] then [] else CHR ''?'' # rawQuery)"

text \<open>\<open>net.SplitHostPort\<close>: the host, or that the port is missing, or another error.\<close>

datatype split_result = HostPort string | MissingPort | BadAddr string

definition SplitHostPort :: "string \<Rightarrow> split_result" where
  "SplitHostPort s =
     (let i = last_index CHR '':'' s
      in if i < 0 then MissingPort
         else if hd s = CHR ''['' then
           (let e = index_byte CHR '']'' s
            in if e < 0 then BadAddr ''missing bracket in address''
               else if e + 1 = int (length s) then MissingPort
               else if e + 1 \<noteq> i then
                 (if s ! nat (e + 1) = CHR '':'' then BadAddr ''too many colons in address'' else MissingPort)
               else if CHR ''['' \<in> set (drop 1 s) then BadAddr ''unexpected bracket in address''
               else if CHR '']'' \<in> set (drop (nat (e + 1)) s) then BadAddr ''unexpected bracket in address''
               else HostPort (take (nat (e - 1)) (drop 1 s)))
         else let host = take (nat i) s
              in if CHR '':'' \<in> set host then BadAddr ''too many colons in address''
                 else if CHR ''['' \<in> set s \<or> CHR '']'' \<in> set s then BadAddr ''unexpected bracket in address''
                 else HostPort host)"

lemma q_get_hit [simp]: "q_get ((k, v) # q) k = v"
  by (simp add: q_get_def q_values_def)

lemma q_get_miss [simp]: "k \<noteq> n \<Longrightarrow> q_get ((n, v) # q) k = q_get q k"
  by (simp add: q_get_def q_values_def)

lemma q_get_Nil [simp]: "q_get [] k = []"
  by (simp add: q_get_def q_values_def)

lemma q_has_Cons [simp]: "q_has ((n, v) # q) k \<longleftrightarrow> n = k \<or> q_has q k"
  by (auto simp: q_has_def)

lemma q_has_Nil [simp]: "\<not> q_has [] k"
  by (simp add: q_has_def)

lemma q_get_has: "q_get q k \<noteq> [] \<Longrightarrow> q_has q k"
  by (induction q) (auto simp: q_get_def q_values_def q_has_def split: if_splits)

lemma h_has_get: "header_get h k \<noteq> [] \<Longrightarrow> h_has h k"
  by (induction h k rule: header_get.induct) (auto simp: h_has_def split: if_splits)

end
