(* ===== verification/GoTime.thy ===== *)
theory GoTime
  imports GoNum Records
begin

section \<open>Times in the two layouts of AWS signatures (Go's package time)\<close>

text \<open>
  \<open>time.Parse\<close> and \<open>Time.Format\<close> for the layouts \<open>20060102\<close> and \<open>20060102T150405Z\<close>.  A parsed time is
  kept in its calendar fields, \<open>civil\<close>; \<open>civil_time\<close> is the same instant as a count of nanoseconds
  since 1970, in which times are compared.  As in Go a fraction of a second may follow the seconds
  of the input, of which nine digits count, and an impossible day of a month is an error.
\<close>

record civil =
  cv_year :: nat
  cv_month :: nat
  cv_day :: nat
  cv_hour :: nat
  cv_min :: nat
  cv_sec :: nat
  cv_nsec :: nat

definition leap :: "nat \<Rightarrow> bool" where
  "leap y = (y mod 4 = 0 \<and> (y mod 100 \<noteq> 0 \<or> y mod 400 = 0))"

definition days_in_month :: "nat \<Rightarrow> nat \<Rightarrow> nat" where
  "days_in_month y m =
     (if m = 2 then (if leap y then 29 else 28) else if m \<in> {4, 6, 9, 11} then 30 else 31)"

text \<open>The days from the first of January of the year 0 to the first of January of the year.\<close>

definition days_before_year :: "nat \<Rightarrow> nat" where
  "days_before_year y = (if y = 0 then 0 else 365 * y + (y - 1) div 4 - (y - 1) div 100 + (y - 1) div 400 + 1)"

definition days_before_month :: "nat \<Rightarrow> nat \<Rightarrow> nat" where
  "days_before_month y m = sum_list (map (days_in_month y) [1..<m])"

definition civil_time :: "civil \<Rightarrow> time" where
  "civil_time c =
     (let days = int (days_before_year (cv_year c) + days_before_month (cv_year c) (cv_month c) + cv_day c)
                 - 719529;
          secs = days * 86400 + int (cv_hour c * 3600 + cv_min c * 60 + cv_sec c)
      in secs * 1000000000 + int (cv_nsec c))"

definition civil_ok :: "civil \<Rightarrow> bool" where
  "civil_ok c = (cv_year c < 10000 \<and> 1 \<le> cv_month c \<and> cv_month c \<le> 12 \<and> 1 \<le> cv_day c
     \<and> cv_day c \<le> days_in_month (cv_year c) (cv_month c) \<and> cv_hour c < 24 \<and> cv_min c < 60
     \<and> cv_sec c < 60 \<and> cv_nsec c < 1000000000)"

text \<open>\<open>n\<close> digits at the front of the input.\<close>

definition take_digits :: "nat \<Rightarrow> string \<Rightarrow> (nat \<times> string) option" where
  "take_digits n s =
     (if n \<le> length s then map_option (\<lambda>v. (v, drop n s)) (undec (take n s)) else None)"

definition parse_date :: "string \<Rightarrow> (civil \<times> string) option" where
  "parse_date s =
     (case take_digits 4 s of
        None \<Rightarrow> None
      | Some (y, s1) \<Rightarrow>
          (case take_digits 2 s1 of
             None \<Rightarrow> None
           | Some (m, s2) \<Rightarrow>
               (case take_digits 2 s2 of
                  None \<Rightarrow> None
                | Some (d, s3) \<Rightarrow>
                    if 1 \<le> m \<and> m \<le> 12 \<and> 1 \<le> d \<and> d \<le> days_in_month y m
                    then Some (\<lparr>cv_year = y, cv_month = m, cv_day = d, cv_hour = 0, cv_min = 0, cv_sec = 0,
                                cv_nsec = 0\<rparr>, s3)
                    else None)))"

definition parse_yyyymmdd :: "string \<Rightarrow> civil option" where
  "parse_yyyymmdd s = (case parse_date s of Some (c, []) \<Rightarrow> Some c | _ \<Rightarrow> None)"

text \<open>The fraction that may follow the seconds: its first nine digits, in nanoseconds.\<close>

definition parse_fraction :: "string \<Rightarrow> nat \<times> string" where
  "parse_fraction s =
     (case s of
        [] \<Rightarrow> (0, [])
      | c # r \<Rightarrow>
          let ds = takeWhile is_digit r
          in if c \<in> {CHR ''.'', CHR '',''} \<and> ds \<noteq> []
             then (let k = take 9 ds in
                   ((case undec k of None \<Rightarrow> 0 | Some v \<Rightarrow> v) * 10 ^ (9 - length k), drop (length ds) r))
             else (0, s))"

definition parse_iso8601 :: "string \<Rightarrow> civil option" where
  "parse_iso8601 s =
     (case parse_date s of
        None \<Rightarrow> None
      | Some (c, r) \<Rightarrow>
          (case r of
             [] \<Rightarrow> None
           | t # r0 \<Rightarrow>
               if t \<noteq> CHR ''T'' then None
               else case take_digits 2 r0 of
                 None \<Rightarrow> None
               | Some (h, r1) \<Rightarrow>
                   (case take_digits 2 r1 of
                      None \<Rightarrow> None
                    | Some (mi, r2) \<Rightarrow>
                        (case take_digits 2 r2 of
                           None \<Rightarrow> None
                         | Some (sec, r3) \<Rightarrow>
                             (case parse_fraction r3 of
                                (ns, r4) \<Rightarrow>
                                  if h < 24 \<and> mi < 60 \<and> sec < 60 \<and> r4 = ''Z''
                                  then Some (c\<lparr>cv_hour := h, cv_min := mi, cv_sec := sec, cv_nsec := ns\<rparr>)
                                  else None)))))"

text \<open>Formatting pads with zeros.\<close>

fun dec_width :: "nat \<Rightarrow> nat \<Rightarrow> string" where
  "dec_width 0 v = []"
| "dec_width (Suc n) v = dec_width n (v div 10) @ [digit (v mod 10)]"

definition format_yyyymmdd :: "civil \<Rightarrow> string" where
  "format_yyyymmdd c = dec_width 4 (cv_year c) @ dec_width 2 (cv_month c) @ dec_width 2 (cv_day c)"

definition format_iso8601 :: "civil \<Rightarrow> string" where
  "format_iso8601 c = format_yyyymmdd c @ ''T'' @ dec_width 2 (cv_hour c) @ dec_width 2 (cv_min c)
     @ dec_width 2 (cv_sec c) @ ''Z''"

subsection \<open>Facts\<close>

lemma length_dec_width [simp]: "length (dec_width n v) = n"
  by (induction n arbitrary: v) auto

lemma dec_width_digits: "list_all is_digit (dec_width n v)"
  by (induction n arbitrary: v) auto

lemma foldl_dec_width: "v < 10 ^ n \<Longrightarrow> foldl (\<lambda>a c. 10 * a + digit_val c) 0 (dec_width n v) = v"
proof (induction n arbitrary: v)
  case (Suc n)
  then have "v div 10 < 10 ^ n" by (simp add: less_mult_imp_div_less)
  with Suc.IH show ?case by simp
qed simp

lemma take_digits_dec_width:
  "0 < n \<Longrightarrow> v < 10 ^ n \<Longrightarrow> take_digits n (dec_width n v @ r) = Some (v, r)"
proof -
  assume n: "0 < n" "v < 10 ^ n"
  then have "dec_width n v \<noteq> []" by (metis length_dec_width length_greater_0_conv)
  then have "undec (dec_width n v) = Some v"
    using n by (simp add: undec_def dec_width_digits foldl_dec_width)
  then show ?thesis by (simp add: take_digits_def)
qed

lemma days_in_month_le: "days_in_month y m \<le> 31"
  by (simp add: days_in_month_def)

lemma parse_date_format:
  assumes "civil_ok c"
  shows "parse_date (format_yyyymmdd c @ r) =
    Some (c\<lparr>cv_hour := 0, cv_min := 0, cv_sec := 0, cv_nsec := 0\<rparr>, r)"
proof -
  have "cv_day c < 10 ^ 2" "cv_month c < 10 ^ 2" "cv_year c < 10 ^ 4"
    using assms days_in_month_le [of "cv_year c" "cv_month c"] by (simp_all add: civil_ok_def)
  then show ?thesis
    using assms take_digits_dec_width [of 4 "cv_year c"] take_digits_dec_width [of 2 "cv_month c"]
      take_digits_dec_width [of 2 "cv_day c"]
    by (simp add: parse_date_def format_yyyymmdd_def civil_ok_def)
qed

lemma parse_format_iso8601:
  assumes "civil_ok c"
  shows "parse_iso8601 (format_iso8601 c) = Some (c\<lparr>cv_nsec := 0\<rparr>)"
proof -
  have lt: "cv_hour c < 10 ^ 2" "cv_min c < 10 ^ 2" "cv_sec c < 10 ^ 2"
    using assms by (simp_all add: civil_ok_def)
  have "parse_fraction ''Z'' = (0, ''Z'')" by (simp add: parse_fraction_def)
  then show ?thesis
    using assms lt parse_date_format [OF assms]
      take_digits_dec_width [of 2 "cv_hour c"] take_digits_dec_width [of 2 "cv_min c"]
      take_digits_dec_width [of 2 "cv_sec c"]
    by (simp add: parse_iso8601_def format_iso8601_def civil_ok_def)
qed

lemma parse_format_yyyymmdd:
  "civil_ok c \<Longrightarrow> parse_yyyymmdd (format_yyyymmdd c) =
    Some (c\<lparr>cv_hour := 0, cv_min := 0, cv_sec := 0, cv_nsec := 0\<rparr>)"
  using parse_date_format [of c "[]"] by (simp add: parse_yyyymmdd_def)

lemma take_digits_lt: "take_digits n s = Some (v, r) \<Longrightarrow> v < 10 ^ n"
proof -
  have b: "list_all is_digit ds \<Longrightarrow> foldl (\<lambda>a c. 10 * a + digit_val c) 0 ds < 10 ^ length ds" for ds
  proof (induction ds rule: rev_induct)
    case (snoc d ds)
    then have "digit_val d < 10" by (auto simp: is_digit_def digit_val_def)
    with snoc show ?case by simp
  qed simp
  assume "take_digits n s = Some (v, r)"
  then have "n \<le> length s" "undec (take n s) = Some v" by (auto simp: take_digits_def split: if_splits)
  then show "v < 10 ^ n" using b [of "take n s"] by (auto simp: undec_def split: if_splits)
qed

lemma parse_date_ok: "parse_date s = Some (c, r) \<Longrightarrow> civil_ok c"
  using take_digits_lt [of 4]
  by (fastforce simp: parse_date_def civil_ok_def split: option.splits prod.splits if_splits)

text \<open>The epoch, a leap day, and a day that does not exist.\<close>

lemma civil_time_examples:
  "civil_time \<lparr>cv_year = 1970, cv_month = 1, cv_day = 1, cv_hour = 0, cv_min = 0, cv_sec = 0, cv_nsec = 0\<rparr> = 0"
  "civil_time \<lparr>cv_year = 2000, cv_month = 2, cv_day = 29, cv_hour = 12, cv_min = 34, cv_sec = 56, cv_nsec = 7\<rparr>
    = 951827696000000007"
  "\<not> civil_ok \<lparr>cv_year = 2023, cv_month = 2, cv_day = 29, cv_hour = 0, cv_min = 0, cv_sec = 0, cv_nsec = 0\<rparr>"
  by (simp_all add: civil_time_def civil_ok_def days_before_year_def days_before_month_def days_in_month_def
      leap_def Let_def upt_rec)

end
