(* ===== verification/Credentials.thy ===== *)
theory Credentials
  imports AuthClient GoHttp GoTime
begin

section \<open>The credentials of an S3 request (pkg/server/middleware/credentials.go)\<close>

text \<open>
  The middleware finds the access key ID of a request, in an \<open>Authorization\<close> header or a query of
  version 4 or 2 or in a form, and resolves it with the authentication service.  The regular
  expressions are functions: each consists of runs of a character class between fixed bytes, so
  that its leftmost match is read off the input.  Reading a form from the body is an argument, as are
  the bytes of a body that cannot be kept.  A nil dereference is the result \<open>None\<close>.
\<close>

record v4_credential =
  vc_AccessKeyID :: string
  vc_Date :: civil
  vc_Region :: string
  vc_Service :: string

record v4 =
  v4_Credential :: "v4_credential option"
  v4_SignedHeaders :: "string list"
  v4_Signature :: string
  v4_ContentSHA256 :: string
  v4_Date :: civil
  v4_FromHeader :: bool

record v2 =
  v2_AccessKeyID :: string
  v2_Signature :: string
  v2_FromHeader :: bool

subsection \<open>Which kind of request\<close>

definition v4Algorithm :: string where
  "v4Algorithm = ''AWS4-HMAC-SHA256''"

definition isRequestSignatureV4 :: "http_req \<Rightarrow> bool" where
  "isRequestSignatureV4 r = has_prefix (header_get (hr_Header r) ''Authorization'') v4Algorithm"

definition isRequestSignatureV2 :: "http_req \<Rightarrow> bool" where
  "isRequestSignatureV2 r =
     (\<not> has_prefix (header_get (hr_Header r) ''Authorization'') v4Algorithm
      \<and> has_prefix (header_get (hr_Header r) ''Authorization'') ''AWS'')"

definition isRequestPresignedSignatureV4 :: "http_req \<Rightarrow> bool" where
  "isRequestPresignedSignatureV4 r = q_has (hr_Query r) ''X-Amz-Credential''"

definition isRequestPresignedSignatureV2 :: "http_req \<Rightarrow> bool" where
  "isRequestPresignedSignatureV2 r = q_has (hr_Query r) ''AWSAccessKeyId''"

definition isRequestPostPolicySignature :: "http_req \<Rightarrow> bool" where
  "isRequestPostPolicySignature r =
     (contains (header_get (hr_Header r) ''Content-Type'') ''multipart/form-data'' \<and> hr_Method r = ''POST'')"

subsection \<open>Parsing\<close>

text \<open>\<open>v4CredentialRegex\<close>: five elements between slashes, of which only the third may be empty.\<close>

definition match_credential :: "string \<Rightarrow> (string \<times> string \<times> string \<times> string) option" where
  "match_credential s =
     (case split_on CHR ''/'' s of
        [akid, date, region, service, req] \<Rightarrow>
          if akid \<noteq> [] \<and> date \<noteq> [] \<and> service \<noteq> [] \<and> req = ''aws4_request''
          then Some (akid, date, region, service) else None
      | _ \<Rightarrow> None)"

definition ParseV4Credential :: "string \<Rightarrow> err + v4_credential" where
  "ParseV4Credential s =
     (case match_credential s of
        None \<Rightarrow> Inl (Classed V4CredentialError (Sentinel CredentialMalformed))
      | Some (akid, date, region, service) \<Rightarrow>
          (case parse_yyyymmdd date of
             None \<Rightarrow> Inl (Classed V4CredentialError (Sentinel MalformedCredentialDate))
           | Some d \<Rightarrow> Inr \<lparr>vc_AccessKeyID = akid, vc_Date = d, vc_Region = region, vc_Service = service\<rparr>))"

text \<open>\<open>v4AuthorizationRegex\<close> and \<open>v4AuthorizationFieldRegex\<close>; the second returns the rest, too.\<close>

definition match_authorization :: "string \<Rightarrow> string option" where
  "match_authorization s =
     (if has_prefix s (v4Algorithm @ '' '')
      then (let kvs = drop 17 s in if kvs \<noteq> [] \<and> CHR 0x0A \<notin> set kvs then Some kvs else None)
      else None)"

definition match_field :: "string \<Rightarrow> (string \<times> string \<times> string) option" where
  "match_field s =
     (let key = takeWhile (\<lambda>c. c \<noteq> CHR '','' \<and> c \<noteq> CHR ''='') s;
          r = drop (length key) s
      in case r of
           [] \<Rightarrow> None
         | c # r1 \<Rightarrow>
             let val = takeWhile (\<lambda>c. c \<noteq> CHR '','') r1;
                 r2 = drop (length val) r1;
                 r3 = (case r2 of [] \<Rightarrow> [] | x # xs \<Rightarrow> dropWhile (\<lambda>c. c = CHR '' '') xs)
             in if key \<noteq> [] \<and> c = CHR ''='' \<and> val \<noteq> [] then Some (key, val, r3) else None)"

lemma match_field_shorter: "match_field s = Some (k, v, r) \<Longrightarrow> length r < length s"
proof -
  assume m: "match_field s = Some (k, v, r)"
  let ?key = "takeWhile (\<lambda>c. c \<noteq> CHR '','' \<and> c \<noteq> CHR ''='') s"
  obtain c r1 where r1: "drop (length ?key) s = c # r1"
    using m by (auto simp: match_field_def Let_def split: list.splits)
  have "length (c # r1) \<le> length s" unfolding r1 [symmetric] by simp
  moreover have "length r \<le> length r1"
  proof -
    let ?r2 = "drop (length (takeWhile (\<lambda>c. c \<noteq> CHR '','') r1)) r1"
    have "r = (case ?r2 of [] \<Rightarrow> [] | x # xs \<Rightarrow> dropWhile (\<lambda>c. c = CHR '' '') xs)"
      using m r1 by (auto simp: match_field_def Let_def split: if_splits)
    then have "length r \<le> length ?r2"
      by (cases ?r2) (auto intro: le_SucI length_dropWhile_le)
    also have "\<dots> \<le> length r1" by simp
    finally show ?thesis .
  qed
  ultimately show ?thesis by simp
qed

definition missing_fields :: "err" where
  "missing_fields = Classed MissingFields
     (Message ''expected exactly three components: Credential, SignedHeaders, and Signature'')"

function v4_fields :: "string \<Rightarrow> v4 \<Rightarrow> err + v4" where
  "v4_fields kvs v =
     (if kvs = [] then Inr v
      else case match_field kvs of
        None \<Rightarrow> Inl (Classed HeaderError missing_fields)
      | Some (key, val, rest) \<Rightarrow>
          if key = ''Credential'' then
            (case ParseV4Credential val of
               Inl e \<Rightarrow> Inl (wrap HeaderError e)
             | Inr c \<Rightarrow> v4_fields rest (v\<lparr>v4_Credential := Some c\<rparr>))
          else if key = ''Signature'' then v4_fields rest (v\<lparr>v4_Signature := val\<rparr>)
          else if key = ''SignedHeaders'' then v4_fields rest (v\<lparr>v4_SignedHeaders := split_on CHR '';'' val\<rparr>)
          else v4_fields rest v)"
  by pat_completeness auto
termination
  by (relation "measure (length \<circ> fst)") (auto simp: match_field_shorter)

declare v4_fields.simps [simp del]

definition ParseV4FromHeader :: "http_req \<Rightarrow> err + v4" where
  "ParseV4FromHeader r =
     (case match_authorization (header_get (hr_Header r) ''Authorization'') of
        None \<Rightarrow> Inl (Classed HeaderError (Classed MissingFields (Message [])))
      | Some kvs \<Rightarrow>
          (case parse_iso8601 (header_get (hr_Header r) ''X-Amz-Date'') of
             None \<Rightarrow> Inl (Classed HeaderError (Sentinel InvalidDateHeader))
           | Some d \<Rightarrow>
               v4_fields kvs
                 \<lparr>v4_Credential = None, v4_SignedHeaders = [], v4_Signature = [],
                  v4_ContentSHA256 = header_get (hr_Header r) ''X-Amz-Content-SHA256'',
                  v4_Date = d, v4_FromHeader = True\<rparr>))"

definition ParseV4FromQuery :: "http_req \<Rightarrow> err + v4" where
  "ParseV4FromQuery r =
     (let q = hr_Query r
      in if q_get q ''X-Amz-Algorithm'' \<noteq> v4Algorithm
         then Inl (Classed QueryError (Sentinel InvalidAlgorithm))
         else case ParseV4Credential (q_get q ''X-Amz-Credential'') of
           Inl e \<Rightarrow> Inl (wrap QueryError e)
         | Inr c \<Rightarrow>
             (case parse_iso8601 (q_get q ''X-Amz-Date'') of
                None \<Rightarrow> Inl (Classed QueryError (Sentinel InvalidDate))
              | Some d \<Rightarrow>
                  Inr \<lparr>v4_Credential = Some c, v4_SignedHeaders = split_on CHR '';'' (q_get q ''X-Amz-SignedHeaders''),
                       v4_Signature = q_get q ''X-Amz-Signature'',
                       v4_ContentSHA256 = (if q_get q ''X-Amz-Content-SHA256'' = [] then ''UNSIGNED-PAYLOAD''
                                           else q_get q ''X-Amz-Content-SHA256''),
                       v4_Date = d, v4_FromHeader = False\<rparr>))"

text \<open>\<open>v2AuthorizationRegex\<close>.\<close>

definition match_v2 :: "string \<Rightarrow> (string \<times> string) option" where
  "match_v2 s =
     (if has_prefix s ''AWS ''
      then (case cut_byte CHR '':'' (drop 4 s) of
              None \<Rightarrow> None
            | Some (key, sig) \<Rightarrow>
                if key \<noteq> [] \<and> sig \<noteq> [] \<and> CHR 0x0A \<notin> set sig then Some (key, sig) else None)
      else None)"

definition ParseV2FromHeader :: "http_req \<Rightarrow> err + v2" where
  "ParseV2FromHeader r =
     (case match_v2 (header_get (hr_Header r) ''Authorization'') of
        None \<Rightarrow> Inl (Classed HeaderError (Sentinel MalformedAuthorizationV2))
      | Some (key, sig) \<Rightarrow> Inr \<lparr>v2_AccessKeyID = key, v2_Signature = sig, v2_FromHeader = True\<rparr>)"

definition ParseV2FromQuery :: "http_req \<Rightarrow> err + v2" where
  "ParseV2FromQuery r =
     (let k = q_get (hr_Query r) ''AWSAccessKeyId''; s = q_get (hr_Query r) ''Signature''
      in if k = [] then Inl (Classed QueryError (Classed InvalidQuery (Message ''no AWSAccessKeyId field'')))
         else if s = [] then Inl (Classed QueryError (Classed InvalidQuery (Message ''no Signature field'')))
         else Inr \<lparr>v2_AccessKeyID = k, v2_Signature = s, v2_FromHeader = False\<rparr>)"

subsection \<open>Forms\<close>

text \<open>
  A form is the list of its fields, in the order the code ranges over them, each with its first
  value; \<open>form_value\<close> looks a field up under its canonical name, where the last one wins.
  \<open>form_source\<close> is what becomes of the body: the error of keeping it, whether a form has been read
  already, the parsing of a media type and the reading of the parts between the boundary.
\<close>

type_synonym form = "(string \<times> string) list"

record form_source =
  fs_cache :: "err option"
  fs_processed :: bool
  fs_ParseMediaType :: "string \<Rightarrow> err + (string \<times> (string \<times> string) list)"
  fs_ReadForm :: "string \<Rightarrow> err + form"

definition form_value :: "form \<Rightarrow> string \<Rightarrow> string option" where
  "form_value f name =
     (case filter (\<lambda>(k, _). equal_fold k name) f of [] \<Rightarrow> None | ms \<Rightarrow> Some (snd (last ms)))"

abbreviation no_field :: "eclass \<Rightarrow> string \<Rightarrow> err" where
  "no_field c name \<equiv> Classed c (Classed MissingFields (Message ((''no '' @ name) @ '' field'')))"

definition ParseV4FromFormValues :: "form \<Rightarrow> err + v4" where
  "ParseV4FromFormValues f =
     (case form_value f ''X-Amz-Signature'' of
        None \<Rightarrow> Inl (no_field V4MultipartError ''X-Amz-Signature'')
      | Some sig \<Rightarrow>
          (case form_value f ''X-Amz-Date'' of
             None \<Rightarrow> Inl (no_field V4MultipartError ''X-Amz-Date'')
           | Some date \<Rightarrow>
               (case form_value f ''X-Amz-Credential'' of
                  None \<Rightarrow> Inl (no_field V4MultipartError ''X-Amz-Credential'')
                | Some cred \<Rightarrow>
                    (case ParseV4Credential cred of
                       Inl e \<Rightarrow> Inl (wrap V4MultipartError e)
                     | Inr c \<Rightarrow>
                         (case parse_iso8601 date of
                            None \<Rightarrow> Inl (Classed V4MultipartError (Sentinel InvalidDate))
                          | Some d \<Rightarrow>
                              Inr \<lparr>v4_Credential = Some c, v4_SignedHeaders = [], v4_Signature = sig,
                                   v4_ContentSHA256 = [], v4_Date = d, v4_FromHeader = False\<rparr>)))))"

definition ParseV2FromFormValues :: "form \<Rightarrow> err + v2" where
  "ParseV2FromFormValues f =
     (case form_value f ''AWSAccessKeyId'' of
        None \<Rightarrow> Inl (no_field V2MultipartError ''AWSAccessKeyId'')
      | Some key \<Rightarrow>
          (case form_value f ''Signature'' of
             None \<Rightarrow> Inl (no_field V2MultipartError ''Signature'')
           | Some sig \<Rightarrow> Inr \<lparr>v2_AccessKeyID = key, v2_Signature = sig, v2_FromHeader = False\<rparr>))"

definition getMultipartReader :: "form_source \<Rightarrow> http_req \<Rightarrow> err + (err + form)" where
  "getMultipartReader F r =
     (let fail = (\<lambda>m. Inl (Classed V4MultipartError (Message m)))
      in if fs_processed F then fail ''http: multipart already processed''
         else let v = header_get (hr_Header r) ''Content-Type''
         in if v = [] then fail ''not multipart''
         else case fs_ParseMediaType F v of
           Inl e \<Rightarrow> fail ''not multipart''
         | Inr (d, params) \<Rightarrow>
             if d \<noteq> ''multipart/form-data'' \<and> d \<noteq> ''multipart/mixed'' then fail ''not multipart''
             else case map_of params ''boundary'' of
               None \<Rightarrow> fail ''Missing boundary''
             | Some boundary \<Rightarrow> Inr (fs_ReadForm F boundary))"

definition ParseFromForm :: "form_source \<Rightarrow> http_req \<Rightarrow> (err + string) option" where
  "ParseFromForm F r =
     (case fs_cache F of
        Some e \<Rightarrow> Some (Inl e)
      | None \<Rightarrow>
          (case getMultipartReader F r of
             Inl e \<Rightarrow> Some (Inl (wrap MalformedPOST e))
           | Inr (Inl e) \<Rightarrow> Some (Inl (wrap MalformedPOST e))
           | Inr (Inr f) \<Rightarrow>
               (case ParseV4FromFormValues f of
                  Inr v \<Rightarrow> map_option (\<lambda>c. Inr (vc_AccessKeyID c)) (v4_Credential v)
                | Inl e4 \<Rightarrow>
                    (case ParseV2FromFormValues f of
                       Inr v \<Rightarrow> Some (Inr (v2_AccessKeyID v))
                     | Inl e2 \<Rightarrow> Some (Inl (Grouped [e4, e2]))))))"

subsection \<open>The access key ID\<close>

text \<open>\<open>v4.Credential.AccessKeyID\<close> of a nil \<open>Credential\<close> panics.\<close>

definition v4_key :: "err + v4 \<Rightarrow> (err + string) option" where
  "v4_key p =
     (case p of
        Inl e \<Rightarrow> Some (Inl e)
      | Inr v \<Rightarrow> map_option (\<lambda>c. Inr (vc_AccessKeyID c)) (v4_Credential v))"

definition v2_key :: "err + v2 \<Rightarrow> (err + string) option" where
  "v2_key p = (case p of Inl e \<Rightarrow> Some (Inl e) | Inr v \<Rightarrow> Some (Inr (v2_AccessKeyID v)))"

definition GetAccessKeyID :: "form_source \<Rightarrow> http_req \<Rightarrow> (err + string) option" where
  "GetAccessKeyID F r =
     (if isRequestSignatureV4 r then v4_key (ParseV4FromHeader r)
      else if isRequestPresignedSignatureV4 r then v4_key (ParseV4FromQuery r)
      else if isRequestSignatureV2 r then v2_key (ParseV2FromHeader r)
      else if isRequestPresignedSignatureV2 r then v2_key (ParseV2FromQuery r)
      else if isRequestPostPolicySignature r then ParseFromForm F r
      else Some (Inl (Sentinel NoAccessKey)))"

subsection \<open>The middleware\<close>

datatype api_err =
    ErrMissingFieldsV2 | ErrCredMalformed | ErrMalformedCredentialDate | ErrMalformedPresignedDate
  | ErrInvalidQuerySignatureAlgo | ErrMissingDateHeader | ErrInvalidQueryParams | ErrMissingFields
  | ErrMalformedPOSTRequest

definition errToAPIErrCode :: "err \<Rightarrow> api_err option" where
  "errToAPIErrCode e =
     (if is_err MalformedAuthorizationV2 e then Some ErrMissingFieldsV2
      else if is_err CredentialMalformed e then Some ErrCredMalformed
      else if is_err MalformedCredentialDate e then Some ErrMalformedCredentialDate
      else if is_err InvalidDate e then Some ErrMalformedPresignedDate
      else if is_err InvalidAlgorithm e then Some ErrInvalidQuerySignatureAlgo
      else if is_err InvalidDateHeader e then Some ErrMissingDateHeader
      else if has_class InvalidQuery e then Some ErrInvalidQueryParams
      else if has_class MissingFields e then Some ErrMissingFields
      else if has_class MalformedPOST e then Some ErrMalformedPOSTRequest
      else None)"

record credentials =
  cr_AccessKey :: string
  cr_Response :: auth_response
  cr_Error :: "err option"

text \<open>
  The handler answers with an error of the API, a generic one if the error has no code, or calls the
  next handler with the credentials in the context.
\<close>

datatype access_outcome = AnswerError "api_err option" err | CallNext "credentials option"

definition AccessKey :: "client_lib \<Rightarrow> (cached, 'c) lru option \<Rightarrow> client_config
    \<Rightarrow> (access_request \<Rightarrow> nat \<Rightarrow> answer) \<Rightarrow> (nat \<Rightarrow> err option) \<Rightarrow> string \<Rightarrow> trusted_list \<Rightarrow> form_source
    \<Rightarrow> http_req \<Rightarrow> 'c \<Rightarrow> (access_outcome \<times> 'c) option" where
  "AccessKey L cache a svc ctx requestID trustedIPs F r c =
     (case GetAccessKeyID F r of
        None \<Rightarrow> None
      | Some (Inl e) \<Rightarrow>
          (if is_err NoAccessKey e then Some (CallNext None, c)
           else Some (AnswerError (errToAPIErrCode e) e, c))
      | Some (Inr accessKeyID) \<Rightarrow>
          (case GetClientIP trustedIPs (hr_RemoteAddr r) (hr_Header r) of
             None \<Rightarrow> None
           | Some ip \<Rightarrow>
               (case ResolveWithCache L cache a svc ctx requestID accessKeyID ip c of
                  None \<Rightarrow> None
                | Some (Inl e, d) \<Rightarrow>
                    Some (CallNext (Some \<lparr>cr_AccessKey = [], cr_Response = no_response, cr_Error = Some e\<rparr>), d)
                | Some (Inr authResponse, d) \<Rightarrow>
                    Some (CallNext (Some \<lparr>cr_AccessKey = accessKeyID, cr_Response = authResponse,
                                          cr_Error = None\<rparr>), d))))"

subsection \<open>What the parsers accept\<close>

lemma slash_parts:
  "CHR ''/'' \<notin> set a \<Longrightarrow> CHR ''/'' \<notin> set d \<Longrightarrow> CHR ''/'' \<notin> set r \<Longrightarrow> CHR ''/'' \<notin> set v \<Longrightarrow>
   split_on CHR ''/'' (a @ CHR ''/'' # d @ CHR ''/'' # r @ CHR ''/'' # v @ ''/aws4_request'') = [a, d, r, v, ''aws4_request'']"
  by (simp add: split_on_append)

lemma dec_width_no: "\<not> is_digit c \<Longrightarrow> c \<notin> set (dec_width n v)"
  using dec_width_digits [of n v] by (auto simp: list_all_iff)

text \<open>A credential: the scope of a signature.\<close>

definition credential_text :: "v4_credential \<Rightarrow> string" where
  "credential_text c = vc_AccessKeyID c @ ''/'' @ format_yyyymmdd (vc_Date c) @ ''/'' @ vc_Region c @ ''/''
     @ vc_Service c @ ''/aws4_request''"

definition credential_ok :: "v4_credential \<Rightarrow> bool" where
  "credential_ok c = (vc_AccessKeyID c \<noteq> [] \<and> vc_Service c \<noteq> []
     \<and> (\<forall>s \<in> {vc_AccessKeyID c, vc_Region c, vc_Service c}. CHR ''/'' \<notin> set s \<and> CHR '','' \<notin> set s)
     \<and> civil_ok (vc_Date c) \<and> cv_hour (vc_Date c) = 0 \<and> cv_min (vc_Date c) = 0 \<and> cv_sec (vc_Date c) = 0
     \<and> cv_nsec (vc_Date c) = 0)"

lemma date_no: "\<not> is_digit x \<Longrightarrow> x \<notin> set (format_yyyymmdd d)"
  by (simp add: format_yyyymmdd_def dec_width_no)

lemma not_digit [simp]: "\<not> is_digit CHR ''/''" "\<not> is_digit CHR '',''" "\<not> is_digit CHR ''=''"
  by (simp_all add: is_digit_def)

lemma parse_credential_text:
  assumes "credential_ok c"
  shows "ParseV4Credential (credential_text c) = Inr c"
proof -
  let ?d = "format_yyyymmdd (vc_Date c)"
  have "length ?d = 8" by (simp add: format_yyyymmdd_def)
  then have "?d \<noteq> []" by auto
  then have "match_credential (credential_text c) = Some (vc_AccessKeyID c, ?d, vc_Region c, vc_Service c)"
    using assms slash_parts [of "vc_AccessKeyID c" ?d "vc_Region c" "vc_Service c"]
    by (simp add: match_credential_def credential_text_def credential_ok_def date_no)
  moreover have "parse_yyyymmdd ?d = Some (vc_Date c)"
    using assms by (simp add: parse_format_yyyymmdd credential_ok_def)
  ultimately show ?thesis by (simp add: ParseV4Credential_def)
qed

text \<open>A field of an authorization value and the text after it.\<close>

lemma match_field_at:
  assumes "k \<noteq> []" and "\<forall>c \<in> set k. c \<noteq> CHR '','' \<and> c \<noteq> CHR ''=''" and "v \<noteq> []" and "CHR '','' \<notin> set v"
  shows "match_field (k @ CHR ''='' # v) = Some (k, v, [])"
    and "match_field (k @ CHR ''='' # v @ CHR '','' # r) = Some (k, v, dropWhile (\<lambda>c. c = CHR '' '') r)"
proof -
  have k: "takeWhile (\<lambda>c. c \<noteq> CHR '','' \<and> c \<noteq> CHR ''='') (k @ CHR ''='' # x) = k" for x
    using assms(2) by (subst takeWhile_append2) auto
  have v1: "takeWhile (\<lambda>c. c \<noteq> CHR '','') v = v"
    using assms(4) by (auto simp: takeWhile_eq_all_conv)
  have v2: "takeWhile (\<lambda>c. c \<noteq> CHR '','') (v @ CHR '','' # r) = v"
    using assms(4) by (subst takeWhile_append2) auto
  show "match_field (k @ CHR ''='' # v) = Some (k, v, [])"
    unfolding match_field_def Let_def k using assms(1,3) v1 by (simp add: v1 del: takeWhile_eq_all_conv)
  show "match_field (k @ CHR ''='' # v @ CHR '','' # r) = Some (k, v, dropWhile (\<lambda>c. c = CHR '' '') r)"
    unfolding match_field_def Let_def k using assms(1,3) by (simp add: v2)
qed

lemma v4_fields_step:
  "kvs \<noteq> [] \<Longrightarrow> match_field kvs = Some (k, v, r) \<Longrightarrow>
   v4_fields kvs w =
     (if k = ''Credential'' then
        (case ParseV4Credential v of Inl e \<Rightarrow> Inl (wrap HeaderError e) | Inr c \<Rightarrow> v4_fields r (w\<lparr>v4_Credential := Some c\<rparr>))
      else if k = ''Signature'' then v4_fields r (w\<lparr>v4_Signature := v\<rparr>)
      else if k = ''SignedHeaders'' then v4_fields r (w\<lparr>v4_SignedHeaders := split_on CHR '';'' v\<rparr>)
      else v4_fields r w)"
  by (subst v4_fields.simps) simp

lemma v4_fields_Nil [simp]: "v4_fields [] w = Inr w"
  by (subst v4_fields.simps) simp

text \<open>The authorization value as clients write it.\<close>

definition authorization_text :: "v4_credential \<Rightarrow> string list \<Rightarrow> string \<Rightarrow> string" where
  "authorization_text c names sig =
     v4Algorithm @ '' Credential='' @ credential_text c @ '', SignedHeaders='' @ join '';'' names
       @ '', Signature='' @ sig"

lemma v4_fields_text:
  assumes "credential_ok c" and "names \<noteq> []" and "\<forall>h \<in> set names. h \<noteq> [] \<and> CHR '';'' \<notin> set h \<and> CHR '','' \<notin> set h"
    and "sig \<noteq> []" and "CHR '','' \<notin> set sig"
  shows "v4_fields (''Credential='' @ credential_text c @ '', SignedHeaders='' @ join '';'' names @ '', Signature='' @ sig) w
    = Inr (w\<lparr>v4_Credential := Some c, v4_SignedHeaders := names, v4_Signature := sig\<rparr>)"
proof -
  have ct: "credential_text c \<noteq> []" "CHR '','' \<notin> set (credential_text c)"
    using assms(1) date_no [of "CHR '',''" "vc_Date c"] by (auto simp: credential_text_def credential_ok_def)
  have sh: "join '';'' names \<noteq> []" "CHR '','' \<notin> set (join '';'' names)"
  proof -
    have "CHR '','' \<notin> set (join '';'' hs)" if "\<forall>h \<in> set hs. CHR '','' \<notin> set h" for hs
      using that by (induction "'';''" hs rule: join.induct) auto
    then show "CHR '','' \<notin> set (join '';'' names)" using assms(3) by blast
    show "join '';'' names \<noteq> []" using assms(2,3) by (cases names; cases "tl names") auto
  qed
  have split: "split_on CHR '';'' (join '';'' names) = names"
    using assms(2,3) by (intro split_on_join) auto
  have m1: "match_field (''Credential='' @ credential_text c @ '', SignedHeaders='' @ join '';'' names @ '', Signature='' @ sig)
      = Some (''Credential'', credential_text c, ''SignedHeaders='' @ join '';'' names @ '', Signature='' @ sig)"
    using match_field_at(2) [of "''Credential''" "credential_text c"] ct by simp
  have m2: "match_field (''SignedHeaders='' @ join '';'' names @ '', Signature='' @ sig)
      = Some (''SignedHeaders'', join '';'' names, ''Signature='' @ sig)"
    using match_field_at(2) [of "''SignedHeaders''" "join '';'' names"] sh by simp
  have m3: "match_field (''Signature='' @ sig) = Some (''Signature'', sig, [])"
    using match_field_at(1) [of "''Signature''" sig] assms(4,5) by simp
  have "v4_fields (''Credential='' @ credential_text c @ '', SignedHeaders='' @ join '';'' names @ '', Signature='' @ sig) w
      = v4_fields (''SignedHeaders='' @ join '';'' names @ '', Signature='' @ sig) (w\<lparr>v4_Credential := Some c\<rparr>)"
    by (subst v4_fields_step [OF _ m1]) (simp_all add: parse_credential_text [OF assms(1)])
  also have "\<dots> = v4_fields (''Signature='' @ sig) (w\<lparr>v4_Credential := Some c, v4_SignedHeaders := names\<rparr>)"
    by (subst v4_fields_step [OF _ m2]) (simp_all add: split)
  also have "\<dots> = Inr (w\<lparr>v4_Credential := Some c, v4_SignedHeaders := names, v4_Signature := sig\<rparr>)"
    by (subst v4_fields_step [OF _ m3]) simp_all
  finally show ?thesis .
qed

text \<open>A request that carries such a value, and the date.\<close>

definition bears_authorization :: "http_req \<Rightarrow> v4_credential \<Rightarrow> string list \<Rightarrow> string \<Rightarrow> bool" where
  "bears_authorization r c names sig =
     (credential_ok c \<and> names \<noteq> [] \<and> (\<forall>h \<in> set names. h \<noteq> [] \<and> CHR '';'' \<notin> set h \<and> CHR '','' \<notin> set h)
      \<and> sig \<noteq> [] \<and> CHR '','' \<notin> set sig \<and> CHR 0x0A \<notin> set (authorization_text c names sig)
      \<and> header_get (hr_Header r) ''Authorization'' = authorization_text c names sig)"

lemma parse_authorization:
  assumes "bears_authorization r c names sig" and "parse_iso8601 (header_get (hr_Header r) ''X-Amz-Date'') = Some d"
  shows "ParseV4FromHeader r = Inr \<lparr>v4_Credential = Some c, v4_SignedHeaders = names, v4_Signature = sig,
      v4_ContentSHA256 = header_get (hr_Header r) ''X-Amz-Content-SHA256'', v4_Date = d, v4_FromHeader = True\<rparr>"
proof -
  let ?kvs = "''Credential='' @ credential_text c @ '', SignedHeaders='' @ join '';'' names @ '', Signature='' @ sig"
  have a: "authorization_text c names sig = (v4Algorithm @ '' '') @ ?kvs"
    by (simp add: authorization_text_def)
  have "CHR 0x0A \<notin> set ?kvs"
    using assms(1) unfolding bears_authorization_def a by auto
  moreover have "drop 17 (authorization_text c names sig) = ?kvs"
    unfolding a by (simp add: v4Algorithm_def)
  ultimately have m: "match_authorization (header_get (hr_Header r) ''Authorization'') = Some ?kvs"
    using assms(1) has_prefix_append [of "v4Algorithm @ '' ''" ?kvs]
    unfolding match_authorization_def Let_def bears_authorization_def a [symmetric] by auto
  have f: "v4_fields ?kvs w = Inr (w\<lparr>v4_Credential := Some c, v4_SignedHeaders := names, v4_Signature := sig\<rparr>)" for w
    using assms(1) by (intro v4_fields_text) (simp_all add: bears_authorization_def)
  show ?thesis
    unfolding ParseV4FromHeader_def assms(2) m option.case f by simp
qed

lemma key_of_authorization:
  assumes "bears_authorization r c names sig" and "parse_iso8601 (header_get (hr_Header r) ''X-Amz-Date'') \<noteq> None"
  shows "GetAccessKeyID F r = Some (Inr (vc_AccessKeyID c))"
proof -
  have "isRequestSignatureV4 r"
    using assms(1) by (simp add: isRequestSignatureV4_def bears_authorization_def authorization_text_def)
  then show ?thesis
    using assms parse_authorization [OF assms(1)] by (auto simp: GetAccessKeyID_def v4_key_def)
qed

text \<open>Every error of parsing has a code of the API.\<close>

definition coded :: "err \<Rightarrow> bool" where
  "coded e = (errToAPIErrCode e \<noteq> None)"

lemma coded_iff:
  "coded e \<longleftrightarrow> is_err MalformedAuthorizationV2 e \<or> is_err CredentialMalformed e \<or> is_err MalformedCredentialDate e
     \<or> is_err InvalidDate e \<or> is_err InvalidAlgorithm e \<or> is_err InvalidDateHeader e
     \<or> has_class InvalidQuery e \<or> has_class MissingFields e \<or> has_class MalformedPOST e"
  by (simp add: coded_def errToAPIErrCode_def)

lemma coded_wrap [simp]: "coded (wrap c e) \<longleftrightarrow> coded e \<or> c \<in> {InvalidQuery, MissingFields, MalformedPOST}"
  unfolding coded_iff by auto

lemma coded_credential: "ParseV4Credential s = Inl e \<Longrightarrow> coded e \<and> \<not> is_err NoAccessKey e"
  by (auto simp: ParseV4Credential_def coded_iff split: option.splits prod.splits)

lemma coded_v4_fields: "v4_fields kvs w = Inl e \<Longrightarrow> coded e \<and> \<not> is_err NoAccessKey e"
proof (induction kvs w rule: v4_fields.induct)
  case (1 kvs w)
  show ?case
  proof (cases "kvs = []")
    case False
    show ?thesis
    proof (cases "match_field kvs")
      case None
      with 1(5) False show ?thesis
        by (subst (asm) v4_fields.simps) (auto simp: missing_fields_def coded_iff)
    next
      case (Some m)
      obtain k v r where m: "m = (k, v, r)" by (cases m)
      note IH = 1(1-4) [OF False Some [unfolded m] refl refl]
      show ?thesis
        using 1(5) IH coded_credential [of v]
        unfolding v4_fields_step [OF False Some [unfolded m]]
        by (auto split: if_splits sum.splits)
    qed
  qed (use 1(5) in simp)
qed

lemma coded_v4_header: "ParseV4FromHeader r = Inl e \<Longrightarrow> coded e \<and> \<not> is_err NoAccessKey e"
  by (auto simp: ParseV4FromHeader_def coded_iff dest: coded_v4_fields split: option.splits)

lemma coded_v4_query: "ParseV4FromQuery r = Inl e \<Longrightarrow> coded e \<and> \<not> is_err NoAccessKey e"
  by (auto simp: ParseV4FromQuery_def Let_def coded_iff dest!: coded_credential split: option.splits sum.splits if_splits)

lemma coded_v2_header: "ParseV2FromHeader r = Inl e \<Longrightarrow> coded e \<and> \<not> is_err NoAccessKey e"
  by (auto simp: ParseV2FromHeader_def coded_iff split: option.splits)

lemma coded_v2_query: "ParseV2FromQuery r = Inl e \<Longrightarrow> coded e \<and> \<not> is_err NoAccessKey e"
  by (auto simp: ParseV2FromQuery_def Let_def coded_iff split: if_splits)

lemma coded_v4_form: "ParseV4FromFormValues f = Inl e \<Longrightarrow> \<not> is_err NoAccessKey e"
  by (auto simp: ParseV4FromFormValues_def dest: coded_credential split: option.splits sum.splits)

lemma coded_v2_form: "ParseV2FromFormValues f = Inl e \<Longrightarrow> coded e \<and> \<not> is_err NoAccessKey e"
  by (auto simp: ParseV2FromFormValues_def coded_iff split: option.splits)

lemma coded_form:
  assumes "ParseFromForm F r = Some (Inl e)" and "fs_cache F = None"
  shows "coded e"
  using assms by (auto simp: ParseFromForm_def dest!: coded_v2_form split: sum.splits option.splits)
    (auto simp: coded_iff)

subsection \<open>Properties\<close>

text \<open>
  An S3 request whose version 4 authorization names the access key that a successful
  POST /v1/access returned, with a well-formed date, passes the middleware with exactly the access
  grant, the secret key and the flag that were registered with the authentication service, whoever
  signed it: the signature is left to the handlers behind.
\<close>

lemma s3_request_gets_registered_grant:
  assumes "badger_db D view live" and "crypto L" and "store_ok (db_proto D) live (view s)"
    and "length key = 16" and "length sk = 32" and "K = node_kv D answers ctx now"
    and "Resources_ServeHTTP L res K allowed (Inr key) (Inr sk) req s = Some (rsp, t)"
    and "rq_Path req = ''/v1/access''" and "rq_Body req = BodyDecoded accessGrant public"
    and "rp_Body rsp = AccessCreated keyID secret ep"
    and "\<And>r. make_record L allowed (Inr sk) key accessGrant public = Inr (sk, r) \<Longrightarrow>
      live (expiry (record_at now r))"
    and "0 \<le> rs_postSizeLimit res" and "rs_authToken res = [] \<or> cc_Token a \<in> set (rs_authToken res)"
    and "cl_Parse CL (cc_BaseURL a) = Inr base" and "url_Path base = []"
    and "bears_authorization r c names sig" and "vc_AccessKeyID c = keyID"
    and "parse_iso8601 (header_get (hr_Header r) ''X-Amz-Date'') \<noteq> None"
    and "GetClientIP trusted (hr_RemoteAddr r) (hr_Header r) \<noteq> None"
  shows "AccessKey CL None a (auth_server L res K allowed t) sleeps requestID trusted F r u =
    Some (CallNext (Some \<lparr>cr_AccessKey = keyID, cr_Response =
        \<lparr>au_AccessGrant = accessGrant, au_SecretKey = secret, au_Public = public\<rparr>, cr_Error = None\<rparr>), u)"
proof -
  have k: "GetAccessKeyID F r = Some (Inr keyID)"
    using key_of_authorization [OF assms(16,18)] assms(17) by simp
  obtain ip where ip: "GetClientIP trusted (hr_RemoteAddr r) (hr_Header r) = Some ip"
    using assms(19) by auto
  have "Resolve CL a (auth_server L res K allowed t) sleeps requestID keyID ip =
      Some (Inr \<lparr>au_AccessGrant = accessGrant, au_SecretKey = secret, au_Public = public\<rparr>)"
    by (rule client_resolves_registered [OF assms(1-15)])
  then show ?thesis
    unfolding AccessKey_def k by (simp add: ip ResolveWithCache_def)
qed

definition demo_credential :: v4_credential where
  "demo_credential = \<lparr>vc_AccessKeyID = demo_keyID, vc_Date = \<lparr>cv_year = 2023, cv_month = 1, cv_day = 31,
     cv_hour = 0, cv_min = 0, cv_sec = 0, cv_nsec = 0\<rparr>, vc_Region = ''us-east-1'', vc_Service = ''s3''\<rparr>"

definition demo_form :: form_source where
  "demo_form = \<lparr>fs_cache = None, fs_processed = False, fs_ParseMediaType = (\<lambda>_. Inl (Message [])), fs_ReadForm = (\<lambda>_. Inl (Message []))\<rparr>"

definition demo_s3_request :: http_req where
  "demo_s3_request = \<lparr>hr_Method = ''GET'', hr_Path = ''/bucket/key'', hr_EscapedPath = ''/bucket/key'', hr_Query = [],
     hr_Header = [(''Authorization'', authorization_text demo_credential [''host''] ''f00d''),
                  (''X-Amz-Date'', format_iso8601 (vc_Date demo_credential))],
     hr_Host = ''gateway'', hr_RemoteAddr = ''1.2.3.4:5'', hr_ContentLength = 0, hr_TransferEncoding = [], hr_RawQuery = [], hr_Scheme = [], hr_RequestURI = []\<rparr>"

lemma demo_keyID_plain: "CHR ''/'' \<notin> set demo_keyID" "CHR '','' \<notin> set demo_keyID" "CHR 0x0A \<notin> set demo_keyID"
  unfolding demo_keyID_def key_ToBase32_def using base32_char by fastforce+

lemma demo_bears: "bears_authorization demo_s3_request demo_credential [''host''] ''f00d''"
proof -
  have "CHR 0x0A \<notin> set (credential_text demo_credential)"
    using demo_keyID_plain date_no [of "CHR 0x0A"]
    by (simp add: credential_text_def demo_credential_def is_digit_def)
  moreover have "credential_ok demo_credential"
    using demo_keyID_plain demo_key(2)
    by (simp add: credential_ok_def demo_credential_def civil_ok_def days_in_month_def)
  ultimately show ?thesis
    by (simp add: bears_authorization_def authorization_text_def v4Algorithm_def demo_s3_request_def)
qed

lemma s3_request_gets_registered_grant_witness:
  "\<exists>rsp t keyID secret ep. rp_Body rsp = AccessCreated keyID secret ep
     \<and> Resources_ServeHTTP demo_lib demo_resources demo_kv {demo_url} (Inr (replicate 16 CHR ''k''))
         (Inr (replicate 32 CHR ''s'')) demo_post [] = Some (rsp, t)
     \<and> AccessKey demo_client None demo_client_config (auth_server demo_lib demo_resources demo_kv {demo_url} t)
         (\<lambda>_. None) [] NewListUntrustAll demo_form demo_s3_request () =
       Some (CallNext (Some \<lparr>cr_AccessKey = keyID, cr_Response =
         \<lparr>au_AccessGrant = ''grant'', au_SecretKey = secret, au_Public = True\<rparr>, cr_Error = None\<rparr>), ())"
proof -
  obtain rsp t where r: "Resources_ServeHTTP demo_lib demo_resources demo_kv {demo_url} (Inr (replicate 16 CHR ''k''))
       (Inr (replicate 32 CHR ''s'')) demo_post [] = Some (rsp, t)"
    and b: "rp_Body rsp = AccessCreated (key_ToBase32 (replicate 16 CHR ''k'')) (secret_ToBase32 (replicate 32 CHR ''s'')) ''https://gw''"
    and live: "\<And>r. make_record demo_lib {demo_url} (Inr (replicate 32 CHR ''s'')) (replicate 16 CHR ''k'') ''grant'' True =
      Inr (replicate 32 CHR ''s'', r) \<Longrightarrow> unexpired 1000 (expiry (record_at 7 r))"
    by (rule demo_registered) (rule that)
  have date: "parse_iso8601 (header_get (hr_Header demo_s3_request) ''X-Amz-Date'') \<noteq> None"
    by (simp add: demo_s3_request_def demo_credential_def equal_fold_def to_lower_def lower_char_def
        parse_format_iso8601 civil_ok_def days_in_month_def)
  have ip: "GetClientIP NewListUntrustAll (hr_RemoteAddr demo_s3_request) (hr_Header demo_s3_request) \<noteq> None"
  proof -
    have "stripPort ''1.2.3.4:5'' \<noteq> None" by code_simp
    then show ?thesis by (auto simp: GetClientIP_def IsTrusted_def NewListUntrustAll_def demo_s3_request_def)
  qed
  have "AccessKey demo_client None demo_client_config (auth_server demo_lib demo_resources demo_kv {demo_url} t)
         (\<lambda>_. None) [] NewListUntrustAll demo_form demo_s3_request () =
       Some (CallNext (Some \<lparr>cr_AccessKey = key_ToBase32 (replicate 16 CHR ''k''), cr_Response =
         \<lparr>au_AccessGrant = ''grant'', au_SecretKey = secret_ToBase32 (replicate 32 CHR ''s''), au_Public = True\<rparr>,
         cr_Error = None\<rparr>), ())"
    by (rule s3_request_gets_registered_grant [OF demo_ok demo_lib.crypto_axioms store_ok_Nil _ _ refl r _ _ b live
          _ _ _ _ demo_bears _ date ip, where base = "\<lparr>url_Scheme = ''http'', url_Host = ''auth'', url_Path = []\<rparr>"])
      (simp_all add: demo_post_def demo_resources_def demo_client_def demo_client_config_def
        demo_credential_def demo_keyID_def)
  with r b show ?thesis by blast
qed

lemma parsed_credential_query: "ParseV4FromQuery r = Inr v \<Longrightarrow> v4_Credential v \<noteq> None"
  by (auto simp: ParseV4FromQuery_def Let_def split: if_splits sum.splits option.splits)

lemma parsed_credential_form: "ParseV4FromFormValues f = Inr v \<Longrightarrow> v4_Credential v \<noteq> None"
  by (auto simp: ParseV4FromFormValues_def split: sum.splits option.splits)

lemma form_returns: "ParseFromForm F r \<noteq> None"
  using parsed_credential_form by (auto simp: ParseFromForm_def split: option.splits sum.splits)

lemma v4_fields_signature:
  assumes "sig \<noteq> []" and "CHR '','' \<notin> set sig"
  shows "v4_fields (''Signature='' @ sig) w = Inr (w\<lparr>v4_Signature := sig\<rparr>)"
proof -
  have m: "match_field (''Signature='' @ sig) = Some (''Signature'', sig, [])"
    using match_field_at(1) [of "''Signature''" sig] assms by simp
  show ?thesis by (subst v4_fields_step [OF _ m]) simp_all
qed

text \<open>
  Looking for the access key panics exactly on a version 4 authorization header that parses and
  has no \<open>Credential\<close> field, and there is such a header for every signature: no field is required of
  it, so that a client needs no access key to send it.  Queries and forms never make it panic.
\<close>

lemma access_key_panics_iff:
  "(GetAccessKeyID F r = None \<longleftrightarrow>
      isRequestSignatureV4 r \<and> (\<exists>v. ParseV4FromHeader r = Inr v \<and> v4_Credential v = None))
   \<and> (header_get (hr_Header r) ''Authorization'' = v4Algorithm @ '' Signature='' @ sig
      \<and> sig \<noteq> [] \<and> CHR '','' \<notin> set sig \<and> CHR 0x0A \<notin> set sig
      \<and> parse_iso8601 (header_get (hr_Header r) ''X-Amz-Date'') \<noteq> None
      \<longrightarrow> GetAccessKeyID F r = None)"
proof (intro conjI impI)
  show iff: "GetAccessKeyID F r = None \<longleftrightarrow>
      isRequestSignatureV4 r \<and> (\<exists>v. ParseV4FromHeader r = Inr v \<and> v4_Credential v = None)"
    using parsed_credential_query [of r] form_returns [of F r]
    by (auto simp: GetAccessKeyID_def v4_key_def v2_key_def split: sum.splits)
  assume a: "header_get (hr_Header r) ''Authorization'' = v4Algorithm @ '' Signature='' @ sig
      \<and> sig \<noteq> [] \<and> CHR '','' \<notin> set sig \<and> CHR 0x0A \<notin> set sig
      \<and> parse_iso8601 (header_get (hr_Header r) ''X-Amz-Date'') \<noteq> None"
  then obtain d where d: "parse_iso8601 (header_get (hr_Header r) ''X-Amz-Date'') = Some d" by auto
  have m: "match_authorization (header_get (hr_Header r) ''Authorization'') = Some (''Signature='' @ sig)"
    using a by (simp add: match_authorization_def v4Algorithm_def)
  have f: "v4_fields (''Signature='' @ sig) w = Inr (w\<lparr>v4_Signature := sig\<rparr>)" for w
    using a by (intro v4_fields_signature) simp_all
  then have "\<exists>v. ParseV4FromHeader r = Inr v \<and> v4_Credential v = None"
    unfolding ParseV4FromHeader_def m d option.case f by simp
  moreover have "isRequestSignatureV4 r"
    unfolding isRequestSignatureV4_def using a by (metis has_prefix_append)
  ultimately show "GetAccessKeyID F r = None" using iff by blast
qed

definition demo_panic_request :: http_req where
  "demo_panic_request = demo_s3_request\<lparr>hr_Header :=
     [(''Authorization'', v4Algorithm @ '' Signature=00''),
      (''X-Amz-Date'', format_iso8601 (vc_Date demo_credential))]\<rparr>"

lemma access_key_panics_iff_witness: "GetAccessKeyID demo_form demo_panic_request = None"
proof (rule access_key_panics_iff [of demo_form demo_panic_request "''00''", THEN conjunct2, THEN mp])
  show "header_get (hr_Header demo_panic_request) ''Authorization'' = v4Algorithm @ '' Signature='' @ ''00''
      \<and> ''00'' \<noteq> [] \<and> CHR '','' \<notin> set ''00'' \<and> CHR 0x0A \<notin> set ''00''
      \<and> parse_iso8601 (header_get (hr_Header demo_panic_request) ''X-Amz-Date'') \<noteq> None"
    by (simp add: demo_panic_request_def demo_credential_def equal_fold_def to_lower_def lower_char_def
        parse_format_iso8601 civil_ok_def days_in_month_def)
qed

text \<open>
  A request without usable credentials is never answered with the generic error.  Without any
  sign of credentials it goes on without them; when parsing fails it is answered with the code of
  the API for what failed, unless the body of a form could not be kept; when resolving fails the
  error goes on with the request.
\<close>

lemma unusable_credentials:
  assumes "AccessKey CL cache a svc ctx requestID trusted F r c = Some (out, d)" and "fs_cache F = None"
  shows "(\<not> isRequestSignatureV4 r \<and> \<not> isRequestPresignedSignatureV4 r \<and> \<not> isRequestSignatureV2 r
            \<and> \<not> isRequestPresignedSignatureV2 r \<and> \<not> isRequestPostPolicySignature r
            \<longrightarrow> out = CallNext None)
       \<and> (\<forall>code e. out = AnswerError code e \<longrightarrow> code \<noteq> None \<and> GetAccessKeyID F r = Some (Inl e) \<and> d = c)
       \<and> (\<forall>cr e. out = CallNext (Some cr) \<and> cr_Error cr = Some e \<longrightarrow>
            cr_AccessKey cr = [] \<and> (\<exists>keyID ip. GetAccessKeyID F r = Some (Inr keyID)
              \<and> ResolveWithCache CL cache a svc ctx requestID keyID ip c = Some (Inl e, d)))"
proof -
  have coded: "coded e \<or> e = Sentinel NoAccessKey" if "GetAccessKeyID F r = Some (Inl e)" for e
    using that coded_v4_header [of r e] coded_v4_query [of r e] coded_v2_header [of r e] coded_v2_query [of r e]
      coded_form [OF _ assms(2), of r e]
    by (auto simp: GetAccessKeyID_def v4_key_def v2_key_def split: if_splits sum.splits)
  show ?thesis
  proof (intro conjI allI impI)
    assume "\<not> isRequestSignatureV4 r \<and> \<not> isRequestPresignedSignatureV4 r \<and> \<not> isRequestSignatureV2 r
            \<and> \<not> isRequestPresignedSignatureV2 r \<and> \<not> isRequestPostPolicySignature r"
    then show "out = CallNext None"
      using assms(1) by (simp add: AccessKey_def GetAccessKeyID_def)
  next
    fix code e assume "out = AnswerError code e"
    then have "GetAccessKeyID F r = Some (Inl e)" "\<not> is_err NoAccessKey e" "d = c" "code = errToAPIErrCode e"
      using assms(1) by (auto simp: AccessKey_def split: option.splits sum.splits if_splits)
    with coded [of e] show "code \<noteq> None" "GetAccessKeyID F r = Some (Inl e)" "d = c"
      by (auto simp: coded_def)
  next
    fix cr e assume "out = CallNext (Some cr) \<and> cr_Error cr = Some e"
    then obtain keyID ip where "cr_AccessKey cr = []" and "GetAccessKeyID F r = Some (Inr keyID)"
      and "ResolveWithCache CL cache a svc ctx requestID keyID ip c = Some (Inl e, d)"
      using assms(1) by (auto simp: AccessKey_def split: option.splits sum.splits if_splits)
    then show "cr_AccessKey cr = []"
      "\<exists>keyID ip. GetAccessKeyID F r = Some (Inr keyID)
              \<and> ResolveWithCache CL cache a svc ctx requestID keyID ip c = Some (Inl e, d)"
      by blast+
  qed
qed

lemma unusable_credentials_witness:
  "AccessKey demo_client None demo_client_config (\<lambda>_ _. NoAnswer (Message [])) (\<lambda>_. None) [] NewListUntrustAll
     demo_form
     (demo_s3_request\<lparr>hr_Header := []\<rparr>) () = Some (CallNext None, ())"
proof -
  let ?r = "demo_s3_request\<lparr>hr_Header := []\<rparr>"
  have n: "\<not> isRequestSignatureV4 ?r" "\<not> isRequestPresignedSignatureV4 ?r" "\<not> isRequestSignatureV2 ?r"
    "\<not> isRequestPresignedSignatureV2 ?r" "\<not> isRequestPostPolicySignature ?r"
    by (simp_all add: isRequestSignatureV4_def isRequestPresignedSignatureV4_def isRequestSignatureV2_def
        isRequestPresignedSignatureV2_def isRequestPostPolicySignature_def demo_s3_request_def v4Algorithm_def)
  then obtain out d where "AccessKey demo_client None demo_client_config (\<lambda>_ _. NoAnswer (Message [])) (\<lambda>_. None) []
      NewListUntrustAll demo_form ?r () = Some (out, d)"
    by (simp add: AccessKey_def GetAccessKeyID_def)
  with unusable_credentials [OF this] n show ?thesis by (simp add: demo_form_def)
qed

end
