(* ===== verification/GoCrypto.thy ===== *)
theory GoCrypto
  imports Prelude
begin

section \<open>SHA-256, HMAC and hexadecimal text (Go's packages crypto/sha256, crypto/hmac, encoding/hex)\<close>

text \<open>
  The hash of FIPS 180-4 on 32-bit words: the message is padded with a one bit, zeros and its length
  in bits to blocks of 64 bytes, each block is expanded to 64 words and mixed into the state in 64
  rounds.  The length counts as a 64-bit number, so the padding is exact below \<open>2 ^ 61\<close> bytes, more
  than a Go slice can hold.  HMAC is RFC 2104 with blocks of 64 bytes.
\<close>

unbundle bit_operations_syntax

definition rotr :: "nat \<Rightarrow> u32 \<Rightarrow> u32" where
  "rotr n w = (drop_bit n w OR push_bit (32 - n) w)"

text \<open>
  The constants are the first 32 bits of the fractional parts of the cube roots of the first 64
  primes and of the square roots of the first eight, computed here bit by bit: \<open>root_bits k n b 0\<close>
  is the greatest number of \<open>b\<close> bits whose \<open>k\<close>th power is at most \<open>n\<close>.
\<close>

fun root_bits :: "nat \<Rightarrow> int \<Rightarrow> nat \<Rightarrow> int \<Rightarrow> int" where
  "root_bits k n 0 r = r"
| "root_bits k n (Suc b) r = root_bits k n b (if (r + 2 ^ b) ^ k \<le> n then r + 2 ^ b else r)"

definition sha_constant :: "nat \<Rightarrow> int \<Rightarrow> u32" where
  "sha_constant k p = of_int (root_bits k (p * 2 ^ (32 * k)) 36 0)"

definition sha_primes :: "int list" where
  "sha_primes =
    [2, 3, 5, 7, 11, 13, 17, 19, 23, 29, 31, 37, 41, 43, 47, 53, 59, 61, 67, 71, 73, 79,
     83, 89, 97, 101, 103, 107, 109, 113, 127, 131, 137, 139, 149, 151, 157, 163, 167, 173, 179, 181, 191, 193,
     197, 199, 211, 223, 227, 229, 233, 239, 241, 251, 257, 263, 269, 271, 277, 281, 283, 293, 307, 311]"

definition sha_K :: "u32 list" where
  "sha_K = map (sha_constant 3) sha_primes"

definition sha_H :: "u32 list" where
  "sha_H = map (sha_constant 2) (take 8 sha_primes)"

text \<open>The expansion keeps the last sixteen words, the newest first.\<close>

fun sha_expand :: "nat \<Rightarrow> u32 list \<Rightarrow> u32 list" where
  "sha_expand 0 ws = ws"
| "sha_expand (Suc n) ws =
     (let w15 = ws ! 14; w2 = ws ! 1;
          s0 = rotr 7 w15 XOR rotr 18 w15 XOR drop_bit 3 w15;
          s1 = rotr 17 w2 XOR rotr 19 w2 XOR drop_bit 10 w2
      in sha_expand n ((ws ! 15 + s0 + ws ! 6 + s1) # ws))"

definition sha_round :: "u32 list \<Rightarrow> u32 \<times> u32 \<Rightarrow> u32 list" where
  "sha_round st kw =
     (let e = st ! 4;
          s1 = rotr 6 e XOR rotr 11 e XOR rotr 25 e;
          ch = (e AND st ! 5) XOR (NOT e AND st ! 6);
          t1 = st ! 7 + s1 + ch + fst kw + snd kw;
          a = st ! 0;
          s0 = rotr 2 a XOR rotr 13 a XOR rotr 22 a;
          maj = (a AND st ! 1) XOR (a AND st ! 2) XOR (st ! 1 AND st ! 2)
      in [t1 + (s0 + maj), a, st ! 1, st ! 2, st ! 3 + t1, e, st ! 5, st ! 6])"

fun be_words :: "bytes \<Rightarrow> u32 list" where
  "be_words (a # b # c # d # bs) = word_of_nat (be_nat [a, b, c, d]) # be_words bs"
| "be_words _ = []"

definition sha_block :: "u32 list \<Rightarrow> bytes \<Rightarrow> u32 list" where
  "sha_block st block =
     map2 (+) st (foldl sha_round st (zip sha_K (rev (sha_expand 48 (rev (be_words block))))))"

definition sha_pad :: "bytes \<Rightarrow> bytes" where
  "sha_pad m = m @ CHR 0x80 # replicate ((119 - length m mod 64) mod 64) NUL @ be_bytes 8 (8 * length m)"

fun sha_blocks :: "nat \<Rightarrow> u32 list \<Rightarrow> bytes \<Rightarrow> u32 list" where
  "sha_blocks 0 st m = st"
| "sha_blocks (Suc n) st m = sha_blocks n (sha_block st (take 64 m)) (drop 64 m)"

definition sha256 :: "bytes \<Rightarrow> bytes" where
  "sha256 m =
     (let p = sha_pad m
      in concat (map (\<lambda>w. be_bytes 4 (unat w)) (sha_blocks (length p div 64) sha_H p)))"

definition xor_byte :: "nat \<Rightarrow> char \<Rightarrow> char" where
  "xor_byte n c = char_of (n XOR (of_char c :: nat))"

definition hmac_sha256 :: "bytes \<Rightarrow> bytes \<Rightarrow> bytes" where
  "hmac_sha256 key m =
     (let k = (if length key > 64 then sha256 key else key);
          k64 = k @ replicate (64 - length k) NUL
      in sha256 (map (xor_byte 0x5c) k64 @ sha256 (map (xor_byte 0x36) k64 @ m)))"

text \<open>\<open>hex.EncodeToString\<close>.\<close>

definition lower_hex :: "nat \<Rightarrow> char" where
  "lower_hex n = (if n < 10 then char_of (48 + n) else char_of (87 + n))"

definition hex_encode :: "bytes \<Rightarrow> string" where
  "hex_encode bs = concat (map (\<lambda>c. [lower_hex (of_char c div 16), lower_hex (of_char c mod 16)]) bs)"

lemma length_lower_hex [simp]: "length (hex_encode bs) = 2 * length bs"
  by (induction bs) (auto simp: hex_encode_def)

lemma lower_hex_range: "n < 16 \<Longrightarrow> 48 \<le> (of_char (lower_hex n) :: nat)"
  by (simp add: lower_hex_def)

lemma hex_encode_range: "c \<in> set (hex_encode bs) \<Longrightarrow> 48 \<le> (of_char c :: nat)"
proof -
  have "(of_char b :: nat) div 16 < 16" for b
    using nat_of_char_less_256 [of b] by (simp add: less_mult_imp_div_less)
  then show "c \<in> set (hex_encode bs) \<Longrightarrow> 48 \<le> (of_char c :: nat)"
    by (auto simp: hex_encode_def lower_hex_range)
qed

lemma length_sha_round [simp]: "length (sha_round st kw) = 8"
  by (simp add: sha_round_def Let_def)

lemma length_sha_rounds: "length st = 8 \<Longrightarrow> length (foldl sha_round st kws) = 8"
  by (induction kws arbitrary: st) auto

lemma length_sha_blocks: "length st = 8 \<Longrightarrow> length (sha_blocks n st m) = 8"
  by (induction n arbitrary: st m) (auto simp: sha_block_def length_sha_rounds)

lemma length_sha256 [simp]: "length (sha256 m) = 32"
proof -
  have "length st = 8 \<Longrightarrow> length (concat (map (\<lambda>w. be_bytes 4 (unat (w :: u32))) st)) = 32" for st
    by (simp add: length_concat comp_def sum_list_triv)
  then show ?thesis
    unfolding sha256_def Let_def by (simp add: length_sha_blocks sha_H_def sha_primes_def)
qed

lemma length_hmac_sha256 [simp]: "length (hmac_sha256 k m) = 32"
  by (simp add: hmac_sha256_def Let_def)

end
