(* ===== verification/Signed.thy ===== *)
theory Signed
  imports GoHttp GoTime GoCrypto
begin

section \<open>Signed requests of linksharing (pkg/linksharing/sharing/internal/signed/signed.go)\<close>

text \<open>
  A request for a non-public access grant carries a signature of version 4 made with the secret
  key.  \<open>VerifySigningInfo\<close> takes the authorization value apart, rebuilds the string the client has
  signed from the request, signs it with the secret key and compares; the time of the signature must
  be within a tolerance of the current time.  The result is the error, \<open>None\<close> if the request is
  accepted.  The extracted headers are a map with lower-case names, since names that differ only in
  the case of letters are the same key of \<open>http.Header\<close>.
\<close>

definition v4SigningAlgorithm :: string where
  "v4SigningAlgorithm = ''AWS4-HMAC-SHA256''"

definition emptyBodySHA256Hash :: string where
  "emptyBodySHA256Hash = ''e3b0c44298fc1c149afbf4c8996fb92427ae41e4649b934ca495991b7852b855''"

subsection \<open>Parsing the authorization value\<close>

record parsedCredential =
  pc_accessKeyID :: string
  pc_date :: civil
  pc_region :: string
  pc_service :: string
  pc_request :: string

record signingInfo =
  si_credential :: parsedCredential
  si_signedHeaders :: "string list"
  si_signature :: string

definition buildScope :: "parsedCredential \<Rightarrow> string" where
  "buildScope p = join ''/'' [format_yyyymmdd (pc_date p), pc_region p, pc_service p, pc_request p]"

definition parseCredential :: "string \<Rightarrow> err + parsedCredential" where
  "parseCredential credential =
     (let fail = (\<lambda>m. Inl (Classed CredentialPart (Message m)))
      in case splitn 2 CHR ''='' credential of
        [name, value] \<Rightarrow>
          if name \<noteq> ''Credential'' then fail ''not a Credential''
          else (case splitn 5 CHR ''/'' value of
            [accessKeyID, date, region, service, request] \<Rightarrow>
              (case parse_yyyymmdd date of
                 None \<Rightarrow> fail ''invalid date''
               | Some d \<Rightarrow>
                   if service \<noteq> ''linksharing'' then fail ''invalid service''
                   else if request \<noteq> ''aws4_request'' then fail ''invalid request''
                   else Inr \<lparr>pc_accessKeyID = accessKeyID, pc_date = d, pc_region = region,
                             pc_service = service, pc_request = request\<rparr>)
          | _ \<Rightarrow> fail ''invalid number of elements'')
      | _ \<Rightarrow> fail ''invalid number of fields'')"

definition parseSignedHeaders :: "string \<Rightarrow> err + string list" where
  "parseSignedHeaders signedHeaders =
     (let fail = (\<lambda>m. Inl (Classed SignedHeadersPart (Message m)))
      in case splitn 2 CHR ''='' signedHeaders of
        [name, value] \<Rightarrow>
          if name \<noteq> ''SignedHeaders'' then fail ''not a SignedHeaders''
          else if value = [] then fail ''empty''
          else if ''host'' \<in> set (split_on CHR '';'' value) then Inr (split_on CHR '';'' value)
          else fail ''host header is mandatory''
      | _ \<Rightarrow> fail ''invalid number of fields'')"

definition parseSignature :: "string \<Rightarrow> err + string" where
  "parseSignature signature =
     (let fail = (\<lambda>m. Inl (Classed SignaturePart (Message m)))
      in case splitn 2 CHR ''='' signature of
        [name, value] \<Rightarrow>
          if name \<noteq> ''Signature'' then fail ''not a Signature''
          else if value = [] then fail ''empty''
          else Inr value
      | _ \<Rightarrow> fail ''invalid number of fields'')"

definition parseSigningInfo :: "string \<Rightarrow> err + signingInfo" where
  "parseSigningInfo value =
     (let authorizationValue = replace_byte CHR '' '' [] value
      in if \<not> has_prefix authorizationValue v4SigningAlgorithm
         then Inl (Classed SigningInfoError (Message ''invalid algorithm''))
         else case splitn 3 CHR '','' (drop (length v4SigningAlgorithm) authorizationValue) of
           [p0, p1, p2] \<Rightarrow>
             (case parseCredential p0 of
                Inl e \<Rightarrow> Inl (wrap SigningInfoError e)
              | Inr credential \<Rightarrow>
                  (case parseSignedHeaders p1 of
                     Inl e \<Rightarrow> Inl (wrap SigningInfoError e)
                   | Inr signedHeaders \<Rightarrow>
                       (case parseSignature p2 of
                          Inl e \<Rightarrow> Inl (wrap SigningInfoError e)
                        | Inr signature \<Rightarrow>
                            Inr \<lparr>si_credential = credential, si_signedHeaders = signedHeaders,
                                 si_signature = signature\<rparr>)))
         | _ \<Rightarrow> Inl (Classed SigningInfoError (Message ''invalid number of parts'')))"

subsection \<open>The canonical request\<close>

type_synonym header_map = "(string \<times> string list) list"

definition hm_set :: "string \<Rightarrow> string list \<Rightarrow> header_map \<Rightarrow> header_map" where
  "hm_set k vs m = (k, vs) # filter (\<lambda>(n, _). n \<noteq> k) m"

definition h_values :: "header \<Rightarrow> string \<Rightarrow> string list" where
  "h_values h k = map snd (filter (\<lambda>(n, _). equal_fold n k) h)"

definition extract_header :: "http_req \<Rightarrow> string \<Rightarrow> err + string list" where
  "extract_header r name =
     (if h_has (hr_Header r) name then Inr (h_values (hr_Header r) name)
      else if name = ''content-length'' then Inr [itoa (hr_ContentLength r)]
      else if name = ''expect'' then Inr [''100-continue'']
      else if name = ''host'' then Inr [hr_Host r]
      else if name = ''transfer-encoding'' then Inr (hr_TransferEncoding r)
      else Inl (Message ''signed header not found''))"

fun extract_headers :: "http_req \<Rightarrow> string list \<Rightarrow> header_map \<Rightarrow> err + header_map" where
  "extract_headers r [] extracted = Inr extracted"
| "extract_headers r (name # names) extracted =
     (case extract_header r name of
        Inl e \<Rightarrow> Inl e
      | Inr vs \<Rightarrow> extract_headers r names (hm_set (to_lower name) vs extracted))"

definition extractHeaders :: "string list \<Rightarrow> http_req \<Rightarrow> err + header_map" where
  "extractHeaders signedHeaders r = extract_headers r signedHeaders []"

definition trimAll :: "string \<Rightarrow> string" where
  "trimAll s = join '' '' (GoStrings.fields s)"

definition canonicalizeHeaders :: "header_map \<Rightarrow> string" where
  "canonicalizeHeaders m =
     concat (map (\<lambda>k. k @ '':'' @ join '','' (map trimAll (case map_of m k of None \<Rightarrow> [] | Some vs \<Rightarrow> vs)) @ [CHR 0x0A])
       (sort (map fst m)))"

definition createSignedHeaders :: "header_map \<Rightarrow> string" where
  "createSignedHeaders m = join '';'' (sort (map fst m))"

definition canonicalizeRequest :: "http_req \<Rightarrow> header_map \<Rightarrow> string" where
  "canonicalizeRequest r m =
     join [CHR 0x0A]
       [hr_Method r, hr_EscapedPath r, replace_byte CHR ''+'' [CHR 0x25, CHR ''2'', CHR ''0''] (q_Encode (hr_Query r)),
        canonicalizeHeaders m, createSignedHeaders m, emptyBodySHA256Hash]"

subsection \<open>The signature\<close>

definition createStringToSign :: "string \<Rightarrow> string \<Rightarrow> civil \<Rightarrow> string" where
  "createStringToSign canonicalRequest scope t =
     join [CHR 0x0A] [v4SigningAlgorithm, format_iso8601 t, scope, hex_encode (sha256 canonicalRequest)]"

definition deriveSigningKey :: "string \<Rightarrow> string \<Rightarrow> string \<Rightarrow> string \<Rightarrow> civil \<Rightarrow> bytes" where
  "deriveSigningKey keySecret region service request t =
     (let keyDate = hmac_sha256 (''AWS4'' @ keySecret) (format_yyyymmdd t);
          keyRegion = hmac_sha256 keyDate region;
          keyService = hmac_sha256 keyRegion service
      in hmac_sha256 keyService request)"

definition calculateSignature :: "string \<Rightarrow> string \<Rightarrow> string \<Rightarrow> string \<Rightarrow> string \<Rightarrow> civil \<Rightarrow> string" where
  "calculateSignature secretAccessKey region service request stringToSign t =
     hex_encode (hmac_sha256 (deriveSigningKey secretAccessKey region service request t) stringToSign)"

definition VerifySigningInfo :: "http_req option \<Rightarrow> string \<Rightarrow> time \<Rightarrow> int \<Rightarrow> err option" where
  "VerifySigningInfo req secretAccessKey currentTime validityTolerance =
     (case req of
        None \<Rightarrow> Some (Classed SigningVerification (Sentinel MissingAuthorizationHeader))
      | Some r \<Rightarrow>
          (let authorizationValue = header_get (hr_Header r) ''Authorization''
           in if authorizationValue = []
              then Some (Classed SigningVerification (Sentinel MissingAuthorizationHeader))
              else case parseSigningInfo authorizationValue of
                Inl e \<Rightarrow> Some (wrap SigningVerification e)
              | Inr info \<Rightarrow>
                  (case extractHeaders (si_signedHeaders info) r of
                     Inl e \<Rightarrow> Some (wrap SigningVerification e)
                   | Inr headers \<Rightarrow>
                       (let date = (if header_get (hr_Header r) ''X-Amz-Date'' = [] then header_get (hr_Header r) ''Date''
                                    else header_get (hr_Header r) ''X-Amz-Date'')
                        in case parse_iso8601 date of
                          None \<Rightarrow> Some (Classed SigningVerification (Message ''parsing time''))
                        | Some t \<Rightarrow>
                            (let stringToSign = createStringToSign (canonicalizeRequest r headers)
                                   (buildScope (si_credential info)) t;
                                 signature = calculateSignature secretAccessKey (pc_region (si_credential info))
                                   (pc_service (si_credential info)) (pc_request (si_credential info)) stringToSign t
                             in if si_signature info \<noteq> signature
                                then Some (Classed SigningVerification (Message ''signature mismatch''))
                                else if currentTime - validityTolerance > civil_time t
                                        \<or> currentTime + validityTolerance < civil_time t
                                then Some (Classed SigningVerification (Message ''signature time too skewed''))
                                else None)))))"

subsection \<open>What a client sends\<close>

text \<open>
  The authorization value as clients write it, for a scope with the date \<open>d\<close>, and the signature of
  the specification (Signature Version 4), which the client makes from the request it sends.
\<close>

definition signing_text :: "string \<Rightarrow> civil \<Rightarrow> string \<Rightarrow> string list \<Rightarrow> string \<Rightarrow> string" where
  "signing_text keyID d region names sig =
     v4SigningAlgorithm @ '' Credential='' @ keyID @ ''/'' @ format_yyyymmdd d @ ''/'' @ region
       @ ''/linksharing/aws4_request, SignedHeaders='' @ join '';'' names @ '', Signature='' @ sig"

definition sign_v4 :: "string \<Rightarrow> civil \<Rightarrow> string \<Rightarrow> http_req \<Rightarrow> header_map \<Rightarrow> civil \<Rightarrow> string" where
  "sign_v4 secret d region r headers t =
     calculateSignature secret region ''linksharing'' ''aws4_request''
       (createStringToSign (canonicalizeRequest r headers)
         (join ''/'' [format_yyyymmdd d, region, ''linksharing'', ''aws4_request'']) t) t"

definition signing_ok :: "string \<Rightarrow> civil \<Rightarrow> string \<Rightarrow> string list \<Rightarrow> string \<Rightarrow> bool" where
  "signing_ok keyID d region names sig =
     (civil_ok d \<and> cv_hour d = 0 \<and> cv_min d = 0 \<and> cv_sec d = 0 \<and> cv_nsec d = 0
      \<and> ''host'' \<in> set names \<and> sig \<noteq> [] \<and> CHR '' '' \<notin> set sig
      \<and> (\<forall>s \<in> {keyID, region}. CHR ''/'' \<notin> set s \<and> CHR '','' \<notin> set s \<and> CHR '' '' \<notin> set s)
      \<and> (\<forall>h \<in> set names. CHR '';'' \<notin> set h \<and> CHR '','' \<notin> set h \<and> CHR '' '' \<notin> set h))"

lemma replace_byte_append [simp]: "replace_byte c n (s @ t) = replace_byte c n s @ replace_byte c n t"
  by (simp add: replace_byte_def)

lemma replace_byte_Cons [simp]:
  "replace_byte c n (x # s) = (if x = c then n else [x]) @ replace_byte c n s"
  "replace_byte c n [] = []"
  by (simp_all add: replace_byte_def)

lemma replace_byte_none: "c \<notin> set s \<Longrightarrow> replace_byte c n s = s"
  by (induction s) (auto simp: replace_byte_def)

lemma cut_byte_none: "c \<notin> set s \<Longrightarrow> cut_byte c s = None"
  by (simp add: cut_byte_None_iff)

lemma set_join: "set (join sep ss) \<subseteq> set sep \<union> (\<Union>s \<in> set ss. set s)"
  by (induction sep ss rule: join.induct) auto

lemma digits_only: "\<not> is_digit c \<Longrightarrow> c \<notin> set (format_yyyymmdd d)"
  using dec_width_digits by (auto simp: format_yyyymmdd_def list_all_iff)

lemma splitn_2: "c \<notin> set a \<Longrightarrow> splitn 2 c (a @ c # b) = [a, b]"
  by (simp add: numeral_2_eq_2 cut_byte_append)

lemma splitn_3: "c \<notin> set a \<Longrightarrow> c \<notin> set b \<Longrightarrow> splitn 3 c (a @ c # b @ c # d) = [a, b, d]"
  by (simp add: numeral_3_eq_3 cut_byte_append)

lemma splitn_5:
  "c \<notin> set a \<Longrightarrow> c \<notin> set b \<Longrightarrow> c \<notin> set d \<Longrightarrow> c \<notin> set e \<Longrightarrow>
   splitn 5 c (a @ c # b @ c # d @ c # e @ c # f) = [a, b, d, e, f]"
  by (simp add: eval_nat_numeral cut_byte_append)

lemma parse_credential_part:
  assumes "signing_ok keyID d region names sig"
  shows "parseCredential (''Credential='' @ keyID @ ''/'' @ format_yyyymmdd d @ ''/'' @ region @ ''/linksharing/aws4_request'')
    = Inr \<lparr>pc_accessKeyID = keyID, pc_date = d, pc_region = region, pc_service = ''linksharing'',
           pc_request = ''aws4_request''\<rparr>"
proof -
  have "splitn 2 CHR ''='' (''Credential='' @ x) = [''Credential'', x]" for x
    using splitn_2 [of "CHR ''=''" "''Credential''" x] by simp
  moreover have "CHR ''/'' \<notin> set (format_yyyymmdd d)"
    by (rule digits_only) (simp add: is_digit_def)
  then have "splitn 5 CHR ''/'' (keyID @ ''/'' @ format_yyyymmdd d @ ''/'' @ region @ ''/linksharing/aws4_request'')
      = [keyID, format_yyyymmdd d, region, ''linksharing'', ''aws4_request'']"
    using splitn_5 [of "CHR ''/''" keyID "format_yyyymmdd d" region "''linksharing''" "''aws4_request''"] assms
    by (simp add: signing_ok_def)
  moreover have "parse_yyyymmdd (format_yyyymmdd d) = Some d"
    using assms by (simp add: parse_format_yyyymmdd signing_ok_def)
  ultimately show ?thesis by (simp add: parseCredential_def)
qed

lemma parse_signing_text:
  assumes ok: "signing_ok keyID d region names sig"
  shows "parseSigningInfo (signing_text keyID d region names sig) = Inr
    \<lparr>si_credential = \<lparr>pc_accessKeyID = keyID, pc_date = d, pc_region = region, pc_service = ''linksharing'',
        pc_request = ''aws4_request''\<rparr>, si_signedHeaders = names, si_signature = sig\<rparr>"
proof -
  let ?cred = "''Credential='' @ keyID @ ''/'' @ format_yyyymmdd d @ ''/'' @ region @ ''/linksharing/aws4_request''"
  let ?hs = "join '';'' names"
  have digits: "CHR '' '' \<notin> set (format_yyyymmdd d)" "CHR '','' \<notin> set (format_yyyymmdd d)"
    by (auto intro!: digits_only simp: is_digit_def)
  have hs: "CHR '' '' \<notin> set ?hs" "CHR '','' \<notin> set ?hs" "?hs \<noteq> []"
    using ok set_join [of "'';''" names] by (auto simp: signing_ok_def) (cases names; cases "tl names"; auto)
  have sp: "split_on CHR '';'' ?hs = names"
    using ok by (intro split_on_join) (auto simp: signing_ok_def)
  have norm: "replace_byte CHR '' '' [] (signing_text keyID d region names sig)
      = v4SigningAlgorithm @ ?cred @ '','' @ (''SignedHeaders='' @ ?hs) @ '','' @ ''Signature='' @ sig"
    using ok hs(1) digits(1)
    by (simp add: signing_text_def signing_ok_def v4SigningAlgorithm_def replace_byte_none)
  have parts: "splitn 3 CHR '','' (?cred @ '','' @ (''SignedHeaders='' @ ?hs) @ '','' @ ''Signature='' @ sig)
      = [?cred, ''SignedHeaders='' @ ?hs, ''Signature='' @ sig]"
    using splitn_3 [of "CHR '',''" ?cred "''SignedHeaders='' @ ?hs" "''Signature='' @ sig"] hs(2) digits(2) ok
    by (simp add: signing_ok_def)
  have headers: "parseSignedHeaders (''SignedHeaders='' @ ?hs) = Inr names"
    using splitn_2 [of "CHR ''=''" "''SignedHeaders''" ?hs] hs(3) sp ok
    by (simp add: parseSignedHeaders_def signing_ok_def)
  have sig: "parseSignature (''Signature='' @ sig) = Inr sig"
    using splitn_2 [of "CHR ''=''" "''Signature''" sig] ok by (simp add: parseSignature_def signing_ok_def)
  have drop: "drop (length v4SigningAlgorithm) (v4SigningAlgorithm @ x) = x" for x by simp
  show ?thesis
    unfolding parseSigningInfo_def Let_def norm drop parts list.case headers sig
      parse_credential_part [OF ok] sum.case by simp
qed

lemma verify_signing_text:
  assumes "signing_ok keyID d region names sig"
    and "header_get (hr_Header r) ''Authorization'' = signing_text keyID d region names sig"
    and "header_get (hr_Header r) ''X-Amz-Date'' = format_iso8601 t" and "civil_ok t" and "cv_nsec t = 0"
    and "extractHeaders names r = Inr headers"
  shows "VerifySigningInfo (Some r) secret now tolerance =
    (if sig \<noteq> sign_v4 secret d region r headers t
     then Some (Classed SigningVerification (Message ''signature mismatch''))
     else if \<bar>now - civil_time t\<bar> \<le> tolerance then None
     else Some (Classed SigningVerification (Message ''signature time too skewed'')))"
proof -
  have "parse_iso8601 (format_iso8601 t) = Some t"
    using assms(4,5) by (simp add: parse_format_iso8601)
  moreover have "format_iso8601 t \<noteq> []" "signing_text keyID d region names sig \<noteq> []"
    by (simp_all add: format_iso8601_def signing_text_def)
  moreover have "now - tolerance > civil_time t \<or> now + tolerance < civil_time t \<longleftrightarrow> \<not> \<bar>now - civil_time t\<bar> \<le> tolerance"
    by arith
  ultimately show ?thesis
    unfolding VerifySigningInfo_def Let_def option.case assms(2,3)
    by (simp add: parse_signing_text [OF assms(1)] assms(6) sign_v4_def buildScope_def)
qed

lemma accepted_request:
  assumes "VerifySigningInfo req secret now tolerance = None"
  obtains r info headers t where "req = Some r"
    and "parseSigningInfo (header_get (hr_Header r) ''Authorization'') = Inr info"
    and "extractHeaders (si_signedHeaders info) r = Inr headers"
    and "parse_iso8601 (if header_get (hr_Header r) ''X-Amz-Date'' = [] then header_get (hr_Header r) ''Date''
           else header_get (hr_Header r) ''X-Amz-Date'') = Some t"
    and "si_signature info = calculateSignature secret (pc_region (si_credential info)) (pc_service (si_credential info))
           (pc_request (si_credential info))
           (createStringToSign (canonicalizeRequest r headers) (buildScope (si_credential info)) t) t"
    and "now - tolerance \<le> civil_time t" and "civil_time t \<le> now + tolerance"
  using assms by (auto simp: VerifySigningInfo_def Let_def not_less split: option.splits if_splits sum.splits)

lemma parsed_signing_info:
  assumes "parseSigningInfo v = Inr info"
  shows "''host'' \<in> set (si_signedHeaders info) \<and> pc_service (si_credential info) = ''linksharing''
    \<and> pc_request (si_credential info) = ''aws4_request''"
proof -
  have "''host'' \<in> set hs" if "parseSignedHeaders p = Inr hs" for p hs
    using that by (auto simp: parseSignedHeaders_def Let_def split: list.splits if_splits)
  moreover have "pc_service c = ''linksharing'' \<and> pc_request c = ''aws4_request''" if "parseCredential p = Inr c" for p c
    using that by (auto simp: parseCredential_def Let_def split: list.splits if_splits option.splits)
  ultimately show ?thesis
    using assms by (auto simp: parseSigningInfo_def Let_def split: list.splits if_splits sum.splits)
qed

lemma extract_headers_keeps:
  "extract_headers r names m = Inr headers \<Longrightarrow> map_of m k \<noteq> None \<Longrightarrow> map_of headers k \<noteq> None"
proof (induction r names m rule: extract_headers.induct)
  case (2 r name names m)
  have "map_of (hm_set n vs m) k \<noteq> None" for n vs
  proof -
    have "map_of (filter (\<lambda>(x, _). x \<noteq> n) m) k = map_of m k" if "k \<noteq> n"
      using that by (induction m) auto
    then show ?thesis using 2(3) by (simp add: hm_set_def)
  qed
  with 2(1,2) show ?case by (auto split: sum.splits)
qed simp

lemma extract_headers_all:
  "extract_headers r names m = Inr headers \<Longrightarrow> n \<in> set names \<Longrightarrow> map_of headers (to_lower n) \<noteq> None"
proof (induction r names m rule: extract_headers.induct)
  case (2 r name names m)
  obtain vs where vs: "extract_header r name = Inr vs"
    and rest: "extract_headers r names (hm_set (to_lower name) vs m) = Inr headers"
    using 2(2) by (auto split: sum.splits)
  show ?case
  proof (cases "n = name")
    case True
    then show ?thesis using extract_headers_keeps [OF rest, of "to_lower n"] by (simp add: hm_set_def)
  next
    case False
    with 2(1) [OF vs rest] 2(3) show ?thesis by simp
  qed
qed simp

subsection \<open>An example\<close>

definition demo_time :: civil where
  "demo_time = \<lparr>cv_year = 2023, cv_month = 1, cv_day = 31, cv_hour = 10, cv_min = 0, cv_sec = 0, cv_nsec = 0\<rparr>"

definition demo_day :: civil where
  "demo_day = demo_time\<lparr>cv_hour := 0\<rparr>"

definition demo_unsigned :: http_req where
  "demo_unsigned = \<lparr>hr_Method = ''GET'', hr_Path = ''/s/key/bucket/a b'', hr_EscapedPath = ''/s/key/bucket/a%20b'',
     hr_Query = [(''download'', ''1'')], hr_Header = [(''X-Amz-Date'', format_iso8601 demo_time)],
     hr_Host = ''link.example'', hr_RemoteAddr = ''1.2.3.4:5'', hr_ContentLength = 0, hr_TransferEncoding = [], hr_RawQuery = [], hr_Scheme = [], hr_RequestURI = []\<rparr>"

definition demo_sig :: string where
  "demo_sig = sign_v4 ''secret'' demo_day ''eu'' demo_unsigned [(''host'', [''link.example''])] demo_time"

definition demo_signed :: http_req where
  "demo_signed = demo_unsigned\<lparr>hr_Header :=
     (''Authorization'', signing_text ''key'' demo_day ''eu'' [''host''] demo_sig) # hr_Header demo_unsigned\<rparr>"

lemma demo_canonical: "canonicalizeRequest demo_signed m = canonicalizeRequest demo_unsigned m"
  by (simp add: canonicalizeRequest_def demo_signed_def)

lemma demo_signed_facts:
  "signing_ok ''key'' demo_day ''eu'' [''host''] demo_sig"
  "header_get (hr_Header demo_signed) ''Authorization'' = signing_text ''key'' demo_day ''eu'' [''host''] demo_sig"
  "header_get (hr_Header demo_signed) ''X-Amz-Date'' = format_iso8601 demo_time"
  "civil_ok demo_time" "cv_nsec demo_time = 0"
  "extractHeaders [''host''] demo_signed = Inr [(''host'', [''link.example''])]"
  "demo_sig = sign_v4 ''secret'' demo_day ''eu'' demo_signed [(''host'', [''link.example''])] demo_time"
proof -
  have "demo_sig \<noteq> []"
  proof
    assume "demo_sig = []"
    then have "length demo_sig = 0" by simp
    then show False by (simp add: demo_sig_def sign_v4_def calculateSignature_def)
  qed
  moreover have "CHR '' '' \<notin> set demo_sig"
    using hex_encode_range [of "CHR '' ''"] by (auto simp: demo_sig_def sign_v4_def calculateSignature_def)
  ultimately show "signing_ok ''key'' demo_day ''eu'' [''host''] demo_sig"
    by (simp add: signing_ok_def demo_day_def demo_time_def civil_ok_def days_in_month_def)
  show "demo_sig = sign_v4 ''secret'' demo_day ''eu'' demo_signed [(''host'', [''link.example''])] demo_time"
    by (simp add: demo_sig_def sign_v4_def demo_canonical)
qed (simp_all add: demo_signed_def demo_unsigned_def demo_time_def civil_ok_def days_in_month_def extractHeaders_def
    extract_header_def h_has_def hm_set_def equal_fold_def to_lower_def lower_char_def)

lemma demo_accepted: "VerifySigningInfo (Some demo_signed) ''secret'' (civil_time demo_time) 60 = None"
  using verify_signing_text [OF demo_signed_facts(1-6)] demo_signed_facts(7) by simp

subsection \<open>Properties\<close>

text \<open>
  C14: a request is accepted exactly if its signature is the one that signing the received request
  with the secret key gives, and its time is within the tolerance of the current time.  The request
  carries an authorization value as clients write it, with the signed headers among its own, and the
  date; the date \<open>d\<close> of its scope need not be the day of the signature.
\<close>

theorem signed_request_accepted_iff:
  assumes "signing_ok keyID d region names sig"
    and "header_get (hr_Header r) ''Authorization'' = signing_text keyID d region names sig"
    and "header_get (hr_Header r) ''X-Amz-Date'' = format_iso8601 t" and "civil_ok t" and "cv_nsec t = 0"
    and "extractHeaders names r = Inr headers"
  shows "VerifySigningInfo (Some r) secret now tolerance =
    (if sig \<noteq> sign_v4 secret d region r headers t
     then Some (Classed SigningVerification (Message ''signature mismatch''))
     else if \<bar>now - civil_time t\<bar> \<le> tolerance then None
     else Some (Classed SigningVerification (Message ''signature time too skewed'')))"
  using assms by (rule verify_signing_text)

lemma signed_request_accepted_iff_witness:
  "VerifySigningInfo (Some demo_signed) ''secret'' (civil_time demo_time + 60) 60 = None
   \<and> VerifySigningInfo (Some demo_signed) ''secret'' (civil_time demo_time + 61) 60 =
       Some (Classed SigningVerification (Message ''signature time too skewed''))"
  using signed_request_accepted_iff [OF demo_signed_facts(1-6)] demo_signed_facts(7) by simp

text \<open>
  C15: what an accepted request is bounded by.  Its host is among the signed headers and all of the
  signed headers are in the signed string, its signature is one for the service of linksharing, and
  the time of the signature is at most the tolerance away: accepted at two times, with whichever
  secret keys, these are at most twice the tolerance apart, however the request is replayed.
\<close>

theorem replay_window:
  assumes "VerifySigningInfo req secret now tolerance = None"
  shows "0 \<le> tolerance
    \<and> (VerifySigningInfo req secret' now' tolerance = None \<longrightarrow> \<bar>now' - now\<bar> \<le> 2 * tolerance)
    \<and> (\<exists>r info headers t. req = Some r
         \<and> parseSigningInfo (header_get (hr_Header r) ''Authorization'') = Inr info
         \<and> ''host'' \<in> set (si_signedHeaders info)
         \<and> (\<forall>n \<in> set (si_signedHeaders info). map_of headers (to_lower n) \<noteq> None)
         \<and> si_signature info = calculateSignature secret (pc_region (si_credential info)) ''linksharing'' ''aws4_request''
             (createStringToSign (canonicalizeRequest r headers) (buildScope (si_credential info)) t) t
         \<and> \<bar>now - civil_time t\<bar> \<le> tolerance)"
proof -
  obtain r info headers t where r: "req = Some r"
    and i: "parseSigningInfo (header_get (hr_Header r) ''Authorization'') = Inr info"
    and h: "extractHeaders (si_signedHeaders info) r = Inr headers"
    and t: "parse_iso8601 (if header_get (hr_Header r) ''X-Amz-Date'' = [] then header_get (hr_Header r) ''Date''
           else header_get (hr_Header r) ''X-Amz-Date'') = Some t"
    and s: "si_signature info = calculateSignature secret (pc_region (si_credential info)) (pc_service (si_credential info))
           (pc_request (si_credential info))
           (createStringToSign (canonicalizeRequest r headers) (buildScope (si_credential info)) t) t"
    and w: "now - tolerance \<le> civil_time t" "civil_time t \<le> now + tolerance"
    using assms by (rule accepted_request)
  have "\<bar>now' - now\<bar> \<le> 2 * tolerance" if v: "VerifySigningInfo req secret' now' tolerance = None"
  proof -
    obtain r' t' where r': "req = Some r'"
      and t': "parse_iso8601 (if header_get (hr_Header r') ''X-Amz-Date'' = [] then header_get (hr_Header r') ''Date''
           else header_get (hr_Header r') ''X-Amz-Date'') = Some t'"
      and w': "now' - tolerance \<le> civil_time t'" "civil_time t' \<le> now' + tolerance"
      using v by (rule accepted_request)
    have "r' = r" using r r' by simp
    with t t' have "t' = t" by (metis option.inject)
    show ?thesis using w w' unfolding \<open>t' = t\<close> by linarith
  qed
  moreover have "\<forall>n \<in> set (si_signedHeaders info). map_of headers (to_lower n) \<noteq> None"
    using h extract_headers_all unfolding extractHeaders_def by blast
  moreover have "\<bar>now - civil_time t\<bar> \<le> tolerance" "0 \<le> tolerance" using w by arith+
  ultimately show ?thesis using r i s parsed_signing_info [OF i] by auto
qed

lemma replay_window_witness:
  "VerifySigningInfo (Some demo_signed) ''secret'' (civil_time demo_time + 121) 60 \<noteq> None"
  using replay_window [OF demo_accepted, of "''secret''" "civil_time demo_time + 121"] by auto

text \<open>The canonical request is its lines.\<close>

abbreviation LF :: char where
  "LF \<equiv> CHR 0x0A"

definition header_line :: "header_map \<Rightarrow> string \<Rightarrow> string" where
  "header_line m k = k @ '':'' @ join '','' (map trimAll (case map_of m k of None \<Rightarrow> [] | Some vs \<Rightarrow> vs))"

definition header_lines :: "header_map \<Rightarrow> string list" where
  "header_lines m = map (header_line m) (sort (map fst m))"

definition canonical_query :: "http_req \<Rightarrow> string" where
  "canonical_query r = replace_byte CHR ''+'' [CHR 0x25, CHR ''2'', CHR ''0''] (q_Encode (hr_Query r))"

lemma join_lines: "join [LF] (xs @ concat (map (\<lambda>l. l @ [LF]) ls) # ys) = join [LF] (xs @ ls @ [] # ys)"
  if "ys \<noteq> []"
proof (induction xs)
  case Nil
  show ?case using that by (induction ls) (auto simp: join_Cons)
next
  case (Cons x xs)
  then show ?case by (simp add: join_Cons)
qed

lemma canonicalizeRequest_lines:
  "canonicalizeRequest r m = join [LF] ([hr_Method r, hr_EscapedPath r, canonical_query r] @ header_lines m
     @ [[], createSignedHeaders m, emptyBodySHA256Hash])"
  using join_lines [of "[createSignedHeaders m, emptyBodySHA256Hash]"
      "[hr_Method r, hr_EscapedPath r, canonical_query r]" "header_lines m"]
  by (simp add: canonicalizeRequest_def canonicalizeHeaders_def header_lines_def header_line_def
      canonical_query_def comp_def)

lemma set_fields: "w \<in> set (GoStrings.fields s) \<Longrightarrow> c \<in> set w \<Longrightarrow> \<not> is_space c"
proof (induction s rule: GoStrings.fields.induct)
  case (1 s)
  show ?case
  proof (cases "dropWhile is_space s")
    case Nil
    with 1(2) show ?thesis by (subst (asm) GoStrings.fields.simps) simp
  next
    case (Cons x xs)
    have "\<not> is_space x" using Cons by (metis hd_dropWhile list.sel(1) list.distinct(1))
    moreover have "w = x # takeWhile (\<lambda>c. \<not> is_space c) xs
        \<or> w \<in> set (GoStrings.fields (dropWhile (\<lambda>c. \<not> is_space c) xs))"
      using 1(2) by (subst (asm) GoStrings.fields.simps) (simp add: Cons)
    ultimately show ?thesis using 1(1) [OF Cons] 1(3) by (auto dest: set_takeWhileD)
  qed
qed

lemma LF_not_in_trimAll: "LF \<notin> set (trimAll s)"
  using set_join [of "'' ''" "GoStrings.fields s"] set_fields [of _ s LF]
  by (auto simp: trimAll_def is_space_def)

lemma LF_not_in_query: "LF \<notin> set (canonical_query r)"
proof -
  have h: "upper_hex n \<noteq> LF" if "n < 16" for n
  proof
    assume "upper_hex n = LF"
    then have "code (upper_hex n) = (10::nat)" by simp
    with that show False by (simp add: upper_hex_def split: if_splits)
  qed
  have "LF \<notin> set (query_escape_char c)" for c
  proof -
    have "code c div 16 < (16::nat)" using nat_of_char_less_256 [of c] by (simp add: less_mult_imp_div_less)
    then have "upper_hex (code c div 16) \<noteq> LF" "upper_hex (code c mod 16) \<noteq> LF" by (simp_all add: h)
    then show ?thesis by (auto simp: query_escape_char_def query_unreserved_def)
  qed
  then have e: "LF \<notin> set (query_escape s)" for s by (auto simp: query_escape_def)
  have "LF \<notin> set (q_Encode (hr_Query r))"
    unfolding q_Encode_def using e by (auto dest!: subsetD [OF set_join])
  then show ?thesis by (auto simp: canonical_query_def replace_byte_def split: if_splits)
qed

lemma LF_not_in_header_line: "LF \<notin> set k \<Longrightarrow> LF \<notin> set (header_line m k)"
  using LF_not_in_trimAll by (auto simp: header_line_def dest!: subsetD [OF set_join] split: option.splits)

text \<open>
  C16: what is signed determines the request: two requests with the same canonical request have the
  same method, the same escaped path, the same parameters and the same line for every signed header,
  of the same names; no value can be moved into another part of the request.
\<close>

theorem canonical_request_determines:
  assumes "canonicalizeRequest r m = canonicalizeRequest r' m'"
    and "\<forall>q \<in> {r, r'}. LF \<notin> set (hr_Method q) \<and> LF \<notin> set (hr_EscapedPath q)"
    and "\<forall>h \<in> {m, m'}. \<forall>k \<in> set (map fst h). LF \<notin> set k"
  shows "hr_Method r = hr_Method r' \<and> hr_EscapedPath r = hr_EscapedPath r'
    \<and> canonical_query r = canonical_query r' \<and> header_lines m = header_lines m'
    \<and> createSignedHeaders m = createSignedHeaders m'"
proof -
  let ?ls = "\<lambda>r m. [hr_Method r, hr_EscapedPath r, canonical_query r] @ header_lines m
     @ [[], createSignedHeaders m, emptyBodySHA256Hash]"
  have lf: "LF \<notin> set (createSignedHeaders h)" "\<forall>l \<in> set (header_lines h). LF \<notin> set l"
    if "\<forall>k \<in> set (map fst h). LF \<notin> set k" for h
    using that LF_not_in_header_line
    by (auto simp: createSignedHeaders_def header_lines_def dest!: subsetD [OF set_join])
  have lines: "split_on LF (canonicalizeRequest q h) = ?ls q h" if "q \<in> {r, r'}" "h \<in> {m, m'}" for q h
  proof -
    have "LF \<notin> set emptyBodySHA256Hash" by (simp add: emptyBodySHA256Hash_def)
    moreover have "LF \<notin> set (hr_Method q)" "LF \<notin> set (hr_EscapedPath q)" using assms(2) that(1) by blast+
    moreover have "\<forall>k \<in> set (map fst h). LF \<notin> set k" using assms(3) that(2) by blast
    note lf [OF this]
    ultimately have "\<forall>l \<in> set (?ls q h). LF \<notin> set l"
      using LF_not_in_query [of q] by (simp add: ball_Un)
    then show ?thesis unfolding canonicalizeRequest_lines by (intro split_on_join) simp_all
  qed
  have "?ls r m = split_on LF (canonicalizeRequest r m)" by (rule lines [symmetric]) simp_all
  also have "\<dots> = split_on LF (canonicalizeRequest r' m')" by (simp only: assms(1))
  also have "\<dots> = ?ls r' m'" by (rule lines) simp_all
  finally have "?ls r m = ?ls r' m'" .
  then have "header_lines m @ [[], createSignedHeaders m, emptyBodySHA256Hash]
      = header_lines m' @ [[], createSignedHeaders m', emptyBodySHA256Hash]"
    and "hr_Method r = hr_Method r' \<and> hr_EscapedPath r = hr_EscapedPath r' \<and> canonical_query r = canonical_query r'"
    by (simp_all only: append_Cons append_Nil list.inject simp_thms)
  then show ?thesis by (simp add: append_eq_append_conv)
qed

lemma canonical_request_determines_witness:
  "hr_EscapedPath demo_signed = hr_EscapedPath demo_unsigned \<and> canonical_query demo_signed = canonical_query demo_unsigned"
proof -
  let ?m = "[(''host'', [''link.example''])]"
  have q: "\<forall>q \<in> {demo_signed, demo_unsigned}. LF \<notin> set (hr_Method q) \<and> LF \<notin> set (hr_EscapedPath q)"
    by (simp add: demo_signed_def demo_unsigned_def)
  have k: "\<forall>h \<in> {?m, ?m}. \<forall>k \<in> set (map fst h). LF \<notin> set k" by simp
  from canonical_request_determines [OF demo_canonical q k] show ?thesis by blast
qed

end
