(* ===== verification/TxtRecords.thy ===== *)
theory TxtRecords
  imports Credentials Signed "HOL-Library.AList" "HOL-Library.Multiset"
begin

section \<open>The DNS records of a hosted domain (pkg/linksharing/sharing: dns.go, txtrecordset.go, txtrecords.go, access.go)\<close>

text \<open>
  A domain that is hosted by linksharing names its access, its root and whether it wants TLS in TXT
  records.  The first part is the set of the fields of a response and their lookup, the second how
  an access is parsed, the third the cache of the records, with the server's decision whether to
  request a certificate (linksharing/peer.go) on top.  What the network and libraries answer are
  arguments: the DNS exchange, \<open>uplink.ParseAccess\<close>, \<open>base58.CheckDecode\<close>.
\<close>

subsection \<open>The set of records\<close>

text \<open>A map of fields to their values, and the smallest time to live, in nanoseconds.\<close>

record txt_set =
  ts_vals :: "(string \<times> string list) list"
  ts_minTTL :: int

definition vals_of :: "(string \<times> string list) list \<Rightarrow> string \<Rightarrow> string list" where
  "vals_of vals k = (case map_of vals k of None \<Rightarrow> [] | Some vs \<Rightarrow> vs)"

definition NewTXTRecordSet :: txt_set where
  "NewTXTRecordSet = \<lparr>ts_vals = [], ts_minTTL = 24 * 3600 * 1000000000\<rparr>"

definition txt_field :: "string \<Rightarrow> (string \<times> string) option" where
  "txt_field t =
     (case splitn 2 CHR '':'' t of
        [name, value] \<Rightarrow> Some (replace_byte CHR ''_'' ''-'' (to_lower name), value)
      | _ \<Rightarrow> None)"

definition txt_Add :: "string \<Rightarrow> int \<Rightarrow> txt_set \<Rightarrow> txt_set" where
  "txt_Add t ttl s =
     (let s1 = (if ts_minTTL s > ttl then s\<lparr>ts_minTTL := ttl\<rparr> else s)
      in case txt_field t of
           None \<Rightarrow> s1
         | Some (key, value) \<Rightarrow>
             s1\<lparr>ts_vals := AList.update key (vals_of (ts_vals s1) key @ [value]) (ts_vals s1)\<rparr>)"

definition txt_Finalize :: "txt_set \<Rightarrow> txt_set" where
  "txt_Finalize s = s\<lparr>ts_vals := map (\<lambda>(k, vs). (k, sort vs)) (ts_vals s)\<rparr>"

definition subfield :: "string \<Rightarrow> nat \<Rightarrow> string" where
  "subfield field i = field @ ''-'' @ dec i"

definition found_from :: "(string \<times> string list) list \<Rightarrow> string \<Rightarrow> nat \<Rightarrow> string set" where
  "found_from vals field i = {k \<in> fst ` set vals. \<exists>j \<ge> i. k = subfield field j}"

lemma subfield_inject [simp]: "subfield field i = subfield field j \<longleftrightarrow> i = j"
  by (simp add: subfield_def dec_inject)

lemma found_from_Suc:
  assumes "vals_of vals (subfield field i) \<noteq> []"
  shows "card (found_from vals field (Suc i)) < card (found_from vals field i)"
proof (rule psubset_card_mono)
  show "finite (found_from vals field i)" by (simp add: found_from_def)
  have "subfield field i \<in> fst ` set vals"
    using assms by (auto simp: vals_of_def dest!: map_of_SomeD split: option.splits) force
  then have "subfield field i \<in> found_from vals field i" by (auto simp: found_from_def)
  moreover have "subfield field i \<notin> found_from vals field (Suc i)" by (auto simp: found_from_def)
  moreover have "found_from vals field (Suc i) \<subseteq> found_from vals field i"
    by (auto simp: found_from_def dest: Suc_leD)
  ultimately show "found_from vals field (Suc i) \<subset> found_from vals field i" by blast
qed

text \<open>The fields with a number, from \<open>i\<close> up to the first that is missing.\<close>

function lookup_parts :: "(string \<times> string list) list \<Rightarrow> string \<Rightarrow> nat \<Rightarrow> string" where
  "lookup_parts vals field i =
     (case vals_of vals (subfield field i) of
        [] \<Rightarrow> []
      | v # _ \<Rightarrow> v @ lookup_parts vals field (Suc i))"
  by pat_completeness auto
termination
  by (relation "measure (\<lambda>(vals, field, i). card (found_from vals field i))") (auto simp: found_from_Suc)

declare lookup_parts.simps [simp del]

definition txt_Lookup :: "txt_set \<Rightarrow> string \<Rightarrow> string" where
  "txt_Lookup s field =
     (case vals_of (ts_vals s) field of v # _ \<Rightarrow> v | [] \<Rightarrow> lookup_parts (ts_vals s) field 1)"

text \<open>The records of the answer section; the times to live are seconds.\<close>

datatype dns_rr = TXT u32 "string list" | OtherRR

definition rr_texts :: "dns_rr \<Rightarrow> (string \<times> int) list" where
  "rr_texts rr =
     (case rr of TXT ttl txts \<Rightarrow> map (\<lambda>t. (t, int (unat ttl) * 1000000000)) txts | OtherRR \<Rightarrow> [])"

definition ResponseToTXTRecordSet :: "dns_rr list \<Rightarrow> txt_set" where
  "ResponseToTXTRecordSet answers =
     txt_Finalize (foldl (\<lambda>s (t, ttl). txt_Add t ttl s) NewTXTRecordSet (concat (map rr_texts answers)))"

subsection \<open>What a lookup finds\<close>

text \<open>
  The reference: the least value that some record of the response gives a field, regardless of the
  order of the records.
\<close>

definition least_value :: "(string \<times> int) list \<Rightarrow> string \<Rightarrow> string option" where
  "least_value texts k =
     (let V = {v. \<exists>t \<in> fst ` set texts. txt_field t = Some (k, v)} in if V = {} then None else Some (Min V))"

definition field_values :: "(string \<times> int) list \<Rightarrow> string \<Rightarrow> string list" where
  "field_values texts k = map snd (filter (\<lambda>(n, _). n = k) (List.map_filter (txt_field \<circ> fst) texts))"

lemma vals_of_Nil [simp]: "vals_of [] k = []"
  by (simp add: vals_of_def)

lemma vals_of_update [simp]: "vals_of (AList.update k vs al) n = (if n = k then vs else vals_of al n)"
  by (simp add: vals_of_def update_conv')

lemma vals_of_sorted [simp]: "vals_of (map (\<lambda>(k, vs). (k, sort vs)) al) n = sort (vals_of al n)"
  by (induction al) (auto simp: vals_of_def split: option.splits)

lemma vals_of_Add: "vals_of (ts_vals (txt_Add t ttl s)) k =
    vals_of (ts_vals s) k @ (case txt_field t of Some (n, v) \<Rightarrow> if n = k then [v] else [] | None \<Rightarrow> [])"
  by (auto simp: txt_Add_def Let_def split: option.splits)

lemma vals_of_texts:
  "vals_of (ts_vals (foldl (\<lambda>s (t, ttl). txt_Add t ttl s) s texts)) k = vals_of (ts_vals s) k @ field_values texts k"
proof (induction texts arbitrary: s)
  case (Cons x texts)
  then show ?case
    by (cases x) (auto simp: vals_of_Add field_values_def List.map_filter_simps split: option.splits)
qed (simp add: field_values_def List.map_filter_simps)

lemma minTTL_texts:
  "ts_minTTL (foldl (\<lambda>s (t, ttl). txt_Add t ttl s) s texts) = Min (insert (ts_minTTL s) (snd ` set texts))"
proof (induction texts arbitrary: s)
  case (Cons x texts)
  obtain t ttl where x: "x = (t, ttl)" by fastforce
  have "ts_minTTL (txt_Add t ttl s) = min (ts_minTTL s) ttl"
    by (auto simp: txt_Add_def Let_def min_def split: option.splits)
  moreover have "Min (insert (min a b) S) = Min (insert a (insert b S))" if "finite S" for a b :: int and S
    using that by (cases "S = {}") (auto simp: min.assoc)
  ultimately show ?case using Cons x by simp
qed simp

lemma hd_sort: "xs \<noteq> [] \<Longrightarrow> hd (sort xs) = Min (set (xs :: string list))"
proof -
  assume "xs \<noteq> []"
  then obtain y ys where y: "sort xs = y # ys" by (metis list.exhaust set_empty set_sort)
  then have "sorted (y # ys)" by (metis sorted_sort)
  then have "Min (set (y # ys)) = y" by (intro Min_eqI) auto
  with y show ?thesis by (metis list.sel(1) set_sort)
qed

lemma least_value_sort:
  "least_value texts k = (case sort (field_values texts k) of [] \<Rightarrow> None | v # _ \<Rightarrow> Some v)"
proof -
  have V: "{v. \<exists>t \<in> fst ` set texts. txt_field t = Some (k, v)} = set (field_values texts k)"
    by (force simp: field_values_def map_filter_def)
  show ?thesis
  proof (cases "field_values texts k")
    case Nil
    then show ?thesis unfolding least_value_def V by simp
  next
    case (Cons v vs)
    then have "sort (field_values texts k) \<noteq> []" by (metis list.distinct(1) set_empty set_sort)
    then obtain y ys where y: "sort (field_values texts k) = y # ys" by (cases "sort (field_values texts k)") auto
    then show ?thesis
      unfolding least_value_def V Let_def using hd_sort [of "field_values texts k"] Cons by simp
  qed
qed

lemma lookup_parts_upto:
  "\<exists>n \<ge> i. vals_of vals (subfield f n) = [] \<and> (\<forall>j \<in> {i ..< n}. vals_of vals (subfield f j) \<noteq> [])
     \<and> lookup_parts vals f i = concat (map (\<lambda>j. hd (vals_of vals (subfield f j))) [i ..< n])"
proof (induction vals f i rule: lookup_parts.induct)
  case (1 vals f i)
  show ?case
  proof (cases "vals_of vals (subfield f i)")
    case Nil
    then have "lookup_parts vals f i = []" by (subst lookup_parts.simps) simp
    with Nil show ?thesis by (intro exI [of _ i]) simp
  next
    case (Cons v vs)
    obtain n where n: "n \<ge> Suc i" "vals_of vals (subfield f n) = []"
      "\<forall>j \<in> {Suc i ..< n}. vals_of vals (subfield f j) \<noteq> []"
      "lookup_parts vals f (Suc i) = concat (map (\<lambda>j. hd (vals_of vals (subfield f j))) [Suc i ..< n])"
      using 1 [OF Cons] by blast
    have "lookup_parts vals f i = v @ lookup_parts vals f (Suc i)"
      by (subst lookup_parts.simps) (simp add: Cons)
    moreover have "[i ..< n] = i # [Suc i ..< n]" using n(1) by (simp add: upt_conv_Cons)
    moreover have "\<forall>j \<in> {i ..< n}. vals_of vals (subfield f j) \<noteq> []"
      using n(3) Cons by (metis atLeastLessThan_iff le_neq_implies_less list.distinct(1) Suc_leI)
    ultimately show ?thesis using n(1,2,4) Cons by (intro exI [of _ n]) auto
  qed
qed

text \<open>
  A lookup in the records of a response gives the least value of the field; if no record names
  the field, the least values of \<open>field-1\<close>, \<open>field-2\<close>, \<open>\<dots>\<close> joined up to the first one that is missing,
  which always comes.  The time to live is the smallest of the response, at most a day.  The order of
  the records makes no difference.
\<close>

lemma txt_lookup_finds:
  "let texts = concat (map rr_texts answers); s = ResponseToTXTRecordSet answers
   in ts_minTTL s = Min (insert (24 * 3600 * 1000000000) (snd ` set texts))
    \<and> (\<exists>n \<ge> 1. least_value texts (subfield field n) = None
        \<and> (\<forall>j \<in> {1 ..< n}. least_value texts (subfield field j) \<noteq> None)
        \<and> txt_Lookup s field = (case least_value texts field of Some v \<Rightarrow> v
            | None \<Rightarrow> concat (map (\<lambda>j. the (least_value texts (subfield field j))) [1 ..< n])))"
proof -
  let ?texts = "concat (map rr_texts answers)" and ?s = "ResponseToTXTRecordSet answers"
  have v: "vals_of (ts_vals ?s) k = sort (field_values ?texts k)" for k
    by (simp add: ResponseToTXTRecordSet_def txt_Finalize_def vals_of_texts NewTXTRecordSet_def)
  have least: "least_value ?texts k = (case vals_of (ts_vals ?s) k of [] \<Rightarrow> None | v # _ \<Rightarrow> Some v)" for k
    unfolding v by (rule least_value_sort)
  have hd: "hd (vals_of (ts_vals ?s) k) = the (least_value ?texts k)" if "vals_of (ts_vals ?s) k \<noteq> []" for k
    unfolding least using that by (cases "vals_of (ts_vals ?s) k") auto
  obtain n where n: "n \<ge> 1" "vals_of (ts_vals ?s) (subfield field n) = []"
    "\<forall>j \<in> {1 ..< n}. vals_of (ts_vals ?s) (subfield field j) \<noteq> []"
    "lookup_parts (ts_vals ?s) field 1 = concat (map (\<lambda>j. hd (vals_of (ts_vals ?s) (subfield field j))) [1 ..< n])"
    using lookup_parts_upto [of 1 "ts_vals ?s" field] by blast
  have parts: "lookup_parts (ts_vals ?s) field 1 = concat (map (\<lambda>j. the (least_value ?texts (subfield field j))) [1 ..< n])"
    unfolding n(4) using n(3) hd by (intro arg_cong [of _ _ concat] map_cong) auto
  have "txt_Lookup ?s field = (case least_value ?texts field of Some v \<Rightarrow> v
      | None \<Rightarrow> concat (map (\<lambda>j. the (least_value ?texts (subfield field j))) [1 ..< n]))"
    by (cases "vals_of (ts_vals ?s) field") (simp_all only: txt_Lookup_def least [of field] list.case option.case parts)
  moreover have "least_value ?texts (subfield field n) = None"
    "\<forall>j \<in> {1 ..< n}. least_value ?texts (subfield field j) \<noteq> None"
    using n(2,3) unfolding least by (auto split: list.splits)
  moreover have "ts_minTTL ?s = Min (insert (24 * 3600 * 1000000000) (snd ` set ?texts))"
    by (simp add: ResponseToTXTRecordSet_def txt_Finalize_def minTTL_texts NewTXTRecordSet_def)
  ultimately show ?thesis using n(1) unfolding Let_def by blast
qed

text \<open>The example of the documentation: \<open>field-3:c\<close> in one record, \<open>field-1:a\<close> and \<open>field-2:b\<close> in another.\<close>

lemma txt_lookup_finds_witness:
  "\<exists>n \<ge> 1. txt_Lookup (ResponseToTXTRecordSet [TXT 60 [''field-3:c''], TXT 30 [''Field-1:a'', ''field-2:b'']]) ''field''
       = concat (map (\<lambda>j. the (least_value [(''field-3:c'', 60000000000), (''Field-1:a'', 30000000000),
           (''field-2:b'', 30000000000)] (subfield ''field'' j))) [1 ..< n])"
proof -
  have texts: "concat (map rr_texts [TXT 60 [''field-3:c''], TXT 30 [''Field-1:a'', ''field-2:b'']])
      = [(''field-3:c'', 60000000000), (''Field-1:a'', 30000000000), (''field-2:b'', 30000000000)]"
    by (simp add: rr_texts_def)
  have "txt_field ''field-3:c'' = Some (''field-3'', ''c'')" "txt_field ''Field-1:a'' = Some (''field-1'', ''a'')"
    "txt_field ''field-2:b'' = Some (''field-2'', ''b'')"
    by code_simp+
  then have "least_value [(''field-3:c'', 60000000000), (''Field-1:a'', 30000000000),
           (''field-2:b'', 30000000000)] ''field'' = None"
    by (auto simp: least_value_def)
  with txt_lookup_finds [of "[TXT 60 [''field-3:c''], TXT 30 [''Field-1:a'', ''field-2:b'']]" "''field''"]
  show ?thesis unfolding Let_def texts by (metis option.case(1))
qed

subsection \<open>Parsing an access (access.go)\<close>

text \<open>The client of the authentication service with all it works with, as one value.\<close>

record 'c auth_env =
  ae_lib :: client_lib
  ae_cache :: "(cached, 'c) lru option"
  ae_config :: client_config
  ae_service :: "access_request \<Rightarrow> nat \<Rightarrow> answer"
  ae_ctx :: "nat \<Rightarrow> err option"
  ae_requestID :: string

definition resolve_env :: "'c auth_env \<Rightarrow> string \<Rightarrow> string \<Rightarrow> 'c \<Rightarrow> ((err + auth_response) \<times> 'c) option" where
  "resolve_env E keyID ip c =
     ResolveWithCache (ae_lib E) (ae_cache E) (ae_config E) (ae_service E) (ae_ctx E) (ae_requestID E) keyID ip c"

record 'a access_lib =
  al_ParseAccess :: "string \<Rightarrow> err + 'a"
  al_CheckDecode :: "string \<Rightarrow> nat option"

definition isProductionAccessGrant :: "'a access_lib \<Rightarrow> string \<Rightarrow> bool" where
  "isProductionAccessGrant A s = (al_CheckDecode A s = Some 0)"

definition wrappedParse :: "'a access_lib \<Rightarrow> string \<Rightarrow> err + 'a" where
  "wrappedParse A access = (case al_ParseAccess A access of Inl e \<Rightarrow> Inl (with_status e 400) | Inr a \<Rightarrow> Inr a)"

definition parseAccess :: "'a access_lib \<Rightarrow> 'c auth_env \<Rightarrow> time \<Rightarrow> http_req option \<Rightarrow> string \<Rightarrow> int \<Rightarrow> string \<Rightarrow> 'c
    \<Rightarrow> ((err + 'a) \<times> 'c) option" where
  "parseAccess A E now r access tolerance clientIP c =
     (if isProductionAccessGrant A access then Some (wrappedParse A access, c)
      else case resolve_env E access clientIP c of
        None \<Rightarrow> None
      | Some (Inl e, d) \<Rightarrow> Some (Inl e, d)
      | Some (Inr authResp, d) \<Rightarrow>
          (case (if au_Public authResp then None
                 else VerifySigningInfo r (au_SecretKey authResp) now tolerance) of
             Some e \<Rightarrow>
               Some (Inl (with_status (if is_err MissingAuthorizationHeader e
                                       then Message ''non-public Access Key ID'' else e) 403), d)
           | None \<Rightarrow> Some (wrappedParse A (au_AccessGrant authResp), d)))"

subsection \<open>The cache of the records (txtrecords.go)\<close>

record 'a txt_result =
  tr_Access :: 'a
  tr_Root :: string
  tr_TLS :: bool

record 'a txt_record =
  tx_queryResult :: "'a txt_result"
  tx_expiration :: time

type_synonym 'a txt_cache = "(string \<times> 'a txt_record) list"

definition parse_bool :: "string \<Rightarrow> bool option" where
  "parse_bool s =
     (if s \<in> {''1'', ''t'', ''T'', ''TRUE'', ''true'', ''True''} then Some True
      else if s \<in> {''0'', ''f'', ''F'', ''FALSE'', ''false'', ''False''} then Some False else None)"

definition or_backcompat :: "txt_set \<Rightarrow> string \<Rightarrow> string \<Rightarrow> string" where
  "or_backcompat s field old = (if txt_Lookup s field = [] then txt_Lookup s old else txt_Lookup s field)"

definition queryAccessFromDNS :: "'a access_lib \<Rightarrow> 'c auth_env \<Rightarrow> int \<Rightarrow> (string \<Rightarrow> err + dns_rr list) \<Rightarrow> time \<Rightarrow> string
    \<Rightarrow> bool \<Rightarrow> string \<Rightarrow> 'c \<Rightarrow> ((err + 'a txt_record) \<times> 'c) option" where
  "queryAccessFromDNS A E maxTTL dns now hostname allowAccessGrant clientIP c =
     (case dns (''txt-'' @ hostname) of
        Inl e \<Rightarrow> Some (Inl (Detail ''failure with hostname'' (wrap DnsError e)), c)
      | Inr r \<Rightarrow>
          (let s = ResponseToTXTRecordSet r;
               serializedAccess = or_backcompat s ''storj-access'' ''storj-grant''
           in if \<not> allowAccessGrant \<and> isProductionAccessGrant A serializedAccess
              then Some (Inl (Message ''cannot use access grant with allowAccessGrant=false''), c)
              else let root = or_backcompat s ''storj-root'' ''storj-path'';
                       tls = (parse_bool (txt_Lookup s ''storj-tls'') = Some True)
                   in case parseAccess A E now None serializedAccess 0 clientIP c of
                     None \<Rightarrow> None
                   | Some (Inl e, d) \<Rightarrow> Some (Inl (Detail ''failure with hostname'' e), d)
                   | Some (Inr access, d) \<Rightarrow>
                       Some (Inr \<lparr>tx_queryResult = \<lparr>tr_Access = access, tr_Root = root, tr_TLS = tls\<rparr>,
                                 tx_expiration = now + min (ts_minTTL s) maxTTL\<rparr>, d)))"

text \<open>\<open>currentExpiration\<close> is \<open>None\<close> for the zero time.\<close>

definition updateCache :: "'a access_lib \<Rightarrow> 'c auth_env \<Rightarrow> int \<Rightarrow> (string \<Rightarrow> err + dns_rr list) \<Rightarrow> time \<Rightarrow> string
    \<Rightarrow> bool \<Rightarrow> time option \<Rightarrow> string \<Rightarrow> 'a txt_cache \<times> 'c \<Rightarrow> ((err + 'a txt_record) \<times> 'a txt_cache \<times> 'c) option" where
  "updateCache A E maxTTL dns now hostname allowAccessGrant currentExpiration clientIP st =
     (let update = (case queryAccessFromDNS A E maxTTL dns now hostname allowAccessGrant clientIP (snd st) of
             None \<Rightarrow> None
           | Some (Inl e, d) \<Rightarrow> Some (Inl e, AList.delete hostname (fst st), d)
           | Some (Inr record, d) \<Rightarrow> Some (Inr record, AList.update hostname record (fst st), d))
      in case map_of (fst st) hostname of
        None \<Rightarrow> update
      | Some record \<Rightarrow>
          if currentExpiration = None \<or> currentExpiration \<noteq> Some (tx_expiration record)
          then Some (Inr record, st) else update)"

text \<open>
  A lookup answers from the cache even if the entry has expired; then it also starts an update in
  the background, which is the second component: the hostname, whether a grant is allowed, the
  expiration and the client's address it runs with.
\<close>

type_synonym pending = "string \<times> bool \<times> time \<times> string"

definition fetchAccessForHost :: "'a access_lib \<Rightarrow> 'c auth_env \<Rightarrow> int \<Rightarrow> (string \<Rightarrow> err + dns_rr list) \<Rightarrow> time \<Rightarrow> string
    \<Rightarrow> bool \<Rightarrow> string \<Rightarrow> 'a txt_cache \<times> 'c \<Rightarrow> ((err + 'a txt_result) \<times> pending option \<times> 'a txt_cache \<times> 'c) option" where
  "fetchAccessForHost A E maxTTL dns now hostname allowAccessGrant clientIP st =
     (case map_of (fst st) hostname of
        None \<Rightarrow>
          (case updateCache A E maxTTL dns now hostname allowAccessGrant None clientIP st of
             None \<Rightarrow> None
           | Some (Inl e, t) \<Rightarrow> Some (Inl e, None, t)
           | Some (Inr record, t) \<Rightarrow> Some (Inr (tx_queryResult record), None, t))
      | Some record \<Rightarrow>
          Some (Inr (tx_queryResult record),
                if tx_expiration record < now
                then Some (hostname, allowAccessGrant, tx_expiration record, clientIP) else None, st))"

definition FetchAccessForHost :: "'a access_lib \<Rightarrow> 'c auth_env \<Rightarrow> int \<Rightarrow> (string \<Rightarrow> err + dns_rr list) \<Rightarrow> time \<Rightarrow> string
    \<Rightarrow> string \<Rightarrow> 'a txt_cache \<times> 'c \<Rightarrow> ((err + 'a txt_result) \<times> pending option \<times> 'a txt_cache \<times> 'c) option" where
  "FetchAccessForHost A E maxTTL dns now hostname clientIP st =
     fetchAccessForHost A E maxTTL dns now hostname True clientIP st"

definition FetchAccessForHostNoAccessGrant :: "'a access_lib \<Rightarrow> 'c auth_env \<Rightarrow> int \<Rightarrow> (string \<Rightarrow> err + dns_rr list) \<Rightarrow> time
    \<Rightarrow> string \<Rightarrow> string \<Rightarrow> 'a txt_cache \<times> 'c \<Rightarrow> ((err + 'a txt_result) \<times> pending option \<times> 'a txt_cache \<times> 'c) option" where
  "FetchAccessForHostNoAccessGrant A E maxTTL dns now hostname clientIP st =
     fetchAccessForHost A E maxTTL dns now hostname False clientIP st"

subsection \<open>Certificates for hosted domains (linksharing/peer.go)\<close>

text \<open>
  The decision whether to request a certificate for a name.  \<open>bases\<close> are the hosts of the public
  URLs, \<open>tier\<close> the answer of the satellite of the access, \<open>cnames\<close> the lookup of CNAME records.  A
  record of another type is \<open>None\<close>.
\<close>

definition validateCNAME :: "(string \<Rightarrow> err + string option list) \<Rightarrow> string \<Rightarrow> string list \<Rightarrow> err option" where
  "validateCNAME cnames name bases =
     (case cnames name of
        Inl e \<Rightarrow> Some (wrap DnsError e)
      | Inr answers \<Rightarrow>
          if list_ex (\<lambda>host. list_ex (\<lambda>a. case a of Some target \<Rightarrow> target = host \<or> target = host @ ''.'' | None \<Rightarrow> False)
               answers) bases
          then None else Some (Message ''domain does not contain a CNAME with any public host''))"

definition customDomainsOverTLSDecision :: "'a access_lib \<Rightarrow> 'c auth_env \<Rightarrow> int \<Rightarrow> (string \<Rightarrow> err + dns_rr list)
    \<Rightarrow> string list \<Rightarrow> string list \<Rightarrow> ('a \<Rightarrow> string \<Rightarrow> err + bool) \<Rightarrow> (string \<Rightarrow> err + string option list) \<Rightarrow> time \<Rightarrow> string
    \<Rightarrow> 'a txt_cache \<times> 'c \<Rightarrow> (err option \<times> pending option \<times> 'a txt_cache \<times> 'c) option" where
  "customDomainsOverTLSDecision A E maxTTL dns bases allowlist tier cnames now name st =
     (if name \<in> set bases then Some (None, None, st)
      else case FetchAccessForHostNoAccessGrant A E maxTTL dns now name [] st of
        None \<Rightarrow> None
      | Some (Inl e, p, t) \<Rightarrow> Some (Some e, p, t)
      | Some (Inr result, p, t) \<Rightarrow>
          Some (if \<not> tr_TLS result then Some (Message ''tls not enabled'')
                else if list_ex (\<lambda>allowed. allowed = ''*'' \<or> name = allowed) allowlist then None
                else case tier (tr_Access result) name of
                  Inl e \<Rightarrow> Some e
                | Inr paidTier \<Rightarrow>
                    if \<not> paidTier then Some (Message ''not paid tier'') else validateCNAME cnames name bases,
                p, t))"

subsection \<open>What the cache holds\<close>

text \<open>
  The world of the server: the cache, the client's cache and the updates that run in the background.
  A fetch and a background update happen at some time, with what the DNS and the authentication
  service answer then.
\<close>

type_synonym ('a, 'c) txt_world = "('a txt_cache \<times> 'c) \<times> pending list"

inductive txt_step :: "'a access_lib \<Rightarrow> int \<Rightarrow> ('a, 'c) txt_world \<Rightarrow> ('a, 'c) txt_world \<Rightarrow> bool"
  for A maxTTL where
  fetch: "fetchAccessForHost A E maxTTL dns now hostname allow ip st = Some (r, p, t) \<Longrightarrow>
    txt_step A maxTTL (st, ps) (t, (case p of None \<Rightarrow> ps | Some q \<Rightarrow> q # ps))"
| background: "updateCache A E maxTTL dns now hostname allow (Some expiration) ip st = Some (r, t) \<Longrightarrow>
    txt_step A maxTTL (st, ps @ (hostname, allow, expiration, ip) # qs) (t, ps @ qs)"

inductive txt_reach :: "'a access_lib \<Rightarrow> int \<Rightarrow> 'c \<Rightarrow> ('a, 'c) txt_world \<Rightarrow> bool" for A maxTTL c where
  start: "txt_reach A maxTTL c (([], c), [])"
| step: "txt_reach A maxTTL c w \<Longrightarrow> txt_step A maxTTL w v \<Longrightarrow> txt_reach A maxTTL c v"

definition queried :: "'a access_lib \<Rightarrow> int \<Rightarrow> 'c itself \<Rightarrow> string \<Rightarrow> 'a txt_record \<Rightarrow> bool" where
  "queried A maxTTL T hostname record \<longleftrightarrow>
     (\<exists>(E :: 'c auth_env) dns now allow ip c d.
        queryAccessFromDNS A E maxTTL dns now hostname allow ip c = Some (Inr record, d))"

definition cache_queried :: "'a access_lib \<Rightarrow> int \<Rightarrow> 'a txt_cache \<times> 'c \<Rightarrow> bool" where
  "cache_queried A maxTTL st \<longleftrightarrow> (\<forall>h record. map_of (fst st) h = Some record \<longrightarrow> queried A maxTTL TYPE('c) h record)"

lemma update_queried:
  assumes "cache_queried A maxTTL (st :: 'a txt_cache \<times> 'c)"
    and "updateCache A E maxTTL dns now h allow x ip st = Some (r, t)"
  shows "cache_queried A maxTTL t \<and> (\<forall>record. r = Inr record \<longrightarrow> queried A maxTTL TYPE('c) h record)"
proof -
  have "cache_queried A maxTTL (AList.delete h (fst st), d)" for d :: 'c
    using assms(1) by (auto simp: cache_queried_def delete_conv' split: if_splits)
  moreover have q: "queried A maxTTL TYPE('c) h y"
    if "queryAccessFromDNS A E maxTTL dns now h allow ip (snd st) = Some (Inr y, d)" for y d
    unfolding queried_def using that by blast
  moreover have "cache_queried A maxTTL (AList.update h y (fst st), d)"
    if "queryAccessFromDNS A E maxTTL dns now h allow ip (snd st) = Some (Inr y, d)" for y d
    using assms(1) q [OF that] by (auto simp: cache_queried_def update_conv' split: if_splits)
  ultimately show ?thesis
    using assms unfolding updateCache_def Let_def
    by (auto split: option.splits if_splits prod.splits sum.splits) (auto simp: cache_queried_def)
qed

lemma fetch_queried:
  assumes "cache_queried A maxTTL (st :: 'a txt_cache \<times> 'c)"
    and "fetchAccessForHost A E maxTTL dns now h allow ip st = Some (r, p, t)"
  shows "cache_queried A maxTTL t \<and> (\<forall>res. r = Inr res \<longrightarrow> (\<exists>record. queried A maxTTL TYPE('c) h record \<and> res = tx_queryResult record))"
proof (cases "map_of (fst st) h")
  case None
  obtain r' where u: "updateCache A E maxTTL dns now h allow None ip st = Some (r', t)"
    and "\<And>res. r = Inr res \<Longrightarrow> \<exists>record. r' = Inr record \<and> res = tx_queryResult record"
    using assms(2) None by (auto simp: fetchAccessForHost_def split: option.splits sum.splits prod.splits)
  with update_queried [OF assms(1) u] show ?thesis by blast
next
  case (Some y)
  then have "t = st" "r = Inr (tx_queryResult y)"
    using assms(2) by (auto simp: fetchAccessForHost_def)
  with assms(1) Some show ?thesis by (auto simp: cache_queried_def)
qed

lemma reach_queried: "txt_reach A maxTTL c w \<Longrightarrow> cache_queried A maxTTL (fst w)"
proof (induction rule: txt_reach.induct)
  case (step w v)
  from step(2,3) show ?case
    by (cases rule: txt_step.cases) (auto dest: fetch_queried update_queried)
qed (simp add: cache_queried_def)

lemma fetch_caches:
  assumes "fetchAccessForHost A E maxTTL dns now h allow ip st = Some (Inr res, p, t)"
  obtains y where "map_of (fst t) h = Some y" and "res = tx_queryResult y"
proof (cases "map_of (fst st) h")
  case None
  then obtain y where "updateCache A E maxTTL dns now h allow None ip st = Some (Inr y, t)" "res = tx_queryResult y"
    using assms by (auto simp: fetchAccessForHost_def split: option.splits sum.splits prod.splits)
  moreover from this None have "map_of (fst t) h = Some y"
    by (auto simp: updateCache_def Let_def update_conv' split: option.splits sum.splits prod.splits)
  ultimately show thesis by (intro that)
next
  case (Some y)
  with assms have "map_of (fst t) h = Some y" "res = tx_queryResult y" by (auto simp: fetchAccessForHost_def)
  then show thesis by (intro that)
qed

lemma fetch_refuses_grant:
  assumes "dns (''txt-'' @ h) = Inr rs" and "map_of (fst st) h = None"
    and "isProductionAccessGrant A (or_backcompat (ResponseToTXTRecordSet rs) ''storj-access'' ''storj-grant'')"
  shows "\<exists>e. FetchAccessForHostNoAccessGrant A E maxTTL dns now h ip st = Some (Inl e, None, AList.delete h (fst st), snd st)"
  using assms by (simp add: FetchAccessForHostNoAccessGrant_def fetchAccessForHost_def updateCache_def
      queryAccessFromDNS_def Let_def)

text \<open>
  C20: the refusal of access grants holds for a hostname that is not in the cache only.  A lookup
  without access grants of a domain that names a grant fails; but once any lookup of the domain has
  succeeded, as that of a plain request to it, the same lookup returns the result with the grant,
  whatever the records say, and the server that decides about a certificate for the domain asks the
  grant's satellite, trusted or not.
\<close>

theorem grants_pass_once_cached:
  assumes "FetchAccessForHost A E maxTTL dns now host ip st = Some (Inr res, p, t)"
  shows "(dns' (''txt-'' @ host) = Inr rs \<and> map_of (fst u) host = None
      \<and> isProductionAccessGrant A (or_backcompat (ResponseToTXTRecordSet rs) ''storj-access'' ''storj-grant'')
      \<longrightarrow> (\<exists>e v. FetchAccessForHostNoAccessGrant A E' maxTTL dns' now' host ip' u = Some (Inl e, None, v)))
    \<and> (\<exists>q. FetchAccessForHostNoAccessGrant A E' maxTTL dns' now' host ip' t = Some (Inr res, q, t))
    \<and> (host \<notin> set bases \<and> tr_TLS res \<and> set allowlist \<inter> {''*'', host} = {} \<and> tier (tr_Access res) host = Inr True
      \<longrightarrow> (\<exists>q. customDomainsOverTLSDecision A E' maxTTL dns' bases allowlist tier cnames now' host t
            = Some (validateCNAME cnames host bases, q, t)))"
proof -
  obtain y where y: "map_of (fst t) host = Some y" "res = tx_queryResult y"
    by (rule fetch_caches [OF assms [unfolded FetchAccessForHost_def]])
  then have cached: "\<exists>q. FetchAccessForHostNoAccessGrant A E' maxTTL dns' now' host i t = Some (Inr res, q, t)" for i
    by (simp add: FetchAccessForHostNoAccessGrant_def fetchAccessForHost_def)
  moreover have "\<exists>q. customDomainsOverTLSDecision A E' maxTTL dns' bases allowlist tier cnames now' host t
            = Some (validateCNAME cnames host bases, q, t)"
    if "host \<notin> set bases" "tr_TLS res" "set allowlist \<inter> {''*'', host} = {}" "tier (tr_Access res) host = Inr True"
  proof -
    have "\<not> list_ex (\<lambda>allowed. allowed = ''*'' \<or> host = allowed) allowlist"
      using that(3) by (auto simp: list_ex_iff)
    then show ?thesis
      using cached [of "[]"] that by (auto simp: customDomainsOverTLSDecision_def)
  qed
  moreover have "\<exists>e v. FetchAccessForHostNoAccessGrant A E' maxTTL dns' now' host ip' u = Some (Inl e, None, v)"
    if "dns' (''txt-'' @ host) = Inr rs" "map_of (fst u) host = None"
      "isProductionAccessGrant A (or_backcompat (ResponseToTXTRecordSet rs) ''storj-access'' ''storj-grant'')"
    using fetch_refuses_grant [where dns = dns' and rs = rs and st = u, OF that] by blast
  ultimately show ?thesis by blast
qed

definition demo_env :: "unit auth_env" where
  "demo_env = \<lparr>ae_lib = demo_client, ae_cache = None, ae_config = demo_client_config,
     ae_service = (\<lambda>_ _. NoAnswer (Message [])), ae_ctx = (\<lambda>_. None), ae_requestID = []\<rparr>"

definition demo_access_lib :: "string access_lib" where
  "demo_access_lib = \<lparr>al_ParseAccess = Inr, al_CheckDecode = (\<lambda>s. if s = ''grant'' then Some 0 else None)\<rparr>"

definition demo_rrs :: "dns_rr list" where
  "demo_rrs = [TXT 60 [''storj-access:grant''], TXT 60 [''storj-root:bucket''], TXT 60 [''storj-tls:true'']]"

lemma demo_lookups:
  "or_backcompat (ResponseToTXTRecordSet demo_rrs) ''storj-access'' ''storj-grant'' = ''grant''"
  "or_backcompat (ResponseToTXTRecordSet demo_rrs) ''storj-root'' ''storj-path'' = ''bucket''"
  "parse_bool (txt_Lookup (ResponseToTXTRecordSet demo_rrs) ''storj-tls'') = Some True"
  by code_simp+

lemma grants_pass_once_cached_witness:
  "\<exists>t p q. FetchAccessForHost demo_access_lib demo_env 0 (\<lambda>_. Inr demo_rrs) 0 ''site'' [] ([], ()) =
       Some (Inr \<lparr>tr_Access = ''grant'', tr_Root = ''bucket'', tr_TLS = True\<rparr>, p, t)
     \<and> FetchAccessForHostNoAccessGrant demo_access_lib demo_env 0 (\<lambda>_. Inr demo_rrs) 0 ''site'' [] t =
       Some (Inr \<lparr>tr_Access = ''grant'', tr_Root = ''bucket'', tr_TLS = True\<rparr>, q, t)
     \<and> (\<exists>e v. FetchAccessForHostNoAccessGrant demo_access_lib demo_env 0 (\<lambda>_. Inr demo_rrs) 0 ''site'' [] ([], ()) =
          Some (Inl e, None, v))"
proof -
  have g: "isProductionAccessGrant demo_access_lib ''grant''"
    by (simp add: isProductionAccessGrant_def demo_access_lib_def)
  have w: "wrappedParse demo_access_lib ''grant'' = Inr ''grant''"
    by (simp add: wrappedParse_def demo_access_lib_def)
  obtain t where f: "FetchAccessForHost demo_access_lib demo_env 0 (\<lambda>_. Inr demo_rrs) 0 ''site'' [] ([], ()) =
       Some (Inr \<lparr>tr_Access = ''grant'', tr_Root = ''bucket'', tr_TLS = True\<rparr>, None, t)"
    using g w by (simp add: FetchAccessForHost_def fetchAccessForHost_def updateCache_def queryAccessFromDNS_def Let_def
        demo_lookups parseAccess_def)
  from grants_pass_once_cached [OF f, of "\<lambda>_. Inr demo_rrs" demo_rrs "([], ())" demo_env 0 "[]"] f g
  show ?thesis by (simp add: demo_lookups)
qed

end
