(* ===== verification/Ranges.thy ===== *)
theory Ranges
  imports GoHttp Errors
begin

section \<open>Query flags and predicted ranges (pkg/linksharing/sharing: utils.go, present.go; objectranger/ranger.go)\<close>

text \<open>
  Flags and numbers of a query, and the prediction of the range that a request will read, so that the
  download can start before the size of the object is known.  Offsets and lengths are \<open>int64\<close> in
  Go: sums are cut to 64 bits by \<open>wrap64\<close>.
\<close>

definition queryFlagLookup :: "query \<Rightarrow> string \<Rightarrow> bool \<Rightarrow> bool" where
  "queryFlagLookup q name defValue =
     (case q_values q name of
        [] \<Rightarrow> defValue
      | val # _ \<Rightarrow> if length val = 0 then True
                   else to_lower val \<notin> {''no'', ''false'', ''0'', ''off''})"

definition queryIntLookup :: "query \<Rightarrow> string \<Rightarrow> int \<Rightarrow> int" where
  "queryIntLookup q name defValue =
     (case q_values q name of
        [] \<Rightarrow> defValue
      | val # _ \<Rightarrow> (case parse_int64 val of Some v \<Rightarrow> v | None \<Rightarrow> defValue))"

text \<open>\<open>textproto.TrimString\<close>.\<close>

definition trim_string :: "string \<Rightarrow> string" where
  "trim_string s = trim_both (\<lambda>c. c \<in> {CHR '' '', CHR 0x09, CHR 0x0A, CHR 0x0D}) s"

text \<open>The options of a download: offset and length, negative for \<open>from the end\<close> and \<open>to the end\<close>.\<close>

record download_options =
  do_Offset :: int
  do_Length :: int

abbreviation invalid_range :: "err + 'a" where
  "invalid_range \<equiv> Inl (Message ''invalid range'')"

text \<open>One range of the header, whose blanks have been trimmed.\<close>

definition predict_one :: "string \<Rightarrow> err + download_options" where
  "predict_one ra =
     (case cut_byte CHR ''-'' ra of
        None \<Rightarrow> invalid_range
      | Some (start0, end0) \<Rightarrow>
          (let start = trim_string start0; stop = trim_string end0
           in if start = [] then
                (if stop = [] \<or> hd stop = CHR ''-'' then invalid_range
                 else case parse_int64 stop of
                   None \<Rightarrow> invalid_range
                 | Some i \<Rightarrow> if i < 0 then invalid_range else Inr \<lparr>do_Offset = - i, do_Length = - 1\<rparr>)
              else case parse_int64 start of
                None \<Rightarrow> invalid_range
              | Some offset \<Rightarrow>
                  if offset < 0 then invalid_range
                  else if stop = [] then Inr \<lparr>do_Offset = offset, do_Length = - 1\<rparr>
                  else (case parse_int64 stop of
                     None \<Rightarrow> invalid_range
                   | Some i \<Rightarrow> if offset > i then invalid_range
                       else Inr \<lparr>do_Offset = offset, do_Length = wrap64 (i - offset + 1)\<rparr>)))"

definition predictRange :: "string \<Rightarrow> err + download_options option" where
  "predictRange s =
     (if s = [] then Inr None
      else if \<not> has_prefix s ''bytes='' then invalid_range
      else case filter (\<lambda>ra. ra \<noteq> []) (map trim_string (split_on CHR '','' (drop 6 s))) of
        [] \<Rightarrow> Inl (Message ''range prediction failed'')
      | ra # _ \<Rightarrow> (case predict_one ra of Inl e \<Rightarrow> Inl e | Inr opts \<Rightarrow> Inr (Some opts)))"

record http_range =
  ra_Start :: int
  ra_Length :: int

definition optionsToRange :: "int \<Rightarrow> download_options option \<Rightarrow> http_range" where
  "optionsToRange len options =
     (let r = (case options of
            None \<Rightarrow> \<lparr>ra_Start = 0, ra_Length = len\<rparr>
          | Some opts \<Rightarrow>
              if do_Offset opts < 0
              then \<lparr>ra_Start = wrap64 (len + do_Offset opts), ra_Length = wrap64 (len - do_Offset opts)\<rparr>
              else if do_Length opts < 0
              then \<lparr>ra_Start = do_Offset opts, ra_Length = wrap64 (len - do_Offset opts)\<rparr>
              else \<lparr>ra_Start = do_Offset opts, ra_Length = do_Length opts\<rparr>)
      in if ra_Start r < len \<and> wrap64 (ra_Start r + ra_Length r) > len
         then r\<lparr>ra_Length := wrap64 (len - ra_Start r)\<rparr> else r)"

text \<open>
  The ranger of an object: the download that has been started serves the range it was started for,
  any other range is downloaded anew.  \<open>Reused\<close> is the started download.
\<close>

datatype opened = Reused | Anew download_options

definition ranger_Range :: "http_range option \<Rightarrow> int \<Rightarrow> int \<Rightarrow> opened" where
  "ranger_Range started offset len =
     (case started of
        Some r \<Rightarrow> if ra_Start r = offset \<and> ra_Length r = len then Reused else Anew \<lparr>do_Offset = offset, do_Length = len\<rparr>
      | None \<Rightarrow> Anew \<lparr>do_Offset = offset, do_Length = len\<rparr>)"

text \<open>\<open>SimpleRanger\<close>: the ranges that a plain reader of some size can serve.\<close>

definition simple_Range :: "int \<Rightarrow> int \<Rightarrow> int \<Rightarrow> err option" where
  "simple_Range rsize offset len =
     (if offset \<noteq> 0 then Some (Classed UnsupportedRange (Message ''non-zero offset''))
      else if len < 0 then Some (Classed UnsupportedRange (Message ''negative length''))
      else if wrap64 (offset + len) > rsize then Some (Classed UnsupportedRange (Message ''buffer runoff''))
      else None)"

subsection \<open>The ranges of RFC 7233\<close>

datatype byte_range = FromTo nat nat | From nat | Suffix nat

definition range_text :: "byte_range \<Rightarrow> string" where
  "range_text b = ''bytes='' @ (case b of FromTo i j \<Rightarrow> dec i @ ''-'' @ dec j | From i \<Rightarrow> dec i @ ''-'' | Suffix k \<Rightarrow> ''-'' @ dec k)"

text \<open>The bytes that a satisfiable range names of an object: their offset and number.\<close>

definition requested :: "int \<Rightarrow> byte_range \<Rightarrow> (int \<times> int) option" where
  "requested n b =
     (case b of
        FromTo i j \<Rightarrow> if int i < n \<and> i \<le> j then Some (int i, min (int j + 1) n - int i) else None
      | From i \<Rightarrow> if int i < n then Some (int i, n - int i) else None
      | Suffix k \<Rightarrow> if 0 < k \<and> 0 < n then Some (max 0 (n - int k), min n (int k)) else None)"

lemma dec_no_blank: "c \<in> set (dec n) \<Longrightarrow> is_digit c"
  using dec_digits [of n] by (auto simp: list_all_iff)

lemma trim_string_id:
  assumes "\<forall>c \<in> set s. c \<notin> {CHR '' '', CHR 0x09, CHR 0x0A, CHR 0x0D}"
  shows "trim_string s = s"
proof -
  have "dropWhile (\<lambda>c. c \<in> {CHR '' '', CHR 0x09, CHR 0x0A, CHR 0x0D}) t = t" if "set t \<subseteq> set s" for t
    using assms that by (cases t) auto
  then show ?thesis by (simp add: trim_string_def trim_both_def trim_left_def trim_right_def)
qed

lemma trim_string_dec [simp]: "trim_string (dec n) = dec n" "trim_string [] = []"
  using dec_no_blank by (fastforce intro!: trim_string_id simp: is_digit_def)+

lemma parse_dec: "int n < 2 ^ 63 \<Longrightarrow> parse_int64 (dec n) = Some (int n)"
  using parse_int64_itoa [of "int n"] by (simp add: itoa_def)

lemma dec_no: "\<not> is_digit c \<Longrightarrow> c \<notin> set (dec n)"
  using dec_no_blank by blast

lemma not_digit_range [simp]: "\<not> is_digit CHR ''-''" "\<not> is_digit CHR '',''"
  by (simp_all add: is_digit_def)

definition options_of :: "byte_range \<Rightarrow> download_options" where
  "options_of b =
     (case b of FromTo i j \<Rightarrow> \<lparr>do_Offset = int i, do_Length = int j - int i + 1\<rparr>
      | From i \<Rightarrow> \<lparr>do_Offset = int i, do_Length = - 1\<rparr> | Suffix k \<Rightarrow> \<lparr>do_Offset = - int k, do_Length = - 1\<rparr>)"

definition range_ok :: "byte_range \<Rightarrow> bool" where
  "range_ok b = (case b of FromTo i j \<Rightarrow> i \<le> j \<and> int j < 2 ^ 63 - 1 | From i \<Rightarrow> int i < 2 ^ 63 | Suffix k \<Rightarrow> int k < 2 ^ 63)"

lemma predict_one_text:
  assumes "range_ok b"
  shows "predict_one (drop 6 (range_text b)) = Inr (options_of b)"
proof (cases b)
  case (FromTo i j)
  then have b: "i \<le> j" "int j < 2 ^ 63" "int i < 2 ^ 63" "int j - int i + 1 < 2 ^ 63"
    using assms by (simp_all add: range_ok_def)
  have "cut_byte CHR ''-'' (dec i @ CHR ''-'' # dec j) = Some (dec i, dec j)"
    by (rule cut_byte_append) (simp add: dec_no)
  then show ?thesis
    using b unfolding FromTo range_text_def by (simp add: predict_one_def Let_def parse_dec options_of_def)
next
  case (From i)
  have "cut_byte CHR ''-'' (dec i @ ''-'') = Some (dec i, [])"
    by (rule cut_byte_append) (simp add: dec_no)
  then show ?thesis
    using assms unfolding From range_text_def
    by (simp add: predict_one_def Let_def parse_dec options_of_def range_ok_def)
next
  case (Suffix k)
  then show ?thesis
    using assms hd_dec [of k] unfolding Suffix range_text_def
    by (simp add: predict_one_def Let_def parse_dec options_of_def range_ok_def)
qed

lemma predict_text:
  assumes "range_ok b"
  shows "predictRange (range_text b) = Inr (Some (options_of b))"
proof -
  let ?ra = "drop 6 (range_text b)"
  have t: "range_text b = ''bytes='' @ ?ra" by (simp add: range_text_def)
  have chars: "c \<in> set ?ra \<Longrightarrow> is_digit c \<or> c = CHR ''-''" for c
    by (cases b) (auto simp: range_text_def dec_no_blank)
  have comma: "CHR '','' \<notin> set ?ra" and trim: "trim_string ?ra = ?ra"
    using chars by (auto intro!: trim_string_id simp: is_digit_def) fastforce+
  have "?ra \<noteq> []" by (cases b) (auto simp: range_text_def)
  then have "filter (\<lambda>ra. ra \<noteq> []) (map trim_string (split_on CHR '','' ?ra)) = [?ra]"
    by (simp add: split_on_nosep [OF comma] trim)
  moreover have "has_prefix (range_text b) ''bytes=''" "range_text b \<noteq> []"
    by (subst t, rule has_prefix_append) (simp add: range_text_def)
  ultimately show ?thesis
    unfolding predictRange_def by (simp add: predict_one_text [OF assms])
qed

lemma wrap64_nonneg: "0 \<le> i \<Longrightarrow> i < 2 ^ 63 \<Longrightarrow> wrap64 i = i"
  by (rule wrap64_id) simp_all

lemma options_range:
  assumes "range_ok b" and "0 \<le> n" and "n < 2 ^ 62" and "requested n b = Some (off, len)"
    and "case b of Suffix k \<Rightarrow> int k \<le> n | _ \<Rightarrow> True"
  shows "optionsToRange n (Some (options_of b)) = \<lparr>ra_Start = off, ra_Length = len\<rparr>"
proof (cases b)
  case (FromTo i j)
  then have b: "int i < n" "i \<le> j" "int j < 2 ^ 63 - 1" and r: "off = int i" "len = min (int j + 1) n - int i"
    using assms(1,4) by (auto simp: requested_def range_ok_def split: if_splits)
  have "wrap64 (int i + (int j - int i + 1)) = int j + 1" "wrap64 (n - int i) = n - int i"
    using b assms(2,3) by (simp_all add: wrap64_nonneg)
  then show ?thesis using b r unfolding FromTo by (auto simp: optionsToRange_def options_of_def min_def)
next
  case (From i)
  then have b: "int i < n" and r: "off = int i" "len = n - int i"
    using assms(1,4) by (auto simp: requested_def split: if_splits)
  have "wrap64 (int i + (n - int i)) = n" "wrap64 (n - int i) = n - int i"
    using b assms(2,3) by (simp_all add: wrap64_nonneg)
  then show ?thesis using b r unfolding From by (simp add: optionsToRange_def options_of_def)
next
  case (Suffix k)
  then have b: "0 < k" "int k \<le> n" and r: "off = n - int k" "len = int k"
    using assms(4,5) by (auto simp: requested_def split: if_splits)
  have "wrap64 (n + - int k) = n - int k" "wrap64 (n - - int k) = n + int k"
    "wrap64 ((n - int k) + (n + int k)) = 2 * n" "wrap64 (n - (n - int k)) = int k"
    using b assms(2,3) by (simp_all add: wrap64_nonneg)
  then show ?thesis using b r unfolding Suffix by (simp add: optionsToRange_def options_of_def Let_def)
qed

lemma requested_bounds: "requested n b = Some (off, len) \<Longrightarrow> 0 \<le> n \<Longrightarrow> 0 \<le> off \<and> 0 < len \<and> off + len \<le> n"
  by (cases b) (auto simp: requested_def split: if_splits)

subsection \<open>The property\<close>

text \<open>
  C23: a download that is started for a predicted range is the one that the request reads: for every
  satisfiable single range of RFC 7233, the prediction, made before the size of the object is known,
  becomes exactly the bytes that the range names, which lie within the object, and the ranger serves
  them from the started download.  Only a suffix longer than the object misses: the prediction then
  begins before the object, and the download is started a second time.
\<close>

theorem predicted_range_is_requested:
  assumes "range_ok b" and "0 \<le> n" and "n < 2 ^ 62" and "requested n b = Some (off, len)"
  shows "predictRange (range_text b) = Inr (Some (options_of b)) \<and> 0 \<le> off \<and> 0 < len \<and> off + len \<le> n
    \<and> ranger_Range (Some (optionsToRange n (Some (options_of b)))) off len =
        (case b of Suffix k \<Rightarrow> if int k \<le> n then Reused else Anew \<lparr>do_Offset = off, do_Length = len\<rparr> | _ \<Rightarrow> Reused)"
proof -
  have "ra_Start (optionsToRange n (Some (options_of b))) \<noteq> off" if "b = Suffix k" "n < int k" for k
  proof -
    have "wrap64 (n - int k) = n - int k"
      using that assms(1-3) by (intro wrap64_id) (simp_all add: range_ok_def)
    then have "ra_Start (optionsToRange n (Some (options_of b))) = n - int k"
      using that assms(2) by (simp add: optionsToRange_def options_of_def Let_def)
    then show ?thesis using that requested_bounds [OF assms(4,2)] by simp
  qed
  moreover have "optionsToRange n (Some (options_of b)) = \<lparr>ra_Start = off, ra_Length = len\<rparr>"
    if "case b of Suffix k \<Rightarrow> int k \<le> n | _ \<Rightarrow> True"
    by (rule options_range [OF assms that])
  ultimately show ?thesis
    using predict_text [OF assms(1)] requested_bounds [OF assms(4,2)]
    by (cases b) (auto simp: ranger_Range_def)
qed

lemma predicted_range_is_requested_witness:
  "predictRange (range_text (FromTo 10 99)) = Inr (Some \<lparr>do_Offset = 10, do_Length = 90\<rparr>)
   \<and> ranger_Range (Some (optionsToRange 50 (Some \<lparr>do_Offset = 10, do_Length = 90\<rparr>))) 10 40 = Reused
   \<and> ranger_Range (Some (optionsToRange 50 (Some (options_of (Suffix 60))))) 0 50 \<noteq> Reused"
  using predicted_range_is_requested [of "FromTo 10 99" 50 10 40] predicted_range_is_requested [of "Suffix 60" 50 0 50]
  by (simp add: range_ok_def requested_def options_of_def)

end
