(* ===== verification/Sharing.thy ===== *)
theory Sharing
  imports TxtRecords Ranges
begin

section \<open>Presenting objects (pkg/linksharing/sharing: present.go, list.go, map.go, handler.go)\<close>

text \<open>
  What linksharing answers a request for an object with.  The uplink library, the reader of zip
  archives, the map drawing, the templates and \<open>httpranger.ServeContent\<close> are the parameter
  \<open>sharing_lib\<close>, whose functions answer for one access; background requests are asked in place.
  A response is its header, its status and the pages written to it; content that is served keeps the
  header it was served with.
\<close>

record up_object =
  ob_Key :: string
  ob_Created :: time
  ob_ContentLength :: int
  ob_Custom :: "(string \<times> string) list"

record list_item =
  li_Key :: string
  li_IsPrefix :: bool
  li_Size :: int

datatype source = SObject "http_range option" | SArchive string bool

record ('a, 'l) sharing_lib =
  up_OpenProject :: "'a \<Rightarrow> err option"
  up_Stat :: "'a \<Rightarrow> string \<Rightarrow> string \<Rightarrow> err + up_object"
  up_Download :: "'a \<Rightarrow> string \<Rightarrow> string \<Rightarrow> download_options option \<Rightarrow> err + up_object"
  up_Copy :: "'a \<Rightarrow> string \<Rightarrow> string \<Rightarrow> err option"
  up_List :: "'a \<Rightarrow> string \<Rightarrow> string \<Rightarrow> bool \<Rightarrow> list_item list \<times> err option"
  up_OpenPack :: "'a \<Rightarrow> string \<Rightarrow> string \<Rightarrow> err option"
  up_PackList :: "'a \<Rightarrow> string \<Rightarrow> string \<Rightarrow> string list"
  up_FileInfo :: "'a \<Rightarrow> string \<Rightarrow> string \<Rightarrow> string \<Rightarrow> err + int"
  up_OpenFile :: "'a \<Rightarrow> string \<Rightarrow> string \<Rightarrow> string \<Rightarrow> bool \<Rightarrow> err + bool"
  up_IPSummary :: "'a \<Rightarrow> string \<Rightarrow> string \<Rightarrow> err + (string list \<times> int)"
  up_EncodeSVG :: "'l list \<Rightarrow> int \<Rightarrow> int \<Rightarrow> err + bytes"
  up_Serve :: "'a \<Rightarrow> http_req \<Rightarrow> header \<Rightarrow> string \<Rightarrow> up_object \<Rightarrow> source \<Rightarrow> err option"
  up_Write :: "bytes \<Rightarrow> err option"
  up_Size :: "int \<Rightarrow> string"
  up_MB :: int
  up_mime :: "string \<Rightarrow> string"

subsection \<open>Types of content\<close>

text \<open>\<open>filepath.Base\<close> and \<open>filepath.Ext\<close>.\<close>

definition file_base :: "string \<Rightarrow> string" where
  "file_base p =
     (if p = [] then ''.''
      else let q = trim_right (\<lambda>c. c = CHR ''/'') p
           in if q = [] then ''/'' else rev (takeWhile (\<lambda>c. c \<noteq> CHR ''/'') (rev q)))"

definition file_ext :: "string \<Rightarrow> string" where
  "file_ext p =
     (let r = rev p; e = takeWhile (\<lambda>c. c \<noteq> CHR ''.'' \<and> c \<noteq> CHR ''/'') r
      in case drop (length e) r of
           CHR ''.'' # _ \<Rightarrow> CHR ''.'' # rev e
         | _ \<Rightarrow> [])"

text \<open>
  A metadata value: under the canonical name, under the lower-case name, or the first under the name
  in any case.  Go ranges over the metadata in no fixed order, here it is the order of the list; the
  names that the code asks for are canonical.
\<close>

definition metadataHeaderValue :: "(string \<times> string) list \<Rightarrow> string \<Rightarrow> string" where
  "metadataHeaderValue metadata name =
     (case map_of metadata name of
        Some v \<Rightarrow> v
      | None \<Rightarrow>
          (case map_of metadata (to_lower name) of
             Some v \<Rightarrow> v
           | None \<Rightarrow> (case filter (\<lambda>(k, _). equal_fold k name) metadata of [] \<Rightarrow> [] | (_, v) # _ \<Rightarrow> v)))"

definition contentType :: "(string \<Rightarrow> string) \<Rightarrow> string \<Rightarrow> (string \<times> string) list \<Rightarrow> bool \<Rightarrow> string" where
  "contentType mime key metadata detectType =
     (let ct = metadataHeaderValue metadata ''Content-Type''
      in if detectType
         then let ct1 = (if ct = ''application/octet-stream'' \<or> ct = ''binary/octet-stream'' then [] else ct)
              in if ct1 = [] then mime (file_ext key) else ct1
         else ct)"

definition allowedInlineType :: "string \<Rightarrow> bool" where
  "allowedInlineType ct =
     (ct \<in> {''application/pdf'', ''image/bmp'', ''image/jpeg'', ''image/x-png'', ''image/png'', ''image/gif''})"

definition hasValue :: "header \<Rightarrow> string \<Rightarrow> string \<Rightarrow> bool" where
  "hasValue h key value = list_ex (\<lambda>v. equal_fold v value) (h_values h key)"

record sharing_config =
  sc_urlBases :: "string list"
  sc_baseURL :: string
  sc_redirectHTTPS :: bool
  sc_landingRedirect :: string
  sc_trustedClientIPs :: trusted_list
  sc_standardRendersContent :: bool
  sc_standardViewsHTML :: bool
  sc_txtTTL :: int

definition setHeaders :: "sharing_config \<Rightarrow> (string \<Rightarrow> string) \<Rightarrow> http_req \<Rightarrow> (string \<times> string) list \<Rightarrow> bool \<Rightarrow> string
    \<Rightarrow> header \<Rightarrow> header" where
  "setHeaders C mime r metadata hosting filename h =
     (let detectType = (\<not> hasValue (hr_Header r) ''X-Content-Type-Options'' ''nosniff'');
          ct = contentType mime filename metadata detectType;
          ct1 = (if ct \<noteq> [] \<and> \<not> sc_standardViewsHTML C \<and> \<not> hosting \<and> contains (to_lower ct) ''html''
                 then ''text/plain'' else ct);
          h1 = header_set ''Content-Type'' (if ct = [] then ''application/octet-stream'' else ct1) h;
          h2 = (if \<not> sc_standardRendersContent C \<and> \<not> allowedInlineType ct1 \<and> \<not> hosting
                then header_set ''Content-Disposition'' (''attachment; filename='' @ filename) h1 else h1);
          cc = metadataHeaderValue metadata ''Cache-Control'';
          h3 = (if cc \<noteq> [] then header_set ''Cache-Control'' cc h2 else h2);
          ce = metadataHeaderValue metadata ''Content-Encoding''
      in if ce \<noteq> [] then header_set ''Content-Encoding'' ce h3 else h3)"

definition imagePreviewPath :: "int \<Rightarrow> string \<Rightarrow> string \<Rightarrow> string \<Rightarrow> int \<Rightarrow> string \<times> string" where
  "imagePreviewPath MB access bucket key sz =
     (let previewPath = (if access = [] then ''/raw/'' @ bucket @ ''/'' @ key
                         else ''/raw/'' @ access @ ''/'' @ bucket @ ''/'' @ key);
          ext = to_lower (file_ext key)
      in if ext \<in> {''.jpg'', ''.jpeg'', ''.png'', ''.gif''}
         then (if sz \<le> MB then previewPath else [], if sz \<le> 5 * MB then previewPath else [])
         else if ext = ''.webp'' then (if sz \<le> MB then previewPath else [], [])
         else ([], []))"

subsection \<open>The response\<close>

record breadcrumb =
  bc_Prefix :: string
  bc_URL :: string

record list_object =
  lo_Key :: string
  lo_URL :: string
  lo_Size :: string
  lo_Prefix :: bool

datatype page_data =
    ErrorData string
  | ObjectData (od_Key: string) (od_Size: string) (od_NodesCount: nat)
  | PrefixData (pd_Title: string) (pd_Breadcrumbs: "breadcrumb list") (pd_Objects: "list_object list")

record page =
  pg_Template :: string
  pg_Data :: page_data
  pg_Title :: string
  pg_TwitterImage :: string
  pg_OgImage :: string
  pg_ArchivePath :: string
  pg_ShowViewContents :: bool

datatype part =
    Page page
  | Content header string up_object source
  | NotFoundPage string string
  | Text string
  | Svg bytes
  | Redirected string
  | StaticFile string

record writer =
  wr_Header :: header
  wr_Status :: "int option"
  wr_Parts :: "part list"

definition w_status :: "int \<Rightarrow> writer \<Rightarrow> writer" where
  "w_status st w = (case wr_Status w of None \<Rightarrow> w\<lparr>wr_Status := Some st\<rparr> | Some _ \<Rightarrow> w)"

definition w_part :: "part \<Rightarrow> writer \<Rightarrow> writer" where
  "w_part p w = (w_status 200 w)\<lparr>wr_Parts := wr_Parts w @ [p]\<rparr>"

definition w_set :: "string \<Rightarrow> string \<Rightarrow> writer \<Rightarrow> writer" where
  "w_set k v w = w\<lparr>wr_Header := header_set k v (wr_Header w)\<rparr>"

definition w_redirect :: "string \<Rightarrow> int \<Rightarrow> writer \<Rightarrow> writer" where
  "w_redirect url st w = w_part (Redirected url) (w_status st (w_set ''Location'' url w))"

subsection \<open>Listings (list.go)\<close>

text \<open>\<open>url.PathEscape\<close>.\<close>

definition path_escape :: "string \<Rightarrow> string" where
  "path_escape s = concat (map (\<lambda>c.
     if query_unreserved c \<or> c \<in> {CHR ''$'', CHR ''&'', CHR ''+'', CHR ''='', CHR '':'', CHR ''@''} then [c]
     else [CHR 0x25, upper_hex (code c div 16), upper_hex (code c mod 16)]) s)"

record 'a parsed_request =
  pr_access :: 'a
  pr_serializedAccess :: string
  pr_bucket :: string
  pr_realKey :: string
  pr_visibleKey :: string
  pr_title :: string
  pr_root :: breadcrumb
  pr_wrapDefault :: bool
  pr_downloadDefault :: bool
  pr_hosting :: bool
  pr_hostingTLS :: bool

fun crumbs :: "string \<Rightarrow> bool \<Rightarrow> string list \<Rightarrow> breadcrumb list" where
  "crumbs url plain [] = []"
| "crumbs url plain (prefix # ps) =
     (let u = url @ prefix @ (if plain \<or> ps \<noteq> [] then ''/'' else [])
      in \<lparr>bc_Prefix = prefix, bc_URL = u\<rparr> # crumbs u plain ps)"

definition listObjectsPrefix :: "('a, 'l) sharing_lib \<Rightarrow> 'a parsed_request \<Rightarrow> list_object list \<times> err option" where
  "listObjectsPrefix U pr =
     (let (items, e) = up_List U (pr_access pr) (pr_bucket pr) (pr_realKey pr) False
      in (map (\<lambda>item.
            let key = drop (length (pr_realKey pr)) (li_Key item);
                keyURL = (if li_IsPrefix item then path_escape (trim_suffix key ''/'') @ ''/'' else path_escape key)
            in \<lparr>lo_Key = key, lo_URL = ''./'' @ keyURL @ ''?wrap=1'', lo_Size = up_Size U (li_Size item),
                lo_Prefix = li_IsPrefix item\<rparr>) items,
          map_option (\<lambda>x. with_action x ''list objects'') e))"

fun list_names :: "('a, 'l) sharing_lib \<Rightarrow> 'a parsed_request \<Rightarrow> string list \<Rightarrow> list_object list \<Rightarrow> list_object list \<times> err option" where
  "list_names U pr [] objects = (objects, None)"
| "list_names U pr (name # names) objects =
     (case up_FileInfo U (pr_access pr) (pr_bucket pr) (pr_realKey pr) name of
        Inl e \<Rightarrow> (objects, Some (with_status e 500))
      | Inr sz \<Rightarrow>
          list_names U pr names (objects @
            [\<lparr>lo_Key = name, lo_URL = ''./'' @ path_escape (file_base (pr_realKey pr)) @ ''?path='' @ path_escape name @ ''&wrap=1'',
              lo_Size = up_Size U sz, lo_Prefix = False\<rparr>]))"

definition listObjectsArchive :: "('a, 'l) sharing_lib \<Rightarrow> 'a parsed_request \<Rightarrow> list_object list \<times> err option" where
  "listObjectsArchive U pr =
     (case up_OpenPack U (pr_access pr) (pr_bucket pr) (pr_realKey pr) of
        Some e \<Rightarrow> ([], Some (with_status e 500))
      | None \<Rightarrow> list_names U pr (sort (up_PackList U (pr_access pr) (pr_bucket pr) (pr_realKey pr))) [])"

definition blank_page :: "string \<Rightarrow> page_data \<Rightarrow> string \<Rightarrow> page" where
  "blank_page name d title = \<lparr>pg_Template = name, pg_Data = d, pg_Title = title, pg_TwitterImage = [], pg_OgImage = [],
     pg_ArchivePath = [], pg_ShowViewContents = False\<rparr>"

definition servePrefix :: "('a, 'l) sharing_lib \<Rightarrow> 'a parsed_request \<Rightarrow> string \<Rightarrow> writer \<Rightarrow> err option \<times> writer" where
  "servePrefix U pr archivePath w =
     (let crumbs = pr_root pr #
            (if pr_visibleKey pr \<noteq> []
             then crumbs (bc_URL (pr_root pr)) (archivePath = [])
                    (split_on CHR ''/'' (trim_right (\<lambda>c. c = CHR ''/'') (pr_visibleKey pr)))
             else []);
          (objects, e) = (if archivePath \<noteq> [] then listObjectsArchive U pr else listObjectsPrefix U pr)
      in case e of
           Some x \<Rightarrow> (Some x, w)
         | None \<Rightarrow>
             if objects = [] then (Some (with_action (Sentinel ObjectNotFound) ''serve prefix - empty''), w)
             else (None, w_part (Page ((blank_page ''prefix-listing.html'' (PrefixData (pr_title pr) crumbs objects)
                     (pr_title pr))\<lparr>pg_ShowViewContents := archivePath \<noteq> []\<rparr>)) w))"

subsection \<open>The map (map.go)\<close>

fun get_infos :: "(string \<Rightarrow> err + 'l) \<Rightarrow> string list \<Rightarrow> 'l list" where
  "get_infos mapper [] = []"
| "get_infos mapper (ip # ips) =
     (case mapper ip of Inl e \<Rightarrow> get_infos mapper ips | Inr l \<Rightarrow> l # get_infos mapper ips)"

definition getLocations :: "('a, 'l) sharing_lib \<Rightarrow> (string \<Rightarrow> err + 'l) option \<Rightarrow> 'a \<Rightarrow> string \<Rightarrow> string
    \<Rightarrow> err + ('l list \<times> int)" where
  "getLocations U mapper access bucket key =
     (case mapper of
        None \<Rightarrow> Inr ([], 0)
      | Some m \<Rightarrow>
          (case up_IPSummary U access bucket key of
             Inl e \<Rightarrow> Inl (with_action e ''get locations'')
           | Inr (ips, pieces) \<Rightarrow> Inr (get_infos m ips, pieces)))"

text \<open>\<open>bytes.Replace\<close> of the first occurrence.\<close>

fun replace_first :: "string \<Rightarrow> string \<Rightarrow> string \<Rightarrow> string" where
  "replace_first old new [] = (if old = [] then new else [])"
| "replace_first old new (x # xs) =
     (if has_prefix (x # xs) old then new @ drop (length old) (x # xs) else x # replace_first old new xs)"

definition TAB :: string where "TAB = [CHR 0x09]"
definition NL :: string where "NL = [CHR 0x0A]"

definition metadata_text :: string where
  "metadata_text =
     ''<text x=\"50%\" y=\"85%\" dominant-baseline=\"middle\" text-anchor=\"middle\"'' @
     NL @ TAB @ ''    style=\"font-family:Poppins,sans-serif;font-size:18px;fill:#6c757d;fill-opacity:1;\">'' @
     NL @ TAB @ ''    Files under 4k are stored as metadata with strong encryption.'' @
     NL @ TAB @ ''  </text>'' @ NL @ TAB @ ''</svg>''"

definition stats_text :: "string \<Rightarrow> string \<Rightarrow> string" where
  "stats_text pieces sz =
     ''<text x=\"3%\" y=\"75%\" width=\"100%\" dominant-baseline=\"middle\" text-anchor=\"left\"'' @
     NL @ TAB @ ''    style=\"font-family:Poppins,sans-serif;font-size:18px;fill:#6c757d;fill-opacity:1;\">'' @
     NL @ TAB @ ''    <tspan font-weight=\"bold\">Pieces:</tspan> '' @ pieces @ NL @ TAB @
     ''    <tspan x=\"3%\" dy=\"1.4em\"><tspan font-weight=\"bold\">Size:</tspan> '' @
     sz @ ''</tspan>'' @ NL @ TAB @ ''  </text>'' @ NL @ TAB @ ''</svg>''"

definition serveMap :: "('a, 'l) sharing_lib \<Rightarrow> 'l list \<Rightarrow> int \<Rightarrow> up_object \<Rightarrow> query \<Rightarrow> writer \<Rightarrow> err option \<times> writer" where
  "serveMap U locations pieces obj q w =
     (let width = queryIntLookup q ''width'' 800;
          half = (if width < 0 then - ((- width) div 2) else width div 2);
          w1 = w_set ''Content-Type'' ''image/svg+xml'' w
      in case up_EncodeSVG U locations width half of
           Inl e \<Rightarrow> (Some (with_action e ''svg encode''), w1)
         | Inr svg \<Rightarrow>
             (let data = (if pieces = 0
                    then (if width \<ge> 500 \<and> queryFlagLookup q ''include-stats'' True
                          then replace_first ''</svg>'' metadata_text svg else svg)
                    else (if width \<ge> 400 \<and> queryFlagLookup q ''include-stats'' True
                          then replace_first ''</svg>'' (stats_text (itoa pieces) (up_Size U (ob_ContentLength obj))) svg
                          else svg))
              in (up_Write U data, w_part (Svg data) (w_set ''Content-Length'' (itoa (int (length data))) w1))))"

subsection \<open>Showing an object (present.go)\<close>

definition q_path :: "query \<Rightarrow> string" where
  "q_path q = (case q_values q ''path'' of [] \<Rightarrow> [] | p # _ \<Rightarrow> p)"

definition q_download :: "'a parsed_request \<Rightarrow> query \<Rightarrow> bool" where
  "q_download pr q = queryFlagLookup q ''download'' (pr_downloadDefault pr)"

definition q_wrap :: "'a parsed_request \<Rightarrow> query \<Rightarrow> bool" where
  "q_wrap pr q = queryFlagLookup q ''wrap'' (\<not> queryFlagLookup q ''view'' (\<not> pr_wrapDefault pr))"

text \<open>\<open>defaultArchiveRanger\<close>: whether the file comes as gzip.\<close>

definition defaultArchiveRanger :: "('a, 'l) sharing_lib \<Rightarrow> 'a \<Rightarrow> string \<Rightarrow> string \<Rightarrow> string \<Rightarrow> bool \<Rightarrow> err + bool" where
  "defaultArchiveRanger U access bucket key path canReturnGzip =
     (case up_OpenPack U access bucket key of
        Some e \<Rightarrow> Inl e
      | None \<Rightarrow>
          (case up_FileInfo U access bucket key path of
             Inl e \<Rightarrow> Inl e
           | Inr _ \<Rightarrow> up_OpenFile U access bucket key path canReturnGzip))"

definition serve_content :: "('a, 'l) sharing_lib \<Rightarrow> 'a \<Rightarrow> http_req \<Rightarrow> string \<Rightarrow> up_object \<Rightarrow> source \<Rightarrow> writer
    \<Rightarrow> err option \<times> writer" where
  "serve_content U access r bucket obj src w =
     (map_option (\<lambda>e. with_action e ''serve content'') (up_Serve U access r (wr_Header w) bucket obj src),
      w_part (Content (wr_Header w) bucket obj src) w)"

definition show_archived :: "('a, 'l) sharing_lib \<Rightarrow> sharing_config \<Rightarrow> http_req \<Rightarrow> 'a parsed_request \<Rightarrow> up_object \<Rightarrow> string
    \<Rightarrow> writer \<Rightarrow> err option \<times> writer" where
  "show_archived U C r pr obj archivePath w =
     (let w1 = w\<lparr>wr_Header := setHeaders C (up_mime U) r (ob_Custom obj) (pr_hosting pr) archivePath (wr_Header w)\<rparr>
      in if header_get (hr_Header r) ''Range'' \<noteq> []
         then (Some (with_status (Message ''Range header isn't compatible with path query'') 416), w1)
         else case defaultArchiveRanger U (pr_access pr) (pr_bucket pr) (ob_Key obj) archivePath
                     (hasValue (hr_Header r) ''Accept-Encoding'' ''gzip'') of
           Inl e \<Rightarrow> (Some (with_status e 415), w1)
         | Inr isGz \<Rightarrow>
             serve_content U (pr_access pr) r (pr_bucket pr) obj (SArchive archivePath isGz)
               (if isGz then w_set ''Content-Encoding'' ''gzip'' w1 else w1))"

definition show_page :: "('a, 'l) sharing_lib \<Rightarrow> 'a parsed_request \<Rightarrow> up_object \<Rightarrow> string \<Rightarrow> 'l list \<Rightarrow> writer
    \<Rightarrow> err option \<times> writer" where
  "show_page U pr obj archivePath locations w =
     (let (twitterImage, ogImage) = imagePreviewPath (up_MB U) (pr_serializedAccess pr) (pr_bucket pr) (ob_Key obj) (ob_ContentLength obj);
          page = (\<lambda>key sz. (blank_page ''single-object.html'' (ObjectData key sz (length locations)) key)
                   \<lparr>pg_TwitterImage := twitterImage, pg_OgImage := ogImage\<rparr>)
      in if archivePath \<noteq> []
         then (case up_OpenPack U (pr_access pr) (pr_bucket pr) (ob_Key obj) of
                 Some e \<Rightarrow> (Some (with_status e 415), w)
               | None \<Rightarrow>
                   (case up_FileInfo U (pr_access pr) (pr_bucket pr) (ob_Key obj) archivePath of
                      Inl e \<Rightarrow> (Some e, w)
                    | Inr sz \<Rightarrow> (None, w_part (Page ((page archivePath (up_Size U sz))\<lparr>pg_ArchivePath := archivePath\<rparr>)) w)))
         else (let key = file_base (ob_Key obj)
               in (None, w_part (Page ((page key (up_Size U (ob_ContentLength obj)))
                     \<lparr>pg_ShowViewContents := has_suffix key ''.zip''\<rparr>)) w)))"

definition showObject :: "('a, 'l) sharing_lib \<Rightarrow> sharing_config \<Rightarrow> (string \<Rightarrow> err + 'l) option \<Rightarrow> http_req
    \<Rightarrow> 'a parsed_request \<Rightarrow> up_object \<Rightarrow> http_range option \<Rightarrow> writer \<Rightarrow> err option \<times> writer" where
  "showObject U C mapper r pr obj rng w0 =
     (let q = hr_Query r;
          mapOnly = queryFlagLookup q ''map'' False;
          download = q_download pr q;
          archivePath = q_path q;
          w = (if download
               then w_set ''Content-Disposition''
                      (''attachment; filename='' @ (if archivePath \<noteq> [] then archivePath else file_base (ob_Key obj))) w0
               else w0)
      in if (download \<or> \<not> q_wrap pr q) \<and> \<not> mapOnly
         then (if archivePath \<noteq> [] then show_archived U C r pr obj archivePath w
               else serve_content U (pr_access pr) r (pr_bucket pr) obj (SObject rng)
                      (w\<lparr>wr_Header := setHeaders C (up_mime U) r (ob_Custom obj) (pr_hosting pr) (file_base (ob_Key obj))
                           (wr_Header w)\<rparr>))
         else if archivePath = ''/'' then servePrefix U pr archivePath w
         else case getLocations U mapper (pr_access pr) (pr_bucket pr) (ob_Key obj) of
           Inl e \<Rightarrow> (Some (with_action e ''get locations''), w)
         | Inr (locations, pieces) \<Rightarrow>
             if mapOnly then serveMap U locations pieces obj q w
             else show_page U pr obj archivePath locations w)"

end
