(* ===== verification/Linksharing.thy ===== *)
theory Linksharing
  imports Sharing
begin

section \<open>The handler of linksharing (pkg/linksharing/sharing: present.go, standard.go, hosting.go, handler.go)\<close>

text \<open>
  From the request to the object: the two services (paths of the public domain with an access, and
  hosted domains with an access in their TXT records), the search for the object of a key, and the
  mapping of errors to answers.  A handler returns its error and the response; the outer result
  \<open>None\<close> is a panic or a request to the authentication service that does not return.
\<close>

type_synonym answer_err = "err option \<times> writer"

subsection \<open>Finding the object (present.go)\<close>

definition isPrefix :: "('a, 'l) sharing_lib \<Rightarrow> 'a parsed_request \<Rightarrow> err + bool" where
  "isPrefix U pr =
     (case up_Stat U (pr_access pr) (pr_bucket pr) (pr_realKey pr @ ''/index.html'') of
        Inr _ \<Rightarrow> Inr True
      | Inl e \<Rightarrow>
          if \<not> is_err ObjectNotFound e then Inl (with_action e ''prefix determination stat'')
          else (case up_List U (pr_access pr) (pr_bucket pr) (pr_realKey pr @ ''/'') True of
             (items, None) \<Rightarrow> Inr (items \<noteq> [])
           | (items, Some e) \<Rightarrow>
               if is_err PermissionDenied e then Inr False
               else Inl (with_action e ''prefix determination list'')))"

definition present_prefix :: "('a, 'l) sharing_lib \<Rightarrow> sharing_config \<Rightarrow> (string \<Rightarrow> err + 'l) option \<Rightarrow> http_req
    \<Rightarrow> 'a parsed_request \<Rightarrow> writer \<Rightarrow> answer_err" where
  "present_prefix U C mapper r pr w =
     (case up_Stat U (pr_access pr) (pr_bucket pr) (pr_realKey pr) of
        Inr obj \<Rightarrow> showObject U C mapper r pr obj None w
      | Inl e \<Rightarrow>
          if \<not> is_err ObjectNotFound e then (Some (with_action e ''stat object''), w)
          else (case up_Stat U (pr_access pr) (pr_bucket pr) (pr_realKey pr @ ''index.html'') of
             Inr obj \<Rightarrow> showObject U C mapper r pr obj None w
           | Inl e \<Rightarrow>
               if \<not> is_err ObjectNotFound e then (Some (with_action e ''stat object - index.html''), w)
               else servePrefix U pr [] w))"

text \<open>A key that may be an object or a prefix: \<open>try_stat\<close> is what follows the attempt to download it.\<close>

definition redirect_or :: "('a, 'l) sharing_lib \<Rightarrow> http_req \<Rightarrow> 'a parsed_request \<Rightarrow> err \<Rightarrow> writer \<Rightarrow> answer_err" where
  "redirect_or U r pr objectErr w =
     (case isPrefix U pr of
        Inl e \<Rightarrow> (Some e, w)
      | Inr True \<Rightarrow> (None, w_redirect (hr_Path r @ ''/'') 303 w)
      | Inr False \<Rightarrow> (Some objectErr, w))"

definition try_stat :: "('a, 'l) sharing_lib \<Rightarrow> sharing_config \<Rightarrow> (string \<Rightarrow> err + 'l) option \<Rightarrow> http_req
    \<Rightarrow> 'a parsed_request \<Rightarrow> err option \<Rightarrow> writer \<Rightarrow> answer_err" where
  "try_stat U C mapper r pr objectErr w =
     (case objectErr of
        Some oe \<Rightarrow>
          if is_err ObjectNotFound oe then redirect_or U r pr oe w
          else (case up_Stat U (pr_access pr) (pr_bucket pr) (pr_realKey pr) of
             Inr obj \<Rightarrow> showObject U C mapper r pr obj None w
           | Inl e \<Rightarrow>
               if \<not> is_err ObjectNotFound e then (Some (with_action e ''stat object''), w)
               else redirect_or U r pr (with_action e ''stat object'') w)
      | None \<Rightarrow>
          (case up_Stat U (pr_access pr) (pr_bucket pr) (pr_realKey pr) of
             Inr obj \<Rightarrow> showObject U C mapper r pr obj None w
           | Inl e \<Rightarrow>
               if \<not> is_err ObjectNotFound e then (Some (with_action e ''stat object''), w)
               else redirect_or U r pr (with_action e ''stat object'') w))"

definition present_key :: "('a, 'l) sharing_lib \<Rightarrow> sharing_config \<Rightarrow> (string \<Rightarrow> err + 'l) option \<Rightarrow> http_req
    \<Rightarrow> 'a parsed_request \<Rightarrow> writer \<Rightarrow> answer_err" where
  "present_key U C mapper r pr w =
     (let q = hr_Query r
      in case predictRange (header_get (hr_Header r) ''Range'') of
        Inl _ \<Rightarrow> try_stat U C mapper r pr None w
      | Inr options \<Rightarrow>
          if (q_download pr q \<or> \<not> q_wrap pr q) \<and> \<not> queryFlagLookup q ''map'' False \<and> q_path q = []
          then (case up_Download U (pr_access pr) (pr_bucket pr) (pr_realKey pr) options of
             Inr obj \<Rightarrow> showObject U C mapper r pr obj (Some (optionsToRange (ob_ContentLength obj) options)) w
           | Inl e \<Rightarrow>
               if is_err PermissionDenied e \<or> is_err BandwidthLimitExceeded e
               then (Some (with_action e ''download object''), w)
               else try_stat U C mapper r pr (Some (with_action e ''download object'')) w)
          else try_stat U C mapper r pr None w)"

definition present_root :: "('a, 'l) sharing_lib \<Rightarrow> sharing_config \<Rightarrow> (string \<Rightarrow> err + 'l) option \<Rightarrow> http_req
    \<Rightarrow> 'a parsed_request \<Rightarrow> writer \<Rightarrow> answer_err" where
  "present_root U C mapper r pr w =
     (case up_Stat U (pr_access pr) (pr_bucket pr) (pr_realKey pr @ ''index.html'') of
        Inr obj \<Rightarrow> showObject U C mapper r pr obj None w
      | Inl e \<Rightarrow>
          if \<not> is_err ObjectNotFound e then (Some (with_action e ''stat object - index.html''), w)
          else if \<not> has_suffix (hr_Path r) ''/'' then (None, w_redirect (hr_Path r @ ''/'') 303 w)
          else servePrefix U pr [] w)"

definition presentWithProject :: "('a, 'l) sharing_lib \<Rightarrow> sharing_config \<Rightarrow> (string \<Rightarrow> err + 'l) option \<Rightarrow> http_req
    \<Rightarrow> 'a parsed_request \<Rightarrow> writer \<Rightarrow> answer_err option" where
  "presentWithProject U C mapper r pr w =
     (case GetClientIP (sc_trustedClientIPs C) (hr_RemoteAddr r) (hr_Header r) of
        None \<Rightarrow> None
      | Some _ \<Rightarrow>
          Some (if has_suffix (pr_realKey pr) ''/'' then present_prefix U C mapper r pr w
                else if pr_realKey pr \<noteq> [] then present_key U C mapper r pr w
                else present_root U C mapper r pr w))"

definition present :: "('a, 'l) sharing_lib \<Rightarrow> sharing_config \<Rightarrow> (string \<Rightarrow> err + 'l) option \<Rightarrow> http_req
    \<Rightarrow> 'a parsed_request \<Rightarrow> writer \<Rightarrow> answer_err option" where
  "present U C mapper r pr w =
     (case up_OpenProject U (pr_access pr) of
        Some e \<Rightarrow> Some (Some (with_status (with_action e ''open project'') 400), w)
      | None \<Rightarrow> presentWithProject U C mapper r pr w)"

subsection \<open>Requests with an access in the path (standard.go)\<close>

definition standard_bad :: "string \<Rightarrow> err" where
  "standard_bad m = with_status (Message m) 400"

definition standard_request :: "'a \<Rightarrow> string \<Rightarrow> string \<Rightarrow> string \<Rightarrow> bool \<Rightarrow> 'a parsed_request" where
  "standard_request access serializedAccess bucket realKey framed =
     \<lparr>pr_access = access, pr_serializedAccess = serializedAccess, pr_bucket = bucket, pr_realKey = realKey,
      pr_visibleKey = realKey, pr_title = bucket,
      pr_root = \<lparr>bc_Prefix = bucket, bc_URL = ''/s/'' @ serializedAccess @ ''/'' @ bucket @ ''/''\<rparr>,
      pr_wrapDefault = framed, pr_downloadDefault = False, pr_hosting = False, pr_hostingTLS = False\<rparr>"

definition standard_access :: "'a access_lib \<Rightarrow> 'c auth_env \<Rightarrow> ('a, 'l) sharing_lib \<Rightarrow> sharing_config
    \<Rightarrow> (string \<Rightarrow> err + 'l) option \<Rightarrow> time \<Rightarrow> http_req \<Rightarrow> string \<Rightarrow> string \<Rightarrow> string \<Rightarrow> bool \<Rightarrow> writer \<Rightarrow> 'c
    \<Rightarrow> (answer_err \<times> 'c) option" where
  "standard_access A E U C mapper now r serializedAccess bucket realKey framed w c =
     (case GetClientIP (sc_trustedClientIPs C) (hr_RemoteAddr r) (hr_Header r) of
        None \<Rightarrow> None
      | Some clientIP \<Rightarrow>
          (case parseAccess A E now (Some r) serializedAccess (15 * 60 * 1000000000) clientIP c of
             None \<Rightarrow> None
           | Some (Inl e, d) \<Rightarrow> Some ((Some e, w), d)
           | Some (Inr access, d) \<Rightarrow>
               map_option (\<lambda>a. (a, d))
                 (present U C mapper r (standard_request access serializedAccess bucket realKey framed) w)))"

definition handleStandard :: "'a access_lib \<Rightarrow> 'c auth_env \<Rightarrow> ('a, 'l) sharing_lib \<Rightarrow> sharing_config
    \<Rightarrow> (string \<Rightarrow> err + 'l) option \<Rightarrow> time \<Rightarrow> http_req \<Rightarrow> writer \<Rightarrow> 'c
    \<Rightarrow> (answer_err \<times> 'c) option" where
  "handleStandard A E U C mapper now r w c =
     (let path = trim_prefix (hr_Path r) ''/'';
          go = (\<lambda>rest framed. case splitn 3 CHR ''/'' rest of
              [a] \<Rightarrow> Some ((Some (standard_bad (if a = [] then ''missing access'' else ''missing bucket'')), w), c)
            | [a, b] \<Rightarrow> standard_access A E U C mapper now r a b [] framed w c
            | [a, b, k] \<Rightarrow> standard_access A E U C mapper now r a b k framed w c
            | _ \<Rightarrow> Some ((Some (Message ''unreachable''), w), c))
      in if has_prefix path ''raw/'' then go (drop 4 path) False
         else if has_prefix path ''s/'' then go (drop 2 path) True
         else Some ((None, w_redirect (path_query_String (''/s/'' @ path) (hr_RawQuery r)) 303 w), c))"

subsection \<open>Hosted domains (hosting.go)\<close>

definition determineBucketAndObjectKey :: "string \<Rightarrow> string \<Rightarrow> string \<times> string" where
  "determineBucketAndObjectKey root urlPath =
     (let parts = splitn 2 CHR ''/'' root;
          pre = (case parts of [_, p] \<Rightarrow> p | _ \<Rightarrow> []);
          pre1 = (if pre \<noteq> [] \<and> \<not> has_suffix pre ''/'' then pre @ ''/'' else pre)
      in (hd parts, pre1 @ trim_prefix urlPath ''/''))"

definition hosting_request :: "'a txt_result \<Rightarrow> string \<Rightarrow> http_req \<Rightarrow> 'a parsed_request" where
  "hosting_request res host r =
     (let (bucket, key) = determineBucketAndObjectKey (tr_Root res) (hr_Path r);
          visibleKey = trim_prefix (hr_Path r) ''/''
      in \<lparr>pr_access = tr_Access res, pr_serializedAccess = [], pr_bucket = bucket,
          pr_realKey = (if visibleKey = [] then key @ ''index.html'' else key),
          pr_visibleKey = visibleKey, pr_title = host, pr_root = \<lparr>bc_Prefix = host, bc_URL = ''/''\<rparr>,
          pr_wrapDefault = False, pr_downloadDefault = False, pr_hosting = True, pr_hostingTLS = tr_TLS res\<rparr>)"

definition present_hosting :: "('a, 'l) sharing_lib \<Rightarrow> sharing_config \<Rightarrow> (string \<Rightarrow> err + 'l) option \<Rightarrow> http_req \<Rightarrow> string
    \<Rightarrow> 'a txt_result \<Rightarrow> writer \<Rightarrow> answer_err option" where
  "present_hosting U C mapper r host res w =
     (case up_OpenProject U (tr_Access res) of
        Some e \<Rightarrow> Some (Some (with_action e ''open project''), w)
      | None \<Rightarrow>
          (case presentWithProject U C mapper r (hosting_request res host r) w of
             None \<Rightarrow> None
           | Some (None, w1) \<Rightarrow> Some (None, w1)
           | Some (Some e, w1) \<Rightarrow>
               if \<not> is_err ObjectNotFound e then Some (Some e, w1)
               else let (bucket, key) = determineBucketAndObjectKey (tr_Root res) ''/404.html''
                    in case up_Download U (tr_Access res) bucket key None of
                      Inl e \<Rightarrow> Some (Some (with_action e ''download 404''), w1)
                    | Inr _ \<Rightarrow>
                        Some (map_option (\<lambda>x. with_action x ''serve 404'') (up_Copy U (tr_Access res) bucket key),
                              w_part (NotFoundPage bucket key) (w_status 404 w1))))"

definition handleHostingService :: "'a access_lib \<Rightarrow> 'c auth_env \<Rightarrow> ('a, 'l) sharing_lib \<Rightarrow> sharing_config
    \<Rightarrow> (string \<Rightarrow> err + 'l) option \<Rightarrow> (string \<Rightarrow> err + dns_rr list) \<Rightarrow> time \<Rightarrow> http_req \<Rightarrow> writer
    \<Rightarrow> 'a txt_cache \<times> 'c \<Rightarrow> (answer_err \<times> pending option \<times> 'a txt_cache \<times> 'c) option" where
  "handleHostingService A E U C mapper dns now r w st =
     (case SplitHostPort (hr_Host r) of
        BadAddr m \<Rightarrow> Some ((Some (with_status (Message m) 400), w), None, st)
      | s \<Rightarrow>
          (let host = (case s of HostPort h \<Rightarrow> h | _ \<Rightarrow> hr_Host r)
           in case GetClientIP (sc_trustedClientIPs C) (hr_RemoteAddr r) (hr_Header r) of
             None \<Rightarrow> None
           | Some ip \<Rightarrow>
               (case FetchAccessForHost A E (sc_txtTTL C) dns now host ip st of
                  None \<Rightarrow> None
                | Some (Inl e, p, t) \<Rightarrow> Some ((Some (with_action e ''fetch access''), w), p, t)
                | Some (Inr res, p, t) \<Rightarrow>
                    map_option (\<lambda>a. (a, p, t)) (present_hosting U C mapper r host res w))))"

subsection \<open>The handler (handler.go)\<close>

text \<open>A parsed URL base: its scheme, host, user, query and fragment.\<close>

record base_url =
  bu_Scheme :: string
  bu_Host :: string
  bu_User :: bool
  bu_RawQuery :: string
  bu_Fragment :: string

definition parseURLBase :: "(string \<Rightarrow> err + base_url) \<Rightarrow> string \<Rightarrow> err + base_url" where
  "parseURLBase parse s =
     (case parse s of
        Inl e \<Rightarrow> Inl e
      | Inr u \<Rightarrow>
          if bu_Scheme u \<noteq> ''http'' \<and> bu_Scheme u \<noteq> ''https'' then Inl (Message ''URL base must be http:// or https://'')
          else if bu_Host u = [] then Inl (Message ''URL base must contain host'')
          else if bu_User u then Inl (Message ''URL base must not contain user info'')
          else if bu_RawQuery u \<noteq> [] then Inl (Message ''URL base must not contain query values'')
          else if bu_Fragment u \<noteq> [] then Inl (Message ''URL base must not contain a fragment'')
          else Inr u)"

definition compareHosts :: "string \<Rightarrow> string \<Rightarrow> err + bool" where
  "compareHosts addr1 addr2 =
     (let host = (\<lambda>a. case SplitHostPort a of HostPort h \<Rightarrow> Inr h | MissingPort \<Rightarrow> Inr a | BadAddr m \<Rightarrow> Inl (Message m))
      in case host addr1 of
           Inl e \<Rightarrow> Inl e
         | Inr host1 \<Rightarrow> (case host addr2 of Inl e \<Rightarrow> Inl e | Inr host2 \<Rightarrow> Inr (host1 = host2)))"

fun isDomainOurs :: "string \<Rightarrow> string list \<Rightarrow> err + bool" where
  "isDomainOurs host [] = Inr False"
| "isDomainOurs host (base # bases) =
     (case compareHosts host base of
        Inl e \<Rightarrow> Inl e
      | Inr ours \<Rightarrow> if ours then Inr True else isDomainOurs host bases)"

definition cors :: "writer \<Rightarrow> writer" where
  "cors w = w_set ''Access-Control-Allow-Headers'' ''*''
     (w_set ''Access-Control-Allow-Methods'' ''GET, HEAD'' (w_set ''Access-Control-Allow-Origin'' ''*'' w))"

definition healthProcess :: "bool \<Rightarrow> (bytes \<Rightarrow> err option) \<Rightarrow> writer \<Rightarrow> answer_err" where
  "healthProcess inShutdown write w =
     (if inShutdown then (None, w_part (Text ''down'') (w_status 503 w))
      else (write ''okay'', w_part (Text ''okay'') w))"

text \<open>
  \<open>https_URL\<close> is \<open>url.ParseRequestURI\<close> and the text of its result with the scheme https.
\<close>

definition serveHTTP :: "'a access_lib \<Rightarrow> 'c auth_env \<Rightarrow> ('a, 'l) sharing_lib \<Rightarrow> sharing_config
    \<Rightarrow> (string \<Rightarrow> err + 'l) option \<Rightarrow> (string \<Rightarrow> err + dns_rr list) \<Rightarrow> (string \<Rightarrow> string option) \<Rightarrow> bool \<Rightarrow> time \<Rightarrow> http_req
    \<Rightarrow> writer \<Rightarrow> 'a txt_cache \<times> 'c \<Rightarrow> (answer_err \<times> pending option \<times> 'a txt_cache \<times> 'c) option" where
  "serveHTTP A E U C mapper dns https_URL inShutdown now r w0 st =
     (if hr_Method r = ''OPTIONS'' then Some ((None, cors w0), None, st)
      else if hr_Method r \<noteq> ''HEAD'' \<and> hr_Method r \<noteq> ''GET''
      then Some ((Some (with_status (Message ''method not allowed'') 405), w0), None, st)
      else let w = cors w0
      in case isDomainOurs (hr_Host r) (sc_urlBases C) of
           Inl e \<Rightarrow> Some ((Some e, w), None, st)
         | Inr False \<Rightarrow> handleHostingService A E U C mapper dns now r w st
         | Inr True \<Rightarrow>
             if sc_redirectHTTPS C \<and> hr_Scheme r = ''http'' then
               (case https_URL (hr_RequestURI r) of
                  None \<Rightarrow> Some ((Some (with_status (Message ''invalid request URI'') 500), w), None, st)
                | Some u \<Rightarrow> Some ((None, w_redirect u 308 w), None, st))
             else if has_prefix (hr_Path r) ''/static/'' then
               Some ((None, w_part (StaticFile (drop 8 (hr_Path r))) w), None, st)
             else if has_prefix (hr_Path r) ''/health/process'' then
               Some (healthProcess inShutdown (up_Write U) w, None, st)
             else if sc_landingRedirect C \<noteq> [] \<and> (hr_Path r = [] \<or> hr_Path r = ''/'') then
               Some ((None, w_redirect (sc_landingRedirect C) 303 w), None, st)
             else map_option (\<lambda>(a, d). (a, None, (fst st, d))) (handleStandard A E U C mapper now r w (snd st)))"

text \<open>
  The answer to an error: its status, the message of the error page, and whether no page is
  rendered.  \<open>canceled\<close> says that the context of the request has been canceled.
\<close>

definition error_answer :: "bool \<Rightarrow> err \<Rightarrow> int \<times> string \<times> bool" where
  "error_answer canceled e =
     (if is_err BucketNotFound e then (404, ''Oops! Bucket not found.'', False)
      else if is_err ObjectNotFound e then (404, ''Oops! Object not found.'', False)
      else if is_err BucketNameInvalid e then (400, ''Oops! Invalid bucket name.'', False)
      else if is_err ObjectKeyInvalid e then (400, ''Oops! Invalid object key.'', False)
      else if is_err PermissionDenied e then (403, ''Access denied.'', False)
      else if is_err BandwidthLimitExceeded e then (429, ''Oops! Bandwidth limit exceeded.'', False)
      else if is_err TooManyRequests e then (429, ''Oops! Rate limited due too many request.'', False)
      else if is_err ContextCanceled e \<and> canceled then (HTTPStatusClientClosedRequest, ''Client closed request.'', True)
      else if has_class InvalidRange e then (416, ''Range header isn't compatible with path query.'', False)
      else let status = get_status (Some e) 500
           in (status,
               (if status = 401 \<or> status = 403 then ''Access denied.''
                else if status = 404 then ''Not found.''
                else if status = 400 \<or> status = 405 then ''Malformed request. Please try again.''
                else if status = 416 then ''Range header isn't compatible with path query.''
                else if status = 415 then ''The zip archive is invalid or uses the wrong compression format.''
                else ''Internal server error. Please try again later.''), False))"

definition w_delete :: "string \<Rightarrow> writer \<Rightarrow> writer" where
  "w_delete k w = w\<lparr>wr_Header := filter (\<lambda>(n, _). \<not> equal_fold n k) (wr_Header w)\<rparr>"

definition handle_error :: "bool \<Rightarrow> err \<Rightarrow> writer \<Rightarrow> writer" where
  "handle_error canceled e w =
     (let (status, message, skipRendering) = error_answer canceled e;
          w1 = w_status status (w_delete ''Content-Disposition'' w)
      in if skipRendering then w1
         else w_part (Page (blank_page ''error.html'' (ErrorData message) ''Error'')) w1)"

definition ServeHTTP :: "'a access_lib \<Rightarrow> 'c auth_env \<Rightarrow> ('a, 'l) sharing_lib \<Rightarrow> sharing_config
    \<Rightarrow> (string \<Rightarrow> err + 'l) option \<Rightarrow> (string \<Rightarrow> err + dns_rr list) \<Rightarrow> (string \<Rightarrow> string option) \<Rightarrow> bool \<Rightarrow> bool \<Rightarrow> time
    \<Rightarrow> http_req \<Rightarrow> 'a txt_cache \<times> 'c \<Rightarrow> (writer \<times> pending option \<times> 'a txt_cache \<times> 'c) option" where
  "ServeHTTP A E U C mapper dns https_URL inShutdown canceled now r st =
     (case serveHTTP A E U C mapper dns https_URL inShutdown now r \<lparr>wr_Header = [], wr_Status = None, wr_Parts = []\<rparr> st of
        None \<Rightarrow> None
      | Some ((None, w), p, t) \<Rightarrow> Some (w, p, t)
      | Some ((Some e, w), p, t) \<Rightarrow> Some (handle_error canceled e w, p, t))"

end
