(* ===== verification/Linksharing_Facts.thy ===== *)
theory Linksharing_Facts
  imports Linksharing
begin

section \<open>What linksharing shows: safe content, confined sites, mapped errors\<close>

text \<open>
  The properties of the handler: content on the public domain is never rendered as a page, a hosted
  domain shows only what lies under its root, and every error becomes the answer it should.
\<close>

subsection \<open>Content on the public domain\<close>

text \<open>
  A part of a response is safe if it is not content, or content without a type of HTML, unless that
  is configured, and with a type that may be shown inline or as an attachment, unless rendering is
  configured.
\<close>

definition safe_header :: "sharing_config \<Rightarrow> header \<Rightarrow> bool" where
  "safe_header C h =
     ((sc_standardViewsHTML C \<or> \<not> contains (to_lower (header_get h ''Content-Type'')) ''html'')
      \<and> (sc_standardRendersContent C \<or> allowedInlineType (header_get h ''Content-Type'')
         \<or> has_prefix (header_get h ''Content-Disposition'') ''attachment''))"

fun safe_part :: "sharing_config \<Rightarrow> part \<Rightarrow> bool" where
  "safe_part C (Content h b obj s) = safe_header C h"
| "safe_part C _ = True"

abbreviation safe :: "sharing_config \<Rightarrow> writer \<Rightarrow> bool" where
  "safe C w \<equiv> list_all (safe_part C) (wr_Parts w)"

lemma parts_status [simp]: "wr_Parts (w_status st w) = wr_Parts w" "wr_Header (w_status st w) = wr_Header w"
  by (simp_all add: w_status_def split: option.splits)

lemma parts_set [simp]: "wr_Parts (w_set k v w) = wr_Parts w" "wr_Header (w_set k v w) = header_set k v (wr_Header w)"
  by (simp_all add: w_set_def)

lemma parts_part [simp]: "wr_Parts (w_part p w) = wr_Parts w @ [p]" "wr_Header (w_part p w) = wr_Header w"
  by (simp_all add: w_part_def)

lemma parts_redirect [simp]: "wr_Parts (w_redirect u st w) = wr_Parts w @ [Redirected u]"
  by (simp add: w_redirect_def)

lemma names_differ [simp]:
  "\<not> equal_fold ''Cache-Control'' ''Content-Type''" "\<not> equal_fold ''Content-Encoding'' ''Content-Type''"
  "\<not> equal_fold ''Content-Disposition'' ''Content-Type''" "\<not> equal_fold ''Cache-Control'' ''Content-Disposition''"
  "\<not> equal_fold ''Content-Encoding'' ''Content-Disposition''" "\<not> equal_fold ''Content-Type'' ''Content-Disposition''"
  by (simp_all add: equal_fold_def to_lower_def lower_char_def)

lemma safe_set_other:
  "safe_header C h \<Longrightarrow> k = ''Cache-Control'' \<or> k = ''Content-Encoding'' \<Longrightarrow> safe_header C (header_set k v h)"
  by (auto simp: safe_header_def)

lemma plain_types:
  "\<not> contains (to_lower ''text/plain'') ''html''" "\<not> contains (to_lower ''application/octet-stream'') ''html''"
  by (simp_all add: to_lower_def lower_char_def)

lemma attachment_prefix: "has_prefix (''attachment; filename='' @ f) ''attachment''"
  by simp

lemma safe_setHeaders: "safe_header C (setHeaders C mime r metadata False filename h)"
proof -
  define ct where "ct = contentType mime filename metadata (\<not> hasValue (hr_Header r) ''X-Content-Type-Options'' ''nosniff'')"
  define ct1 where "ct1 = (if ct \<noteq> [] \<and> \<not> sc_standardViewsHTML C \<and> contains (to_lower ct) ''html'' then ''text/plain'' else ct)"
  define type where "type = (if ct = [] then ''application/octet-stream'' else ct1)"
  define h1 where "h1 = header_set ''Content-Type'' type h"
  define h2 where "h2 = (if \<not> sc_standardRendersContent C \<and> \<not> allowedInlineType ct1
     then header_set ''Content-Disposition'' (''attachment; filename='' @ filename) h1 else h1)"
  have type: "header_get h2 ''Content-Type'' = type" by (simp add: h2_def h1_def)
  have "sc_standardViewsHTML C \<or> \<not> contains (to_lower type) ''html''"
    using plain_types by (auto simp: type_def ct1_def)
  moreover have "sc_standardRendersContent C \<or> allowedInlineType type
      \<or> has_prefix (header_get h2 ''Content-Disposition'') ''attachment''"
  proof (cases "sc_standardRendersContent C \<or> allowedInlineType ct1")
    case True
    moreover have "ct1 \<noteq> []" if "allowedInlineType ct1" using that by (auto simp: allowedInlineType_def)
    ultimately show ?thesis by (auto simp: type_def ct1_def)
  next
    case False
    then have "header_get h2 ''Content-Disposition'' = ''attachment; filename='' @ filename" by (simp add: h2_def)
    then show ?thesis using attachment_prefix by (simp only: simp_thms)
  qed
  ultimately have "safe_header C h2" unfolding safe_header_def type by blast
  moreover define put where "put k v g = (if v \<noteq> [] then header_set k v g else g)" for k v :: string and g :: header
  ultimately have "safe_header C (put ''Content-Encoding'' ce (put ''Cache-Control'' cc h2))" for ce cc
    using safe_set_other by (simp only: put_def if_split simp_thms)
  moreover have "setHeaders C mime r metadata False filename h =
      put ''Content-Encoding'' (metadataHeaderValue metadata ''Content-Encoding'')
        (put ''Cache-Control'' (metadataHeaderValue metadata ''Cache-Control'') h2)"
    unfolding setHeaders_def Let_def put_def h2_def h1_def type_def ct1_def ct_def by (simp only: simp_thms)
  ultimately show ?thesis by simp
qed

lemma safe_serve: "serve_content U access r b obj s w = (e, v) \<Longrightarrow> safe C w \<Longrightarrow> safe_header C (wr_Header w) \<Longrightarrow> safe C v"
  by (auto simp: serve_content_def)

lemma safe_servePrefix: "servePrefix U pr archivePath w = (e, v) \<Longrightarrow> safe C w \<Longrightarrow> safe C v"
  by (auto simp: servePrefix_def Let_def split: option.splits if_splits prod.splits)

lemma safe_serveMap: "serveMap U ls pieces obj q w = (e, v) \<Longrightarrow> safe C w \<Longrightarrow> safe C v"
  by (auto simp: serveMap_def Let_def split: sum.splits)

lemma safe_show_page: "show_page U pr obj path ls w = (e, v) \<Longrightarrow> safe C w \<Longrightarrow> safe C v"
  by (auto simp: show_page_def Let_def split: sum.splits option.splits if_splits prod.splits)

lemma safe_show_archived:
  assumes "\<not> pr_hosting pr" and "show_archived U C r pr obj path w = (e, v)" and "safe C w"
  shows "safe C v"
proof -
  let ?w1 = "w\<lparr>wr_Header := setHeaders C (up_mime U) r (ob_Custom obj) (pr_hosting pr) path (wr_Header w)\<rparr>"
  have h: "safe_header C (wr_Header ?w1)" using assms(1) by (simp add: safe_setHeaders)
  then have "safe_header C (wr_Header (w_set ''Content-Encoding'' ''gzip'' ?w1))"
    unfolding parts_set by (rule safe_set_other) simp
  with h show ?thesis
    using assms(2,3) unfolding show_archived_def Let_def
    by (auto intro: safe_serve split: if_splits sum.splits)
qed

lemma safe_showObject:
  assumes "\<not> pr_hosting pr" and "showObject U C mapper r pr obj rng w = (e, v)" and "safe C w"
  shows "safe C v"
proof -
  define w1 where "w1 = (if q_download pr (hr_Query r)
     then w_set ''Content-Disposition'' (''attachment; filename='' @ (if q_path (hr_Query r) \<noteq> [] then q_path (hr_Query r) else file_base (ob_Key obj))) w
     else w)"
  have "safe C w1" using assms(3) by (simp add: w1_def)
  moreover have "safe_header C (setHeaders C (up_mime U) r (ob_Custom obj) (pr_hosting pr) (file_base (ob_Key obj)) (wr_Header w1))"
    using assms(1) by (simp add: safe_setHeaders)
  ultimately show ?thesis
    using assms(2) safe_show_archived [OF assms(1)]
    unfolding showObject_def Let_def w1_def [symmetric]
    by (auto intro: safe_serve safe_servePrefix safe_serveMap safe_show_page split: if_splits sum.splits prod.splits)
qed

lemma safe_redirect_or: "redirect_or U r pr oe w = (e, v) \<Longrightarrow> safe C w \<Longrightarrow> safe C v"
  by (auto simp: redirect_or_def split: sum.splits bool.splits)

lemma safe_try_stat:
  "\<not> pr_hosting pr \<Longrightarrow> try_stat U C mapper r pr oe w = (e, v) \<Longrightarrow> safe C w \<Longrightarrow> safe C v"
  by (auto simp: try_stat_def intro: safe_showObject safe_redirect_or split: option.splits if_splits sum.splits)

lemma safe_present_key:
  "\<not> pr_hosting pr \<Longrightarrow> present_key U C mapper r pr w = (e, v) \<Longrightarrow> safe C w \<Longrightarrow> safe C v"
  by (auto simp: present_key_def Let_def intro: safe_showObject safe_try_stat split: if_splits sum.splits)

lemma safe_present_prefix:
  "\<not> pr_hosting pr \<Longrightarrow> present_prefix U C mapper r pr w = (e, v) \<Longrightarrow> safe C w \<Longrightarrow> safe C v"
  by (auto simp: present_prefix_def intro: safe_showObject safe_servePrefix split: if_splits sum.splits)

lemma safe_present_root:
  "\<not> pr_hosting pr \<Longrightarrow> present_root U C mapper r pr w = (e, v) \<Longrightarrow> safe C w \<Longrightarrow> safe C v"
  by (auto simp: present_root_def intro: safe_showObject safe_servePrefix split: if_splits sum.splits)

lemma safe_present:
  assumes "\<not> pr_hosting pr" and "present U C mapper r pr w = Some (e, v)" and "safe C w"
  shows "safe C v"
  using assms safe_present_key safe_present_prefix safe_present_root
  by (auto simp: present_def presentWithProject_def split: option.splits if_splits)

lemma standard_not_hosting [simp]: "\<not> pr_hosting (standard_request access a b k framed)"
  by (simp add: standard_request_def)

lemma safe_handleStandard:
  assumes "handleStandard A E U C mapper now r w c = Some ((e, v), d)" and "safe C w"
  shows "safe C v"
proof -
  have acc: "safe C v" if "standard_access A E U C mapper now r a b k framed w c = Some ((e, v), d)" for a b k framed
  proof -
    show ?thesis
      using that assms(2)
      by (auto simp: standard_access_def intro: safe_present [rotated] split: option.splits sum.splits prod.splits)
  qed
  show ?thesis
    using assms by (auto simp: handleStandard_def Let_def intro: acc split: if_splits list.splits)
qed

lemma safe_handle_error: "safe C w \<Longrightarrow> safe C (handle_error canceled e w)"
  by (auto simp: handle_error_def w_delete_def Let_def split: prod.splits)

text \<open>
  C18: on the public domain no object is ever rendered as a page.  Whatever the request and the
  object's metadata, the content in a response to a request for one of the server's own hosts has no
  type of HTML, unless that is configured, and either one of the types that are allowed inline or it
  comes as an attachment, unless rendering is configured.
\<close>

theorem public_domain_serves_safe_content:
  assumes "ServeHTTP A E U C mapper dns https_URL inShutdown canceled now r st = Some (w, p, t)"
    and "isDomainOurs (hr_Host r) (sc_urlBases C) = Inr True"
  shows "\<forall>x \<in> set (wr_Parts w). safe_part C x"
proof -
  let ?w0 = "\<lparr>wr_Header = [], wr_Status = None, wr_Parts = []\<rparr> :: writer"
  have cors: "wr_Parts (cors w) = wr_Parts w" for w by (simp add: cors_def)
  have "safe C v" if "serveHTTP A E U C mapper dns https_URL inShutdown now r ?w0 st = Some ((e, v), p, t)" for e v
    using that assms(2) unfolding serveHTTP_def Let_def
    by (auto simp: cors healthProcess_def dest!: safe_handleStandard [where C = C] split: if_splits option.splits)
  then have "safe C w"
    using assms(1) by (auto simp: ServeHTTP_def intro: safe_handle_error split: option.splits prod.splits)
  then show ?thesis by (simp add: list_all_iff)
qed

definition demo_object :: up_object where
  "demo_object = \<lparr>ob_Key = ''x.html'', ob_Created = 0, ob_ContentLength = 5, ob_Custom = [(''content-type'', ''Text/HTML'')]\<rparr>"

definition demo_sharing :: "(string, unit) sharing_lib" where
  "demo_sharing = \<lparr>up_OpenProject = (\<lambda>_. None), up_Stat = (\<lambda>_ _ _. Inr demo_object),
     up_Download = (\<lambda>_ _ _ _. Inr demo_object), up_Copy = (\<lambda>_ _ _. None), up_List = (\<lambda>_ _ _ _. ([], None)),
     up_OpenPack = (\<lambda>_ _ _. None), up_PackList = (\<lambda>_ _ _. []), up_FileInfo = (\<lambda>_ _ _ _. Inr 0),
     up_OpenFile = (\<lambda>_ _ _ _ _. Inr False), up_IPSummary = (\<lambda>_ _ _. Inr ([], 0)), up_EncodeSVG = (\<lambda>_ _ _. Inr []),
     up_Serve = (\<lambda>_ _ _ _ _ _. None), up_Write = (\<lambda>_. None), up_Size = (\<lambda>_. []), up_MB = 1000000, up_mime = (\<lambda>_. [])\<rparr>"

definition demo_sharing_config :: sharing_config where
  "demo_sharing_config = \<lparr>sc_urlBases = [''link.example''], sc_baseURL = ''https://link.example'', sc_redirectHTTPS = False,
     sc_landingRedirect = [], sc_trustedClientIPs = NewListUntrustAll, sc_standardRendersContent = False,
     sc_standardViewsHTML = False, sc_txtTTL = 0\<rparr>"

definition demo_link_request :: http_req where
  "demo_link_request = \<lparr>hr_Method = ''GET'', hr_Path = ''/raw/grant/b/x.html'', hr_EscapedPath = ''/raw/grant/b/x.html'',
     hr_Query = [], hr_Header = [], hr_Host = ''link.example:80'', hr_RemoteAddr = ''1.2.3.4:5'', hr_ContentLength = 0,
     hr_TransferEncoding = [], hr_RawQuery = [], hr_Scheme = [], hr_RequestURI = []\<rparr>"

lemma demo_link_served:
  "case ServeHTTP demo_access_lib demo_env demo_sharing demo_sharing_config None (\<lambda>_. Inl (Message [])) (\<lambda>_. None) False False 0
     demo_link_request ([], ()) of Some (w, _) \<Rightarrow> length (wr_Parts w) = 1 | None \<Rightarrow> False"
  by code_simp

lemma public_domain_serves_safe_content_witness:
  "\<exists>w r. ServeHTTP demo_access_lib demo_env demo_sharing demo_sharing_config None (\<lambda>_. Inl (Message [])) (\<lambda>_. None) False
       False 0 demo_link_request ([], ()) = Some (w, r)
     \<and> length (wr_Parts w) = 1 \<and> (\<forall>x \<in> set (wr_Parts w). safe_part demo_sharing_config x)"
proof -
  obtain w p t where s: "ServeHTTP demo_access_lib demo_env demo_sharing demo_sharing_config None (\<lambda>_. Inl (Message []))
      (\<lambda>_. None) False False 0 demo_link_request ([], ()) = Some (w, p, t)" and l: "length (wr_Parts w) = 1"
    using demo_link_served by (auto split: option.splits prod.splits)
  have "isDomainOurs (hr_Host demo_link_request) (sc_urlBases demo_sharing_config) = Inr True" by code_simp
  from public_domain_serves_safe_content [OF s this] s l show ?thesis by blast
qed

subsection \<open>Hosted domains\<close>

text \<open>
  Two libraries that answer alike for an access, a bucket and the keys with a prefix.  What is known
  of the library: an object is returned under the key that was asked for.
\<close>

definition alike :: "'a \<Rightarrow> string \<Rightarrow> string \<Rightarrow> ('a, 'l) sharing_lib \<Rightarrow> ('a, 'l) sharing_lib \<Rightarrow> bool" where
  "alike a b pre U V \<longleftrightarrow>
     up_OpenProject U a = up_OpenProject V a \<and> up_EncodeSVG U = up_EncodeSVG V \<and> up_Write U = up_Write V
     \<and> up_Size U = up_Size V \<and> up_MB U = up_MB V \<and> up_mime U = up_mime V
     \<and> (\<forall>k. has_prefix k pre \<longrightarrow> up_Stat U a b k = up_Stat V a b k \<and> up_Download U a b k = up_Download V a b k
          \<and> up_Copy U a b k = up_Copy V a b k \<and> up_List U a b k = up_List V a b k
          \<and> up_OpenPack U a b k = up_OpenPack V a b k \<and> up_PackList U a b k = up_PackList V a b k
          \<and> up_FileInfo U a b k = up_FileInfo V a b k \<and> up_OpenFile U a b k = up_OpenFile V a b k
          \<and> up_IPSummary U a b k = up_IPSummary V a b k
          \<and> (\<forall>r h obj src. ob_Key obj = k \<longrightarrow> up_Serve U a r h b obj src = up_Serve V a r h b obj src)
          \<and> (\<forall>obj. up_Stat V a b k = Inr obj \<longrightarrow> ob_Key obj = k)
          \<and> (\<forall>opts obj. up_Download V a b k opts = Inr obj \<longrightarrow> ob_Key obj = k))"

lemma alike_key:
  assumes "alike a b pre U V" and "has_prefix k pre"
  shows "up_Stat U a b k = up_Stat V a b k" "up_Download U a b k = up_Download V a b k"
    "up_Copy U a b k = up_Copy V a b k" "up_List U a b k = up_List V a b k"
    "up_OpenPack U a b k = up_OpenPack V a b k" "up_PackList U a b k = up_PackList V a b k"
    "up_FileInfo U a b k = up_FileInfo V a b k" "up_OpenFile U a b k = up_OpenFile V a b k"
    "up_IPSummary U a b k = up_IPSummary V a b k"
    "ob_Key obj = k \<Longrightarrow> up_Serve U a r h b obj src = up_Serve V a r h b obj src"
    "up_Stat V a b k = Inr obj \<Longrightarrow> ob_Key obj = k" "up_Download V a b k opts = Inr obj \<Longrightarrow> ob_Key obj = k"
  using assms unfolding alike_def by blast+

lemma alike_all:
  assumes "alike a b pre U V"
  shows "up_OpenProject U a = up_OpenProject V a" "up_EncodeSVG U = up_EncodeSVG V" "up_Write U = up_Write V"
    "up_Size U = up_Size V" "up_MB U = up_MB V" "up_mime U = up_mime V"
  using assms unfolding alike_def by blast+

lemma prefix_append: "has_prefix k pre \<Longrightarrow> has_prefix (k @ x) pre"
  by (auto simp: has_prefix_iff)

lemma alike_servePrefix:
  assumes u: "alike (pr_access pr) (pr_bucket pr) pre U V" and k: "has_prefix (pr_realKey pr) pre"
  shows "servePrefix U pr path w = servePrefix V pr path w"
proof -
  have names: "list_names U pr names objs = list_names V pr names objs" for names objs
    by (induction names arbitrary: objs) (simp_all add: alike_key(7) [OF u k] alike_all(4) [OF u] split: sum.split)
  show ?thesis
    unfolding servePrefix_def listObjectsArchive_def listObjectsPrefix_def names alike_key(1-9) [OF u k] alike_all [OF u] ..
qed

lemma alike_showObject:
  assumes u: "alike (pr_access pr) (pr_bucket pr) pre U V" and k: "has_prefix (pr_realKey pr) pre"
    and o: "has_prefix (ob_Key obj) pre"
  shows "showObject U C mapper r pr obj rng w = showObject V C mapper r pr obj rng w"
proof -
  have serve: "serve_content U (pr_access pr) r (pr_bucket pr) obj src x = serve_content V (pr_access pr) r (pr_bucket pr) obj src x"
    for src x
    unfolding serve_content_def alike_key(10) [OF u o refl] ..
  have archived: "show_archived U C r pr obj path x = show_archived V C r pr obj path x" for path x
    unfolding show_archived_def defaultArchiveRanger_def serve alike_key(1-9) [OF u o] alike_all [OF u] ..
  have page: "show_page U pr obj path ls x = show_page V pr obj path ls x" for path ls x
    unfolding show_page_def alike_key(1-9) [OF u o] alike_all [OF u] ..
  have map: "serveMap U ls pieces obj q x = serveMap V ls pieces obj q x" for ls pieces q x
    unfolding serveMap_def alike_all [OF u] ..
  have locations: "getLocations U mapper (pr_access pr) (pr_bucket pr) (ob_Key obj)
      = getLocations V mapper (pr_access pr) (pr_bucket pr) (ob_Key obj)"
    unfolding getLocations_def alike_key(1-9) [OF u o] ..
  show ?thesis
    unfolding showObject_def serve archived page map locations alike_servePrefix [OF u k] alike_all [OF u] ..
qed

lemma alike_show_stat:
  assumes "alike (pr_access pr) (pr_bucket pr) pre U V" and "has_prefix (pr_realKey pr) pre"
    and "up_Stat V (pr_access pr) (pr_bucket pr) k = Inr obj" and "has_prefix k pre"
  shows "showObject U C mapper r pr obj rng w = showObject V C mapper r pr obj rng w"
  using alike_showObject [OF assms(1,2)] alike_key(11) [OF assms(1,4,3)] assms(4) by simp

lemma alike_show_download:
  assumes "alike (pr_access pr) (pr_bucket pr) pre U V" and "has_prefix (pr_realKey pr) pre"
    and "up_Download V (pr_access pr) (pr_bucket pr) (pr_realKey pr) opts = Inr obj"
  shows "showObject U C mapper r pr obj rng w = showObject V C mapper r pr obj rng w"
  using alike_showObject [OF assms(1,2)] alike_key(12) [OF assms(1,2,3)] assms(2) by simp

lemma alike_redirect_or:
  assumes u: "alike (pr_access pr) (pr_bucket pr) pre U V" and k: "has_prefix (pr_realKey pr) pre"
  shows "redirect_or U r pr oe w = redirect_or V r pr oe w"
  unfolding redirect_or_def isPrefix_def alike_key(1-9) [OF u prefix_append [OF k]] ..

lemma alike_try_stat:
  assumes u: "alike (pr_access pr) (pr_bucket pr) pre U V" and k: "has_prefix (pr_realKey pr) pre"
  shows "try_stat U C mapper r pr oe w = try_stat V C mapper r pr oe w"
  unfolding try_stat_def alike_key(1) [OF u k] alike_redirect_or [OF u k]
  by (cases oe; cases "up_Stat V (pr_access pr) (pr_bucket pr) (pr_realKey pr)")
    (simp_all add: alike_show_stat [OF u k _ k])

lemma alike_present_prefix:
  assumes u: "alike (pr_access pr) (pr_bucket pr) pre U V" and k: "has_prefix (pr_realKey pr) pre"
  shows "present_prefix U C mapper r pr w = present_prefix V C mapper r pr w"
proof -
  note i = prefix_append [OF k, of "''index.html''"]
  show ?thesis
    unfolding present_prefix_def alike_key(1) [OF u k] alike_key(1) [OF u i] alike_servePrefix [OF u k]
    by (cases "up_Stat V (pr_access pr) (pr_bucket pr) (pr_realKey pr)";
        cases "up_Stat V (pr_access pr) (pr_bucket pr) (pr_realKey pr @ ''index.html'')")
      (simp_all only: sum.case alike_show_stat [OF u k _ k] alike_show_stat [OF u k _ i])
qed

lemma alike_present_root:
  assumes u: "alike (pr_access pr) (pr_bucket pr) pre U V" and k: "has_prefix (pr_realKey pr) pre"
  shows "present_root U C mapper r pr w = present_root V C mapper r pr w"
proof -
  note i = prefix_append [OF k, of "''index.html''"]
  show ?thesis
    unfolding present_root_def alike_key(1) [OF u i] alike_servePrefix [OF u k]
    by (cases "up_Stat V (pr_access pr) (pr_bucket pr) (pr_realKey pr @ ''index.html'')")
      (simp_all only: sum.case alike_show_stat [OF u k _ i])
qed

lemma alike_present_key:
  assumes u: "alike (pr_access pr) (pr_bucket pr) pre U V" and k: "has_prefix (pr_realKey pr) pre"
  shows "present_key U C mapper r pr w = present_key V C mapper r pr w"
proof (cases "predictRange (header_get (hr_Header r) ''Range'')")
  case (Inr options)
  show ?thesis
    unfolding present_key_def Inr alike_key(2) [OF u k] alike_try_stat [OF u k] sum.case
    by (cases "up_Download V (pr_access pr) (pr_bucket pr) (pr_realKey pr) options")
      (simp_all only: sum.case alike_show_download [OF u k])
qed (simp add: present_key_def alike_try_stat [OF u k])

lemma alike_presentWithProject:
  assumes u: "alike (pr_access pr) (pr_bucket pr) pre U V" and k: "has_prefix (pr_realKey pr) pre"
  shows "presentWithProject U C mapper r pr w = presentWithProject V C mapper r pr w"
  unfolding presentWithProject_def alike_present_prefix [OF u k] alike_present_key [OF u k] alike_present_root [OF u k] ..

text \<open>The bucket and the prefix of a root.\<close>

definition root_bucket :: "string \<Rightarrow> string" where
  "root_bucket root = hd (splitn 2 CHR ''/'' root)"

definition root_prefix :: "string \<Rightarrow> string" where
  "root_prefix root =
     (case cut_byte CHR ''/'' root of None \<Rightarrow> []
      | Some (_, p) \<Rightarrow> if p \<noteq> [] \<and> \<not> has_suffix p ''/'' then p @ ''/'' else p)"

lemma determine_root: "determineBucketAndObjectKey root path = (root_bucket root, root_prefix root @ trim_prefix path ''/'')"
  by (auto simp: determineBucketAndObjectKey_def root_bucket_def root_prefix_def numeral_2_eq_2 Let_def
      split: option.splits)

text \<open>
  C19: a hosted domain shows nothing outside its root: the answer to any request depends only on what
  the library answers for the access of the domain, the bucket of the root and the keys under its
  prefix, which ends at a slash; two projects that agree there look the same from the domain,
  whatever else they hold and whatever the path of the request is.
\<close>

theorem hosted_domain_is_confined:
  assumes "alike (tr_Access res) (root_bucket (tr_Root res)) (root_prefix (tr_Root res)) U V"
  shows "present_hosting U C mapper r host res w = present_hosting V C mapper r host res w
    \<and> (root_prefix (tr_Root res) = [] \<or> has_suffix (root_prefix (tr_Root res)) ''/'')"
proof -
  let ?pr = "hosting_request res host r" and ?pre = "root_prefix (tr_Root res)"
  have pr: "pr_access ?pr = tr_Access res" "pr_bucket ?pr = root_bucket (tr_Root res)" "has_prefix (pr_realKey ?pr) ?pre"
    by (simp_all add: hosting_request_def determine_root Let_def)
  have p: "presentWithProject U C mapper r ?pr w = presentWithProject V C mapper r ?pr w"
    by (rule alike_presentWithProject [of _ ?pre]) (simp_all only: pr assms)
  have n: "has_prefix (?pre @ trim_prefix ''/404.html'' ''/'') ?pre" by (rule has_prefix_append)
  have "present_hosting U C mapper r host res w = present_hosting V C mapper r host res w"
    unfolding present_hosting_def determine_root Let_def prod.case alike_all(1) [OF assms] alike_key(2,3) [OF assms n] p ..
  then show ?thesis
    by (auto simp: root_prefix_def has_suffix_iff split: option.splits)
qed

definition demo_site :: "(string \<Rightarrow> err + up_object) \<Rightarrow> (string, unit) sharing_lib" where
  "demo_site f = demo_sharing\<lparr>
     up_Stat := (\<lambda>_ _ k. if has_prefix k ''site/'' then Inr (demo_object\<lparr>ob_Key := k\<rparr>) else f k),
     up_Download := (\<lambda>_ _ k _. if has_prefix k ''site/'' then Inr (demo_object\<lparr>ob_Key := k\<rparr>) else f k)\<rparr>"

lemma hosted_domain_is_confined_witness:
  "present_hosting (demo_site (\<lambda>_. Inr demo_object)) demo_sharing_config None demo_link_request ''host''
     \<lparr>tr_Access = ''grant'', tr_Root = ''b/site'', tr_TLS = False\<rparr> \<lparr>wr_Header = [], wr_Status = None, wr_Parts = []\<rparr> =
   present_hosting (demo_site (\<lambda>_. Inl (Message ''other''))) demo_sharing_config None demo_link_request ''host''
     \<lparr>tr_Access = ''grant'', tr_Root = ''b/site'', tr_TLS = False\<rparr> \<lparr>wr_Header = [], wr_Status = None, wr_Parts = []\<rparr>"
proof -
  let ?res = "\<lparr>tr_Access = ''grant'', tr_Root = ''b/site'', tr_TLS = False\<rparr>"
  have "root_prefix (tr_Root ?res) = ''site/''" "root_bucket (tr_Root ?res) = ''b''" by (simp, code_simp)+
  then have "alike (tr_Access ?res) (root_bucket (tr_Root ?res)) (root_prefix (tr_Root ?res))
      (demo_site (\<lambda>_. Inr demo_object)) (demo_site (\<lambda>_. Inl (Message ''other'')))"
    by (simp add: alike_def demo_site_def demo_sharing_def)
  from hosted_domain_is_confined [OF this] show ?thesis by blast
qed

subsection \<open>Private access keys\<close>

text \<open>The errors of the verification are its own and the missing header.\<close>

lemma signing_error:
  assumes "VerifySigningInfo req secret now tolerance = Some e"
  shows "(is_err t e \<longrightarrow> t = MissingAuthorizationHeader) \<and> \<not> has_class InvalidRange e"
proof -
  have c: "(is_err t x \<longrightarrow> t = MissingAuthorizationHeader) \<and> \<not> has_class InvalidRange x"
    if "parseCredential v = Inl x" for x v
    using that by (auto simp: parseCredential_def Let_def split: list.splits if_splits option.splits)
  have h: "(is_err t x \<longrightarrow> t = MissingAuthorizationHeader) \<and> \<not> has_class InvalidRange x"
    if "parseSignedHeaders v = Inl x" for x v
    using that by (auto simp: parseSignedHeaders_def Let_def split: list.splits if_splits)
  have s: "(is_err t x \<longrightarrow> t = MissingAuthorizationHeader) \<and> \<not> has_class InvalidRange x"
    if "parseSignature v = Inl x" for x v
    using that by (auto simp: parseSignature_def Let_def split: list.splits if_splits)
  have i: "(is_err t x \<longrightarrow> t = MissingAuthorizationHeader) \<and> \<not> has_class InvalidRange x"
    if "parseSigningInfo v = Inl x" for x v
    using that c h s by (auto simp: parseSigningInfo_def Let_def split: list.splits if_splits sum.splits)
  have m: "(is_err t x \<longrightarrow> t = MissingAuthorizationHeader) \<and> \<not> has_class InvalidRange x"
    if "extract_headers r names m = Inl x" for x r names m
    using that by (induction r names m rule: extract_headers.induct)
      (auto simp: extract_header_def split: sum.splits if_splits)
  show ?thesis
    using assms i m unfolding VerifySigningInfo_def extractHeaders_def Let_def
    by (auto split: option.splits if_splits sum.splits)
qed

lemma denied_page:
  assumes "\<And>t. is_err t e \<Longrightarrow> t = MissingAuthorizationHeader" and "\<not> has_class InvalidRange e"
  shows "error_answer canceled (with_status e 403) = (403, ''Access denied.'', False)"
proof -
  have "\<not> is_err t e" if "t \<noteq> MissingAuthorizationHeader" for t using assms(1) that by blast
  then show ?thesis using assms(2) by (simp add: error_answer_def)
qed

lemma standard_path:
  assumes "hr_Path r \<in> {''/raw/'' @ key @ ''/'' @ rest, ''/s/'' @ key @ ''/'' @ rest}" and "CHR ''/'' \<notin> set key"
    and "\<And>a k framed. standard_access A E U C mapper now r key a k framed w c = Some x"
  shows "handleStandard A E U C mapper now r w c = Some x"
proof -
  have s: "splitn 3 CHR ''/'' (key @ CHR ''/'' # rest) = key # splitn 2 CHR ''/'' rest"
    using assms(2) by (simp add: numeral_3_eq_3 numeral_2_eq_2 cut_byte_append)
  have two: "splitn 2 CHR ''/'' rest = [rest] \<or> (\<exists>a b. splitn 2 CHR ''/'' rest = [a, b])"
    by (auto simp: numeral_2_eq_2 split: option.splits)
  have p: "trim_prefix (hr_Path r) ''/'' = ''raw/'' @ key @ CHR ''/'' # rest \<or> trim_prefix (hr_Path r) ''/'' = ''s/'' @ key @ CHR ''/'' # rest"
    using assms(1) by (auto simp: trim_prefix_def)
  show ?thesis
    using p two by (auto simp: handleStandard_def Let_def s assms(3))
qed

text \<open>
  C17: an access key that is not public opens nothing without a valid signature.  A request for it on
  the public domain, raw or framed, whose signature the verification refuses with the secret key that
  the authentication service keeps, whatever is wrong with it, is answered with status 403 and the
  page \<open>Access denied.\<close>, and the library of the project is never asked.
\<close>

theorem private_keys_need_signatures:
  assumes "isDomainOurs (hr_Host r) (sc_urlBases C) = Inr True" and "hr_Method r \<in> {''GET'', ''HEAD''}"
    and "\<not> (sc_redirectHTTPS C \<and> hr_Scheme r = ''http'')"
    and "hr_Path r \<in> {''/raw/'' @ key @ ''/'' @ rest, ''/s/'' @ key @ ''/'' @ rest}" and "CHR ''/'' \<notin> set key"
    and "\<not> isProductionAccessGrant A key"
    and "GetClientIP (sc_trustedClientIPs C) (hr_RemoteAddr r) (hr_Header r) = Some ip"
    and "resolve_env E key ip (snd st) = Some (Inr resp, d)" and "\<not> au_Public resp"
    and "VerifySigningInfo (Some r) (au_SecretKey resp) now (15 * 60 * 1000000000) = Some e"
  shows "\<exists>w. ServeHTTP A E U C mapper dns https_URL inShutdown canceled now r st = Some (w, None, fst st, d)
    \<and> wr_Status w = Some 403 \<and> wr_Parts w = [Page (blank_page ''error.html'' (ErrorData ''Access denied.'') ''Error'')]"
proof -
  define x where "x = (if is_err MissingAuthorizationHeader e then Message ''non-public Access Key ID'' else e)"
  have "parseAccess A E now (Some r) key (15 * 60 * 1000000000) ip (snd st) = Some (Inl (with_status x 403), d)"
    using assms(6,8-10) by (simp add: parseAccess_def x_def)
  then have "standard_access A E U C mapper now r key a k framed w (snd st) = Some ((Some (with_status x 403), w), d)"
    for a k framed w
    using assms(7) by (simp add: standard_access_def)
  then have h: "handleStandard A E U C mapper now r w (snd st) = Some ((Some (with_status x 403), w), d)" for w
    by (rule standard_path [OF assms(4,5)])
  have path: "\<not> has_prefix (hr_Path r) ''/static/''" "\<not> has_prefix (hr_Path r) ''/health/process''"
    "hr_Path r \<noteq> []" "hr_Path r \<noteq> ''/''"
    using assms(4) by auto
  let ?w0 = "\<lparr>wr_Header = [], wr_Status = None, wr_Parts = []\<rparr> :: writer"
  have "serveHTTP A E U C mapper dns https_URL inShutdown now r ?w0 st
      = Some ((Some (with_status x 403), cors ?w0), None, fst st, d)"
    using assms(1-3) path by (auto simp: serveHTTP_def Let_def h)
  moreover have "error_answer canceled (with_status x 403) = (403, ''Access denied.'', False)"
    using signing_error [OF assms(10)] by (intro denied_page) (auto simp: x_def split: if_splits)
  ultimately show ?thesis
    by (simp add: ServeHTTP_def handle_error_def w_status_def w_part_def w_delete_def cors_def w_set_def)
qed

text \<open>A service that knows one access key, which is not public.\<close>

definition demo_private_env :: "unit auth_env" where
  "demo_private_env = demo_env\<lparr>ae_service := (\<lambda>_ _. Answer 200 ''200 OK''
     (Inr \<lparr>au_AccessGrant = ''grant'', au_SecretKey = ''s'', au_Public = False\<rparr>))\<rparr>"

lemma private_keys_need_signatures_witness:
  "\<exists>w. ServeHTTP demo_access_lib demo_private_env demo_sharing demo_sharing_config None (\<lambda>_. Inl (Message [])) (\<lambda>_. None) False
       False 0 (demo_link_request\<lparr>hr_Path := ''/raw/'' @ demo_keyID @ ''/'' @ ''b/x''\<rparr>) ([], ()) = Some (w, None, [], ())
     \<and> wr_Status w = Some 403 \<and> wr_Parts w = [Page (blank_page ''error.html'' (ErrorData ''Access denied.'') ''Error'')]"
proof -
  let ?r = "demo_link_request\<lparr>hr_Path := ''/raw/'' @ demo_keyID @ ''/'' @ ''b/x''\<rparr>"
  let ?resp = "\<lparr>au_AccessGrant = ''grant'', au_SecretKey = ''s'', au_Public = False\<rparr>"
  have dom: "isDomainOurs (hr_Host ?r) (sc_urlBases demo_sharing_config) = Inr True"
    unfolding demo_link_request_def demo_sharing_config_def http_req.simps sharing_config.simps by code_simp
  have ip: "GetClientIP (sc_trustedClientIPs demo_sharing_config) (hr_RemoteAddr ?r) (hr_Header ?r) = Some ''1.2.3.4''"
    unfolding demo_link_request_def demo_sharing_config_def http_req.simps sharing_config.simps by code_simp
  have key: "\<not> isProductionAccessGrant demo_access_lib demo_keyID"
  proof -
    have "length demo_keyID = 28" using length_key_text [of "replicate 16 CHR ''k''"]
      by (simp add: demo_keyID_def EncKeySizeEncoded_def)
    moreover have "length ''grant'' \<noteq> 28" by simp
    ultimately have "demo_keyID \<noteq> ''grant''" by metis
    then show ?thesis by (simp add: isProductionAccessGrant_def demo_access_lib_def)
  qed
  have res: "resolve_env demo_private_env demo_keyID ''1.2.3.4'' (snd ([], ())) = Some (Inr ?resp, ())"
    using demo_key by (simp add: resolve_env_def demo_private_env_def demo_env_def ResolveWithCache_def Resolve_def
        demo_client_def resolve_first_answer)
  have v: "VerifySigningInfo (Some ?r) (au_SecretKey ?resp) 0 (15 * 60 * 1000000000)
      = Some (Classed SigningVerification (Sentinel MissingAuthorizationHeader))"
    by (simp add: VerifySigningInfo_def demo_link_request_def)
  show ?thesis
    using private_keys_need_signatures [OF dom _ _ _ demo_keyID_plain(1) key ip res _ v, where rest = "''b/x''"
        and U = demo_sharing and mapper = None and dns = "\<lambda>_. Inl (Message [])" and https_URL = "\<lambda>_. None"
        and inShutdown = False and canceled = False]
    by (simp add: demo_link_request_def demo_sharing_config_def)
qed

end
