(* ===== verification/MutexGroup.thy ===== *)
theory MutexGroup
  imports Prelude
begin

section \<open>Mutexes by name (MutexGroup of pkg/linksharing/sharing/utils.go)\<close>

text \<open>
  A group hands out a mutex for a name and keeps only those that some goroutine waits for or holds.
  \<open>mg_enter\<close> is the first critical section of \<open>Lock\<close>, \<open>mg_leave\<close> the second one of the function
  that \<open>Lock\<close> returns; between them a goroutine waits for the named mutex, holds it and unlocks it.
  Pointers to mutexes are numbers, \<open>mg_next\<close> is the next fresh one.  Any number of goroutines run
  these steps in any order.
\<close>

record mutex_group =
  mg_names :: "string \<Rightarrow> nat option"
  mg_waiters :: "string \<Rightarrow> int option"
  mg_next :: nat

definition mg_empty :: mutex_group where
  "mg_empty = \<lparr>mg_names = (\<lambda>_. None), mg_waiters = (\<lambda>_. None), mg_next = 0\<rparr>"

definition mg_init :: "string \<Rightarrow> mutex_group \<Rightarrow> mutex_group" where
  "mg_init name g =
     (case mg_names g name of
        None \<Rightarrow> g\<lparr>mg_names := (mg_names g)(name \<mapsto> mg_next g), mg_next := mg_next g + 1\<rparr>
      | Some _ \<Rightarrow> g)"

definition waiting :: "mutex_group \<Rightarrow> string \<Rightarrow> int" where
  "waiting g name = (case mg_waiters g name of None \<Rightarrow> 0 | Some n \<Rightarrow> n)"

definition mg_enter :: "string \<Rightarrow> mutex_group \<Rightarrow> nat \<times> mutex_group" where
  "mg_enter name g =
     (let g1 = mg_init name g
      in (the (mg_names g1 name), g1\<lparr>mg_waiters := (mg_waiters g1)(name \<mapsto> waiting g1 name + 1)\<rparr>))"

text \<open>\<open>None\<close> is the panic of a double unlock.\<close>

definition mg_leave :: "string \<Rightarrow> mutex_group \<Rightarrow> mutex_group option" where
  "mg_leave name g =
     (let w = waiting g name - 1
      in if w < 0 then None
         else if w = 0 then Some (g\<lparr>mg_names := (mg_names g)(name := None), mg_waiters := (mg_waiters g)(name := None)\<rparr>)
         else Some (g\<lparr>mg_waiters := (mg_waiters g)(name \<mapsto> w)\<rparr>))"

subsection \<open>Goroutines\<close>

datatype goroutine = Outside | Blocked string nat | Inside string nat | Released string nat

record mg_world =
  mw_group :: mutex_group
  mw_locked :: "nat set"
  mw_threads :: "nat \<Rightarrow> goroutine"

inductive mg_step :: "mg_world \<Rightarrow> mg_world \<Rightarrow> bool" where
  Enter: "mw_threads w i = Outside \<Longrightarrow> mg_enter n (mw_group w) = (p, g) \<Longrightarrow>
    mg_step w (w\<lparr>mw_group := g, mw_threads := (mw_threads w)(i := Blocked n p)\<rparr>)"
| Acquire: "mw_threads w i = Blocked n p \<Longrightarrow> p \<notin> mw_locked w \<Longrightarrow>
    mg_step w (w\<lparr>mw_locked := insert p (mw_locked w), mw_threads := (mw_threads w)(i := Inside n p)\<rparr>)"
| Release: "mw_threads w i = Inside n p \<Longrightarrow>
    mg_step w (w\<lparr>mw_locked := mw_locked w - {p}, mw_threads := (mw_threads w)(i := Released n p)\<rparr>)"
| Leave: "mw_threads w i = Released n p \<Longrightarrow> mg_leave n (mw_group w) = Some g \<Longrightarrow>
    mg_step w (w\<lparr>mw_group := g, mw_threads := (mw_threads w)(i := Outside)\<rparr>)"

inductive mg_reach :: "mg_world \<Rightarrow> bool" where
  Start: "mg_reach \<lparr>mw_group = mg_empty, mw_locked = {}, mw_threads = (\<lambda>_. Outside)\<rparr>"
| Step: "mg_reach w \<Longrightarrow> mg_step w v \<Longrightarrow> mg_reach v"

subsection \<open>The invariant\<close>

fun mutex_of :: "goroutine \<Rightarrow> (string \<times> nat) option" where
  "mutex_of Outside = None"
| "mutex_of (Blocked n p) = Some (n, p)"
| "mutex_of (Inside n p) = Some (n, p)"
| "mutex_of (Released n p) = Some (n, p)"

definition users :: "(nat \<Rightarrow> goroutine) \<Rightarrow> string \<Rightarrow> nat set" where
  "users th n = {i. \<exists>p. mutex_of (th i) = Some (n, p)}"

fun inside_of :: "goroutine \<Rightarrow> nat option" where
  "inside_of (Inside n p) = Some p"
| "inside_of _ = None"

text \<open>Every user of a name has its mutex, and the counts are the numbers of the users.\<close>

definition mg_counts :: "mutex_group \<Rightarrow> (nat \<Rightarrow> goroutine) \<Rightarrow> bool" where
  "mg_counts g th \<longleftrightarrow>
     (\<forall>i n p. mutex_of (th i) = Some (n, p) \<longrightarrow> mg_names g n = Some p)
     \<and> (\<forall>n. finite (users th n) \<and> waiting g n = int (card (users th n)))
     \<and> (\<forall>n. (mg_names g n = None \<longleftrightarrow> users th n = {}) \<and> (mg_waiters g n = None \<longleftrightarrow> users th n = {}))
     \<and> (\<forall>n p. mg_names g n = Some p \<longrightarrow> p < mg_next g \<and> (\<forall>m. mg_names g m = Some p \<longrightarrow> m = n))"

text \<open>A locked mutex has exactly one holder.\<close>

definition mg_excl :: "nat set \<Rightarrow> (nat \<Rightarrow> goroutine) \<Rightarrow> bool" where
  "mg_excl L th \<longleftrightarrow>
     (\<forall>p \<in> L. \<exists>i. inside_of (th i) = Some p)
     \<and> (\<forall>i p. inside_of (th i) = Some p \<longrightarrow> p \<in> L \<and> (\<forall>j. inside_of (th j) = Some p \<longrightarrow> j = i))"

definition mg_ok :: "mg_world \<Rightarrow> bool" where
  "mg_ok w \<longleftrightarrow> mg_counts (mw_group w) (mw_threads w) \<and> mg_excl (mw_locked w) (mw_threads w)"

lemma users_upd:
  "users (th(i := s)) n = (case mutex_of s of Some (m, p) \<Rightarrow> if m = n then insert i (users th n) else users th n - {i}
     | None \<Rightarrow> users th n - {i})"
  by (auto simp: users_def split: option.splits if_splits)

lemma in_users: "i \<in> users th n \<longleftrightarrow> (\<exists>p. mutex_of (th i) = Some (n, p))"
  by (simp add: users_def)

lemma users_same: "mutex_of s = mutex_of (th i) \<Longrightarrow> users (th(i := s)) = users th"
  by (auto simp: users_def fun_eq_iff)

lemma mg_enter_result:
  assumes "mg_enter n g = (p, g')"
  shows "mg_names g' = (mg_names g)(n \<mapsto> p)" and "mg_waiters g' = (mg_waiters g)(n \<mapsto> waiting g n + 1)"
    and "mg_names g n = Some p \<and> mg_next g' = mg_next g \<or> mg_names g n = None \<and> p = mg_next g \<and> mg_next g' = mg_next g + 1"
  using assms by (auto simp: mg_enter_def mg_init_def Let_def waiting_def fun_eq_iff split: option.splits)

lemma waiting_upd: "mg_waiters g' = (mg_waiters g)(n \<mapsto> k) \<Longrightarrow> waiting g' m = (if m = n then k else waiting g m)"
  by (simp add: waiting_def)

lemma counts_same:
  assumes "mutex_of s = mutex_of (th i)"
  shows "mg_counts g (th(i := s)) = mg_counts g th"
proof -
  have "mutex_of ((th(i := s)) j) = mutex_of (th j)" for j using assms by simp
  then show ?thesis unfolding mg_counts_def users_def by (simp only:)
qed

lemma excl_same:
  assumes "inside_of s = inside_of (th i)"
  shows "mg_excl L (th(i := s)) = mg_excl L th"
proof -
  have "inside_of ((th(i := s)) j) = inside_of (th j)" for j using assms by simp
  then show ?thesis unfolding mg_excl_def by (simp only:)
qed

lemma excl_acquire:
  assumes ex: "mg_excl L th" and i: "inside_of (th i) = None" and p: "p \<notin> L"
  shows "mg_excl (insert p L) (th(i := Inside n p))"
proof -
  let ?in = "\<lambda>j. inside_of ((th(i := Inside n p)) j)"
  have upd: "?in j = (if j = i then Some p else inside_of (th j))" for j by simp
  have no: "inside_of (th j) \<noteq> Some p" for j using ex p unfolding mg_excl_def by blast
  have "\<exists>j. ?in j = Some q" if "q \<in> insert p L" for q
  proof (cases "q = p")
    case False
    then have "q \<in> L" using that by simp
    then obtain j where j: "inside_of (th j) = Some q" using ex unfolding mg_excl_def by blast
    then have "j \<noteq> i" using i by auto
    then have "?in j = Some q" using j by simp
    then show ?thesis by (rule exI)
  qed (auto intro: exI [of _ i])
  moreover have "q \<in> insert p L \<and> (\<forall>k. ?in k = Some q \<longrightarrow> k = j)" if "?in j = Some q" for j q
  proof (cases "j = i")
    case True
    with that no show ?thesis unfolding upd by auto
  next
    case False
    then have "inside_of (th j) = Some q" using that by simp
    then have "q \<in> L" "\<And>k. inside_of (th k) = Some q \<Longrightarrow> k = j" using ex unfolding mg_excl_def by blast+
    with p show ?thesis unfolding upd by auto
  qed
  ultimately show ?thesis unfolding mg_excl_def by blast
qed

lemma excl_release:
  assumes ex: "mg_excl L th" and i: "th i = Inside n p"
  shows "mg_excl (L - {p}) (th(i := Released n p))"
proof -
  let ?in = "\<lambda>j. inside_of ((th(i := Released n p)) j)"
  have upd: "?in j = (if j = i then None else inside_of (th j))" for j by simp
  have only: "j = i" if "inside_of (th j) = Some p" for j
  proof -
    have "inside_of (th i) = Some p" by (simp add: i)
    with ex that show ?thesis unfolding mg_excl_def by blast
  qed
  have "\<exists>j. ?in j = Some q" if "q \<in> L - {p}" for q
  proof -
    have "q \<in> L" using that by simp
    then obtain j where j: "inside_of (th j) = Some q" using ex unfolding mg_excl_def by blast
    have "inside_of (th i) = Some p" by (simp add: i)
    then have "j \<noteq> i" using j that by auto
    then have "?in j = Some q" using j by simp
    then show ?thesis by (rule exI)
  qed
  moreover have "q \<in> L - {p} \<and> (\<forall>k. ?in k = Some q \<longrightarrow> k = j)" if "?in j = Some q" for j q
  proof -
    have "j \<noteq> i" and j: "inside_of (th j) = Some q" using that unfolding upd by (auto split: if_splits)
    then have "q \<in> L" "\<And>k. inside_of (th k) = Some q \<Longrightarrow> k = j" using ex unfolding mg_excl_def by blast+
    moreover have "q \<noteq> p" using only [of j] j \<open>j \<noteq> i\<close> by blast
    ultimately show ?thesis unfolding upd by auto
  qed
  ultimately show ?thesis unfolding mg_excl_def by blast
qed

lemma counts_enter:
  assumes ok: "mg_counts g th" and i: "th i = Outside" and e: "mg_enter n g = (p, g')"
  shows "mg_counts g' (th(i := Blocked n p))"
proof -
  let ?th = "th(i := Blocked n p)"
  note r = mg_enter_result [OF e]
  have u: "users ?th m = (if m = n then insert i (users th m) else users th m)" for m
    using i by (auto simp: users_upd in_users)
  have i': "i \<notin> users th m" for m using i by (simp add: in_users)
  show ?thesis
    unfolding mg_counts_def
  proof (intro conjI)
    show "\<forall>j m q. mutex_of (?th j) = Some (m, q) \<longrightarrow> mg_names g' m = Some q"
    proof (intro allI impI)
      fix j m q assume m: "mutex_of (?th j) = Some (m, q)"
      show "mg_names g' m = Some q"
      proof (cases "j = i")
        case False
        then have "mg_names g m = Some q" using m ok unfolding mg_counts_def by simp
        with r(1,3) show ?thesis by auto
      qed (use m r(1) in simp)
    qed
    show "\<forall>m. finite (users ?th m) \<and> waiting g' m = int (card (users ?th m))"
      using ok i' unfolding mg_counts_def u by (simp add: waiting_upd [OF r(2)])
    show "\<forall>m. (mg_names g' m = None \<longleftrightarrow> users ?th m = {}) \<and> (mg_waiters g' m = None \<longleftrightarrow> users ?th m = {})"
      using ok unfolding mg_counts_def u r(1,2) by simp
    have fresh: "mg_names g m \<noteq> Some (mg_next g)" for m
      using ok unfolding mg_counts_def by (metis less_irrefl)
    show "\<forall>m q. mg_names g' m = Some q \<longrightarrow> q < mg_next g' \<and> (\<forall>k. mg_names g' k = Some q \<longrightarrow> k = m)"
      using ok r(3) fresh unfolding mg_counts_def r(1) by (auto simp: less_Suc_eq)
  qed
qed

lemma counts_leave:
  assumes ok: "mg_counts g th" and i: "th i = Released n p" and e: "mg_leave n g = Some g'"
  shows "mg_counts g' (th(i := Outside))"
proof -
  let ?th = "th(i := Outside)"
  have u: "users ?th m = users th m - (if m = n then {i} else {})" for m
    using i by (auto simp: users_upd in_users)
  have i': "i \<in> users th n" using i by (simp add: in_users)
  have fin: "finite (users th m)" "waiting g m = int (card (users th m))" for m
    using ok unfolding mg_counts_def by blast+
  have c: "int (card (users ?th n)) = waiting g n - 1"
  proof -
    have "card (users th n) > 0" using i' fin(1) by (auto simp: card_gt_0_iff)
    then show ?thesis using i' fin by (simp add: u card_Diff_singleton)
  qed
  have "finite (users ?th n)" using fin(1) by (simp add: u)
  then have e0: "users ?th n = {} \<longleftrightarrow> waiting g n = 1"
    using c card_0_eq [of "users ?th n"] by linarith
  have g: "mg_next g' = mg_next g"
    "mg_names g' = (if users ?th n = {} then (mg_names g)(n := None) else mg_names g)"
    "mg_waiters g' = (if users ?th n = {} then (mg_waiters g)(n := None) else (mg_waiters g)(n \<mapsto> waiting g n - 1))"
    using e unfolding e0 by (auto simp: mg_leave_def Let_def split: if_splits)
  show ?thesis
    unfolding mg_counts_def
  proof (intro conjI)
    show "\<forall>j m q. mutex_of (?th j) = Some (m, q) \<longrightarrow> mg_names g' m = Some q"
    proof (intro allI impI)
      fix j m q assume m: "mutex_of (?th j) = Some (m, q)"
      then have "mg_names g m = Some q"
        using ok unfolding mg_counts_def by (auto split: if_splits)
      moreover have "j \<in> users ?th m" using m by (simp add: in_users)
      ultimately show "mg_names g' m = Some q" unfolding g by auto
    qed
    show "\<forall>m. finite (users ?th m) \<and> waiting g' m = int (card (users ?th m))"
    proof
      fix m show "finite (users ?th m) \<and> waiting g' m = int (card (users ?th m))"
      proof (cases "m = n")
        case True
        then show ?thesis using c \<open>finite (users ?th n)\<close> by (auto simp: g waiting_def)
      next
        case False
        then show ?thesis using fin [of m] by (simp add: u waiting_def g)
      qed
    qed
    show "\<forall>m. (mg_names g' m = None \<longleftrightarrow> users ?th m = {}) \<and> (mg_waiters g' m = None \<longleftrightarrow> users ?th m = {})"
      using ok i' unfolding mg_counts_def g by (auto simp: u)
    show "\<forall>m q. mg_names g' m = Some q \<longrightarrow> q < mg_next g' \<and> (\<forall>k. mg_names g' k = Some q \<longrightarrow> k = m)"
      using ok unfolding mg_counts_def g by (auto split: if_splits)
  qed
qed

lemma reach_ok: "mg_reach w \<Longrightarrow> mg_ok w"
proof (induction rule: mg_reach.induct)
  case Start
  show ?case by (auto simp: mg_ok_def mg_counts_def mg_excl_def mg_empty_def users_def waiting_def)
next
  case (Step w v)
  from Step(2,3) show ?case
    by (cases rule: mg_step.cases)
      (auto simp: mg_ok_def counts_same excl_same intro: counts_enter counts_leave excl_acquire excl_release)
qed

subsection \<open>The property\<close>

text \<open>
  C22: in every interleaving of goroutines that lock and unlock the mutexes of a group, at most one
  holds the mutex of a name; a goroutine that waits for a name can go on as soon as none holds it;
  unlocking never panics; and the group keeps exactly the names that are in use, so that it is empty
  again when all goroutines are done.
\<close>

theorem named_mutual_exclusion:
  assumes "mg_reach w"
  shows "(\<forall>i j n p q. mw_threads w i = Inside n p \<and> mw_threads w j = Inside n q \<longrightarrow> i = j)
    \<and> (\<forall>i n p. mw_threads w i = Blocked n p \<longrightarrow>
          (\<exists>j. mw_threads w j = Inside n p) \<or> (\<exists>v. mg_step w v \<and> mw_threads v i = Inside n p))
    \<and> (\<forall>i n p. mw_threads w i = Released n p \<longrightarrow> mg_leave n (mw_group w) \<noteq> None)
    \<and> {n. mg_names (mw_group w) n \<noteq> None} = {n. \<exists>i p. mutex_of (mw_threads w i) = Some (n, p)}"
proof -
  have c: "mg_counts (mw_group w) (mw_threads w)" and x: "mg_excl (mw_locked w) (mw_threads w)"
    using reach_ok [OF assms] by (simp_all add: mg_ok_def)
  have name: "mg_names (mw_group w) n = Some p" if "mutex_of (mw_threads w i) = Some (n, p)" for i n p
    using c that unfolding mg_counts_def by blast
  have one: "i = j" if "mw_threads w i = Inside n p" "mw_threads w j = Inside n q" for i j n p q
  proof -
    have "p = q" using name [of i n p] name [of j n q] that by simp
    then have "inside_of (mw_threads w i) = Some p" "inside_of (mw_threads w j) = Some p" using that by simp_all
    with x show ?thesis unfolding mg_excl_def by blast
  qed
  have go: "(\<exists>j. mw_threads w j = Inside n p) \<or> (\<exists>v. mg_step w v \<and> mw_threads v i = Inside n p)"
    if i: "mw_threads w i = Blocked n p" for i n p
  proof (cases "p \<in> mw_locked w")
    case True
    then obtain j where "inside_of (mw_threads w j) = Some p" using x unfolding mg_excl_def by blast
    then obtain m where j: "mw_threads w j = Inside m p" by (cases "mw_threads w j") auto
    have "mg_names (mw_group w) m = Some p" "mg_names (mw_group w) n = Some p"
      using name [of j m p] name [of i n p] i j by simp_all
    then have "m = n" using c unfolding mg_counts_def by blast
    with j show ?thesis by blast
  next
    case False
    from mg_step.Acquire [OF i this] show ?thesis by force
  qed
  have leave: "mg_leave n (mw_group w) \<noteq> None" if "mw_threads w i = Released n p" for i n p
  proof -
    have "i \<in> users (mw_threads w) n" using that by (simp add: in_users)
    then have "0 < waiting (mw_group w) n"
      using c unfolding mg_counts_def by (metis card_gt_0_iff empty_iff of_nat_0_less_iff)
    then show ?thesis by (simp add: mg_leave_def Let_def)
  qed
  have "mg_names (mw_group w) n \<noteq> None \<longleftrightarrow> (\<exists>i p. mutex_of (mw_threads w i) = Some (n, p))" for n
  proof -
    have "mg_names (mw_group w) n = None \<longleftrightarrow> users (mw_threads w) n = {}"
      using c unfolding mg_counts_def by blast
    then show ?thesis by (simp add: users_def)
  qed
  then have used: "{n. mg_names (mw_group w) n \<noteq> None} = {n. \<exists>i p. mutex_of (mw_threads w i) = Some (n, p)}"
    by (simp only:)
  show ?thesis
  proof (intro conjI allI impI)
    show "i = j" if "mw_threads w i = Inside n p \<and> mw_threads w j = Inside n q" for i j n p q
      by (rule one [OF conjunct1 [OF that] conjunct2 [OF that]])
  qed (fact go leave used)+
qed

lemma named_mutual_exclusion_witness:
  "\<exists>w. mg_reach w \<and> mw_threads w 0 = Inside ''a'' 0 \<and> mw_threads w 1 \<noteq> Inside ''a'' 0
     \<and> {n. mg_names (mw_group w) n \<noteq> None} = {''a''}"
proof -
  let ?w0 = "\<lparr>mw_group = mg_empty, mw_locked = {}, mw_threads = (\<lambda>_. Outside)\<rparr>"
  obtain g where e: "mg_enter ''a'' mg_empty = (0, g)"
    by (simp add: mg_enter_def mg_init_def mg_empty_def Let_def)
  let ?w1 = "?w0\<lparr>mw_group := g, mw_threads := (\<lambda>_. Outside)(0 := Blocked ''a'' 0)\<rparr>"
  have s1: "mg_step ?w0 ?w1"
    using mg_step.Enter [of ?w0 0 "''a''" 0 g] e by simp
  let ?w2 = "?w1\<lparr>mw_locked := {0}, mw_threads := (\<lambda>_. Outside)(0 := Inside ''a'' 0)\<rparr>"
  have s2: "mg_step ?w1 ?w2"
    using mg_step.Acquire [of ?w1 0 "''a''" 0] by simp
  have r: "mg_reach ?w2" by (rule mg_reach.Step [OF mg_reach.Step [OF mg_reach.Start s1] s2])
  have "{n. mg_names (mw_group ?w2) n \<noteq> None} = {n. \<exists>i p. mutex_of (mw_threads ?w2 i) = Some (n, p)}"
    using named_mutual_exclusion [OF r] by blast
  also have "\<dots> = {''a''}" by auto
  finally show ?thesis using r by (intro exI [of _ ?w2]) simp
qed

end
