(* ===== verification/S3Handlers.thy ===== *)
theory S3Handlers
  imports GoHttp GoPath Errors GoTime
begin

section \<open>The S3 handlers over a bucket per user (pkg/minio/dws.go, api-handlers.go)\<close>

text \<open>
  Every user of the gateway owns one bucket of the object layer, which the node's service names for
  an access key; the buckets a user creates are the first elements of the keys in it.  The wrapper of
  the S3 handlers rewrites the variables of the route, \<open>bucket\<close> and \<open>object\<close>, before it calls the
  handler of the object store; the names of the buckets of all users are kept by the node, which is
  asked with HEAD, POST and DELETE requests.

  The environment \<open>s3_env\<close> holds what is not part of the program: the handlers of the object store
  (\<open>cmd.ObjectAPIHandlers\<close>), given as the codes they pass to \<open>WriteHeader\<close> and their effect on the
  world, the access key of the credentials they accept in a request, the service that names a user's
  bucket, the construction of requests and the node that answers them.  A handler returns what is
  written to the client, in order; of the statuses the first one counts.
\<close>

subsection \<open>Operations, requests and answers\<close>

datatype (plugins only: code size) s3_op =
    HeadObject | CopyObjectPart | PutObjectPart | ListObjectParts | CompleteMultipartUpload
   | NewMultipartUpload | AbortMultipartUpload | GetObjectACL | PutObjectACL | GetObjectTagging
   | PutObjectTagging | DeleteObjectTagging | SelectObjectContent | GetObjectRetention
   | GetObjectLegalHold | GetObject | CopyObject | PutObjectRetention | PutObjectLegalHold
   | PutObject | DeleteObject | GetBucketLocation | GetBucketPolicy | GetBucketLifecycle
   | GetBucketEncryption | GetBucketObjectLockConfig | GetBucketReplicationConfig
   | GetBucketVersioning | GetBucketNotification | ListenNotification | GetBucketACL | PutBucketACL
   | GetBucketCors | PutBucketCors | DeleteBucketCors | GetBucketWebsite | GetBucketAccelerate
   | GetBucketRequestPayment | GetBucketLogging | GetBucketTagging | DeleteBucketWebsite
   | DeleteBucketTagging | ListMultipartUploads | ListObjectsV2M | ListObjectsV2
   | ListObjectVersions | ListObjectsV1 | PutBucketLifecycle | PutBucketReplicationConfig
   | PutBucketEncryption | PutBucketPolicy | PutBucketObjectLockConfig | PutBucketTagging
   | PutBucketVersioning | PutBucketNotification | PutBucket | HeadBucket | PostPolicyBucket
   | DeleteMultipleObjects | DeleteBucketPolicy | DeleteBucketReplicationConfig
   | DeleteBucketLifecycle | DeleteBucketEncryption | DeleteBucket | PostRestoreObject | ListBuckets
   | ListBucketsWithAttribution

record s3_req =
  sr_http :: http_req
  sr_vars :: "string \<Rightarrow> string option"

definition mux_var :: "s3_req \<Rightarrow> string \<Rightarrow> string" where
  "mux_var r k = (case sr_vars r k of None \<Rightarrow> [] | Some v \<Rightarrow> v)"

record api_error =
  ae_Code :: string
  ae_Description :: string
  ae_HTTPStatusCode :: int

definition no_api_error :: api_error where
  "no_api_error = \<lparr>ae_Code = [], ae_Description = [], ae_HTTPStatusCode = 0\<rparr>"

definition apiErrors :: "string \<Rightarrow> api_error" where
  "apiErrors k =
     (if k = ''ErrAccessDenied''
      then \<lparr>ae_Code = ''AccessDenied'', ae_Description = ''Access Denied.'', ae_HTTPStatusCode = 403\<rparr>
      else if k = ''ErrInternalError''
      then \<lparr>ae_Code = ''InternalError'',
            ae_Description = ''We encountered an internal error, please try again.'', ae_HTTPStatusCode = 500\<rparr>
      else if k = ''ErrBucketAlreadyExists''
      then \<lparr>ae_Code = ''BucketAlreadyExists'',
            ae_Description = ''The requested bucket name is not available. The bucket '' @
              ''namespace is shared by all users of the system. Please select a different name and try again.'',
            ae_HTTPStatusCode = 409\<rparr>
      else if k = ''ErrNoSuchBucket''
      then \<lparr>ae_Code = ''NoSuchBucket'', ae_Description = ''The specified bucket does not exist'',
            ae_HTTPStatusCode = 404\<rparr>
      else no_api_error)"

datatype s3_out = CoreCodes "int list" | ApiError api_error | Xml string | StatusOnly int
  | AttributedBuckets "(string \<times> time \<times> string) list"

text \<open>The status a client sees: the first that is written, 200 if a body comes without one.\<close>

fun codes_of :: "s3_out \<Rightarrow> int list" where
  "codes_of (CoreCodes cs) = cs"
| "codes_of (ApiError e) = [ae_HTTPStatusCode e]"
| "codes_of (Xml _) = [200]"
| "codes_of (StatusOnly c) = [c]"
| "codes_of (AttributedBuckets _) = [200]"

definition status_of :: "s3_out list \<Rightarrow> int" where
  "status_of outs = (case concat (map codes_of outs) of [] \<Rightarrow> 200 | c # _ \<Rightarrow> c)"

text \<open>A request to the node: its method, URL and headers, and the name in the JSON object of its body.\<close>

record node_request =
  nq_method :: string
  nq_url :: string
  nq_headers :: "(string \<times> string) list"
  nq_name :: "string option"

record 'w s3_env =
  se_core :: "s3_op \<Rightarrow> s3_req \<Rightarrow> 'w \<Rightarrow> int list \<times> 'w"
  se_accessKey :: "s3_req \<Rightarrow> string"
  se_bucketOf :: "string \<Rightarrow> 'w \<Rightarrow> err + string"
  se_newRequest :: "node_request \<Rightarrow> err option"
  se_do :: "node_request \<Rightarrow> 'w \<Rightarrow> (err + int) \<times> 'w"
  se_nodeHost :: string
  se_nodeToken :: string
  se_corsAllowedOrigins :: "string list"
  se_listAllowed :: "s3_req \<Rightarrow> api_error option"
  se_listAttributed :: "'w \<Rightarrow> (err + (string \<times> time \<times> string) list) \<times> 'w"
  se_toAPIError :: "err \<Rightarrow> api_error"
  se_notImplemented :: api_error

subsection \<open>The node and the user (dws.go)\<close>

definition getUserID :: "'w s3_env \<Rightarrow> s3_req \<Rightarrow> 'w \<Rightarrow> err + string" where
  "getUserID E r w =
     (if se_accessKey E r = [] then Inl (Message ''failed to get access key from auth header'')
      else case se_bucketOf E (se_accessKey E r) w of
             Inl e \<Rightarrow> Inl (Detail ''failed to get bucket by access key'' e)
           | Inr bucket \<Rightarrow> Inr bucket)"

definition nodeBucketPath :: string where
  "nodeBucketPath = ''/storage/bucket''"

definition node_request_for :: "'w s3_env \<Rightarrow> string \<Rightarrow> string \<Rightarrow> node_request option" where
  "node_request_for E m bucketName =
     (let u = se_nodeHost E @ nodeBucketPath;
          headers = [(''Authorization'', se_nodeToken E)]
      in if m = ''HEAD'' \<or> m = ''DELETE''
         then Some \<lparr>nq_method = m, nq_url = u @ ''/'' @ bucketName, nq_headers = headers, nq_name = None\<rparr>
         else if m = ''POST''
         then Some \<lparr>nq_method = m, nq_url = u, nq_headers = headers @ [(''Content-Type'', ''application/json'')],
                    nq_name = Some bucketName\<rparr>
         else None)"

definition nodeBucketRequest :: "'w s3_env \<Rightarrow> string \<Rightarrow> string \<Rightarrow> 'w \<Rightarrow> (err + int) \<times> 'w" where
  "nodeBucketRequest E m bucketName w =
     (case node_request_for E m bucketName of
        None \<Rightarrow> (Inl (Message ''wrong http method''), w)
      | Some q \<Rightarrow>
          (case se_newRequest E q of
             Some e \<Rightarrow> (Inl (Detail ''could not create a request'' e), w)
           | None \<Rightarrow>
               (case se_do E q w of
                  (Inl e, v) \<Rightarrow> (Inl (Detail ''could not do request'' e), v)
                | (Inr sc, v) \<Rightarrow> (Inr sc, v))))"

definition set_vars :: "(string \<times> string) list \<Rightarrow> s3_req \<Rightarrow> s3_req" where
  "set_vars kvs r = r\<lparr>sr_vars := sr_vars r ++ map_of kvs\<rparr>"

definition denied :: "s3_out list" where
  "denied = [ApiError (apiErrors ''ErrAccessDenied'')]"

definition bucketPrefixSubstitutionWithoutObject :: "'w s3_env \<Rightarrow> s3_req \<Rightarrow> 'w \<Rightarrow> s3_out list + s3_req" where
  "bucketPrefixSubstitutionWithoutObject E r w =
     (case getUserID E r w of
        Inl _ \<Rightarrow> Inl denied
      | Inr userID \<Rightarrow> Inr (set_vars [(''bucket'', userID)] r))"

definition bucketPrefixSubstitution :: "'w s3_env \<Rightarrow> s3_req \<Rightarrow> 'w \<Rightarrow> s3_out list + s3_req" where
  "bucketPrefixSubstitution E r w =
     (let bucket = mux_var r ''bucket''
      in case getUserID E r w of
           Inl _ \<Rightarrow> Inl denied
         | Inr userID \<Rightarrow> Inr (set_vars [(''bucket'', userID), (''object'', bucket)] r))"

definition objectPrefixSubstitution :: "'w s3_env \<Rightarrow> s3_req \<Rightarrow> 'w \<Rightarrow> s3_out list + s3_req" where
  "objectPrefixSubstitution E r w =
     (let bucket = mux_var r ''bucket''; object = mux_var r ''object''
      in case getUserID E r w of
           Inl _ \<Rightarrow> Inl denied
         | Inr userID \<Rightarrow> Inr (set_vars [(''bucket'', userID), (''object'', join ''/'' [bucket, object])] r))"

text \<open>
  \<open>WrapperResponseWriter\<close> remembers the last code given to its \<open>WriteHeader\<close>, 0 before the first.
\<close>

definition getCurrentStatus :: "int list \<Rightarrow> int" where
  "getCurrentStatus codes = (if codes = [] then 0 else last codes)"

subsection \<open>The handlers that call the object store (api-handlers.go)\<close>

definition call_core :: "'w s3_env \<Rightarrow> s3_op \<Rightarrow> s3_req \<Rightarrow> 'w \<Rightarrow> s3_out list \<times> 'w" where
  "call_core E op r w = (let (codes, v) = se_core E op r w in ([CoreCodes codes], v))"

definition call_substituted :: "s3_out list + s3_req \<Rightarrow> 'w s3_env \<Rightarrow> s3_op \<Rightarrow> 'w \<Rightarrow> s3_out list \<times> 'w" where
  "call_substituted s E op w = (case s of Inl outs \<Rightarrow> (outs, w) | Inr r \<Rightarrow> call_core E op r w)"

definition HeadObjectHandler :: "'w s3_env \<Rightarrow> s3_req \<Rightarrow> 'w \<Rightarrow> s3_out list \<times> 'w" where
  "HeadObjectHandler E r w = call_substituted (objectPrefixSubstitution E r w) E HeadObject w"

definition CopyObjectPartHandler :: "'w s3_env \<Rightarrow> s3_req \<Rightarrow> 'w \<Rightarrow> s3_out list \<times> 'w" where
  "CopyObjectPartHandler E r w = call_core E CopyObjectPart r w"

definition PutObjectPartHandler :: "'w s3_env \<Rightarrow> s3_req \<Rightarrow> 'w \<Rightarrow> s3_out list \<times> 'w" where
  "PutObjectPartHandler E r w = call_substituted (objectPrefixSubstitution E r w) E PutObjectPart w"

definition ListObjectPartsHandler :: "'w s3_env \<Rightarrow> s3_req \<Rightarrow> 'w \<Rightarrow> s3_out list \<times> 'w" where
  "ListObjectPartsHandler E r w = call_substituted (objectPrefixSubstitution E r w) E ListObjectParts w"

definition CompleteMultipartUploadHandler :: "'w s3_env \<Rightarrow> s3_req \<Rightarrow> 'w \<Rightarrow> s3_out list \<times> 'w" where
  "CompleteMultipartUploadHandler E r w = call_substituted (objectPrefixSubstitution E r w) E CompleteMultipartUpload w"

definition NewMultipartUploadHandler :: "'w s3_env \<Rightarrow> s3_req \<Rightarrow> 'w \<Rightarrow> s3_out list \<times> 'w" where
  "NewMultipartUploadHandler E r w = call_substituted (objectPrefixSubstitution E r w) E NewMultipartUpload w"

definition AbortMultipartUploadHandler :: "'w s3_env \<Rightarrow> s3_req \<Rightarrow> 'w \<Rightarrow> s3_out list \<times> 'w" where
  "AbortMultipartUploadHandler E r w = call_substituted (objectPrefixSubstitution E r w) E AbortMultipartUpload w"

definition GetObjectACLHandler :: "'w s3_env \<Rightarrow> s3_req \<Rightarrow> 'w \<Rightarrow> s3_out list \<times> 'w" where
  "GetObjectACLHandler E r w = call_core E GetObjectACL r w"

definition PutObjectACLHandler :: "'w s3_env \<Rightarrow> s3_req \<Rightarrow> 'w \<Rightarrow> s3_out list \<times> 'w" where
  "PutObjectACLHandler E r w = call_core E PutObjectACL r w"

definition GetObjectTaggingHandler :: "'w s3_env \<Rightarrow> s3_req \<Rightarrow> 'w \<Rightarrow> s3_out list \<times> 'w" where
  "GetObjectTaggingHandler E r w = call_core E GetObjectTagging r w"

definition PutObjectTaggingHandler :: "'w s3_env \<Rightarrow> s3_req \<Rightarrow> 'w \<Rightarrow> s3_out list \<times> 'w" where
  "PutObjectTaggingHandler E r w = call_core E PutObjectTagging r w"

definition DeleteObjectTaggingHandler :: "'w s3_env \<Rightarrow> s3_req \<Rightarrow> 'w \<Rightarrow> s3_out list \<times> 'w" where
  "DeleteObjectTaggingHandler E r w = call_core E DeleteObjectTagging r w"

definition SelectObjectContentHandler :: "'w s3_env \<Rightarrow> s3_req \<Rightarrow> 'w \<Rightarrow> s3_out list \<times> 'w" where
  "SelectObjectContentHandler E r w = call_core E SelectObjectContent r w"

definition GetObjectRetentionHandler :: "'w s3_env \<Rightarrow> s3_req \<Rightarrow> 'w \<Rightarrow> s3_out list \<times> 'w" where
  "GetObjectRetentionHandler E r w = call_core E GetObjectRetention r w"

definition GetObjectLegalHoldHandler :: "'w s3_env \<Rightarrow> s3_req \<Rightarrow> 'w \<Rightarrow> s3_out list \<times> 'w" where
  "GetObjectLegalHoldHandler E r w = call_core E GetObjectLegalHold r w"

definition GetObjectHandler :: "'w s3_env \<Rightarrow> s3_req \<Rightarrow> 'w \<Rightarrow> s3_out list \<times> 'w" where
  "GetObjectHandler E r w = call_substituted (objectPrefixSubstitution E r w) E GetObject w"

definition CopyObjectHandler :: "'w s3_env \<Rightarrow> s3_req \<Rightarrow> 'w \<Rightarrow> s3_out list \<times> 'w" where
  "CopyObjectHandler E r w =
     (case objectPrefixSubstitution E r w of
        Inl outs \<Rightarrow> (outs, w)
      | Inr r1 \<Rightarrow>
          (let source = path_join [mux_var r1 ''bucket'', header_get (hr_Header (sr_http r1)) ''X-Amz-Copy-Source''];
               http = (sr_http r1)\<lparr>hr_Header := header_set ''X-Amz-Copy-Source'' source (hr_Header (sr_http r1))\<rparr>
           in call_core E CopyObject (r1\<lparr>sr_http := http\<rparr>) w))"

definition PutObjectRetentionHandler :: "'w s3_env \<Rightarrow> s3_req \<Rightarrow> 'w \<Rightarrow> s3_out list \<times> 'w" where
  "PutObjectRetentionHandler E r w = call_core E PutObjectRetention r w"

definition PutObjectLegalHoldHandler :: "'w s3_env \<Rightarrow> s3_req \<Rightarrow> 'w \<Rightarrow> s3_out list \<times> 'w" where
  "PutObjectLegalHoldHandler E r w = call_core E PutObjectLegalHold r w"

definition PutObjectHandler :: "'w s3_env \<Rightarrow> s3_req \<Rightarrow> 'w \<Rightarrow> s3_out list \<times> 'w" where
  "PutObjectHandler E r w = call_substituted (objectPrefixSubstitution E r w) E PutObject w"

definition DeleteObjectHandler :: "'w s3_env \<Rightarrow> s3_req \<Rightarrow> 'w \<Rightarrow> s3_out list \<times> 'w" where
  "DeleteObjectHandler E r w = call_substituted (objectPrefixSubstitution E r w) E DeleteObject w"

definition GetBucketLocationHandler :: "'w s3_env \<Rightarrow> s3_req \<Rightarrow> 'w \<Rightarrow> s3_out list \<times> 'w" where
  "GetBucketLocationHandler E r w = call_core E GetBucketLocation r w"

definition GetBucketPolicyHandler :: "'w s3_env \<Rightarrow> s3_req \<Rightarrow> 'w \<Rightarrow> s3_out list \<times> 'w" where
  "GetBucketPolicyHandler E r w = call_core E GetBucketPolicy r w"

definition GetBucketLifecycleHandler :: "'w s3_env \<Rightarrow> s3_req \<Rightarrow> 'w \<Rightarrow> s3_out list \<times> 'w" where
  "GetBucketLifecycleHandler E r w = call_core E GetBucketLifecycle r w"

definition GetBucketEncryptionHandler :: "'w s3_env \<Rightarrow> s3_req \<Rightarrow> 'w \<Rightarrow> s3_out list \<times> 'w" where
  "GetBucketEncryptionHandler E r w = call_core E GetBucketEncryption r w"

definition GetBucketObjectLockConfigHandler :: "'w s3_env \<Rightarrow> s3_req \<Rightarrow> 'w \<Rightarrow> s3_out list \<times> 'w" where
  "GetBucketObjectLockConfigHandler E r w = call_core E GetBucketObjectLockConfig r w"

definition GetBucketReplicationConfigHandler :: "'w s3_env \<Rightarrow> s3_req \<Rightarrow> 'w \<Rightarrow> s3_out list \<times> 'w" where
  "GetBucketReplicationConfigHandler E r w = call_core E GetBucketReplicationConfig r w"

definition GetBucketVersioningHandler :: "'w s3_env \<Rightarrow> s3_req \<Rightarrow> 'w \<Rightarrow> s3_out list \<times> 'w" where
  "GetBucketVersioningHandler E r w = call_core E GetBucketVersioning r w"

definition GetBucketNotificationHandler :: "'w s3_env \<Rightarrow> s3_req \<Rightarrow> 'w \<Rightarrow> s3_out list \<times> 'w" where
  "GetBucketNotificationHandler E r w = call_core E GetBucketNotification r w"

definition ListenNotificationHandler :: "'w s3_env \<Rightarrow> s3_req \<Rightarrow> 'w \<Rightarrow> s3_out list \<times> 'w" where
  "ListenNotificationHandler E r w = call_core E ListenNotification r w"

definition GetBucketACLHandler :: "'w s3_env \<Rightarrow> s3_req \<Rightarrow> 'w \<Rightarrow> s3_out list \<times> 'w" where
  "GetBucketACLHandler E r w = call_core E GetBucketACL r w"

definition PutBucketACLHandler :: "'w s3_env \<Rightarrow> s3_req \<Rightarrow> 'w \<Rightarrow> s3_out list \<times> 'w" where
  "PutBucketACLHandler E r w = call_core E PutBucketACL r w"

definition GetBucketWebsiteHandler :: "'w s3_env \<Rightarrow> s3_req \<Rightarrow> 'w \<Rightarrow> s3_out list \<times> 'w" where
  "GetBucketWebsiteHandler E r w = call_core E GetBucketWebsite r w"

definition GetBucketAccelerateHandler :: "'w s3_env \<Rightarrow> s3_req \<Rightarrow> 'w \<Rightarrow> s3_out list \<times> 'w" where
  "GetBucketAccelerateHandler E r w = call_core E GetBucketAccelerate r w"

definition GetBucketRequestPaymentHandler :: "'w s3_env \<Rightarrow> s3_req \<Rightarrow> 'w \<Rightarrow> s3_out list \<times> 'w" where
  "GetBucketRequestPaymentHandler E r w = call_core E GetBucketRequestPayment r w"

definition GetBucketLoggingHandler :: "'w s3_env \<Rightarrow> s3_req \<Rightarrow> 'w \<Rightarrow> s3_out list \<times> 'w" where
  "GetBucketLoggingHandler E r w = call_core E GetBucketLogging r w"

definition GetBucketTaggingHandler :: "'w s3_env \<Rightarrow> s3_req \<Rightarrow> 'w \<Rightarrow> s3_out list \<times> 'w" where
  "GetBucketTaggingHandler E r w = call_core E GetBucketTagging r w"

definition DeleteBucketWebsiteHandler :: "'w s3_env \<Rightarrow> s3_req \<Rightarrow> 'w \<Rightarrow> s3_out list \<times> 'w" where
  "DeleteBucketWebsiteHandler E r w = call_core E DeleteBucketWebsite r w"

definition DeleteBucketTaggingHandler :: "'w s3_env \<Rightarrow> s3_req \<Rightarrow> 'w \<Rightarrow> s3_out list \<times> 'w" where
  "DeleteBucketTaggingHandler E r w = call_core E DeleteBucketTagging r w"

definition ListMultipartUploadsHandler :: "'w s3_env \<Rightarrow> s3_req \<Rightarrow> 'w \<Rightarrow> s3_out list \<times> 'w" where
  "ListMultipartUploadsHandler E r w = call_substituted (bucketPrefixSubstitution E r w) E ListMultipartUploads w"

definition ListObjectsV2MHandler :: "'w s3_env \<Rightarrow> s3_req \<Rightarrow> 'w \<Rightarrow> s3_out list \<times> 'w" where
  "ListObjectsV2MHandler E r w = call_core E ListObjectsV2M r w"

definition ListObjectsV2Handler :: "'w s3_env \<Rightarrow> s3_req \<Rightarrow> 'w \<Rightarrow> s3_out list \<times> 'w" where
  "ListObjectsV2Handler E r w = call_substituted (bucketPrefixSubstitution E r w) E ListObjectsV2 w"

definition ListObjectVersionsHandler :: "'w s3_env \<Rightarrow> s3_req \<Rightarrow> 'w \<Rightarrow> s3_out list \<times> 'w" where
  "ListObjectVersionsHandler E r w = call_core E ListObjectVersions r w"

definition ListObjectsV1Handler :: "'w s3_env \<Rightarrow> s3_req \<Rightarrow> 'w \<Rightarrow> s3_out list \<times> 'w" where
  "ListObjectsV1Handler E r w = call_substituted (bucketPrefixSubstitution E r w) E ListObjectsV1 w"

definition PutBucketLifecycleHandler :: "'w s3_env \<Rightarrow> s3_req \<Rightarrow> 'w \<Rightarrow> s3_out list \<times> 'w" where
  "PutBucketLifecycleHandler E r w = call_core E PutBucketLifecycle r w"

definition PutBucketReplicationConfigHandler :: "'w s3_env \<Rightarrow> s3_req \<Rightarrow> 'w \<Rightarrow> s3_out list \<times> 'w" where
  "PutBucketReplicationConfigHandler E r w = call_core E PutBucketReplicationConfig r w"

definition PutBucketEncryptionHandler :: "'w s3_env \<Rightarrow> s3_req \<Rightarrow> 'w \<Rightarrow> s3_out list \<times> 'w" where
  "PutBucketEncryptionHandler E r w = call_core E PutBucketEncryption r w"

definition PutBucketPolicyHandler :: "'w s3_env \<Rightarrow> s3_req \<Rightarrow> 'w \<Rightarrow> s3_out list \<times> 'w" where
  "PutBucketPolicyHandler E r w = call_core E PutBucketPolicy r w"

definition PutBucketObjectLockConfigHandler :: "'w s3_env \<Rightarrow> s3_req \<Rightarrow> 'w \<Rightarrow> s3_out list \<times> 'w" where
  "PutBucketObjectLockConfigHandler E r w = call_core E PutBucketObjectLockConfig r w"

definition PutBucketTaggingHandler :: "'w s3_env \<Rightarrow> s3_req \<Rightarrow> 'w \<Rightarrow> s3_out list \<times> 'w" where
  "PutBucketTaggingHandler E r w = call_core E PutBucketTagging r w"

definition PutBucketVersioningHandler :: "'w s3_env \<Rightarrow> s3_req \<Rightarrow> 'w \<Rightarrow> s3_out list \<times> 'w" where
  "PutBucketVersioningHandler E r w = call_core E PutBucketVersioning r w"

definition PutBucketNotificationHandler :: "'w s3_env \<Rightarrow> s3_req \<Rightarrow> 'w \<Rightarrow> s3_out list \<times> 'w" where
  "PutBucketNotificationHandler E r w = call_core E PutBucketNotification r w"

definition PostPolicyBucketHandler :: "'w s3_env \<Rightarrow> s3_req \<Rightarrow> 'w \<Rightarrow> s3_out list \<times> 'w" where
  "PostPolicyBucketHandler E r w = call_core E PostPolicyBucket r w"

definition DeleteMultipleObjectsHandler :: "'w s3_env \<Rightarrow> s3_req \<Rightarrow> 'w \<Rightarrow> s3_out list \<times> 'w" where
  "DeleteMultipleObjectsHandler E r w = call_substituted (bucketPrefixSubstitution E r w) E DeleteMultipleObjects w"

definition DeleteBucketPolicyHandler :: "'w s3_env \<Rightarrow> s3_req \<Rightarrow> 'w \<Rightarrow> s3_out list \<times> 'w" where
  "DeleteBucketPolicyHandler E r w = call_core E DeleteBucketPolicy r w"

definition DeleteBucketReplicationConfigHandler :: "'w s3_env \<Rightarrow> s3_req \<Rightarrow> 'w \<Rightarrow> s3_out list \<times> 'w" where
  "DeleteBucketReplicationConfigHandler E r w = call_core E DeleteBucketReplicationConfig r w"

definition DeleteBucketLifecycleHandler :: "'w s3_env \<Rightarrow> s3_req \<Rightarrow> 'w \<Rightarrow> s3_out list \<times> 'w" where
  "DeleteBucketLifecycleHandler E r w = call_core E DeleteBucketLifecycle r w"

definition DeleteBucketEncryptionHandler :: "'w s3_env \<Rightarrow> s3_req \<Rightarrow> 'w \<Rightarrow> s3_out list \<times> 'w" where
  "DeleteBucketEncryptionHandler E r w = call_core E DeleteBucketEncryption r w"

definition PostRestoreObjectHandler :: "'w s3_env \<Rightarrow> s3_req \<Rightarrow> 'w \<Rightarrow> s3_out list \<times> 'w" where
  "PostRestoreObjectHandler E r w = call_core E PostRestoreObject r w"

definition ListBucketsHandler :: "'w s3_env \<Rightarrow> s3_req \<Rightarrow> 'w \<Rightarrow> s3_out list \<times> 'w" where
  "ListBucketsHandler E r w = call_substituted (bucketPrefixSubstitutionWithoutObject E r w) E ListBuckets w"

subsection \<open>The handlers that answer themselves, and those of buckets\<close>

definition cors_xml :: "string list \<Rightarrow> string" where
  "cors_xml origins =
     ''<CORSConfiguration><CORSRule>''
     @ concat (map (\<lambda>v. ''<AllowedOrigin>'' @ v @ ''</AllowedOrigin>'') origins)
     @ concat (map (\<lambda>v. ''<AllowedMethod>'' @ v @ ''</AllowedMethod>'')
         [''GET'', ''PUT'', ''HEAD'', ''POST'', ''DELETE'', ''OPTIONS'', ''PATCH''])
     @ ''<AllowedHeader>*</AllowedHeader><ExposeHeader>*</ExposeHeader></CORSRule></CORSConfiguration>''"

definition GetBucketCorsHandler :: "'w s3_env \<Rightarrow> s3_req \<Rightarrow> 'w \<Rightarrow> s3_out list \<times> 'w" where
  "GetBucketCorsHandler E r w = ([Xml (cors_xml (se_corsAllowedOrigins E))], w)"

definition PutBucketCorsHandler :: "'w s3_env \<Rightarrow> s3_req \<Rightarrow> 'w \<Rightarrow> s3_out list \<times> 'w" where
  "PutBucketCorsHandler E r w = ([ApiError (se_notImplemented E)], w)"

definition DeleteBucketCorsHandler :: "'w s3_env \<Rightarrow> s3_req \<Rightarrow> 'w \<Rightarrow> s3_out list \<times> 'w" where
  "DeleteBucketCorsHandler E r w = ([ApiError (se_notImplemented E)], w)"

text \<open>
  The object store writes to the client's writer, not to the wrapper around it, so that the wrapper
  has seen no code.
\<close>

definition register_error :: "err + int \<Rightarrow> api_error" where
  "register_error res =
     (case res of
        Inl _ \<Rightarrow> apiErrors ''ErrInternalError''
      | Inr sc \<Rightarrow>
          if 400 \<le> sc \<and> sc < 500 then apiErrors ''ErrBucketAlreadyExists''
          else if 500 \<le> sc then apiErrors ''ErrInternalError''
          else no_api_error)"

definition PutBucketHandler :: "'w s3_env \<Rightarrow> s3_req \<Rightarrow> 'w \<Rightarrow> s3_out list \<times> 'w" where
  "PutBucketHandler E r w =
     (let bucket = mux_var r ''bucket''
      in case bucketPrefixSubstitution E r w of
           Inl outs \<Rightarrow> (outs, w)
         | Inr r1 \<Rightarrow>
             (case nodeBucketRequest E ''HEAD'' bucket w of
                (Inl _, w1) \<Rightarrow> ([ApiError (apiErrors ''ErrInternalError'')], w1)
              | (Inr status, w1) \<Rightarrow>
                  if 200 \<le> status \<and> status < 300 then
                    (let (codes, w2) = se_core E PutObject r1 w1
                     in if getCurrentStatus [] \<ge> 300 then ([CoreCodes codes], w2)
                        else let (res, w3) = nodeBucketRequest E ''POST'' bucket w2;
                                 e = register_error res
                             in (CoreCodes codes # (if ae_HTTPStatusCode e > 0 then [ApiError e] else []), w3))
                  else if status = 409 then ([ApiError (apiErrors ''ErrBucketAlreadyExists'')], w1)
                  else ([ApiError (apiErrors ''ErrInternalError'')], w1)))"

definition HeadBucketHandler :: "'w s3_env \<Rightarrow> s3_req \<Rightarrow> 'w \<Rightarrow> s3_out list \<times> 'w" where
  "HeadBucketHandler E r w =
     (case nodeBucketRequest E ''HEAD'' (mux_var r ''bucket'') w of
        (Inl _, v) \<Rightarrow> ([ApiError (apiErrors ''ErrInternalError'')], v)
      | (Inr status, v) \<Rightarrow>
          if 200 \<le> status \<and> status < 300 then ([ApiError (apiErrors ''ErrNoSuchBucket'')], v)
          else if status = 409 then ([StatusOnly 200], v)
          else ([ApiError (apiErrors ''ErrInternalError'')], v))"

definition DeleteBucketHandler :: "'w s3_env \<Rightarrow> s3_req \<Rightarrow> 'w \<Rightarrow> s3_out list \<times> 'w" where
  "DeleteBucketHandler E r w =
     (let bucket = mux_var r ''bucket''
      in case bucketPrefixSubstitution E r w of
           Inl outs \<Rightarrow> (outs, w)
         | Inr r1 \<Rightarrow>
             (let (codes, w1) = se_core E DeleteObject r1 w
              in if getCurrentStatus codes \<ge> 300 then ([CoreCodes codes], w1)
                 else case nodeBucketRequest E ''DELETE'' bucket w1 of
                        (Inl _, w2) \<Rightarrow> ([CoreCodes codes, ApiError (apiErrors ''ErrInternalError'')], w2)
                      | (Inr status, w2) \<Rightarrow>
                          if status \<ge> 300 \<or> status < 200
                          then ([CoreCodes codes, ApiError (apiErrors ''ErrInternalError'')], w2)
                          else ([CoreCodes codes], w2)))"

text \<open>
  The listing with attributions (bucket-handlers.go): the check of the request and the buckets of the
  layer are arguments, the answer is the list that is encoded as XML.
\<close>

definition newListBucketsWithAttributionHandler :: "'w s3_env \<Rightarrow> s3_req \<Rightarrow> 'w \<Rightarrow> s3_out list \<times> 'w" where
  "newListBucketsWithAttributionHandler E r w =
     (case se_listAllowed E r of
        Some e \<Rightarrow> ([ApiError e], w)
      | None \<Rightarrow>
          (case se_listAttributed E w of
             (Inl e, v) \<Rightarrow> ([ApiError (se_toAPIError E e)], v)
           | (Inr buckets, v) \<Rightarrow> ([AttributedBuckets buckets], v)))"

text \<open>The handler of an operation.\<close>

primrec handle :: "s3_op \<Rightarrow> 'w s3_env \<Rightarrow> s3_req \<Rightarrow> 'w \<Rightarrow> s3_out list \<times> 'w" where
  "handle HeadObject = HeadObjectHandler"
| "handle CopyObjectPart = CopyObjectPartHandler"
| "handle PutObjectPart = PutObjectPartHandler"
| "handle ListObjectParts = ListObjectPartsHandler"
| "handle CompleteMultipartUpload = CompleteMultipartUploadHandler"
| "handle NewMultipartUpload = NewMultipartUploadHandler"
| "handle AbortMultipartUpload = AbortMultipartUploadHandler"
| "handle GetObjectACL = GetObjectACLHandler"
| "handle PutObjectACL = PutObjectACLHandler"
| "handle GetObjectTagging = GetObjectTaggingHandler"
| "handle PutObjectTagging = PutObjectTaggingHandler"
| "handle DeleteObjectTagging = DeleteObjectTaggingHandler"
| "handle SelectObjectContent = SelectObjectContentHandler"
| "handle GetObjectRetention = GetObjectRetentionHandler"
| "handle GetObjectLegalHold = GetObjectLegalHoldHandler"
| "handle GetObject = GetObjectHandler"
| "handle CopyObject = CopyObjectHandler"
| "handle PutObjectRetention = PutObjectRetentionHandler"
| "handle PutObjectLegalHold = PutObjectLegalHoldHandler"
| "handle PutObject = PutObjectHandler"
| "handle DeleteObject = DeleteObjectHandler"
| "handle GetBucketLocation = GetBucketLocationHandler"
| "handle GetBucketPolicy = GetBucketPolicyHandler"
| "handle GetBucketLifecycle = GetBucketLifecycleHandler"
| "handle GetBucketEncryption = GetBucketEncryptionHandler"
| "handle GetBucketObjectLockConfig = GetBucketObjectLockConfigHandler"
| "handle GetBucketReplicationConfig = GetBucketReplicationConfigHandler"
| "handle GetBucketVersioning = GetBucketVersioningHandler"
| "handle GetBucketNotification = GetBucketNotificationHandler"
| "handle ListenNotification = ListenNotificationHandler"
| "handle GetBucketACL = GetBucketACLHandler"
| "handle PutBucketACL = PutBucketACLHandler"
| "handle GetBucketCors = GetBucketCorsHandler"
| "handle PutBucketCors = PutBucketCorsHandler"
| "handle DeleteBucketCors = DeleteBucketCorsHandler"
| "handle GetBucketWebsite = GetBucketWebsiteHandler"
| "handle GetBucketAccelerate = GetBucketAccelerateHandler"
| "handle GetBucketRequestPayment = GetBucketRequestPaymentHandler"
| "handle GetBucketLogging = GetBucketLoggingHandler"
| "handle GetBucketTagging = GetBucketTaggingHandler"
| "handle DeleteBucketWebsite = DeleteBucketWebsiteHandler"
| "handle DeleteBucketTagging = DeleteBucketTaggingHandler"
| "handle ListMultipartUploads = ListMultipartUploadsHandler"
| "handle ListObjectsV2M = ListObjectsV2MHandler"
| "handle ListObjectsV2 = ListObjectsV2Handler"
| "handle ListObjectVersions = ListObjectVersionsHandler"
| "handle ListObjectsV1 = ListObjectsV1Handler"
| "handle PutBucketLifecycle = PutBucketLifecycleHandler"
| "handle PutBucketReplicationConfig = PutBucketReplicationConfigHandler"
| "handle PutBucketEncryption = PutBucketEncryptionHandler"
| "handle PutBucketPolicy = PutBucketPolicyHandler"
| "handle PutBucketObjectLockConfig = PutBucketObjectLockConfigHandler"
| "handle PutBucketTagging = PutBucketTaggingHandler"
| "handle PutBucketVersioning = PutBucketVersioningHandler"
| "handle PutBucketNotification = PutBucketNotificationHandler"
| "handle PutBucket = PutBucketHandler"
| "handle HeadBucket = HeadBucketHandler"
| "handle PostPolicyBucket = PostPolicyBucketHandler"
| "handle DeleteMultipleObjects = DeleteMultipleObjectsHandler"
| "handle DeleteBucketPolicy = DeleteBucketPolicyHandler"
| "handle DeleteBucketReplicationConfig = DeleteBucketReplicationConfigHandler"
| "handle DeleteBucketLifecycle = DeleteBucketLifecycleHandler"
| "handle DeleteBucketEncryption = DeleteBucketEncryptionHandler"
| "handle DeleteBucket = DeleteBucketHandler"
| "handle PostRestoreObject = PostRestoreObjectHandler"
| "handle ListBuckets = ListBucketsHandler"
| "handle ListBucketsWithAttribution = newListBucketsWithAttributionHandler"

end
