(* ===== verification/S3Router.thy ===== *)
theory S3Router
  imports S3Handlers
begin

section \<open>The routes of the S3 API (pkg/minio/api-router.go)\<close>

text \<open>
  The router of the gateway is a table that is searched for the first matching entry
  (\<open>gorilla/mux\<close>).  A bucket is named by the first element of the path or, for every domain name of
  the gateway, by the label before it in the host.  An entry asks for a method, for an object (the
  rest of the path, not empty), for a header and for parameters of the query; a pattern for a
  parameter without a value or with \<open>{uploadId:.*}\<close> matches what has no line feed.  Paths are matched
  as they are encoded.  The variables of the patterns in queries, which no handler of the program
  reads, are left out, and how a host is matched against a domain is an argument.
\<close>

datatype qpat = AnyValue | Exactly string | Digits

datatype header_pat = CopySource | Multipart

datatype route =
  Route (rt_method: string) (rt_object: bool) (rt_header: "header_pat option")
    (rt_queries: "(string \<times> qpat) list") (rt_limited: bool) (rt_op: s3_op)

definition object_routes :: "route list" where
  "object_routes =
    [Route ''HEAD'' True None [] False HeadObject,
     Route ''PUT'' True (Some CopySource) [(''partNumber'', Digits), (''uploadId'', AnyValue)] False CopyObjectPart,
     Route ''PUT'' True None [(''partNumber'', Digits), (''uploadId'', AnyValue)] True PutObjectPart,
     Route ''GET'' True None [(''uploadId'', AnyValue)] False ListObjectParts,
     Route ''POST'' True None [(''uploadId'', AnyValue)] False CompleteMultipartUpload,
     Route ''POST'' True None [(''uploads'', AnyValue)] False NewMultipartUpload,
     Route ''DELETE'' True None [(''uploadId'', AnyValue)] False AbortMultipartUpload,
     Route ''GET'' True None [(''acl'', AnyValue)] False GetObjectACL,
     Route ''PUT'' True None [(''acl'', AnyValue)] False PutObjectACL,
     Route ''GET'' True None [(''tagging'', AnyValue)] False GetObjectTagging,
     Route ''PUT'' True None [(''tagging'', AnyValue)] False PutObjectTagging,
     Route ''DELETE'' True None [(''tagging'', AnyValue)] False DeleteObjectTagging,
     Route ''POST'' True None [(''select'', AnyValue), (''select-type'', Exactly ''2'')] False SelectObjectContent,
     Route ''GET'' True None [(''retention'', AnyValue)] False GetObjectRetention,
     Route ''GET'' True None [(''legal-hold'', AnyValue)] False GetObjectLegalHold,
     Route ''GET'' True None [] True GetObject,
     Route ''PUT'' True (Some CopySource) [] False CopyObject,
     Route ''PUT'' True None [(''retention'', AnyValue)] False PutObjectRetention,
     Route ''PUT'' True None [(''legal-hold'', AnyValue)] False PutObjectLegalHold,
     Route ''PUT'' True None [] True PutObject,
     Route ''DELETE'' True None [] False DeleteObject]"

definition bucket_routes :: "route list" where
  "bucket_routes =
    [Route ''GET'' False None [(''location'', AnyValue)] False GetBucketLocation,
     Route ''GET'' False None [(''policy'', AnyValue)] False GetBucketPolicy,
     Route ''GET'' False None [(''lifecycle'', AnyValue)] False GetBucketLifecycle,
     Route ''GET'' False None [(''encryption'', AnyValue)] False GetBucketEncryption,
     Route ''GET'' False None [(''object-lock'', AnyValue)] False GetBucketObjectLockConfig,
     Route ''GET'' False None [(''replication'', AnyValue)] False GetBucketReplicationConfig,
     Route ''GET'' False None [(''versioning'', AnyValue)] False GetBucketVersioning,
     Route ''GET'' False None [(''notification'', AnyValue)] False GetBucketNotification,
     Route ''GET'' False None [(''events'', AnyValue)] False ListenNotification,
     Route ''GET'' False None [(''acl'', AnyValue)] False GetBucketACL,
     Route ''PUT'' False None [(''acl'', AnyValue)] False PutBucketACL,
     Route ''GET'' False None [(''cors'', AnyValue)] False GetBucketCors,
     Route ''PUT'' False None [(''cors'', AnyValue)] False PutBucketCors,
     Route ''DELETE'' False None [(''cors'', AnyValue)] False DeleteBucketCors,
     Route ''GET'' False None [(''website'', AnyValue)] False GetBucketWebsite,
     Route ''GET'' False None [(''accelerate'', AnyValue)] False GetBucketAccelerate,
     Route ''GET'' False None [(''requestPayment'', AnyValue)] False GetBucketRequestPayment,
     Route ''GET'' False None [(''logging'', AnyValue)] False GetBucketLogging,
     Route ''GET'' False None [(''lifecycle'', AnyValue)] False GetBucketLifecycle,
     Route ''GET'' False None [(''tagging'', AnyValue)] False GetBucketTagging,
     Route ''DELETE'' False None [(''website'', AnyValue)] False DeleteBucketWebsite,
     Route ''DELETE'' False None [(''tagging'', AnyValue)] False DeleteBucketTagging,
     Route ''GET'' False None [(''uploads'', AnyValue)] False ListMultipartUploads,
     Route ''GET'' False None [(''list-type'', Exactly ''2''), (''metadata'', Exactly ''true'')] False ListObjectsV2M,
     Route ''GET'' False None [(''list-type'', Exactly ''2'')] False ListObjectsV2,
     Route ''GET'' False None [(''versions'', AnyValue)] False ListObjectVersions,
     Route ''GET'' False None [] False ListObjectsV1,
     Route ''PUT'' False None [(''lifecycle'', AnyValue)] False PutBucketLifecycle,
     Route ''PUT'' False None [(''replication'', AnyValue)] False PutBucketReplicationConfig,
     Route ''PUT'' False None [(''encryption'', AnyValue)] False PutBucketEncryption,
     Route ''PUT'' False None [(''policy'', AnyValue)] False PutBucketPolicy,
     Route ''PUT'' False None [(''object-lock'', AnyValue)] False PutBucketObjectLockConfig,
     Route ''PUT'' False None [(''tagging'', AnyValue)] False PutBucketTagging,
     Route ''PUT'' False None [(''versioning'', AnyValue)] False PutBucketVersioning,
     Route ''PUT'' False None [(''notification'', AnyValue)] False PutBucketNotification,
     Route ''PUT'' False None [] False PutBucket,
     Route ''HEAD'' False None [] False HeadBucket,
     Route ''POST'' False (Some Multipart) [] True PostPolicyBucket,
     Route ''POST'' False None [(''delete'', AnyValue)] False DeleteMultipleObjects,
     Route ''DELETE'' False None [(''policy'', AnyValue)] False DeleteBucketPolicy,
     Route ''DELETE'' False None [(''replication'', AnyValue)] False DeleteBucketReplicationConfig,
     Route ''DELETE'' False None [(''lifecycle'', AnyValue)] False DeleteBucketLifecycle,
     Route ''DELETE'' False None [(''encryption'', AnyValue)] False DeleteBucketEncryption,
     Route ''DELETE'' False None [] False DeleteBucket,
     Route ''POST'' True None [(''restore'', AnyValue)] False PostRestoreObject]"

definition s3_routes :: "route list" where
  "s3_routes = object_routes @ bucket_routes"

subsection \<open>Matching\<close>

fun value_matches :: "qpat \<Rightarrow> string \<Rightarrow> bool" where
  "value_matches AnyValue v = (CHR 0x0A \<notin> set v)"
| "value_matches (Exactly x) v = (v = x)"
| "value_matches Digits v = (v \<noteq> [] \<and> list_all is_digit v)"

definition query_matches :: "query \<Rightarrow> string \<times> qpat \<Rightarrow> bool" where
  "query_matches q kp = (q_has q (fst kp) \<and> value_matches (snd kp) (q_get q (fst kp)))"

text \<open>The regular expressions for headers, \<open>.*?(\/|%2F).*?\<close> and \<open>multipart/form-data*\<close>, are not anchored.\<close>

fun header_matches :: "header \<Rightarrow> header_pat \<Rightarrow> bool" where
  "header_matches h CopySource =
     list_ex (\<lambda>(n, v). equal_fold n ''X-Amz-Copy-Source'' \<and> (contains v ''/'' \<or> contains v [CHR 0x25, CHR ''2'', CHR ''F''])) h"
| "header_matches h Multipart =
     list_ex (\<lambda>(n, v). equal_fold n ''Content-Type'' \<and> contains v ''multipart/form-dat'') h"

definition route_matches :: "http_req \<Rightarrow> bool \<Rightarrow> route \<Rightarrow> bool" where
  "route_matches r has_object rt \<longleftrightarrow>
     hr_Method r = rt_method rt \<and> (rt_object rt \<longrightarrow> has_object)
     \<and> (case rt_header rt of None \<Rightarrow> True | Some p \<Rightarrow> header_matches (hr_Header r) p)
     \<and> list_all (query_matches (hr_Query r)) (rt_queries rt)"

definition rest_object :: "string \<Rightarrow> string option" where
  "rest_object rest = (case rest of [] \<Rightarrow> None | c # obj \<Rightarrow> if c = CHR ''/'' \<and> obj \<noteq> [] then Some obj else None)"

text \<open>\<open>PathPrefix("/{bucket}")\<close> and, for a domain, \<open>Host("{bucket:.+}.domain")\<close>.\<close>

definition path_style :: "http_req \<Rightarrow> (string \<times> string option) option" where
  "path_style r =
     (case hr_EscapedPath r of
        [] \<Rightarrow> None
      | c # p \<Rightarrow>
          let bucket = takeWhile (\<lambda>x. x \<noteq> CHR ''/'') p
          in if c = CHR ''/'' \<and> bucket \<noteq> [] then Some (bucket, rest_object (drop (length bucket) p)) else None)"

definition host_style :: "(string \<Rightarrow> string option) \<Rightarrow> http_req \<Rightarrow> (string \<times> string option) option" where
  "host_style host_bucket r =
     map_option (\<lambda>bucket. (bucket, rest_object (hr_EscapedPath r))) (host_bucket (hr_Host r))"

definition route_in :: "http_req \<Rightarrow> string \<times> string option \<Rightarrow> (route \<times> (string \<Rightarrow> string option)) option" where
  "route_in r bo =
     (case find (route_matches r (snd bo \<noteq> None)) s3_routes of
        None \<Rightarrow> None
      | Some rt \<Rightarrow>
          Some (rt, [''bucket'' \<mapsto> fst bo] ++ (if rt_object rt then (\<lambda>k. if k = ''object'' then snd bo else None) else Map.empty)))"

fun route_styles :: "(http_req \<Rightarrow> (string \<times> string option) option) list \<Rightarrow> http_req
    \<Rightarrow> (route \<times> (string \<Rightarrow> string option)) option" where
  "route_styles [] r = None"
| "route_styles (s # ss) r =
     (case s r of
        None \<Rightarrow> route_styles ss r
      | Some bo \<Rightarrow> (case route_in r bo of None \<Rightarrow> route_styles ss r | Some x \<Rightarrow> Some x))"

text \<open>The operations on the root.\<close>

definition root_route :: "http_req \<Rightarrow> s3_op option" where
  "root_route r =
     (if hr_Method r = ''GET'' \<and> hr_EscapedPath r = ''/'' \<and> query_matches (hr_Query r) (''events'', AnyValue)
      then Some ListenNotification
      else if hr_Method r = ''GET'' \<and> hr_EscapedPath r = ''/'' \<and> query_matches (hr_Query r) (''attribution'', AnyValue)
      then Some ListBucketsWithAttribution
      else if hr_Method r = ''GET'' \<and> (hr_EscapedPath r = ''/'' \<or> hr_EscapedPath r = ''//'') then Some ListBuckets
      else None)"

text \<open>
  The operation of a request, its variables, and whether its route is limited; \<open>None\<close> is answered
  by the handlers for what is not found and for methods that are not allowed.
\<close>

definition s3_route :: "(string \<Rightarrow> string option) list \<Rightarrow> http_req \<Rightarrow> (s3_op \<times> (string \<Rightarrow> string option) \<times> bool) option" where
  "s3_route domains r =
     (case route_styles (map host_style domains @ [path_style]) r of
        Some (rt, vars) \<Rightarrow> Some (rt_op rt, vars, rt_limited rt)
      | None \<Rightarrow> map_option (\<lambda>op. (op, Map.empty, False)) (root_route r))"

definition serve_s3 :: "(string \<Rightarrow> string option) list \<Rightarrow> 'w s3_env \<Rightarrow> http_req \<Rightarrow> 'w \<Rightarrow> (s3_out list \<times> 'w) option" where
  "serve_s3 domains E r w =
     (case s3_route domains r of
        None \<Rightarrow> None
      | Some (op, vars, _) \<Rightarrow> Some (handle op E \<lparr>sr_http = r, sr_vars = vars\<rparr> w))"

end
