(* ===== verification/S3_Facts.thy ===== *)
theory S3_Facts
  imports S3Router
begin

section \<open>What the S3 handlers guarantee\<close>

text \<open>
  The route table decides as a decision by method and parameters would; the operations that rewrite
  the variables of the route reach only the bucket of the user; those that do not address other
  objects than the ones a user stores; and what becomes of creating, probing and deleting buckets.
\<close>

subsection \<open>The decision of the route table\<close>

definition has_param :: "http_req \<Rightarrow> string \<Rightarrow> bool" where
  "has_param r k = query_matches (hr_Query r) (k, AnyValue)"

definition is_param :: "http_req \<Rightarrow> string \<Rightarrow> string \<Rightarrow> bool" where
  "is_param r k v = query_matches (hr_Query r) (k, Exactly v)"

definition is_part :: "http_req \<Rightarrow> bool" where
  "is_part r \<longleftrightarrow> query_matches (hr_Query r) (''partNumber'', Digits) \<and> has_param r ''uploadId''"

definition get_object_op :: "http_req \<Rightarrow> s3_op" where
  "get_object_op r =
     (if has_param r ''uploadId'' then ListObjectParts
      else if has_param r ''acl'' then GetObjectACL
      else if has_param r ''tagging'' then GetObjectTagging
      else if has_param r ''retention'' then GetObjectRetention
      else if has_param r ''legal-hold'' then GetObjectLegalHold
      else GetObject)"

definition put_object_op :: "http_req \<Rightarrow> s3_op" where
  "put_object_op r =
     (let copy = header_matches (hr_Header r) CopySource
      in if is_part r then (if copy then CopyObjectPart else PutObjectPart)
         else if has_param r ''acl'' then PutObjectACL
         else if has_param r ''tagging'' then PutObjectTagging
         else if copy then CopyObject
         else if has_param r ''retention'' then PutObjectRetention
         else if has_param r ''legal-hold'' then PutObjectLegalHold
         else PutObject)"

definition post_object_op :: "http_req \<Rightarrow> s3_op option" where
  "post_object_op r =
     (if has_param r ''uploadId'' then Some CompleteMultipartUpload
      else if has_param r ''uploads'' then Some NewMultipartUpload
      else if has_param r ''select'' \<and> is_param r ''select-type'' ''2'' then Some SelectObjectContent
      else if header_matches (hr_Header r) Multipart then Some PostPolicyBucket
      else if has_param r ''delete'' then Some DeleteMultipleObjects
      else if has_param r ''restore'' then Some PostRestoreObject
      else None)"

definition delete_object_op :: "http_req \<Rightarrow> s3_op" where
  "delete_object_op r =
     (if has_param r ''uploadId'' then AbortMultipartUpload
      else if has_param r ''tagging'' then DeleteObjectTagging
      else DeleteObject)"

definition object_op :: "http_req \<Rightarrow> s3_op option" where
  "object_op r =
     (if hr_Method r = ''GET'' then Some (get_object_op r)
      else if hr_Method r = ''HEAD'' then Some HeadObject
      else if hr_Method r = ''PUT'' then Some (put_object_op r)
      else if hr_Method r = ''POST'' then post_object_op r
      else if hr_Method r = ''DELETE'' then Some (delete_object_op r)
      else None)"

definition limited_ops :: "s3_op set" where
  "limited_ops = {PutObjectPart, GetObject, PutObject, PostPolicyBucket}"

text \<open>The operations on buckets that are meant by the lack of every parameter.\<close>

definition put_bucket_params :: "string list" where
  "put_bucket_params = [''acl'', ''cors'', ''lifecycle'', ''replication'', ''encryption'', ''policy'', ''object-lock'',
     ''tagging'', ''versioning'', ''notification'']"

definition delete_bucket_params :: "string list" where
  "delete_bucket_params = [''cors'', ''website'', ''tagging'', ''policy'', ''replication'', ''lifecycle'', ''encryption'']"

definition get_bucket_params :: "string list" where
  "get_bucket_params = [''location'', ''policy'', ''lifecycle'', ''encryption'', ''object-lock'', ''replication'',
     ''versioning'', ''notification'', ''events'', ''acl'', ''cors'', ''website'', ''accelerate'', ''requestPayment'',
     ''logging'', ''tagging'', ''uploads'', ''versions'']"

lemma route_matches_Route:
  "route_matches r has (Route m obj h qs lim op) \<longleftrightarrow>
     hr_Method r = m \<and> (obj \<longrightarrow> has) \<and> (case h of None \<Rightarrow> True | Some p \<Rightarrow> header_matches (hr_Header r) p)
     \<and> list_all (query_matches (hr_Query r)) qs"
  by (simp add: route_matches_def)

lemma find_if: "find P (x # xs) = (if P x then Some x else find P xs)"
  by simp

lemmas table_defs = s3_routes_def object_routes_def bucket_routes_def

lemmas op_defs = object_op_def get_object_op_def put_object_op_def post_object_op_def delete_object_op_def
  has_param_def is_param_def is_part_def limited_ops_def

definition entries :: "string \<Rightarrow> route list" where
  "entries m = filter (\<lambda>rt. rt_method rt = m) s3_routes"

lemma find_entries: "find (route_matches r has) s3_routes = find (route_matches r has) (entries (hr_Method r))"
proof -
  have "find (route_matches r has) rts = find (route_matches r has) (filter (\<lambda>rt. rt_method rt = hr_Method r) rts)" for rts
    by (induction rts) (auto simp: route_matches_def)
  then show ?thesis by (simp add: entries_def)
qed

abbreviation verdict :: "http_req \<Rightarrow> bool \<Rightarrow> (s3_op \<times> bool \<times> bool) option" where
  "verdict r has \<equiv> map_option (\<lambda>rt. (rt_op rt, rt_limited rt, rt_object rt)) (find (route_matches r has) s3_routes)"

lemma verdict_HEAD:
  assumes "hr_Method r = ''HEAD''"
  shows "verdict r True = Some (HeadObject, False, True)" and "verdict r False = Some (HeadBucket, False, False)"
  unfolding find_entries by (simp_all add: assms entries_def table_defs route_matches_Route)

lemma verdict_PUT:
  assumes "hr_Method r = ''PUT''"
  shows "verdict r True = Some (put_object_op r, put_object_op r \<in> limited_ops, True)"
    and "\<exists>op. verdict r False = Some (op, False, False) \<and> (op = PutBucket \<longleftrightarrow> (\<forall>k \<in> set put_bucket_params. \<not> has_param r k))"
  unfolding find_entries
  by (simp_all add: assms entries_def table_defs route_matches_Route op_defs Let_def put_bucket_params_def)

lemma verdict_GET:
  assumes "hr_Method r = ''GET''"
  shows "verdict r True = Some (get_object_op r, get_object_op r \<in> limited_ops, True)"
    and "\<exists>op. verdict r False = Some (op, False, False)
      \<and> (op = ListObjectsV1 \<longleftrightarrow> (\<forall>k \<in> set get_bucket_params. \<not> has_param r k) \<and> \<not> is_param r ''list-type'' ''2'')"
  unfolding find_entries
  by (simp_all add: assms entries_def table_defs route_matches_Route op_defs Let_def get_bucket_params_def)

lemma verdict_DELETE:
  assumes "hr_Method r = ''DELETE''"
  shows "verdict r True = Some (delete_object_op r, False, True)"
    and "\<exists>op. verdict r False = Some (op, False, False)
      \<and> (op = DeleteBucket \<longleftrightarrow> (\<forall>k \<in> set delete_bucket_params. \<not> has_param r k))"
  unfolding find_entries
  by (simp_all add: assms entries_def table_defs route_matches_Route op_defs Let_def delete_bucket_params_def)

lemma verdict_POST:
  assumes "hr_Method r = ''POST''"
  shows "verdict r True = map_option (\<lambda>op. (op, op \<in> limited_ops, op \<notin> {PostPolicyBucket, DeleteMultipleObjects})) (post_object_op r)"
    and "verdict r False = (if header_matches (hr_Header r) Multipart then Some (PostPolicyBucket, True, False)
      else if has_param r ''delete'' then Some (DeleteMultipleObjects, False, False) else None)"
  unfolding find_entries
  by (simp_all add: assms entries_def table_defs route_matches_Route op_defs Let_def)

lemma verdict_other:
  assumes "hr_Method r \<notin> {''GET'', ''HEAD'', ''PUT'', ''POST'', ''DELETE''}"
  shows "verdict r has = None"
proof -
  have "entries (hr_Method r) = []"
    using assms by (auto simp: entries_def table_defs)
  then show ?thesis by (simp add: find_entries)
qed

lemma put_object_keeps: "put_object_op r \<notin> {PostPolicyBucket, DeleteMultipleObjects}"
  by (simp add: put_object_op_def Let_def)

lemma get_object_keeps: "get_object_op r \<notin> {PostPolicyBucket, DeleteMultipleObjects}"
  by (simp add: get_object_op_def)

lemma delete_object_keeps: "delete_object_op r \<notin> {PostPolicyBucket, DeleteMultipleObjects}" "delete_object_op r \<notin> limited_ops"
  by (simp_all add: delete_object_op_def limited_ops_def)

lemma object_verdict:
  "verdict r True = map_option (\<lambda>op. (op, op \<in> limited_ops, op \<notin> {PostPolicyBucket, DeleteMultipleObjects})) (object_op r)"
proof -
  consider "hr_Method r = ''GET''" | "hr_Method r = ''HEAD''" | "hr_Method r = ''PUT''" | "hr_Method r = ''POST''"
    | "hr_Method r = ''DELETE''" | "hr_Method r \<notin> {''GET'', ''HEAD'', ''PUT'', ''POST'', ''DELETE''}"
    by blast
  then show ?thesis
  proof cases
    case 1 then show ?thesis using get_object_keeps [of r] unfolding object_op_def by (simp add: verdict_GET)
  next
    case 2 then show ?thesis unfolding object_op_def by (simp add: verdict_HEAD limited_ops_def)
  next
    case 3 then show ?thesis using put_object_keeps [of r] unfolding object_op_def by (simp add: verdict_PUT)
  next
    case 4 then show ?thesis unfolding object_op_def by (simp add: verdict_POST)
  next
    case 5 then show ?thesis using delete_object_keeps [of r] unfolding object_op_def by (simp add: verdict_DELETE)
  next
    case 6
    then have "object_op r = None" by (simp add: object_op_def)
    then show ?thesis by (simp add: verdict_other [OF 6])
  qed
qed

subsection \<open>Routing a request\<close>

text \<open>A request in path style for a bucket, or for an object in it, that no domain claims.\<close>

definition bucket_request :: "(string \<Rightarrow> string option) list \<Rightarrow> http_req \<Rightarrow> string \<Rightarrow> bool" where
  "bucket_request domains r b \<longleftrightarrow>
     (\<forall>d \<in> set domains. d (hr_Host r) = None) \<and> b \<noteq> [] \<and> CHR ''/'' \<notin> set b
     \<and> (hr_EscapedPath r = CHR ''/'' # b \<or> hr_EscapedPath r = CHR ''/'' # b @ ''/'')"

definition object_request :: "(string \<Rightarrow> string option) list \<Rightarrow> http_req \<Rightarrow> string \<Rightarrow> string \<Rightarrow> bool" where
  "object_request domains r b obj \<longleftrightarrow>
     (\<forall>d \<in> set domains. d (hr_Host r) = None) \<and> b \<noteq> [] \<and> CHR ''/'' \<notin> set b \<and> obj \<noteq> []
     \<and> hr_EscapedPath r = CHR ''/'' # b @ CHR ''/'' # obj"

lemma takeWhile_bucket: "CHR ''/'' \<notin> set b \<Longrightarrow> takeWhile (\<lambda>x. x \<noteq> CHR ''/'') (b @ CHR ''/'' # rest) = b"
  by (induction b) auto

lemma takeWhile_only: "CHR ''/'' \<notin> set b \<Longrightarrow> takeWhile (\<lambda>x. x \<noteq> CHR ''/'') b = b"
  by (induction b) auto

lemma path_style_object:
  "object_request domains r b obj \<Longrightarrow> path_style r = Some (b, Some obj)"
  by (simp add: object_request_def path_style_def takeWhile_bucket Let_def rest_object_def)

lemma path_style_bucket:
  "bucket_request domains r b \<Longrightarrow> path_style r = Some (b, None)"
  using takeWhile_bucket [of b "[]"]
  by (auto simp: bucket_request_def path_style_def takeWhile_only Let_def rest_object_def)

lemma route_styles_skip:
  "\<forall>d \<in> set ds. d (hr_Host r) = None \<Longrightarrow> route_styles (map host_style ds @ ss) r = route_styles ss r"
  by (induction ds) (auto simp: host_style_def)

lemma s3_route_path:
  assumes "\<forall>d \<in> set domains. d (hr_Host r) = None" and "path_style r = Some bo"
    and "hr_EscapedPath r \<noteq> ''/''" and "hr_EscapedPath r \<noteq> ''//''"
  shows "s3_route domains r = map_option (\<lambda>(rt, vars). (rt_op rt, vars, rt_limited rt)) (route_in r bo)"
  using assms by (auto simp: s3_route_def route_styles_skip root_route_def split: option.splits prod.splits)

lemma route_in_verdict:
  "map_option (\<lambda>(rt, vars). (rt_op rt, vars, rt_limited rt)) (route_in r (b, Some obj))
   = map_option (\<lambda>(op, lim, keeps). (op, if keeps then [''bucket'' \<mapsto> b, ''object'' \<mapsto> obj] else [''bucket'' \<mapsto> b], lim)) (verdict r True)"
  "map_option (\<lambda>(rt, vars). (rt_op rt, vars, rt_limited rt)) (route_in r (b, None))
   = map_option (\<lambda>(op, lim, keeps). (op, [''bucket'' \<mapsto> b], lim)) (verdict r False)"
  by (auto simp: route_in_def fun_eq_iff map_add_def split: option.splits)

lemma object_routed:
  assumes "object_request domains r b obj"
  shows "s3_route domains r = map_option (\<lambda>op. (op,
      if op \<in> {PostPolicyBucket, DeleteMultipleObjects} then [''bucket'' \<mapsto> b] else [''bucket'' \<mapsto> b, ''object'' \<mapsto> obj],
      op \<in> limited_ops)) (object_op r)"
proof -
  have "s3_route domains r = map_option (\<lambda>(rt, vars). (rt_op rt, vars, rt_limited rt)) (route_in r (b, Some obj))"
    using assms path_style_object [OF assms] by (intro s3_route_path) (auto simp: object_request_def append_eq_Cons_conv)
  then show ?thesis
    unfolding route_in_verdict object_verdict by (cases "object_op r") auto
qed

lemma bucket_routed:
  assumes "bucket_request domains r b"
  shows "s3_route domains r = map_option (\<lambda>(op, lim, keeps). (op, [''bucket'' \<mapsto> b], lim)) (verdict r False)"
proof -
  have "s3_route domains r = map_option (\<lambda>(rt, vars). (rt_op rt, vars, rt_limited rt)) (route_in r (b, None))"
    using assms path_style_bucket [OF assms] by (intro s3_route_path) (auto simp: bucket_request_def append_eq_Cons_conv)
  then show ?thesis unfolding route_in_verdict .
qed

definition method_of :: "s3_op \<Rightarrow> string option" where
  "method_of op = map_of [(PutBucket, ''PUT''), (DeleteBucket, ''DELETE''), (HeadBucket, ''HEAD''), (ListObjectsV1, ''GET'')] op"

lemma methods_of_table: "\<forall>rt \<in> set s3_routes. method_of (rt_op rt) = None \<or> method_of (rt_op rt) = Some (rt_method rt)"
  unfolding table_defs by (simp add: method_of_def)

lemma verdict_method:
  assumes "verdict r has = Some (op, lim, keeps)" and "method_of op = Some m"
  shows "hr_Method r = m"
proof -
  obtain rt where rt: "find (route_matches r has) s3_routes = Some rt" and op: "op = rt_op rt"
    using assms(1) by auto
  have "rt \<in> set s3_routes" "route_matches r has rt"
    using rt by (auto simp: find_Some_iff in_set_conv_nth)
  then show ?thesis
    using methods_of_table assms(2) op by (auto simp: route_matches_def)
qed

lemma verdict_iff:
  assumes "hr_Method r = m \<Longrightarrow> \<exists>op. verdict r False = Some (op, False, False) \<and> (op = t \<longleftrightarrow> c)" and "method_of t = Some m"
  shows "(\<exists>lim keeps. verdict r False = Some (t, lim, keeps)) \<longleftrightarrow> hr_Method r = m \<and> c" (is "?l \<longleftrightarrow> ?r")
proof
  assume l: ?l
  then have m: "hr_Method r = m" using verdict_method assms(2) by blast
  from assms(1) [OF m] l show ?r by (elim exE conjE) (simp add: m)
next
  assume r: ?r
  from assms(1) [OF conjunct1 [OF r]] obtain op where "verdict r False = Some (op, False, False)" "op = t \<longleftrightarrow> c" by blast
  with r show ?l by (intro exI [of _ False]) simp
qed

lemma bucket_verdicts:
  "(\<exists>lim keeps. verdict r False = Some (PutBucket, lim, keeps))
     \<longleftrightarrow> hr_Method r = ''PUT'' \<and> (\<forall>k \<in> set put_bucket_params. \<not> has_param r k)"
  "(\<exists>lim keeps. verdict r False = Some (DeleteBucket, lim, keeps))
     \<longleftrightarrow> hr_Method r = ''DELETE'' \<and> (\<forall>k \<in> set delete_bucket_params. \<not> has_param r k)"
  "(\<exists>lim keeps. verdict r False = Some (HeadBucket, lim, keeps)) \<longleftrightarrow> hr_Method r = ''HEAD'' \<and> True"
  "(\<exists>lim keeps. verdict r False = Some (ListObjectsV1, lim, keeps))
     \<longleftrightarrow> hr_Method r = ''GET'' \<and> (\<forall>k \<in> set get_bucket_params. \<not> has_param r k) \<and> \<not> is_param r ''list-type'' ''2''"
  by (rule verdict_iff, erule verdict_PUT(2), simp add: method_of_def,
      rule verdict_iff, erule verdict_DELETE(2), simp add: method_of_def,
      rule verdict_iff, simp only: verdict_HEAD(2), simp, simp add: method_of_def,
      rule verdict_iff, erule verdict_GET(2), simp add: method_of_def)

text \<open>
  C26: the route table of the S3 API, 66 entries of which the first match counts, decides a request for
  an object as \<open>object_op\<close> does, by the method and then by the parameters in a fixed order; the
  operations that are limited per credential are exactly the upload of objects and parts, the download
  of objects and the upload by form; and a bucket is created, deleted, probed or listed by a request
  that names the bucket alone and none of the parameters of the other operations.
\<close>

theorem s3_route_table:
  assumes "object_request domains r b obj" and "bucket_request domains r' b'"
  shows "s3_route domains r = map_option (\<lambda>op. (op,
        if op \<in> {PostPolicyBucket, DeleteMultipleObjects} then [''bucket'' \<mapsto> b] else [''bucket'' \<mapsto> b, ''object'' \<mapsto> obj],
        op \<in> {PutObjectPart, GetObject, PutObject, PostPolicyBucket})) (object_op r)
    \<and> ((\<exists>lim. s3_route domains r' = Some (PutBucket, [''bucket'' \<mapsto> b'], lim))
         \<longleftrightarrow> hr_Method r' = ''PUT'' \<and> (\<forall>k \<in> set put_bucket_params. \<not> has_param r' k))
    \<and> ((\<exists>lim. s3_route domains r' = Some (DeleteBucket, [''bucket'' \<mapsto> b'], lim))
         \<longleftrightarrow> hr_Method r' = ''DELETE'' \<and> (\<forall>k \<in> set delete_bucket_params. \<not> has_param r' k))
    \<and> ((\<exists>lim. s3_route domains r' = Some (HeadBucket, [''bucket'' \<mapsto> b'], lim)) \<longleftrightarrow> hr_Method r' = ''HEAD'')
    \<and> ((\<exists>lim. s3_route domains r' = Some (ListObjectsV1, [''bucket'' \<mapsto> b'], lim))
         \<longleftrightarrow> hr_Method r' = ''GET'' \<and> (\<forall>k \<in> set get_bucket_params. \<not> has_param r' k) \<and> \<not> is_param r' ''list-type'' ''2'')"
proof (intro conjI)
  show "s3_route domains r = map_option (\<lambda>op. (op,
        if op \<in> {PostPolicyBucket, DeleteMultipleObjects} then [''bucket'' \<mapsto> b] else [''bucket'' \<mapsto> b, ''object'' \<mapsto> obj],
        op \<in> {PutObjectPart, GetObject, PutObject, PostPolicyBucket})) (object_op r)"
    using object_routed [OF assms(1)] unfolding limited_ops_def .
  have r': "(\<exists>lim. s3_route domains r' = Some (op, [''bucket'' \<mapsto> b'], lim))
      \<longleftrightarrow> (\<exists>lim keeps. verdict r' False = Some (op, lim, keeps))" for op
    unfolding bucket_routed [OF assms(2)] by auto
  note r' = r' [of PutBucket, unfolded bucket_verdicts] r' [of DeleteBucket, unfolded bucket_verdicts]
    r' [of HeadBucket, unfolded bucket_verdicts simp_thms] r' [of ListObjectsV1, unfolded bucket_verdicts]
  show "(\<exists>lim. s3_route domains r' = Some (PutBucket, [''bucket'' \<mapsto> b'], lim))
         \<longleftrightarrow> hr_Method r' = ''PUT'' \<and> (\<forall>k \<in> set put_bucket_params. \<not> has_param r' k)" by (rule r'(1))
  show "(\<exists>lim. s3_route domains r' = Some (DeleteBucket, [''bucket'' \<mapsto> b'], lim))
         \<longleftrightarrow> hr_Method r' = ''DELETE'' \<and> (\<forall>k \<in> set delete_bucket_params. \<not> has_param r' k)" by (rule r'(2))
  show "(\<exists>lim. s3_route domains r' = Some (HeadBucket, [''bucket'' \<mapsto> b'], lim)) \<longleftrightarrow> hr_Method r' = ''HEAD''"
    by (rule r'(3))
  show "(\<exists>lim. s3_route domains r' = Some (ListObjectsV1, [''bucket'' \<mapsto> b'], lim))
         \<longleftrightarrow> hr_Method r' = ''GET'' \<and> (\<forall>k \<in> set get_bucket_params. \<not> has_param r' k) \<and> \<not> is_param r' ''list-type'' ''2''"
    by (rule r'(4))
qed

definition demo_http :: "string \<Rightarrow> string \<Rightarrow> query \<Rightarrow> header \<Rightarrow> http_req" where
  "demo_http m path q h = \<lparr>hr_Method = m, hr_Path = path, hr_EscapedPath = path, hr_Query = q, hr_Header = h, hr_Host = [],
     hr_RemoteAddr = [], hr_ContentLength = 0, hr_TransferEncoding = [], hr_RawQuery = [], hr_Scheme = [], hr_RequestURI = []\<rparr>"

lemma demo_http_request:
  assumes "b \<noteq> []" and "CHR ''/'' \<notin> set b"
  shows "obj \<noteq> [] \<Longrightarrow> object_request [] (demo_http m (CHR ''/'' # b @ CHR ''/'' # obj) q h) b obj"
    and "bucket_request [] (demo_http m (CHR ''/'' # b) q h) b"
  using assms by (simp_all add: object_request_def bucket_request_def demo_http_def)

lemma s3_route_table_witness:
  "s3_route [] (demo_http ''GET'' ''/b/k'' [] []) = Some (GetObject, [''bucket'' \<mapsto> ''b'', ''object'' \<mapsto> ''k''], True)
   \<and> s3_route [] (demo_http ''GET'' ''/b/k'' [(''tagging'', [])] []) = Some (GetObjectTagging, [''bucket'' \<mapsto> ''b'', ''object'' \<mapsto> ''k''], False)
   \<and> (\<exists>lim. s3_route [] (demo_http ''PUT'' ''/b'' [] []) = Some (PutBucket, [''bucket'' \<mapsto> ''b''], lim))"
proof -
  have req: "object_request [] (demo_http m ''/b/k'' q h) ''b'' ''k''" "bucket_request [] (demo_http m ''/b'' q h) ''b''" for m q h
    using demo_http_request(1) [of "''b''" "''k''" m q h] demo_http_request(2) [of "''b''" m q h] by simp_all
  note t = conjunct1 [OF s3_route_table [OF req]] conjunct1 [OF conjunct2 [OF s3_route_table [OF req]]]
  have "object_op (demo_http ''GET'' ''/b/k'' [] []) = Some GetObject"
    "object_op (demo_http ''GET'' ''/b/k'' [(''tagging'', [])] []) = Some GetObjectTagging"
    by (simp_all add: op_defs demo_http_def query_matches_def)
  moreover have "hr_Method (demo_http ''PUT'' ''/b'' [] []) = ''PUT''
      \<and> (\<forall>k \<in> set put_bucket_params. \<not> has_param (demo_http ''PUT'' ''/b'' [] []) k)"
    by (simp add: put_bucket_params_def has_param_def query_matches_def demo_http_def)
  ultimately show ?thesis
    unfolding t(1) t(2) by simp
qed

end
