(* ===== verification/S3_Users.thy ===== *)
theory S3_Users
  imports S3_Facts
begin

section \<open>Users and their buckets\<close>

text \<open>
  The operations that rewrite the variables of a request are confined to the bucket of the user, copies
  as long as their source does not climb out of it; the
  other operations on objects go where the request says, which is not where the user's objects are;
  a copy can name anybody's bucket as its source; and what a client is told about the creation and
  the deletion of a bucket is settled before the node has been asked.
\<close>

subsection \<open>Paths below a bucket\<close>

text \<open>
  The elements of a path, walked from a depth of \<open>d\<close> elements below a bucket: what is left of them after
  the first that climbs out of the bucket, or \<open>None\<close> if none does.
\<close>

fun climbs :: "nat \<Rightarrow> string list \<Rightarrow> string list option" where
  "climbs d [] = None"
| "climbs d (e # es) =
     (if e = [] \<or> e = ''.'' then climbs d es
      else if e = ''..'' then (case d of 0 \<Rightarrow> Some es | Suc d' \<Rightarrow> climbs d' es)
      else climbs (Suc d) es)"

lemma climbs_append: "climbs d es = Some rest \<Longrightarrow> climbs d (es @ fs) = Some (rest @ fs)"
  by (induction d es rule: climbs.induct) (auto split: nat.splits)

lemma clean_elems_below:
  assumes "climbs (length out) es = None" and "\<forall>e \<in> set out. plain_elem e" and "\<forall>e \<in> set es. CHR ''/'' \<notin> set e"
  shows "\<exists>ws. clean_elems False (out @ [u]) es = u # ws \<and> (\<forall>e \<in> set ws. plain_elem e)"
  using assms
proof (induction es arbitrary: out)
  case (Cons e es)
  consider "e = [] \<or> e = ''.''" | "e = ''..''" | "plain_elem e"
    using Cons.prems(3) by (auto simp: plain_elem_def)
  then show ?case
  proof cases
    case 1 with Cons show ?thesis by auto
  next
    case 2
    with Cons.prems obtain p ps where out: "out = p # ps" "climbs (length ps) es = None" by (cases out) auto
    with Cons.IH [of ps] Cons.prems 2 show ?thesis by (auto simp: plain_elem_def)
  next
    case 3
    with Cons.IH [of "e # out"] Cons.prems show ?thesis by (auto simp: plain_elem_def)
  qed
qed simp

lemma clean_elems_above:
  assumes "climbs (length out) es = Some rest" and "\<forall>e \<in> set out. plain_elem e" and "\<forall>e \<in> set es. CHR ''/'' \<notin> set e"
    and "u \<noteq> ''..''"
  shows "clean_elems False (out @ [u]) es = clean_elems False [] rest"
  using assms
proof (induction es arbitrary: out)
  case (Cons e es)
  consider "e = [] \<or> e = ''.''" | "e = ''..''" | "plain_elem e"
    using Cons.prems(3) by (auto simp: plain_elem_def)
  then show ?case
  proof cases
    case 1 with Cons show ?thesis by auto
  next
    case 2
    with Cons show ?thesis by (cases out) (auto simp: plain_elem_def)
  next
    case 3
    with Cons.IH [of "e # out"] Cons.prems show ?thesis by (auto simp: plain_elem_def)
  qed
qed simp

definition relative_path :: "string list \<Rightarrow> string" where
  "relative_path es = (case es of [] \<Rightarrow> ''.'' | e # fs \<Rightarrow> join ''/'' (e # fs))"

lemma path_join_below:
  assumes "plain_elem u"
  shows "path_join [u, s] = relative_path (clean_elems False [u] (split_on CHR ''/'' s))"
proof -
  have u: "u \<noteq> []" "hd u \<noteq> CHR ''/''" "CHR ''/'' \<notin> set u" "u \<noteq> ''.''" "u \<noteq> ''..''"
    using assms by (auto simp: plain_elem_def neq_Nil_conv)
  then have "path_clean u = u" by (simp add: path_clean_def)
  moreover have "path_clean (u @ ''/'' @ s) = relative_path (clean_elems False [u] (split_on CHR ''/'' s))"
    using u split_on_append [OF u(3), of s] by (simp add: path_clean_def relative_path_def split: list.split)
  ultimately show ?thesis using u(1) by (simp add: path_join_def relative_path_def)
qed

definition copy_source :: "http_req \<Rightarrow> string" where
  "copy_source r = header_get (hr_Header r) ''X-Amz-Copy-Source''"

text \<open>The source that a copy is given, joined to the user's bucket.\<close>

lemma joined_source:
  assumes "plain_elem u"
  shows "case climbs 0 (split_on CHR ''/'' s) of
      None \<Rightarrow> \<exists>ws. path_join [u, s] = join ''/'' (u # ws) \<and> (\<forall>e \<in> set ws. plain_elem e)
    | Some rest \<Rightarrow> path_join [u, s] = relative_path (clean_elems False [] rest)"
proof (cases "climbs 0 (split_on CHR ''/'' s)")
  case None
  have "\<exists>ws. clean_elems False ([] @ [u]) (split_on CHR ''/'' s) = u # ws \<and> (\<forall>e \<in> set ws. plain_elem e)"
    by (rule clean_elems_below) (use None split_on_no_sep in auto)
  then obtain ws where ws: "clean_elems False [u] (split_on CHR ''/'' s) = u # ws" "\<forall>e \<in> set ws. plain_elem e" by auto
  show ?thesis
    unfolding None path_join_below [OF assms] ws(1) option.case relative_path_def list.case
    by (rule exI [of _ ws]) (simp add: ws(2))
next
  case (Some rest)
  have "clean_elems False ([] @ [u]) (split_on CHR ''/'' s) = clean_elems False [] rest"
    by (rule clean_elems_above) (use Some split_on_no_sep assms in \<open>auto simp: plain_elem_def\<close>)
  then show ?thesis unfolding Some path_join_below [OF assms] by simp
qed

lemma first_elem_join: "CHR ''/'' \<notin> set u \<Longrightarrow> takeWhile (\<lambda>c. c \<noteq> CHR ''/'') (join ''/'' (u # ws)) = u"
  by (cases ws) (auto simp: takeWhile_append takeWhile_eq_all_conv [THEN iffD2])

subsection \<open>Confinement\<close>

definition object_ops :: "s3_op list" where
  "object_ops = [HeadObject, PutObjectPart, ListObjectParts, CompleteMultipartUpload, NewMultipartUpload,
     AbortMultipartUpload, GetObject, PutObject, DeleteObject]"

definition listing_ops :: "s3_op list" where
  "listing_ops = [ListMultipartUploads, ListObjectsV2, ListObjectsV1, DeleteMultipleObjects]"

definition user_ops :: "s3_op list" where
  "user_ops = object_ops @ listing_ops @ [CopyObject, ListBuckets, PutBucket, DeleteBucket]"

text \<open>
  What a request to the object store touches: the bucket in its variables and, for a copy, the bucket in
  the first element of its source.  Two environments that differ in the object store, but not on requests
  that touch the bucket \<open>u\<close> only.
\<close>

definition touches_only :: "string \<Rightarrow> s3_op \<Rightarrow> s3_req \<Rightarrow> bool" where
  "touches_only u op r \<longleftrightarrow>
     sr_vars r ''bucket'' = Some u \<and> (op = CopyObject \<longrightarrow> takeWhile (\<lambda>c. c \<noteq> CHR ''/'') (copy_source (sr_http r)) = u)"

definition same_for :: "string \<Rightarrow> 'w s3_env \<Rightarrow> 'w s3_env \<Rightarrow> bool" where
  "same_for u E E' \<longleftrightarrow>
     (\<exists>core. E' = E\<lparr>se_core := core\<rparr> \<and> (\<forall>op r w. touches_only u op r \<longrightarrow> core op r w = se_core E op r w))"

lemma object_handler: "op \<in> set object_ops \<Longrightarrow> handle op E r w = call_substituted (objectPrefixSubstitution E r w) E op w"
  by (auto simp: object_ops_def HeadObjectHandler_def PutObjectPartHandler_def ListObjectPartsHandler_def
      CompleteMultipartUploadHandler_def NewMultipartUploadHandler_def AbortMultipartUploadHandler_def
      GetObjectHandler_def PutObjectHandler_def DeleteObjectHandler_def)

lemma listing_handler: "op \<in> set listing_ops \<Longrightarrow> handle op E r w = call_substituted (bucketPrefixSubstitution E r w) E op w"
  by (auto simp: listing_ops_def ListMultipartUploadsHandler_def ListObjectsV2Handler_def ListObjectsV1Handler_def
      DeleteMultipleObjectsHandler_def)

lemmas substitutions = objectPrefixSubstitution_def bucketPrefixSubstitution_def
  bucketPrefixSubstitutionWithoutObject_def Let_def

lemma denied_handler:
  assumes "op \<in> set user_ops" and "getUserID E r w = Inl e"
  shows "handle op E r w = (denied, w)"
proof -
  from assms(1) consider "op \<in> set object_ops" | "op \<in> set listing_ops" | "op \<in> {CopyObject, ListBuckets, PutBucket, DeleteBucket}"
    by (auto simp: user_ops_def)
  then show ?thesis
    by cases (auto simp: object_handler listing_handler assms(2) substitutions call_substituted_def
      CopyObjectHandler_def ListBucketsHandler_def PutBucketHandler_def DeleteBucketHandler_def)
qed

lemma same_for_simps:
  assumes "same_for u E E'"
  shows "getUserID E' r w = getUserID E r w"
    and "nodeBucketRequest E' m b w = nodeBucketRequest E m b w"
    and "touches_only u op r \<Longrightarrow> se_core E' op r w = se_core E op r w"
    and "touches_only u op r \<Longrightarrow> call_core E' op r w = call_core E op r w"
  using assms by (auto simp: same_for_def getUserID_def nodeBucketRequest_def node_request_for_def call_core_def
    cong: option.case_cong sum.case_cong prod.case_cong)

lemma set_vars_bucket [simp]: "sr_vars (set_vars ((''bucket'', u) # kvs) r) ''bucket'' = Some u"
  by (simp add: set_vars_def)

lemma mux_var_set [simp]: "mux_var (set_vars ((''bucket'', u) # kvs) r) ''bucket'' = u"
  by (simp add: mux_var_def)

lemma touches_only_set [simp]: "op \<noteq> CopyObject \<Longrightarrow> touches_only u op (set_vars ((''bucket'', u) # kvs) r)"
  by (simp add: touches_only_def)

lemma not_copy [simp]: "op \<in> set object_ops \<Longrightarrow> op \<noteq> CopyObject" "op \<in> set listing_ops \<Longrightarrow> op \<noteq> CopyObject"
  by (auto simp: object_ops_def listing_ops_def)

text \<open>A copy whose source does not climb out of the bucket of the user.\<close>

definition copies_within :: "string \<Rightarrow> http_req \<Rightarrow> bool" where
  "copies_within u r \<longleftrightarrow> plain_elem u \<and> climbs 0 (split_on CHR ''/'' (copy_source r)) = None"

lemma copy_handler:
  fixes E :: "'w s3_env"
  assumes "getUserID E r w = Inr u"
  obtains r' where "\<And>(E' :: 'w s3_env) w'. getUserID E' r w' = Inr u \<Longrightarrow> handle CopyObject E' r w' = call_core E' CopyObject r' w'"
    and "sr_vars r' ''bucket'' = Some u" and "copy_source (sr_http r') = path_join [u, copy_source (sr_http r)]"
proof -
  let ?r = "set_vars [(''bucket'', u), (''object'', join ''/'' [mux_var r ''bucket'', mux_var r ''object''])] r"
  let ?s = "path_join [u, copy_source (sr_http r)]"
  let ?r' = "?r\<lparr>sr_http := (sr_http ?r)\<lparr>hr_Header := header_set ''X-Amz-Copy-Source'' ?s (hr_Header (sr_http ?r))\<rparr>\<rparr>"
  have h: "sr_http ?r = sr_http r" by (simp add: set_vars_def)
  show thesis
  proof (rule that [of ?r'])
    show "handle CopyObject E' r w' = call_core E' CopyObject ?r' w'" if "getUserID E' r w' = Inr u" for E' :: "'w s3_env" and w'
      unfolding handle.simps CopyObjectHandler_def objectPrefixSubstitution_def Let_def that sum.case
      by (simp only: h mux_var_set copy_source_def)
    show "sr_vars ?r' ''bucket'' = Some u" by simp
    show "copy_source (sr_http ?r') = ?s" by (simp add: copy_source_def equal_fold_def)
  qed
qed

lemma copy_touches_only:
  assumes "copies_within u (sr_http r)" and "sr_vars r' ''bucket'' = Some u"
    and "copy_source (sr_http r') = path_join [u, copy_source (sr_http r)]"
  shows "touches_only u CopyObject r'"
proof -
  from assms(1) joined_source [of u "copy_source (sr_http r)"] obtain ws where
    "path_join [u, copy_source (sr_http r)] = join ''/'' (u # ws)" "CHR ''/'' \<notin> set u"
    by (auto simp: copies_within_def plain_elem_def)
  with assms(2,3) first_elem_join show ?thesis by (simp add: touches_only_def)
qed

lemma confined_handler:
  fixes E :: "'w s3_env"
  assumes "op \<in> set user_ops" and u: "getUserID E r w = Inr u" and s: "same_for u E E'"
    and copy: "op = CopyObject \<longrightarrow> copies_within u (sr_http r)"
  shows "handle op E' r w = handle op E r w"
proof -
  note [simp] = same_for_simps [OF s]
  from assms(1) consider "op \<in> set object_ops" | "op \<in> set listing_ops" | "op = CopyObject" | "op \<in> {ListBuckets, PutBucket, DeleteBucket}"
    by (auto simp: user_ops_def)
  then show ?thesis
  proof cases
    case 1 then show ?thesis by (simp add: object_handler u substitutions call_substituted_def)
  next
    case 2 then show ?thesis by (simp add: listing_handler u substitutions call_substituted_def)
  next
    case 3
    from copy_handler [OF u] obtain r' where r': "\<And>(E' :: 'w s3_env) w'. getUserID E' r w' = Inr u \<Longrightarrow> handle CopyObject E' r w' = call_core E' CopyObject r' w'"
      "sr_vars r' ''bucket'' = Some u" "copy_source (sr_http r') = path_join [u, copy_source (sr_http r)]" by blast
    from copy_touches_only [OF _ r'(2,3)] copy 3 have "touches_only u CopyObject r'" by blast
    with 3 u r'(1) [of E w] r'(1) [of E' w] show ?thesis by simp
  next
    case 4 then show ?thesis
      by (auto simp: u substitutions call_substituted_def ListBucketsHandler_def
        PutBucketHandler_def DeleteBucketHandler_def cong: sum.case_cong prod.case_cong if_cong)
  qed
qed

text \<open>All other operations are served without asking whose bucket it is.\<close>

lemma call_core_lookup [simp]: "call_core (E\<lparr>se_bucketOf := f\<rparr>) op r w = call_core E op r w"
  by (simp add: call_core_def)

lemma node_lookup [simp]: "nodeBucketRequest (E\<lparr>se_bucketOf := f\<rparr>) m b w = nodeBucketRequest E m b w"
  by (simp add: nodeBucketRequest_def node_request_for_def Let_def cong: option.case_cong)

lemmas untranslated_defs = CopyObjectPartHandler_def GetObjectACLHandler_def PutObjectACLHandler_def
  GetObjectTaggingHandler_def PutObjectTaggingHandler_def DeleteObjectTaggingHandler_def SelectObjectContentHandler_def
  GetObjectRetentionHandler_def GetObjectLegalHoldHandler_def PutObjectRetentionHandler_def PutObjectLegalHoldHandler_def
  GetBucketLocationHandler_def GetBucketPolicyHandler_def GetBucketLifecycleHandler_def GetBucketEncryptionHandler_def
  GetBucketObjectLockConfigHandler_def GetBucketReplicationConfigHandler_def GetBucketVersioningHandler_def
  GetBucketNotificationHandler_def ListenNotificationHandler_def GetBucketACLHandler_def PutBucketACLHandler_def
  GetBucketCorsHandler_def PutBucketCorsHandler_def DeleteBucketCorsHandler_def GetBucketWebsiteHandler_def
  GetBucketAccelerateHandler_def GetBucketRequestPaymentHandler_def GetBucketLoggingHandler_def GetBucketTaggingHandler_def
  DeleteBucketWebsiteHandler_def DeleteBucketTaggingHandler_def ListObjectsV2MHandler_def ListObjectVersionsHandler_def
  PutBucketLifecycleHandler_def PutBucketReplicationConfigHandler_def PutBucketEncryptionHandler_def PutBucketPolicyHandler_def
  PutBucketObjectLockConfigHandler_def PutBucketTaggingHandler_def PutBucketVersioningHandler_def PutBucketNotificationHandler_def
  HeadBucketHandler_def PostPolicyBucketHandler_def DeleteBucketPolicyHandler_def DeleteBucketReplicationConfigHandler_def
  DeleteBucketLifecycleHandler_def DeleteBucketEncryptionHandler_def PostRestoreObjectHandler_def
  newListBucketsWithAttributionHandler_def

lemma unconfined_handler:
  assumes "op \<notin> set user_ops"
  shows "handle op (E\<lparr>se_bucketOf := f\<rparr>) r w = handle op E r w"
  using assms
  by (cases op) (simp_all add: user_ops_def object_ops_def listing_ops_def untranslated_defs
      cong: option.case_cong sum.case_cong prod.case_cong)


text \<open>An object store that logs its calls, and a node that answers every method with a given status.\<close>

type_synonym call_log = "(s3_op \<times> string \<times> string) list"

definition demo_s3 :: "int \<Rightarrow> (string \<Rightarrow> int) \<Rightarrow> call_log s3_env" where
  "demo_s3 stored node =
     \<lparr>se_core = (\<lambda>op r w. ([stored], (op, mux_var r ''bucket'', mux_var r ''object'') # w)),
      se_accessKey = (\<lambda>r. header_get (hr_Header (sr_http r)) ''key''),
      se_bucketOf = (\<lambda>k _. if k = ''mallory'' then Inl (Message ''no bucket'') else Inr (''user-'' @ k)),
      se_newRequest = (\<lambda>_. None), se_do = (\<lambda>q w. (Inr (node (nq_method q)), w)),
      se_nodeHost = ''http://node'', se_nodeToken = ''secret'', se_corsAllowedOrigins = [],
      se_listAllowed = (\<lambda>_. None), se_listAttributed = (\<lambda>w. (Inr [], w)), se_toAPIError = (\<lambda>_. no_api_error),
      se_notImplemented = no_api_error\<rparr>"


subsection \<open>Where the objects of a user are\<close>

definition untranslated_ops :: "s3_op list" where
  "untranslated_ops = [CopyObjectPart, GetObjectACL, PutObjectACL, GetObjectTagging, PutObjectTagging, DeleteObjectTagging,
     SelectObjectContent, GetObjectRetention, PutObjectRetention, GetObjectLegalHold, PutObjectLegalHold, PostRestoreObject]"

lemma untranslated_handler: "op \<in> set untranslated_ops \<Longrightarrow> handle op E r w = call_core E op r w"
  by (auto simp: untranslated_ops_def CopyObjectPartHandler_def GetObjectACLHandler_def PutObjectACLHandler_def
      GetObjectTaggingHandler_def PutObjectTaggingHandler_def DeleteObjectTaggingHandler_def SelectObjectContentHandler_def
      GetObjectRetentionHandler_def PutObjectRetentionHandler_def GetObjectLegalHoldHandler_def
      PutObjectLegalHoldHandler_def PostRestoreObjectHandler_def)

lemma append_at_slash:
  "CHR ''/'' \<notin> set a \<Longrightarrow> CHR ''/'' \<notin> set b \<Longrightarrow> a @ CHR ''/'' # x = b @ CHR ''/'' # y \<longleftrightarrow> a = b \<and> x = y"
proof (induction a arbitrary: b)
  case Nil then show ?case by (cases b) auto
next
  case (Cons c a) then show ?case by (cases b) auto
qed

lemma not_user_untranslated: "op \<in> set object_ops \<or> op \<in> set untranslated_ops \<Longrightarrow> op \<notin> {PostPolicyBucket, DeleteMultipleObjects}"
  by (auto simp: object_ops_def untranslated_ops_def)

text \<open>
  C25: reading, storing, probing and deleting the object \<open>obj\<close> of the bucket \<open>b\<close>, and uploading it in
  parts, address the key \<open>b/obj\<close> of the user's bucket, which is the key of no other object; but its
  tags, its ACL, its retention and its legal hold, a query of its contents and a copied part of it
  are addressed as the request names it, the object \<open>obj\<close> of the bucket \<open>b\<close> of the object store, and
  no user is looked up for them: they are never those of the object that was stored.
\<close>

theorem objects_are_in_users_bucket:
  assumes "object_request domains r b obj" and "object_op r = Some op"
    and "getUserID E \<lparr>sr_http = r, sr_vars = [''bucket'' \<mapsto> b, ''object'' \<mapsto> obj]\<rparr> w = Inr u"
  shows "(op \<in> set object_ops \<longrightarrow> serve_s3 domains E r w =
      Some (call_core E op \<lparr>sr_http = r, sr_vars = [''bucket'' \<mapsto> u, ''object'' \<mapsto> b @ ''/'' @ obj]\<rparr> w))
    \<and> (CHR ''/'' \<notin> set b' \<longrightarrow> b' @ ''/'' @ obj' = b @ ''/'' @ obj \<longrightarrow> b' = b \<and> obj' = obj)
    \<and> (op \<in> set untranslated_ops \<longrightarrow> serve_s3 domains E' r w =
      Some (call_core E' op \<lparr>sr_http = r, sr_vars = [''bucket'' \<mapsto> b, ''object'' \<mapsto> obj]\<rparr> w))
    \<and> b @ ''/'' @ obj \<noteq> obj"
proof (rule conjI [OF impI conjI [OF impI [OF impI] conjI [OF impI]]])
  note routed = object_routed [OF assms(1)]
  show "serve_s3 domains E r w =
      Some (call_core E op \<lparr>sr_http = r, sr_vars = [''bucket'' \<mapsto> u, ''object'' \<mapsto> b @ ''/'' @ obj]\<rparr> w)"
    if op: "op \<in> set object_ops"
  proof -
    have "mux_var \<lparr>sr_http = r, sr_vars = [''bucket'' \<mapsto> b, ''object'' \<mapsto> obj]\<rparr> ''bucket'' = b"
      "mux_var \<lparr>sr_http = r, sr_vars = [''bucket'' \<mapsto> b, ''object'' \<mapsto> obj]\<rparr> ''object'' = obj"
      by (simp_all add: mux_var_def)
    moreover have "[''bucket'' \<mapsto> b, ''object'' \<mapsto> obj] ++ map_of [(''bucket'', u), (''object'', c)]
        = [''bucket'' \<mapsto> u, ''object'' \<mapsto> c]" for c :: string
      by (auto simp: fun_eq_iff)
    moreover have "op \<notin> {PostPolicyBucket, DeleteMultipleObjects}"
      by (rule not_user_untranslated) (simp add: op)
    ultimately show ?thesis
      unfolding serve_s3_def routed
      by (simp add: assms(2,3) object_handler [OF op] objectPrefixSubstitution_def Let_def call_substituted_def set_vars_def)
  qed
  show "b' = b \<and> obj' = obj" if "CHR ''/'' \<notin> set b'" "b' @ ''/'' @ obj' = b @ ''/'' @ obj"
    using append_at_slash [OF that(1), of b obj' obj] assms(1) that(2) by (simp add: object_request_def)
  show "serve_s3 domains E' r w =
      Some (call_core E' op \<lparr>sr_http = r, sr_vars = [''bucket'' \<mapsto> b, ''object'' \<mapsto> obj]\<rparr> w)"
    if op: "op \<in> set untranslated_ops"
    using not_user_untranslated [of op] op unfolding serve_s3_def routed by (simp add: assms(2) untranslated_handler)
  show "b @ ''/'' @ obj \<noteq> obj" by (metis append_Cons append_assoc append_is_Nil_conv append_self_conv2 list.distinct(1))
qed

lemma objects_are_in_users_bucket_witness:
  defines "store \<equiv> demo_http ''PUT'' ''/b/k'' [] [(''key'', ''alice'')]"
    and "tag \<equiv> demo_http ''PUT'' ''/b/k'' [(''tagging'', [])] [(''key'', ''alice'')]"
  shows "serve_s3 [] (demo_s3 200 (\<lambda>_. 200)) store [] = Some ([CoreCodes [200]], [(PutObject, ''user-alice'', ''b/k'')])
    \<and> serve_s3 [] (demo_s3 200 (\<lambda>_. 200)) tag [] = Some ([CoreCodes [200]], [(PutObjectTagging, ''b'', ''k'')])"
proof -
  let ?E = "demo_s3 200 (\<lambda>_. 200)"
  have req: "object_request [] (demo_http ''PUT'' ''/b/k'' q h) ''b'' ''k''" for q h
    using demo_http_request(1) [of "''b''" "''k''" "''PUT''" q h] by simp
  have op: "object_op store = Some PutObject" "object_op tag = Some PutObjectTagging"
    by (simp_all add: op_defs Let_def store_def tag_def demo_http_def query_matches_def equal_fold_def)
  have u: "getUserID ?E \<lparr>sr_http = demo_http ''PUT'' ''/b/k'' q [(''key'', ''alice'')], sr_vars = vars\<rparr> [] = Inr ''user-alice''"
    for q vars by (simp add: getUserID_def demo_s3_def demo_http_def equal_fold_def)
  note st = conjunct1 [OF objects_are_in_users_bucket, rule_format, OF req [of "[]" "[(''key'', ''alice'')]"] _ u [of "[]"], folded store_def]
  note tg = conjunct1 [OF conjunct2 [OF conjunct2 [OF objects_are_in_users_bucket]], rule_format, OF req [of "[(''tagging'', [])]" "[(''key'', ''alice'')]"] _
    u [of "[(''tagging'', [])]"], folded tag_def]
  have "serve_s3 [] ?E store [] = Some (call_core ?E PutObject \<lparr>sr_http = store,
      sr_vars = [''bucket'' \<mapsto> ''user-alice'', ''object'' \<mapsto> ''b'' @ ''/'' @ ''k'']\<rparr> [])"
    by (rule st [OF op(1)]) (simp add: object_ops_def)
  moreover have "serve_s3 [] ?E tag [] = Some (call_core ?E PutObjectTagging \<lparr>sr_http = tag,
      sr_vars = [''bucket'' \<mapsto> ''b'', ''object'' \<mapsto> ''k'']\<rparr> [])"
    by (rule tg [OF op(2)]) (simp add: untranslated_ops_def)
  ultimately show ?thesis by (simp add: call_core_def demo_s3_def mux_var_def)
qed

subsection \<open>The source of a copy\<close>

text \<open>
  C27: the source of a copy is joined to the user's bucket as a path.  It stays in that bucket if no part of
  it from its beginning has more double-dot elements than ordinary ones; otherwise it climbs out of it,
  and what follows the first double-dot element that does is the source, named from the top of the object
  store: after any elements that climb out of the user's bucket, a client can name anybody's bucket and
  any object in it.
\<close>

theorem copy_source_leaves_bucket:
  assumes "getUserID E r w = Inr u" and "plain_elem u"
  shows "\<exists>r'. handle CopyObject E r w = call_core E CopyObject r' w \<and> mux_var r' ''bucket'' = u
    \<and> (case climbs 0 (split_on CHR ''/'' (copy_source (sr_http r))) of
         None \<Rightarrow> \<exists>ws. copy_source (sr_http r') = join ''/'' (u # ws) \<and> (\<forall>e \<in> set ws. plain_elem e)
       | Some rest \<Rightarrow> copy_source (sr_http r') = relative_path (clean_elems False [] rest))
    \<and> (\<forall>up bucket key. climbs 0 up = Some [] \<longrightarrow> (\<forall>e \<in> set (up @ bucket # key). CHR ''/'' \<notin> set e) \<longrightarrow>
         (\<forall>e \<in> set (bucket # key). plain_elem e) \<longrightarrow> copy_source (sr_http r) = join ''/'' (up @ bucket # key) \<longrightarrow>
         copy_source (sr_http r') = join ''/'' (bucket # key))"
proof -
  let ?s = "copy_source (sr_http r)"
  obtain r' where r': "handle CopyObject E r w = call_core E CopyObject r' w" "mux_var r' ''bucket'' = u"
      "copy_source (sr_http r') = path_join [u, ?s]"
    using copy_handler [OF assms(1)] assms(1) by (metis mux_var_def option.case(2))
  note joined = joined_source [OF assms(2), of ?s]
  have "path_join [u, ?s] = join ''/'' (bucket # key)"
    if "climbs 0 up = Some []" "\<forall>e \<in> set (up @ bucket # key). CHR ''/'' \<notin> set e"
      "\<forall>e \<in> set (bucket # key). plain_elem e" "?s = join ''/'' (up @ bucket # key)" for up bucket key
  proof -
    have "split_on CHR ''/'' ?s = up @ bucket # key"
      unfolding that(4) by (rule split_on_join [OF _ that(2)]) simp
    then have "climbs 0 (split_on CHR ''/'' ?s) = Some (bucket # key)"
      using climbs_append [OF that(1), of "bucket # key"] by simp
    with joined have "path_join [u, ?s] = relative_path (clean_elems False [] (bucket # key))" by simp
    then show ?thesis unfolding clean_elems_plain [OF that(3)] by (simp add: relative_path_def)
  qed
  then show ?thesis using r'(1,2) joined unfolding r'(3) [symmetric] by blast
qed

definition demo_copy :: "string \<Rightarrow> s3_req" where
  "demo_copy source = \<lparr>sr_http = demo_http ''PUT'' ''/b/k'' [] [(''key'', ''alice''), (''X-Amz-Copy-Source'', source)],
     sr_vars = [''bucket'' \<mapsto> ''b'', ''object'' \<mapsto> ''k'']\<rparr>"

text \<open>A source that climbs out after an ordinary element.\<close>

lemma copy_source_leaves_bucket_witness:
  "\<exists>r'. handle CopyObject (demo_s3 200 (\<lambda>_. 200)) (demo_copy ''b/../../user-bob/secret'') []
       = call_core (demo_s3 200 (\<lambda>_. 200)) CopyObject r' []
     \<and> mux_var r' ''bucket'' = ''user-alice''
     \<and> copy_source (sr_http r') = ''user-bob/secret''"
proof -
  let ?r = "demo_copy ''b/../../user-bob/secret''"
  have u: "getUserID (demo_s3 200 (\<lambda>_. 200)) ?r [] = Inr ''user-alice''"
    by (simp add: getUserID_def demo_s3_def demo_copy_def demo_http_def equal_fold_def)
  have p: "plain_elem ''user-alice''" by (simp add: plain_elem_def)
  have "\<not> equal_fold ''key'' ''X-Amz-Copy-Source''" "equal_fold ''X-Amz-Copy-Source'' ''X-Amz-Copy-Source''"
    by code_simp+
  then have s: "copy_source (sr_http ?r) = join ''/'' ([''b'', ''..'', ''..''] @ ''user-bob'' # [''secret''])"
    by (simp add: copy_source_def demo_copy_def demo_http_def)
  obtain r' where r': "handle CopyObject (demo_s3 200 (\<lambda>_. 200)) ?r [] = call_core (demo_s3 200 (\<lambda>_. 200)) CopyObject r' []"
      "mux_var r' ''bucket'' = ''user-alice''"
    and all: "\<And>up bucket key. climbs 0 up = Some [] \<Longrightarrow> \<forall>e \<in> set (up @ bucket # key). CHR ''/'' \<notin> set e \<Longrightarrow>
         \<forall>e \<in> set (bucket # key). plain_elem e \<Longrightarrow> copy_source (sr_http ?r) = join ''/'' (up @ bucket # key) \<Longrightarrow>
         copy_source (sr_http r') = join ''/'' (bucket # key)"
    using copy_source_leaves_bucket [OF u p] by blast
  have "copy_source (sr_http r') = join ''/'' (''user-bob'' # [''secret''])"
    by (rule all [OF _ _ _ s]) (simp_all add: plain_elem_def)
  with r' show ?thesis by auto
qed

subsection \<open>Buckets\<close>

text \<open>The name of a bucket is free for the node if it answers a probe with 2xx, and taken with 409.\<close>

definition probe :: "'w s3_env \<Rightarrow> string \<Rightarrow> 'w \<Rightarrow> (err + int) \<times> 'w" where
  "probe E b w = nodeBucketRequest E ''HEAD'' b w"

definition free_status :: "int \<Rightarrow> bool" where
  "free_status c \<longleftrightarrow> 200 \<le> c \<and> c < 300"

lemma status_of_codes: "c # cs = codes \<Longrightarrow> status_of (CoreCodes codes # outs) = c"
  by (auto simp: status_of_def)

text \<open>
  C28: a bucket is created only under a name that the node says is free, under the user's own bucket;
  but its registration does not wait for the outcome: it is requested whatever the object store
  answered, and the client is told the object store's status, also if the registration fails or the
  name has been taken meanwhile.  A bucket is deregistered only after the object store has accepted
  the deletion, but again the client is told that status if the node refuses.
\<close>

theorem bucket_errors_are_lost:
  assumes "getUserID E r w = Inr u" and "mux_var r ''bucket'' = b"
    and "se_core E PutObject (set_vars [(''bucket'', u), (''object'', b)] r) w1 = (c # cs, w2)"
    and "se_core E DeleteObject (set_vars [(''bucket'', u), (''object'', b)] r) w = (d # ds, v)"
  shows "(case probe E b w of
      (Inr s, w') \<Rightarrow> w' = w1 \<and> free_status s \<longrightarrow>
        (\<exists>outs. handle PutBucket E r w = (outs, snd (nodeBucketRequest E ''POST'' b w2)) \<and> status_of outs = c)
    | (Inl _, w') \<Rightarrow> handle PutBucket E r w = ([ApiError (apiErrors ''ErrInternalError'')], w'))
    \<and> (probe E b w = (Inr s, w') \<longrightarrow> \<not> free_status s \<longrightarrow>
      handle PutBucket E r w = ([ApiError (apiErrors (if s = 409 then ''ErrBucketAlreadyExists'' else ''ErrInternalError''))], w'))
    \<and> (\<exists>outs. handle DeleteBucket E r w
        = (outs, if last (d # ds) \<ge> 300 then v else snd (nodeBucketRequest E ''DELETE'' b v)) \<and> status_of outs = d)"
proof (rule conjI [OF _ conjI [OF impI [OF impI]]])
  have sub: "bucketPrefixSubstitution E r w = Inr (set_vars [(''bucket'', u), (''object'', b)] r)"
    by (simp add: bucketPrefixSubstitution_def assms(1,2) Let_def)
  show "case probe E b w of
      (Inr s, w') \<Rightarrow> w' = w1 \<and> free_status s \<longrightarrow>
        (\<exists>outs. handle PutBucket E r w = (outs, snd (nodeBucketRequest E ''POST'' b w2)) \<and> status_of outs = c)
    | (Inl _, w') \<Rightarrow> handle PutBucket E r w = ([ApiError (apiErrors ''ErrInternalError'')], w')"
    using assms(3)
    by (auto simp: probe_def PutBucketHandler_def assms(2) sub Let_def free_status_def getCurrentStatus_def status_of_def
        split: prod.split sum.split)
  show "handle PutBucket E r w = ([ApiError (apiErrors (if s = 409 then ''ErrBucketAlreadyExists'' else ''ErrInternalError''))], w')"
    if "probe E b w = (Inr s, w')" "\<not> free_status s"
    using that by (auto simp: probe_def PutBucketHandler_def assms(2) sub Let_def free_status_def)
  show "\<exists>outs. handle DeleteBucket E r w
        = (outs, if last (d # ds) \<ge> 300 then v else snd (nodeBucketRequest E ''DELETE'' b v)) \<and> status_of outs = d"
    using assms(4)
    by (auto simp: DeleteBucketHandler_def assms(2) sub Let_def getCurrentStatus_def status_of_def split: prod.split sum.split)
qed

lemma bucket_errors_are_lost_witness:
  defines "r \<equiv> \<lparr>sr_http = demo_http ''PUT'' ''/b'' [] [(''key'', ''alice'')], sr_vars = [''bucket'' \<mapsto> ''b'']\<rparr>"
    and "E \<equiv> demo_s3 200 (\<lambda>m. if m = ''HEAD'' then 200 else 409)"
  shows "\<exists>outs log. handle PutBucket E r [] = (outs, log) \<and> status_of outs = 200 \<and> (PutObject, ''user-alice'', ''b'') \<in> set log"
proof -
  let ?r = "set_vars [(''bucket'', ''user-alice''), (''object'', ''b'')] r"
  have u: "getUserID E r [] = Inr ''user-alice''" "mux_var r ''bucket'' = ''b''"
    by (simp_all add: getUserID_def E_def demo_s3_def r_def demo_http_def equal_fold_def mux_var_def)
  have core: "se_core E op ?r [] = (200 # [], [(op, ''user-alice'', ''b'')])" for op
    by (simp add: E_def demo_s3_def set_vars_def mux_var_def)
  have "probe E ''b'' [] = (Inr 200, [])"
    by (simp add: probe_def nodeBucketRequest_def node_request_for_def Let_def E_def demo_s3_def)
  then have "\<exists>outs. handle PutBucket E r [] = (outs, snd (nodeBucketRequest E ''POST'' ''b'' [(PutObject, ''user-alice'', ''b'')]))
      \<and> status_of outs = 200"
    using conjunct1 [OF bucket_errors_are_lost [OF u core [of PutObject] core [of DeleteObject]]] by (simp add: free_status_def)
  moreover have "snd (nodeBucketRequest E ''POST'' ''b'' log) = log" for log
    by (simp add: nodeBucketRequest_def node_request_for_def Let_def E_def demo_s3_def)
  ultimately show ?thesis by (auto simp del: handle.simps)
qed

subsection \<open>Types of the variables\<close>

text \<open>What a handler may read of the variables of its route.\<close>

definition names_object :: "s3_op \<Rightarrow> bool" where
  "names_object op \<longleftrightarrow> op \<in> set (object_ops @ CopyObject # untranslated_ops)"

definition well_typed :: "s3_op \<Rightarrow> (string \<Rightarrow> string option) \<Rightarrow> bool" where
  "well_typed op vars \<longleftrightarrow>
     (if names_object op then \<exists>b k. b \<noteq> [] \<and> k \<noteq> [] \<and> vars = [''bucket'' \<mapsto> b, ''object'' \<mapsto> k]
      else if op \<in> {ListBuckets, ListBucketsWithAttribution} then vars = Map.empty
      else (\<exists>b. b \<noteq> [] \<and> vars = [''bucket'' \<mapsto> b]) \<or> op = ListenNotification \<and> vars = Map.empty)"

lemma routes_name_objects:
  "rt \<in> set s3_routes \<Longrightarrow> rt_object rt = names_object (rt_op rt) \<and> rt_op rt \<notin> {ListBuckets, ListBucketsWithAttribution}"
proof -
  have "list_all (\<lambda>rt. rt_object rt = (rt_op rt \<in> set (object_ops @ CopyObject # untranslated_ops))
      \<and> rt_op rt \<noteq> ListBuckets \<and> rt_op rt \<noteq> ListBucketsWithAttribution) s3_routes"
    by code_simp
  then show "rt \<in> set s3_routes \<Longrightarrow> rt_object rt = names_object (rt_op rt) \<and> rt_op rt \<notin> {ListBuckets, ListBucketsWithAttribution}"
    unfolding list_all_iff names_object_def by blast
qed

lemma rest_object_nonempty: "rest_object p = Some k \<Longrightarrow> k \<noteq> []"
  by (auto simp: rest_object_def split: list.splits if_splits)

lemma route_in_typed:
  assumes "route_in r bo = Some (rt, vars)" and "fst bo \<noteq> []" and "snd bo \<noteq> Some []"
  shows "well_typed (rt_op rt) vars"
proof -
  from assms(1) have rt: "find (route_matches r (snd bo \<noteq> None)) s3_routes = Some rt"
    and vars: "vars = [''bucket'' \<mapsto> fst bo] ++ (if rt_object rt then (\<lambda>k. if k = ''object'' then snd bo else None) else Map.empty)"
    by (auto simp: route_in_def split: option.splits)
  from rt have mem: "rt \<in> set s3_routes" and m: "route_matches r (snd bo \<noteq> None) rt"
    by (auto simp: find_Some_iff)
  note n = routes_name_objects [OF mem]
  show ?thesis
  proof (cases "rt_object rt")
    case True
    with m obtain k where k: "snd bo = Some k" by (auto simp: route_matches_def)
    have "vars = [''bucket'' \<mapsto> fst bo, ''object'' \<mapsto> k]" using vars True k by (auto simp: fun_eq_iff map_add_def)
    with True n k assms(2,3) show ?thesis by (auto simp: well_typed_def)
  next
    case False
    with n vars assms(2) show ?thesis by (auto simp: well_typed_def)
  qed
qed

lemma route_styles_typed:
  assumes "route_styles ss r = Some (rt, vars)"
    and "\<forall>s \<in> set ss. \<forall>bo. s r = Some bo \<longrightarrow> fst bo \<noteq> [] \<and> snd bo \<noteq> Some []"
  shows "well_typed (rt_op rt) vars"
  using assms
  by (induction ss r rule: route_styles.induct) (auto split: option.splits intro: route_in_typed)

lemma styles_nonempty:
  assumes "\<forall>d \<in> set domains. \<forall>h. d h \<noteq> Some []" and "s \<in> set (map host_style domains @ [path_style])" and "s r = Some bo"
  shows "fst bo \<noteq> [] \<and> snd bo \<noteq> Some []"
proof -
  from assms(2,3) consider d where "d \<in> set domains" "host_style d r = Some bo" | "path_style r = Some bo" by auto
  then show ?thesis
  proof cases
    case 1
    with assms(1) show ?thesis by (auto simp: host_style_def dest: rest_object_nonempty)
  next
    case 2
    then show ?thesis by (auto simp: path_style_def Let_def split: list.splits if_splits dest: rest_object_nonempty)
  qed
qed

lemma root_route_ops: "root_route r = Some op \<Longrightarrow> op \<in> {ListenNotification, ListBuckets, ListBucketsWithAttribution}"
  by (auto simp: root_route_def split: if_splits)

text \<open>
  C37: whatever is requested, the operation that the router chooses gets the variables that its handler
  reads: an operation on an object a bucket and an object, one on a bucket a bucket, none of them empty;
  the listings of buckets get none, and only the listener for notifications is both.
\<close>

theorem routed_operations_are_typed:
  assumes "\<forall>d \<in> set domains. \<forall>h. d h \<noteq> Some []" and "s3_route domains r = Some (op, vars, lim)"
  shows "well_typed op vars"
proof (cases "route_styles (map host_style domains @ [path_style]) r")
  case None
  with assms(2) have "root_route r = Some op" "vars = Map.empty" by (auto simp: s3_route_def)
  with root_route_ops show ?thesis
    by (fastforce simp: well_typed_def names_object_def object_ops_def untranslated_ops_def)
next
  case (Some x)
  then obtain rt where x: "x = (rt, vars)" "op = rt_op rt" using assms(2) by (cases x) (auto simp: s3_route_def)
  show ?thesis unfolding x(2)
    by (rule route_styles_typed [OF Some [unfolded x(1)]]) (use styles_nonempty [OF assms(1)] in blast)
qed

theorem routed_operations_are_typed_witness:
  "s3_route [] (demo_http ''GET'' ''/b/k'' [] []) = Some (GetObject, [''bucket'' \<mapsto> ''b'', ''object'' \<mapsto> ''k''], True)
   \<and> well_typed GetObject [''bucket'' \<mapsto> ''b'', ''object'' \<mapsto> ''k'']"
proof -
  have "object_request [] (demo_http ''GET'' ''/b/k'' [] []) ''b'' ''k''"
    using demo_http_request(1) [of "''b''" "''k''" "''GET''" "[]" "[]"] by simp
  from object_routed [OF this] have r: "s3_route [] (demo_http ''GET'' ''/b/k'' [] [])
      = Some (GetObject, [''bucket'' \<mapsto> ''b'', ''object'' \<mapsto> ''k''], True)"
    by (simp add: op_defs demo_http_def query_matches_def limited_ops_def)
  have "well_typed GetObject [''bucket'' \<mapsto> ''b'', ''object'' \<mapsto> ''k'']"
    by (rule routed_operations_are_typed [OF _ r]) simp
  with r show ?thesis by blast
qed

end
