(* ===== verification/MultiTenant.thy ===== *)
theory MultiTenant
  imports Credentials
begin

section \<open>The multi-tenant layer of the S3 gateway (pkg/server/gw/multi_tenant.go, pkg/server/gwlog)\<close>

text \<open>
  Every operation of the object layer opens a project with the access grant of the request, calls the
  layer below with it and closes it again; what the layer answers is logged into the information
  about the request, which is copied to a second one that the middleware can see.  An operation is a
  value of \<open>layer_call\<close>, with the types of options and of readers as the type \<open>'o\<close>.

  The environment \<open>mt_env\<close> holds the libraries: uplink's parsing of grants, its projects and their
  connection pools, the layer below, the classification of errors by their Go types and the text of
  an error, and the configuration of the layer.  In a method without a named result the deferred
  function that combines the error with that of closing the project assigns a local variable after
  the results have been set.
\<close>

datatype (plugins only: code size) 'o layer_call =
    CMakeBucketWithLocation string 'o
  | CGetBucketInfo string
  | CListBuckets
  | CDeleteBucket string bool
  | CListObjects string string string string int
  | CListObjectsV2 string string string string int bool string
  | CGetObjectNInfo string string 'o 'o 'o 'o
  | CGetObjectInfo string string 'o
  | CPutObject string string 'o 'o
  | CCopyObject string string string string 'o 'o 'o
  | CDeleteObject string string 'o
  | CListMultipartUploads string string string string string int
  | CNewMultipartUpload string string 'o
  | CPutObjectPart string string string int 'o 'o
  | CGetMultipartInfo string string string 'o
  | CListObjectParts string string string int int 'o
  | CAbortMultipartUpload string string string 'o
  | CCompleteMultipartUpload string string string 'o 'o
  | CPutObjectTags string string string 'o
  | CGetObjectTags string string 'o
  | CDeleteObjectTags string string 'o
  | CStorageInfo
  | CDeleteObjects string 'o 'o

record req_info =
  ri_RemoteHost :: string
  ri_Host :: string
  ri_UserAgent :: string
  ri_DeploymentID :: string
  ri_RequestID :: string
  ri_API :: string
  ri_BucketName :: string
  ri_ObjectName :: string
  ri_AccessKey :: string
  ri_tags :: "(string \<times> string) list"

text \<open>What a project is opened with, beside the access grant.\<close>

record open_args =
  oa_UserAgent :: string
  oa_PieceHashAlgorithmBlake3 :: bool
  oa_RefactoredCodePath :: bool

record upload_config =
  uc_PieceHashAlgorithmBlake3 :: bool
  uc_RefactoredCodePath :: bool

record bucket_attribution =
  ba_Name :: string
  ba_Created :: time
  ba_Attribution :: string

record ('a, 'p, 'o, 'r, 'w) mt_env =
  me_ParseAccess :: "string \<Rightarrow> err + 'a"
  me_SetConnectionPool :: "err option"
  me_SetSatelliteConnectionPool :: "err option"
  me_OpenProject :: "open_args \<Rightarrow> 'a \<Rightarrow> 'w \<Rightarrow> (err + 'p) \<times> 'w"
  me_Close :: "'p \<Rightarrow> 'w \<Rightarrow> err option \<times> 'w"
  me_layer :: "'o layer_call \<Rightarrow> 'p \<Rightarrow> 'w \<Rightarrow> ('r \<times> err option) \<times> 'w"
  me_layerMany :: "'o layer_call \<Rightarrow> 'p \<Rightarrow> 'w \<Rightarrow> ('r \<times> err option list) \<times> 'w"
  me_zero :: "'o layer_call \<Rightarrow> 'r"
  me_listAttributed :: "'p \<Rightarrow> 'w \<Rightarrow> (bucket_attribution list \<times> err option) \<times> 'w"
  me_ConvertError :: "err option \<Rightarrow> err option"
  me_poolClose :: "'w \<Rightarrow> err option \<times> 'w"
  me_satellitePoolClose :: "'w \<Rightarrow> err option \<times> 'w"
  me_IsTaggingSupported :: bool
  me_errorResponse :: "err \<Rightarrow> bool"
  me_genericError :: "err \<Rightarrow> bool"
  me_IsCanceled :: "err option \<Rightarrow> bool"
  me_ctxErr :: "err option"
  me_Error :: "err \<Rightarrow> string"
  me_SetTags :: "string \<Rightarrow> string \<Rightarrow> (string \<times> string) list \<Rightarrow> (string \<times> string) list"
  me_ParseEntries :: "string \<Rightarrow> bool"
  me_gatewayUserAgent :: string
  me_uploads :: upload_config
  me_insecureLogAll :: bool

record 'w mt_state =
  ms_world :: 'w
  ms_reqInfo :: "req_info option"
  ms_log :: "req_info option"

subsection \<open>Logging\<close>

definition minioError :: "('a, 'p, 'o, 'r, 'w) mt_env \<Rightarrow> err \<Rightarrow> bool" where
  "minioError E e = (me_errorResponse E e \<or> me_genericError E e)"

definition copyReqInfo :: "('a, 'p, 'o, 'r, 'w) mt_env \<Rightarrow> req_info \<Rightarrow> req_info \<Rightarrow> req_info" where
  "copyReqInfo E dst src =
     src\<lparr>ri_tags := fold (\<lambda>(k, v). me_SetTags E k v) (ri_tags src) (ri_tags dst)\<rparr>"

text \<open>\<open>log\<close> returns the error it is given.\<close>

definition mt_log :: "('a, 'p, 'o, 'r, 'w) mt_env \<Rightarrow> err option \<Rightarrow> 'w mt_state \<Rightarrow> 'w mt_state" where
  "mt_log E e s =
     (case ms_reqInfo s of
        None \<Rightarrow> s
      | Some ri \<Rightarrow>
          let tagged = (case e of
                None \<Rightarrow> ri
              | Some x \<Rightarrow>
                  if me_insecureLogAll E \<or> (\<not> minioError E x \<and> \<not> (me_IsCanceled E (me_ctxErr E) \<or> me_IsCanceled E (Some x)))
                  then ri\<lparr>ri_tags := me_SetTags E ''error'' (me_Error E x) (ri_tags ri)\<rparr> else ri)
          in s\<lparr>ms_reqInfo := Some tagged, ms_log := map_option (\<lambda>dst. copyReqInfo E dst tagged) (ms_log s)\<rparr>)"

text \<open>The value of a tag in the log of the request (pkg/server/gwlog).\<close>

definition TagValue :: "req_info \<Rightarrow> string \<Rightarrow> string" where
  "TagValue l key = (case map_of (ri_tags l) key of None \<Rightarrow> [] | Some v \<Rightarrow> v)"

subsection \<open>Projects\<close>

definition getAccessGrant :: "credentials option \<Rightarrow> string" where
  "getAccessGrant cr =
     (case cr of
        None \<Rightarrow> []
      | Some c \<Rightarrow> if cr_AccessKey c = [] then [] else au_AccessGrant (cr_Response c))"

definition getUserAgent :: "('a, 'p, 'o, 'r, 'w) mt_env \<Rightarrow> req_info option \<Rightarrow> string" where
  "getUserAgent E reqInfo =
     (case reqInfo of
        None \<Rightarrow> me_gatewayUserAgent E
      | Some ri \<Rightarrow>
          if ri_UserAgent ri \<noteq> [] \<and> me_ParseEntries E (ri_UserAgent ri)
          then ri_UserAgent ri @ '' '' @ me_gatewayUserAgent E
          else me_gatewayUserAgent E)"

definition setupProject :: "('a, 'p, 'o, 'r, 'w) mt_env \<Rightarrow> 'a \<Rightarrow> 'w mt_state \<Rightarrow> (err + 'p) \<times> 'w mt_state" where
  "setupProject E access s =
     (case me_SetConnectionPool E of
        Some e \<Rightarrow> (Inl e, s)
      | None \<Rightarrow>
          (case me_SetSatelliteConnectionPool E of
             Some e \<Rightarrow> (Inl e, s)
           | None \<Rightarrow>
               (case me_OpenProject E
                    \<lparr>oa_UserAgent = getUserAgent E (ms_reqInfo s),
                     oa_PieceHashAlgorithmBlake3 = uc_PieceHashAlgorithmBlake3 (me_uploads E),
                     oa_RefactoredCodePath = uc_RefactoredCodePath (me_uploads E)\<rparr> access (ms_world s) of
                  (res, w) \<Rightarrow> (res, s\<lparr>ms_world := w\<rparr>))))"

definition openProject :: "('a, 'p, 'o, 'r, 'w) mt_env \<Rightarrow> string \<Rightarrow> 'w mt_state \<Rightarrow> (err + 'p) \<times> 'w mt_state" where
  "openProject E accessKey s =
     (if accessKey = [] then (Inl (Sentinel AccessKeyEmpty), s)
      else case me_ParseAccess E accessKey of
             Inl e \<Rightarrow> (Inl (wrap GatewayAccessGrant e), s)
           | Inr access \<Rightarrow> setupProject E access s)"

definition close_project :: "('a, 'p, 'o, 'r, 'w) mt_env \<Rightarrow> 'p \<Rightarrow> 'w mt_state \<Rightarrow> err option \<times> 'w mt_state" where
  "close_project E p s = (case me_Close E p (ms_world s) of (e, w) \<Rightarrow> (e, s\<lparr>ms_world := w\<rparr>))"

text \<open>The body the operations share; \<open>named\<close> says that the error is a named result.\<close>

definition with_project :: "bool \<Rightarrow> ('a, 'p, 'o, 'r, 'w) mt_env \<Rightarrow> credentials option \<Rightarrow> 'o layer_call \<Rightarrow> 'w mt_state
    \<Rightarrow> ('r \<times> err option) \<times> 'w mt_state" where
  "with_project named E cr call s =
     (case openProject E (getAccessGrant cr) s of
        (Inl e, s1) \<Rightarrow> ((me_zero E call, Some e), s1)
      | (Inr p, s1) \<Rightarrow>
          (case me_layer E call p (ms_world s1) of
             ((r, e), w) \<Rightarrow>
               (case close_project E p (mt_log E e (s1\<lparr>ms_world := w\<rparr>)) of
                  (ce, s2) \<Rightarrow> ((r, if named then combine [e, ce] else e), s2))))"

text \<open>\<open>StorageInfo\<close> and \<open>DeleteObjects\<close> return a list of errors.\<close>

definition with_project_many :: "('a, 'p, 'o, 'r, 'w) mt_env \<Rightarrow> credentials option \<Rightarrow> 'o layer_call \<Rightarrow> 'w mt_state
    \<Rightarrow> ('r \<times> err option list) \<times> 'w mt_state" where
  "with_project_many E cr call s =
     (case openProject E (getAccessGrant cr) s of
        (Inl e, s1) \<Rightarrow> ((me_zero E call, [Some e]), s1)
      | (Inr p, s1) \<Rightarrow>
          (case me_layerMany E call p (ms_world s1) of
             ((r, es), w) \<Rightarrow>
               (case close_project E p (fold (mt_log E) es (s1\<lparr>ms_world := w\<rparr>)) of (_, s2) \<Rightarrow> ((r, es), s2))))"

subsection \<open>The operations\<close>

definition mt_Shutdown :: "('a, 'p, 'o, 'r, 'w) mt_env \<Rightarrow> 'w mt_state \<Rightarrow> err option \<times> 'w mt_state" where
  "mt_Shutdown E s =
     (case me_poolClose E (ms_world s) of
        (e, w) \<Rightarrow>
          (case me_satellitePoolClose E w of
             (f, v) \<Rightarrow> (combine [e, f], mt_log E (combine [e, f]) (s\<lparr>ms_world := v\<rparr>))))"

definition mt_IsTaggingSupported :: "('a, 'p, 'o, 'r, 'w) mt_env \<Rightarrow> bool" where
  "mt_IsTaggingSupported E = me_IsTaggingSupported E"

definition mt_StorageInfo :: "('a, 'p, 'o, 'r, 'w) mt_env \<Rightarrow> credentials option \<Rightarrow> 'w mt_state \<Rightarrow> ('r \<times> err option list) \<times> 'w mt_state" where
  "mt_StorageInfo E cr s = with_project_many E cr CStorageInfo s"

definition mt_DeleteObjects :: "('a, 'p, 'o, 'r, 'w) mt_env \<Rightarrow> credentials option \<Rightarrow> string \<Rightarrow> 'o \<Rightarrow> 'o \<Rightarrow> 'w mt_state
    \<Rightarrow> ('r \<times> err option list) \<times> 'w mt_state" where
  "mt_DeleteObjects E cr bucket objects opts s = with_project_many E cr (CDeleteObjects bucket objects opts) s"

definition mt_ListBucketsWithAttribution :: "('a, 'p, 'o, 'r, 'w) mt_env \<Rightarrow> credentials option \<Rightarrow> 'w mt_state
    \<Rightarrow> (bucket_attribution list \<times> err option) \<times> 'w mt_state" where
  "mt_ListBucketsWithAttribution E cr s =
     (case openProject E (getAccessGrant cr) s of
        (Inl e, s1) \<Rightarrow> (([], Some e), s1)
      | (Inr p, s1) \<Rightarrow>
          (case me_listAttributed E p (ms_world s1) of
             ((buckets, itErr), w) \<Rightarrow>
               (let e = me_ConvertError E itErr
                in case close_project E p (mt_log E e (s1\<lparr>ms_world := w\<rparr>)) of
                     (ce, s2) \<Rightarrow> ((buckets, combine [e, ce]), s2))))"

definition mt_MakeBucketWithLocation :: "('a, 'p, 'o, 'r, 'w) mt_env \<Rightarrow> credentials option \<Rightarrow> string \<Rightarrow> 'o \<Rightarrow> 'w mt_state
    \<Rightarrow> ('r \<times> err option) \<times> 'w mt_state" where
  "mt_MakeBucketWithLocation E cr bucket opts s = with_project False E cr (CMakeBucketWithLocation bucket opts) s"

definition mt_GetBucketInfo :: "('a, 'p, 'o, 'r, 'w) mt_env \<Rightarrow> credentials option \<Rightarrow> string \<Rightarrow> 'w mt_state
    \<Rightarrow> ('r \<times> err option) \<times> 'w mt_state" where
  "mt_GetBucketInfo E cr bucket s =
     (if getAccessGrant cr = [] then ((me_zero E (CGetBucketInfo bucket), Some (Sentinel MinioNotImplemented)), s)
      else with_project True E cr (CGetBucketInfo bucket) s)"

definition mt_ListBuckets :: "('a, 'p, 'o, 'r, 'w) mt_env \<Rightarrow> credentials option \<Rightarrow> 'w mt_state
    \<Rightarrow> ('r \<times> err option) \<times> 'w mt_state" where
  "mt_ListBuckets E cr s = with_project True E cr CListBuckets s"

definition mt_DeleteBucket :: "('a, 'p, 'o, 'r, 'w) mt_env \<Rightarrow> credentials option \<Rightarrow> string \<Rightarrow> bool \<Rightarrow> 'w mt_state
    \<Rightarrow> ('r \<times> err option) \<times> 'w mt_state" where
  "mt_DeleteBucket E cr bucket forceDelete s = with_project False E cr (CDeleteBucket bucket forceDelete) s"

definition mt_ListObjects :: "('a, 'p, 'o, 'r, 'w) mt_env \<Rightarrow> credentials option \<Rightarrow> string \<Rightarrow> string \<Rightarrow> string \<Rightarrow> string \<Rightarrow> int \<Rightarrow> 'w mt_state
    \<Rightarrow> ('r \<times> err option) \<times> 'w mt_state" where
  "mt_ListObjects E cr bucket pre marker delimiter maxKeys s = with_project True E cr (CListObjects bucket pre marker delimiter maxKeys) s"

definition mt_ListObjectsV2 :: "('a, 'p, 'o, 'r, 'w) mt_env \<Rightarrow> credentials option \<Rightarrow> string \<Rightarrow> string \<Rightarrow> string \<Rightarrow> string \<Rightarrow> int \<Rightarrow> bool \<Rightarrow> string \<Rightarrow> 'w mt_state
    \<Rightarrow> ('r \<times> err option) \<times> 'w mt_state" where
  "mt_ListObjectsV2 E cr bucket pre continuationToken delimiter maxKeys fetchOwner startAfter s = with_project True E cr (CListObjectsV2 bucket pre continuationToken delimiter maxKeys fetchOwner startAfter) s"

definition mt_GetObjectNInfo :: "('a, 'p, 'o, 'r, 'w) mt_env \<Rightarrow> credentials option \<Rightarrow> string \<Rightarrow> string \<Rightarrow> 'o \<Rightarrow> 'o \<Rightarrow> 'o \<Rightarrow> 'o \<Rightarrow> 'w mt_state
    \<Rightarrow> ('r \<times> err option) \<times> 'w mt_state" where
  "mt_GetObjectNInfo E cr bucket objectName rs h lockType opts s = with_project True E cr (CGetObjectNInfo bucket objectName rs h lockType opts) s"

definition mt_GetObjectInfo :: "('a, 'p, 'o, 'r, 'w) mt_env \<Rightarrow> credentials option \<Rightarrow> string \<Rightarrow> string \<Rightarrow> 'o \<Rightarrow> 'w mt_state
    \<Rightarrow> ('r \<times> err option) \<times> 'w mt_state" where
  "mt_GetObjectInfo E cr bucket objectName opts s = with_project True E cr (CGetObjectInfo bucket objectName opts) s"

definition mt_PutObject :: "('a, 'p, 'o, 'r, 'w) mt_env \<Rightarrow> credentials option \<Rightarrow> string \<Rightarrow> string \<Rightarrow> 'o \<Rightarrow> 'o \<Rightarrow> 'w mt_state
    \<Rightarrow> ('r \<times> err option) \<times> 'w mt_state" where
  "mt_PutObject E cr bucket objectName data opts s = with_project True E cr (CPutObject bucket objectName data opts) s"

definition mt_CopyObject :: "('a, 'p, 'o, 'r, 'w) mt_env \<Rightarrow> credentials option \<Rightarrow> string \<Rightarrow> string \<Rightarrow> string \<Rightarrow> string \<Rightarrow> 'o \<Rightarrow> 'o \<Rightarrow> 'o \<Rightarrow> 'w mt_state
    \<Rightarrow> ('r \<times> err option) \<times> 'w mt_state" where
  "mt_CopyObject E cr srcBucket srcObject destBucket destObject srcInfo srcOpts destOpts s = with_project True E cr (CCopyObject srcBucket srcObject destBucket destObject srcInfo srcOpts destOpts) s"

definition mt_DeleteObject :: "('a, 'p, 'o, 'r, 'w) mt_env \<Rightarrow> credentials option \<Rightarrow> string \<Rightarrow> string \<Rightarrow> 'o \<Rightarrow> 'w mt_state
    \<Rightarrow> ('r \<times> err option) \<times> 'w mt_state" where
  "mt_DeleteObject E cr bucket objectName opts s = with_project True E cr (CDeleteObject bucket objectName opts) s"

definition mt_ListMultipartUploads :: "('a, 'p, 'o, 'r, 'w) mt_env \<Rightarrow> credentials option \<Rightarrow> string \<Rightarrow> string \<Rightarrow> string \<Rightarrow> string \<Rightarrow> string \<Rightarrow> int \<Rightarrow> 'w mt_state
    \<Rightarrow> ('r \<times> err option) \<times> 'w mt_state" where
  "mt_ListMultipartUploads E cr bucket pre keyMarker uploadIDMarker delimiter maxUploads s = with_project True E cr (CListMultipartUploads bucket pre keyMarker uploadIDMarker delimiter maxUploads) s"

definition mt_NewMultipartUpload :: "('a, 'p, 'o, 'r, 'w) mt_env \<Rightarrow> credentials option \<Rightarrow> string \<Rightarrow> string \<Rightarrow> 'o \<Rightarrow> 'w mt_state
    \<Rightarrow> ('r \<times> err option) \<times> 'w mt_state" where
  "mt_NewMultipartUpload E cr bucket objectName opts s = with_project True E cr (CNewMultipartUpload bucket objectName opts) s"

definition mt_PutObjectPart :: "('a, 'p, 'o, 'r, 'w) mt_env \<Rightarrow> credentials option \<Rightarrow> string \<Rightarrow> string \<Rightarrow> string \<Rightarrow> int \<Rightarrow> 'o \<Rightarrow> 'o \<Rightarrow> 'w mt_state
    \<Rightarrow> ('r \<times> err option) \<times> 'w mt_state" where
  "mt_PutObjectPart E cr bucket objectName uploadID partID data opts s = with_project True E cr (CPutObjectPart bucket objectName uploadID partID data opts) s"

definition mt_GetMultipartInfo :: "('a, 'p, 'o, 'r, 'w) mt_env \<Rightarrow> credentials option \<Rightarrow> string \<Rightarrow> string \<Rightarrow> string \<Rightarrow> 'o \<Rightarrow> 'w mt_state
    \<Rightarrow> ('r \<times> err option) \<times> 'w mt_state" where
  "mt_GetMultipartInfo E cr bucket objectName uploadID opts s = with_project True E cr (CGetMultipartInfo bucket objectName uploadID opts) s"

definition mt_ListObjectParts :: "('a, 'p, 'o, 'r, 'w) mt_env \<Rightarrow> credentials option \<Rightarrow> string \<Rightarrow> string \<Rightarrow> string \<Rightarrow> int \<Rightarrow> int \<Rightarrow> 'o \<Rightarrow> 'w mt_state
    \<Rightarrow> ('r \<times> err option) \<times> 'w mt_state" where
  "mt_ListObjectParts E cr bucket objectName uploadID partNumberMarker maxParts opts s = with_project True E cr (CListObjectParts bucket objectName uploadID partNumberMarker maxParts opts) s"

definition mt_AbortMultipartUpload :: "('a, 'p, 'o, 'r, 'w) mt_env \<Rightarrow> credentials option \<Rightarrow> string \<Rightarrow> string \<Rightarrow> string \<Rightarrow> 'o \<Rightarrow> 'w mt_state
    \<Rightarrow> ('r \<times> err option) \<times> 'w mt_state" where
  "mt_AbortMultipartUpload E cr bucket objectName uploadID opts s = with_project False E cr (CAbortMultipartUpload bucket objectName uploadID opts) s"

definition mt_CompleteMultipartUpload :: "('a, 'p, 'o, 'r, 'w) mt_env \<Rightarrow> credentials option \<Rightarrow> string \<Rightarrow> string \<Rightarrow> string \<Rightarrow> 'o \<Rightarrow> 'o \<Rightarrow> 'w mt_state
    \<Rightarrow> ('r \<times> err option) \<times> 'w mt_state" where
  "mt_CompleteMultipartUpload E cr bucket objectName uploadID uploadedParts opts s = with_project True E cr (CCompleteMultipartUpload bucket objectName uploadID uploadedParts opts) s"

definition mt_PutObjectTags :: "('a, 'p, 'o, 'r, 'w) mt_env \<Rightarrow> credentials option \<Rightarrow> string \<Rightarrow> string \<Rightarrow> string \<Rightarrow> 'o \<Rightarrow> 'w mt_state
    \<Rightarrow> ('r \<times> err option) \<times> 'w mt_state" where
  "mt_PutObjectTags E cr bucketName objectPath tags opts s = with_project False E cr (CPutObjectTags bucketName objectPath tags opts) s"

definition mt_GetObjectTags :: "('a, 'p, 'o, 'r, 'w) mt_env \<Rightarrow> credentials option \<Rightarrow> string \<Rightarrow> string \<Rightarrow> 'o \<Rightarrow> 'w mt_state
    \<Rightarrow> ('r \<times> err option) \<times> 'w mt_state" where
  "mt_GetObjectTags E cr bucketName objectPath opts s = with_project True E cr (CGetObjectTags bucketName objectPath opts) s"

definition mt_DeleteObjectTags :: "('a, 'p, 'o, 'r, 'w) mt_env \<Rightarrow> credentials option \<Rightarrow> string \<Rightarrow> string \<Rightarrow> 'o \<Rightarrow> 'w mt_state
    \<Rightarrow> ('r \<times> err option) \<times> 'w mt_state" where
  "mt_DeleteObjectTags E cr bucketName objectPath opts s = with_project False E cr (CDeleteObjectTags bucketName objectPath opts) s"

text \<open>The operations that return one error.\<close>

fun mt_run :: "'o layer_call \<Rightarrow> ('a, 'p, 'o, 'r, 'w) mt_env \<Rightarrow> credentials option \<Rightarrow> 'w mt_state
    \<Rightarrow> (('r \<times> err option) \<times> 'w mt_state) option" where
  "mt_run (CMakeBucketWithLocation a b) E cr s = Some (mt_MakeBucketWithLocation E cr a b s)"
| "mt_run (CGetBucketInfo a) E cr s = Some (mt_GetBucketInfo E cr a s)"
| "mt_run (CListBuckets) E cr s = Some (mt_ListBuckets E cr s)"
| "mt_run (CDeleteBucket a b) E cr s = Some (mt_DeleteBucket E cr a b s)"
| "mt_run (CListObjects a b c d e) E cr s = Some (mt_ListObjects E cr a b c d e s)"
| "mt_run (CListObjectsV2 a b c d e f g) E cr s = Some (mt_ListObjectsV2 E cr a b c d e f g s)"
| "mt_run (CGetObjectNInfo a b c d e f) E cr s = Some (mt_GetObjectNInfo E cr a b c d e f s)"
| "mt_run (CGetObjectInfo a b c) E cr s = Some (mt_GetObjectInfo E cr a b c s)"
| "mt_run (CPutObject a b c d) E cr s = Some (mt_PutObject E cr a b c d s)"
| "mt_run (CCopyObject a b c d e f g) E cr s = Some (mt_CopyObject E cr a b c d e f g s)"
| "mt_run (CDeleteObject a b c) E cr s = Some (mt_DeleteObject E cr a b c s)"
| "mt_run (CListMultipartUploads a b c d e f) E cr s = Some (mt_ListMultipartUploads E cr a b c d e f s)"
| "mt_run (CNewMultipartUpload a b c) E cr s = Some (mt_NewMultipartUpload E cr a b c s)"
| "mt_run (CPutObjectPart a b c d e f) E cr s = Some (mt_PutObjectPart E cr a b c d e f s)"
| "mt_run (CGetMultipartInfo a b c d) E cr s = Some (mt_GetMultipartInfo E cr a b c d s)"
| "mt_run (CListObjectParts a b c d e f) E cr s = Some (mt_ListObjectParts E cr a b c d e f s)"
| "mt_run (CAbortMultipartUpload a b c d) E cr s = Some (mt_AbortMultipartUpload E cr a b c d s)"
| "mt_run (CCompleteMultipartUpload a b c d e) E cr s = Some (mt_CompleteMultipartUpload E cr a b c d e s)"
| "mt_run (CPutObjectTags a b c d) E cr s = Some (mt_PutObjectTags E cr a b c d s)"
| "mt_run (CGetObjectTags a b c) E cr s = Some (mt_GetObjectTags E cr a b c s)"
| "mt_run (CDeleteObjectTags a b c) E cr s = Some (mt_DeleteObjectTags E cr a b c s)"
| "mt_run CStorageInfo E cr s = None"
| "mt_run (CDeleteObjects a b c) E cr s = None"

subsection \<open>One project per operation\<close>

text \<open>The methods whose error is a named result, and the two that return lists of errors.\<close>

fun named_result :: "'o layer_call \<Rightarrow> bool" where
  "named_result (CMakeBucketWithLocation _ _) = False"
| "named_result (CDeleteBucket _ _) = False"
| "named_result (CAbortMultipartUpload _ _ _ _) = False"
| "named_result (CPutObjectTags _ _ _ _) = False"
| "named_result (CDeleteObjectTags _ _ _) = False"
| "named_result _ = True"

fun one_error :: "'o layer_call \<Rightarrow> bool" where
  "one_error CStorageInfo = False"
| "one_error (CDeleteObjects _ _ _) = False"
| "one_error _ = True"

fun anonymous_error :: "'o layer_call \<Rightarrow> err" where
  "anonymous_error (CGetBucketInfo _) = Sentinel MinioNotImplemented"
| "anonymous_error _ = Sentinel AccessKeyEmpty"

lemmas mt_defs = mt_MakeBucketWithLocation_def mt_GetBucketInfo_def mt_ListBuckets_def mt_DeleteBucket_def
  mt_ListObjects_def mt_ListObjectsV2_def mt_GetObjectNInfo_def mt_GetObjectInfo_def mt_PutObject_def mt_CopyObject_def
  mt_DeleteObject_def mt_ListMultipartUploads_def mt_NewMultipartUpload_def mt_PutObjectPart_def mt_GetMultipartInfo_def
  mt_ListObjectParts_def mt_AbortMultipartUpload_def mt_CompleteMultipartUpload_def mt_PutObjectTags_def
  mt_GetObjectTags_def mt_DeleteObjectTags_def

lemma mt_run_with_project:
  assumes "one_error call"
  shows "mt_run call E cr s = Some (if getAccessGrant cr = [] then ((me_zero E call, Some (anonymous_error call)), s)
      else with_project (named_result call) E cr call s)"
  using assms by (cases call) (simp_all add: mt_defs with_project_def openProject_def)

lemma ms_world_log [simp]: "ms_world (mt_log E e s) = ms_world s"
  by (simp add: mt_log_def Let_def split: option.split)

lemma setupProject_opens:
  assumes "me_SetConnectionPool E = None" and "me_SetSatelliteConnectionPool E = None"
  shows "setupProject E access s = (let (res, w) = me_OpenProject E
      \<lparr>oa_UserAgent = getUserAgent E (ms_reqInfo s),
       oa_PieceHashAlgorithmBlake3 = uc_PieceHashAlgorithmBlake3 (me_uploads E),
       oa_RefactoredCodePath = uc_RefactoredCodePath (me_uploads E)\<rparr> access (ms_world s) in (res, s\<lparr>ms_world := w\<rparr>))"
  by (simp add: setupProject_def assms Let_def)

text \<open>
  The error of closing the project is lost by the five methods whose error is not a named result, and
  reported by the others.
\<close>

lemma closing_error_lost:
  assumes "one_error call" and "me_SetConnectionPool E = None" and "me_SetSatelliteConnectionPool E = None"
    and "getAccessGrant cr \<noteq> []" and "me_ParseAccess E (getAccessGrant cr) = Inr access"
    and "me_OpenProject E \<lparr>oa_UserAgent = getUserAgent E (ms_reqInfo s),
       oa_PieceHashAlgorithmBlake3 = uc_PieceHashAlgorithmBlake3 (me_uploads E),
       oa_RefactoredCodePath = uc_RefactoredCodePath (me_uploads E)\<rparr> access (ms_world s) = (Inr p, w)"
    and "me_layer E call p w = ((r, None), w1)" and "me_Close E p w1 = (Some x, w2)"
  shows "\<exists>s'. mt_run call E cr s = Some ((r, if named_result call then combine [None, Some x] else None), s')"
  unfolding mt_run_with_project [OF assms(1)]
  by (simp add: assms(4,5) with_project_def openProject_def setupProject_opens [OF assms(2,3)] assms(6-8) close_project_def Let_def)

subsection \<open>Projects over a session\<close>

text \<open>
  What happens to projects, in order: a project is opened with a grant or cannot be, is handed to the layer
  below for a request, and is closed.  \<open>traced\<close> adds the list of these events to the world of an
  environment, and changes nothing else in it.
\<close>

datatype 'o mt_request = LayerRequest "'o layer_call" | AttributionRequest

datatype ('a, 'p, 'o) project_event = Opened 'a 'p | OpenFailed 'a | Used "'o mt_request" 'p | Closed 'p

definition traced :: "('a, 'p, 'o, 'r, 'w) mt_env \<Rightarrow> ('a, 'p, 'o, 'r, 'w \<times> ('a, 'p, 'o) project_event list) mt_env" where
  "traced E =
     \<lparr>me_ParseAccess = me_ParseAccess E, me_SetConnectionPool = me_SetConnectionPool E,
      me_SetSatelliteConnectionPool = me_SetSatelliteConnectionPool E,
      me_OpenProject = (\<lambda>args a (w, t). case me_OpenProject E args a w of
          (Inl e, v) \<Rightarrow> (Inl e, (v, t @ [OpenFailed a])) | (Inr p, v) \<Rightarrow> (Inr p, (v, t @ [Opened a p]))),
      me_Close = (\<lambda>p (w, t). case me_Close E p w of (e, v) \<Rightarrow> (e, (v, t @ [Closed p]))),
      me_layer = (\<lambda>c p (w, t). case me_layer E c p w of (r, v) \<Rightarrow> (r, (v, t @ [Used (LayerRequest c) p]))),
      me_layerMany = (\<lambda>c p (w, t). case me_layerMany E c p w of (r, v) \<Rightarrow> (r, (v, t @ [Used (LayerRequest c) p]))),
      me_zero = me_zero E,
      me_listAttributed = (\<lambda>p (w, t). case me_listAttributed E p w of (r, v) \<Rightarrow> (r, (v, t @ [Used AttributionRequest p]))),
      me_ConvertError = me_ConvertError E,
      me_poolClose = (\<lambda>(w, t). case me_poolClose E w of (e, v) \<Rightarrow> (e, (v, t))),
      me_satellitePoolClose = (\<lambda>(w, t). case me_satellitePoolClose E w of (e, v) \<Rightarrow> (e, (v, t))),
      me_IsTaggingSupported = me_IsTaggingSupported E, me_errorResponse = me_errorResponse E,
      me_genericError = me_genericError E, me_IsCanceled = me_IsCanceled E, me_ctxErr = me_ctxErr E, me_Error = me_Error E,
      me_SetTags = me_SetTags E, me_ParseEntries = me_ParseEntries E, me_gatewayUserAgent = me_gatewayUserAgent E,
      me_uploads = me_uploads E, me_insecureLogAll = me_insecureLogAll E\<rparr>"

text \<open>
  A request of any kind, with the errors of its answer, and a session: requests of any tenants, one after
  the other.
\<close>

fun mt_serve :: "('a, 'p, 'o, 'r, 'w) mt_env \<Rightarrow> credentials option \<Rightarrow> 'o mt_request \<Rightarrow> 'w mt_state \<Rightarrow> err option list \<times> 'w mt_state" where
  "mt_serve E cr AttributionRequest s = (case mt_ListBucketsWithAttribution E cr s of ((_, e), t) \<Rightarrow> ([e], t))"
| "mt_serve E cr (LayerRequest CStorageInfo) s = (case mt_StorageInfo E cr s of ((_, es), t) \<Rightarrow> (es, t))"
| "mt_serve E cr (LayerRequest (CDeleteObjects b objects opts)) s = (case mt_DeleteObjects E cr b objects opts s of ((_, es), t) \<Rightarrow> (es, t))"
| "mt_serve E cr (LayerRequest call) s = (case mt_run call E cr s of Some ((_, e), t) \<Rightarrow> ([e], t) | None \<Rightarrow> ([], s))"

fun mt_session :: "('a, 'p, 'o, 'r, 'w) mt_env \<Rightarrow> (credentials option \<times> 'o mt_request) list \<Rightarrow> 'w mt_state
    \<Rightarrow> err option list list \<times> 'w mt_state" where
  "mt_session E [] s = ([], s)"
| "mt_session E ((cr, q) # qs) s =
     (case mt_serve E cr q s of (answer, t) \<Rightarrow> case mt_session E qs t of (answers, u) \<Rightarrow> (answer # answers, u))"

text \<open>
  What a request may do to projects, by the grant of its tenant: nothing if it has none that can be used, and
  otherwise to open a single project, to use it once for itself, and to close it.
\<close>

definition usable_grant :: "('a, 'p, 'o, 'r, 'w) mt_env \<Rightarrow> credentials option \<Rightarrow> 'a option" where
  "usable_grant E cr =
     (if getAccessGrant cr = [] \<or> me_SetConnectionPool E \<noteq> None \<or> me_SetSatelliteConnectionPool E \<noteq> None then None
      else case me_ParseAccess E (getAccessGrant cr) of Inl _ \<Rightarrow> None | Inr a \<Rightarrow> Some a)"

definition episode :: "('a, 'p, 'o, 'r, 'w) mt_env \<Rightarrow> credentials option \<times> 'o mt_request \<Rightarrow> err option list \<times> ('a, 'p, 'o) project_event list \<Rightarrow> bool" where
  "episode E = (\<lambda>(cr, q) (answer, events).
     case usable_grant E cr of
       None \<Rightarrow> events = [] \<and> (\<exists>e. answer = [Some e])
     | Some a \<Rightarrow> events = [OpenFailed a] \<and> (\<exists>e. answer = [Some e]) \<or> (\<exists>p. events = [Opened a p, Used q p, Closed p]))"

abbreviation mt_trace :: "('w \<times> ('a, 'p, 'o) project_event list) mt_state \<Rightarrow> ('a, 'p, 'o) project_event list" where
  "mt_trace s \<equiv> snd (ms_world s)"

lemma ms_world_logs [simp]: "ms_world (fold (mt_log E) es s) = ms_world s"
  by (induction es arbitrary: s) simp_all

lemma openProject_traced:
  assumes "openProject (traced E) (getAccessGrant cr) s = (res, t)"
  shows "case usable_grant E cr of
      None \<Rightarrow> mt_trace t = mt_trace s \<and> (\<exists>e. res = Inl e)
    | Some a \<Rightarrow> (\<exists>e. res = Inl e \<and> mt_trace t = mt_trace s @ [OpenFailed a]) \<or> (\<exists>p. res = Inr p \<and> mt_trace t = mt_trace s @ [Opened a p])"
proof -
  obtain w tr i l where s: "s = \<lparr>ms_world = (w, tr), ms_reqInfo = i, ms_log = l\<rparr>"
    by (cases s) (metis prod.collapse)
  from assms show ?thesis
    unfolding s
    by (auto simp: openProject_def setupProject_def usable_grant_def traced_def split: if_splits sum.splits option.splits prod.splits)
qed

lemma close_traced:
  assumes "close_project (traced E) p s = (e, t)"
  shows "mt_trace t = mt_trace s @ [Closed p]"
  using assms by (cases "ms_world s") (auto simp: close_project_def traced_def split: prod.splits)

lemma layer_traced:
  "me_layer (traced E) c p w = ((r, e), v) \<Longrightarrow> snd v = snd w @ [Used (LayerRequest c) p]"
  "me_layerMany (traced E) c p w = ((r, es), v) \<Longrightarrow> snd v = snd w @ [Used (LayerRequest c) p]"
  "me_listAttributed (traced E) p w = (l, v) \<Longrightarrow> snd v = snd w @ [Used AttributionRequest p]"
  by (cases w; auto simp: traced_def split: prod.splits)+

lemma with_project_episode:
  assumes "with_project named (traced E) cr call s = ((r, e), t)"
  shows "\<exists>events. mt_trace t = mt_trace s @ events \<and> episode E (cr, LayerRequest call) ([e], events)"
proof -
  obtain res s1 where o: "openProject (traced E) (getAccessGrant cr) s = (res, s1)" by fastforce
  show ?thesis
    using assms o openProject_traced [OF o]
    by (auto simp: with_project_def episode_def dest!: close_traced layer_traced split: sum.splits prod.splits option.splits)
qed

lemma with_project_many_episode:
  assumes "with_project_many (traced E) cr call s = ((r, es), t)"
  shows "\<exists>events. mt_trace t = mt_trace s @ events \<and> episode E (cr, LayerRequest call) (es, events)"
proof -
  obtain res s1 where o: "openProject (traced E) (getAccessGrant cr) s = (res, s1)" by fastforce
  show ?thesis
    using assms o openProject_traced [OF o]
    by (auto simp: with_project_many_def episode_def dest!: close_traced layer_traced split: sum.splits prod.splits option.splits)
qed

lemma attribution_episode:
  assumes "mt_ListBucketsWithAttribution (traced E) cr s = ((r, e), t)"
  shows "\<exists>events. mt_trace t = mt_trace s @ events \<and> episode E (cr, AttributionRequest) ([e], events)"
proof -
  obtain res s1 where o: "openProject (traced E) (getAccessGrant cr) s = (res, s1)" by fastforce
  show ?thesis
    using assms o openProject_traced [OF o]
    by (auto simp: mt_ListBucketsWithAttribution_def episode_def Let_def dest!: close_traced layer_traced
        split: sum.splits prod.splits option.splits)
qed

lemma run_episode:
  assumes "one_error call" and "mt_run call (traced E) cr s = Some ((r, e), t)"
  shows "\<exists>events. mt_trace t = mt_trace s @ events \<and> episode E (cr, LayerRequest call) ([e], events)"
proof (cases "getAccessGrant cr = []")
  case True
  with assms(2) show ?thesis
    unfolding mt_run_with_project [OF assms(1)] by (auto simp: episode_def usable_grant_def)
next
  case False
  with assms(2) with_project_episode show ?thesis
    unfolding mt_run_with_project [OF assms(1)] by fastforce
qed

lemma serve_one_error:
  assumes "one_error call"
  shows "\<exists>r e t. mt_run call E cr s = Some ((r, e), t) \<and> mt_serve E cr (LayerRequest call) s = ([e], t)"
proof -
  obtain r e t where "mt_run call E cr s = Some ((r, e), t)"
    using mt_run_with_project [OF assms, of E cr s] by (metis prod.collapse)
  moreover from this have "mt_serve E cr (LayerRequest call) s = ([e], t)"
    using assms by (cases call) simp_all
  ultimately show ?thesis by blast
qed

lemma serve_episode:
  assumes "mt_serve (traced E) cr q s = (answer, t)"
  shows "\<exists>events. mt_trace t = mt_trace s @ events \<and> episode E (cr, q) (answer, events)"
proof (cases q)
  case AttributionRequest
  with assms attribution_episode [of E cr s] show ?thesis by (auto split: prod.splits)
next
  case (LayerRequest call)
  show ?thesis
  proof (cases "one_error call")
    case True
    from serve_one_error [OF True, of "traced E" cr s] assms run_episode [OF True, of E cr s] show ?thesis
      by (auto simp: LayerRequest)
  next
    case False
    then consider "call = CStorageInfo" | b objects opts where "call = CDeleteObjects b objects opts" by (cases call) auto
    then show ?thesis
      using assms with_project_many_episode [of E cr call s]
      by cases (auto simp: LayerRequest mt_StorageInfo_def mt_DeleteObjects_def split: prod.splits)
  qed
qed

lemma session_episodes:
  "mt_session (traced E) reqs s = (answers, t) \<Longrightarrow>
   \<exists>episodes. mt_trace t = mt_trace s @ concat episodes \<and> length answers = length episodes
     \<and> list_all2 (episode E) reqs (zip answers episodes)"
proof (induction reqs arbitrary: s answers)
  case (Cons req reqs)
  obtain cr q where req: "req = (cr, q)" by (cases req)
  from Cons.prems obtain answer u rest where u: "mt_serve (traced E) cr q s = (answer, u)"
      "mt_session (traced E) reqs u = (rest, t)" "answers = answer # rest"
    by (auto simp: req split: prod.splits)
  obtain events where "mt_trace u = mt_trace s @ events" "episode E (cr, q) (answer, events)"
    using serve_episode [OF u(1)] by blast
  moreover obtain episodes where "mt_trace t = mt_trace u @ concat episodes" "length rest = length episodes"
      "list_all2 (episode E) reqs (zip rest episodes)"
    using Cons.IH [OF u(2)] by blast
  ultimately have "mt_trace t = mt_trace s @ concat (events # episodes) \<and> length answers = length (events # episodes)
      \<and> list_all2 (episode E) (req # reqs) (zip answers (events # episodes))"
    by (simp add: u(3) req)
  then show ?case by blast
qed simp

text \<open>What follows for the projects: as many are closed as were opened, and each is used for a tenant with its grant.\<close>

definition opened_as :: "'p \<Rightarrow> ('a, 'p, 'o) project_event \<Rightarrow> bool" where
  "opened_as p e \<longleftrightarrow> (case e of Opened _ p' \<Rightarrow> p' = p | _ \<Rightarrow> False)"

definition closed_as :: "'p \<Rightarrow> ('a, 'p, 'o) project_event \<Rightarrow> bool" where
  "closed_as p e \<longleftrightarrow> (case e of Closed p' \<Rightarrow> p' = p | _ \<Rightarrow> False)"

lemma episode_balanced:
  "episode E req (answer, events) \<Longrightarrow> length (filter (opened_as p) events) = length (filter (closed_as p) events)"
  by (cases req) (auto simp: episode_def opened_as_def closed_as_def split: option.splits)

lemma episodes_balanced:
  assumes "list_all2 (episode E) reqs (zip answers episodes)" and "length answers = length episodes"
  shows "length (filter (opened_as p) (concat episodes)) = length (filter (closed_as p) (concat episodes))"
  using assms(2,1)
proof (induction answers episodes arbitrary: reqs rule: list_induct2)
  case (Cons answer answers events episodes)
  then show ?case by (auto simp: list_all2_Cons2 dest: episode_balanced [where p = p])
qed simp

lemma used_by_tenant:
  assumes "list_all2 (episode E) reqs (zip answers episodes)" and "length answers = length episodes"
    and "Used q p \<in> set (concat episodes)"
  shows "\<exists>cr a. (cr, q) \<in> set reqs \<and> usable_grant E cr = Some a \<and> Opened a p \<in> set (concat episodes)"
  using assms(2,1,3)
proof (induction answers episodes arbitrary: reqs rule: list_induct2)
  case (Cons answer answers events episodes)
  then obtain cr q' rest where reqs: "reqs = (cr, q') # rest" "episode E (cr, q') (answer, events)"
      "list_all2 (episode E) rest (zip answers episodes)"
    by (auto simp: list_all2_Cons2)
  show ?case
  proof (cases "Used q p \<in> set events")
    case True
    with reqs(2) obtain a where "usable_grant E cr = Some a" "q' = q" "Opened a p \<in> set events"
      by (auto simp: episode_def split: option.splits)
    then show ?thesis by (auto simp: reqs(1))
  next
    case False
    with Cons.prems(2) Cons.IH [OF reqs(3)] show ?thesis by (auto simp: reqs(1))
  qed
qed simp

text \<open>
  C29: for any tenants that make any requests of the layer one after another, on buckets, objects, uploads
  and tags, for the storage information, for listings with attributions and for deletions of many objects,
  what happens to projects is a sequence of one episode for each request.  A request without a usable
  grant opens nothing and is answered with an error.  Every other one tries to open a single project, with the
  grant of its own tenant; if that fails it is answered with an error, and else the layer below is called
  once, with this project, and the project is closed before the next request, whatever the layer has
  answered.  So in the end every project has been closed as often as it was opened, and the layer has never
  worked on a project that was not opened with the grant of a tenant who made that request.
\<close>

theorem operation_uses_one_project:
  assumes "mt_session (traced E) reqs s = (answers, t)" and "mt_trace s = []"
  shows "(\<exists>episodes. mt_trace t = concat episodes \<and> length answers = length episodes
        \<and> list_all2 (episode E) reqs (zip answers episodes))
    \<and> (\<forall>p. length (filter (opened_as p) (mt_trace t)) = length (filter (closed_as p) (mt_trace t)))
    \<and> (\<forall>q p. Used q p \<in> set (mt_trace t) \<longrightarrow>
         (\<exists>cr a. (cr, q) \<in> set reqs \<and> usable_grant E cr = Some a \<and> Opened a p \<in> set (mt_trace t)))"
proof -
  obtain episodes where e: "mt_trace t = concat episodes" "length answers = length episodes"
      "list_all2 (episode E) reqs (zip answers episodes)"
    using session_episodes [OF assms(1)] assms(2) by auto
  then show ?thesis using episodes_balanced [OF e(3,2)] used_by_tenant [OF e(3,2)] by (metis e(1))
qed

text \<open>A store of buckets behind projects that are counted; closing the project of \<open>bad\<close> fails.\<close>

definition demo_mt :: "(string, string, unit, string list, nat \<times> string list) mt_env" where
  "demo_mt =
     \<lparr>me_ParseAccess = Inr, me_SetConnectionPool = None, me_SetSatelliteConnectionPool = None,
      me_OpenProject = (\<lambda>_ a (n, bs). (Inr a, (n + 1, bs))),
      me_Close = (\<lambda>p (n, bs). (if p = ''bad'' then Some (Message ''close'') else None, (n - 1, bs))),
      me_layer = (\<lambda>c p (n, bs). case c of
          CMakeBucketWithLocation b _ \<Rightarrow> (([], None), (n, b # bs)) | _ \<Rightarrow> ((bs, None), (n, bs))),
      me_layerMany = (\<lambda>_ _ w. (([], []), w)), me_zero = (\<lambda>_. []), me_listAttributed = (\<lambda>_ w. (([], None), w)),
      me_ConvertError = (\<lambda>e. e), me_poolClose = (\<lambda>w. (None, w)), me_satellitePoolClose = (\<lambda>w. (None, w)),
      me_IsTaggingSupported = True, me_errorResponse = (\<lambda>_. False), me_genericError = (\<lambda>_. False),
      me_IsCanceled = (\<lambda>_. False), me_ctxErr = None, me_Error = (\<lambda>_. []), me_SetTags = (\<lambda>k v ts. (k, v) # ts),
      me_ParseEntries = (\<lambda>_. True), me_gatewayUserAgent = ''gw'',
      me_uploads = \<lparr>uc_PieceHashAlgorithmBlake3 = False, uc_RefactoredCodePath = False\<rparr>, me_insecureLogAll = False\<rparr>"

definition demo_grant :: "string \<Rightarrow> credentials option" where
  "demo_grant g = Some \<lparr>cr_AccessKey = ''key'', cr_Response = \<lparr>au_AccessGrant = g, au_SecretKey = [], au_Public = False\<rparr>,
     cr_Error = None\<rparr>"

text \<open>Three requests: of a tenant, without credentials, and of another tenant, whose project fails to close.\<close>

lemma operation_uses_one_project_witness:
  defines "s \<equiv> \<lparr>ms_world = ((0, [''a'']), []), ms_reqInfo = None, ms_log = None\<rparr>"
    and "reqs \<equiv> [(demo_grant ''g'', LayerRequest (CMakeBucketWithLocation ''b'' ())), (None, LayerRequest CListBuckets),
      (demo_grant ''bad'', LayerRequest CListBuckets)]"
  shows "fst (mt_session (traced demo_mt) reqs s) = [[None], [Some (Sentinel AccessKeyEmpty)], [Some (Message ''close'')]]
    \<and> Used (LayerRequest CListBuckets) ''bad'' \<in> set (mt_trace (snd (mt_session (traced demo_mt) reqs s)))
    \<and> length (filter (closed_as ''bad'') (mt_trace (snd (mt_session (traced demo_mt) reqs s)))) = 1"
proof -
  obtain answers t where session: "mt_session (traced demo_mt) reqs s = (answers, t)" by fastforce
  then have t: "answers = [[None], [Some (Sentinel AccessKeyEmpty)], [Some (Message ''close'')]]"
    "mt_trace t = [Opened ''g'' ''g'', Used (LayerRequest (CMakeBucketWithLocation ''b'' ())) ''g'', Closed ''g'',
       Opened ''bad'' ''bad'', Used (LayerRequest CListBuckets) ''bad'', Closed ''bad'']"
    by (auto simp: reqs_def s_def mt_defs with_project_def openProject_def setupProject_def close_project_def mt_log_def
        traced_def demo_mt_def demo_grant_def getAccessGrant_def Let_def)
  have "length (filter (opened_as ''bad'') (mt_trace t)) = length (filter (closed_as ''bad'') (mt_trace t))"
    using operation_uses_one_project [OF session] by (simp add: s_def)
  then show ?thesis unfolding session fst_conv snd_conv using t by (simp add: opened_as_def)
qed

end
