(* ===== verification/Limiter.thy ===== *)
theory Limiter
  imports Credentials
begin

section \<open>The limit of concurrent requests (pkg/server/middleware/limiter.go)\<close>

text \<open>
  The middleware counts the requests in flight by key, the head of the macaroon of the caller's
  access grant, and answers those over the limit itself.  Counting, checking and discounting are
  three critical sections of their own; between them other requests take their steps.  The discount
  is not deferred, so a panic of the handler, which the server recovers from, leaves the request
  counted; the parameter \<open>panics\<close> of the step relation allows such steps.  The counts are natural
  numbers: that many requests in flight do not wrap a 64-bit counter, and a count is taken back only
  after it was made.
\<close>

definition getRequestMacaroonHead :: "(string \<Rightarrow> err + string) \<Rightarrow> credentials option \<Rightarrow> err + string" where
  "getRequestMacaroonHead head cr =
     (case cr of
        None \<Rightarrow> Inl (Classed V4CredentialError (Message ''missing access grant''))
      | Some c \<Rightarrow>
          if au_AccessGrant (cr_Response c) = []
          then Inl (Classed V4CredentialError (Message ''missing access grant''))
          else head (au_AccessGrant (cr_Response c)))"

definition limit_key :: "err + string \<Rightarrow> string" where
  "limit_key k = (case k of Inl _ \<Rightarrow> [] | Inr key \<Rightarrow> key)"

type_synonym limits = "string \<Rightarrow> nat option"

definition limit_of :: "limits \<Rightarrow> string \<Rightarrow> nat" where
  "limit_of m k = (case m k of None \<Rightarrow> 0 | Some n \<Rightarrow> n)"

definition lim_enter :: "string \<Rightarrow> limits \<Rightarrow> limits" where
  "lim_enter k m = m(k \<mapsto> limit_of m k + 1)"

definition lim_refuses :: "nat \<Rightarrow> string \<Rightarrow> limits \<Rightarrow> bool" where
  "lim_refuses allowed k m = (limit_of m k > allowed)"

definition lim_leave :: "string \<Rightarrow> limits \<Rightarrow> limits" where
  "lim_leave k m = (let n = limit_of m k - 1 in if n = 0 then m(k := None) else m(k \<mapsto> n))"

subsection \<open>Requests in flight\<close>

datatype flight = Idle | Counted string | Serving string | Refused string

record lim_world =
  lw_limits :: limits
  lw_flights :: "nat \<Rightarrow> flight"

inductive lim_step :: "nat \<Rightarrow> bool \<Rightarrow> lim_world \<Rightarrow> lim_world \<Rightarrow> bool" for allowed panics where
  Arrive: "lw_flights w i = Idle \<Longrightarrow>
    lim_step allowed panics w \<lparr>lw_limits = lim_enter k (lw_limits w), lw_flights = (lw_flights w)(i := Counted k)\<rparr>"
| Check: "lw_flights w i = Counted k \<Longrightarrow>
    lim_step allowed panics w (w\<lparr>lw_flights := (lw_flights w)(i :=
      if lim_refuses allowed k (lw_limits w) then Refused k else Serving k)\<rparr>)"
| Return: "lw_flights w i = Serving k \<or> lw_flights w i = Refused k \<Longrightarrow>
    lim_step allowed panics w \<lparr>lw_limits = lim_leave k (lw_limits w), lw_flights = (lw_flights w)(i := Idle)\<rparr>"
| Panic: "panics \<Longrightarrow> lw_flights w i = Serving k \<Longrightarrow>
    lim_step allowed panics w (w\<lparr>lw_flights := (lw_flights w)(i := Idle)\<rparr>)"

definition lim_start :: lim_world where
  "lim_start = \<lparr>lw_limits = (\<lambda>_. None), lw_flights = (\<lambda>_. Idle)\<rparr>"

abbreviation lim_runs :: "nat \<Rightarrow> bool \<Rightarrow> lim_world \<Rightarrow> lim_world \<Rightarrow> bool" where
  "lim_runs allowed panics \<equiv> (lim_step allowed panics)\<^sup>*\<^sup>*"

subsection \<open>The counts\<close>

fun flight_key :: "flight \<Rightarrow> string option" where
  "flight_key Idle = None"
| "flight_key (Counted k) = Some k"
| "flight_key (Serving k) = Some k"
| "flight_key (Refused k) = Some k"

definition in_flight :: "lim_world \<Rightarrow> string \<Rightarrow> nat set" where
  "in_flight w k = {i. flight_key (lw_flights w i) = Some k}"

definition served :: "lim_world \<Rightarrow> string \<Rightarrow> nat set" where
  "served w k = {i. lw_flights w i = Serving k}"

text \<open>
  The count of a key is at least the number of its requests in flight, no entry is zero, and as many
  requests are served as the limit allows at most.
\<close>

definition lim_ok :: "nat \<Rightarrow> lim_world \<Rightarrow> bool" where
  "lim_ok allowed w \<longleftrightarrow> (\<forall>k. finite (in_flight w k) \<and> card (in_flight w k) \<le> limit_of (lw_limits w) k
     \<and> lw_limits w k \<noteq> Some 0 \<and> card (served w k) \<le> allowed)"

definition lim_exact :: "lim_world \<Rightarrow> bool" where
  "lim_exact w \<longleftrightarrow> (\<forall>k. card (in_flight w k) = limit_of (lw_limits w) k)"

lemma served_in_flight: "served w k \<subseteq> in_flight w k"
  by (auto simp: served_def in_flight_def)

lemma in_flight_upd:
  "in_flight (w\<lparr>lw_flights := (lw_flights w)(i := s)\<rparr>) k =
     (if flight_key s = Some k then insert i (in_flight w k) else in_flight w k - {i})"
  "in_flight \<lparr>lw_limits = m, lw_flights = (lw_flights w)(i := s)\<rparr> k =
     (if flight_key s = Some k then insert i (in_flight w k) else in_flight w k - {i})"
  by (auto simp: in_flight_def)

lemma served_upd:
  "served (w\<lparr>lw_flights := (lw_flights w)(i := s)\<rparr>) k = (if s = Serving k then insert i (served w k) else served w k - {i})"
  "served \<lparr>lw_limits = m, lw_flights = (lw_flights w)(i := s)\<rparr> k = (if s = Serving k then insert i (served w k) else served w k - {i})"
  by (auto simp: served_def)

lemma in_flight_iff: "i \<in> in_flight w k \<longleftrightarrow> flight_key (lw_flights w i) = Some k"
  by (simp add: in_flight_def)

lemma served_iff: "i \<in> served w k \<longleftrightarrow> lw_flights w i = Serving k"
  by (simp add: served_def)

lemma limit_of_enter [simp]: "limit_of (lim_enter k m) j = (if j = k then limit_of m k + 1 else limit_of m j)"
  by (simp add: lim_enter_def limit_of_def)

lemma limit_of_leave [simp]: "limit_of (lim_leave k m) j = (if j = k then limit_of m k - 1 else limit_of m j)"
  by (simp add: lim_leave_def limit_of_def Let_def)

lemma enter_nonzero: "m j \<noteq> Some 0 \<Longrightarrow> lim_enter k m j \<noteq> Some 0"
  by (simp add: lim_enter_def)

lemma leave_nonzero: "m j \<noteq> Some 0 \<Longrightarrow> lim_leave k m j \<noteq> Some 0"
  by (simp add: lim_leave_def Let_def)

text \<open>How one step changes the sets of requests of a key: one request joins them, or leaves them.\<close>

lemma card_in_flight_idle:
  assumes "lim_ok allowed w" and "lw_flights w i = Idle" and "flight_key s = Some k"
  shows "card (insert i (in_flight w k)) = card (in_flight w k) + 1" and "j \<noteq> k \<Longrightarrow> in_flight w j - {i} = in_flight w j"
    and "served w j - {i} = served w j"
  using assms by (auto simp: lim_ok_def in_flight_def served_def)

lemma card_in_flight_leave:
  assumes "lim_ok allowed w" and "flight_key (lw_flights w i) = Some k"
  shows "card (in_flight w k - {i}) = card (in_flight w k) - 1" and "0 < card (in_flight w k)"
    and "j \<noteq> k \<Longrightarrow> in_flight w j - {i} = in_flight w j" and "card (served w j - {i}) \<le> card (served w j)"
proof -
  have fin: "finite (in_flight w j)" for j using assms(1) by (simp add: lim_ok_def)
  have i: "i \<in> in_flight w k" using assms(2) by (simp add: in_flight_iff)
  show "card (in_flight w k - {i}) = card (in_flight w k) - 1" using i by simp
  show "0 < card (in_flight w k)" using i fin by (auto simp: card_gt_0_iff)
  show "j \<noteq> k \<Longrightarrow> in_flight w j - {i} = in_flight w j" using assms(2) by (auto simp: in_flight_def)
  show "card (served w j - {i}) \<le> card (served w j)"
    using finite_subset [OF served_in_flight fin] by (auto intro: card_mono)
qed

lemma in_flight_stays:
  assumes "flight_key (lw_flights w i) = Some k" and "flight_key s = Some k"
  shows "in_flight (w\<lparr>lw_flights := (lw_flights w)(i := s)\<rparr>) j = in_flight w j"
  using assms by (auto simp: in_flight_upd in_flight_iff)

lemma step_ok:
  assumes "lim_step allowed panics w v" and ok: "lim_ok allowed w"
  shows "lim_ok allowed v"
  using assms(1)
proof cases
  case (Arrive i k)
  note c = card_in_flight_idle [OF ok Arrive(2), of "Counted k" k, simplified]
  show ?thesis
    using ok c unfolding lim_ok_def Arrive(1) in_flight_upd served_upd by (auto simp: enter_nonzero)
next
  case (Check i k)
  let ?s = "if lim_refuses allowed k (lw_limits w) then Refused k else Serving k"
  have fl: "in_flight v j = in_flight w j" for j
    unfolding Check(1) by (rule in_flight_stays) (simp_all add: Check(2))
  have fin: "finite (in_flight w j)" for j using ok by (simp add: lim_ok_def)
  have "card (served v j) \<le> allowed" for j
  proof (cases "?s = Serving j")
    case True
    then have "j = k" "limit_of (lw_limits w) k \<le> allowed"
      by (auto simp: lim_refuses_def split: if_splits)
    moreover have "card (served v j) \<le> card (in_flight w j)"
      using card_mono [OF _ served_in_flight [of v j]] fin by (simp add: fl)
    moreover have "card (in_flight w k) \<le> limit_of (lw_limits w) k" using ok by (simp add: lim_ok_def)
    ultimately show ?thesis by simp
  next
    case False
    then have "served v j = served w j - {i}" unfolding Check(1) served_upd by simp
    then have "served v j = served w j" using Check(2) by (auto simp: served_iff)
    then show ?thesis using ok by (simp add: lim_ok_def)
  qed
  then show ?thesis using ok unfolding lim_ok_def fl by (simp add: Check(1))
next
  case (Return i k)
  then have "flight_key (lw_flights w i) = Some k" by auto
  note c = card_in_flight_leave [OF ok this]
  have "card (served w j - {i}) \<le> allowed" for j using c(4) [of j] ok by (simp add: lim_ok_def le_trans)
  then show ?thesis
    using ok c(1-3) unfolding lim_ok_def Return(1) in_flight_upd served_upd
    by (auto simp: leave_nonzero intro: diff_le_mono)
next
  case (Panic i k)
  then have "flight_key (lw_flights w i) = Some k" by auto
  note c = card_in_flight_leave [OF ok this]
  have "card (served w j - {i}) \<le> allowed" for j using c(4) [of j] ok by (simp add: lim_ok_def le_trans)
  moreover have "card (in_flight w j - {i}) \<le> limit_of (lw_limits w) j" for j
    using c(1) c(3) [of j] ok by (cases "j = k") (auto simp: lim_ok_def le_diff_conv intro: le_SucI)
  ultimately show ?thesis
    using ok unfolding lim_ok_def Panic(1) in_flight_upd served_upd by simp
qed

text \<open>What of a count is not accounted for by requests in flight never becomes less.\<close>

definition leaked :: "lim_world \<Rightarrow> string \<Rightarrow> nat" where
  "leaked w k = limit_of (lw_limits w) k - card (in_flight w k)"

lemma step_leaked:
  assumes "lim_step allowed panics w v" and ok: "lim_ok allowed w"
  shows "leaked w k \<le> leaked v k" and "\<not> panics \<Longrightarrow> leaked v k = leaked w k"
proof -
  have le: "card (in_flight w j) \<le> limit_of (lw_limits w) j" for j using ok by (simp add: lim_ok_def)
  have "leaked w k \<le> leaked v k \<and> (\<not> panics \<longrightarrow> leaked v k = leaked w k)"
    using assms(1)
  proof cases
    case (Arrive i j)
    note c = card_in_flight_idle [OF ok Arrive(2), of "Counted j" j, simplified]
    show ?thesis using c unfolding leaked_def Arrive(1) in_flight_upd by auto
  next
    case (Check i j)
    have "in_flight v l = in_flight w l" for l
      unfolding Check(1) by (rule in_flight_stays) (simp_all add: Check(2))
    then show ?thesis unfolding leaked_def by (simp add: Check(1))
  next
    case (Return i j)
    then have "flight_key (lw_flights w i) = Some j" by auto
    note c = card_in_flight_leave [OF ok this]
    show ?thesis using c(1-3) le [of j] unfolding leaked_def Return(1) in_flight_upd by auto
  next
    case (Panic i j)
    then have "flight_key (lw_flights w i) = Some j" by auto
    note c = card_in_flight_leave [OF ok this]
    have "card (in_flight w k - {i}) \<le> card (in_flight w k)"
      using c(1) c(3) [of k] by (cases "k = j") auto
    then show ?thesis using Panic(2) unfolding leaked_def Panic(1) in_flight_upd by (simp add: diff_le_mono2)
  qed
  then show "leaked w k \<le> leaked v k" and "\<not> panics \<Longrightarrow> leaked v k = leaked w k" by simp_all
qed

lemma start_ok: "lim_ok allowed lim_start" "leaked lim_start k = 0"
  by (simp_all add: lim_ok_def lim_start_def in_flight_def served_def leaked_def limit_of_def)

lemma runs_ok: "lim_runs allowed panics w v \<Longrightarrow> lim_ok allowed w \<Longrightarrow> lim_ok allowed v \<and> leaked w k \<le> leaked v k"
  by (induction rule: rtranclp_induct) (auto dest: step_ok step_leaked(1) intro: le_trans)

lemma runs_exact: "lim_runs allowed False lim_start w \<Longrightarrow> lim_ok allowed w \<and> leaked w k = 0"
proof (induction rule: rtranclp_induct)
  case (step v w)
  then show ?case using step_ok [OF step(2)] step_leaked(2) [OF step(2), of k] by simp
qed (simp add: start_ok)

subsection \<open>The properties\<close>

text \<open>
  C30: in every interleaving of requests that arrive, are checked and return, panics included, no more
  requests of a key are served at once than allowed; and without panics the count of a key is the
  number of its requests in flight, so that no entry is left when they are gone, and a request is
  refused only while more than the allowed number of its key are in flight, the refused ones among
  them: with a limit of one, two requests that arrive together can both be refused.
\<close>

theorem limiter_bounds:
  "(lim_runs allowed panics lim_start w \<longrightarrow> card (served w k) \<le> allowed)
    \<and> (lim_runs allowed False lim_start w \<longrightarrow>
      limit_of (lw_limits w) k = card (in_flight w k)
      \<and> (lw_limits w k = None \<longleftrightarrow> in_flight w k = {})
      \<and> (lim_refuses allowed k (lw_limits w) \<longleftrightarrow> card (in_flight w k) > allowed))
    \<and> (\<exists>w. lim_runs 1 False lim_start w \<and> lw_flights w 0 = Refused k \<and> lw_flights w 1 = Refused k
      \<and> served w k = {})"
proof (rule conjI [OF impI conjI [OF impI]])
  show "card (served w k) \<le> allowed" if "lim_runs allowed panics lim_start w"
    using runs_ok [OF that start_ok(1)] by (simp add: lim_ok_def)
  show "limit_of (lw_limits w) k = card (in_flight w k) \<and> (lw_limits w k = None \<longleftrightarrow> in_flight w k = {})
      \<and> (lim_refuses allowed k (lw_limits w) \<longleftrightarrow> card (in_flight w k) > allowed)"
    if "lim_runs allowed False lim_start w"
  proof -
    have ok: "finite (in_flight w k)" "card (in_flight w k) \<le> limit_of (lw_limits w) k" "lw_limits w k \<noteq> Some 0"
      "leaked w k = 0"
      using runs_exact [OF that] by (simp_all add: lim_ok_def)
    then have eq: "limit_of (lw_limits w) k = card (in_flight w k)" by (simp add: leaked_def)
    moreover have "lw_limits w k = None \<longleftrightarrow> limit_of (lw_limits w) k = 0"
      using ok(3) by (auto simp: limit_of_def split: option.split)
    ultimately show ?thesis using ok(1) by (simp add: lim_refuses_def)
  qed
  let ?w1 = "\<lparr>lw_limits = lim_enter k (\<lambda>_. None), lw_flights = (\<lambda>_. Idle)(0 := Counted k)\<rparr>"
  let ?m = "lim_enter k (lim_enter k (\<lambda>_. None))"
  let ?w2 = "\<lparr>lw_limits = ?m, lw_flights = (\<lambda>_. Idle)(0 := Counted k, 1 := Counted k)\<rparr>"
  let ?w3 = "\<lparr>lw_limits = ?m, lw_flights = (\<lambda>_. Idle)(0 := Refused k, 1 := Counted k)\<rparr>"
  let ?w4 = "\<lparr>lw_limits = ?m, lw_flights = (\<lambda>_. Idle)(0 := Refused k, 1 := Refused k)\<rparr>"
  have over: "lim_refuses 1 k ?m" by (simp add: lim_refuses_def)
  have "lim_step 1 False lim_start ?w1"
    using lim_step.Arrive [of lim_start 0 1 False k] by (simp add: lim_start_def)
  moreover have "lim_step 1 False ?w1 ?w2"
    using lim_step.Arrive [of ?w1 1 1 False k] by simp
  moreover have "lim_step 1 False ?w2 ?w3"
    using lim_step.Check [of ?w2 0 k 1 False] over by (simp add: fun_upd_twist)
  moreover have "lim_step 1 False ?w3 ?w4"
    using lim_step.Check [of ?w3 1 k 1 False] over by (simp add: fun_upd_twist)
  ultimately have "lim_runs 1 False lim_start ?w4"
    by (meson rtranclp.rtrancl_into_rtrancl rtranclp.rtrancl_refl)
  moreover have "served ?w4 k = {}" by (auto simp: served_def)
  ultimately show "\<exists>w. lim_runs 1 False lim_start w \<and> lw_flights w 0 = Refused k \<and> lw_flights w 1 = Refused k
      \<and> served w k = {}"
    by (intro exI [of _ ?w4]) simp
qed

lemma limiter_bounds_witness:
  "\<exists>w. lim_runs 1 False lim_start w \<and> served w ''k'' = {0} \<and> card (served w ''k'') \<le> 1
     \<and> limit_of (lw_limits w) ''k'' = card (in_flight w ''k'')"
proof -
  let ?w1 = "\<lparr>lw_limits = lim_enter ''k'' (\<lambda>_. None), lw_flights = (\<lambda>_. Idle)(0 := Counted ''k'')\<rparr>"
  let ?w2 = "\<lparr>lw_limits = lim_enter ''k'' (\<lambda>_. None), lw_flights = (\<lambda>_. Idle)(0 := Serving ''k'')\<rparr>"
  have "lim_step 1 False lim_start ?w1"
    using lim_step.Arrive [of lim_start 0 1 False "''k''"] by (simp add: lim_start_def)
  moreover have "lim_step 1 False ?w1 ?w2"
    using lim_step.Check [of ?w1 0 "''k''" 1 False] by (simp add: lim_refuses_def limit_of_def lim_enter_def)
  ultimately have r: "lim_runs 1 False lim_start ?w2"
    by (meson rtranclp.rtrancl_into_rtrancl rtranclp.rtrancl_refl)
  have "served ?w2 ''k'' = {0}" by (auto simp: served_def)
  with r limiter_bounds [of 1 False ?w2 "''k''"] show ?thesis by blast
qed

lemma one_panic:
  assumes "n < allowed" and idle: "\<forall>i. lw_flights w i = Idle" and n: "limit_of (lw_limits w) k = n"
  shows "\<exists>v. lim_runs allowed True w v \<and> (\<forall>i. lw_flights v i = Idle) \<and> limit_of (lw_limits v) k = n + 1"
proof -
  let ?m = "lim_enter k (lw_limits w)"
  let ?v = "\<lambda>s. \<lparr>lw_limits = ?m, lw_flights = (lw_flights w)(0 := s)\<rparr>"
  have "lim_step allowed True w (?v (Counted k))"
    by (rule lim_step.Arrive) (simp add: idle)
  moreover have "lim_step allowed True (?v (Counted k)) (?v (Serving k))"
    using lim_step.Check [of "?v (Counted k)" 0 k allowed True] assms(1) n by (simp add: lim_refuses_def)
  moreover have "lim_step allowed True (?v (Serving k)) (?v Idle)"
    using lim_step.Panic [of True "?v (Serving k)" 0 k allowed] by simp
  ultimately have "lim_runs allowed True w (?v Idle)"
    by (meson rtranclp.rtrancl_into_rtrancl rtranclp.rtrancl_refl)
  moreover have "lw_flights (?v Idle) i = Idle" for i using idle by simp
  ultimately show ?thesis using n by (intro exI [of _ "?v Idle"]) simp
qed

lemma many_panics:
  "n \<le> allowed \<Longrightarrow> \<exists>w. lim_runs allowed True lim_start w \<and> (\<forall>i. lw_flights w i = Idle) \<and> limit_of (lw_limits w) k = n"
proof (induction n)
  case 0
  then show ?case by (intro exI [of _ lim_start]) (simp add: lim_start_def limit_of_def)
next
  case (Suc n)
  then obtain w where w: "lim_runs allowed True lim_start w" "\<forall>i. lw_flights w i = Idle" "limit_of (lw_limits w) k = n" by auto
  have "n < allowed" using Suc.prems by simp
  from one_panic [OF this w(2,3)] obtain v where
    "lim_runs allowed True w v" "\<forall>i. lw_flights v i = Idle" "limit_of (lw_limits v) k = n + 1" by blast
  with w(1) show ?case by (metis Suc_eq_plus1 rtranclp_trans)
qed

text \<open>
  A panic in a handler that the limit applies to is never taken off the count: after as many
  panics as are allowed requests at once, no request of the key is served any more, although none is
  in flight, in whatever way the server goes on.
\<close>

lemma panics_lock_out:
  "\<exists>w. lim_runs allowed True lim_start w \<and> (\<forall>i. lw_flights w i = Idle)
     \<and> (\<forall>panics v. lim_runs allowed panics w v \<longrightarrow> served v k = {})"
proof -
  obtain w where w: "lim_runs allowed True lim_start w" "\<forall>i. lw_flights w i = Idle" "limit_of (lw_limits w) k = allowed"
    using many_panics [of allowed allowed k] by blast
  have ok: "lim_ok allowed w" using runs_ok [OF w(1) start_ok(1)] by blast
  have leak: "leaked w k = allowed" using w(2,3) by (simp add: leaked_def in_flight_def)
  have none: "served w k = {}" using w(2) by (simp add: served_def)
  have "lim_ok allowed v \<and> allowed \<le> leaked v k \<and> served v k = {}" if "lim_runs allowed panics w v" for panics v
    using that
  proof (induction rule: rtranclp_induct)
    case base
    show ?case using ok leak none by simp
  next
    case (step u v)
    then have u: "lim_ok allowed u" "allowed \<le> leaked u k" "served u k = {}" by simp_all
    have "served v k = {}"
      using step(2)
    proof cases
      case (Check i j)
      have "j = k \<Longrightarrow> lim_refuses allowed j (lw_limits u)"
      proof -
        assume j: "j = k"
        have "i \<in> in_flight u k" using Check(2) j by (simp add: in_flight_iff)
        moreover have fin: "finite (in_flight u k)" "card (in_flight u k) \<le> limit_of (lw_limits u) k"
          using u(1) by (simp_all add: lim_ok_def)
        ultimately have "0 < card (in_flight u k)" by (auto simp: card_gt_0_iff)
        then have "allowed < limit_of (lw_limits u) k" using u(2) fin(2) unfolding leaked_def by linarith
        then show "lim_refuses allowed j (lw_limits u)" using j by (simp add: lim_refuses_def)
      qed
      then show ?thesis using u(3) unfolding Check(1) served_upd by auto
    qed (use u(3) in \<open>auto simp: served_upd\<close>)
    with step_ok [OF step(2) u(1)] step_leaked(1) [OF step(2) u(1), of k] u(2) show ?case by simp
  qed
  with w(1,2) show ?thesis by blast
qed

lemma panics_lock_out_witness:
  "\<exists>w. lim_runs 2 True lim_start w \<and> (\<forall>v. lim_runs 2 False w v \<longrightarrow> served v ''k'' = {})"
  using panics_lock_out [of 2 "''k''"] by blast

end
