(* ===== verification/BodyCache.thy ===== *)
theory BodyCache
  imports GoNum Errors
begin

section \<open>The cached body of a request (pkg/server/middleware/body_cache.go)\<close>

text \<open>
  The first bytes of a body are kept, so that a form can be parsed from them and the body be handed
  on from its beginning.  A reader (\<open>io.Reader\<close>) is a function of the number of bytes asked for and
  its state; \<open>rest\<close> is what it has still to deliver.  \<open>io.ReadAll\<close> of \<open>io.LimitReader\<close> asks for at
  most 512 bytes at a time, and its loop ends only if the reader does.
\<close>

type_synonym 's reader = "nat \<Rightarrow> 's \<Rightarrow> (bytes \<times> err option) \<times> 's"

text \<open>What is documented of a reader: it delivers the next bytes, and ends where nothing is left.\<close>

definition is_reader :: "'s reader \<Rightarrow> ('s \<Rightarrow> bytes) \<Rightarrow> bool" where
  "is_reader rd rest \<longleftrightarrow> (\<forall>n s b e s'. rd n s = ((b, e), s') \<longrightarrow>
     length b \<le> n \<and> rest s = b @ rest s' \<and> (e = Some (Sentinel IoEOF) \<longrightarrow> rest s' = []))"

lemma is_readerD:
  assumes "is_reader rd rest" and "rd n s = ((b, e), s')"
  shows "length b \<le> n" and "rest s = b @ rest s'" and "e = Some (Sentinel IoEOF) \<Longrightarrow> rest s' = []"
  using assms unfolding is_reader_def by blast+

partial_function (option) read_all :: "'s reader \<Rightarrow> nat \<Rightarrow> bytes \<Rightarrow> 's \<Rightarrow> ((bytes \<times> err option) \<times> 's) option" where
  "read_all rd n acc s =
     (if n = 0 then Some ((acc, None), s)
      else case rd (min n 512) s of
             ((b, e), s') \<Rightarrow>
               (case e of
                  None \<Rightarrow> read_all rd (n - length b) (acc @ b) s'
                | Some x \<Rightarrow> Some ((acc @ b, if x = Sentinel IoEOF then None else Some x), s')))"

record 's body_cache =
  bc_stream :: 's
  bc_bytes :: bytes
  bc_hasReadStream :: bool
  bc_i :: int

definition NewBodyCache :: "'s reader \<Rightarrow> 's \<Rightarrow> int \<Rightarrow> (err + 's body_cache) option" where
  "NewBodyCache rd stream bufferSize =
     (case read_all rd (nat bufferSize) [] stream of
        None \<Rightarrow> None
      | Some ((b, e), s) \<Rightarrow>
          (case e of
             Some x \<Rightarrow> if \<not> is_err IoEOF x then Some (Inl x)
                        else Some (Inr \<lparr>bc_stream = s, bc_bytes = b, bc_hasReadStream = False, bc_i = 0\<rparr>)
           | None \<Rightarrow> Some (Inr \<lparr>bc_stream = s, bc_bytes = b, bc_hasReadStream = False, bc_i = 0\<rparr>)))"

definition bc_Read :: "'s reader \<Rightarrow> 's body_cache reader" where
  "bc_Read rd n c =
     (let cached = (if bc_i c < int (length (bc_bytes c)) then take n (drop (nat (bc_i c)) (bc_bytes c)) else []);
          c1 = c\<lparr>bc_i := bc_i c + int (length cached)\<rparr>
      in if length cached < n
         then (case rd (n - length cached) (bc_stream c) of
                 ((b, e), s') \<Rightarrow>
                   ((cached @ b, e),
                    if b \<noteq> [] then c1\<lparr>bc_stream := s', bc_i := bc_i c1 + int (length b), bc_hasReadStream := True\<rparr>
                    else c1\<lparr>bc_stream := s'\<rparr>))
         else ((cached, None), c1))"

text \<open>\<open>whence\<close>: 0 is \<open>SeekStart\<close>, 1 \<open>SeekCurrent\<close>, 2 \<open>SeekEnd\<close>.\<close>

definition bc_Seek :: "int \<Rightarrow> int \<Rightarrow> 's body_cache \<Rightarrow> err + int \<times> 's body_cache" where
  "bc_Seek offset whence c =
     (if bc_hasReadStream c then Inl (Message ''cannot reset after reading stream'')
      else if whence \<noteq> 0 \<and> whence \<noteq> 1
      then Inl (Message (if whence = 2 then ''credReader.Seek: cannot SeekEnd'' else ''credReader.Seek: invalid whence''))
      else let abs = (if whence = 0 then offset else wrap64 (bc_i c + offset))
           in if abs < 0 then Inl (Message ''credReader.Seek: negative position'')
              else Inr (abs, c\<lparr>bc_i := abs\<rparr>))"

definition bc_Close :: "('s \<Rightarrow> err option \<times> 's) \<Rightarrow> 's body_cache \<Rightarrow> err option \<times> 's body_cache" where
  "bc_Close close c = (let (e, s) = close (bc_stream c) in (e, c\<lparr>bc_bytes := [], bc_stream := s\<rparr>))"

subsection \<open>What is still to be delivered\<close>

definition delivers :: "('s \<Rightarrow> bytes) \<Rightarrow> nat \<Rightarrow> bytes \<Rightarrow> 's \<Rightarrow> (bytes \<times> err option) \<times> 's \<Rightarrow> bool" where
  "delivers rest n acc s r \<longleftrightarrow> (\<exists>d. fst (fst r) = acc @ d \<and> rest s = d @ rest (snd r) \<and> length d \<le> n
     \<and> (snd (fst r) = None \<longrightarrow> d = take n (rest s)) \<and> snd (fst r) \<noteq> Some (Sentinel IoEOF))"

lemma delivers_step:
  assumes "is_reader rd rest" and "rd (min n 512) s = ((b, None), s')" and "delivers rest (n - length b) (acc @ b) s' r"
  shows "delivers rest n acc s r"
proof -
  have "length b \<le> min n 512" by (rule is_readerD(1) [OF assms(1,2)])
  then have b: "length b \<le> n" by simp
  have b2: "rest s = b @ rest s'" by (rule is_readerD(2) [OF assms(1,2)])
  from assms(3) [unfolded delivers_def] obtain d where d: "fst (fst r) = (acc @ b) @ d" "rest s' = d @ rest (snd r)" "length d \<le> n - length b"
    "snd (fst r) = None \<longrightarrow> d = take (n - length b) (rest s')" "snd (fst r) \<noteq> Some (Sentinel IoEOF)"
    by (elim exE conjE)
  show ?thesis unfolding delivers_def
  proof (rule exI [of _ "b @ d"], intro conjI impI)
    show "fst (fst r) = acc @ b @ d" using d(1) by simp
    show "rest s = (b @ d) @ rest (snd r)" unfolding b2 d(2) by simp
    show "length (b @ d) \<le> n" using b d(3) by simp
    show "b @ d = take n (rest s)" if "snd (fst r) = None"
    proof -
      have "take n (rest s) = b @ take (n - length b) (rest s')" unfolding b2 using b by simp
      then show ?thesis using mp [OF d(4) that] by simp
    qed
    show "snd (fst r) \<noteq> Some (Sentinel IoEOF)" by (rule d(5))
  qed
qed

lemma delivers_last:
  assumes "is_reader rd rest" and "rd (min n 512) s = ((b, Some x), s')"
  shows "delivers rest n acc s ((acc @ b, if x = Sentinel IoEOF then None else Some x), s')"
  using is_readerD [OF assms] unfolding delivers_def by auto

lemma read_all_delivers:
  assumes "is_reader rd rest" and "read_all rd n acc s = Some r"
  shows "delivers rest n acc s r"
proof -
  have "is_reader rd' rest \<longrightarrow> delivers rest n acc s r" if "read_all rd' n acc s = Some r" for rd' n acc s r
    using that
  proof (rule read_all.raw_induct [where P = "\<lambda>rd' n acc s r. is_reader rd' rest \<longrightarrow> delivers rest n acc s r", rotated])
    fix loop rd' n acc s r
    assume IH: "\<And>rd' n acc s r. loop rd' n acc s = Some r \<Longrightarrow> is_reader rd' rest \<longrightarrow> delivers rest n acc s r"
      and step: "(if n = 0 then Some ((acc, None), s)
        else case rd' (min n 512) s of
             ((b, e), s') \<Rightarrow>
               (case e of
                  None \<Rightarrow> loop rd' (n - length b) (acc @ b) s'
                | Some x \<Rightarrow> Some ((acc @ b, if x = Sentinel IoEOF then None else Some x), s'))) = Some r"
    show "is_reader rd' rest \<longrightarrow> delivers rest n acc s r"
    proof
      assume rd: "is_reader rd' rest"
      obtain b e s' where r': "rd' (min n 512) s = ((b, e), s')" by (metis prod.exhaust)
      show "delivers rest n acc s r"
      proof (cases "n = 0")
        case True
        then show ?thesis using step by (auto simp: delivers_def)
      next
        case False
        show ?thesis
        proof (cases e)
          case None
          then have "loop rd' (n - length b) (acc @ b) s' = Some r" using step False r' by simp
          then have "delivers rest (n - length b) (acc @ b) s' r" using IH rd by blast
          with rd r' None show ?thesis by (auto intro: delivers_step)
        next
          case (Some x)
          then have "r = ((acc @ b, if x = Sentinel IoEOF then None else Some x), s')" using step False r' by simp
          with delivers_last [OF rd r' [unfolded Some]] show ?thesis by simp
        qed
      qed
    qed
  qed
  then show ?thesis using assms by blast
qed

definition bc_rest :: "('s \<Rightarrow> bytes) \<Rightarrow> 's body_cache \<Rightarrow> bytes" where
  "bc_rest rest c = drop (nat (bc_i c)) (bc_bytes c) @ rest (bc_stream c)"

text \<open>A cache with a position that is not negative is a reader again, whatever it has been through.\<close>

lemma bc_Read_rest:
  assumes rd: "is_reader rd rest" and "bc_Read rd n c = ((b, e), c')" and i: "0 \<le> bc_i c"
  shows "length b \<le> n" and "bc_rest rest c = b @ bc_rest rest c'" and "e = Some (Sentinel IoEOF) \<Longrightarrow> bc_rest rest c' = []"
    and "0 \<le> bc_i c'" and "bc_bytes c' = bc_bytes c"
    and "\<not> bc_hasReadStream c' \<Longrightarrow> \<not> bc_hasReadStream c \<and> rest (bc_stream c') = rest (bc_stream c)"
proof -
  define cached where "cached = (if bc_i c < int (length (bc_bytes c)) then take n (drop (nat (bc_i c)) (bc_bytes c)) else [])"
  have cached: "cached = take n (drop (nat (bc_i c)) (bc_bytes c))"
    using i by (auto simp: cached_def)
  have len: "length cached \<le> n" by (simp add: cached)
  have i': "nat (bc_i c + int (length cached)) = nat (bc_i c) + length cached" using i by simp
  have rest: "drop (nat (bc_i c)) (bc_bytes c) = cached @ drop (nat (bc_i c) + length cached) (bc_bytes c)"
    using append_take_drop_id [of n "drop (nat (bc_i c)) (bc_bytes c)"] by (cases "length (bc_bytes c) < nat (bc_i c) + n")
      (auto simp: cached add.commute)
  have short: "length cached < n \<Longrightarrow> drop (nat (bc_i c) + length cached + m) (bc_bytes c) = []" for m
    by (auto simp: cached)
  obtain d f s' where r: "rd (n - length cached) (bc_stream c) = ((d, f), s')" by (metis prod.exhaust)
  note d = is_readerD [OF rd r]
  have res: "((b, e), c') = (if length cached < n
      then ((cached @ d, f), if d \<noteq> [] then c\<lparr>bc_i := bc_i c + int (length cached) + int (length d), bc_stream := s', bc_hasReadStream := True\<rparr>
          else c\<lparr>bc_i := bc_i c + int (length cached), bc_stream := s'\<rparr>)
      else ((cached, None), c\<lparr>bc_i := bc_i c + int (length cached)\<rparr>))"
    using assms(2) [symmetric] unfolding bc_Read_def cached_def [symmetric] Let_def r by simp
  have nd: "nat (bc_i c + int (length cached) + int (length d)) = nat (bc_i c) + length cached + length d" using i by simp
  have "length b \<le> n \<and> bc_rest rest c = b @ bc_rest rest c' \<and> (e = Some (Sentinel IoEOF) \<longrightarrow> bc_rest rest c' = [])
      \<and> 0 \<le> bc_i c' \<and> bc_bytes c' = bc_bytes c
      \<and> (\<not> bc_hasReadStream c' \<longrightarrow> \<not> bc_hasReadStream c \<and> rest (bc_stream c') = rest (bc_stream c))"
  proof (cases "length cached < n")
    case True
    then show ?thesis
      using res d len i rest short [OF True, of 0] short [OF True, of "length d"]
      by (auto simp: bc_rest_def i' nd split: if_splits)
  next
    case False
    then show ?thesis using res len i rest by (auto simp: bc_rest_def i')
  qed
  then show "length b \<le> n" and "bc_rest rest c = b @ bc_rest rest c'" and "e = Some (Sentinel IoEOF) \<Longrightarrow> bc_rest rest c' = []"
    and "0 \<le> bc_i c'" and "bc_bytes c' = bc_bytes c"
    and "\<not> bc_hasReadStream c' \<Longrightarrow> \<not> bc_hasReadStream c \<and> rest (bc_stream c') = rest (bc_stream c)" by simp_all
qed

fun bc_reads :: "'s reader \<Rightarrow> nat list \<Rightarrow> 's body_cache \<Rightarrow> bytes \<times> 's body_cache" where
  "bc_reads rd [] c = ([], c)"
| "bc_reads rd (n # ns) c =
     (case bc_Read rd n c of ((b, _), c1) \<Rightarrow> (case bc_reads rd ns c1 of (bs, c2) \<Rightarrow> (b @ bs, c2)))"

lemma bc_reads_rest:
  assumes "is_reader rd rest" and "bc_reads rd ns c = (out, c')" and "0 \<le> bc_i c"
  shows "bc_rest rest c = out @ bc_rest rest c' \<and> 0 \<le> bc_i c' \<and> bc_bytes c' = bc_bytes c
    \<and> (\<not> bc_hasReadStream c' \<longrightarrow> \<not> bc_hasReadStream c \<and> rest (bc_stream c') = rest (bc_stream c))"
  using assms(2,3)
proof (induction ns arbitrary: c out)
  case (Cons n ns)
  obtain b e c1 where b: "bc_Read rd n c = ((b, e), c1)" by (metis prod.exhaust)
  obtain bs where bs: "bc_reads rd ns c1 = (bs, c')" "out = b @ bs" using Cons.prems(1) b by (auto split: prod.splits)
  note r = bc_Read_rest [OF assms(1) b Cons.prems(2)]
  show ?case using Cons.IH [OF bs(1) r(4)] r bs(2) by simp
qed simp

lemma NewBodyCache_rest:
  assumes "is_reader rd rest" and "NewBodyCache rd s n = Some (Inr c)"
  shows "bc_bytes c @ rest (bc_stream c) = rest s" and "bc_i c = 0" and "\<not> bc_hasReadStream c"
    and "length (bc_bytes c) \<le> nat n"
proof -
  obtain b e s' where r: "read_all rd (nat n) [] s = Some ((b, e), s')"
    and c: "c = \<lparr>bc_stream = s', bc_bytes = b, bc_hasReadStream = False, bc_i = 0\<rparr>"
    using assms(2) by (auto simp: NewBodyCache_def split: option.splits if_splits)
  from read_all_delivers [OF assms(1) r] have "rest s = b @ rest s'" "length b \<le> nat n"
    by (auto simp: delivers_def)
  then show "bc_bytes c @ rest (bc_stream c) = rest s" "bc_i c = 0" "\<not> bc_hasReadStream c" "length (bc_bytes c) \<le> nat n"
    by (simp_all add: c)
qed

text \<open>
  Reading a cached body in any way delivers the bytes of the original body in order and loses
  none; as long as nothing beyond the cached bytes has been delivered, the body can be rewound and is
  then delivered from its first byte again, and after that rewinding is refused; but a position beyond
  the cached bytes is accepted too, and what is delivered then goes on where the cache ends, not at
  that position.
\<close>

lemma body_cache_rewinds:
  assumes "is_reader rd rest" and "NewBodyCache rd s n = Some (Inr c)" and "bc_reads rd ns c = (out, c')"
  shows "rest s = out @ bc_rest rest c'
    \<and> (\<not> bc_hasReadStream c' \<longrightarrow> (\<exists>d. bc_Seek 0 0 c' = Inr (0, d)
      \<and> (\<forall>ms out' d'. bc_reads rd ms d = (out', d') \<longrightarrow> rest s = out' @ bc_rest rest d')))
    \<and> (bc_hasReadStream c' \<longrightarrow> bc_Seek k whence c' = Inl (Message ''cannot reset after reading stream''))
    \<and> (\<not> bc_hasReadStream c' \<longrightarrow> int (length (bc_bytes c)) < k \<longrightarrow> (\<exists>d. bc_Seek k 0 c' = Inr (k, d)
      \<and> bc_rest rest d = drop (length (bc_bytes c)) (rest s)))"
proof (rule conjI [OF _ conjI [OF impI conjI [OF impI impI [OF impI]]]])
  note new = NewBodyCache_rest [OF assms(1,2)]
  have all: "bc_rest rest c = rest s" using new by (simp add: bc_rest_def)
  have read: "bc_rest rest c = out @ bc_rest rest c'" "bc_bytes c' = bc_bytes c"
    "\<not> bc_hasReadStream c' \<Longrightarrow> rest (bc_stream c') = rest (bc_stream c)"
    using bc_reads_rest [OF assms(1,3)] new(2) by simp_all
  show "rest s = out @ bc_rest rest c'" using read(1) all by simp
  show "\<exists>d. bc_Seek 0 0 c' = Inr (0, d)
      \<and> (\<forall>ms out' d'. bc_reads rd ms d = (out', d') \<longrightarrow> rest s = out' @ bc_rest rest d')" if "\<not> bc_hasReadStream c'"
  proof -
    let ?d = "c'\<lparr>bc_i := 0\<rparr>"
    have "bc_Seek 0 0 c' = Inr (0, ?d)" using that by (simp add: bc_Seek_def)
    moreover have "bc_rest rest ?d = rest s" using new(1) read(2) read(3) [OF that] by (simp add: bc_rest_def)
    ultimately show ?thesis using bc_reads_rest [OF assms(1), where c = ?d] by (intro exI [of _ ?d]) auto
  qed
  show "bc_Seek k whence c' = Inl (Message ''cannot reset after reading stream'')" if "bc_hasReadStream c'"
    using that by (simp add: bc_Seek_def)
  show "\<exists>d. bc_Seek k 0 c' = Inr (k, d) \<and> bc_rest rest d = drop (length (bc_bytes c)) (rest s)"
    if "\<not> bc_hasReadStream c'" "int (length (bc_bytes c)) < k"
  proof -
    have "drop (length (bc_bytes c)) (rest s) = rest (bc_stream c)" by (simp flip: new(1))
    then show ?thesis using that read(2) read(3) [OF that(1)]
      by (intro exI [of _ "c'\<lparr>bc_i := k\<rparr>"]) (auto simp: bc_Seek_def bc_rest_def)
  qed
qed

definition list_reader :: "bytes reader" where
  "list_reader n s = ((take n s, if s = [] then Some (Sentinel IoEOF) else None), drop n s)"

lemma body_cache_rewinds_witness:
  "\<exists>c d. NewBodyCache list_reader ''abcdef'' 4 = Some (Inr c) \<and> fst (bc_reads list_reader [3] c) = ''abc''
     \<and> bc_Seek 0 0 (snd (bc_reads list_reader [3] c)) = Inr (0, d)
     \<and> fst (bc_reads list_reader [2, 5] d) = ''abcdef''"
proof -
  have rd: "is_reader list_reader (\<lambda>s. s)" by (auto simp: is_reader_def list_reader_def)
  let ?c = "\<lparr>bc_stream = ''ef'', bc_bytes = ''abcd'', bc_hasReadStream = False, bc_i = 0\<rparr>"
  have new: "NewBodyCache list_reader ''abcdef'' 4 = Some (Inr ?c)"
    by (simp add: NewBodyCache_def read_all.simps [of list_reader] list_reader_def)
  have "bc_reads list_reader [3] ?c = (''abc'', ?c\<lparr>bc_i := 3\<rparr>)"
    by (simp add: bc_Read_def Let_def)
  from conjunct1 [OF conjunct2 [OF body_cache_rewinds [OF rd new this]]] obtain d where d: "bc_Seek 0 0 (?c\<lparr>bc_i := 3\<rparr>) = Inr (0, d)"
    and r: "\<And>ms out' d'. bc_reads list_reader ms d = (out', d') \<Longrightarrow> ''abcdef'' = out' @ bc_rest (\<lambda>s. s) d'" by auto
  have "d = ?c" using d by (simp add: bc_Seek_def)
  then have "bc_reads list_reader [2, 5] d = (''abcdef'', ?c\<lparr>bc_stream := [], bc_i := 6, bc_hasReadStream := True\<rparr>)"
    by (simp add: bc_Read_def Let_def list_reader_def)
  with new d show ?thesis by (simp add: bc_Read_def Let_def)
qed

end
