(* ===== verification/Logging.thy ===== *)
theory Logging
  imports MultiTenant
begin

section \<open>What is logged of a request (pkg/server/middleware/log.go, event.go, pkg/httplog)\<close>

text \<open>
  The logging middlewares of the gateway.  Requests carry credentials and object keys in headers, in
  the query and in the path, which the logs are to leave out unless \<open>insecureLogAll\<close> is set.  A log
  entry is its level, its message and its fields; the values of a header or of a query parameter are
  grouped by name, in the order of the first of each (the order of a Go map is not defined).  What a
  handler wrote, the time it took, and whether a level is enabled are arguments, as is the value that
  the handler panics with.  A panic, of the handler or of the logging itself, is logged with its value
  and passed on.
\<close>

subsection \<open>Levels and fields\<close>

datatype log_level = DebugLevel | InfoLevel | ErrorLevel

definition StatusLevel :: "int \<Rightarrow> log_level" where
  "StatusLevel status =
     (if status \<ge> 500 then ErrorLevel else if status \<ge> 400 then InfoLevel else DebugLevel)"

record http_log =
  hl_Protocol :: string
  hl_RequestMethod :: string
  hl_RequestSize :: int
  hl_ResponseSize :: int
  hl_Status :: int
  hl_UserAgent :: string
  hl_RemoteIP :: string
  hl_Latency :: int
  hl_RequestURL :: string

text \<open>The value of a panic: one that is thrown, given by its text, or an error of the runtime.\<close>

datatype recovered = ThrownValue string | RuntimeError string

datatype log_field =
    HttpField http_log
  | OperationField string string
  | StrField string string
  | ObjField string "(string \<times> string) list"
  | AnyField string recovered

record log_line =
  en_level :: log_level
  en_message :: string
  en_fields :: "log_field list"

record log_env =
  lv_enabled :: "log_level \<Rightarrow> bool"
  lv_head :: "string \<Rightarrow> err + bytes"
  lv_auth :: auth_lib
  lv_products :: "string \<Rightarrow> err + string list"

record http_served =
  sv_wroteHeader :: bool
  sv_status :: int
  sv_written :: int
  sv_header :: header
  sv_log :: req_info
  sv_elapsed :: int

subsection \<open>Queries and headers\<close>

function group_by :: "(string \<Rightarrow> string \<Rightarrow> bool) \<Rightarrow> (string \<times> string) list \<Rightarrow> (string \<times> string list) list" where
  "group_by same [] = []"
| "group_by same ((n, v) # xs) =
     (n, v # map snd (filter (\<lambda>(m, _). same n m) xs)) # group_by same (filter (\<lambda>(m, _). \<not> same n m) xs)"
  by pat_completeness auto
termination by (relation "measure (\<lambda>(_, xs). length xs)") (auto simp: le_imp_less_Suc)

definition secret_param :: "string \<Rightarrow> bool" where
  "secret_param k \<longleftrightarrow> k \<in> {''prefix'', ''AWSAccessKeyId'', ''Signature'', ''X-Amz-Signature'', ''X-Amz-Credential''}"

definition requestQueryLogObject :: "bool \<Rightarrow> query \<Rightarrow> (string \<times> string) list" where
  "requestQueryLogObject logAll q =
     map (\<lambda>(k, v). (k, if \<not> logAll \<and> secret_param k then ''[...]'' else join '','' v)) (group_by (=) q)"

definition secret_header :: "string \<Rightarrow> bool" where
  "secret_header k \<longleftrightarrow>
     equal_fold k ''Authorization'' \<or> equal_fold k ''Cookie'' \<or> equal_fold k ''X-Amz-Copy-Source''"

definition headersLogObject :: "bool \<Rightarrow> header \<Rightarrow> (string \<times> string) list" where
  "headersLogObject logAll h =
     map (\<lambda>(k, v). (k, if \<not> logAll \<and> secret_header k then ''[...]'' else join '','' v)) (group_by equal_fold h)"

subsection \<open>Credentials and addresses\<close>

definition log_getMacaroonHead :: "log_env \<Rightarrow> credentials option \<Rightarrow> string" where
  "log_getMacaroonHead V cr =
     (case cr of
        None \<Rightarrow> []
      | Some c \<Rightarrow>
          if au_AccessGrant (cr_Response c) = [] then []
          else case lv_head V (au_AccessGrant (cr_Response c)) of Inl _ \<Rightarrow> [] | Inr head \<Rightarrow> hex_encode head)"

text \<open>A key that decodes to no bytes panics (see \<open>FromBase32\<close>).\<close>

definition getEncryptionKeyHash :: "log_env \<Rightarrow> credentials option \<Rightarrow> string option" where
  "getEncryptionKeyHash V cr =
     (case cr of
        None \<Rightarrow> Some []
      | Some c \<Rightarrow>
          if cr_AccessKey c = [] then Some []
          else case key_FromBase32 (cr_AccessKey c) of
                 None \<Rightarrow> None
               | Some (Inl _) \<Rightarrow> Some []
               | Some (Inr key) \<Rightarrow> Some (hex_encode (key_Hash (lv_auth V) key)))"

definition getRemoteIP :: "http_req \<Rightarrow> string option" where
  "getRemoteIP r = GetClientIP NewListTrustAll (hr_RemoteAddr r) (hr_Header r)"

text \<open>
  What reading the address panics with: the value of the Forwarded header is empty once quotes and port
  are gone, or it is a single bracket.
\<close>

definition index_error :: recovered where
  "index_error = RuntimeError ''runtime error: index out of range [0] with length 0''"

definition slice_error :: recovered where
  "slice_error = RuntimeError ''runtime error: slice bounds out of range [1:0]''"

definition remote_ip_panic :: "http_req \<Rightarrow> recovered" where
  "remote_ip_panic r =
     (case forwarded_match (header_get (hr_Header r) ''Forwarded'') of
        None \<Rightarrow> index_error
      | Some m \<Rightarrow> if stripPort (trim_both (\<lambda>c. c = CHR 0x22) m) = Some [] then index_error else slice_error)"

definition http_log_of :: "string \<Rightarrow> http_req \<Rightarrow> int \<times> int \<times> int \<Rightarrow> bool \<Rightarrow> http_log option" where
  "http_log_of proto r result insecure =
     map_option (\<lambda>ip. \<lparr>hl_Protocol = proto, hl_RequestMethod = hr_Method r, hl_RequestSize = hr_ContentLength r,
       hl_ResponseSize = fst result, hl_Status = fst (snd result), hl_UserAgent = header_get (hr_Header r) ''User-Agent'',
       hl_RemoteIP = ip, hl_Latency = snd (snd result), hl_RequestURL = (if insecure then hr_RequestURI r else [])\<rparr>)
       (getRemoteIP r)"

subsection \<open>The entries\<close>

definition emit :: "log_env \<Rightarrow> log_level \<Rightarrow> string \<Rightarrow> log_field list \<Rightarrow> log_line list" where
  "emit V level message fs =
     (if lv_enabled V level then [\<lparr>en_level = level, en_message = message, en_fields = fs\<rparr>] else [])"

definition log_LogRequests :: "log_env \<Rightarrow> bool \<Rightarrow> string \<Rightarrow> http_req \<Rightarrow> log_line list option" where
  "log_LogRequests V insecureLogPaths proto r =
     map_option (\<lambda>l. emit V DebugLevel ''access'' [HttpField l, StrField ''host'' (hr_Host r)])
       (http_log_of proto r (0, 0, 0) insecureLogPaths)"

definition logGatewayResponse :: "log_env \<Rightarrow> bool \<Rightarrow> string \<Rightarrow> http_req \<Rightarrow> credentials option \<Rightarrow> http_served
    \<Rightarrow> recovered + log_line list" where
  "logGatewayResponse V insecureLogAll proto r cr s =
     (case http_log_of proto r (sv_written s, sv_status s, sv_elapsed s) insecureLogAll of
        None \<Rightarrow> Inl (remote_ip_panic r)
      | Some l \<Rightarrow>
          (case getEncryptionKeyHash V cr of
             None \<Rightarrow> Inl index_error
           | Some keyHash \<Rightarrow>
               Inr (emit V (StatusLevel (sv_status s)) ''response''
                 [HttpField l,
                  OperationField (ri_API (sv_log s)) ''storj.io/gateway-mt'',
                  StrField ''host'' (hr_Host r),
                  StrField ''error'' (TagValue (sv_log s) ''error''),
                  StrField ''request-id'' (ri_RequestID (sv_log s)),
                  StrField ''encryption-key-hash'' keyHash,
                  StrField ''macaroon-head'' (log_getMacaroonHead V cr),
                  ObjField ''query'' (requestQueryLogObject insecureLogAll (hr_Query r)),
                  ObjField ''request-headers'' (headersLogObject insecureLogAll (hr_Header r)),
                  ObjField ''response-headers'' (headersLogObject True (sv_header s))])))"

definition logResponse :: "log_env \<Rightarrow> bool \<Rightarrow> string \<Rightarrow> http_req \<Rightarrow> http_served \<Rightarrow> recovered + log_line list" where
  "logResponse V insecureLogAll proto r s =
     (case http_log_of proto r (sv_written s, sv_status s, sv_elapsed s) insecureLogAll of
        None \<Rightarrow> Inl (remote_ip_panic r)
      | Some l \<Rightarrow> Inr (emit V (StatusLevel (sv_status s)) ''response'' [HttpField l, StrField ''host'' (hr_Host r)]))"

text \<open>The deferred function: a panic is logged with its value, and goes on.\<close>

definition log_panic :: "log_env \<Rightarrow> recovered + log_line list \<Rightarrow> log_line list \<times> recovered option" where
  "log_panic V outcome =
     (case outcome of
        Inl rec \<Rightarrow> (emit V ErrorLevel ''panic'' [AnyField ''recover'' rec], Some rec)
      | Inr es \<Rightarrow> (es, None))"

text \<open>The entries, and what the request panics with.  \<open>served\<close> is what the handler panicked with or has done.\<close>

definition log_LogResponses :: "log_env \<Rightarrow> bool \<Rightarrow> string \<Rightarrow> http_req \<Rightarrow> credentials option \<Rightarrow> recovered + http_served
    \<Rightarrow> log_line list \<times> recovered option" where
  "log_LogResponses V insecureLogAll proto r cr served =
     log_panic V
       (case served of
          Inl rec \<Rightarrow> Inl rec
        | Inr s0 \<Rightarrow>
            let s = (if sv_wroteHeader s0 then s0 else s0\<lparr>sv_wroteHeader := True, sv_status := 200\<rparr>)
            in if ri_RequestID (sv_log s) \<noteq> [] then logGatewayResponse V insecureLogAll proto r cr s
               else logResponse V insecureLogAll proto r s)"

text \<open>The event of a request: the first product of the user agent, cut to 32 bytes, and the identities.\<close>

record gmt_event =
  ge_protocol :: string
  ge_method :: string
  ge_product :: string
  ge_status :: int
  ge_requestSize :: int
  ge_responseSize :: int
  ge_duration :: int
  ge_keyHash :: string
  ge_macHead :: string
  ge_remoteIP :: string

definition event_product :: "log_env \<Rightarrow> http_req \<Rightarrow> string" where
  "event_product V r =
     (case lv_products V (header_get (hr_Header r) ''User-Agent'') of
        Inr (p # _) \<Rightarrow> if p \<noteq> [] then take 32 p else ''unknown''
      | _ \<Rightarrow> ''unknown'')"

definition CollectEvent :: "log_env \<Rightarrow> string \<Rightarrow> http_req \<Rightarrow> credentials option \<Rightarrow> http_served \<Rightarrow> gmt_event option" where
  "CollectEvent V proto r cr s0 =
     (let s = (if sv_wroteHeader s0 then s0 else s0\<lparr>sv_wroteHeader := True, sv_status := 200\<rparr>)
      in case getEncryptionKeyHash V cr of
           None \<Rightarrow> None
         | Some keyHash \<Rightarrow>
             map_option (\<lambda>ip. \<lparr>ge_protocol = proto, ge_method = hr_Method r, ge_product = event_product V r,
                 ge_status = sv_status s, ge_requestSize = hr_ContentLength r, ge_responseSize = sv_written s,
                 ge_duration = sv_elapsed s, ge_keyHash = keyHash, ge_macHead = log_getMacaroonHead V cr, ge_remoteIP = ip\<rparr>)
               (getRemoteIP r))"

subsection \<open>Redaction\<close>

text \<open>
  A request without its secrets: what is left for the logs.  What is confidential in it is stated on its
  own, as the names of the headers and of the parameters.
\<close>

definition confidential_header :: "string \<Rightarrow> bool" where
  "confidential_header k \<longleftrightarrow> to_lower k \<in> to_lower ` {''Authorization'', ''Cookie'', ''X-Amz-Copy-Source''}"

definition confidential_param :: "string \<Rightarrow> bool" where
  "confidential_param k \<longleftrightarrow>
     k \<in> {''prefix''} \<union> {''AWSAccessKeyId'', ''Signature''} \<union> {''X-Amz-Credential'', ''X-Amz-Signature''}"

lemma confidential: "confidential_header = secret_header" "confidential_param = secret_param"
  by (auto simp: fun_eq_iff confidential_header_def secret_header_def equal_fold_def confidential_param_def secret_param_def)

definition blank :: "(string \<Rightarrow> bool) \<Rightarrow> (string \<times> string) list \<Rightarrow> (string \<times> string) list" where
  "blank P xs = map (\<lambda>(k, v). (k, if P k then [] else v)) xs"

definition redacted :: "http_req \<Rightarrow> http_req" where
  "redacted r = r\<lparr>hr_Path := [], hr_EscapedPath := [], hr_RawQuery := [], hr_RequestURI := [],
     hr_Query := blank confidential_param (hr_Query r), hr_Header := blank confidential_header (hr_Header r)\<rparr>"

definition shown_as :: "(string \<Rightarrow> bool) \<Rightarrow> string \<times> string list \<Rightarrow> string \<times> string" where
  "shown_as P = (\<lambda>(k, v). (k, if P k then ''[...]'' else join '','' v))"

lemma blank_filter: "filter (\<lambda>(m, _). Q m) (blank P xs) = blank P (filter (\<lambda>(m, _). Q m) xs)"
  by (induction xs) (auto simp: blank_def)

lemma blank_values:
  assumes "\<And>m. Q m \<Longrightarrow> \<not> P m"
  shows "map snd (filter (\<lambda>(m, _). Q m) (blank P xs)) = map snd (filter (\<lambda>(m, _). Q m) xs)"
  using assms by (induction xs) (auto simp: blank_def)

lemma blank_Cons: "blank P ((k, v) # xs) = (k, if P k then [] else v) # blank P xs"
  by (simp add: blank_def)

lemma shown_blank:
  assumes "\<And>n m. same n m \<Longrightarrow> P n = P m"
  shows "map (shown_as P) (group_by same (blank P xs)) = map (shown_as P) (group_by same xs)"
proof (induction "length xs" arbitrary: xs rule: less_induct)
  case less
  show ?case
  proof (cases xs)
    case (Cons x ys)
    obtain n v where x: "x = (n, v)" by (cases x)
    have "map (shown_as P) (group_by same (blank P (filter (\<lambda>(m, _). \<not> same n m) ys)))
        = map (shown_as P) (group_by same (filter (\<lambda>(m, _). \<not> same n m) ys))"
      by (rule less) (simp add: Cons le_imp_less_Suc)
    moreover have "\<not> P n \<Longrightarrow> map snd (filter (\<lambda>(m, _). same n m) (blank P ys)) = map snd (filter (\<lambda>(m, _). same n m) ys)"
      using assms by (intro blank_values) blast
    ultimately show ?thesis
      by (simp add: Cons x blank_Cons blank_filter shown_as_def)
  qed (simp add: blank_def)
qed

lemma query_log_blank: "requestQueryLogObject False (blank secret_param q) = requestQueryLogObject False q"
  using shown_blank [of "(=)" secret_param q] by (simp add: requestQueryLogObject_def shown_as_def)

lemma headers_log_blank: "headersLogObject False (blank secret_header h) = headersLogObject False h"
  using shown_blank [of equal_fold secret_header h]
  by (simp add: headersLogObject_def shown_as_def secret_header_def equal_fold_def)

lemma header_get_blank: "\<not> secret_header n \<Longrightarrow> header_get (blank secret_header h) n = header_get h n"
  by (induction h n rule: header_get.induct) (auto simp: blank_def secret_header_def equal_fold_def)

lemma plain_headers:
  "\<not> secret_header ''User-Agent''" "\<not> secret_header ''Forwarded''" "\<not> secret_header ''X-Forwarded-For''"
  "\<not> secret_header ''X-Real-Ip''"
  unfolding secret_header_def by code_simp+

lemma redacted_simps [simp]:
  "hr_Method (redacted r) = hr_Method r" "hr_Host (redacted r) = hr_Host r"
  "hr_ContentLength (redacted r) = hr_ContentLength r" "hr_RemoteAddr (redacted r) = hr_RemoteAddr r"
  "hr_Query (redacted r) = blank secret_param (hr_Query r)" "hr_Header (redacted r) = blank secret_header (hr_Header r)"
  by (simp_all add: redacted_def confidential)

lemma remote_ip_redacted: "getRemoteIP (redacted r) = getRemoteIP r"
  unfolding getRemoteIP_def GetClientIP_def GetIPFromHeaders_def redacted_simps
    header_get_blank [OF plain_headers(2)] header_get_blank [OF plain_headers(3)] header_get_blank [OF plain_headers(4)] ..

lemma remote_ip_panic_redacted: "remote_ip_panic (redacted r) = remote_ip_panic r"
  unfolding remote_ip_panic_def redacted_simps header_get_blank [OF plain_headers(2)] ..

text \<open>Which of the two errors reading an address panics with follows from the header.\<close>

lemma forwarded_ip_panics:
  "forwarded_ip m = None \<longleftrightarrow> stripPort (trim_both (\<lambda>c. c = CHR 0x22) m) \<in> {Some [], Some ''[''}"
proof -
  obtain ip where ip: "stripPort (trim_both (\<lambda>c. c = CHR 0x22) m) = Some ip"
    using stripPort_total by blast
  show ?thesis by (cases ip) (auto simp: forwarded_ip_def ip go_slice_def Suc_le_eq)
qed

lemma remote_ip_panics:
  assumes "getRemoteIP r = None"
  obtains m where "forwarded_match (header_get (hr_Header r) ''Forwarded'') = Some m" and "forwarded_ip m = None"
    and "stripPort (trim_both (\<lambda>c. c = CHR 0x22) m) = (if remote_ip_panic r = index_error then Some [] else Some ''['')"
proof -
  obtain a where a: "stripPort (hr_RemoteAddr r) = Some a" using stripPort_total by blast
  obtain m where m: "forwarded_match (header_get (hr_Header r) ''Forwarded'') = Some m" "forwarded_ip m = None"
    using assms
    by (auto simp: getRemoteIP_def GetClientIP_def a GetIPFromHeaders_def Let_def IsTrusted_def NewListTrustAll_def
        split: option.splits if_splits)
  with forwarded_ip_panics [of m] that show thesis
    by (auto simp: remote_ip_panic_def index_error_def slice_error_def)
qed

lemma http_log_redacted: "http_log_of proto (redacted r) res False = http_log_of proto r res False"
  by (simp add: http_log_of_def remote_ip_redacted header_get_blank plain_headers)

text \<open>Of the credentials the logs depend on the grant and the key, not on the secret.\<close>

definition same_identity :: "credentials option \<Rightarrow> credentials option \<Rightarrow> bool" where
  "same_identity cr cr' \<longleftrightarrow>
     map_option (\<lambda>c. (cr_AccessKey c, au_AccessGrant (cr_Response c))) cr
       = map_option (\<lambda>c. (cr_AccessKey c, au_AccessGrant (cr_Response c))) cr'"

lemma identity_logs:
  assumes "same_identity cr cr'"
  shows "getEncryptionKeyHash V cr = getEncryptionKeyHash V cr'" "log_getMacaroonHead V cr = log_getMacaroonHead V cr'"
  using assms by (cases cr; cases cr'; simp add: same_identity_def getEncryptionKeyHash_def log_getMacaroonHead_def)+

lemma single_group:
  "same k k \<Longrightarrow> (\<And>n. same n k \<Longrightarrow> n = k) \<Longrightarrow> (\<And>n. same k n \<Longrightarrow> n = k) \<Longrightarrow> map snd (filter (\<lambda>(n, _). n = k) q) = [v]
    \<Longrightarrow> (k, [v]) \<in> set (group_by same q)"
proof (induction same q rule: group_by.induct)
  case (2 same n w xs)
  show ?case
  proof (cases "n = k")
    case True
    with 2(4,5) have "filter (\<lambda>(m, _). same n m) xs = filter (\<lambda>(m, _). m = k) xs"
      using 2(2) by (intro filter_cong refl) auto
    with True 2(5) show ?thesis by simp
  next
    case False
    with 2(3) have "filter (\<lambda>(m, _). m = k) (filter (\<lambda>(m, _). \<not> same n m) xs) = filter (\<lambda>(m, _). m = k) xs"
      by (auto simp: filter_filter intro!: filter_cong)
    with False 2 show ?thesis by simp
  qed
qed simp

text \<open>
  C32: without \<open>insecureLogAll\<close> no log entry and no event of a request depends on its path, on the
  values of its Authorization, Cookie and copy source headers, on the signature, the credential, the
  access key and the prefix in its query, or on the secret key of its user: for everything that a handler
  may have done or panicked with, they are the same for the redacted request, and so is what the request
  panics with.  But there are two limits to this.  The values of all other parameters are logged as they
  are, the ones that hold object keys among them, like the marker of a listing; and what a handler panics
  with is logged as it is.
\<close>

theorem logs_hide_credentials:
  assumes "same_identity cr cr'"
  shows "log_LogRequests V False proto (redacted r) = log_LogRequests V False proto r
    \<and> (\<forall>served. log_LogResponses V False proto (redacted r) cr' served = log_LogResponses V False proto r cr served)
    \<and> (\<forall>s. CollectEvent V proto (redacted r) cr' s = CollectEvent V proto r cr s)
    \<and> (q_values q ''marker'' = [object] \<longrightarrow> (''marker'', object) \<in> set (requestQueryLogObject False q))
    \<and> (lv_enabled V ErrorLevel \<longrightarrow> (\<exists>line. log_LogResponses V False proto r cr (Inl rec) = ([line], Some rec)
          \<and> AnyField ''recover'' rec \<in> set (en_fields line)))"
proof (intro conjI allI impI)
  note same = http_log_redacted query_log_blank headers_log_blank identity_logs [OF assms] remote_ip_panic_redacted
  show "log_LogRequests V False proto (redacted r) = log_LogRequests V False proto r"
    by (simp add: log_LogRequests_def http_log_redacted)
  show "log_LogResponses V False proto (redacted r) cr' served = log_LogResponses V False proto r cr served" for served
    unfolding log_LogResponses_def logGatewayResponse_def logResponse_def redacted_simps same ..
  show "CollectEvent V proto (redacted r) cr' s = CollectEvent V proto r cr s" for s
    unfolding CollectEvent_def event_product_def redacted_simps same remote_ip_redacted header_get_blank [OF plain_headers(1)] ..
  show "(''marker'', object) \<in> set (requestQueryLogObject False q)" if "q_values q ''marker'' = [object]"
  proof -
    have "(''marker'', [object]) \<in> set (group_by (=) q)"
      using that by (intro single_group) (simp_all add: q_values_def)
    then show ?thesis
      unfolding requestQueryLogObject_def set_map by (rule rev_image_eqI) (simp add: secret_param_def)
  qed
  show "\<exists>line. log_LogResponses V False proto r cr (Inl rec) = ([line], Some rec) \<and> AnyField ''recover'' rec \<in> set (en_fields line)"
    if "lv_enabled V ErrorLevel"
    using that by (simp add: log_LogResponses_def log_panic_def emit_def)
qed

definition demo_log :: log_env where
  "demo_log = \<lparr>lv_enabled = (\<lambda>_. True), lv_head = Inr, lv_auth = demo_lib, lv_products = (\<lambda>_. Inr [])\<rparr>"

definition demo_secret :: "string \<Rightarrow> http_req" where
  "demo_secret sig = \<lparr>hr_Method = ''GET'', hr_Path = ''/b/k'', hr_EscapedPath = ''/b/k'',
     hr_Query = [(''marker'', ''key''), (''X-Amz-Signature'', sig)], hr_Header = [(''Cookie'', sig), (''Forwarded'', ''for=['')],
     hr_Host = ''host'', hr_RemoteAddr = ''10.0.0.1:80'', hr_ContentLength = 0, hr_TransferEncoding = [], hr_RawQuery = sig,
     hr_Scheme = [], hr_RequestURI = sig\<rparr>"

definition demo_done :: http_served where
  "demo_done = \<lparr>sv_wroteHeader = False, sv_status = 0, sv_written = 0, sv_header = [],
     sv_log = \<lparr>ri_RemoteHost = [], ri_Host = [], ri_UserAgent = [], ri_DeploymentID = [], ri_RequestID = ''id'', ri_API = [],
       ri_BucketName = [], ri_ObjectName = [], ri_AccessKey = [], ri_tags = []\<rparr>, sv_elapsed = 0\<rparr>"

text \<open>A request whose Forwarded header makes the logging of its response panic, and whose panic is logged.\<close>

lemma logs_hide_credentials_witness:
  "log_LogResponses demo_log False ''HTTP/1.1'' (demo_secret ''5ca1ab1e'') None (Inr demo_done)
     = log_LogResponses demo_log False ''HTTP/1.1'' (demo_secret []) None (Inr demo_done)
   \<and> snd (log_LogResponses demo_log False ''HTTP/1.1'' (demo_secret []) None (Inr demo_done)) = Some slice_error
   \<and> (''marker'', ''key'') \<in> set (requestQueryLogObject False (hr_Query (demo_secret ''5ca1ab1e'')))"
proof -
  have id: "same_identity None None" by (simp add: same_identity_def)
  note hide = logs_hide_credentials [OF id, of demo_log "''HTTP/1.1''"]
  have "redacted (demo_secret sig) = redacted (demo_secret [])" for sig
    by (simp add: redacted_def demo_secret_def blank_def confidential secret_param_def secret_header_def equal_fold_def)
  then have "log_LogResponses demo_log False ''HTTP/1.1'' (demo_secret sig) None (Inr demo_done)
      = log_LogResponses demo_log False ''HTTP/1.1'' (demo_secret []) None (Inr demo_done)" for sig
    using hide by metis
  moreover have "getRemoteIP (demo_secret []) = None \<and> remote_ip_panic (demo_secret []) = slice_error"
    unfolding getRemoteIP_def remote_ip_panic_def demo_secret_def by code_simp
  then have "snd (log_LogResponses demo_log False ''HTTP/1.1'' (demo_secret []) None (Inr demo_done)) = Some slice_error"
    by (simp add: log_LogResponses_def log_panic_def logGatewayResponse_def http_log_of_def demo_done_def)
  moreover have "q_values (hr_Query (demo_secret ''5ca1ab1e'')) ''marker'' = [''key'']"
    by (simp add: demo_secret_def q_values_def)
  ultimately show ?thesis using hide by blast
qed

end
