(* ===== verification/Metrics.thy ===== *)
theory Metrics
  imports MultiTenant
begin

section \<open>The metrics of responses (pkg/server/middleware/metrics.go)\<close>

text \<open>
  The middleware puts a writer around the client's, the delegator, which observes the first status,
  the first byte and the sizes of what is written.  The client's writer is the parameter
  \<open>writer_env\<close>: its effects on a world, what a write returns, and whether it can be flushed; a flush
  of a writer that cannot panics.  \<open>Flush\<close> has a value receiver: it works on a copy of the delegator,
  whose fields are gone afterwards, while what it called has happened.  An observation is made with
  the API the log of the request names at that moment.
\<close>

subsection \<open>The delegator\<close>

record 'w writer_env =
  we_WriteHeader :: "int \<Rightarrow> 'w \<Rightarrow> 'w"
  we_Write :: "bytes \<Rightarrow> 'w \<Rightarrow> (int \<times> err option) \<times> 'w"
  we_Flush :: "('w \<Rightarrow> 'w) option"

record 'w delegator =
  fd_inner :: 'w
  fd_status :: int
  fd_wroteHeader :: bool
  fd_observedTimeToFirstByte :: bool
  fd_api :: string
  fd_toHeader :: "(string \<times> int) list"
  fd_toFirstByte :: "(string \<times> int) list"
  fd_written :: "(string \<times> int \<times> int) list"

definition new_delegator :: "string \<Rightarrow> 'w \<Rightarrow> 'w delegator" where
  "new_delegator api w = \<lparr>fd_inner = w, fd_status = 0, fd_wroteHeader = False, fd_observedTimeToFirstByte = False,
     fd_api = api, fd_toHeader = [], fd_toFirstByte = [], fd_written = []\<rparr>"

definition fd_WriteHeader :: "'w writer_env \<Rightarrow> int \<Rightarrow> 'w delegator \<Rightarrow> 'w delegator" where
  "fd_WriteHeader E c d =
     (let d1 = (if \<not> fd_wroteHeader d then d\<lparr>fd_toHeader := fd_toHeader d @ [(fd_api d, c)]\<rparr> else d)
      in d1\<lparr>fd_status := c, fd_wroteHeader := True, fd_inner := we_WriteHeader E c (fd_inner d1)\<rparr>)"

definition fd_Write :: "'w writer_env \<Rightarrow> bytes \<Rightarrow> 'w delegator \<Rightarrow> (int \<times> err option) \<times> 'w delegator" where
  "fd_Write E b d =
     (let d1 = (if \<not> fd_wroteHeader d then fd_WriteHeader E 200 d else d);
          ((n, e), w) = we_Write E b (fd_inner d1);
          d2 = d1\<lparr>fd_inner := w\<rparr>;
          d3 = (if \<not> fd_observedTimeToFirstByte d2
                then d2\<lparr>fd_toFirstByte := fd_toFirstByte d2 @ [(fd_api d2, fd_status d2)], fd_observedTimeToFirstByte := True\<rparr>
                else d2)
      in ((n, e), d3\<lparr>fd_written := fd_written d3 @ [(fd_api d3, fd_status d3, n)]\<rparr>))"

text \<open>What the copy did stays: the observations and the effects on the client's writer.\<close>

definition fd_Flush :: "'w writer_env \<Rightarrow> 'w delegator \<Rightarrow> 'w delegator option" where
  "fd_Flush E d =
     (let copy = (if \<not> fd_wroteHeader d then fd_WriteHeader E 200 d else d)
      in case we_Flush E of
           None \<Rightarrow> None
         | Some flush \<Rightarrow> Some (d\<lparr>fd_toHeader := fd_toHeader copy, fd_inner := flush (fd_inner copy)\<rparr>))"

subsection \<open>The middleware\<close>

definition makeMetricName :: "string \<Rightarrow> string \<Rightarrow> string" where
  "makeMetricName prefix name = prefix @ ''_'' @ name"

definition sanitizeMethod :: "string \<Rightarrow> string" where
  "sanitizeMethod m =
     (if m = ''GET'' \<or> m = ''get'' then ''get''
      else if m = ''PUT'' \<or> m = ''put'' then ''put''
      else if m = ''HEAD'' \<or> m = ''head'' then ''head''
      else if m = ''POST'' \<or> m = ''post'' then ''post''
      else if m = ''DELETE'' \<or> m = ''delete'' then ''delete''
      else if m = ''CONNECT'' \<or> m = ''connect'' then ''connect''
      else if m = ''OPTIONS'' \<or> m = ''options'' then ''options''
      else if m = ''NOTIFY'' \<or> m = ''notify'' then ''notify''
      else if m = ''TRACE'' \<or> m = ''trace'' then ''trace''
      else if m = ''PATCH'' \<or> m = ''patch'' then ''patch''
      else ''unknown'')"

text \<open>What a handler does with its writer and with the log of the request.\<close>

datatype w_op = OpHeader int | OpWrite bytes | OpFlush | OpApi string

fun w_step :: "'w writer_env \<Rightarrow> w_op \<Rightarrow> 'w delegator \<Rightarrow> 'w delegator option" where
  "w_step E (OpHeader c) d = Some (fd_WriteHeader E c d)"
| "w_step E (OpWrite b) d = Some (snd (fd_Write E b d))"
| "w_step E OpFlush d = fd_Flush E d"
| "w_step E (OpApi a) d = Some (d\<lparr>fd_api := a\<rparr>)"

fun w_run :: "'w writer_env \<Rightarrow> w_op list \<Rightarrow> 'w delegator \<Rightarrow> 'w delegator option" where
  "w_run E [] d = Some d"
| "w_run E (x # xs) d = (case w_step E x d of None \<Rightarrow> None | Some d' \<Rightarrow> w_run E xs d')"

record observation =
  ob_name :: string
  ob_api :: string
  ob_method :: string
  ob_status :: int
  ob_value :: "int option"

text \<open>
  The observations of a request whose handler does \<open>ops\<close>, and the event of an unmapped error, which
  the tag \<open>error\<close> of its log holds then.  The values of durations are left out.
\<close>

definition Metrics :: "'w writer_env \<Rightarrow> string \<Rightarrow> string \<Rightarrow> string \<Rightarrow> w_op list \<Rightarrow> string \<Rightarrow> 'w
    \<Rightarrow> (observation list \<times> (string \<times> string) list \<times> 'w) option" where
  "Metrics E prefix m api ops tag w =
     (case w_run E ops (new_delegator api w) of
        None \<Rightarrow> None
      | Some d \<Rightarrow>
          let obs = (\<lambda>name (a, c) v. \<lparr>ob_name = makeMetricName prefix name, ob_api = a, ob_method = sanitizeMethod m,
                ob_status = c, ob_value = v\<rparr>)
          in Some (map (\<lambda>x. obs ''time_to_header'' x None) (fd_toHeader d)
               @ map (\<lambda>x. obs ''time_to_first_byte'' x None) (fd_toFirstByte d)
               @ map (\<lambda>(a, c, n). obs ''bytes_written'' (a, c) (Some n)) (fd_written d)
               @ [obs ''response_time'' (fd_api d, fd_status d) None],
               if tag \<noteq> [] then [(makeMetricName prefix ''unmapped_error'', tag)] else [],
               fd_inner d))"

subsection \<open>What is observed\<close>

text \<open>The status a writer takes from an operation, and the first one of a run.\<close>

fun op_status :: "w_op \<Rightarrow> int option" where
  "op_status (OpHeader c) = Some c"
| "op_status (OpWrite b) = Some 200"
| "op_status OpFlush = None"
| "op_status (OpApi a) = None"

fun before_header :: "w_op list \<Rightarrow> w_op list" where
  "before_header [] = []"
| "before_header (x # xs) = (if op_status x = None then x # before_header xs else [])"

fun first_status :: "w_op list \<Rightarrow> int option" where
  "first_status [] = None"
| "first_status (x # xs) = (case op_status x of None \<Rightarrow> first_status xs | Some c \<Rightarrow> Some c)"

text \<open>The status of the first write: that of the last header before it, or 200.\<close>

fun status_at_write :: "int option \<Rightarrow> w_op list \<Rightarrow> int option" where
  "status_at_write c [] = None"
| "status_at_write c (OpWrite b # xs) = Some (case c of None \<Rightarrow> 200 | Some s \<Rightarrow> s)"
| "status_at_write c (OpHeader s # xs) = status_at_write (Some s) xs"
| "status_at_write c (OpFlush # xs) = status_at_write c xs"
| "status_at_write c (OpApi a # xs) = status_at_write c xs"

fun flushes :: "w_op list \<Rightarrow> nat" where
  "flushes [] = 0"
| "flushes (x # xs) = (if x = OpFlush then 1 else 0) + flushes xs"

fun last_status :: "int option \<Rightarrow> w_op list \<Rightarrow> int option" where
  "last_status c [] = c"
| "last_status c (OpHeader s # xs) = last_status (Some s) xs"
| "last_status c (OpWrite b # xs) = last_status (Some (case c of None \<Rightarrow> 200 | Some s \<Rightarrow> s)) xs"
| "last_status c (OpFlush # xs) = last_status c xs"
| "last_status c (OpApi a # xs) = last_status c xs"

definition status_seen :: "'w delegator \<Rightarrow> int option" where
  "status_seen d = (if fd_wroteHeader d then Some (fd_status d) else None)"

lemmas fd_defs = fd_WriteHeader_def fd_Write_def fd_Flush_def Let_def

lemma headers_done:
  "w_run E ops d = Some d' \<Longrightarrow> fd_wroteHeader d \<Longrightarrow> fd_toHeader d' = fd_toHeader d \<and> fd_wroteHeader d'"
proof (induction ops arbitrary: d)
  case (Cons x xs)
  then show ?case by (cases x) (auto simp: fd_defs split: option.splits prod.splits)
qed simp

lemma bytes_done:
  "w_run E ops d = Some d' \<Longrightarrow> fd_observedTimeToFirstByte d \<Longrightarrow> fd_toFirstByte d' = fd_toFirstByte d"
proof (induction ops arbitrary: d)
  case (Cons x xs)
  then show ?case by (cases x) (auto simp: fd_defs split: option.splits prod.splits)
qed simp

lemma run_headers:
  "w_run E ops d = Some d' \<Longrightarrow> \<not> fd_wroteHeader d \<Longrightarrow>
    map snd (fd_toHeader d') = map snd (fd_toHeader d) @ replicate (flushes (before_header ops)) 200
      @ (case first_status ops of None \<Rightarrow> [] | Some c \<Rightarrow> [c])"
proof (induction ops arbitrary: d)
  case (Cons x xs)
  then obtain d1 where d1: "w_step E x d = Some d1" "w_run E xs d1 = Some d'" by (auto split: option.splits)
  show ?case
  proof (cases "op_status x")
    case None
    then have "\<not> fd_wroteHeader d1" using d1(1) Cons.prems(2) by (cases x) (auto simp: fd_defs split: option.splits)
    moreover have "map snd (fd_toHeader d1) = map snd (fd_toHeader d) @ (if x = OpFlush then [200] else [])"
      using d1(1) Cons.prems(2) None by (cases x) (auto simp: fd_defs split: option.splits)
    ultimately show ?thesis using Cons.IH [OF d1(2)] None by simp
  next
    case (Some c)
    then have "fd_wroteHeader d1 \<and> map snd (fd_toHeader d1) = map snd (fd_toHeader d) @ [c]"
      using d1(1) Cons.prems(2) by (cases x) (auto simp: fd_defs split: prod.splits)
    then show ?thesis using headers_done [OF d1(2)] Some by simp
  qed
qed simp

lemma run_bytes:
  "w_run E ops d = Some d' \<Longrightarrow> \<not> fd_observedTimeToFirstByte d \<Longrightarrow>
    map snd (fd_toFirstByte d') = map snd (fd_toFirstByte d)
      @ (case status_at_write (status_seen d) ops of None \<Rightarrow> [] | Some c \<Rightarrow> [c])"
proof (induction ops arbitrary: d)
  case (Cons x xs)
  then obtain d1 where d1: "w_step E x d = Some d1" "w_run E xs d1 = Some d'" by (auto split: option.splits)
  show ?case
  proof (cases x)
    case (OpWrite b)
    then have "fd_observedTimeToFirstByte d1 \<and> map snd (fd_toFirstByte d1) = map snd (fd_toFirstByte d)
        @ [case status_seen d of None \<Rightarrow> 200 | Some s \<Rightarrow> s]"
      using d1(1) Cons.prems(2) by (auto simp: fd_defs status_seen_def split: prod.splits)
    then show ?thesis using bytes_done [OF d1(2)] OpWrite by simp
  next
    case (OpHeader c)
    then show ?thesis using Cons.IH [OF d1(2)] d1(1) Cons.prems(2) by (auto simp: fd_defs status_seen_def)
  next
    case OpFlush
    then show ?thesis using Cons.IH [OF d1(2)] d1(1) Cons.prems(2)
      by (auto simp: fd_defs status_seen_def split: option.splits)
  next
    case (OpApi a)
    then show ?thesis using Cons.IH [OF d1(2)] d1(1) Cons.prems(2) by (auto simp: status_seen_def)
  qed
qed simp

lemma run_status:
  "w_run E ops d = Some d' \<Longrightarrow> status_seen d' = last_status (status_seen d) ops
     \<and> (\<not> fd_wroteHeader d' \<longrightarrow> fd_status d' = fd_status d)"
proof (induction ops arbitrary: d)
  case (Cons x xs)
  then obtain d1 where d1: "w_step E x d = Some d1" "w_run E xs d1 = Some d'" by (auto split: option.splits)
  have "last_status (status_seen d) (x # xs) = last_status (status_seen d1) xs
      \<and> (\<not> fd_wroteHeader d1 \<longrightarrow> fd_status d1 = fd_status d) \<and> (fd_wroteHeader d \<longrightarrow> fd_wroteHeader d1)"
    using d1(1) by (cases x) (auto simp: fd_defs status_seen_def split: option.splits prod.splits if_splits)
  then show ?case using Cons.IH [OF d1(2)] headers_done [OF d1(2)] by metis
qed simp

text \<open>
  As long as the handler does not flush, the first status it writes is observed exactly once, and
  in every case the first byte exactly once, with the status it is sent with.  But a flush before the
  first header or write observes a header of its own each time, the header that follows is observed
  again and passed on again, and the response of a handler that only flushes is counted under status
  0, although it was sent with 200.
\<close>

lemma metrics_observe_response:
  assumes "Metrics E prefix m api ops tag w = Some (obs, events, w')"
  shows "map ob_status (filter (\<lambda>x. ob_name x = prefix @ ''_time_to_header'') obs)
        = replicate (flushes (before_header ops)) 200 @ (case first_status ops of None \<Rightarrow> [] | Some c \<Rightarrow> [c])
    \<and> map ob_status (filter (\<lambda>x. ob_name x = prefix @ ''_time_to_first_byte'') obs)
        = (case status_at_write None ops of None \<Rightarrow> [] | Some c \<Rightarrow> [c])
    \<and> map ob_status (filter (\<lambda>x. ob_name x = prefix @ ''_response_time'') obs)
        = [case last_status None ops of None \<Rightarrow> 0 | Some c \<Rightarrow> c]"
proof -
  obtain d where d: "w_run E ops (new_delegator api w) = Some d"
    and obs: "map (\<lambda>x. (ob_name x, ob_status x)) obs
      = map (\<lambda>(a, c). (prefix @ ''_time_to_header'', c)) (fd_toHeader d)
        @ map (\<lambda>(a, c). (prefix @ ''_time_to_first_byte'', c)) (fd_toFirstByte d)
        @ map (\<lambda>(a, c, n). (prefix @ ''_bytes_written'', c)) (fd_written d) @ [(prefix @ ''_response_time'', fd_status d)]"
    using assms by (auto simp: Metrics_def makeMetricName_def Let_def o_def case_prod_unfold split: option.splits)
  have pick: "map ob_status (filter (\<lambda>x. ob_name x = k) obs)
      = map snd (filter (\<lambda>(n, _). n = k) (map (\<lambda>x. (ob_name x, ob_status x)) obs))" for k
    by (simp add: filter_map o_def)
  have "status_seen (new_delegator api w) = None" by (simp add: status_seen_def new_delegator_def)
  then have "last_status None ops = status_seen d" using run_status [OF d] by simp
  moreover have "(case status_seen d of None \<Rightarrow> 0 | Some c \<Rightarrow> c) = fd_status d"
    using conjunct2 [OF run_status [OF d]] by (simp add: status_seen_def new_delegator_def)
  ultimately have "(case last_status None ops of None \<Rightarrow> 0 | Some c \<Rightarrow> c) = fd_status d" by simp
  then show ?thesis
    unfolding pick obs using run_headers [OF d] run_bytes [OF d]
    by (simp add: new_delegator_def status_seen_def filter_map o_def case_prod_unfold)
qed

definition demo_writer :: "string list writer_env" where
  "demo_writer = \<lparr>we_WriteHeader = (\<lambda>c w. w @ [''header '' @ itoa c]), we_Write = (\<lambda>b w. ((int (length b), None), w @ [b])),
     we_Flush = Some (\<lambda>w. w @ [''flush''])\<rparr>"

lemma metrics_observe_response_witness:
  "\<exists>obs events. Metrics demo_writer ''gmt'' ''GET'' ''GetObject'' [OpFlush, OpWrite ''x''] [] []
       = Some (obs, events, [''header 200'', ''flush'', ''header 200'', ''x''])
     \<and> map ob_status (filter (\<lambda>x. ob_name x = ''gmt_time_to_header'') obs) = [200, 200]
     \<and> map ob_status (filter (\<lambda>x. ob_name x = ''gmt_response_time'') obs) = [200]"
proof -
  have "\<exists>obs events. Metrics demo_writer ''gmt'' ''GET'' ''GetObject'' [OpFlush, OpWrite ''x''] [] []
       = Some (obs, events, [''header '' @ itoa 200, ''flush'', ''header '' @ itoa 200, ''x''])"
    by (simp add: Metrics_def fd_defs new_delegator_def demo_writer_def)
  moreover have "''header '' @ itoa 200 = ''header 200''" by code_simp
  ultimately obtain obs events where m: "Metrics demo_writer ''gmt'' ''GET'' ''GetObject'' [OpFlush, OpWrite ''x''] [] []
       = Some (obs, events, [''header 200'', ''flush'', ''header 200'', ''x''])" by auto
  then show ?thesis using metrics_observe_response [OF m] by simp
qed

end
