(* ===== verification/NodeList.thy ===== *)
theory NodeList
  imports AuthDB
begin

section \<open>Lists of satellites (pkg/nodelist, pkg/startupcheck, pkg/auth/peer.go)\<close>

text \<open>
  A configuration value names satellites by the URL of a page, the path of a file, or the URL of a
  node.  Resolving the values gives the set of the nodes; the authentication service resolves them
  at its start and again in intervals, and the gateway connects to each of them before it serves.
  Pages, files and dials are arguments; parsing of node URLs is the parameter of theory AuthDB.
\<close>

subsection \<open>Pages, files and lines\<close>

text \<open>
  The answer for a page: no request or no response, or a status with the outcome of reading the body
  and the error of closing it.
\<close>

datatype http_page = NoPage err | Page int "err + bytes" "err option"

record list_env =
  le_page :: "string \<Rightarrow> http_page"
  le_stat :: "string \<Rightarrow> err option"
  le_readFile :: "string \<Rightarrow> err + bytes"

definition getHTTPList :: "list_env \<Rightarrow> string \<Rightarrow> err + bytes" where
  "getHTTPList F url =
     (case le_page F url of
        NoPage e \<Rightarrow> Inl (wrap NodeListError e)
      | Page status body close \<Rightarrow>
          let res = (if status \<noteq> 200 then Inl (Classed NodeListError (Message ''HTTP failed with HTTP status''))
                     else wrap_res NodeListError body);
              err = combine [case res of Inl e \<Rightarrow> Some e | Inr _ \<Rightarrow> None, wrap_opt NodeListError close]
          in case (err, res) of
               (None, Inr bs) \<Rightarrow> Inr bs
             | (Some e, _) \<Rightarrow> Inl e
             | (None, Inl e) \<Rightarrow> Inl e)"

text \<open>The set grows line by line; nodes before a line that does not parse stay in it.\<close>

fun read_lines :: "auth_lib \<Rightarrow> bytes list \<Rightarrow> node_url set \<Rightarrow> node_url set \<times> err option" where
  "read_lines L [] sats = (sats, None)"
| "read_lines L (l # ls) sats =
     (let line = trim_space l
      in if line = [] \<or> hd line = CHR ''#'' then read_lines L ls sats
         else case ParseNodeURL L line of
                Inl e \<Rightarrow> (sats, Some e)
              | Inr nodeURL \<Rightarrow> read_lines L ls (insert nodeURL sats))"

definition readNodeList :: "auth_lib \<Rightarrow> bytes \<Rightarrow> node_url set \<Rightarrow> node_url set \<times> err option" where
  "readNodeList L input sats = read_lines L (split_on (CHR 0x0A) input) sats"

fun resolve_values :: "auth_lib \<Rightarrow> list_env \<Rightarrow> string list \<Rightarrow> node_url set \<times> bool
    \<Rightarrow> (node_url set \<times> bool) \<times> err option" where
  "resolve_values L F [] (sats, has) = ((sats, has), None)"
| "resolve_values L F (v # vs) (sats, has) =
     (let c = trim_space v
      in if has_prefix c ''http'' then
           (case getHTTPList F c of
              Inl e \<Rightarrow> ((sats, True), Some e)
            | Inr body \<Rightarrow>
                (case readNodeList L body sats of
                   (s, Some e) \<Rightarrow> ((s, True), Some (wrap NodeListError e))
                 | (s, None) \<Rightarrow> resolve_values L F vs (s, True)))
         else if le_stat F c = None then
           (case le_readFile F c of
              Inl e \<Rightarrow> ((sats, True), Some (wrap NodeListError e))
            | Inr body \<Rightarrow>
                (case readNodeList L body sats of
                   (s, Some e) \<Rightarrow> ((s, True), Some (wrap NodeListError e))
                 | (s, None) \<Rightarrow> resolve_values L F vs (s, True)))
         else
           (case ParseNodeURL L c of
              Inr nodeURL \<Rightarrow> resolve_values L F vs (insert nodeURL sats, has)
            | Inl _ \<Rightarrow> ((sats, has), Some (Classed NodeListError (Message ''unknown config value'')))))"

definition Resolve :: "auth_lib \<Rightarrow> list_env \<Rightarrow> string list \<Rightarrow> (node_url set \<times> bool) \<times> err option" where
  "Resolve L F configValues = resolve_values L F configValues ({}, False)"

subsection \<open>Reloading (auth/peer.go, authdb.SetAllowedSatellites)\<close>

definition reloadSatelliteList :: "auth_lib \<Rightarrow> list_env \<Rightarrow> string list \<Rightarrow> node_url set \<Rightarrow> node_url set" where
  "reloadSatelliteList L F allowedSatellites allowed =
     (case Resolve L F allowedSatellites of
        (_, Some e) \<Rightarrow> allowed
      | ((urls, _), None) \<Rightarrow> urls)"

text \<open>The checks of \<open>auth.New\<close> that concern the list: there are values, and they name satellites.\<close>

definition initial_satellites :: "auth_lib \<Rightarrow> list_env \<Rightarrow> string list \<Rightarrow> err + node_url set \<times> bool" where
  "initial_satellites L F allowedSatellites =
     (if allowedSatellites = [] then Inl (Message ''allowed satellites parameter is required'')
      else case Resolve L F allowedSatellites of
             (_, Some e) \<Rightarrow> Inl e
           | ((urls, dynamic), None) \<Rightarrow>
               if urls = {} then Inl (Message ''allowed satellites parameter resolved to zero satellites'')
               else Inr (urls, dynamic))"

subsection \<open>The check at start (pkg/startupcheck)\<close>

text \<open>
  The identity is loaded or generated, and TLS options are made of it; both may fail.  Dials have no
  timeout of their own, the check has one over all; what a dial and the closing of its connection
  return is an argument.  The errors are combined in the order in which the checks end, which is the
  argument \<open>order\<close>.
\<close>

definition check_default_timeout :: int where
  "check_default_timeout = 60000000000"

record check_config =
  cc_NodeURLs :: "string list"
  cc_Timeout :: int
  cc_CertPath :: string
  cc_KeyPath :: string

record 'i check_env =
  ce_load :: "string \<Rightarrow> string \<Rightarrow> err + 'i"
  ce_generate :: "err + 'i"
  ce_options :: "'i \<Rightarrow> err option"

record node_check =
  nc_nodeURLs :: "string list"
  nc_timeout :: int

definition NewNodeURLCheck :: "'i check_env \<Rightarrow> check_config \<Rightarrow> err + node_check" where
  "NewNodeURLCheck E c =
     (let timeout = (if cc_Timeout c = 0 then check_default_timeout else cc_Timeout c)
      in case (if cc_CertPath c \<noteq> [] \<and> cc_KeyPath c \<noteq> [] then ce_load E (cc_CertPath c) (cc_KeyPath c) else ce_generate E) of
           Inl e \<Rightarrow> Inl e
         | Inr ident \<Rightarrow>
             (case ce_options E ident of
                Some e \<Rightarrow> Inl e
              | None \<Rightarrow> Inr \<lparr>nc_nodeURLs = cc_NodeURLs c, nc_timeout = timeout\<rparr>))"

definition check_node :: "(node_url \<Rightarrow> err option) \<Rightarrow> node_url \<Rightarrow> err option" where
  "check_node dial nodeURL = (if nu_Address nodeURL = [] then None else dial nodeURL)"

definition StartupCheck :: "auth_lib \<Rightarrow> list_env \<Rightarrow> (node_url set \<Rightarrow> node_url list) \<Rightarrow> (int \<Rightarrow> node_url \<Rightarrow> err option)
    \<Rightarrow> node_check \<Rightarrow> err option" where
  "StartupCheck L F order dial c =
     (case Resolve L F (nc_nodeURLs c) of
        (_, Some e) \<Rightarrow> Some (wrap StartupCheckError e)
      | ((nodeURLs, _), None) \<Rightarrow>
          wrap_opt StartupCheckError (combine (map (check_node (dial (nc_timeout c))) (order nodeURLs))))"

subsection \<open>What is named\<close>

text \<open>The lines of a page that name a node, and the nodes a value names, as a specification.\<close>

definition entry_lines :: "bytes \<Rightarrow> string list" where
  "entry_lines body = filter (\<lambda>l. l \<noteq> [] \<and> hd l \<noteq> CHR ''#'') (map trim_space (split_on (CHR 0x0A) body))"

text \<open>The entries of a value: those of its page or its file, or the value itself; none if it cannot be read.\<close>

definition value_entries :: "list_env \<Rightarrow> string \<Rightarrow> string list option" where
  "value_entries F v =
     (let c = trim_space v
      in if has_prefix c ''http'' then (case getHTTPList F c of Inl _ \<Rightarrow> None | Inr b \<Rightarrow> Some (entry_lines b))
         else if le_stat F c = None then (case le_readFile F c of Inl _ \<Rightarrow> None | Inr b \<Rightarrow> Some (entry_lines b))
         else Some [c])"

definition is_list_value :: "list_env \<Rightarrow> string \<Rightarrow> bool" where
  "is_list_value F v = (has_prefix (trim_space v) ''http'' \<or> le_stat F (trim_space v) = None)"

definition names_node :: "auth_lib \<Rightarrow> list_env \<Rightarrow> string list \<Rightarrow> node_url \<Rightarrow> bool" where
  "names_node L F vs u \<longleftrightarrow> (\<exists>v \<in> set vs. \<exists>es. value_entries F v = Some es \<and> (\<exists>l \<in> set es. ParseNodeURL L l = Inr u))"

definition readable :: "auth_lib \<Rightarrow> list_env \<Rightarrow> string list \<Rightarrow> bool" where
  "readable L F vs \<longleftrightarrow>
     (\<forall>v \<in> set vs. \<exists>es. value_entries F v = Some es \<and> (\<forall>l \<in> set es. \<exists>u. ParseNodeURL L l = Inr u))"

lemma read_lines_ok:
  "snd (read_lines L ls sats) = None \<longleftrightarrow>
     (\<forall>l \<in> set (filter (\<lambda>l. l \<noteq> [] \<and> hd l \<noteq> CHR ''#'') (map trim_space ls)). \<exists>u. ParseNodeURL L l = Inr u)"
  by (induction ls arbitrary: sats) (auto simp: Let_def split: sum.split)

lemma read_lines_set:
  "snd (read_lines L ls sats) = None \<Longrightarrow>
     fst (read_lines L ls sats) = sats \<union> {u. \<exists>l \<in> set (filter (\<lambda>l. l \<noteq> [] \<and> hd l \<noteq> CHR ''#'') (map trim_space ls)).
        ParseNodeURL L l = Inr u}"
  by (induction ls arbitrary: sats) (auto simp: Let_def split: sum.splits)

lemma readNodeList_ok:
  "snd (readNodeList L body sats) = None \<longleftrightarrow> (\<forall>l \<in> set (entry_lines body). \<exists>u. ParseNodeURL L l = Inr u)"
  by (simp add: readNodeList_def read_lines_ok entry_lines_def del: set_filter)

lemma readNodeList_set:
  "snd (readNodeList L body sats) = None \<Longrightarrow>
     fst (readNodeList L body sats) = sats \<union> {u. \<exists>l \<in> set (entry_lines body). ParseNodeURL L l = Inr u}"
  unfolding readNodeList_def entry_lines_def by (rule read_lines_set)

text \<open>One value at a time: it is read completely, and then its nodes are added, or resolving ends.\<close>

lemma read_body:
  assumes "\<forall>l \<in> set (entry_lines body). \<exists>u. ParseNodeURL L l = Inr u"
  shows "readNodeList L body sats = (sats \<union> {u. \<exists>l \<in> set (entry_lines body). ParseNodeURL L l = Inr u}, None)"
proof -
  have "snd (readNodeList L body sats) = None" using readNodeList_ok [of L body sats] assms by blast
  then show ?thesis using readNodeList_set [of L body sats] by (cases "readNodeList L body sats") simp
qed

lemma unread_body:
  assumes "\<not> (\<forall>l \<in> set (entry_lines body). \<exists>u. ParseNodeURL L l = Inr u)"
  obtains s e where "readNodeList L body sats = (s, Some e)"
proof -
  have "snd (readNodeList L body sats) \<noteq> None" using readNodeList_ok [of L body sats] assms by blast
  then show ?thesis using that by (cases "readNodeList L body sats") auto
qed

lemma readable_Cons: "readable L F (v # vs) \<longleftrightarrow> readable L F [v] \<and> readable L F vs"
  by (auto simp: readable_def)

lemma names_node_Cons: "names_node L F (v # vs) u \<longleftrightarrow> names_node L F [v] u \<or> names_node L F vs u"
  by (auto simp: names_node_def)

lemma names_one: "value_entries F v = Some es \<Longrightarrow> names_node L F [v] u \<longleftrightarrow> (\<exists>l \<in> set es. ParseNodeURL L l = Inr u)"
  by (simp add: names_node_def)

lemma resolve_readable:
  assumes "readable L F [v]"
  shows "resolve_values L F (v # vs) (sats, has)
    = resolve_values L F vs (sats \<union> {u. names_node L F [v] u}, has \<or> is_list_value F v)"
proof -
  from assms obtain es where es: "value_entries F v = Some es" and ok: "\<forall>l \<in> set es. \<exists>u. ParseNodeURL L l = Inr u"
    by (auto simp: readable_def)
  show ?thesis
  proof (cases "is_list_value F v")
    case True
    obtain body where "es = entry_lines body"
      and b: "if has_prefix (trim_space v) ''http'' then getHTTPList F (trim_space v) = Inr body
        else le_stat F (trim_space v) = None \<and> le_readFile F (trim_space v) = Inr body"
      using es True by (auto simp: value_entries_def is_list_value_def Let_def split: sum.splits if_splits)
    with ok have "readNodeList L body sats = (sats \<union> {u. names_node L F [v] u}, None)"
      using read_body [of body L sats] by (simp add: names_one [OF es])
    with b True show ?thesis by (simp add: Let_def split: if_splits)
  next
    case False
    then have e: "es = [trim_space v]" using es by (auto simp: value_entries_def is_list_value_def Let_def)
    then obtain u where "ParseNodeURL L (trim_space v) = Inr u" using ok by auto
    moreover obtain x where "le_stat F (trim_space v) = Some x" using False by (auto simp: is_list_value_def)
    ultimately show ?thesis using False e by (simp add: is_list_value_def names_one [OF es] Let_def)
  qed
qed

lemma resolve_unreadable:
  assumes "\<not> readable L F [v]"
  shows "snd (resolve_values L F (v # vs) (sats, has)) \<noteq> None"
proof (cases "value_entries F v")
  case None
  then show ?thesis by (auto simp: value_entries_def Let_def split: sum.splits if_splits)
next
  case (Some es)
  then have bad: "\<not> (\<forall>l \<in> set es. \<exists>u. ParseNodeURL L l = Inr u)" using assms by (auto simp: readable_def)
  show ?thesis
  proof (cases "is_list_value F v")
    case True
    obtain body where "es = entry_lines body"
      and b: "if has_prefix (trim_space v) ''http'' then getHTTPList F (trim_space v) = Inr body
        else le_stat F (trim_space v) = None \<and> le_readFile F (trim_space v) = Inr body"
      using Some True by (auto simp: value_entries_def is_list_value_def Let_def split: sum.splits if_splits)
    with bad obtain s e where "readNodeList L body sats = (s, Some e)" using unread_body [of body L sats] by blast
    with b True show ?thesis by (simp add: Let_def split: if_splits)
  next
    case False
    then have "es = [trim_space v]" using Some by (auto simp: value_entries_def is_list_value_def Let_def)
    with bad obtain e where "ParseNodeURL L (trim_space v) = Inl e" by (cases "ParseNodeURL L (trim_space v)") auto
    moreover obtain x where "le_stat F (trim_space v) = Some x" using False by (auto simp: is_list_value_def)
    ultimately show ?thesis using False by (simp add: is_list_value_def Let_def)
  qed
qed

lemma resolve_values_collects:
  "if readable L F vs
   then resolve_values L F vs (sats, has)
     = ((sats \<union> {u. names_node L F vs u}, has \<or> (\<exists>v \<in> set vs. is_list_value F v)), None)
   else snd (resolve_values L F vs (sats, has)) \<noteq> None"
proof (induction vs arbitrary: sats has)
  case Nil
  have none: "Collect (names_node L F []) = {}" by (auto simp: names_node_def)
  show ?case by (simp add: readable_def none)
next
  case (Cons v vs)
  show ?case
  proof (cases "readable L F [v]")
    case True
    have "names_node L F (v # vs) = (\<lambda>u. names_node L F [v] u \<or> names_node L F vs u)" by (rule ext) (rule names_node_Cons)
    then show ?thesis
      using Cons.IH [of "sats \<union> {u. names_node L F [v] u}" "has \<or> is_list_value F v"] True
      unfolding resolve_readable [OF True] readable_Cons [of L F v vs]
      by (simp add: Un_assoc Collect_disj_eq disj_assoc)
  next
    case False
    then show ?thesis using resolve_unreadable [OF False] by (simp add: readable_Cons [of L F v vs])
  qed
qed

lemma Resolve_collects:
  "readable L F vs \<Longrightarrow> Resolve L F vs = (({u. names_node L F vs u}, \<exists>v \<in> set vs. is_list_value F v), None)"
  "\<not> readable L F vs \<Longrightarrow> snd (Resolve L F vs) \<noteq> None"
  using resolve_values_collects [of L F vs "{}" False] by (simp_all add: Resolve_def)

subsection \<open>The allowed satellites over time\<close>

text \<open>
  The service after its start and any number of reloads, each with the pages and files of its time.
\<close>

inductive allowed_after :: "auth_lib \<Rightarrow> string list \<Rightarrow> node_url set \<Rightarrow> list_env list \<Rightarrow> bool" for L vs where
  Start: "initial_satellites L F vs = Inr (urls, dynamic) \<Longrightarrow> allowed_after L vs urls [F]"
| Reload: "allowed_after L vs urls Fs \<Longrightarrow> allowed_after L vs (reloadSatelliteList L F vs urls) (F # Fs)"

text \<open>The latest environment, of those in which the values can be read.\<close>

definition last_readable :: "auth_lib \<Rightarrow> string list \<Rightarrow> list_env list \<Rightarrow> list_env option" where
  "last_readable L vs Fs = find (\<lambda>F. readable L F vs) Fs"

lemma reload_cases:
  "reloadSatelliteList L F vs urls = (if readable L F vs then {u. names_node L F vs u} else urls)"
  using Resolve_collects [of L F vs]
  by (cases "Resolve L F vs"; cases "fst (Resolve L F vs)")
    (auto simp: reloadSatelliteList_def split: option.splits)

lemma initial_cases:
  assumes "initial_satellites L F vs = Inr (urls, dynamic)"
  shows "readable L F vs" and "urls = {u. names_node L F vs u}" and "urls \<noteq> {}"
proof -
  obtain e where r: "Resolve L F vs = ((urls, dynamic), None)" and "urls \<noteq> {}"
    using assms by (auto simp: initial_satellites_def split: if_splits option.splits prod.splits)
  then show "readable L F vs" "urls \<noteq> {}" using Resolve_collects(2) [of L F vs] by auto
  then show "urls = {u. names_node L F vs u}" using Resolve_collects(1) [of L F vs] r by simp
qed

lemma allowed_after_named:
  assumes "allowed_after L vs urls Fs"
  shows "\<exists>F. last_readable L vs Fs = Some F \<and> urls = {u. names_node L F vs u}"
  using assms
proof induction
  case (Start F urls dynamic)
  then show ?case using initial_cases [OF Start] by (simp add: last_readable_def)
next
  case (Reload urls Fs F)
  then show ?case by (auto simp: reload_cases last_readable_def)
qed

lemma finite_names_node: "finite {u. names_node L F vs u}"
proof (induction vs)
  case Nil
  then show ?case by (simp add: names_node_def)
next
  case (Cons v vs)
  have "finite {u. names_node L F [v] u}"
  proof (cases "value_entries F v")
    case (Some es)
    have "{u. \<exists>l \<in> set es. ParseNodeURL L l = Inr u} \<subseteq> (\<lambda>l. projr (ParseNodeURL L l)) ` set es" by force
    then show ?thesis by (simp add: names_one [OF Some] finite_subset)
  qed (simp add: names_node_def)
  then show ?case using Cons.IH unfolding names_node_Cons [of L F v vs] by (simp add: Collect_disj_eq)
qed

lemma put_allowed:
  assumes "Database_Put L K allowed rnd key accessGrant public s = Some (Inr sk, t)"
  obtains a u where "lib_ParseAccess L accessGrant = Inr a" and "ParseNodeURL L (ac_SatelliteAddress a) = Inr u"
    and "u \<in> allowed"
  using assms by (auto simp: Database_Put_def make_record_def split: sum.splits if_splits prod.splits option.splits)

subsection \<open>The properties\<close>

text \<open>
  C31: whatever reloads succeed or fail in between, the service registers an access grant only if its
  satellite is named by the configured values as they could last be read; a failing reload changes
  nothing.  But a reload that finds no satellite is not refused, as the start is: it leaves nothing
  allowed, and no grant is registered any more.
\<close>

theorem registered_satellites_are_listed:
  assumes "allowed_after L vs allowed Fs"
  shows "(Database_Put L K allowed rnd key accessGrant public s = Some (Inr sk, t) \<longrightarrow>
      (\<exists>F a u. last_readable L vs Fs = Some F \<and> lib_ParseAccess L accessGrant = Inr a
        \<and> ParseNodeURL L (ac_SatelliteAddress a) = Inr u \<and> names_node L F vs u))
    \<and> (\<not> readable L F vs \<longrightarrow> reloadSatelliteList L F vs allowed = allowed)
    \<and> (readable L F vs \<and> (\<forall>u. \<not> names_node L F vs u) \<longrightarrow>
      (\<forall>res. initial_satellites L F vs \<noteq> Inr res)
      \<and> Database_Put L K (reloadSatelliteList L F vs allowed) rnd key accessGrant public s \<noteq> Some (Inr sk, t))"
proof (rule conjI [OF impI conjI [OF impI impI]])
  assume "Database_Put L K allowed rnd key accessGrant public s = Some (Inr sk, t)"
  then obtain a u where "lib_ParseAccess L accessGrant = Inr a" "ParseNodeURL L (ac_SatelliteAddress a) = Inr u" "u \<in> allowed"
    by (rule put_allowed)
  with allowed_after_named [OF assms]
  show "\<exists>F a u. last_readable L vs Fs = Some F \<and> lib_ParseAccess L accessGrant = Inr a
        \<and> ParseNodeURL L (ac_SatelliteAddress a) = Inr u \<and> names_node L F vs u" by blast
next
  show "reloadSatelliteList L F vs allowed = allowed" if "\<not> readable L F vs" using that by (simp add: reload_cases)
next
  assume none: "readable L F vs \<and> (\<forall>u. \<not> names_node L F vs u)"
  then have "Collect (names_node L F vs) = {}" by blast
  with none have "reloadSatelliteList L F vs allowed = {}" by (simp add: reload_cases)
  then have "Database_Put L K (reloadSatelliteList L F vs allowed) rnd key accessGrant public s \<noteq> Some (Inr sk, t)"
    using put_allowed [of L K "{}" rnd key accessGrant public s sk t] by auto
  moreover have "initial_satellites L F vs \<noteq> Inr res" for res
    using none initial_cases(2,3) [of L F vs "fst res" "snd res"] by auto
  ultimately show "(\<forall>res. initial_satellites L F vs \<noteq> Inr res)
      \<and> Database_Put L K (reloadSatelliteList L F vs allowed) rnd key accessGrant public s \<noteq> Some (Inr sk, t)" by blast
qed

text \<open>A page that is served at first, then fails, and at last is empty.\<close>

definition demo_page :: "http_page \<Rightarrow> list_env" where
  "demo_page p = \<lparr>le_page = (\<lambda>_. p), le_stat = (\<lambda>_. Some (Sentinel FsNotExist)), le_readFile = (\<lambda>_. Inl (Sentinel FsNotExist))\<rparr>"

lemma demo_page_entries:
  "getHTTPList (demo_page (Page 200 (Inr b) None)) url = Inr b"
  "\<exists>e. getHTTPList (demo_page (NoPage x)) url = Inl e"
  "le_stat (demo_page p) c \<noteq> None"
  by (simp_all add: getHTTPList_def demo_page_def)

lemma demo_readable:
  "readable demo_lib (demo_page (Page 200 (Inr b) None)) [''http://list'']"
  "names_node demo_lib (demo_page (Page 200 (Inr b) None)) [''http://list''] u
    \<longleftrightarrow> (\<exists>l \<in> set (entry_lines b). u = \<lparr>nu_ID = replicate 32 CHR ''i'', nu_Address = l\<rparr>)"
  "\<not> readable demo_lib (demo_page (NoPage x)) [''http://list'']"
proof -
  have t: "trim_space ''http://list'' = ''http://list''" by code_simp
  have parse: "ParseNodeURL demo_lib l = Inr \<lparr>nu_ID = replicate 32 CHR ''i'', nu_Address = l\<rparr>" for l
    by (simp add: ParseNodeURL_def demo_lib_def replicate_eq_replicate)
  obtain e where "getHTTPList (demo_page (NoPage x)) ''http://list'' = Inl e" using demo_page_entries(2) by blast
  then show "\<not> readable demo_lib (demo_page (NoPage x)) [''http://list'']"
    by (simp add: readable_def value_entries_def t)
  show "readable demo_lib (demo_page (Page 200 (Inr b) None)) [''http://list'']"
    "names_node demo_lib (demo_page (Page 200 (Inr b) None)) [''http://list''] u
      \<longleftrightarrow> (\<exists>l \<in> set (entry_lines b). u = \<lparr>nu_ID = replicate 32 CHR ''i'', nu_Address = l\<rparr>)"
    by (auto simp: readable_def names_node_def value_entries_def t demo_page_entries parse)
qed

lemma registered_satellites_are_listed_witness:
  "\<exists>t F u. \<exists>a :: access. allowed_after demo_lib [''http://list''] {demo_url}
        [demo_page (NoPage (Sentinel DeadlineExceeded)), demo_page (Page 200 (Inr ''sat'') None)]
     \<and> Database_Put demo_lib demo_kv {demo_url} (Inr (replicate 32 CHR ''s'')) (replicate 16 CHR ''k'') ''grant'' True []
        = Some (Inr (replicate 32 CHR ''s''), t)
     \<and> F = demo_page (Page 200 (Inr ''sat'') None) \<and> names_node demo_lib F [''http://list''] u
     \<and> ParseNodeURL demo_lib (ac_SatelliteAddress a) = Inr u"
proof -
  let ?F = "demo_page (Page 200 (Inr ''sat'') None)" and ?G = "demo_page (NoPage (Sentinel DeadlineExceeded))"
    and ?vs = "[''http://list'']"
  have "entry_lines ''sat'' = [''sat'']" by code_simp
  then have named: "{u. names_node demo_lib ?F ?vs u} = {demo_url}" by (auto simp: demo_readable demo_url_def)
  then have ok: "fst (Resolve demo_lib ?F ?vs) = ({demo_url}, \<exists>v \<in> set ?vs. is_list_value ?F v)" "snd (Resolve demo_lib ?F ?vs) = None"
    using Resolve_collects(1) [OF demo_readable(1) [of "''sat''"]] by simp_all
  then have "\<exists>d. initial_satellites demo_lib ?F ?vs = Inr ({demo_url}, d)"
    by (cases "Resolve demo_lib ?F ?vs") (auto simp: initial_satellites_def)
  then obtain d where "initial_satellites demo_lib ?F ?vs = Inr ({demo_url}, d)" ..
  then have "allowed_after demo_lib ?vs {demo_url} [?F]" by (rule allowed_after.Start)
  then have "allowed_after demo_lib ?vs (reloadSatelliteList demo_lib ?G ?vs {demo_url}) [?G, ?F]" by (rule allowed_after.Reload)
  then have after: "allowed_after demo_lib ?vs {demo_url} [?G, ?F]" by (simp add: reload_cases demo_readable)
  obtain t where put: "Database_Put demo_lib demo_kv {demo_url} (Inr (replicate 32 CHR ''s'')) (replicate 16 CHR ''k'') ''grant'' True []
      = Some (Inr (replicate 32 CHR ''s''), t)" by (rule demo_database_put)
  from conjunct1 [OF registered_satellites_are_listed [OF after], THEN mp, OF put] obtain F u and a :: access where
    F: "last_readable demo_lib ?vs [?G, ?F] = Some F" and u: "ParseNodeURL demo_lib (ac_SatelliteAddress a) = Inr u"
      "names_node demo_lib F ?vs u" by blast
  from F have "F = ?F" by (simp add: last_readable_def demo_readable)
  with after put u show ?thesis by blast
qed

text \<open>
  The check at the start passes if and only if all configured values can be read completely and
  every node they name, of those that have an address, can be dialled within the configured time or,
  if none is configured, a minute; a node without an address is not checked.
\<close>

lemma startup_check_passes_iff:
  assumes "NewNodeURLCheck E cfg = Inr c"
    and "set (order {u. names_node L F (cc_NodeURLs cfg) u}) = {u. names_node L F (cc_NodeURLs cfg) u}"
  shows "StartupCheck L F order dial c = None \<longleftrightarrow>
    readable L F (cc_NodeURLs cfg) \<and> (\<forall>u. names_node L F (cc_NodeURLs cfg) u \<longrightarrow>
      nu_Address u = [] \<or> dial (if cc_Timeout cfg = 0 then 60000000000 else cc_Timeout cfg) u = None)"
proof -
  have c: "nc_nodeURLs c = cc_NodeURLs cfg" "nc_timeout c = (if cc_Timeout cfg = 0 then 60000000000 else cc_Timeout cfg)"
    using assms(1) by (auto simp: NewNodeURLCheck_def Let_def check_default_timeout_def split: sum.splits option.splits)
  show ?thesis
  proof (cases "readable L F (cc_NodeURLs cfg)")
    case True
    have "combine (map (check_node (dial t)) us) = None \<longleftrightarrow> (\<forall>u \<in> set us. nu_Address u = [] \<or> dial t u = None)" for t us
      by (auto simp: combine_None_iff check_node_def simp del: if_image_distrib)
    note this [of _ "order {u. names_node L F (cc_NodeURLs cfg) u}", unfolded assms(2) mem_Collect_eq Ball_def]
    with True show ?thesis unfolding StartupCheck_def c Resolve_collects(1) [OF True] by simp
  next
    case False
    with Resolve_collects(2) [OF False] show ?thesis
      by (cases "Resolve L F (cc_NodeURLs cfg)") (auto simp: StartupCheck_def c)
  qed
qed

lemma startup_check_passes_iff_witness:
  "\<exists>c. NewNodeURLCheck \<lparr>ce_load = (\<lambda>_ _. Inr ()), ce_generate = Inr (), ce_options = (\<lambda>_. None)\<rparr>
        \<lparr>cc_NodeURLs = [''http://list''], cc_Timeout = 0, cc_CertPath = [], cc_KeyPath = []\<rparr> = Inr c
     \<and> StartupCheck demo_lib (demo_page (Page 200 (Inr ''sat'') None)) (\<lambda>_. [demo_url])
         (\<lambda>t u. if t = 60000000000 then None else Some (Sentinel DeadlineExceeded)) c = None"
proof -
  let ?E = "\<lparr>ce_load = (\<lambda>_ _. Inr ()), ce_generate = Inr (), ce_options = (\<lambda>_. None)\<rparr>"
    and ?cfg = "\<lparr>cc_NodeURLs = [''http://list''], cc_Timeout = 0, cc_CertPath = [], cc_KeyPath = []\<rparr>"
  obtain c where c: "NewNodeURLCheck ?E ?cfg = Inr c" by (simp add: NewNodeURLCheck_def)
  have "entry_lines ''sat'' = [''sat'']" by code_simp
  then have order: "set [demo_url] = {u. names_node demo_lib (demo_page (Page 200 (Inr ''sat'') None)) (cc_NodeURLs ?cfg) u}"
    by (auto simp: demo_readable demo_url_def)
  show ?thesis
    using startup_check_passes_iff [OF c order] demo_readable(1) c by auto
qed

end
