(* ===== verification/AdminClient.thy ===== *)
theory AdminClient
  imports Badgerauth AuthDB GoPath
begin

section \<open>The administration client (internal/authadminclient, pkg/auth/badgerauth/security.go)\<close>

text \<open>
  The command line of the operators talks to the replication and the administration services of the
  nodes over mutually authenticated TLS.  A cluster gives each address its node, that is its database
  of theory Records, and the outcome of dialling it; the stores of the nodes are the world.  The
  administration calls run concurrently; each touches the store of its own node only, and the
  addresses are given in the order in which their calls end.  Directories, files and key pairs are
  parameters, and so are parsing and serialising of access grants.
\<close>

subsection \<open>TLS between the nodes (security.go)\<close>

record 'c cert_env =
  fe_ReadDir :: "string \<Rightarrow> err + (string \<times> bool) list"
  fe_ReadFile :: "string \<Rightarrow> err + bytes"
  fe_ValidPEM :: "bytes \<Rightarrow> bool"
  fe_LoadKeyPair :: "string \<Rightarrow> string \<Rightarrow> err + 'c"

record 'c node_tls =
  nt_RootCAs :: "bytes list"
  nt_ClientCAs :: "bytes list"
  nt_Certificates :: "'c list"
  nt_RequireAndVerifyClientCert :: bool

text \<open>\<open>filepath.Ext\<close>: from the last dot of the last element on.\<close>

definition path_ext :: "string \<Rightarrow> string" where
  "path_ext p =
     (let tail = takeWhile (\<lambda>c. c \<noteq> CHR ''.'' \<and> c \<noteq> CHR ''/'') (rev p)
      in case drop (length tail) (rev p) of
           c # _ \<Rightarrow> if c = CHR ''.'' then c # rev tail else []
         | [] \<Rightarrow> [])"

definition changeExt :: "string \<Rightarrow> string \<Rightarrow> string" where
  "changeExt p newext = take (length p - length (path_ext p)) p @ newext"

definition empty_tls :: "'c node_tls" where
  "empty_tls = \<lparr>nt_RootCAs = [], nt_ClientCAs = [], nt_Certificates = [], nt_RequireAndVerifyClientCert = True\<rparr>"

definition load_entry :: "'c cert_env \<Rightarrow> string \<Rightarrow> string \<times> bool \<Rightarrow> 'c node_tls \<Rightarrow> err + 'c node_tls" where
  "load_entry F dir entry config =
     (let name = fst entry; parts = split_on CHR ''.'' name; full = path_join [dir, name]
      in if snd entry then Inr config
         else if path_ext name \<noteq> ''.crt'' then Inr config
         else if length parts < 2 then Inl (Classed TLSError (Message ''misnamed certificate''))
         else if hd parts = ''ca'' then
           (case fe_ReadFile F full of
              Inl e \<Rightarrow> Inl (Classed TLSError (Detail ''failed to read'' e))
            | Inr pem \<Rightarrow>
                if \<not> fe_ValidPEM F pem then Inl (Classed TLSError (Message ''failed to add''))
                else Inr (config\<lparr>nt_RootCAs := nt_RootCAs config @ [pem], nt_ClientCAs := nt_ClientCAs config @ [pem]\<rparr>))
         else if hd parts = ''node'' \<or> hd parts = ''client'' then
           (case fe_LoadKeyPair F full (changeExt full ''.key'') of
              Inl e \<Rightarrow> Inl (Classed TLSError (Message ''failed to load node keypair''))
            | Inr keypair \<Rightarrow> Inr (config\<lparr>nt_Certificates := nt_Certificates config @ [keypair]\<rparr>))
         else Inl (Classed TLSError (Message ''don't know how to handle'')))"

fun load_entries :: "'c cert_env \<Rightarrow> string \<Rightarrow> (string \<times> bool) list \<Rightarrow> 'c node_tls \<Rightarrow> err + 'c node_tls" where
  "load_entries F dir [] config = Inr config"
| "load_entries F dir (e # es) config =
     (case load_entry F dir e config of Inl x \<Rightarrow> Inl x | Inr c \<Rightarrow> load_entries F dir es c)"

definition TLSOptions_Load :: "'c cert_env \<Rightarrow> string \<Rightarrow> err + 'c node_tls" where
  "TLSOptions_Load F certsDir =
     (if certsDir = [] then Inr empty_tls
      else case fe_ReadDir F certsDir of
             Inl e \<Rightarrow> Inl (Classed TLSError (Detail ''failed to read certs dir'' e))
           | Inr entries \<Rightarrow> load_entries F certsDir entries empty_tls)"

subsection \<open>The client\<close>

record ('c, 's) cluster =
  cn_certs :: "'c cert_env"
  cn_certsDir :: string
  cn_insecureDisableTLS :: bool
  cn_connect :: "'c node_tls option \<Rightarrow> string \<Rightarrow> err option"
  cn_db :: "string \<Rightarrow> 's db"
  cn_ctx :: "nat \<Rightarrow> err option"
  cn_now :: time
  cn_auth :: auth_lib
  cn_serialize :: "access \<Rightarrow> string"

definition dialAddress :: "('c, 's) cluster \<Rightarrow> string \<Rightarrow> err option" where
  "dialAddress C address =
     (case (if cn_insecureDisableTLS C then Inr None
            else case TLSOptions_Load (cn_certs C) (cn_certsDir C) of
                   Inl e \<Rightarrow> Inl (Detail ''failed to load tls config'' e)
                 | Inr t \<Rightarrow> Inr (Some t)) of
        Inl e \<Rightarrow> Some e
      | Inr tlsConfig \<Rightarrow> map_option (Detail ''dial node failed'') (cn_connect C tlsConfig address))"

text \<open>The hash, and the key it is the hash of if the input is a key; \<open>None\<close> is a panic of the decoder.\<close>

definition keyFromInput :: "auth_lib \<Rightarrow> string \<Rightarrow> (err + key_hash \<times> bytes) option" where
  "keyFromInput L input =
     (if length input = KeyHashSizeEncoded then
        (case key_hash_from_hex input of
           Inl e \<Rightarrow> Some (Inl (Detail ''hex decode'' e))
         | Inr kh \<Rightarrow> Some (Inr (kh, replicate 16 NUL)))
      else if length input = EncKeySizeEncoded then
        (case key_FromBase32 input of
           None \<Rightarrow> None
         | Some (Inl e) \<Rightarrow> Some (Inl (Detail ''base32 decode'' e))
         | Some (Inr k) \<Rightarrow> Some (Inr (key_Hash L k, k)))
      else Some (Inl (Message ''unknown key input length'')))"

record admin_record =
  am_Record :: pb_record
  am_DecryptedAccessGrant :: string
  am_MacaroonHeadHex :: string
  am_APIKey :: string

text \<open>The record as it is when the method returns, and its error.\<close>

definition updateFromProto :: "('c, 's) cluster \<Rightarrow> pb_record \<Rightarrow> bytes \<Rightarrow> admin_record \<times> err option" where
  "updateFromProto C pr encKey =
     (let r = \<lparr>am_Record = pr, am_DecryptedAccessGrant = [], am_MacaroonHeadHex = [], am_APIKey = []\<rparr>;
          done = (\<lambda>r. (r\<lparr>am_MacaroonHeadHex := hex_encode (pb_MacaroonHead pr)\<rparr>, None))
      in if encKey = replicate 16 NUL then done r
         else case lib_Decrypt (cn_auth C) (pb_EncryptedAccessGrant pr) (ToStorjKey encKey) grant_nonce of
                Inl e \<Rightarrow> (r, Some (Detail ''decrypt access grant'' e))
              | Inr grant \<Rightarrow>
                  (case lib_ParseAccess (cn_auth C) grant of
                     Inl e \<Rightarrow> (r\<lparr>am_DecryptedAccessGrant := grant\<rparr>, Some (Detail ''parse access'' e))
                   | Inr ag \<Rightarrow> done (r\<lparr>am_DecryptedAccessGrant := grant, am_APIKey := cn_serialize C ag\<rparr>)))"

text \<open>The first address only; the error of the request is one of the node it was made to.\<close>

definition withReplicationClient :: "('c, 's) cluster \<Rightarrow> string list \<Rightarrow> (string \<Rightarrow> 'r option \<times> err option) \<Rightarrow> 'r option \<times> err option" where
  "withReplicationClient C addresses fn =
     (case addresses of
        [] \<Rightarrow> (None, Some (Message ''node addresses unspecified''))
      | a # _ \<Rightarrow>
          (case dialAddress C a of
             Some e \<Rightarrow> (None, Some e)
           | None \<Rightarrow> (case fn a of (r, e) \<Rightarrow> (r, map_option (Detail ''node request failed'') e))))"

definition Admin_Get :: "('c, 's) cluster \<Rightarrow> string list \<Rightarrow> string \<Rightarrow> (string \<Rightarrow> 's)
    \<Rightarrow> (admin_record option \<times> err option) option" where
  "Admin_Get C nodeAddresses encodedKey W =
     (case keyFromInput (cn_auth C) encodedKey of
        None \<Rightarrow> None
      | Some (Inl e) \<Rightarrow> Some (None, Some (Classed AuthAdminClientError (Detail ''key from input'' e)))
      | Some (Inr (keyHash, encKey)) \<Rightarrow>
          (case withReplicationClient C (take 1 nodeAddresses) (\<lambda>a.
               case node_Peek (cn_db C a) keyHash (W a) of
                 Inl e \<Rightarrow> (None, Some (Detail ''peek record'' e))
               | Inr pr \<Rightarrow>
                   (case updateFromProto C pr encKey of
                      (r, e) \<Rightarrow> (Some r, map_option (Detail ''update from proto'') e))) of
             (r, e) \<Rightarrow> Some (r, wrap_opt AuthAdminClientError e)))"

subsection \<open>Administration\<close>

fun run_admin :: "('c, 's) cluster \<Rightarrow> (string \<Rightarrow> 's \<Rightarrow> (err option \<times> 's) option) \<Rightarrow> string list \<Rightarrow> (string \<Rightarrow> 's)
    \<Rightarrow> (err option \<times> (string \<Rightarrow> 's)) option" where
  "run_admin C fn [] W = Some (None, W)"
| "run_admin C fn (a # as) W =
     (case dialAddress C a of
        Some e \<Rightarrow> map_option (\<lambda>(_, V). (Some e, V)) (run_admin C fn as W)
      | None \<Rightarrow>
          (case fn a (W a) of
             None \<Rightarrow> None
           | Some (e, s) \<Rightarrow>
               map_option (\<lambda>(e', V). (case e of None \<Rightarrow> e' | Some x \<Rightarrow> Some (Detail ''node request failed'' x), V))
                 (run_admin C fn as (W(a := s)))))"

definition withAdminClient :: "('c, 's) cluster \<Rightarrow> string list \<Rightarrow> (string \<Rightarrow> 's \<Rightarrow> (err option \<times> 's) option) \<Rightarrow> (string \<Rightarrow> 's)
    \<Rightarrow> (err option \<times> (string \<Rightarrow> 's)) option" where
  "withAdminClient C addresses fn W =
     (if addresses = [] then Some (Some (Message ''node addresses unspecified''), W)
      else run_admin C fn addresses W)"

definition admin_call :: "('c, 's) cluster \<Rightarrow> string list \<Rightarrow> string \<Rightarrow> string
    \<Rightarrow> (string \<Rightarrow> key_hash \<Rightarrow> 's \<Rightarrow> (err option \<times> 's) option) \<Rightarrow> (string \<Rightarrow> 's) \<Rightarrow> (err option \<times> (string \<Rightarrow> 's)) option" where
  "admin_call C addresses encodedKey what fn W =
     (case keyFromInput (cn_auth C) encodedKey of
        None \<Rightarrow> None
      | Some (Inl e) \<Rightarrow> Some (Some (Classed AuthAdminClientError (Detail ''key from input'' e)), W)
      | Some (Inr (keyHash, _)) \<Rightarrow>
          map_option (\<lambda>(e, V). (wrap_opt AuthAdminClientError e, V))
            (withAdminClient C addresses
              (\<lambda>a s. map_option (\<lambda>(e, t). (map_option (Detail what) e, t)) (fn a keyHash s)) W))"

definition Admin_Invalidate :: "('c, 's) cluster \<Rightarrow> string list \<Rightarrow> string \<Rightarrow> string \<Rightarrow> (string \<Rightarrow> 's)
    \<Rightarrow> (err option \<times> (string \<Rightarrow> 's)) option" where
  "Admin_Invalidate C addresses encodedKey reason W =
     admin_call C addresses encodedKey ''invalidate record''
       (\<lambda>a kh s. InvalidateRecord (cn_db C a) (cn_ctx C) (cn_now C) kh reason s) W"

definition Admin_Unpublish :: "('c, 's) cluster \<Rightarrow> string list \<Rightarrow> string \<Rightarrow> (string \<Rightarrow> 's)
    \<Rightarrow> (err option \<times> (string \<Rightarrow> 's)) option" where
  "Admin_Unpublish C addresses encodedKey W =
     admin_call C addresses encodedKey ''unpublish record''
       (\<lambda>a kh s. UnpublishRecord (cn_db C a) (cn_ctx C) kh s) W"

definition Admin_Delete :: "('c, 's) cluster \<Rightarrow> string list \<Rightarrow> string \<Rightarrow> (string \<Rightarrow> 's)
    \<Rightarrow> (err option \<times> (string \<Rightarrow> 's)) option" where
  "Admin_Delete C addresses encodedKey W =
     admin_call C addresses encodedKey ''delete record''
       (\<lambda>a kh s. DeleteRecord (cn_db C a) (cn_ctx C) kh s) W"

subsection \<open>The properties\<close>

context badger_db
begin

lemma Put_lookup:
  assumes "PutAtTime D ctx kh rec now s = Some (None, s')" and "clocks_ok (view s)" and "length kh = 32"
    and "live (expiry (record_at now rec))"
  shows "lookupRecord D kh s' = Inr (record_at now rec)"
proof -
  from Put_ok [OF assms(1-3)] obtain m where m: "pb_marshal (db_proto D) (record_at now rec) = Inr m"
    and v: "view s' = inserted live (cfg_ID (db_config D)) kh (record_at now rec) m (view s)" by blast
  then show ?thesis using assms(3,4) id_length
    by (simp add: lookupRecord_def lookup_ok inserted_record unmarshal_marshal)
qed

lemma DeleteRecord_outcome:
  assumes "DeleteRecord D ctx kh s = Some (e, s')" and "logs_ok (view s)" and "plain_hash kh"
  shows "if e = None then view s' = deleted kh (view s) else view s' = view s"
proof -
  have "key_hash_set_bytes kh = Inr kh" using assms(3) by simp
  then obtain e' where d: "deleteRecord D ctx kh s = Some (e', s')" and e: "e = errToRPCStatusErr e'"
    using assms(1) by (auto simp: DeleteRecord_def)
  show ?thesis
  proof (cases e')
    case None
    with deleteRecord_ok [OF _ assms(2,3)] d e show ?thesis by (simp add: errToRPCStatusErr_None)
  next
    case (Some x)
    have "view s' = view s" using d unfolding deleteRecord_def Some by (rule db_txn_error)
    moreover obtain y where "e = Some y" using e Some by (auto simp: errToRPCStatusErr_def)
    ultimately show ?thesis by simp
  qed
qed

lemma Get_deleted:
  assumes "length kh = 32" and "view t = deleted kh (view s)"
  shows "Get D kh t = Inr None" and "length k = 32 \<Longrightarrow> k \<noteq> kh \<Longrightarrow> Get D k t = Get D k s"
  using assms by (simp add: Get_ok deleted_def) (simp add: Get_ok deleted_short assms)

end

lemma keyFromInput_text:
  assumes "length k = 16"
  shows "keyFromInput L (key_ToBase32 k) = Some (Inr (key_Hash L k, k))"
  using length_key_text [OF assms] key_text_roundtrip [OF assms]
  by (simp add: keyFromInput_def KeyHashSizeEncoded_def EncKeySizeEncoded_def)

lemma keyFromInput_hash:
  assumes "length kh = 32"
  shows "keyFromInput L (key_hash_to_hex kh) = Some (Inr (kh, replicate 16 NUL))"
  using key_hash_from_to_hex [OF assms] assms
  by (simp add: keyFromInput_def KeyHashSizeEncoded_def key_hash_to_hex_def length_hex_encode)

lemma run_admin_each:
  assumes "run_admin C fn as W = Some (e, W')" and "distinct as"
  shows "(\<forall>a. a \<notin> set as \<longrightarrow> W' a = W a)
    \<and> (\<forall>a \<in> set as. (\<exists>x. fn a (W a) = Some (x, W' a) \<and> (e = None \<longrightarrow> x = None)) \<or> W' a = W a \<and> e \<noteq> None)"
  using assms
proof (induction as arbitrary: W e)
  case (Cons a as)
  show ?case
  proof (cases "dialAddress C a")
    case (Some x)
    with Cons.prems(1) obtain e0 where r: "run_admin C fn as W = Some (e0, W')" and e: "e = Some x" by auto
    from Cons.IH [OF r] Cons.prems(2) e show ?thesis by auto
  next
    case None
    with Cons.prems(1) obtain x s e0 where f: "fn a (W a) = Some (x, s)"
      and r: "run_admin C fn as (W(a := s)) = Some (e0, W')"
      and e: "e = (case x of None \<Rightarrow> e0 | Some y \<Rightarrow> Some (Detail ''node request failed'' y))"
      by (auto split: option.splits)
    have IH: "(\<forall>b. b \<notin> set as \<longrightarrow> W' b = (W(a := s)) b)
      \<and> (\<forall>b \<in> set as. (\<exists>x. fn b ((W(a := s)) b) = Some (x, W' b) \<and> (e0 = None \<longrightarrow> x = None)) \<or> W' b = (W(a := s)) b \<and> e0 \<noteq> None)"
      using Cons.IH [OF r] Cons.prems(2) by simp
    have a: "W' a = s" using IH Cons.prems(2) by simp
    have "(\<exists>x. fn b (W b) = Some (x, W' b) \<and> (e = None \<longrightarrow> x = None)) \<or> W' b = W b \<and> e \<noteq> None" if "b \<in> set as" for b
    proof -
      have "b \<noteq> a" using that Cons.prems(2) by auto
      then have "(\<exists>x. fn b (W b) = Some (x, W' b) \<and> (e0 = None \<longrightarrow> x = None)) \<or> W' b = W b \<and> e0 \<noteq> None"
        using bspec [OF conjunct2 [OF IH] that] by simp
      then show ?thesis by (cases x) (auto simp: e)
    qed
    moreover have "\<exists>x. fn a (W a) = Some (x, W' a) \<and> (e = None \<longrightarrow> x = None)"
      using f a e by (auto split: option.splits)
    moreover have "W' b = W b" if "b \<notin> set (a # as)" for b using IH that by simp
    ultimately show ?thesis by simp
  qed
qed simp

text \<open>
  C33: an access grant that was registered is shown to the operator by the first node, if its store is
  the one it was registered with: for the access key with the decrypted grant and the API key in it,
  for the hash of the key with the record alone.
\<close>

theorem admin_sees_registered:
  assumes "badger_db (cn_db C a) view live" and "crypto (cn_auth C)"
    and "store_ok (db_proto (cn_db C a)) live (view s)" and "dialAddress C a = None"
    and "Database_Put (cn_auth C) (node_kv (cn_db C a) answers ctx now) allowed (Inr sk) key accessGrant public s = Some (Inr sk', t)"
    and "\<And>r. make_record (cn_auth C) allowed (Inr sk) key accessGrant public = Inr (sk, r) \<Longrightarrow> live (expiry (record_at now r))"
    and "length key = 16" and "key \<noteq> replicate 16 NUL" and "W a = t"
  shows "\<exists>pr acc. lib_ParseAccess (cn_auth C) accessGrant = Inr acc
    \<and> Admin_Get C (a # as) (key_ToBase32 key) W = Some (Some \<lparr>am_Record = pr, am_DecryptedAccessGrant = accessGrant,
        am_MacaroonHeadHex = hex_encode (ac_Head acc), am_APIKey = cn_serialize C acc\<rparr>, None)
    \<and> Admin_Get C (a # as) (key_hash_to_hex (key_Hash (cn_auth C) key)) W = Some (Some \<lparr>am_Record = pr,
        am_DecryptedAccessGrant = [], am_MacaroonHeadHex = hex_encode (ac_Head acc), am_APIKey = []\<rparr>, None)
    \<and> pb_SatelliteAddress pr = ac_SatelliteAddress acc \<and> pb_Public pr = public"
proof -
  let ?L = "cn_auth C" and ?D = "cn_db C a"
  have len: "length (key_Hash ?L key) = 32" using crypto.sha256_length [OF assms(2)] by (simp add: key_Hash_def)
  obtain r where r: "make_record ?L allowed (Inr sk) key accessGrant public = Inr (sk', r)"
    and put: "PutAtTime ?D ctx (key_Hash ?L key) r now s = Some (None, t)"
    using assms(5) by (auto simp: Database_Put_def node_kv_def split: sum.splits prod.splits option.splits)
  then obtain acc where acc: "lib_ParseAccess ?L accessGrant = Inr acc" "sk' = sk" "ar_MacaroonHead r = ac_Head acc"
      "ar_SatelliteAddress r = ac_SatelliteAddress acc" "ar_Public r = public"
      "lib_Encrypt ?L accessGrant (ToStorjKey key) grant_nonce = Inr (ar_EncryptedAccessGrant r)"
    by (auto simp: make_record_def split: sum.splits if_splits)
  have "lookupRecord ?D (key_Hash ?L key) t = Inr (record_at now r)"
    using badger_db.Put_lookup [OF assms(1) put _ len] assms(3,6) r acc(2) by (simp add: store_ok_def)
  then have peek: "node_Peek ?D (key_Hash ?L key) (W a) = Inr (record_at now r)"
    using assms(9) len by (simp add: node_Peek_def)
  have dec: "lib_Decrypt ?L (ar_EncryptedAccessGrant r) (ToStorjKey key) grant_nonce = Inr accessGrant"
    by (rule crypto.decrypt_encrypt [OF assms(2) acc(6)])
  have "Admin_Get C (a # as) (key_ToBase32 key) W = Some (Some \<lparr>am_Record = record_at now r,
      am_DecryptedAccessGrant = accessGrant, am_MacaroonHeadHex = hex_encode (ac_Head acc), am_APIKey = cn_serialize C acc\<rparr>, None)"
    using acc(1,3) assms(4,8) dec
    by (simp add: Admin_Get_def keyFromInput_text [OF assms(7)] withReplicationClient_def peek updateFromProto_def Let_def record_at_def)
  moreover have "Admin_Get C (a # as) (key_hash_to_hex (key_Hash ?L key)) W = Some (Some \<lparr>am_Record = record_at now r,
      am_DecryptedAccessGrant = [], am_MacaroonHeadHex = hex_encode (ac_Head acc), am_APIKey = []\<rparr>, None)"
    using acc(3) assms(4)
    by (simp add: Admin_Get_def keyFromInput_hash [OF len] withReplicationClient_def peek updateFromProto_def Let_def record_at_def)
  ultimately show ?thesis using acc by (auto simp: record_at_def)
qed

definition demo_cluster :: "(unit, (bytes \<times> bytes) list) cluster" where
  "demo_cluster = \<lparr>cn_certs = \<lparr>fe_ReadDir = (\<lambda>_. Inr []), fe_ReadFile = (\<lambda>_. Inr []), fe_ValidPEM = (\<lambda>_. True),
       fe_LoadKeyPair = (\<lambda>_ _. Inr ())\<rparr>, cn_certsDir = [], cn_insecureDisableTLS = True, cn_connect = (\<lambda>_ a. None),
     cn_db = (\<lambda>_. demo_db), cn_ctx = (\<lambda>_. None), cn_now = 7, cn_auth = demo_lib, cn_serialize = ac_Head\<rparr>"

lemma demo_cluster_simps:
  "cn_db demo_cluster a = demo_db" "cn_auth demo_cluster = demo_lib" "cn_ctx demo_cluster = (\<lambda>_. None)"
  "dialAddress demo_cluster a = None"
  by (simp_all add: demo_cluster_def dialAddress_def)

lemma admin_sees_registered_witness:
  "\<exists>t r. Database_Put demo_lib demo_kv {demo_url} (Inr (replicate 32 CHR ''s'')) (replicate 16 CHR ''k'') ''grant'' True []
      = Some (Inr (replicate 32 CHR ''s''), t)
    \<and> Admin_Get demo_cluster [''node''] (key_ToBase32 (replicate 16 CHR ''k'')) (\<lambda>_. t) = Some (Some r, None)
    \<and> am_DecryptedAccessGrant r = ''grant'' \<and> am_APIKey r = ''head''"
proof -
  obtain t where t: "Database_Put demo_lib demo_kv {demo_url} (Inr (replicate 32 CHR ''s'')) (replicate 16 CHR ''k'') ''grant'' True []
      = Some (Inr (replicate 32 CHR ''s''), t)"
    and live: "\<forall>r. make_record demo_lib {demo_url} (Inr (replicate 32 CHR ''s'')) (replicate 16 CHR ''k'') ''grant'' True =
      Inr (replicate 32 CHR ''s'', r) \<longrightarrow> unexpired 1000 (expiry (record_at 7 r))"
    using demo_database_put by blast
  have zero: "replicate 16 CHR ''k'' \<noteq> replicate 16 NUL" by (simp add: replicate_eq_replicate)
  have c: "crypto (cn_auth demo_cluster)" unfolding demo_cluster_simps by (rule demo_lib.crypto_axioms)
  have s: "store_ok (db_proto (cn_db demo_cluster ''node'')) (unexpired 1000) (list_view [])"
    unfolding demo_cluster_simps by (rule store_ok_Nil)
  obtain pr acc where "lib_ParseAccess demo_lib ''grant'' = Inr acc"
    "Admin_Get demo_cluster [''node''] (key_ToBase32 (replicate 16 CHR ''k'')) (\<lambda>_. t) = Some (Some \<lparr>am_Record = pr,
       am_DecryptedAccessGrant = ''grant'', am_MacaroonHeadHex = hex_encode (ac_Head acc), am_APIKey = cn_serialize demo_cluster acc\<rparr>, None)"
    using admin_sees_registered [of demo_cluster "''node''" list_view "unexpired 1000" "[]" "[]" "\<lambda>_. None" 7 "{demo_url}"
        "replicate 32 CHR ''s''" "replicate 16 CHR ''k''" "''grant''" True "replicate 32 CHR ''s''" t "\<lambda>_. t" "[]"]
      demo_ok c s t live zero unfolding demo_cluster_simps by auto
  then show ?thesis using t by (auto simp: demo_lib_def demo_cluster_def)
qed

text \<open>
  Deleting with the administration client, when it succeeds, has deleted the record from every
  node of the list; when it fails, every node has either deleted it or kept its store as it was.
  No other record of any node and no node outside the list is touched.
\<close>

lemma admin_deletes_everywhere:
  assumes "\<And>a. a \<in> set addresses \<Longrightarrow> badger_db (cn_db C a) view live"
    and "\<And>a. a \<in> set addresses \<Longrightarrow> store_ok (db_proto (cn_db C a)) live (view (W a))"
    and "distinct addresses" and "keyFromInput (cn_auth C) input = Some (Inr (kh, k))" and "plain_hash kh"
    and "Admin_Delete C addresses input W = Some (e, W')"
  shows "(e = None \<longrightarrow> addresses \<noteq> [] \<and> (\<forall>a \<in> set addresses. Get (cn_db C a) kh (W' a) = Inr None))
    \<and> (\<forall>a \<in> set addresses. Get (cn_db C a) kh (W' a) = Inr None \<or> view (W' a) = view (W a))
    \<and> (\<forall>a \<in> set addresses. \<forall>h. length h = 32 \<and> h \<noteq> kh \<longrightarrow> Get (cn_db C a) h (W' a) = Get (cn_db C a) h (W a))
    \<and> (\<forall>a. a \<notin> set addresses \<longrightarrow> W' a = W a)"
proof (cases "addresses = []")
  case True
  then show ?thesis using assms(4,6) by (auto simp: Admin_Delete_def admin_call_def withAdminClient_def wrap_opt_def)
next
  case False
  let ?fn = "\<lambda>a s. map_option (\<lambda>(e, t). (map_option (Detail ''delete record'') e, t)) (DeleteRecord (cn_db C a) (cn_ctx C) kh s)"
  obtain e0 where run: "run_admin C ?fn addresses W = Some (e0, W')" and e: "e = wrap_opt AuthAdminClientError e0"
    using False assms(4,6) by (auto simp: Admin_Delete_def admin_call_def withAdminClient_def)
  note each = run_admin_each [OF run assms(3)]
  have len: "length kh = 32" using assms(5) by simp
  have one: "(e = None \<longrightarrow> Get (cn_db C a) kh (W' a) = Inr None)
      \<and> (Get (cn_db C a) kh (W' a) = Inr None \<or> view (W' a) = view (W a))
      \<and> (\<forall>h. length h = 32 \<and> h \<noteq> kh \<longrightarrow> Get (cn_db C a) h (W' a) = Get (cn_db C a) h (W a))" if a: "a \<in> set addresses" for a
  proof -
    note ok = assms(1) [OF a] and logs = assms(2) [OF a, unfolded store_ok_def]
    consider (gone) "view (W' a) = deleted kh (view (W a))" | (kept) "view (W' a) = view (W a)" "e \<noteq> None"
    proof -
      consider x where "?fn a (W a) = Some (x, W' a)" "e0 = None \<longrightarrow> x = None" | "W' a = W a" "e0 \<noteq> None"
        using each a by blast
      then show thesis
      proof cases
        case 1
        then obtain y where y: "DeleteRecord (cn_db C a) (cn_ctx C) kh (W a) = Some (y, W' a)" "e0 = None \<longrightarrow> y = None" by auto
        from badger_db.DeleteRecord_outcome [OF ok y(1) _ assms(5)] logs y(2) e that show thesis
          by (cases "y = None") auto
      qed (use e that in auto)
    qed
    then show ?thesis
    proof cases
      case gone
      then show ?thesis using badger_db.Get_deleted [OF ok len gone] by simp
    next
      case kept
      have "Get (cn_db C a) h (W' a) = Get (cn_db C a) h (W a)" if "length h = 32" for h
        by (rule badger_db.Get_cong [OF ok that]) (simp add: kept)
      with kept show ?thesis by auto
    qed
  qed
  then show ?thesis using each False by simp
qed

lemma admin_deletes_everywhere_witness:
  "\<exists>s W'. Get demo_db demo_hash s \<noteq> Inr None
    \<and> Admin_Delete demo_cluster [''node''] (key_hash_to_hex demo_hash) (\<lambda>_. s) = Some (None, W')
    \<and> Get demo_db demo_hash (W' ''node'') = Inr None \<and> W' ''other'' = s"
proof -
  obtain s where s: "PutAtTime demo_db (\<lambda>_. None) demo_hash demo_record 7 [] = Some (None, s)" by (rule demo_put)
  have ok: "store_ok (db_proto demo_db) (unexpired 1000) (list_view s)" by (rule demo_store_ok [OF s])
  have "list_view s demo_hash \<noteq> None" using demo_record_of [OF s] by (auto simp: record_of_def split: option.splits)
  then obtain s' where "deleteRecord demo_db (\<lambda>_. None) demo_hash s = Some (None, s')"
    by (rule badger_db_total.deleteRecord_total [OF demo_total]) (use ok in \<open>simp_all add: store_ok_def\<close>)
  then have d: "DeleteRecord demo_db (\<lambda>_. None) demo_hash s = Some (None, s')" by (simp add: DeleteRecord_def errToRPCStatusErr_None)
  have len: "length demo_hash = 32" using demo_hash_plain by simp
  have run: "Admin_Delete demo_cluster [''node''] (key_hash_to_hex demo_hash) (\<lambda>_. s) = Some (None, (\<lambda>_. s)(''node'' := s'))"
    using d by (simp add: Admin_Delete_def admin_call_def demo_cluster_simps keyFromInput_hash [OF len] withAdminClient_def)
  have "Get demo_db demo_hash (((\<lambda>_. s)(''node'' := s')) ''node'') = Inr None"
    using admin_deletes_everywhere [OF _ _ _ keyFromInput_hash [OF len] demo_hash_plain(1) run, of list_view "unexpired 1000"] demo_ok ok
    by (simp add: demo_cluster_simps)
  moreover have "Get demo_db demo_hash s \<noteq> Inr None"
    using Get_record_of [OF demo_ok _ demo_record_of [OF s]] by (simp add: record_at_def)
  ultimately show ?thesis using run by auto
qed

subsection \<open>Who may talk to a node\<close>

text \<open>The files of the directory that are certificates of a kind.\<close>

definition cert_files :: "(string \<times> bool) list \<Rightarrow> string set \<Rightarrow> string set" where
  "cert_files entries kinds =
     {name. (name, False) \<in> set entries \<and> path_ext name = ''.crt'' \<and> hd (split_on CHR ''.'' name) \<in> kinds}"

lemma load_entry_ok:
  assumes "load_entry F dir entry config = Inr c"
  shows "nt_RequireAndVerifyClientCert c = nt_RequireAndVerifyClientCert config
    \<and> set (nt_RootCAs c) = set (nt_RootCAs config) \<union> {pem. \<exists>name \<in> cert_files [entry] {''ca''}. fe_ReadFile F (path_join [dir, name]) = Inr pem}
    \<and> (nt_ClientCAs config = nt_RootCAs config \<longrightarrow> nt_ClientCAs c = nt_RootCAs c)
    \<and> cert_files [entry] (- {''ca'', ''node'', ''client''}) = {}"
proof (cases entry)
  case (Pair name isdir)
  then show ?thesis using assms
    by (cases isdir) (auto simp: load_entry_def Let_def cert_files_def split: if_splits sum.splits)
qed

lemma cert_files_Cons: "cert_files (e # es) kinds = cert_files [e] kinds \<union> cert_files es kinds"
  by (auto simp: cert_files_def)

lemma load_entries_ok:
  "load_entries F dir es config = Inr c \<Longrightarrow>
    nt_RequireAndVerifyClientCert c = nt_RequireAndVerifyClientCert config
    \<and> set (nt_RootCAs c) = set (nt_RootCAs config) \<union> {pem. \<exists>name \<in> cert_files es {''ca''}. fe_ReadFile F (path_join [dir, name]) = Inr pem}
    \<and> (nt_ClientCAs config = nt_RootCAs config \<longrightarrow> nt_ClientCAs c = nt_RootCAs c)
    \<and> cert_files es (- {''ca'', ''node'', ''client''}) = {}"
proof (induction es arbitrary: config)
  case Nil
  then show ?case by (simp add: cert_files_def)
next
  case (Cons e es)
  then obtain c1 where c1: "load_entry F dir e config = Inr c1" and c: "load_entries F dir es c1 = Inr c" by (auto split: sum.splits)
  show ?case using load_entry_ok [OF c1] Cons.IH [OF c] unfolding cert_files_Cons [of e es] by auto
qed

text \<open>
  Whatever the directory holds, a configuration that is loaded requires and verifies the
  certificates of clients; it trusts exactly the authorities of the files named \<open>ca\<close>, the same ones
  for servers and for clients; and it is not loaded if a certificate has any other name than that of
  an authority, a node or a client.  Without a directory nobody is trusted.
\<close>

lemma node_tls_is_mutual:
  assumes "TLSOptions_Load F dir = Inr c"
  shows "nt_RequireAndVerifyClientCert c \<and> nt_ClientCAs c = nt_RootCAs c
    \<and> (case dir of [] \<Rightarrow> nt_RootCAs c = [] \<and> nt_Certificates c = []
       | _ # _ \<Rightarrow> \<exists>entries. fe_ReadDir F dir = Inr entries \<and> cert_files entries (- {''ca'', ''node'', ''client''}) = {}
          \<and> set (nt_RootCAs c) = {pem. \<exists>name \<in> cert_files entries {''ca''}. fe_ReadFile F (path_join [dir, name]) = Inr pem})"
proof (cases dir)
  case Nil
  then show ?thesis using assms by (auto simp: TLSOptions_Load_def empty_tls_def)
next
  case (Cons x xs)
  then obtain entries where "fe_ReadDir F dir = Inr entries" and l: "load_entries F dir entries empty_tls = Inr c"
    using assms by (auto simp: TLSOptions_Load_def split: sum.splits)
  with load_entries_ok [OF l] show ?thesis by (simp add: Cons empty_tls_def)
qed

definition demo_certs :: "nat cert_env" where
  "demo_certs = \<lparr>fe_ReadDir = (\<lambda>_. Inr [(''ca.crt'', False), (''ca.key'', False), (''node.crt'', False), (''old'', True)]),
     fe_ReadFile = (\<lambda>f. Inr f), fe_ValidPEM = (\<lambda>_. True), fe_LoadKeyPair = (\<lambda>c k. Inr (length k))\<rparr>"

lemma node_tls_is_mutual_witness:
  "\<exists>c. TLSOptions_Load demo_certs ''/certs'' = Inr c \<and> nt_RootCAs c = [''/certs/ca.crt''] \<and> nt_RequireAndVerifyClientCert c
    \<and> nt_ClientCAs c = nt_RootCAs c"
proof -
  have c: "TLSOptions_Load demo_certs ''/certs'' = Inr \<lparr>nt_RootCAs = [''/certs/ca.crt''], nt_ClientCAs = [''/certs/ca.crt''],
      nt_Certificates = [15], nt_RequireAndVerifyClientCert = True\<rparr>"
    unfolding demo_certs_def by code_simp
  from node_tls_is_mutual [OF c] c show ?thesis by auto
qed

end
