(* ===== verification/Servers.thy ===== *)
theory Servers
  imports GoHttp GoPath NodeList
begin

section \<open>The HTTP servers and their certificates (pkg/httpserver/server.go, pkg/auth/tls.go, pkg/gpublicca)\<close>

text \<open>
  How a server is configured for TLS, listens, runs and shuts down.  The file system, key pairs, the
  certificate storage, the ports of services, listening and the management of certificates by
  certmagic are the parameter \<open>tls_env\<close>; the addresses of Let's Encrypt are constants of certmagic,
  parameters too.  A TLS configuration is the settings the code makes; a handler, a log and a
  monitoring event have no effect here.
\<close>

subsection \<open>Configurations\<close>

record 'c tls_cfg =
  tc_NextProtos :: "string list"
  tc_MinVersion :: int
  tc_SessionTicketsDisabled :: bool
  tc_Certificates :: "'c list"
  tc_GetCertificate :: bool

record dns_solver =
  ds_Project :: string
  ds_ServiceAccountJSON :: string
  ds_OverrideDomain :: string

record acme_issuer =
  ai_google :: bool
  ai_CA :: string
  ai_Email :: string
  ai_Agreed :: bool
  ai_DisableHTTPChallenge :: bool
  ai_AltTLSALPNPort :: int
  ai_DNS01Solver :: "dns_solver option"
  ai_Resolver :: string
  ai_TrustedRoots :: "bytes option"

record magic_config =
  mg_Issuers :: "acme_issuer list"
  mg_OnDemand :: bool

record test_issuer =
  ti_CA :: string
  ti_CertificatePath :: string
  ti_Resolver :: string

record tls_options =
  to_CertMagic :: bool
  to_CertMagicKeyFile :: string
  to_DNSChallenge :: bool
  to_DNSProject :: string
  to_OverrideDomain :: string
  to_CertMagicEmail :: string
  to_TestIssuer :: "test_issuer option"
  to_Staging :: bool
  to_Bucket :: string
  to_PublicURLs :: "string list"
  to_CertDir :: string
  to_CertFile :: string
  to_KeyFile :: string

record 'c tls_env =
  te_ReadFile :: "string \<Rightarrow> err + bytes"
  te_NewGCS :: "bytes \<Rightarrow> string \<Rightarrow> err option"
  te_LookupPort :: "string \<Rightarrow> err + int"
  te_Glob :: "string \<Rightarrow> err + string list"
  te_Stat :: "string \<Rightarrow> err option"
  te_LoadKeyPair :: "string \<Rightarrow> string \<Rightarrow> err + 'c"
  te_ManageSync :: "magic_config \<Rightarrow> string list \<Rightarrow> err option"
  te_LetsEncryptProductionCA :: string
  te_LetsEncryptStagingCA :: string
  te_Listen :: "string \<Rightarrow> err option"

subsection \<open>Certificates (configureTLS, loadCertsFromDir, configureCertMagic)\<close>

definition BaseTLSConfig :: "'c tls_cfg" where
  "BaseTLSConfig = \<lparr>tc_NextProtos = [''h2'', ''http/1.1''], tc_MinVersion = 0x0303, tc_SessionTicketsDisabled = True,
     tc_Certificates = [], tc_GetCertificate = False\<rparr>"

fun load_certs :: "'c tls_env \<Rightarrow> string list \<Rightarrow> err + 'c list" where
  "load_certs E [] = Inr []"
| "load_certs E (crt # crts) =
     (let key = take (length crt - 4) crt @ ''.key''
      in case te_Stat E key of
           Some e \<Rightarrow> Inl (Message ''unable to locate key for cert'')
         | None \<Rightarrow>
             (case te_LoadKeyPair E crt key of
                Inl e \<Rightarrow> Inl (Message ''unable to load server keypair'')
              | Inr cert \<Rightarrow> (case load_certs E crts of Inl e \<Rightarrow> Inl e | Inr cs \<Rightarrow> Inr (cert # cs))))"

definition loadCertsFromDir :: "'c tls_env \<Rightarrow> string \<Rightarrow> err + 'c list" where
  "loadCertsFromDir E configDir =
     (case te_Glob E (path_join [configDir, ''*.crt'']) of
        Inl e \<Rightarrow> Inl (Message ''Error reading certificate directory'')
      | Inr certFiles \<Rightarrow> load_certs E certFiles)"

text \<open>The port of an address.\<close>

definition port_of :: "'c tls_env \<Rightarrow> string \<Rightarrow> err + int" where
  "port_of E address =
     (case SplitHostPort address of
        HostPort _ \<Rightarrow> te_LookupPort E (drop (nat (last_index CHR '':'' address) + 1) address)
      | MissingPort \<Rightarrow> Inl (Message ''missing port in address'')
      | BadAddr m \<Rightarrow> Inl (Message m))"

definition GooglePublicCAProduction :: string where
  "GooglePublicCAProduction = ''https://dv.acme-v02.api.pki.goog/directory''"

definition GooglePublicCAStaging :: string where
  "GooglePublicCAStaging = ''https://dv.acme-v02.test-api.pki.goog/directory''"

text \<open>
  The configuration, and that of certmagic: its issuers in the order in which they are tried, and
  whether certificates are obtained on demand, which \<open>decides\<close> (there is a decision function) says.
\<close>

definition configureCertMagic :: "'c tls_env \<Rightarrow> bool \<Rightarrow> string \<Rightarrow> tls_options \<Rightarrow> err + 'c tls_cfg \<times> magic_config" where
  "configureCertMagic E decides addressTLS c =
     (case te_ReadFile E (to_CertMagicKeyFile c) of
        Inl e \<Rightarrow> Inl (Message ''unable to read cert-magic-key-file'')
      | Inr jsonKey \<Rightarrow>
          (case te_NewGCS E jsonKey (to_Bucket c) of
             Some e \<Rightarrow> Inl (Message ''initializing certstorage'')
           | None \<Rightarrow>
               (case port_of E addressTLS of
                  Inl e \<Rightarrow> Inl e
                | Inr port \<Rightarrow>
                    let solver = (if to_DNSChallenge c
                          then Some \<lparr>ds_Project = to_DNSProject c, ds_ServiceAccountJSON = to_CertMagicKeyFile c,
                            ds_OverrideDomain = to_OverrideDomain c\<rparr> else None);
                        issuer = (\<lambda>google ca. \<lparr>ai_google = google, ai_CA = ca, ai_Email = to_CertMagicEmail c, ai_Agreed = True,
                          ai_DisableHTTPChallenge = True, ai_AltTLSALPNPort = port, ai_DNS01Solver = solver, ai_Resolver = [],
                          ai_TrustedRoots = None\<rparr>);
                        tlsConfig = BaseTLSConfig\<lparr>tc_GetCertificate := True\<rparr>;
                        tlsConfig = (if to_DNSChallenge c then tlsConfig
                          else tlsConfig\<lparr>tc_NextProtos := tc_NextProtos tlsConfig @ [''acme-tls/1'']\<rparr>);
                        finish = (\<lambda>issuers. let magic = \<lparr>mg_Issuers = issuers, mg_OnDemand = decides\<rparr>
                          in case te_ManageSync E magic (to_PublicURLs c) of
                               Some e \<Rightarrow> Inl e | None \<Rightarrow> Inr (tlsConfig, magic))
                    in case to_TestIssuer c of
                         None \<Rightarrow>
                           finish [issuer True (if to_Staging c then GooglePublicCAStaging else GooglePublicCAProduction),
                                   issuer False (if to_Staging c then te_LetsEncryptStagingCA E else te_LetsEncryptProductionCA E)]
                       | Some t \<Rightarrow>
                           (case te_ReadFile E (ti_CertificatePath t) of
                              Inl e \<Rightarrow> Inl e
                            | Inr caCert \<Rightarrow>
                                finish [(issuer False (ti_CA t))\<lparr>ai_DNS01Solver := None, ai_Resolver := ti_Resolver t,
                                  ai_TrustedRoots := Some caCert\<rparr>]))))"

text \<open>No configuration (\<open>Inr None\<close>) means that the server does not serve TLS.\<close>

definition key_pair_files :: "string \<Rightarrow> string \<Rightarrow> err + bool" where
  "key_pair_files certFile keyFile =
     (if certFile \<noteq> [] \<and> keyFile \<noteq> [] then Inr True
      else if certFile = [] \<and> keyFile = [] then Inr False
      else if certFile \<noteq> [] \<and> keyFile = [] then Inl (Message ''key file must be provided with cert file'')
      else Inl (Message ''cert file must be provided with key file''))"

definition configureTLS :: "'c tls_env \<Rightarrow> bool \<Rightarrow> string \<Rightarrow> tls_options option \<Rightarrow> err + ('c tls_cfg \<times> magic_config option) option" where
  "configureTLS E decides addressTLS opts =
     (case opts of
        None \<Rightarrow> Inr None
      | Some c \<Rightarrow>
          if to_CertMagic c then
            (if to_CertMagicEmail c = [] then Inl (Message ''cert-magic.email must be provided when cert-magic is enabled'')
             else case configureCertMagic E decides addressTLS c of Inl e \<Rightarrow> Inl e | Inr (cfg, magic) \<Rightarrow> Inr (Some (cfg, Some magic)))
          else if to_CertDir c \<noteq> [] then
            (case loadCertsFromDir E (to_CertDir c) of
               Inl e \<Rightarrow> Inl e
             | Inr certs \<Rightarrow> Inr (Some (BaseTLSConfig\<lparr>tc_Certificates := certs\<rparr>, None)))
          else case key_pair_files (to_CertFile c) (to_KeyFile c) of
                 Inl e \<Rightarrow> Inl e
               | Inr False \<Rightarrow> Inr None
               | Inr True \<Rightarrow>
                   (case te_LoadKeyPair E (to_CertFile c) (to_KeyFile c) of
                      Inl e \<Rightarrow> Inl (Message ''unable to load server keypair'')
                    | Inr cert \<Rightarrow> Inr (Some (BaseTLSConfig\<lparr>tc_Certificates := [cert]\<rparr>, None))))"

subsection \<open>The server (New, Run, Shutdown)\<close>

definition DefaultShutdownTimeout :: int where
  "DefaultShutdownTimeout = 10000000000"

record server_config =
  sc_Name :: string
  sc_Address :: string
  sc_AddressTLS :: string
  sc_TrafficLogging :: bool
  sc_TLSConfig :: "tls_options option"
  sc_ShutdownTimeout :: int
  sc_CheckEnabled :: bool
  sc_CheckSatellites :: "string list"
  sc_CheckTimeout :: int

record 'c http_server =
  hs_name :: string
  hs_listener :: string
  hs_listenerTLS :: "string option"
  hs_tlsConfig :: "'c tls_cfg option"
  hs_shutdownTimeout :: int
  hs_startupCheck :: "node_check option"
  hs_trafficLogging :: bool

text \<open>The result, and the addresses of the listeners that have been opened, the latest first.\<close>

definition NewServer :: "'c tls_env \<Rightarrow> 'i check_env \<Rightarrow> bool \<Rightarrow> bool \<Rightarrow> server_config \<Rightarrow> (err + 'c http_server) \<times> string list" where
  "NewServer E I has_handler decides config =
     (if sc_Address config = [] then (Inl (Message ''server address is required''), [])
      else if \<not> has_handler then (Inl (Message ''server handler is required''), [])
      else case configureTLS E decides (sc_AddressTLS config) (sc_TLSConfig config) of
             Inl e \<Rightarrow> (Inl e, [])
           | Inr tls \<Rightarrow>
               (case te_Listen E (sc_Address config) of
                  Some e \<Rightarrow> (Inl (Message ''unable to listen''), [])
                | None \<Rightarrow>
                    (case (if tls = None then None else te_Listen E (sc_AddressTLS config)) of
                       Some e \<Rightarrow> (Inl (Message ''unable to listen''), [sc_Address config])
                     | None \<Rightarrow>
                         let opened = (if tls = None then [sc_Address config] else [sc_AddressTLS config, sc_Address config]);
                             timeout = (if sc_ShutdownTimeout config = 0 then DefaultShutdownTimeout else sc_ShutdownTimeout config)
                         in case (if sc_CheckEnabled config
                                  then case NewNodeURLCheck I \<lparr>cc_NodeURLs = sc_CheckSatellites config, cc_Timeout = sc_CheckTimeout config,
                                              cc_CertPath = [], cc_KeyPath = []\<rparr> of Inl e \<Rightarrow> Inl e | Inr c \<Rightarrow> Inr (Some c)
                                  else Inr None) of
                              Inl e \<Rightarrow> (Inl e, opened)
                            | Inr check \<Rightarrow>
                                (Inr \<lparr>hs_name = sc_Name config, hs_listener = sc_Address config,
                                   hs_listenerTLS = (if tls = None then None else Some (sc_AddressTLS config)),
                                   hs_tlsConfig = map_option fst tls, hs_shutdownTimeout = timeout,
                                   hs_startupCheck = check, hs_trafficLogging = sc_TrafficLogging config\<rparr>, opened))))"

text \<open>
  An \<open>errgroup\<close>: its tasks with what they return, in the order in which they return.  \<open>Wait\<close> has a
  result, the first error, when every task of the group has returned.
\<close>

fun first_error :: "('t \<times> err option) list \<Rightarrow> err option" where
  "first_error [] = None"
| "first_error ((t, e) # ts) = (case e of Some x \<Rightarrow> Some x | None \<Rightarrow> first_error ts)"

definition group_wait :: "'t list \<Rightarrow> ('t \<times> err option) list \<Rightarrow> err option option" where
  "group_wait tasks returned =
     (if set tasks \<subseteq> fst ` set returned then Some (first_error (filter (\<lambda>r. fst r \<in> set tasks) returned)) else None)"

text \<open>
  \<open>Run\<close>: \<open>check\<close> is the outcome of the check at the start, \<open>served\<close> what the \<open>Serve\<close> calls have returned so
  far.  There is no result as long as \<open>Run\<close> has not returned.
\<close>

datatype server_task = ServeHTTP | ServeHTTPS

definition serve_result :: "err \<Rightarrow> err option" where
  "serve_result e = (if is_err HttpServerClosed e then None else Some e)"

definition server_tasks :: "'c http_server \<Rightarrow> server_task list" where
  "server_tasks s = (if hs_tlsConfig s = None then [ServeHTTP] else [ServeHTTP, ServeHTTPS])"

definition server_Run :: "'c http_server \<Rightarrow> (node_check \<Rightarrow> err option) \<Rightarrow> (server_task \<times> err) list \<Rightarrow> err option option" where
  "server_Run s check served =
     (case (case hs_startupCheck s of None \<Rightarrow> None | Some c \<Rightarrow> check c) of
        Some e \<Rightarrow> Some (Some e)
      | None \<Rightarrow> group_wait (server_tasks s) (map (\<lambda>(t, e). (t, serve_result e)) served))"

text \<open>\<open>Shutdown\<close>: what closing each server and shutting it down within a time return are arguments.\<close>

definition shutdownWithTimeout :: "err option \<Rightarrow> (int \<Rightarrow> err option) \<Rightarrow> int \<Rightarrow> err option" where
  "shutdownWithTimeout close shutdown timeout = (if timeout < 0 then close else shutdown timeout)"

definition server_Shutdown :: "'c http_server \<Rightarrow> (server_task \<Rightarrow> err option) \<Rightarrow> (server_task \<Rightarrow> int \<Rightarrow> err option)
    \<Rightarrow> server_task list \<Rightarrow> err option option" where
  "server_Shutdown s close shutdown ended =
     group_wait (server_tasks s) (map (\<lambda>t. (t, shutdownWithTimeout (close t) (shutdown t) (hs_shutdownTimeout s))) ended)"

subsection \<open>What a configuration of TLS offers\<close>

definition base_settings :: "'c tls_cfg \<Rightarrow> bool" where
  "base_settings cfg \<longleftrightarrow> tc_MinVersion cfg = 0x0303 \<and> tc_SessionTicketsDisabled cfg \<and> ''h2'' \<in> set (tc_NextProtos cfg)"

text \<open>
  An issuer hands out a certificate only when a challenge succeeds: one through DNS, or, as the HTTP
  challenge is off, the one that needs the protocol \<open>acme-tls/1\<close> of the listener.
\<close>

definition can_obtain :: "'c tls_cfg \<Rightarrow> acme_issuer \<Rightarrow> bool" where
  "can_obtain cfg i \<longleftrightarrow> ai_DNS01Solver i \<noteq> None \<or> \<not> ai_DisableHTTPChallenge i \<or> ''acme-tls/1'' \<in> set (tc_NextProtos cfg)"

lemma base_settings_base:
  "base_settings BaseTLSConfig" "base_settings (c\<lparr>tc_Certificates := x\<rparr>) = base_settings c"
  "base_settings (c\<lparr>tc_GetCertificate := b\<rparr>) = base_settings c"
  "base_settings c \<Longrightarrow> base_settings (c\<lparr>tc_NextProtos := tc_NextProtos c @ ps\<rparr>)"
  by (auto simp: base_settings_def BaseTLSConfig_def)

lemma configureCertMagic_Inr:
  assumes "configureCertMagic E decides addr c = Inr (cfg, magic)"
  shows "base_settings cfg \<and> tc_GetCertificate cfg \<and> mg_OnDemand magic = decides \<and> mg_Issuers magic \<noteq> []
    \<and> (\<forall>i \<in> set (mg_Issuers magic). ai_Agreed i \<and> ai_Email i = to_CertMagicEmail c
         \<and> (can_obtain cfg i \<longleftrightarrow> \<not> (to_DNSChallenge c \<and> to_TestIssuer c \<noteq> None)))"
  using assms
  by (auto simp: configureCertMagic_def Let_def can_obtain_def base_settings_base BaseTLSConfig_def base_settings_def
      split: sum.splits option.splits if_splits)

lemma load_certs_length:
  "load_certs E crts = Inr cs \<Longrightarrow> length cs = length crts"
  by (induction crts arbitrary: cs) (auto simp: Let_def split: option.splits sum.splits)

lemma loadCertsFromDir_Inr:
  "loadCertsFromDir E dir = Inr cs \<Longrightarrow> \<exists>files. te_Glob E (path_join [dir, ''*.crt'']) = Inr files \<and> length cs = length files"
  by (auto simp: loadCertsFromDir_def load_certs_length split: sum.splits)

text \<open>
  C34: whatever way TLS is configured, connections below TLS 1.2 and session tickets are refused and
  HTTP/2 is offered.  With certmagic there is an issuer, under the e-mail address that is required, and
  each issuer can obtain a certificate, with one exception: a test issuer under the DNS challenge has no
  solver, and the only other challenge that is not disabled is not offered.  Without certmagic there is
  a certificate, unless a directory is configured that has no file named \<open>*.crt\<close>: then there is none,
  and the server cannot serve TLS with this configuration.
\<close>

theorem tls_configuration:
  assumes "configureTLS E decides addr (Some c) = Inr (Some (cfg, magic))"
  shows "base_settings cfg \<and>
    (case magic of
       Some m \<Rightarrow> to_CertMagic c \<and> to_CertMagicEmail c \<noteq> [] \<and> tc_GetCertificate cfg \<and> mg_OnDemand m = decides
         \<and> mg_Issuers m \<noteq> []
         \<and> (\<forall>i \<in> set (mg_Issuers m). ai_Agreed i \<and> ai_Email i = to_CertMagicEmail c
              \<and> (can_obtain cfg i \<longleftrightarrow> \<not> (to_DNSChallenge c \<and> to_TestIssuer c \<noteq> None)))
     | None \<Rightarrow> \<not> to_CertMagic c \<and> \<not> tc_GetCertificate cfg
         \<and> (tc_Certificates cfg = [] \<longleftrightarrow> to_CertDir c \<noteq> [] \<and> te_Glob E (path_join [to_CertDir c, ''*.crt'']) = Inr []))"
proof (cases "to_CertMagic c")
  case True
  with assms obtain m where m: "magic = Some m" "to_CertMagicEmail c \<noteq> []"
      "configureCertMagic E decides addr c = Inr (cfg, m)"
    by (auto simp: configureTLS_def split: sum.splits if_splits)
  with True configureCertMagic_Inr [OF m(3)] show ?thesis by simp
next
  case False
  show ?thesis
  proof (cases "to_CertDir c = []")
    case True
    with False assms show ?thesis
      by (auto simp: configureTLS_def key_pair_files_def base_settings_base BaseTLSConfig_def base_settings_def
          split: sum.splits bool.splits if_splits)
  next
    case dir: False
    with False assms obtain certs where certs: "loadCertsFromDir E (to_CertDir c) = Inr certs"
        "cfg = BaseTLSConfig\<lparr>tc_Certificates := certs\<rparr>" "magic = None"
      by (auto simp: configureTLS_def split: sum.splits)
    from loadCertsFromDir_Inr [OF certs(1)] obtain files where
      "te_Glob E (path_join [to_CertDir c, ''*.crt'']) = Inr files" "length certs = length files" by blast
    with certs(2,3) False dir show ?thesis
      by (auto simp: base_settings_base) (simp_all add: BaseTLSConfig_def)
  qed
qed

definition demo_tls_env :: "nat tls_env" where
  "demo_tls_env = \<lparr>te_ReadFile = (\<lambda>f. Inr f), te_NewGCS = (\<lambda>k b. None), te_LookupPort = (\<lambda>p. Inr 443),
     te_Glob = (\<lambda>p. Inr []), te_Stat = (\<lambda>p. None), te_LoadKeyPair = (\<lambda>c k. Inr 7), te_ManageSync = (\<lambda>m us. None),
     te_LetsEncryptProductionCA = ''le'', te_LetsEncryptStagingCA = ''les'',
     te_Listen = (\<lambda>a. if a = '':20011'' then Some (Message ''in use'') else None)\<rparr>"

definition demo_tls_options :: tls_options where
  "demo_tls_options = \<lparr>to_CertMagic = True, to_CertMagicKeyFile = ''key.json'', to_DNSChallenge = True, to_DNSProject = ''p'',
     to_OverrideDomain = [], to_CertMagicEmail = ''a@b'', to_TestIssuer = Some \<lparr>ti_CA = ''pebble'', ti_CertificatePath = ''ca'',
     ti_Resolver = []\<rparr>, to_Staging = False, to_Bucket = ''certs'', to_PublicURLs = [''gw.x''], to_CertDir = [],
     to_CertFile = [], to_KeyFile = []\<rparr>"

lemma demo_tls_configured:
  "\<exists>cfg m i. configureTLS demo_tls_env False ''h:443'' (Some demo_tls_options) = Inr (Some (cfg, Some m)) \<and> mg_Issuers m = [i]"
  by (simp add: configureTLS_def configureCertMagic_def demo_tls_env_def demo_tls_options_def Let_def port_of_def
      SplitHostPort_def last_index_def)

theorem tls_configuration_witness:
  "\<exists>cfg m i. configureTLS demo_tls_env False ''h:443'' (Some demo_tls_options) = Inr (Some (cfg, Some m)) \<and> base_settings cfg
     \<and> mg_Issuers m = [i] \<and> \<not> can_obtain cfg i"
proof -
  obtain cfg m i where c: "configureTLS demo_tls_env False ''h:443'' (Some demo_tls_options) = Inr (Some (cfg, Some m))"
    and i: "mg_Issuers m = [i]" using demo_tls_configured by blast
  from tls_configuration [OF c] i have "base_settings cfg" "\<not> can_obtain cfg i"
    by (auto simp: demo_tls_options_def)
  with c i show ?thesis by blast
qed

subsection \<open>Which sockets are open, and when the server has ended\<close>

lemma NewServer_cases:
  assumes "NewServer E I has_handler decides config = (r, opened)"
  shows "(\<exists>s. r = Inr s \<and> set opened = {hs_listener s} \<union> set_option (hs_listenerTLS s)
            \<and> (hs_listenerTLS s = None \<longleftrightarrow> hs_tlsConfig s = None) \<and> hs_shutdownTimeout s \<noteq> 0)
       \<or> (\<exists>e. r = Inl e \<and> set opened \<subseteq> {sc_Address config, sc_AddressTLS config}
            \<and> (opened \<noteq> [] \<longrightarrow> te_Listen E (sc_Address config) = None))"
  using assms
  by (auto simp: NewServer_def Let_def DefaultShutdownTimeout_def split: if_splits sum.splits option.splits)

text \<open>The sockets a configuration asks for, in order, and the check it asks for.\<close>

definition wanted_sockets :: "'c tls_env \<Rightarrow> bool \<Rightarrow> bool \<Rightarrow> server_config \<Rightarrow> string list" where
  "wanted_sockets E has_handler decides config =
     (if sc_Address config = [] \<or> \<not> has_handler then []
      else case configureTLS E decides (sc_AddressTLS config) (sc_TLSConfig config) of
             Inl _ \<Rightarrow> []
           | Inr None \<Rightarrow> [sc_Address config]
           | Inr (Some _) \<Rightarrow> [sc_Address config, sc_AddressTLS config])"

definition wanted_check :: "'i check_env \<Rightarrow> server_config \<Rightarrow> err + node_check option" where
  "wanted_check I config =
     (if sc_CheckEnabled config
      then map_sum id Some (NewNodeURLCheck I \<lparr>cc_NodeURLs = sc_CheckSatellites config, cc_Timeout = sc_CheckTimeout config,
             cc_CertPath = [], cc_KeyPath = []\<rparr>)
      else Inr None)"

lemma NewServer_sockets:
  assumes "NewServer E I has_handler decides config = (r, opened)"
  shows "rev opened = takeWhile (\<lambda>a. te_Listen E a = None) (wanted_sockets E has_handler decides config)"
  using assms
  by (auto simp: NewServer_def wanted_sockets_def Let_def split: if_splits sum.splits option.splits)

lemma NewServer_result:
  assumes "NewServer E I has_handler decides config = (r, opened)"
  shows "case r of
      Inl e \<Rightarrow> wanted_sockets E has_handler decides config = []
          \<or> rev opened \<noteq> wanted_sockets E has_handler decides config \<and> e = Message ''unable to listen''
          \<or> rev opened = wanted_sockets E has_handler decides config \<and> wanted_check I config = Inl e
    | Inr s \<Rightarrow> rev opened = wanted_sockets E has_handler decides config
          \<and> wanted_sockets E has_handler decides config = hs_listener s # (case hs_listenerTLS s of None \<Rightarrow> [] | Some a \<Rightarrow> [a])
          \<and> wanted_check I config = Inr (hs_startupCheck s)
          \<and> (hs_listenerTLS s = None \<longleftrightarrow> hs_tlsConfig s = None)"
  using assms
  by (auto simp: NewServer_def wanted_sockets_def wanted_check_def Let_def split: if_splits sum.splits option.splits)

lemma first_error_None:
  "first_error ts = None \<longleftrightarrow> (\<forall>(t, e) \<in> set ts. e = None)"
  by (induction ts) (auto split: option.splits)

lemma group_wait_None:
  "group_wait tasks returned = None \<longleftrightarrow> \<not> set tasks \<subseteq> fst ` set returned"
  by (simp add: group_wait_def)

lemma group_wait_ok:
  "group_wait tasks returned = Some None
   \<longleftrightarrow> set tasks \<subseteq> fst ` set returned \<and> (\<forall>(t, e) \<in> set returned. t \<in> set tasks \<longrightarrow> e = None)"
  by (auto simp: group_wait_def first_error_None)

lemma server_Run_None:
  "server_Run s check served = None
   \<longleftrightarrow> (case hs_startupCheck s of None \<Rightarrow> True | Some c \<Rightarrow> check c = None) \<and> \<not> set (server_tasks s) \<subseteq> fst ` set served"
  by (auto simp: server_Run_def group_wait_None image_image case_prod_beta split: option.splits)

lemma server_Run_clean:
  "server_Run s check served = Some None
   \<longleftrightarrow> (case hs_startupCheck s of None \<Rightarrow> True | Some c \<Rightarrow> check c = None) \<and> set (server_tasks s) \<subseteq> fst ` set served
       \<and> (\<forall>(t, e) \<in> set served. t \<in> set (server_tasks s) \<longrightarrow> is_err HttpServerClosed e)"
proof -
  have "(\<forall>(t, e) \<in> set (map (\<lambda>(t, e). (t, serve_result e)) served). t \<in> set (server_tasks s) \<longrightarrow> e = None)
      \<longleftrightarrow> (\<forall>(t, e) \<in> set served. t \<in> set (server_tasks s) \<longrightarrow> is_err HttpServerClosed e)"
    by (auto simp: serve_result_def case_prod_beta)
  then show ?thesis
    by (auto simp: server_Run_def group_wait_ok image_image case_prod_beta split: option.splits)
qed

text \<open>The first listener that has failed, with its error.\<close>

definition first_failure :: "server_task list \<Rightarrow> (server_task \<times> err) list \<Rightarrow> (server_task \<times> err) option" where
  "first_failure tasks served = find (\<lambda>(t, e). t \<in> set tasks \<and> \<not> is_err HttpServerClosed e) served"

lemma first_error_served:
  "first_error (filter (\<lambda>r. fst r \<in> set tasks) (map (\<lambda>(t, e). (t, serve_result e)) served))
   = map_option snd (first_failure tasks served)"
  by (induction served) (auto simp: first_failure_def serve_result_def)

lemma server_Run_error:
  "server_Run s check served = Some (Some x)
   \<longleftrightarrow> (case hs_startupCheck s of None \<Rightarrow> None | Some c \<Rightarrow> check c) = Some x
       \<or> (case hs_startupCheck s of None \<Rightarrow> None | Some c \<Rightarrow> check c) = None
          \<and> set (server_tasks s) \<subseteq> fst ` set served \<and> (\<exists>t. first_failure (server_tasks s) served = Some (t, x))"
  by (auto simp: server_Run_def group_wait_def first_error_served image_image case_prod_beta split: option.splits)


definition demo_server_config :: "string \<Rightarrow> server_config" where
  "demo_server_config addressTLS = \<lparr>sc_Name = [], sc_Address = '':20010'', sc_AddressTLS = addressTLS, sc_TrafficLogging = False,
     sc_TLSConfig = Some (demo_tls_options\<lparr>to_CertMagic := False, to_CertFile := ''c'', to_KeyFile := ''k''\<rparr>),
     sc_ShutdownTimeout = 0, sc_CheckEnabled = False, sc_CheckSatellites = [], sc_CheckTimeout = 0\<rparr>"

definition demo_check_env :: "nat check_env" where
  "demo_check_env = \<lparr>ce_load = (\<lambda>c k. Inr 0), ce_generate = Inr 0, ce_options = (\<lambda>i. None)\<rparr>"

lemma demo_server_leaks:
  "NewServer demo_tls_env demo_check_env True False (demo_server_config '':20011'') =
     (Inl (Message ''unable to listen''), ['':20010''])"
  by (simp add: NewServer_def configureTLS_def key_pair_files_def demo_server_config_def demo_tls_options_def demo_tls_env_def)

lemma demo_server_runs:
  "\<exists>s. NewServer demo_tls_env demo_check_env True False (demo_server_config '':20012'') = (Inr s, ['':20012'', '':20010''])
     \<and> hs_startupCheck s = None \<and> hs_tlsConfig s \<noteq> None"
  by (simp add: NewServer_def configureTLS_def key_pair_files_def demo_server_config_def demo_tls_options_def demo_tls_env_def
      Let_def)


end
