(* ===== verification/Peers.thy ===== *)
theory Peers
  imports Servers HttpAuth Node AdminClient GoTime
begin

section \<open>The auth service as a whole (pkg/auth/peer.go, kv.go, tls.go, badgerauth/node.go, backup.go)\<close>

text \<open>
  How a node of the store and the auth service around it are made, run and closed, with the resources
  they hold: the storage engine of the node and the listeners, given by their addresses.  A constructor
  returns its result with the resources that are open then, the latest first.  Listening, TLS key pairs,
  parsing of URLs and connection strings, certmagic and the registration of services are parameters.
\<close>

datatype resource = Storage | Listener string

subsection \<open>Backups (backup.go)\<close>

text \<open>\<open>t.Format("2006/01/02")\<close> and \<open>t.Format(time.RFC3339)\<close> of a time in UTC.\<close>

definition format_day :: "civil \<Rightarrow> string" where
  "format_day c = dec_width 4 (cv_year c) @ ''/'' @ dec_width 2 (cv_month c) @ ''/'' @ dec_width 2 (cv_day c)"

definition format_rfc3339 :: "civil \<Rightarrow> string" where
  "format_rfc3339 c =
     dec_width 4 (cv_year c) @ ''-'' @ dec_width 2 (cv_month c) @ ''-'' @ dec_width 2 (cv_day c) @ ''T''
     @ dec_width 2 (cv_hour c) @ '':'' @ dec_width 2 (cv_min c) @ '':'' @ dec_width 2 (cv_sec c) @ ''Z''"

record backup_config =
  bc_Enabled :: bool
  bc_Endpoint :: string
  bc_Bucket :: string
  bc_Prefix :: string
  bc_Interval :: int

record backup =
  bk_prefix :: string
  bk_bucket :: string
  bk_interval :: int
  bk_delayStart :: bool

definition NewBackup :: "backup_config \<Rightarrow> node_id \<Rightarrow> backup" where
  "NewBackup c nid =
     \<lparr>bk_prefix = path_join [bc_Prefix c, node_id_String nid], bk_bucket = bc_Bucket c, bk_interval = bc_Interval c,
      bk_delayStart = True\<rparr>"

record upload =
  up_bucket :: string
  up_key :: string
  up_body :: "err + bytes"
  up_expires :: string

text \<open>
  \<open>RunOnce\<close>: what the engine streams goes through a pipe to the upload, an error of the stream becomes
  the error that the reader meets.  The outcome of the upload is only logged; that of the run is \<open>nil\<close>.
\<close>

definition RunOnce :: "backup \<Rightarrow> civil \<Rightarrow> err + bytes \<Rightarrow> (upload \<Rightarrow> 'w \<Rightarrow> err option \<times> 'w) \<Rightarrow> 'w \<Rightarrow> err option \<times> bool \<times> 'w" where
  "RunOnce b t stream PutObject w =
     (let key = path_join [bk_prefix b, format_day t, format_rfc3339 t]
      in case PutObject \<lparr>up_bucket = bk_bucket b, up_key = key, up_body = stream, up_expires = ''+2160h''\<rparr> w of
           (e, w') \<Rightarrow> (None, e = None, w'))"

subsection \<open>The node (node.go, db.go)\<close>

text \<open>
  \<open>gcValueLog\<close>: before each round the context may be cancelled, and a round may fail or find nothing to
  rewrite.  \<open>rounds\<close> lists both; the result is how many rounds ran, if the loop has ended.
\<close>

fun gc_rounds :: "nat \<Rightarrow> (err option \<times> err option) list \<Rightarrow> nat option" where
  "gc_rounds n [] = None"
| "gc_rounds n ((ctx, gc) # rounds) =
     (case ctx of
        Some e \<Rightarrow> Some n
      | None \<Rightarrow> (case gc of Some e \<Rightarrow> Some (Suc n) | None \<Rightarrow> gc_rounds (Suc n) rounds))"

definition gcValueLog :: "(err option \<times> err option) list \<Rightarrow> err option option" where
  "gcValueLog rounds = map_option (\<lambda>n. None) (gc_rounds 0 rounds)"

record node_options =
  no_Address :: string
  no_Join :: "string list"
  no_CertsDir :: string
  no_ReplicationInterval :: int
  no_InsecureDisableTLS :: bool
  no_Backup :: backup_config

record 'c node_env =
  ne_certs :: "'c cert_env"
  ne_Open :: "err option"
  ne_NewS3 :: "string \<Rightarrow> bool \<Rightarrow> err option"
  ne_Register :: "string \<Rightarrow> err option"
  ne_Listen :: "string \<Rightarrow> err option"

record 'c auth_node =
  nd_address :: string
  nd_tls :: "'c node_tls option"
  nd_backup :: "backup option"
  nd_gcInterval :: int
  nd_syncInterval :: int
  nd_peers :: "peer list"

text \<open>The parts of a node that \<open>Close\<close> closes.\<close>

definition node_Close :: "bool \<Rightarrow> string option \<Rightarrow> resource list \<Rightarrow> resource list" where
  "node_Close has_db listener open =
     filter (\<lambda>r. \<not> (case r of Listener a \<Rightarrow> listener = Some a | Storage \<Rightarrow> has_db)) open"

definition node_setup :: "'c node_env \<Rightarrow> node_options \<Rightarrow> node_id \<Rightarrow> err + backup option \<times> 'c node_tls option" where
  "node_setup E opts nid =
     (case (if bc_Enabled (no_Backup opts)
            then case ne_NewS3 E (bc_Endpoint (no_Backup opts)) (\<not> no_InsecureDisableTLS opts) of
                   Some e \<Rightarrow> Inl (badgerauth_msg ''failed to create s3 client'' e)
                 | None \<Rightarrow> Inr (Some (NewBackup (no_Backup opts) nid))
            else Inr None) of
        Inl e \<Rightarrow> Inl e
      | Inr bkp \<Rightarrow>
          (case (if no_InsecureDisableTLS opts then Inr None
                 else case TLSOptions_Load (ne_certs E) (no_CertsDir opts) of
                        Inl e \<Rightarrow> Inl (badgerauth_msg ''failed to load tls config'' e)
                      | Inr t \<Rightarrow> Inr (Some t)) of
             Inl e \<Rightarrow> Inl e
           | Inr tls \<Rightarrow>
               (case ne_Register E ''ReplicationService'' of
                  Some e \<Rightarrow> Inl (badgerauth_msg ''failed to register server'' e)
                | None \<Rightarrow>
                    (case ne_Register E ''AdminService'' of
                       Some e \<Rightarrow> Inl (badgerauth_msg ''failed to register server'' e)
                     | None \<Rightarrow>
                         (case ne_Listen E (no_Address opts) of
                            Some e \<Rightarrow> Inl (badgerauth_msg ''failed to listen'' e)
                          | None \<Rightarrow> Inr (bkp, tls))))))"

text \<open>\<open>New\<close>: an error closes what is there; \<open>None\<close> is the panic of opening the database.\<close>

definition node_New :: "'s db \<Rightarrow> 'c node_env \<Rightarrow> node_options \<Rightarrow> 's \<Rightarrow> ((err + 'c auth_node) \<times> resource list \<times> 's) option" where
  "node_New D E opts s =
     (case ne_Open E of
        Some e \<Rightarrow> Some (Inl (wrap BadgerauthError (badgerauth_msg ''open'' e)), node_Close False None [], s)
      | None \<Rightarrow>
          (case OpenDB D s of
             None \<Rightarrow> None
           | Some (Some e, t) \<Rightarrow> Some (Inl (wrap BadgerauthError e), node_Close False None [], t)
           | Some (None, t) \<Rightarrow>
               (case node_setup E opts (cfg_ID (db_config D)) of
                  Inl e \<Rightarrow> Some (Inl e, node_Close True None [Storage], t)
                | Inr (bkp, tls) \<Rightarrow>
                    Some (Inr \<lparr>nd_address = no_Address opts, nd_tls = tls, nd_backup = bkp, nd_gcInterval = 300000000000,
                      nd_syncInterval = no_ReplicationInterval opts, nd_peers = []\<rparr>,
                      [Listener (no_Address opts), Storage], t))))"

text \<open>\<open>Run\<close> adds the peers it is to join and starts its tasks; \<open>returned\<close> is what they have returned.\<close>

datatype node_task = CollectGarbage | BackUp | SyncAll | ReplicationServer

definition node_tasks :: "'c auth_node \<Rightarrow> node_task list" where
  "node_tasks n = [CollectGarbage] @ (if nd_backup n = None then [] else [BackUp]) @ [SyncAll, ReplicationServer]"

definition node_Run :: "node_options \<Rightarrow> 'c auth_node \<Rightarrow> (node_task \<times> err option) list \<Rightarrow> err option option \<times> 'c auth_node" where
  "node_Run opts n returned =
     (map_option (wrap_opt BadgerauthError)
        (group_wait (node_tasks n)
          (map (\<lambda>(t, e). (t, if t = ReplicationServer then wrap_opt BadgerauthError e else e)) returned)),
      n\<lparr>nd_peers := nd_peers n @ map NewPeer (no_Join opts)\<rparr>)"

subsection \<open>TLS of the auth service (tls.go)\<close>

record tls_info =
  tf_CertFile :: string
  tf_KeyFile :: string
  tf_PublicURL :: "string list"
  tf_ListenAddr :: string
  tf_CertMagic :: bool
  tf_CertMagicKeyFile :: string
  tf_CertMagicEmail :: string
  tf_CertMagicStaging :: bool
  tf_CertMagicBucket :: string

text \<open>What is set in the defaults of certmagic, from which \<open>certmagic.TLS\<close> makes a configuration.\<close>

record acme_defaults =
  ad_AltTLSALPNPort :: int
  ad_Email :: string
  ad_CA :: string

record 'c auth_setup =
  ae_tls :: "'c tls_env"
  ae_certmagicTLS :: "acme_defaults \<Rightarrow> string list \<Rightarrow> err + 'c tls_cfg"
  ae_ParseURL :: "string \<Rightarrow> err + string \<times> string"
  ae_SplitConnStr :: "string \<Rightarrow> err + string"
  ae_node :: "'c node_env"

definition auth_configureCertMagic :: "'c auth_setup \<Rightarrow> tls_info \<Rightarrow> err + 'c tls_cfg" where
  "auth_configureCertMagic E c =
     (case te_ReadFile (ae_tls E) (tf_CertMagicKeyFile c) of
        Inl e \<Rightarrow> Inl (Message ''unable to read cert-magic-key-file'')
      | Inr jsonKey \<Rightarrow>
          (case te_NewGCS (ae_tls E) jsonKey (tf_CertMagicBucket c) of
             Some e \<Rightarrow> Inl (Message ''initializing certstorage'')
           | None \<Rightarrow>
               (case port_of (ae_tls E) (tf_ListenAddr c) of
                  Inl e \<Rightarrow> Inl e
                | Inr port \<Rightarrow>
                    (case ae_certmagicTLS E \<lparr>ad_AltTLSALPNPort = port, ad_Email = tf_CertMagicEmail c,
                            ad_CA = (if tf_CertMagicStaging c then te_LetsEncryptStagingCA (ae_tls E)
                                     else te_LetsEncryptProductionCA (ae_tls E))\<rparr> (tf_PublicURL c) of
                       Inl e \<Rightarrow> Inl e
                     | Inr cfg \<Rightarrow> Inr (cfg\<lparr>tc_NextProtos := [''h2'', ''http/1.1''] @ tc_NextProtos cfg\<rparr>)))))"

definition auth_configureTLS :: "'c auth_setup \<Rightarrow> tls_info \<Rightarrow> err + 'c tls_cfg option" where
  "auth_configureTLS E c =
     (if tf_CertMagic c then map_sum (\<lambda>e. e) Some (auth_configureCertMagic E c)
      else case key_pair_files (tf_CertFile c) (tf_KeyFile c) of
             Inl e \<Rightarrow> Inl e
           | Inr False \<Rightarrow> Inr None
           | Inr True \<Rightarrow>
               (case te_LoadKeyPair (ae_tls E) (tf_CertFile c) (tf_KeyFile c) of
                  Inl e \<Rightarrow> Inl (Message ''unable to load server keypair'')
                | Inr cert \<Rightarrow> Inr (Some \<lparr>tc_NextProtos = [], tc_MinVersion = 0x0303, tc_SessionTicketsDisabled = False,
                    tc_Certificates = [cert], tc_GetCertificate = False\<rparr>)))"

subsection \<open>Making the auth service (peer.go, kv.go)\<close>

record auth_config =
  ac_Endpoint :: string
  ac_AuthToken :: "string list"
  ac_POSTSizeLimit :: int
  ac_AllowedSatellites :: "string list"
  ac_CacheExpiration :: int
  ac_ShutdownDelay :: int
  ac_KVBackend :: string
  ac_ListenAddr :: string
  ac_ListenAddrTLS :: string
  ac_DRPCListenAddr :: string
  ac_DRPCListenAddrTLS :: string
  ac_PublicURL :: "string list"
  ac_tls :: tls_info
  ac_Node :: node_options

record 'c auth_peer =
  ap_node :: "'c auth_node"
  ap_allowed :: "node_url set"
  ap_res :: resources
  ap_httpListener :: string
  ap_httpsListener :: "string option"
  ap_drpcListener :: string
  ap_drpcTLSListener :: "string option"
  ap_areSatsDynamic :: bool
  ap_tlsConfig :: "'c tls_cfg option"
  ap_reloadInterval :: int

definition OpenKV :: "'c auth_setup \<Rightarrow> 's db \<Rightarrow> auth_config \<Rightarrow> 's \<Rightarrow> ((err + 'c auth_node) \<times> resource list \<times> 's) option" where
  "OpenKV E D c s =
     (case ae_SplitConnStr E (ac_KVBackend c) of
        Inl e \<Rightarrow> Some (Inl e, [], s)
      | Inr driver \<Rightarrow>
          if driver = ''badger'' then node_New D (ae_node E) (ac_Node c) s
          else Some (Inl (Message ''unknown scheme''), [], s))"

fun public_hosts :: "'c auth_setup \<Rightarrow> string list \<Rightarrow> err + string list" where
  "public_hosts E [] = Inr []"
| "public_hosts E (u # us) =
     (case ae_ParseURL E u of
        Inl e \<Rightarrow> Inl e
      | Inr (scheme, hostname) \<Rightarrow>
          if hostname = [] then Inl (Message ''unable to parse host'')
          else case public_hosts E us of Inl e \<Rightarrow> Inl e | Inr hs \<Rightarrow> Inr (hostname # hs))"

text \<open>The checks before anything is opened.\<close>

definition auth_parameters :: "auth_lib \<Rightarrow> list_env \<Rightarrow> 'c auth_setup \<Rightarrow> auth_config
    \<Rightarrow> err + (node_url set \<times> bool) \<times> string list" where
  "auth_parameters L F E c =
     (case initial_satellites L F (ac_AllowedSatellites c) of
        Inl e \<Rightarrow> Inl e
      | Inr sats \<Rightarrow>
          if ac_Endpoint c = [] then Inl (Message ''endpoint parameter is required'')
          else case ae_ParseURL E (ac_Endpoint c) of
                 Inl e \<Rightarrow> Inl e
               | Inr (scheme, hostname) \<Rightarrow>
                   if scheme \<noteq> ''http'' \<and> scheme \<noteq> ''https'' then Inl (Message ''unexpected scheme found in endpoint parameter'')
                   else case public_hosts E (ac_PublicURL c) of Inl e \<Rightarrow> Inl e | Inr hosts \<Rightarrow> Inr (sats, hosts))"

text \<open>Listening on the addresses in order, until one fails; the open ones, the latest first.\<close>

fun listen_all :: "(string \<Rightarrow> err option) \<Rightarrow> string list \<Rightarrow> resource list \<Rightarrow> err option \<times> resource list" where
  "listen_all listen [] open = (None, open)"
| "listen_all listen (a # as) open =
     (case listen a of Some e \<Rightarrow> (Some e, open) | None \<Rightarrow> listen_all listen as (Listener a # open))"

definition auth_New :: "auth_lib \<Rightarrow> list_env \<Rightarrow> 'c auth_setup \<Rightarrow> 's db \<Rightarrow> auth_config \<Rightarrow> 's
    \<Rightarrow> ((err + 'c auth_peer) \<times> resource list \<times> 's) option" where
  "auth_New L F E D c s =
     (case auth_parameters L F E c of
        Inl e \<Rightarrow> Some (Inl e, [], s)
      | Inr ((allowedSats, areSatsDynamic), publicURLs) \<Rightarrow>
          (case OpenKV E D c s of
             None \<Rightarrow> None
           | Some (Inl e, open, t) \<Rightarrow> Some (Inl e, open, t)
           | Some (Inr kv, open, t) \<Rightarrow>
               (case auth_configureTLS E ((ac_tls c)\<lparr>tf_PublicURL := publicURLs, tf_ListenAddr := ac_ListenAddrTLS c\<rparr>) of
                  Inl e \<Rightarrow> Some (Inl e, open, t)
                | Inr tlsConfig \<Rightarrow>
                    (case listen_all (te_Listen (ae_tls E))
                        ([ac_ListenAddr c, ac_DRPCListenAddr c]
                         @ (if tlsConfig = None then [] else [ac_ListenAddrTLS c, ac_DRPCListenAddrTLS c])) open of
                       (Some e, open) \<Rightarrow> Some (Inl e, open, t)
                     | (None, open) \<Rightarrow>
                         Some (Inr \<lparr>ap_node = kv, ap_allowed = allowedSats,
                           ap_res = \<lparr>rs_endpoint = ac_Endpoint c, rs_authToken = ac_AuthToken c,
                             rs_postSizeLimit = ac_POSTSizeLimit c, rs_startup = False, rs_inShutdown = False\<rparr>,
                           ap_httpListener = ac_ListenAddr c,
                           ap_httpsListener = (if tlsConfig = None then None else Some (ac_ListenAddrTLS c)),
                           ap_drpcListener = ac_DRPCListenAddr c,
                           ap_drpcTLSListener = (if tlsConfig = None then None else Some (ac_DRPCListenAddrTLS c)),
                           ap_areSatsDynamic = areSatsDynamic, ap_tlsConfig = tlsConfig,
                           ap_reloadInterval = ac_CacheExpiration c\<rparr>, open, t)))))"

subsection \<open>Running and closing it\<close>

text \<open>
  \<open>ServeHTTP\<close> ends when its context is done, then with what shutting down, closing and the context of the
  shutdown report, or when the server ends.  The result has the state of the resources and how long it
  slept first.
\<close>

datatype http_end = ContextDone "err option" "err option" "err option" | ServerEnded err

definition auth_ServeHTTP :: "auth_config \<Rightarrow> resources \<Rightarrow> http_end \<Rightarrow> err option \<times> resources \<times> int" where
  "auth_ServeHTTP c res ended =
     (let ignore_closed = (\<lambda>e. case e of Some x \<Rightarrow> (if is_err HttpServerClosed x then None else Some x) | None \<Rightarrow> None)
      in case ended of
           ContextDone shutdown close ctx \<Rightarrow>
             (ignore_closed (combine [shutdown, close, ctx]), SetShutdown res,
              if ac_ShutdownDelay c > 0 then ac_ShutdownDelay c else 0)
         | ServerEnded e \<Rightarrow> (ignore_closed (Some e), res, 0))"

text \<open>
  \<open>StartListen\<close> of package drpcauth and \<open>ServeDRPC\<close>: the service is registered first; \<open>serve\<close> is what serving
  with a maximum buffer returns.
\<close>

definition StartListen :: "(string \<Rightarrow> err option) \<Rightarrow> (int \<Rightarrow> err option) \<Rightarrow> int \<Rightarrow> err option" where
  "StartListen register serve maximumBuffer =
     (case register ''EdgeAuth'' of Some e \<Rightarrow> Some e | None \<Rightarrow> serve maximumBuffer)"

definition auth_ServeDRPC :: "auth_config \<Rightarrow> (string \<Rightarrow> err option) \<Rightarrow> (int \<Rightarrow> err option) \<Rightarrow> err option" where
  "auth_ServeDRPC c register serve = StartListen register serve (ac_POSTSizeLimit c)"

datatype auth_task = ReloadSatellites | ServeHTTPOn string | ServeDRPCOn string | RunKV

definition auth_tasks :: "'c auth_peer \<Rightarrow> auth_task list" where
  "auth_tasks p =
     (if ap_areSatsDynamic p then [ReloadSatellites] else [])
     @ [ServeHTTPOn (ap_httpListener p), ServeDRPCOn (ap_drpcListener p), RunKV]
     @ (if ap_tlsConfig p = None then []
        else [ServeHTTPOn (the (ap_httpsListener p)), ServeDRPCOn (the (ap_drpcTLSListener p))])"

text \<open>\<open>Run\<close> starts the tasks, says that the start is done, and waits for them.\<close>

definition auth_Run :: "'c auth_peer \<Rightarrow> (auth_task \<times> err option) list \<Rightarrow> err option option \<times> 'c auth_peer" where
  "auth_Run p returned = (group_wait (auth_tasks p) returned, p\<lparr>ap_res := SetStartupDone (ap_res p)\<rparr>)"

text \<open>\<open>Close\<close>: the listeners it closes, as it names them, before it closes the store.\<close>

definition auth_closed :: "'c auth_peer \<Rightarrow> string list" where
  "auth_closed p =
     [ap_httpListener p] @ (case ap_httpsListener p of Some a \<Rightarrow> [ap_httpListener p] | None \<Rightarrow> [])
     @ [ap_drpcListener p] @ (case ap_drpcTLSListener p of Some a \<Rightarrow> [a] | None \<Rightarrow> [])"

definition auth_Close :: "'c auth_peer \<Rightarrow> resource list \<Rightarrow> resource list" where
  "auth_Close p open =
     node_Close True (Some (nd_address (ap_node p))) (filter (\<lambda>r. \<forall>a \<in> set (auth_closed p). r \<noteq> Listener a) open)"

subsection \<open>What is open\<close>

lemma node_New_cases:
  assumes "node_New D E opts s = Some (r, open, t)"
  shows "(\<exists>e. r = Inl e \<and> open = [])
    \<or> (\<exists>n. r = Inr n \<and> nd_address n = no_Address opts \<and> open = [Listener (no_Address opts), Storage])"
  using assms
  by (auto simp: node_New_def node_Close_def split: option.splits sum.splits prod.splits)

lemma OpenKV_cases:
  assumes "OpenKV E D c s = Some (r, open, t)"
  shows "(\<exists>e. r = Inl e \<and> open = [])
    \<or> (\<exists>n. r = Inr n \<and> nd_address n = no_Address (ac_Node c) \<and> open = [Listener (no_Address (ac_Node c)), Storage])"
  using assms node_New_cases [of D "ae_node E" "ac_Node c" s r "open" t]
  by (auto simp: OpenKV_def split: sum.splits if_splits)

lemma listen_all_open:
  "listen_all listen as xs = (e, ys) \<Longrightarrow> set xs \<subseteq> set ys \<and> (e = None \<longrightarrow> set ys = set xs \<union> Listener ` set as)"
  by (induction listen as xs rule: listen_all.induct) (auto split: option.splits)

lemma resource_set_eq:
  "A = B \<longleftrightarrow> (Storage \<in> A \<longleftrightarrow> Storage \<in> B) \<and> (\<forall>a. Listener a \<in> A \<longleftrightarrow> Listener a \<in> B)"
  by (metis resource.exhaust subsetI subset_antisym)

lemma auth_Close_left:
  "Storage \<notin> set (auth_Close p xs)"
  "Listener a \<in> set (auth_Close p xs) \<longleftrightarrow> Listener a \<in> set xs \<and> a \<noteq> nd_address (ap_node p) \<and> a \<notin> set (auth_closed p)"
  by (auto simp: auth_Close_def node_Close_def)

lemma auth_New_Inl:
  assumes "auth_New L F E D c s = Some (Inl e, open, t)"
  shows "(open = [] \<longleftrightarrow> (\<exists>e. auth_parameters L F E c = Inl e) \<or> (\<exists>e t. OpenKV E D c s = Some (Inl e, [], t)))
    \<and> (open \<noteq> [] \<longrightarrow> {Storage, Listener (no_Address (ac_Node c))} \<subseteq> set open)"
proof (cases "\<exists>n xs u. OpenKV E D c s = Some (Inr n, xs, u)")
  case True
  then obtain n xs u where kv: "OpenKV E D c s = Some (Inr n, xs, u)" by blast
  from OpenKV_cases [OF kv] have xs: "set xs = {Storage, Listener (no_Address (ac_Node c))}" by auto
  show ?thesis
  proof (cases "auth_parameters L F E c")
    case (Inl x)
    with assms show ?thesis by (simp add: auth_New_def)
  next
    case (Inr x)
    obtain a d h where x: "x = ((a, d), h)" by (metis prod.collapse)
    have grows: "listen_all (te_Listen (ae_tls E)) as xs = (Some e, open) \<Longrightarrow> set xs \<subseteq> set open" for as
      using listen_all_open by blast
    have "set xs \<subseteq> set open"
      using assms unfolding auth_New_def Inr x kv
      by (auto simp del: listen_all.simps split: sum.splits prod.splits option.splits dest!: grows)
    then have sub: "{Storage, Listener (no_Address (ac_Node c))} \<subseteq> set open" unfolding xs .
    then have "open \<noteq> []" by auto
    with sub kv Inr show ?thesis by simp
  qed
next
  case False
  then have no: "\<And>n xs u. OpenKV E D c s \<noteq> Some (Inr n, xs, u)" by blast
  show ?thesis
  proof (cases "auth_parameters L F E c")
    case (Inl x)
    with assms show ?thesis by (simp add: auth_New_def)
  next
    case (Inr x)
    obtain a d h where x: "x = ((a, d), h)" by (metis prod.collapse)
    obtain r xs u where kv: "OpenKV E D c s = Some (r, xs, u)"
      using assms Inr by (cases "OpenKV E D c s") (auto simp: auth_New_def split: prod.splits)
    with no obtain y where r: "r = Inl y" by (cases r) auto
    from assms Inr kv r x have "open = xs" by (simp add: auth_New_def)
    with OpenKV_cases [OF kv] r kv show ?thesis by auto
  qed
qed

lemma auth_New_Inr:
  assumes "auth_New L F E D c s = Some (Inr p, open, t)"
  shows "nd_address (ap_node p) = no_Address (ac_Node c) \<and> ap_httpListener p = ac_ListenAddr c
    \<and> ap_drpcListener p = ac_DRPCListenAddr c
    \<and> ap_httpsListener p = (if ap_tlsConfig p = None then None else Some (ac_ListenAddrTLS c))
    \<and> ap_drpcTLSListener p = (if ap_tlsConfig p = None then None else Some (ac_DRPCListenAddrTLS c))
    \<and> \<not> rs_startup (ap_res p) \<and> \<not> rs_inShutdown (ap_res p)
    \<and> set open = {Storage, Listener (no_Address (ac_Node c)), Listener (ac_ListenAddr c), Listener (ac_DRPCListenAddr c)}
        \<union> (if ap_tlsConfig p = None then {} else {Listener (ac_ListenAddrTLS c), Listener (ac_DRPCListenAddrTLS c)})"
proof -
  obtain a d h where params: "auth_parameters L F E c = Inr ((a, d), h)"
    using assms by (auto simp: auth_New_def split: sum.splits prod.splits)
  obtain n xs where kv: "OpenKV E D c s = Some (Inr n, xs, t)"
    using assms params by (auto simp: auth_New_def split: sum.splits prod.splits option.splits)
  have n: "nd_address n = no_Address (ac_Node c)" "xs = [Listener (no_Address (ac_Node c)), Storage]"
    using OpenKV_cases [OF kv] by auto
  show ?thesis
    using assms params kv n
    by (auto simp: auth_New_def split: sum.splits prod.splits option.splits if_splits dest!: listen_all_open)
qed

text \<open>
  C36: an auth service that could be made holds its store, the listener of its node, and the listeners for
  HTTP and DRPC, for each also the one over TLS if TLS is configured.  Closing it closes all of these but
  the HTTPS listener: \<open>Close\<close> closes the HTTP listener a second time in its place.  When the service
  cannot be made, nothing is open if a parameter is wrong or the store cannot be opened; after any later
  failure the store and the listener of the node stay open, and nobody has them to close them.
\<close>

theorem auth_service_resources:
  assumes "auth_New L F E D c s = Some (r, open, t)"
    and "distinct [no_Address (ac_Node c), ac_ListenAddr c, ac_ListenAddrTLS c, ac_DRPCListenAddr c, ac_DRPCListenAddrTLS c]"
  shows "case r of
      Inr p \<Rightarrow>
        set open = {Storage, Listener (no_Address (ac_Node c)), Listener (ac_ListenAddr c), Listener (ac_DRPCListenAddr c)}
          \<union> (if ap_tlsConfig p = None then {} else {Listener (ac_ListenAddrTLS c), Listener (ac_DRPCListenAddrTLS c)})
        \<and> set (auth_Close p open) = (if ap_tlsConfig p = None then {} else {Listener (ac_ListenAddrTLS c)})
    | Inl e \<Rightarrow>
        (open = [] \<longleftrightarrow> (\<exists>e. auth_parameters L F E c = Inl e) \<or> (\<exists>e t. OpenKV E D c s = Some (Inl e, [], t)))
        \<and> (open \<noteq> [] \<longrightarrow> {Storage, Listener (no_Address (ac_Node c))} \<subseteq> set open)"
proof (cases r)
  case (Inl e)
  with assms(1) auth_New_Inl show ?thesis by simp
next
  case (Inr p)
  with assms(1) have "auth_New L F E D c s = Some (Inr p, open, t)" by simp
  note p = auth_New_Inr [OF this]
  have "set (auth_Close p open) = (if ap_tlsConfig p = None then {} else {Listener (ac_ListenAddrTLS c)})"
    unfolding resource_set_eq using p assms(2) by (auto simp: auth_Close_left auth_closed_def)
  with p Inr show ?thesis by simp
qed

subsection \<open>Health\<close>

text \<open>A life of the service: it is run, and its HTTP servers end.\<close>

datatype life = RunStarts | HttpEnds http_end

fun auth_life :: "auth_config \<Rightarrow> life list \<Rightarrow> 'c auth_peer \<Rightarrow> 'c auth_peer" where
  "auth_life c [] p = p"
| "auth_life c (RunStarts # es) p = auth_life c es (snd (auth_Run p []))"
| "auth_life c (HttpEnds h # es) p = auth_life c es (p\<lparr>ap_res := fst (snd (auth_ServeHTTP c (ap_res p) h))\<rparr>)"

definition is_cancelled :: "life \<Rightarrow> bool" where
  "is_cancelled e = (case e of HttpEnds (ContextDone a b d) \<Rightarrow> True | _ \<Rightarrow> False)"

lemma auth_life_flags:
  "rs_startup (ap_res (auth_life c es p)) = (rs_startup (ap_res p) \<or> RunStarts \<in> set es)
   \<and> rs_inShutdown (ap_res (auth_life c es p)) = (rs_inShutdown (ap_res p) \<or> list_ex is_cancelled es)"
  by (induction c es p rule: auth_life.induct)
    (auto simp: auth_Run_def auth_ServeHTTP_def SetStartupDone_def SetShutdown_def is_cancelled_def Let_def split: http_end.splits)

text \<open>
  A fresh auth service answers that it is alive if and only if it has been run, no server of it has
  been told to stop, and its database answers.  From the moment one is told to stop, so also during the
  delay before the shutdown, the answer is 503; it stays so whatever happens later.
\<close>

lemma auth_service_health:
  assumes "auth_New L F E D c s = Some (Inr p, open, t)"
  shows "getLive (ap_res (auth_life c es p)) K w =
     (if RunStarts \<in> set es \<and> \<not> list_ex is_cancelled es \<and> Database_PingDB K w = None then respond 200 NoBody
      else respond 503 NoBody)"
  using auth_New_Inr [OF assms] auth_life_flags [of c es p]
  by (simp add: getLive_def)

definition demo_auth_env :: "nat auth_setup" where
  "demo_auth_env = \<lparr>ae_tls = demo_tls_env, ae_certmagicTLS = (\<lambda>d us. Inl (Message ''none'')),
     ae_ParseURL = (\<lambda>u. Inr (''https'', u)), ae_SplitConnStr = (\<lambda>c. Inr c),
     ae_node = \<lparr>ne_certs = demo_certs, ne_Open = None, ne_NewS3 = (\<lambda>e s. None), ne_Register = (\<lambda>n. None),
       ne_Listen = (\<lambda>a. None)\<rparr>\<rparr>"

definition demo_auth_config :: "string \<Rightarrow> auth_config" where
  "demo_auth_config key = \<lparr>ac_Endpoint = ''gw'', ac_AuthToken = [''t''], ac_POSTSizeLimit = 4096,
     ac_AllowedSatellites = [''sat''], ac_CacheExpiration = 1, ac_ShutdownDelay = 45, ac_KVBackend = ''badger'',
     ac_ListenAddr = '':20000'', ac_ListenAddrTLS = '':20001'', ac_DRPCListenAddr = '':20002'', ac_DRPCListenAddrTLS = '':20003'',
     ac_PublicURL = [], ac_tls = \<lparr>tf_CertFile = ''c'', tf_KeyFile = key, tf_PublicURL = [], tf_ListenAddr = [], tf_CertMagic = False,
       tf_CertMagicKeyFile = [], tf_CertMagicEmail = [], tf_CertMagicStaging = False, tf_CertMagicBucket = []\<rparr>,
     ac_Node = \<lparr>no_Address = '':20004'', no_Join = [], no_CertsDir = [], no_ReplicationInterval = 30,
       no_InsecureDisableTLS = True, no_Backup = \<lparr>bc_Enabled = False, bc_Endpoint = [], bc_Bucket = [], bc_Prefix = [],
         bc_Interval = 0\<rparr>\<rparr>\<rparr>"

lemma demo_satellites:
  "initial_satellites demo_lib (demo_page (NoPage x)) [''sat''] = Inr ({demo_url}, False)"
proof -
  have t: "trim_space ''sat'' = ''sat''" by code_simp
  show ?thesis
    by (simp add: initial_satellites_def Resolve_def demo_page_def t demo_lib_def demo_url_def ParseNodeURL_def
        replicate_eq_replicate)
qed

lemma demo_auth_parameters:
  "auth_parameters demo_lib (demo_page (NoPage x)) demo_auth_env (demo_auth_config key) = Inr (({demo_url}, False), [])"
  using demo_satellites [of x] by (simp add: auth_parameters_def demo_auth_config_def demo_auth_env_def)

lemma demo_auth_opens:
  "\<exists>n s'. OpenKV demo_auth_env demo_db (demo_auth_config key) [] = Some (Inr n, [Listener '':20004'', Storage], s')"
proof -
  obtain s' where "OpenDB demo_db [] = Some (None, s')"
    by (simp add: OpenDB_def checkFirstStart_def prepare_def prepare_txn_def db_update_def demo_db_def
        list_db_def list_engine_def test_config_def)
  then show ?thesis by (simp add: OpenKV_def node_New_def node_setup_def demo_auth_env_def demo_auth_config_def)
qed

lemma demo_auth_new:
  "\<exists>p xs s'. auth_New demo_lib (demo_page (NoPage x)) demo_auth_env demo_db (demo_auth_config ''k'') [] = Some (Inr p, xs, s')
     \<and> ap_tlsConfig p \<noteq> None"
  "\<exists>e s'. auth_New demo_lib (demo_page (NoPage x)) demo_auth_env demo_db (demo_auth_config []) []
     = Some (Inl e, [Listener '':20004'', Storage], s')"
  using demo_auth_opens [of "''k''"] demo_auth_opens [of "[]"]
  by (auto simp: auth_New_def demo_auth_parameters auth_configureTLS_def key_pair_files_def)
    (auto simp: demo_auth_config_def demo_auth_env_def demo_tls_env_def)

theorem auth_service_resources_witness:
  "\<exists>p xs s'. auth_New demo_lib (demo_page (NoPage (Sentinel FsNotExist))) demo_auth_env demo_db (demo_auth_config ''k'') []
       = Some (Inr p, xs, s') \<and> set (auth_Close p xs) = {Listener '':20001''}"
proof -
  obtain p xs s' where new: "auth_New demo_lib (demo_page (NoPage (Sentinel FsNotExist))) demo_auth_env demo_db
      (demo_auth_config ''k'') [] = Some (Inr p, xs, s')" and tls: "ap_tlsConfig p \<noteq> None"
    using demo_auth_new(1) by blast
  have "set (auth_Close p xs) = {Listener '':20001''}"
    using auth_service_resources [OF new] tls by (simp add: demo_auth_config_def)
  with new show ?thesis by blast
qed

lemma auth_service_health_witness:
  "\<exists>p xs s'. auth_New demo_lib (demo_page (NoPage (Sentinel FsNotExist))) demo_auth_env demo_db (demo_auth_config ''k'') []
       = Some (Inr p, xs, s')
     \<and> getLive (ap_res (auth_life (demo_auth_config ''k'') [RunStarts, HttpEnds (ContextDone None None None)] p)) demo_kv []
       = respond 503 NoBody"
proof -
  obtain p xs s' where new: "auth_New demo_lib (demo_page (NoPage (Sentinel FsNotExist))) demo_auth_env demo_db
      (demo_auth_config ''k'') [] = Some (Inr p, xs, s')"
    using demo_auth_new(1) by blast
  have "getLive (ap_res (auth_life (demo_auth_config ''k'') [RunStarts, HttpEnds (ContextDone None None None)] p)) demo_kv []
       = respond 503 NoBody"
    unfolding auth_service_health [OF new] by (simp add: is_cancelled_def)
  with new show ?thesis by blast
qed

end
