(* ===== verification/CertAdmin.thy ===== *)
theory CertAdmin
  imports Certstorage Servers AdminClient
begin

section \<open>Certificates from Google and their administration (pkg/gpublicca, cmd/certmagic-admin)\<close>

text \<open>
  The issuer of Google's public CA, which makes the credentials of an ACME account itself, and the
  commands that list, show, obtain, renew and revoke certificates.  Listing reads the storage of theory
  Certstorage.  The service account, the HTTP client, JSON and base64 are the record \<open>eab_env\<close>; PEM and
  X.509 the record \<open>x509_lib\<close>; what certmagic does to obtain, renew and revoke is an argument.
\<close>

subsection \<open>External account binding (googlepubliccaissuer.go)\<close>

record eab =
  eb_KeyID :: string
  eb_MACKey :: bytes

record acme_account =
  aa_Contact :: "string list"

record google_issuer =
  gi_CA :: string
  gi_Email :: string
  gi_ExternalAccount :: "eab option"

datatype eab_answer = NoEabAnswer err | EabAnswer int "err + string \<times> string"

record eab_env =
  ee_ProjectID :: "bytes \<Rightarrow> err + string"
  ee_Post :: "string \<Rightarrow> eab_answer"
  ee_base64 :: "string \<Rightarrow> err + bytes"

definition googlePublicCAAPIBase :: string where
  "googlePublicCAAPIBase = ''https://publicca.googleapis.com''"

definition googlePublicCAStagingAPIBase :: string where
  "googlePublicCAStagingAPIBase = ''https://preprod-publicca.googleapis.com''"

definition NewGoogleIssuer :: "google_issuer \<Rightarrow> google_issuer" where
  "NewGoogleIssuer iss = (if gi_CA iss = [] then iss\<lparr>gi_CA := GooglePublicCAProduction\<rparr> else iss)"

definition generateEABCredentials :: "eab_env \<Rightarrow> bytes \<Rightarrow> google_issuer \<Rightarrow> acme_account \<Rightarrow> (err + eab) \<times> acme_account" where
  "generateEABCredentials E jsonKey iss acct =
     (let acct = (if aa_Contact acct = [] then acct\<lparr>aa_Contact := [''mailto:'' @ gi_Email iss]\<rparr> else acct);
          apiBase = (if gi_CA iss = GooglePublicCAStaging then googlePublicCAStagingAPIBase else googlePublicCAAPIBase)
      in case ee_ProjectID E jsonKey of
           Inl e \<Rightarrow> (Inl (Classed GpubliccaError (Detail ''parsing service account key file'' e)), acct)
         | Inr project \<Rightarrow>
             (case ee_Post E (apiBase @ ''/v1beta1/projects/'' @ project @ ''/locations/global/externalAccountKeys'') of
                NoEabAnswer e \<Rightarrow> (Inl (Classed GpubliccaError (Detail ''preforming EAB credentials request'' e)), acct)
              | EabAnswer status body \<Rightarrow>
                  (case body of
                     Inl e \<Rightarrow> (Inl (Classed GpubliccaError (Detail ''decoding EAB resonse'' e)), acct)
                   | Inr (keyID, b64) \<Rightarrow>
                       if status \<noteq> 200 then (Inl (Classed GpubliccaError (Message ''EAB request failed'')), acct)
                       else case ee_base64 E b64 of
                              Inl e \<Rightarrow> (Inl (Classed GpubliccaError (Detail ''decoding MacKey'' e)), acct)
                            | Inr mac \<Rightarrow> (Inr \<lparr>eb_KeyID = keyID, eb_MACKey = mac\<rparr>, acct))))"

text \<open>The callback keeps the credentials in the issuer it is given, also none after an error.\<close>

definition newAccountCallback :: "eab_env \<Rightarrow> bytes \<Rightarrow> google_issuer \<Rightarrow> google_issuer \<Rightarrow> acme_account
    \<Rightarrow> (err option \<times> acme_account) \<times> google_issuer" where
  "newAccountCallback E jsonKey iss acmeIss acct =
     (if gi_ExternalAccount acmeIss \<noteq> None then ((None, acct), acmeIss)
      else case generateEABCredentials E jsonKey iss acct of
             (Inl e, a) \<Rightarrow> ((Some e, a), acmeIss\<lparr>gi_ExternalAccount := None\<rparr>)
           | (Inr k, a) \<Rightarrow> ((None, a), acmeIss\<lparr>gi_ExternalAccount := Some k\<rparr>))"

definition google_PreCheck :: "(string \<Rightarrow> bool) \<Rightarrow> (string list \<Rightarrow> bool \<Rightarrow> err option) \<Rightarrow> string list \<Rightarrow> bool \<Rightarrow> err option" where
  "google_PreCheck qualifies acmePreCheck names interactive =
     (case find (\<lambda>n. \<not> qualifies n) names of
        Some n \<Rightarrow> Some (Classed GpubliccaError (Message ''subject does not qualify for a public certificate''))
      | None \<Rightarrow> acmePreCheck names interactive)"

subsection \<open>The commands (certmagic-admin/main.go)\<close>

record certmagic_config =
  cm_KeyFile :: string
  cm_GCloudDNSProject :: string
  cm_ChallengeOverrideDomain :: string
  cm_Email :: string
  cm_Staging :: bool
  cm_Bucket :: string

definition admin_issuer :: "certmagic_config \<Rightarrow> bool \<Rightarrow> string \<Rightarrow> acme_issuer" where
  "admin_issuer c google ca =
     \<lparr>ai_google = google, ai_CA = ca, ai_Email = cm_Email c, ai_Agreed = True, ai_DisableHTTPChallenge = True,
      ai_AltTLSALPNPort = 0,
      ai_DNS01Solver = Some \<lparr>ds_Project = cm_GCloudDNSProject c, ds_ServiceAccountJSON = cm_KeyFile c,
        ds_OverrideDomain = cm_ChallengeOverrideDomain c\<rparr>,
      ai_Resolver = [], ai_TrustedRoots = None\<rparr>"

text \<open>The storage that is made with the key, and the issuers.\<close>

definition admin_configureCertMagic :: "'c tls_env \<Rightarrow> (bytes \<Rightarrow> err + 's gcs) \<Rightarrow> gcs_lib \<Rightarrow> certmagic_config \<Rightarrow> bool \<Rightarrow> bool \<Rightarrow> 's
    \<Rightarrow> (err + ('s gcs \<times> certs) \<times> acme_issuer list) \<times> 's" where
  "admin_configureCertMagic E client L c gPublicCA letsEncrypt s =
     (case te_ReadFile E (cm_KeyFile c) of
        Inl e \<Rightarrow> (Inl (Detail ''unable to read cert-magic-key-file'' e), s)
      | Inr jsonKey \<Rightarrow>
          (case NewGCS (client jsonKey) L (cm_Bucket c) s of
             (Inl e, t) \<Rightarrow> (Inl (Detail ''initializing certstorage'' e), t)
           | (Inr cs, t) \<Rightarrow>
               (case client jsonKey of
                  Inl e \<Rightarrow> (Inl e, t)
                | Inr D \<Rightarrow>
                    (Inr ((D, cs),
                      (if gPublicCA then [admin_issuer c True (if cm_Staging c then GooglePublicCAStaging else GooglePublicCAProduction)] else [])
                      @ (if letsEncrypt then [admin_issuer c False (if cm_Staging c then te_LetsEncryptStagingCA E
                            else te_LetsEncryptProductionCA E)] else [])), t))))"

record cert_leaf =
  cl_Issuer :: string
  cl_Subject :: string
  cl_NotAfter :: time

record x509_lib =
  xl_PEM :: "bytes \<Rightarrow> (string \<times> bytes) option"
  xl_Parse :: "bytes \<Rightarrow> err + cert_leaf"

datatype cert_line = IssuerLine string | CertLine bool time string

text \<open>
  The keys in order.  A file that is no certificate is reported and skipped, and so is one that cannot
  be loaded; \<open>previous\<close> is the issuer printed last.
\<close>

definition read_cert :: "'s gcs \<Rightarrow> gcs_lib \<Rightarrow> certs \<Rightarrow> x509_lib \<Rightarrow> string \<Rightarrow> 's \<Rightarrow> cert_leaf option \<times> 's" where
  "read_cert D L g X certKey s =
     (case certs_Load D L g None None certKey s of
        (Inl e, t) \<Rightarrow> (None, t)
      | (Inr certFile, t) \<Rightarrow>
          (case xl_PEM X certFile of
             None \<Rightarrow> (None, t)
           | Some (ty, block) \<Rightarrow>
               if ty \<noteq> ''CERTIFICATE'' then (None, t)
               else case xl_Parse X block of Inl e \<Rightarrow> (None, t) | Inr cert \<Rightarrow> (Some cert, t)))"

fun list_keys :: "'s gcs \<Rightarrow> gcs_lib \<Rightarrow> certs \<Rightarrow> x509_lib \<Rightarrow> time \<Rightarrow> string \<Rightarrow> string list \<Rightarrow> 's \<Rightarrow> cert_line list \<times> 's" where
  "list_keys D L g X now previous [] s = ([], s)"
| "list_keys D L g X now previous (certKey # ks) s =
     (if path_ext certKey \<noteq> ''.crt'' then list_keys D L g X now previous ks s
      else case read_cert D L g X certKey s of
             (None, t) \<Rightarrow> list_keys D L g X now previous ks t
           | (Some cert, t) \<Rightarrow>
               (case list_keys D L g X now (cl_Issuer cert) ks t of
                  (ls, u) \<Rightarrow>
                    ((if previous \<noteq> cl_Issuer cert then [IssuerLine (cl_Issuer cert)] else [])
                     @ CertLine (now > cl_NotAfter cert) (cl_NotAfter cert) (cl_Subject cert) # ls, u)))"

definition listCerts :: "'s gcs \<Rightarrow> gcs_lib \<Rightarrow> certs \<Rightarrow> x509_lib \<Rightarrow> time \<Rightarrow> string \<Rightarrow> 's \<Rightarrow> ((err + cert_line list) \<times> 's) option" where
  "listCerts D L g X now prefix s =
     (case certs_List D L g (prefix @ ''certificates/'') True s of
        None \<Rightarrow> None
      | Some (Inl e, t) \<Rightarrow> Some (Inl e, t)
      | Some (Inr keys, t) \<Rightarrow> (case list_keys D L g X now [] keys t of (ls, u) \<Rightarrow> Some (Inr ls, u)))"

text \<open>The bucket of the configuration may have a prefix, which is no part of the name of the bucket.\<close>

definition list_bucket :: "string \<Rightarrow> string \<times> string" where
  "list_bucket b =
     (case cut_byte CHR ''/'' b of
        None \<Rightarrow> (b, [])
      | Some (bucket, prefix) \<Rightarrow> (bucket, trim_suffix prefix ''/'' @ ''/''))"

definition cmdList :: "'c tls_env \<Rightarrow> (bytes \<Rightarrow> err + 's gcs) \<Rightarrow> gcs_lib \<Rightarrow> x509_lib \<Rightarrow> time \<Rightarrow> certmagic_config \<Rightarrow> 's
    \<Rightarrow> ((err + cert_line list) \<times> 's) option" where
  "cmdList E client L X now c s =
     (case list_bucket (cm_Bucket c) of
        (bucket, prefix) \<Rightarrow>
          (case admin_configureCertMagic E client L (c\<lparr>cm_Bucket := bucket\<rparr>) True True s of
             (Inl e, t) \<Rightarrow> Some (Inl e, t)
           | (Inr ((D, g), issuers), t) \<Rightarrow> listCerts D L g X now prefix t))"

text \<open>Obtaining, renewing and revoking need an e-mail address; what certmagic does then is \<open>run\<close>.\<close>

definition with_email :: "'c tls_env \<Rightarrow> (bytes \<Rightarrow> err + 's gcs) \<Rightarrow> gcs_lib \<Rightarrow> certmagic_config \<Rightarrow> bool \<Rightarrow> bool
    \<Rightarrow> (acme_issuer list \<Rightarrow> 's \<Rightarrow> err option \<times> 's) \<Rightarrow> 's \<Rightarrow> err option \<times> 's" where
  "with_email E client L c gPublicCA letsEncrypt run s =
     (if cm_Email c = [] then (Some (Message ''email required''), s)
      else case admin_configureCertMagic E client L c gPublicCA letsEncrypt s of
             (Inl e, t) \<Rightarrow> (Some e, t)
           | (Inr (st, issuers), t) \<Rightarrow> run issuers t)"

definition cmdObtain :: "'c tls_env \<Rightarrow> (bytes \<Rightarrow> err + 's gcs) \<Rightarrow> gcs_lib \<Rightarrow> certmagic_config \<Rightarrow> bool \<Rightarrow> bool
    \<Rightarrow> (acme_issuer list \<Rightarrow> string \<Rightarrow> 's \<Rightarrow> err option \<times> 's) \<Rightarrow> string \<Rightarrow> 's \<Rightarrow> err option \<times> 's" where
  "cmdObtain E client L c gPublicCA letsEncrypt ObtainCertSync name s =
     with_email E client L c gPublicCA letsEncrypt (\<lambda>is. ObtainCertSync is name) s"

definition cmdRenew :: "'c tls_env \<Rightarrow> (bytes \<Rightarrow> err + 's gcs) \<Rightarrow> gcs_lib \<Rightarrow> certmagic_config
    \<Rightarrow> (acme_issuer list \<Rightarrow> string \<Rightarrow> bool \<Rightarrow> 's \<Rightarrow> err option \<times> 's) \<Rightarrow> string \<Rightarrow> bool \<Rightarrow> 's \<Rightarrow> err option \<times> 's" where
  "cmdRenew E client L c RenewCertSync name force s =
     with_email E client L c True True (\<lambda>is. RenewCertSync is name force) s"

definition cmdRevoke :: "'c tls_env \<Rightarrow> (bytes \<Rightarrow> err + 's gcs) \<Rightarrow> gcs_lib \<Rightarrow> certmagic_config \<Rightarrow> bool \<Rightarrow> bool
    \<Rightarrow> (acme_issuer list \<Rightarrow> string \<Rightarrow> int \<Rightarrow> bool \<Rightarrow> 's \<Rightarrow> err option \<times> 's) \<Rightarrow> string \<Rightarrow> int \<Rightarrow> 's \<Rightarrow> err option \<times> 's" where
  "cmdRevoke E client L c gPublicCA letsEncrypt RevokeCert name reason s =
     with_email E client L c gPublicCA letsEncrypt (\<lambda>is. RevokeCert is name reason True) s"

subsection \<open>Reasons of revocations\<close>

text \<open>\<open>parseReason\<close>: the names in lower case, as the constants of the code spell them.\<close>

definition reason_names :: "(string \<times> int) list" where
  "reason_names =
     [(''unspecified'', 0), (''keycompromise'', 1), (''cacompromise'', 2), (''afflicationchanged'', 3), (''superseded'', 4),
      (''cessationofoperation'', 5), (''certificatehold'', 6), (''removefromcrl'', 8), (''privilegewithdrawn'', 9),
      (''aacompromise'', 10)]"

definition parseReason :: "string \<Rightarrow> err + int" where
  "parseReason name =
     (case map_of reason_names (to_lower name) of
        None \<Rightarrow> Inl (Message ''invalid reason'')
      | Some r \<Rightarrow> Inr r)"

text \<open>The reasons of RFC 5280 with their codes, and the names that the help of the command lists.\<close>

definition crl_reasons :: "(string \<times> int) list" where
  "crl_reasons =
     [(''unspecified'', 0), (''keyCompromise'', 1), (''cACompromise'', 2), (''affiliationChanged'', 3), (''superseded'', 4),
      (''cessationOfOperation'', 5), (''certificateHold'', 6), (''removeFromCRL'', 8), (''privilegeWithdrawn'', 9),
      (''aACompromise'', 10)]"

definition help_reasons :: "string list" where
  "help_reasons = [''unspecified'', ''keyCompromise'', ''affiliationChanged'', ''superseded'', ''cessationOfOperation'',
     ''priviledgeWithdrawn'', ''aACompromise'']"

lemma map_of_distinct_values:
  assumes "distinct (map fst xs)"
  shows "(\<exists>k. map_of xs k = Some v) \<longleftrightarrow> v \<in> snd ` set xs"
  using assms by (force simp: map_of_eq_Some_iff)

lemma to_lower_lower:
  "k \<in> fst ` set reason_names \<Longrightarrow> to_lower k = k"
proof -
  have "list_all (\<lambda>k. to_lower k = k) (map fst reason_names)" by code_simp
  then show "k \<in> fst ` set reason_names \<Longrightarrow> to_lower k = k" by (auto simp: list_all_iff)
qed

lemma parseReason_range:
  "(\<exists>s. parseReason s = Inr v) \<longleftrightarrow> v \<in> snd ` set reason_names"
proof
  assume "\<exists>s. parseReason s = Inr v"
  then obtain s where "map_of reason_names (to_lower s) = Some v"
    by (auto simp: parseReason_def split: option.splits)
  from map_of_SomeD [OF this] show "v \<in> snd ` set reason_names" by force
next
  assume "v \<in> snd ` set reason_names"
  moreover have "distinct (map fst reason_names)" by code_simp
  ultimately obtain k where k: "map_of reason_names k = Some v"
    using map_of_distinct_values [of reason_names v] by blast
  from map_of_SomeD [OF k] have "k \<in> fst ` set reason_names" by force
  with k have "parseReason k = Inr v" by (simp add: parseReason_def to_lower_lower)
  then show "\<exists>s. parseReason s = Inr v" by blast
qed

text \<open>
  The codes that a reason can be parsed to are the codes of RFC 5280, and each of the names of the
  RFC stands for its code, in any case, but for one: \<open>affiliationChanged\<close> is rejected, since the code
  misspells it.  Of the names that the help of the command offers two are rejected.
\<close>

lemma revocation_reasons:
  "((\<exists>s. parseReason s = Inr v) \<longleftrightarrow> v \<in> snd ` set crl_reasons)
   \<and> filter (\<lambda>(n, c). parseReason n \<noteq> Inr c) crl_reasons = [(''affiliationChanged'', 3)]
   \<and> filter (\<lambda>n. parseReason n = Inl (Message ''invalid reason'')) help_reasons = [''affiliationChanged'', ''priviledgeWithdrawn'']
   \<and> parseReason (to_lower s) = parseReason s"
proof -
  have "snd ` set reason_names = snd ` set crl_reasons" by (auto simp: reason_names_def crl_reasons_def)
  then have "(\<exists>s. parseReason s = Inr v) \<longleftrightarrow> v \<in> snd ` set crl_reasons" by (simp add: parseReason_range)
  moreover have "filter (\<lambda>(n, c). parseReason n \<noteq> Inr c) crl_reasons = [(''affiliationChanged'', 3)]" by code_simp
  moreover have "filter (\<lambda>n. parseReason n = Inl (Message ''invalid reason'')) help_reasons
      = [''affiliationChanged'', ''priviledgeWithdrawn'']" by code_simp
  moreover have "parseReason (to_lower s) = parseReason s" by (simp add: parseReason_def)
  ultimately show ?thesis by blast
qed

end
