(* ===== verification/GatewayServer.thy ===== *)
theory GatewayServer
  imports Servers S3Router Credentials
begin

section \<open>The gateway as a server (pkg/server/server.go, pkg/minio/iam-storj-store.go, cors-handler.go)\<close>

text \<open>
  The peer that owns the HTTP server of the gateway, and the store from which the identities of minio are
  read, which answers with the secret of the credentials that theory Credentials put in the request.
  Environment variables, connections, the layer of theory MultiTenant and minio's wildcards are
  parameters; the domains in the order in which Go ranges over a map are \<open>order\<close> of their set.
\<close>

subsection \<open>Identities (iam-storj-store.go)\<close>

definition identityPrefix :: string where
  "identityPrefix = ''config/iam/users/''"

definition identitySuffix :: string where
  "identitySuffix = ''/identity.json''"

definition objectPathToUser :: "string \<Rightarrow> string" where
  "objectPathToUser key =
     (if \<not> has_prefix key identityPrefix then []
      else let user = trim_prefix key identityPrefix
           in if \<not> has_suffix key identitySuffix then [] else trim_suffix user identitySuffix)"

record user_identity =
  ui_Version :: int
  ui_AccessKey :: string
  ui_SecretKey :: string
  ui_Status :: string

definition iam_GetObjectNInfo :: "credentials option \<Rightarrow> string \<Rightarrow> err + user_identity" where
  "iam_GetObjectNInfo creds object =
     (let user = objectPathToUser object
      in if user = [] then Inl (Sentinel MinioObjectNotFound)
         else case creds of
                None \<Rightarrow> Inl (Sentinel MinioObjectNotFound)
              | Some c \<Rightarrow>
                  (case cr_Error c of
                     Some e \<Rightarrow> (if get_status (Some e) 200 = 401 then Inl (Sentinel MinioObjectNotFound) else Inl e)
                   | None \<Rightarrow> Inr \<lparr>ui_Version = 1, ui_AccessKey = user, ui_SecretKey = au_SecretKey (cr_Response c),
                       ui_Status = ''on''\<rparr>))"

text \<open>The other operations of a store, by what they return beside the error.\<close>

datatype store_op =
    DeleteBucket | IamDeleteObject string string | IamDeleteObjects | GetBucketInfo | GetObjectInfo string string
  | GetObjectNInfo | IamListBuckets | IamListObjects | MakeBucketWithLocation | IamPutObject string string
  | ShutdownStore | StorageInfo

definition not_implemented :: "store_op \<Rightarrow> err \<times> (string \<times> string) option" where
  "not_implemented op =
     (Sentinel MinioNotImplemented,
      case op of
        IamDeleteObject b n \<Rightarrow> Some (b, n)
      | GetObjectInfo b n \<Rightarrow> Some (b, n)
      | IamPutObject b n \<Rightarrow> Some (b, n)
      | _ \<Rightarrow> None)"

text \<open>A handler writes a response or panics; the panic of \<open>logger.CriticalIf\<close>, with \<open>logger.ErrCritical\<close>, is an internal error.\<close>

datatype 'r ran = Wrote 'r | Panicked err

definition CriticalErrorHandler :: "err \<Rightarrow> 'r \<Rightarrow> 'r ran \<Rightarrow> 'r ran" where
  "CriticalErrorHandler ErrCritical internal_error h =
     (case h of
        Wrote r \<Rightarrow> Wrote r
      | Panicked e \<Rightarrow> (if e = ErrCritical then Wrote internal_error else Panicked e))"

text \<open>Whether CORS allows an origin.\<close>

definition cors_allows :: "(string \<Rightarrow> string \<Rightarrow> bool) \<Rightarrow> string list \<Rightarrow> string \<Rightarrow> bool" where
  "cors_allows MatchSimple allowedOrigins origin = list_ex (\<lambda>a. MatchSimple a origin) allowedOrigins"

subsection \<open>The peer (server.go)\<close>

definition deduplicateDomains :: "(string set \<Rightarrow> string list) \<Rightarrow> string \<Rightarrow> string list" where
  "deduplicateDomains order domains = order (set (map (\<lambda>d. trim_prefix d ''*.'') (split_on CHR '','' domains)))"

record gateway_config =
  gc_DomainName :: string
  gc_Address :: string
  gc_AddressTLS :: string
  gc_InsecureDisableTLS :: bool
  gc_CertDir :: string
  gc_CertMagic :: bool
  gc_CertMagicKeyFile :: string
  gc_CertMagicProject :: string
  gc_ChallengeOverrideDomain :: string
  gc_CertMagicEmail :: string
  gc_CertMagicStaging :: bool
  gc_CertMagicBucket :: string
  gc_CheckEnabled :: bool
  gc_CheckSatellites :: "string list"
  gc_CheckTimeout :: int
  gc_ShutdownDelay :: int

definition gateway_tls :: "gateway_config \<Rightarrow> tls_options option" where
  "gateway_tls c =
     (if gc_InsecureDisableTLS c then None
      else Some \<lparr>to_CertMagic = gc_CertMagic c, to_CertMagicKeyFile = gc_CertMagicKeyFile c, to_DNSChallenge = True,
        to_DNSProject = gc_CertMagicProject c, to_OverrideDomain = gc_ChallengeOverrideDomain c,
        to_CertMagicEmail = gc_CertMagicEmail c, to_TestIssuer = None, to_Staging = gc_CertMagicStaging c,
        to_Bucket = gc_CertMagicBucket c, to_PublicURLs = split_on CHR '','' (gc_DomainName c), to_CertDir = gc_CertDir c,
        to_CertFile = [], to_KeyFile = []\<rparr>)"

record 'c gateway_peer =
  gp_server :: "'c http_server"
  gp_domains :: "string list"
  gp_inShutdown :: bool

text \<open>
  The layer, the environment of minio and the connection to the node: \<open>layer\<close>, \<open>setenv\<close> and \<open>dial\<close> are the
  outcomes of making the layer, of setting a variable, of connecting.
\<close>

definition gateway_setup :: "(string set \<Rightarrow> string list) \<Rightarrow> err option \<Rightarrow> (string \<Rightarrow> string \<Rightarrow> err option) \<Rightarrow> err option
    \<Rightarrow> gateway_config \<Rightarrow> err + string list" where
  "gateway_setup order layer setenv dial c =
     (case layer of
        Some e \<Rightarrow> Inl e
      | None \<Rightarrow>
          if gc_DomainName c = [] then Inl (Message ''DomainName required but not given'')
          else let domains = deduplicateDomains order (gc_DomainName c)
               in case combine [setenv ''MINIO_DOMAIN'' (join '','' domains), setenv ''MINIO_BROWSER'' ''off'',
                      setenv ''MINIO_ACCESS_KEY'' ''dummy-key-to-satisfy-minio'',
                      setenv ''MINIO_SECRET_KEY'' ''dummy-key-to-satisfy-minio''] of
                    Some e \<Rightarrow> Inl e
                  | None \<Rightarrow>
                      (case dial of
                         Some e \<Rightarrow> Inl (Detail ''failed to init grpc connection to DWS'' e)
                       | None \<Rightarrow> Inr domains))"

definition gateway_New :: "'c tls_env \<Rightarrow> 'i check_env \<Rightarrow> err + string list \<Rightarrow> gateway_config
    \<Rightarrow> (err + 'c gateway_peer) \<times> string list" where
  "gateway_New E I setup c =
     (case setup of
        Inl e \<Rightarrow> (Inl e, [])
      | Inr domains \<Rightarrow>
          (case NewServer E I True False
              \<lparr>sc_Name = [], sc_Address = gc_Address c, sc_AddressTLS = gc_AddressTLS c, sc_TrafficLogging = False,
               sc_TLSConfig = gateway_tls c, sc_ShutdownTimeout = 0, sc_CheckEnabled = gc_CheckEnabled c,
               sc_CheckSatellites = gc_CheckSatellites c, sc_CheckTimeout = gc_CheckTimeout c\<rparr> of
             (Inl e, opened) \<Rightarrow> (Inl e, opened)
           | (Inr s, opened) \<Rightarrow>
               (Inr \<lparr>gp_server = s, gp_domains = domains, gp_inShutdown = False\<rparr>, opened)))"

definition healthCheck :: "'c gateway_peer \<Rightarrow> int" where
  "healthCheck p = (if gp_inShutdown p then 503 else 200)"

text \<open>
  \<open>Close\<close>: the peer is in its shutdown first, then sleeps, then the layer and the server are shut down;
  the result has the error, how long it slept, and the peer.
\<close>

definition gateway_Close :: "gateway_config \<Rightarrow> err option \<Rightarrow> err option \<Rightarrow> 'c gateway_peer \<Rightarrow> err option \<times> int \<times> 'c gateway_peer" where
  "gateway_Close c closeLayer shutdown p =
     (wrap_opt GatewayError (combine [closeLayer, shutdown]),
      if gc_ShutdownDelay c > 0 then gc_ShutdownDelay c else 0, p\<lparr>gp_inShutdown := True\<rparr>)"

subsection \<open>Which identities are found\<close>

text \<open>The two parts around a name can overlap in the slash only.\<close>

lemma identity_overlap:
  assumes "identityPrefix @ r = s @ identitySuffix" and "length r < length identitySuffix"
  shows "r = ''identity.json''"
proof -
  define k where "k = length identitySuffix - length r"
  have r: "r = drop k identitySuffix"
  proof -
    have "drop (length (s @ identitySuffix) - length r) (identityPrefix @ r) = drop (length (s @ identitySuffix) - length r) (s @ identitySuffix)"
      using assms(1) by simp
    moreover have "length (s @ identitySuffix) = length identityPrefix + length r"
      using arg_cong [OF assms(1), of length] by simp
    ultimately show ?thesis using assms(2) by (simp add: k_def)
  qed
  have "k \<in> set [1..<16]" using assms(2) by (auto simp: k_def identitySuffix_def)
  moreover have "has_suffix (identityPrefix @ drop k identitySuffix) identitySuffix"
    using assms(1) r by (auto simp: has_suffix_iff)
  moreover have "list_all (\<lambda>k. has_suffix (identityPrefix @ drop k identitySuffix) identitySuffix = (k = 1)) [1..<16]"
    by code_simp
  ultimately have "k = 1" by (auto simp: list_all_iff)
  with r show ?thesis by (simp add: identitySuffix_def)
qed

lemma objectPathToUser_iff:
  assumes "u \<noteq> []"
  shows "objectPathToUser key = u
    \<longleftrightarrow> key = identityPrefix @ u @ identitySuffix \<or> key = ''config/iam/users/identity.json'' \<and> u = ''identity.json''"
proof
  assume a: "objectPathToUser key = u"
  with assms obtain r where r: "key = identityPrefix @ r" "has_suffix key identitySuffix" "u = trim_suffix r identitySuffix"
    by (auto simp: objectPathToUser_def has_prefix_iff split: if_splits)
  then obtain s where s: "identityPrefix @ r = s @ identitySuffix" by (auto simp: has_suffix_iff)
  show "key = identityPrefix @ u @ identitySuffix \<or> key = ''config/iam/users/identity.json'' \<and> u = ''identity.json''"
  proof (cases "length r < length identitySuffix")
    case True
    from identity_overlap [OF s this] have "r = ''identity.json''" .
    moreover have "trim_suffix ''identity.json'' identitySuffix = ''identity.json''" by code_simp
    ultimately show ?thesis using r by (simp add: identityPrefix_def)
  next
    case False
    have "r = take (length r - length identitySuffix) r @ identitySuffix"
    proof -
      have "length identityPrefix + length r = length s + length identitySuffix"
        using arg_cong [OF s, of length] by simp
      with False have "length r - length identitySuffix = length s - length identityPrefix"
        and "length identityPrefix \<le> length s" by linarith+
      then have "drop (length r - length identitySuffix) r = identitySuffix"
        using arg_cong [OF s, of "drop (length s)"] by simp
      then show ?thesis using append_take_drop_id [of "length r - length identitySuffix" r] by simp
    qed
    then obtain q where "r = q @ identitySuffix" by blast
    with r show ?thesis by simp
  qed
next
  assume "key = identityPrefix @ u @ identitySuffix \<or> key = ''config/iam/users/identity.json'' \<and> u = ''identity.json''"
  moreover have "objectPathToUser ''config/iam/users/identity.json'' = ''identity.json''" by code_simp
  moreover have "has_prefix (identityPrefix @ u @ identitySuffix) identityPrefix" by (auto simp: has_prefix_iff)
  moreover have "has_suffix (identityPrefix @ u @ identitySuffix) identitySuffix"
    unfolding has_suffix_iff by (metis append_assoc)
  ultimately show "objectPathToUser key = u" by (auto simp: objectPathToUser_def)
qed

text \<open>
  The store has an identity exactly at the path that minio builds of a user name, with the one
  exception that the path without any name is read as the name \<open>identity.json\<close>; it has one only for a
  request whose credentials were resolved without an error, and the identity is that of the name asked
  for, with the secret of the request whatever the name.
\<close>

lemma iam_identity:
  "iam_GetObjectNInfo creds object = Inr i
   \<longleftrightarrow> (\<exists>c u. creds = Some c \<and> cr_Error c = None \<and> u \<noteq> []
         \<and> (object = ''config/iam/users/'' @ u @ ''/identity.json''
              \<or> object = ''config/iam/users/identity.json'' \<and> u = ''identity.json'')
         \<and> i = \<lparr>ui_Version = 1, ui_AccessKey = u, ui_SecretKey = au_SecretKey (cr_Response c), ui_Status = ''on''\<rparr>)"
proof -
  have u: "objectPathToUser object = u \<longleftrightarrow> object = ''config/iam/users/'' @ u @ ''/identity.json''
      \<or> object = ''config/iam/users/identity.json'' \<and> u = ''identity.json''" if "u \<noteq> []" for u
    using objectPathToUser_iff [OF that, of object] unfolding identityPrefix_def identitySuffix_def .
  have "iam_GetObjectNInfo creds object = Inr i \<longleftrightarrow> (\<exists>c u. creds = Some c \<and> cr_Error c = None \<and> u \<noteq> []
      \<and> objectPathToUser object = u
      \<and> i = \<lparr>ui_Version = 1, ui_AccessKey = u, ui_SecretKey = au_SecretKey (cr_Response c), ui_Status = ''on''\<rparr>)"
    by (auto simp: iam_GetObjectNInfo_def Let_def split: option.splits)
  with u show ?thesis by (metis (no_types, lifting))
qed

end
