(* ===== verification/Lookups.thy ===== *)
theory Lookups
  imports AuthClient GoHttp Servers
begin

section \<open>Lookups at other services (tierquery.go, objectmap/mapper.go, internal/register)\<close>

text \<open>
  The link sharing service asks satellites whether an account is paid and a database of addresses where a
  node is, and remembers the answers; command line tools register an access at the auth service.  The
  satellite, the database, the network and the encodings of requests are parameters; the cache of paid
  tiers is that of theory AuthClient.
\<close>

subsection \<open>Paid tiers (sharing/tierquery.go)\<close>

record uplink_access =
  ua_SatelliteAddress :: string
  ua_APIKey :: bytes

record tier_env =
  tq_Serialize :: "bytes \<Rightarrow> string"
  tq_ParseNodeURL :: "string \<Rightarrow> err + node_url"
  tq_Dial :: "node_url \<Rightarrow> err option"
  tq_UserAgent :: "string \<Rightarrow> string \<Rightarrow> string \<Rightarrow> err + bytes"
  tq_Version :: string
  tq_UserInfo :: "node_url \<Rightarrow> bytes \<Rightarrow> bytes \<Rightarrow> err + bool"

definition makeUserAgent :: "tier_env \<Rightarrow> string \<Rightarrow> err + bytes" where
  "makeUserAgent E hostname =
     tq_UserAgent E ''LinkSharingService'' (tq_Version E) (''Tier lookup requested by '' @ CHR 0x22 # hostname @ [CHR 0x22])"

definition queryTier :: "tier_env \<Rightarrow> uplink_access \<Rightarrow> string \<Rightarrow> err + bool" where
  "queryTier E a hostname =
     (case tq_ParseNodeURL E (ua_SatelliteAddress a) of
        Inl e \<Rightarrow> Inl e
      | Inr u \<Rightarrow>
          (case tq_Dial E u of
             Some e \<Rightarrow> Inl e
           | None \<Rightarrow>
               (case makeUserAgent E hostname of
                  Inl e \<Rightarrow> Inl e
                | Inr agent \<Rightarrow> tq_UserInfo E u (ua_APIKey a) agent)))"

definition tier_Do :: "tier_env \<Rightarrow> (bool, 'c) lru \<Rightarrow> uplink_access \<Rightarrow> string \<Rightarrow> 'c \<Rightarrow> (err + bool) \<times> 'c" where
  "tier_Do E C a hostname c =
     (let key = tq_Serialize E (ua_APIKey a)
      in case lru_Load C key c of
           (Some paidTier, d) \<Rightarrow> (Inr paidTier, d)
         | (None, d) \<Rightarrow>
             (case queryTier E a hostname of
                Inl e \<Rightarrow> (Inl e, d)
              | Inr paidTier \<Rightarrow> (Inr paidTier, lru_Store C key paidTier d)))"

subsection \<open>Locations of addresses (objectmap/mapper.go)\<close>

text \<open>The map of answers, errors included; \<open>ParseIP\<close> is that of package net.\<close>

type_synonym 'l ip_cache = "string \<rightharpoonup> err + 'l"

definition parseHost :: "(string \<Rightarrow> 'p option) \<Rightarrow> string \<Rightarrow> err + 'p" where
  "parseHost ParseIP hostOrIP =
     (if count_byte CHR '':'' hostOrIP > 1 then Inl (Message ''IPv6 addresses are ignored for now'')
      else let ip = (case SplitHostPort hostOrIP of HostPort h \<Rightarrow> h | _ \<Rightarrow> hostOrIP)
           in case ParseIP ip of
                None \<Rightarrow> Inl (Message ''invalid IP address'')
              | Some p \<Rightarrow> Inr p)"

definition GetIPInfos :: "(string \<Rightarrow> 'p option) \<Rightarrow> ('p \<Rightarrow> err + 'l) \<Rightarrow> string \<Rightarrow> 'l ip_cache \<Rightarrow> (err + 'l) \<times> 'l ip_cache" where
  "GetIPInfos ParseIP Lookup hostOrIP cache =
     (case cache hostOrIP of
        Some item \<Rightarrow> (item, cache)
      | None \<Rightarrow>
          (case parseHost ParseIP hostOrIP of
             Inl e \<Rightarrow> (Inl (wrap ObjectmapError e), cache)
           | Inr parsed \<Rightarrow>
               let r = Lookup parsed in (wrap_res ObjectmapError r, cache(hostOrIP \<mapsto> r))))"

subsection \<open>Registering an access (internal/register)\<close>

record reg_credentials =
  rc_AccessKeyID :: string
  rc_SecretKey :: string
  rc_Endpoint :: string

definition no_credentials :: reg_credentials where
  "no_credentials = \<lparr>rc_AccessKeyID = [], rc_SecretKey = [], rc_Endpoint = []\<rparr>"

text \<open>
  What the network answers to the call over DRPC, and to the request over HTTP: a status and the decoding
  of the body.  In \<open>return ret, json.NewDecoder(...).Decode(&ret)\<close> the language leaves open whether the
  first result is read before or after the call: \<open>decode_first\<close> says after.
\<close>

record reg_env =
  rg_Parse :: "string \<Rightarrow> err + url"
  rg_Dial :: "bool \<Rightarrow> string \<Rightarrow> err option"
  rg_RegisterAccess :: "string \<Rightarrow> bool \<Rightarrow> err + reg_credentials"
  rg_Post :: "url \<Rightarrow> string \<Rightarrow> bool \<Rightarrow> err + int \<times> (err + reg_credentials)"
  rg_decode_first :: bool

definition registerDRPC :: "reg_env \<Rightarrow> string \<Rightarrow> bool \<Rightarrow> string \<Rightarrow> bool \<Rightarrow> reg_credentials \<times> err option" where
  "registerDRPC E addr secure access public =
     (case rg_Dial E secure addr of
        Some e \<Rightarrow> (no_credentials, Some (wrap RegisterError e))
      | None \<Rightarrow>
          (case rg_RegisterAccess E access public of
             Inl e \<Rightarrow> (no_credentials, Some (wrap RegisterError e))
           | Inr c \<Rightarrow> (c, None)))"

definition registerHTTP :: "reg_env \<Rightarrow> url \<Rightarrow> string \<Rightarrow> bool \<Rightarrow> reg_credentials \<times> err option" where
  "registerHTTP E addr access public =
     (case rg_Post E addr access public of
        Inl e \<Rightarrow> (no_credentials, Some (wrap RegisterError e))
      | Inr (status, body) \<Rightarrow>
          if status \<noteq> 200 then (no_credentials, Some (Classed RegisterError (Message ''non-ok status'')))
          else case body of
                 Inl e \<Rightarrow> (no_credentials, Some e)
               | Inr c \<Rightarrow> (if rg_decode_first E then c else no_credentials, None))"

definition register_Access :: "reg_env \<Rightarrow> string \<Rightarrow> string \<Rightarrow> bool \<Rightarrow> reg_credentials \<times> err option" where
  "register_Access E authAddr access public =
     (case rg_Parse E authAddr of
        Inl e \<Rightarrow> (no_credentials, Some (wrap RegisterError e))
      | Inr u \<Rightarrow>
          if url_Scheme u = ''drpc'' \<or> url_Scheme u = ''drpcs''
          then registerDRPC E (url_Host u) (url_Scheme u = ''drpcs'') access public
          else registerHTTP E (u\<lparr>url_Path := ''/v1/access''\<rparr>) access public)"

subsection \<open>What the caches answer\<close>

fun tier_run :: "(bool, 'c) lru \<Rightarrow> (tier_env \<times> uplink_access \<times> string) list \<Rightarrow> 'c \<Rightarrow> 'c" where
  "tier_run C [] c = c"
| "tier_run C ((E, a, h) # qs) c = tier_run C qs (snd (tier_Do E C a h c))"

definition told :: "(tier_env \<times> uplink_access \<times> string) list \<Rightarrow> string \<Rightarrow> bool \<Rightarrow> bool" where
  "told qs key paid \<longleftrightarrow> (\<exists>(E, a, h) \<in> set qs. tq_Serialize E (ua_APIKey a) = key \<and> queryTier E a h = Inr paid)"

text \<open>A cache of paid tiers is an LRU cache of booleans.\<close>

locale tier_cache = lru_cache C holds
  for C :: "(bool, 'c) lru" and holds :: "'c \<Rightarrow> string \<Rightarrow> bool \<Rightarrow> bool"
begin

lemma tier_Do_sound:
  assumes "sound P c" and "tier_Do E C a h c = (r, d)"
    and "\<And>b. queryTier E a h = Inr b \<Longrightarrow> P (tq_Serialize E (ua_APIKey a)) b"
  shows "sound P d \<and> (case r of Inr b \<Rightarrow> P (tq_Serialize E (ua_APIKey a)) b | Inl e \<Rightarrow> queryTier E a h = Inl e)"
  using assms sound_Load [OF assms(1), of "tq_Serialize E (ua_APIKey a)"]
  by (auto simp: tier_Do_def Let_def intro!: sound_Store split: prod.splits option.splits sum.splits)

lemma sound_mono: "sound P c \<Longrightarrow> (\<And>k v. P k v \<Longrightarrow> Q k v) \<Longrightarrow> sound Q c"
  by (auto simp: sound_def)

lemma tier_run_sound:
  "sound (told ps) c \<Longrightarrow> sound (told (ps @ qs)) (tier_run C qs c)"
proof (induction qs arbitrary: ps c)
  case (Cons q qs)
  obtain E a h where q: "q = (E, a, h)" by (metis prod.collapse)
  obtain r d where d: "tier_Do E C a h c = (r, d)" by fastforce
  have "sound (told (ps @ [q])) c" by (rule sound_mono [OF Cons.prems]) (auto simp: told_def)
  from tier_Do_sound [OF this d] have "sound (told (ps @ [q])) d" by (simp add: told_def q)
  from Cons.IH [OF this] d show ?case by (simp add: q)
qed simp

lemma tier_answer_told:
  assumes "sound (told []) c" and "tier_Do E C a h (tier_run C qs c) = (r, d)"
  shows "case r of Inr b \<Rightarrow> told (qs @ [(E, a, h)]) (tq_Serialize E (ua_APIKey a)) b | Inl e \<Rightarrow> queryTier E a h = Inl e"
proof -
  have "sound (told (qs @ [(E, a, h)])) (tier_run C qs c)"
    by (rule sound_mono [OF tier_run_sound [OF assms(1), of qs]]) (auto simp: told_def)
  from tier_Do_sound [OF this assms(2)] show ?thesis by (auto simp: told_def)
qed

end

interpretation tier_list: tier_cache "lru_list cap" "\<lambda>c k v. (k, v) \<in> set c" for cap
  by (intro tier_cache.intro lru_list.lru_cache_axioms)

text \<open>
  An answer about a paid tier is one that the satellite of an access gave, now or earlier, to a query
  with the same API key, whoever's host name it was for; and an error is the error of this query, not of
  an earlier one, as errors are not remembered.
\<close>

lemma paid_tier_was_told:
  assumes "tier_cache C holds" and "\<forall>k v. \<not> holds c k v"
    and "tier_Do E C a h (tier_run C qs c) = (r, d)"
  shows "case r of Inr b \<Rightarrow> told (qs @ [(E, a, h)]) (tq_Serialize E (ua_APIKey a)) b | Inl e \<Rightarrow> queryTier E a h = Inl e"
proof -
  note T = tier_cache.tier_answer_told [OF assms(1) _ assms(3)]
  show ?thesis
    by (rule T) (use assms(2) in \<open>simp add: lru_cache.sound_def [OF tier_cache.axioms [OF assms(1)]]\<close>)
qed

definition demo_tier_env :: "bool \<Rightarrow> tier_env" where
  "demo_tier_env up = \<lparr>tq_Serialize = (\<lambda>k. k), tq_ParseNodeURL = (\<lambda>s. Inr \<lparr>nu_ID = [], nu_Address = s\<rparr>),
     tq_Dial = (\<lambda>u. if up then None else Some (Message ''down'')), tq_UserAgent = (\<lambda>p v c. Inr c), tq_Version = ''v1'',
     tq_UserInfo = (\<lambda>u k ag. Inr (k = ''paid''))\<rparr>"

definition demo_access :: uplink_access where
  "demo_access = \<lparr>ua_SatelliteAddress = ''sat'', ua_APIKey = ''paid''\<rparr>"

lemma paid_tier_was_told_witness:
  "fst (tier_Do (demo_tier_env False) (lru_list 2) demo_access ''b'' (tier_run (lru_list 2) [(demo_tier_env True, demo_access, ''a'')] []))
     = Inr True
   \<and> told [(demo_tier_env True, demo_access, ''a''), (demo_tier_env False, demo_access, ''b'')] ''paid'' True"
proof -
  let ?t = "tier_Do (demo_tier_env False) (lru_list 2) demo_access ''b'' (tier_run (lru_list 2) [(demo_tier_env True, demo_access, ''a'')] [])"
  have q: "queryTier (demo_tier_env True) demo_access ''a'' = Inr True"
    by (simp add: queryTier_def makeUserAgent_def demo_tier_env_def demo_access_def)
  have s: "tq_Serialize (demo_tier_env b) (ua_APIKey demo_access) = ''paid''" for b
    by (simp add: demo_tier_env_def demo_access_def)
  have r: "fst ?t = Inr True" by (simp add: tier_Do_def q s lru_list_def)
  from paid_tier_was_told [OF tier_list.tier_cache_axioms, of "[]" "demo_tier_env False" 2 demo_access "''b''"
      "[(demo_tier_env True, demo_access, ''a'')]" "fst ?t" "snd ?t"] r s
  show ?thesis by simp
qed

text \<open>The locations: \<open>hs\<close> are the earlier lookups, each with what the database says then.\<close>

fun ip_run :: "(string \<Rightarrow> 'p option) \<Rightarrow> (('p \<Rightarrow> err + 'l) \<times> string) list \<Rightarrow> 'l ip_cache \<Rightarrow> 'l ip_cache" where
  "ip_run parse [] c = c"
| "ip_run parse ((db, h) # hs) c = ip_run parse hs (snd (GetIPInfos parse db h c))"

definition first_lookup :: "(('p \<Rightarrow> err + 'l) \<times> string) list \<Rightarrow> string \<Rightarrow> ('p \<Rightarrow> err + 'l) option" where
  "first_lookup hs h = map_option fst (find (\<lambda>q. snd q = h) hs)"

lemma ip_run_cache:
  "ip_run parse hs c h =
     (case c h of
        Some r \<Rightarrow> Some r
      | None \<Rightarrow> (case parseHost parse h of
                  Inl e \<Rightarrow> None
                | Inr p \<Rightarrow> map_option (\<lambda>db. db p) (first_lookup hs h)))"
proof (induction parse hs c rule: ip_run.induct)
  case (2 parse db h' hs c)
  then show ?case
    by (cases "h = h'") (auto simp: GetIPInfos_def first_lookup_def Let_def split: option.splits sum.splits)
qed (auto simp: first_lookup_def split: option.splits sum.splits)

text \<open>
  The location of a host that can be parsed is what the database said at the first lookup of the same
  text, for ever after, an error like a location; only the error of that first lookup has the class of
  the package.  A host that cannot be parsed is an error of that class each time and is not remembered.
\<close>

lemma location_of_first_lookup:
  "fst (GetIPInfos parse db h (ip_run parse hs Map.empty)) =
     (case parseHost parse h of
        Inl e \<Rightarrow> Inl (wrap ObjectmapError e)
      | Inr p \<Rightarrow>
          (case first_lookup hs h of
             Some first \<Rightarrow> first p
           | None \<Rightarrow> wrap_res ObjectmapError (db p)))"
  by (simp add: GetIPInfos_def ip_run_cache Let_def split: sum.splits option.splits)

end
