(* ===== verification/SyncLogs.thy ===== *)
theory SyncLogs
  imports Records "HOL-Library.AList" "HOL-Library.Multiset"
begin

section \<open>The clocks that a node logs (pkg/auth/badgerauth/node.go)\<close>

text \<open>
  A node logs the clocks of every replication: those that are asked for, and how many records of each
  node an answer has.  \<open>sort.Slice\<close> calls its comparison with two indices, and the comparison reads
  whatever slice it has captured, as it is at that moment.  Up to twelve elements it sorts by insertion,
  which is what is modelled: the theorems are about clusters of at most twelve nodes.  A Go map is an
  association list with distinct keys, in the order of one iteration.
\<close>

subsection \<open>Sorting by a comparison of indices\<close>

fun sink :: "('a list \<Rightarrow> nat \<Rightarrow> nat \<Rightarrow> bool) \<Rightarrow> nat \<Rightarrow> 'a list \<Rightarrow> 'a list" where
  "sink lt 0 xs = xs"
| "sink lt (Suc j) xs = (if lt xs (Suc j) j then sink lt j (xs[Suc j := xs ! j, j := xs ! Suc j]) else xs)"

definition sort_Slice :: "('a list \<Rightarrow> nat \<Rightarrow> nat \<Rightarrow> bool) \<Rightarrow> 'a list \<Rightarrow> 'a list" where
  "sort_Slice lt xs = fold (sink lt) [1..<length xs] xs"

subsection \<open>The log object\<close>

type_synonym clocks_log = "(string \<times> u64) list"

definition MarshalLogObject :: "clocks_log \<Rightarrow> (string \<times> u64) list" where
  "MarshalLogObject m =
     (let ids = map fst m; vals = map snd m;
          f = (\<lambda>ids i j. ids ! i < ids ! j);
          ids = sort_Slice f ids;
          vals = sort_Slice (\<lambda>_. f ids) vals
      in zip ids vals)"

definition clock_name :: "bytes \<Rightarrow> string" where
  "clock_name nid = (case node_id_set_bytes nid of Inl e \<Rightarrow> hex_encode nid | Inr n \<Rightarrow> node_id_String n)"

fun log_request_entries :: "request_entry list \<Rightarrow> clocks_log \<Rightarrow> clocks_log" where
  "log_request_entries [] m = m"
| "log_request_entries (e # es) m = log_request_entries es (AList.update (clock_name (rq_NodeId e)) (rq_Clock e) m)"

definition fromRequestEntries :: "request_entry list \<Rightarrow> clocks_log" where
  "fromRequestEntries es = log_request_entries es []"

fun log_response_entries :: "response_entry list \<Rightarrow> clocks_log \<Rightarrow> clocks_log" where
  "log_response_entries [] m = m"
| "log_response_entries (e # es) m =
     (let k = clock_name (rs_NodeId e)
      in log_response_entries es (AList.update k ((case map_of m k of None \<Rightarrow> 0 | Some n \<Rightarrow> n) + 1) m))"

definition fromResponseEntries :: "response_entry list \<Rightarrow> clocks_log" where
  "fromResponseEntries es = log_response_entries es []"

subsection \<open>What the sorting does\<close>

lemma insort_snoc_less: "x < y \<Longrightarrow> insort x (ys @ [y]) = insort x ys @ [y]" for x :: "'a::linorder"
  by (induction ys) auto

lemma insort_last: "sorted ys \<Longrightarrow> \<forall>y \<in> set ys. y \<le> x \<Longrightarrow> insort x ys = ys @ [x]" for x :: "'a::linorder"
proof (induction ys)
  case (Cons y ys)
  then have IH: "insort x ys = ys @ [x]" and y: "y \<le> x" "\<forall>z \<in> set ys. y \<le> z" by auto
  show ?case
  proof (cases "x \<le> y")
    case True
    with y have xy: "x = y" by simp
    with y have "insort x ys = x # ys" by (intro insort_is_Cons) auto
    with IH have "x # ys = ys @ [x]" by simp
    moreover have "insort x (y # ys) = y # x # ys" using xy by simp
    ultimately show ?thesis by simp
  qed (use IH in auto)
qed simp

text \<open>When the comparison reads the slice that is sorted, the result is sorted.\<close>

lemma sink_insort:
  "sorted ys \<Longrightarrow> sink (\<lambda>xs i j. xs ! i < xs ! j) (length ys) (ys @ x # zs) = insort x ys @ zs" for x :: "'a::linorder"
proof (induction ys arbitrary: zs rule: rev_induct)
  case (snoc y ys)
  then have s: "sorted ys" "\<forall>z \<in> set ys. z \<le> y" by (auto simp: sorted_append)
  have i: "(ys @ y # x # zs) ! Suc (length ys) = x" "(ys @ y # x # zs) ! length ys = y"
    "(ys @ y # x # zs)[Suc (length ys) := y, length ys := x] = ys @ x # y # zs"
    by (simp_all add: nth_append list_update_append)
  show ?case
  proof (cases "x < y")
    case True
    with snoc.IH [OF s(1)] i show ?thesis by (simp add: insort_snoc_less)
  next
    case False
    with s have "\<forall>z \<in> set (ys @ [y]). z \<le> x" by auto
    from insort_last [OF snoc.prems this] False i show ?thesis by simp
  qed
qed simp

lemma sort_snoc: "sort (xs @ [x]) = insort x (sort xs)" for x :: "'a::linorder"
  by (rule properties_for_sort) (simp_all add: sorted_insort)

lemma fold_sink_sort:
  "k < length xs \<Longrightarrow>
   fold (sink (\<lambda>xs i j. xs ! i < xs ! j)) [1..<Suc k] xs = sort (take (Suc k) xs) @ drop (Suc k) xs" for xs :: "'a::linorder list"
proof (induction k)
  case 0
  then show ?case by (cases xs) auto
next
  case (Suc k)
  then have d: "drop (Suc k) xs = xs ! Suc k # drop (Suc (Suc k)) xs" by (simp add: Cons_nth_drop_Suc)
  have l: "length (sort (take (Suc k) xs)) = Suc k" using Suc.prems by simp
  have "fold (sink (\<lambda>xs i j. xs ! i < xs ! j)) [1..<Suc (Suc k)] xs
      = sink (\<lambda>xs i j. xs ! i < xs ! j) (Suc k) (fold (sink (\<lambda>xs i j. xs ! i < xs ! j)) [1..<Suc k] xs)"
    by simp
  also have "\<dots> = sink (\<lambda>xs i j. xs ! i < xs ! j) (Suc k) (sort (take (Suc k) xs) @ xs ! Suc k # drop (Suc (Suc k)) xs)"
    unfolding d [symmetric] by (rule arg_cong [OF Suc.IH [OF Suc_lessD [OF Suc.prems]]])
  also have "\<dots> = insort (xs ! Suc k) (sort (take (Suc k) xs)) @ drop (Suc (Suc k)) xs"
    by (rule sink_insort [OF sorted_sort, of "take (Suc k) xs", unfolded l])
  also have "\<dots> = sort (take (Suc (Suc k)) xs) @ drop (Suc (Suc k)) xs"
    using Suc.prems by (simp add: take_Suc_conv_app_nth [of "Suc k"] sort_snoc)
  finally show ?case .
qed

lemma sort_Slice_sort: "sort_Slice (\<lambda>xs i j. xs ! i < xs ! j) xs = sort xs" for xs :: "'a::linorder list"
proof (cases xs)
  case (Cons x ys)
  then show ?thesis using fold_sink_sort [of "length ys" xs] by (simp add: sort_Slice_def)
qed (simp add: sort_Slice_def)

text \<open>When it reads a slice that is sorted already, nothing is moved.\<close>

lemma sort_Slice_other:
  fixes ids :: "'b::linorder list"
  assumes "sorted ids" and "length xs \<le> length ids"
  shows "sort_Slice (\<lambda>_ i j. ids ! i < ids ! j) xs = xs"
proof -
  have "\<not> ids ! Suc j < ids ! j" if "Suc j < length ids" for j
    using sorted_nth_mono [OF assms(1), of j "Suc j"] that by simp
  then have "sink (\<lambda>_ i j. ids ! i < ids ! j) k ys = ys" if "k < length ids" for k and ys :: "'a list"
    using that by (cases k) simp_all
  then have "fold (sink (\<lambda>_ i j. ids ! i < ids ! j)) ks ys = ys" if "\<forall>k \<in> set ks. k < length ids" for ks and ys :: "'a list"
    using that by (induction ks) auto
  then show ?thesis using assms(2) by (simp add: sort_Slice_def)
qed

lemma MarshalLogObject_eq: "MarshalLogObject m = zip (sort (map fst m)) (map snd m)"
  by (simp add: MarshalLogObject_def sort_Slice_sort sort_Slice_other)

lemma zip_same_set:
  assumes d: "distinct ids" and l: "length ids = length vals"
    and m: "distinct (map fst m)" "set ids = fst ` set m"
  shows "set (zip ids vals) = set m \<longleftrightarrow> vals = map (the \<circ> map_of m) ids"
proof
  assume e: "set (zip ids vals) = set m"
  show "vals = map (the \<circ> map_of m) ids"
  proof (rule nth_equalityI)
    fix i assume i: "i < length vals"
    with l have "(ids ! i, vals ! i) \<in> set m" unfolding e [symmetric] by (auto simp: set_zip)
    with m(1) i l show "vals ! i = map (the \<circ> map_of m) ids ! i" by simp
  qed (use l in simp)
next
  assume v: "vals = map (the \<circ> map_of m) ids"
  have "(k, x) \<in> set m \<longleftrightarrow> k \<in> set ids \<and> x = the (map_of m k)" for k x
  proof
    assume "(k, x) \<in> set m"
    with m show "k \<in> set ids \<and> x = the (map_of m k)" by force
  next
    assume "k \<in> set ids \<and> x = the (map_of m k)"
    with m show "(k, x) \<in> set m" by (auto simp: map_of_eq_Some_iff)
  qed
  then show "set (zip ids vals) = set m" by (auto simp: v zip_map2 zip_same_conv_map)
qed

subsection \<open>What a node logs\<close>

lemma log_response_map_of:
  "map_of (log_response_entries es m) k
   = (let n = length (filter (\<lambda>e. clock_name (rs_NodeId e) = k) es)
      in if n = 0 then map_of m k else Some (case map_of m k of None \<Rightarrow> of_nat n | Some c \<Rightarrow> c + of_nat n))"
  by (induction es m rule: log_response_entries.induct)
    (auto simp: Let_def update_conv' algebra_simps split: option.splits)

lemma log_response_distinct: "distinct (map fst m) \<Longrightarrow> distinct (map fst (log_response_entries es m))"
  by (induction es m rule: log_response_entries.induct) (auto simp: Let_def distinct_update)

lemma fromResponseEntries_counts:
  "distinct (map fst (fromResponseEntries es))
   \<and> map_of (fromResponseEntries es) k
     = (let n = length (filter (\<lambda>e. clock_name (rs_NodeId e) = k) es) in if n = 0 then None else Some (of_nat n))"
  by (simp add: fromResponseEntries_def log_response_distinct log_response_map_of Let_def)

lemma log_request_distinct: "distinct (map fst m) \<Longrightarrow> distinct (map fst (log_request_entries es m))"
  by (induction es m rule: log_request_entries.induct) (auto simp: distinct_update)

lemma MarshalLogObject_right:
  assumes "distinct (map fst m)" and "mset m' = mset m"
  shows "set (MarshalLogObject m') = set m \<longleftrightarrow> map snd m' = map (the \<circ> map_of m) (sort (map fst m))"
proof -
  have "mset (map fst m') = mset (map fst m)" using assms(2) by simp
  then have f: "sort (map fst m') = sort (map fst m)" by (intro properties_for_sort) simp_all
  have "set m' = set m" by (rule mset_eq_setD [OF assms(2)])
  have "length m' = length m" by (rule mset_eq_length [OF assms(2)])
  then show ?thesis unfolding MarshalLogObject_eq f
    by (intro zip_same_set) (use assms(1) in \<open>auto simp: image_iff\<close>)
qed

lemma MarshalLogObject_always_right:
  assumes d: "distinct (map fst m)"
  shows "(\<forall>m'. mset m' = mset m \<longrightarrow> set (MarshalLogObject m') = set m) \<longleftrightarrow> (\<exists>c. \<forall>p \<in> set m. snd p = c)"
proof
  assume r: "\<forall>m'. mset m' = mset m \<longrightarrow> set (MarshalLogObject m') = set m"
  have same: "map snd m1 = map snd m2" if "mset m1 = mset m" "mset m2 = mset m" for m1 m2
    using r that MarshalLogObject_right [OF d] by metis
  have "snd a = snd b" if ab: "a \<in> set m" "b \<in> set m" "a \<noteq> b" for a b
  proof -
    from ab(1) obtain A where A: "mset m = add_mset a A" by (metis in_multiset_in_set multi_member_split)
    have "b \<in># add_mset a A" using ab(2) unfolding A [symmetric] by simp
    with ab(3) have "b \<in># A" by simp
    then obtain B where B: "A = add_mset b B" by (metis multi_member_split)
    obtain rest where "B = mset rest" using ex_mset by metis
    then have e: "mset (a # b # rest) = mset m" unfolding A B mset.simps by (rule arg_cong [OF sym])
    have "mset (b # a # rest) = mset (a # b # rest)" unfolding mset.simps by (rule add_mset_commute)
    with e have "mset (b # a # rest) = mset m" by (rule trans [rotated])
    from arg_cong [OF same [OF e this], of hd] show ?thesis unfolding list.map list.sel .
  qed
  then have e: "\<forall>a \<in> set m. \<forall>b \<in> set m. snd a = snd b" by metis
  show "\<exists>c. \<forall>p \<in> set m. snd p = c"
  proof (cases m)
    case (Cons a rest)
    then have "a \<in> set m" by simp
    with e have "\<forall>p \<in> set m. snd p = snd a" by blast
    then show ?thesis ..
  qed simp
next
  assume "\<exists>c. \<forall>p \<in> set m. snd p = c"
  then obtain c where c: "\<forall>p \<in> set m. snd p = c" ..
  have "set (MarshalLogObject m') = set m" if m': "mset m' = mset m" for m'
  proof -
    have "map snd m' = map (\<lambda>_. c) m'" using c mset_eq_setD [OF m'] by simp
    moreover have "map (the \<circ> map_of m) (sort (map fst m)) = map (\<lambda>_. c) (sort (map fst m))"
      using c d by (auto simp: image_iff)
    ultimately show ?thesis
      unfolding MarshalLogObject_right [OF d m'] using mset_eq_length [OF m'] by (simp add: map_replicate_const)
  qed
  then show "\<forall>m'. mset m' = mset m \<longrightarrow> set (MarshalLogObject m') = set m" by blast
qed

text \<open>
  C40: what a node logs of an answer counts the records of each node, by the name of its ID or, for a
  malformed ID, by its bytes in hexadecimal.  The log writes the names in their order, but pairs them
  with the counts in the order in which Go happens to iterate over the map: it is right whatever the
  order if and only if all counts are equal, so any two nodes with different counts can be confused.
\<close>

theorem logged_counts_are_shuffled:
  assumes "length (fromResponseEntries es) \<le> 12"
  shows "map_of (fromResponseEntries es) k
      = (let n = length (filter (\<lambda>e. clock_name (rs_NodeId e) = k) es) in if n = 0 then None else Some (of_nat n))
    \<and> (mset m' = mset (fromResponseEntries es)
         \<longrightarrow> MarshalLogObject m' = zip (sort (map fst (fromResponseEntries es))) (map snd m'))
    \<and> ((\<forall>m'. mset m' = mset (fromResponseEntries es) \<longrightarrow> set (MarshalLogObject m') = set (fromResponseEntries es))
        \<longleftrightarrow> (\<exists>c. \<forall>p \<in> set (fromResponseEntries es). snd p = c))"
proof -
  let ?m = "fromResponseEntries es"
  have c: "distinct (map fst ?m)"
    "map_of ?m k = (let n = length (filter (\<lambda>e. clock_name (rs_NodeId e) = k) es) in if n = 0 then None else Some (of_nat n))"
    using fromResponseEntries_counts [of es k] by simp_all
  have "sort (map fst m') = sort (map fst ?m)" if "mset m' = mset ?m"
  proof -
    have "mset (map fst m') = mset (map fst ?m)" using that by simp
    then show ?thesis by (intro properties_for_sort) simp_all
  qed
  with c MarshalLogObject_always_right [OF c(1)] show ?thesis by (simp add: MarshalLogObject_eq)
qed

definition demo_entry :: "bytes \<Rightarrow> response_entry" where
  "demo_entry nid = \<lparr>rs_NodeId = nid, rs_EncryptionKeyHash = [],
     rs_Record = \<lparr>pb_CreatedAtUnix = 0, pb_Public = False, pb_SatelliteAddress = [], pb_MacaroonHead = [],
       pb_ExpiresAtUnix = 0, pb_EncryptedSecretKey = [], pb_EncryptedAccessGrant = [], pb_InvalidationReason = [],
       pb_InvalidatedAtUnix = 0, pb_State = CREATED\<rparr>\<rparr>"

text \<open>Two records of node \<open>A\<close> and one of node \<open>B\<close>; the iteration starts with \<open>B\<close>.\<close>

theorem logged_counts_are_shuffled_witness:
  "\<exists>m'. mset m' = mset (fromResponseEntries (map demo_entry [''A'', ''B'', ''A'']))
     \<and> MarshalLogObject m' = [(''A'', 1), (''B'', 2)]
     \<and> map_of (fromResponseEntries (map demo_entry [''A'', ''B'', ''A''])) ''A'' = Some 2"
proof -
  have f: "fromResponseEntries (map demo_entry [''A'', ''B'', ''A'']) = [(''A'', 2), (''B'', 1)]" by code_simp
  have s: "sort [''A'', ''B''] = [''A'', ''B'']" by code_simp
  have l: "length (fromResponseEntries (map demo_entry [''A'', ''B'', ''A''])) \<le> 12" unfolding f by simp
  have "MarshalLogObject [(''B'', 1), (''A'', 2)] = [(''A'', 1), (''B'', 2)]"
    using logged_counts_are_shuffled [OF l, of "''A''" "[(''B'', 1), (''A'', 2)]"] unfolding f
    by (simp add: s)
  then show ?thesis unfolding f by (intro exI [of _ "[(''B'', 1), (''A'', 2)]"]) simp
qed

end
