(* ===== verification/ServiceLogs.thy ===== *)
theory ServiceLogs
  imports Logging
begin

section \<open>What the services log, and their request IDs (pkg/httpserver/log.go, pkg/auth/peer.go, pkg/middleware)\<close>

text \<open>
  The logging around the HTTP servers: that of package httpserver, which link sharing uses, and that of
  the authentication service.  Entries are those of theory Logging.  The value that a handler
  panics with is given; a request whose client address cannot be read panics too (see theory TrustedIP).
\<close>

subsection \<open>Requests\<close>

definition service_logRequests :: "log_env \<Rightarrow> string \<Rightarrow> string \<Rightarrow> http_req \<Rightarrow> log_line list option" where
  "service_logRequests V message proto r =
     map_option (\<lambda>l. emit V DebugLevel message [HttpField l, StrField ''host'' (hr_Host r)])
       (http_log_of proto r (0, 0, 0) False)"

definition httpserver_logRequests :: "log_env \<Rightarrow> string \<Rightarrow> http_req \<Rightarrow> log_line list option" where
  "httpserver_logRequests V = service_logRequests V ''access''"

definition auth_LogRequests :: "log_env \<Rightarrow> string \<Rightarrow> http_req \<Rightarrow> log_line list option" where
  "auth_LogRequests V = service_logRequests V ''request''"

subsection \<open>Responses\<close>

definition served_status :: "http_served \<Rightarrow> http_served" where
  "served_status s = (if sv_wroteHeader s then s else s\<lparr>sv_wroteHeader := True, sv_status := 200\<rparr>)"

definition service_response :: "log_env \<Rightarrow> string \<Rightarrow> http_req \<Rightarrow> string \<Rightarrow> http_served \<Rightarrow> recovered + log_line list" where
  "service_response V proto r requestID s =
     (case http_log_of proto r (sv_written s, sv_status s, sv_elapsed s) False of
        None \<Rightarrow> Inl (remote_ip_panic r)
      | Some l \<Rightarrow> Inr (emit V (StatusLevel (sv_status s)) ''response''
          [HttpField l, StrField ''host'' (hr_Host r), StrField ''request-id'' requestID]))"

text \<open>
  The entries, and what the request panics with.  Package httpserver reads the address of the client only
  if the level is enabled, and logs any panic, its own included; the authentication service reads it
  always, and logs no panic.
\<close>

definition httpserver_logResponses :: "log_env \<Rightarrow> string \<Rightarrow> http_req \<Rightarrow> string \<Rightarrow> recovered + http_served
    \<Rightarrow> log_line list \<times> recovered option" where
  "httpserver_logResponses V proto r requestID served =
     log_panic V
       (case served of
          Inl rec \<Rightarrow> Inl rec
        | Inr s0 \<Rightarrow>
            let s = served_status s0
            in if \<not> lv_enabled V (StatusLevel (sv_status s)) then Inr [] else service_response V proto r requestID s)"

definition auth_LogResponses :: "log_env \<Rightarrow> string \<Rightarrow> http_req \<Rightarrow> string \<Rightarrow> recovered + http_served
    \<Rightarrow> log_line list \<times> recovered option" where
  "auth_LogResponses V proto r requestID served =
     (case served of
        Inl rec \<Rightarrow> ([], Some rec)
      | Inr s0 \<Rightarrow>
          (case service_response V proto r requestID (served_status s0) of
             Inl rec \<Rightarrow> ([], Some rec)
           | Inr es \<Rightarrow> (es, None)))"

subsection \<open>Request IDs (middleware/request_id.go)\<close>

text \<open>The header of the response, and the ID in the context of the request; \<open>new\<close> is a new ID in hexadecimal.\<close>

definition AddRequestID :: "string \<Rightarrow> header \<Rightarrow> header \<Rightarrow> header \<times> string" where
  "AddRequestID new request response =
     (let requestID = (let given = header_get request XStorjRequestID in if given = [] then new else given)
      in (header_set XStorjRequestID requestID response, requestID))"

text \<open>\<open>ctx\<close> is the value in the context, if there is a context and a value.\<close>

definition GetRequestID :: "string option \<Rightarrow> string" where
  "GetRequestID ctx = (case ctx of Some reqID \<Rightarrow> reqID | None \<Rightarrow> [])"

subsection \<open>What the entries depend on\<close>

text \<open>The request URI, its path and its query are in no entry.\<close>

lemma service_logs_hide_uri:
  assumes "r' = r\<lparr>hr_RequestURI := u, hr_Path := p, hr_RawQuery := q, hr_Query := qs\<rparr>"
  shows "httpserver_logRequests V proto r' = httpserver_logRequests V proto r"
    and "httpserver_logResponses V proto r' i served = httpserver_logResponses V proto r i served"
    and "auth_LogRequests V proto r' = auth_LogRequests V proto r"
    and "auth_LogResponses V proto r' i served = auth_LogResponses V proto r i served"
proof -
  have l: "http_log_of proto r' res False = http_log_of proto r res False" for res
    by (simp add: assms http_log_of_def getRemoteIP_def)
  have h: "hr_Host r' = hr_Host r" "remote_ip_panic r' = remote_ip_panic r" by (simp_all add: assms remote_ip_panic_def)
  show "httpserver_logRequests V proto r' = httpserver_logRequests V proto r"
    and "auth_LogRequests V proto r' = auth_LogRequests V proto r"
    by (simp_all add: httpserver_logRequests_def auth_LogRequests_def service_logRequests_def l h)
  have s: "service_response V proto r' i s = service_response V proto r i s" for s
    unfolding service_response_def l h ..
  show "httpserver_logResponses V proto r' i served = httpserver_logResponses V proto r i served"
    unfolding httpserver_logResponses_def s ..
  show "auth_LogResponses V proto r' i served = auth_LogResponses V proto r i served"
    unfolding auth_LogResponses_def s ..
qed

text \<open>
  A client's ID is kept, and the response tells it; what is logged with a response is the ID that a
  client was told.
\<close>

lemma request_id_is_told:
  assumes "AddRequestID new request response = (response', requestID)"
  shows "header_get response' XStorjRequestID = requestID"
    and "header_get request XStorjRequestID \<noteq> [] \<Longrightarrow> requestID = header_get request XStorjRequestID"
    and "service_response V proto r requestID s = Inr es
      \<Longrightarrow> \<forall>line \<in> set es. StrField ''request-id'' (header_get response' XStorjRequestID) \<in> set (en_fields line)"
  using assms
  by (auto simp: AddRequestID_def Let_def service_response_def emit_def equal_fold_def split: if_splits option.splits)

end
