(* ===== verification/GoCalendar.thy ===== *)
theory GoCalendar
  imports GoTime
begin

section \<open>The calendar of a Unix time (Go's \<open>time.Unix\<close> and its fields in UTC)\<close>

text \<open>
  The inverse of \<open>civil_time\<close>: year, month and day of a count of seconds since 1970, from the year 0 on.
  The year is found by counting up from a year that is not too late.
\<close>

definition year_length :: "nat \<Rightarrow> nat" where
  "year_length y = (if leap y then 366 else 365)"

lemma year_length_pos: "0 < year_length y"
  by (simp add: year_length_def)

function year_of :: "nat \<Rightarrow> nat \<Rightarrow> nat \<times> nat" where
  "year_of y d = (if d < year_length y then (y, d) else year_of (Suc y) (d - year_length y))"
  by pat_completeness auto
termination
  by (relation "measure snd") (use year_length_pos in \<open>auto simp: not_less intro: diff_less less_le_trans\<close>)

declare year_of.simps [simp del]

function month_of :: "nat \<Rightarrow> nat \<Rightarrow> nat \<Rightarrow> nat \<times> nat" where
  "month_of y m d = (if m \<ge> 12 \<or> d < days_in_month y m then (m, Suc d) else month_of y (Suc m) (d - days_in_month y m))"
  by pat_completeness auto
termination
  by (relation "measure (\<lambda>(y, m, d). 12 - m)") auto

declare month_of.simps [simp del]

definition unix_civil :: "int \<Rightarrow> civil" where
  "unix_civil t =
     (let days = nat (t div 86400 + 719528);
          y0 = days div 366;
          (y, d) = year_of y0 (days - days_before_year y0);
          (m, day) = month_of y 1 d;
          s = nat (t mod 86400)
      in \<lparr>cv_year = y, cv_month = m, cv_day = day, cv_hour = s div 3600, cv_min = s mod 3600 div 60, cv_sec = s mod 60,
          cv_nsec = 0\<rparr>)"

subsection \<open>The round trip\<close>

lemma days_before_year_Suc: "days_before_year (Suc y) = days_before_year y + year_length y"
proof (cases y)
  case 0
  then show ?thesis by (simp add: days_before_year_def year_length_def leap_def)
next
  case (Suc k)
  have "k div 100 \<le> k div 4" by (rule div_le_mono2) simp_all
  moreover have "Suc k div 100 \<le> Suc k div 4" by (rule div_le_mono2) simp_all
  moreover have "Suc k mod 400 = 0 \<Longrightarrow> Suc k mod 100 = 0" "Suc k mod 100 = 0 \<Longrightarrow> Suc k mod 4 = 0"
    using mod_mod_cancel [of 100 400 "Suc k"] mod_mod_cancel [of 4 100 "Suc k"] by simp_all
  ultimately show ?thesis unfolding Suc
    by (simp add: days_before_year_def year_length_def leap_def div_Suc) (auto simp: ac_simps)
qed

lemma days_before_year_le: "days_before_year y \<le> 366 * y"
proof (cases y)
  case (Suc k)
  have "k div 400 \<le> k div 100" "k div 4 \<le> k" by (rule div_le_mono2) simp_all
  with Suc show ?thesis by (simp add: days_before_year_def)
qed (simp add: days_before_year_def)

lemma year_of_days:
  "year_of y d = (y', d') \<Longrightarrow> days_before_year y' + d' = days_before_year y + d \<and> d' < year_length y'"
proof (induction y d rule: year_of.induct)
  case (1 y d)
  show ?case
  proof (cases "d < year_length y")
    case True
    with "1.prems" show ?thesis by (simp add: year_of.simps [of y d])
  next
    case False
    with "1.prems" have "year_of (Suc y) (d - year_length y) = (y', d')" by (simp add: year_of.simps [of y d])
    from "1.IH" [OF False this] False show ?thesis by (simp add: days_before_year_Suc)
  qed
qed

lemma days_before_month_Suc: "1 \<le> m \<Longrightarrow> days_before_month y (Suc m) = days_before_month y m + days_in_month y m"
  by (simp add: days_before_month_def)

lemma days_before_december: "days_before_month y 12 + 31 = year_length y"
  by (simp add: days_before_month_def days_in_month_def year_length_def upt_conv_Cons)

lemma month_of_days:
  assumes "month_of y m d = (m', d')" and "1 \<le> m" and "m \<le> 12" and "days_before_month y m + d < year_length y"
  shows "days_before_month y m' + d' = days_before_month y m + d + 1 \<and> 1 \<le> m' \<and> m' \<le> 12
    \<and> 1 \<le> d' \<and> d' \<le> days_in_month y m'"
  using assms
proof (induction y m d rule: month_of.induct)
  case (1 y m d)
  show ?case
  proof (cases "m \<ge> 12 \<or> d < days_in_month y m")
    case True
    with "1.prems" have e: "m' = m" "d' = Suc d" by (simp_all add: month_of.simps [of y m d])
    have "Suc d \<le> days_in_month y m"
    proof (cases "d < days_in_month y m")
      case False
      with True "1.prems"(3) have "m = 12" by simp
      with "1.prems"(4) days_before_december [of y] show ?thesis by (simp add: days_in_month_def)
    qed simp
    with e "1.prems" show ?thesis by simp
  next
    case False
    with "1.prems"(1) have m: "month_of y (Suc m) (d - days_in_month y m) = (m', d')" by (simp add: month_of.simps [of y m d])
    have "days_before_month y (Suc m) + (d - days_in_month y m) = days_before_month y m + d"
      using False "1.prems"(2) by (simp add: days_before_month_Suc)
    with "1.IH" [OF False m] False "1.prems" show ?thesis by simp
  qed
qed

lemma clock_of_seconds: "s div 3600 * 3600 + s mod 3600 div 60 * 60 + s mod 60 = (s :: nat)"
proof -
  have "s mod 3600 mod 60 = s mod 60" by (simp add: mod_mod_cancel)
  then show ?thesis by (metis add.assoc div_mult_mod_eq)
qed

text \<open>The calendar of a time is a possible date, and the date of that time.\<close>

lemma civil_time_unix_civil:
  assumes "- 719528 * 86400 \<le> t"
  shows "civil_time (unix_civil t) = t * 1000000000"
    and "1 \<le> cv_month (unix_civil t) \<and> cv_month (unix_civil t) \<le> 12 \<and> 1 \<le> cv_day (unix_civil t)
      \<and> cv_day (unix_civil t) \<le> days_in_month (cv_year (unix_civil t)) (cv_month (unix_civil t))
      \<and> cv_hour (unix_civil t) < 24 \<and> cv_min (unix_civil t) < 60 \<and> cv_sec (unix_civil t) < 60"
proof -
  define days where "days = nat (t div 86400 + 719528)"
  define s where "s = nat (t mod 86400)"
  obtain y d where y: "year_of (days div 366) (days - days_before_year (days div 366)) = (y, d)" by fastforce
  obtain m day where m: "month_of y 1 d = (m, day)" by fastforce
  have "days_before_year (days div 366) \<le> days"
    using days_before_year_le [of "days div 366"] div_times_less_eq_dividend [of days 366] by simp
  with year_of_days [OF y] have yd: "days_before_year y + d = days" "d < year_length y" by simp_all
  from month_of_days [OF m] yd(2)
  have md: "days_before_month y m + day = d + 1" "1 \<le> m \<and> m \<le> 12 \<and> 1 \<le> day \<and> day \<le> days_in_month y m"
    by (simp_all add: days_before_month_def)
  have u: "unix_civil t = \<lparr>cv_year = y, cv_month = m, cv_day = day, cv_hour = s div 3600, cv_min = s mod 3600 div 60,
      cv_sec = s mod 60, cv_nsec = 0\<rparr>"
    by (simp add: unix_civil_def Let_def days_def [symmetric] s_def [symmetric] y m [unfolded One_nat_def])
  have s: "int s = t mod 86400" "s < 86400" by (simp_all add: s_def nat_less_iff)
  have "- 719528 \<le> t div 86400" using assms by (simp add: int_div_pos_eq zdiv_mono1 [of "- 719528 * 86400" t 86400, simplified])
  then have dd: "int days = t div 86400 + 719528" by (simp add: days_def)
  have "int (days_before_year y + days_before_month y m + day) - 719529 = t div 86400"
    using yd(1) md(1) dd by linarith
  moreover have "s div 3600 * 3600 + s mod 3600 div 60 * 60 + s mod 60 = s" by (rule clock_of_seconds)
  ultimately show "civil_time (unix_civil t) = t * 1000000000"
    unfolding civil_time_def u Let_def using s(1) by simp
  show "1 \<le> cv_month (unix_civil t) \<and> cv_month (unix_civil t) \<le> 12 \<and> 1 \<le> cv_day (unix_civil t)
      \<and> cv_day (unix_civil t) \<le> days_in_month (cv_year (unix_civil t)) (cv_month (unix_civil t))
      \<and> cv_hour (unix_civil t) < 24 \<and> cv_min (unix_civil t) < 60 \<and> cv_sec (unix_civil t) < 60"
    unfolding u using md(2) s(2) by (simp add: less_mult_imp_div_less)
qed

lemma unix_civil_example:
  "unix_civil 1646092799 = \<lparr>cv_year = 2022, cv_month = 2, cv_day = 28, cv_hour = 23, cv_min = 59, cv_sec = 59, cv_nsec = 0\<rparr>"
  by (simp add: unix_civil_def Let_def year_of.simps month_of.simps days_before_year_def year_length_def leap_def days_in_month_def)

end
