(* ===== verification/LinkPeer.thy ===== *)
theory LinkPeer
  imports Servers Lookups Linksharing
begin

section \<open>The link sharing service as a whole (pkg/linksharing/peer.go, sharing/handler.go)\<close>

text \<open>
  How the handler, the decision about certificates and the server of the link sharing service are put
  together, and how they are closed.  Parsing of URLs, templates, the connection pool, opening of the
  database of locations and the identity of the service are the parameter \<open>link_lib\<close>.  A constructor
  returns its result with the resources that are open then, the latest first: the reader of locations and
  sockets, given by their addresses.
\<close>

datatype link_resource = GeoReader | Socket string

record link_lib =
  ll_ParseURL :: "string \<Rightarrow> err + base_url"
  ll_String :: "base_url \<Rightarrow> string"
  ll_ParseGlob :: "string \<Rightarrow> err option"
  ll_SetConnectionPool :: "err option"
  ll_OpenGeo :: "string \<Rightarrow> err option"
  ll_LoadIdentity :: "err option"
  ll_NewTLSOptions :: "err option"

subsection \<open>The handler\<close>

record handler_config =
  hc_URLBases :: "string list"
  hc_Templates :: string
  hc_RedirectHTTPS :: bool
  hc_LandingRedirectTarget :: string
  hc_TXTRecordTTL :: int
  hc_ClientTrustedIPsList :: "string list"
  hc_UseClientIPHeaders :: bool
  hc_StandardRendersContent :: bool
  hc_StandardViewsHTML :: bool

fun parse_bases :: "(string \<Rightarrow> err + base_url) \<Rightarrow> string list \<Rightarrow> err + base_url list" where
  "parse_bases parse [] = Inr []"
| "parse_bases parse (b # bs) =
     (case parse b of
        Inl e \<Rightarrow> Inl e
      | Inr u \<Rightarrow> (case parse_bases parse bs of Inl e \<Rightarrow> Inl e | Inr us \<Rightarrow> Inr (u # us)))"

text \<open>From which peers the headers about the client's address are believed.\<close>

definition client_ip_list :: "bool \<Rightarrow> string list \<Rightarrow> trusted_list" where
  "client_ip_list useHeaders ips =
     (if useHeaders then (if ips \<noteq> [] then NewList ips else NewListTrustAll) else NewListUntrustAll)"

text \<open>
  \<open>NewHandler\<close>, with the client of the authentication service and the TXT records it is given.  The base
  of the links in a page is the text of the first URL without a slash at its end.
\<close>

definition NewHandler :: "link_lib \<Rightarrow> handler_config \<Rightarrow> err + sharing_config" where
  "NewHandler L c =
     (case parse_bases (parseURLBase (ll_ParseURL L)) (hc_URLBases c) of
        Inl e \<Rightarrow> Inl e
      | Inr [] \<Rightarrow> Inl (Message ''requires at least one url base'')
      | Inr (base # bases) \<Rightarrow>
          (case ll_ParseGlob L (path_join [hc_Templates c, ''*.html'']) of
             Some e \<Rightarrow> Inl e
           | None \<Rightarrow>
               (case ll_SetConnectionPool L of
                  Some e \<Rightarrow> Inl e
                | None \<Rightarrow>
                    Inr \<lparr>sc_urlBases = map bu_Host (base # bases), sc_baseURL = trim_suffix (ll_String L base) ''/'',
                      sc_redirectHTTPS = hc_RedirectHTTPS c, sc_landingRedirect = hc_LandingRedirectTarget c,
                      sc_trustedClientIPs = client_ip_list (hc_UseClientIPHeaders c) (hc_ClientTrustedIPsList c),
                      sc_standardRendersContent = hc_StandardRendersContent c,
                      sc_standardViewsHTML = hc_StandardViewsHTML c, sc_txtTTL = hc_TXTRecordTTL c\<rparr>)))"

subsection \<open>The decision about certificates\<close>

definition NewTierQueryingService :: "link_lib \<Rightarrow> err option" where
  "NewTierQueryingService L = (case ll_LoadIdentity L of Some e \<Rightarrow> Some e | None \<Rightarrow> ll_NewTLSOptions L)"

text \<open>What the decision function is made of: the hosts of the public URLs, as they are parsed, ports included.\<close>

definition decision_hosts :: "link_lib \<Rightarrow> string list \<Rightarrow> err + string list" where
  "decision_hosts L publicURLs =
     (case parse_bases (ll_ParseURL L) publicURLs of
        Inl e \<Rightarrow> Inl (Message ''invalid public URL'')
      | Inr bases \<Rightarrow>
          (case NewTierQueryingService L of
             Some e \<Rightarrow> Inl (Detail ''unable to create tier querying service'' e)
           | None \<Rightarrow> Inr (map bu_Host bases)))"

text \<open>There is a decision function only if certmagic manages the certificates.\<close>

definition link_decision :: "link_lib \<Rightarrow> tls_options option \<Rightarrow> err + string list option" where
  "link_decision L tls =
     (case tls of
        None \<Rightarrow> Inr None
      | Some t \<Rightarrow>
          if \<not> to_CertMagic t then Inr None
          else case decision_hosts L (to_PublicURLs t) of Inl e \<Rightarrow> Inl e | Inr hosts \<Rightarrow> Inr (Some hosts))"

text \<open>The function itself, with the cache of paid tiers in the state \<open>q\<close>.\<close>

definition link_decides :: "uplink_access access_lib \<Rightarrow> 'c auth_env \<Rightarrow> int \<Rightarrow> (string \<Rightarrow> err + dns_rr list) \<Rightarrow> string list
    \<Rightarrow> string list \<Rightarrow> tier_env \<Rightarrow> (bool, 'q) lru \<Rightarrow> 'q \<Rightarrow> (string \<Rightarrow> err + string option list) \<Rightarrow> time \<Rightarrow> string
    \<Rightarrow> uplink_access txt_cache \<times> 'c \<Rightarrow> (err option \<times> pending option \<times> uplink_access txt_cache \<times> 'c) option" where
  "link_decides A E maxTTL dns hosts allowlist T C q cnames now name st =
     customDomainsOverTLSDecision A E maxTTL dns hosts allowlist (\<lambda>a n. fst (tier_Do T C a n q)) cnames now name st"

subsection \<open>The peer\<close>

record link_config =
  lc_Server :: server_config
  lc_Handler :: handler_config
  lc_ShutdownDelay :: int
  lc_GeoLocationDB :: string

record 'c link_peer =
  lp_server :: "'c http_server"
  lp_handler :: sharing_config
  lp_mapper :: bool
  lp_decision :: "string list option"
  lp_shutdownDelay :: int
  lp_inShutdown :: bool

definition link_New :: "link_lib \<Rightarrow> 'c tls_env \<Rightarrow> 'i check_env \<Rightarrow> link_config \<Rightarrow> (err + 'c link_peer) \<times> link_resource list" where
  "link_New L T I c =
     (case (if lc_GeoLocationDB c = [] then Inr []
            else case ll_OpenGeo L (lc_GeoLocationDB c) of
                   Some e \<Rightarrow> Inl (Detail ''unable to open geo location db'' e)
                 | None \<Rightarrow> Inr [GeoReader]) of
        Inl e \<Rightarrow> (Inl e, [])
      | Inr open \<Rightarrow>
          (case NewHandler L (lc_Handler c) of
             Inl e \<Rightarrow> (Inl (Detail ''unable to create handler'' e), open)
           | Inr handler \<Rightarrow>
               (case link_decision L (sc_TLSConfig (lc_Server c)) of
                  Inl e \<Rightarrow> (Inl (Detail ''unable to get decision func for Custom Domains@TLS feature'' e), open)
                | Inr decision \<Rightarrow>
                    (case NewServer T I True (decision \<noteq> None) (lc_Server c) of
                       (Inl e, sockets) \<Rightarrow> (Inl (Detail ''unable to create httpserver'' e), map Socket sockets @ open)
                     | (Inr server, sockets) \<Rightarrow>
                         (Inr \<lparr>lp_server = server, lp_handler = handler, lp_mapper = (open \<noteq> []), lp_decision = decision,
                            lp_shutdownDelay = lc_ShutdownDelay c, lp_inShutdown = False\<rparr>,
                          map Socket sockets @ open)))))"

definition link_Run :: "'c link_peer \<Rightarrow> (node_check \<Rightarrow> err option) \<Rightarrow> (server_task \<times> err) list \<Rightarrow> err option option" where
  "link_Run p check served = server_Run (lp_server p) check served"

text \<open>
  \<open>Close\<close>: the peer is in its shutdown first, then sleeps, then the server and the reader of locations are
  closed, each whatever the other returns.  The result has the error, how long it slept, the peer, and
  what is open still.
\<close>

definition link_Close :: "err option \<Rightarrow> err option \<Rightarrow> 'c link_peer \<Rightarrow> link_resource list
    \<Rightarrow> err option \<times> int \<times> 'c link_peer \<times> link_resource list" where
  "link_Close shutdown closeReader p open =
     (combine [shutdown, if lp_mapper p then closeReader else None],
      if lp_shutdownDelay p > 0 then lp_shutdownDelay p else 0,
      p\<lparr>lp_inShutdown := True\<rparr>,
      filter (\<lambda>r. case r of
                GeoReader \<Rightarrow> \<not> lp_mapper p
              | Socket a \<Rightarrow> a \<noteq> hs_listener (lp_server p) \<and> Some a \<noteq> hs_listenerTLS (lp_server p)) open)"

subsection \<open>What is open, and what closing leaves\<close>

lemma link_New_cases:
  assumes "link_New L T I c = (r, open)"
  obtains (geo) e where "lc_GeoLocationDB c \<noteq> []" "ll_OpenGeo L (lc_GeoLocationDB c) = Some e"
      "r = Inl (Detail ''unable to open geo location db'' e)" "open = []"
  | (early) e geo where "lc_GeoLocationDB c = [] \<and> geo = [] \<or> lc_GeoLocationDB c \<noteq> [] \<and> ll_OpenGeo L (lc_GeoLocationDB c) = None
      \<and> geo = [GeoReader]" "r = Inl e" "open = geo"
  | (server) e geo decision sockets where "lc_GeoLocationDB c = [] \<and> geo = [] \<or> lc_GeoLocationDB c \<noteq> []
      \<and> ll_OpenGeo L (lc_GeoLocationDB c) = None \<and> geo = [GeoReader]"
      "NewServer T I True decision (lc_Server c) = (Inl e, sockets)"
      "r = Inl (Detail ''unable to create httpserver'' e)" "open = map Socket sockets @ geo"
  | (made) server handler geo decision sockets where "lc_GeoLocationDB c = [] \<and> geo = [] \<or> lc_GeoLocationDB c \<noteq> []
      \<and> ll_OpenGeo L (lc_GeoLocationDB c) = None \<and> geo = [GeoReader]"
      "NewHandler L (lc_Handler c) = Inr handler" "link_decision L (sc_TLSConfig (lc_Server c)) = Inr decision"
      "NewServer T I True (decision \<noteq> None) (lc_Server c) = (Inr server, sockets)"
      "r = Inr \<lparr>lp_server = server, lp_handler = handler, lp_mapper = (geo \<noteq> []), lp_decision = decision,
         lp_shutdownDelay = lc_ShutdownDelay c, lp_inShutdown = False\<rparr>" "open = map Socket sockets @ geo"
proof -
  define geo :: "link_resource list" where "geo = (if lc_GeoLocationDB c = [] then [] else [GeoReader])"
  show thesis
  proof (cases "lc_GeoLocationDB c \<noteq> [] \<and> ll_OpenGeo L (lc_GeoLocationDB c) \<noteq> None")
    case True
    with assms show thesis by (auto simp: link_New_def intro: geo)
  next
    case False
    then have g: "lc_GeoLocationDB c = [] \<and> geo = [] \<or> lc_GeoLocationDB c \<noteq> [] \<and> ll_OpenGeo L (lc_GeoLocationDB c) = None
        \<and> geo = [GeoReader]" by (auto simp: geo_def)
    have n: "link_New L T I c = (case NewHandler L (lc_Handler c) of
        Inl e \<Rightarrow> (Inl (Detail ''unable to create handler'' e), geo)
      | Inr handler \<Rightarrow>
          (case link_decision L (sc_TLSConfig (lc_Server c)) of
             Inl e \<Rightarrow> (Inl (Detail ''unable to get decision func for Custom Domains@TLS feature'' e), geo)
           | Inr decision \<Rightarrow>
               (case NewServer T I True (decision \<noteq> None) (lc_Server c) of
                  (Inl e, sockets) \<Rightarrow> (Inl (Detail ''unable to create httpserver'' e), map Socket sockets @ geo)
                | (Inr server, sockets) \<Rightarrow>
                    (Inr \<lparr>lp_server = server, lp_handler = handler, lp_mapper = (geo \<noteq> []), lp_decision = decision,
                       lp_shutdownDelay = lc_ShutdownDelay c, lp_inShutdown = False\<rparr>, map Socket sockets @ geo))))"
      using g by (auto simp: link_New_def)
    show thesis
    proof (cases "NewHandler L (lc_Handler c)")
      case (Inl e)
      with n assms g show thesis by (intro early) auto
    next
      case h: (Inr handler)
      show thesis
      proof (cases "link_decision L (sc_TLSConfig (lc_Server c))")
        case (Inl e)
        with n assms g h show thesis by (intro early) auto
      next
        case d: (Inr decision)
        obtain x sockets where s: "NewServer T I True (decision \<noteq> None) (lc_Server c) = (x, sockets)" by fastforce
        show thesis
        proof (cases x)
          case (Inl e)
          with n assms g h d s show thesis by (intro server) auto
        next
          case (Inr srv)
          with n assms g h d s show thesis by (intro made) auto
        qed
      qed
    qed
  qed
qed

lemma link_decision_iff:
  "link_decision L tls = Inr d \<Longrightarrow> d \<noteq> None \<longleftrightarrow> (\<exists>t. tls = Some t \<and> to_CertMagic t)"
  by (auto simp: link_decision_def split: option.splits if_splits sum.splits)

lemma combine_two_None: "combine [a, b] = None \<longleftrightarrow> a = None \<and> b = None"
  by (cases a; cases b) (simp_all add: combine_def)

text \<open>
  A link sharing service that could be made holds its sockets and, if a database of locations is
  configured, the reader of it; closing it leaves nothing open, whatever the server and the reader return
  then, and turns its health to 503 before it sleeps.  One that could not be made keeps the reader open
  whenever it had been opened, and what the server has opened: nothing is closed on an error.
\<close>

lemma link_service_resources:
  assumes "link_New L T I c = (r, open)"
  shows "(GeoReader \<in> set open \<longleftrightarrow> lc_GeoLocationDB c \<noteq> [] \<and> ll_OpenGeo L (lc_GeoLocationDB c) = None) \<and>
    (case r of
       Inl e \<Rightarrow> set open \<subseteq> {GeoReader, Socket (sc_Address (lc_Server c)), Socket (sc_AddressTLS (lc_Server c))}
     | Inr p \<Rightarrow>
         set open = Socket ` ({hs_listener (lp_server p)} \<union> set_option (hs_listenerTLS (lp_server p)))
           \<union> (if lc_GeoLocationDB c = [] then {} else {GeoReader})
         \<and> healthProcess (lp_inShutdown p) write w = (write ''okay'', w_part (Text ''okay'') w)
         \<and> (case link_Close shutdown closeReader p open of
              (e, slept, p', left) \<Rightarrow>
                left = [] \<and> slept = max 0 (lc_ShutdownDelay c)
                \<and> healthProcess (lp_inShutdown p') write w = (None, w_part (Text ''down'') (w_status 503 w))
                \<and> (e = None \<longleftrightarrow> shutdown = None \<and> (lc_GeoLocationDB c = [] \<or> closeReader = None))))"
proof -
  from assms show ?thesis
  proof (cases rule: link_New_cases)
    case (server e geo decision sockets)
    from NewServer_cases [OF server(2)] have "set sockets \<subseteq> {sc_Address (lc_Server c), sc_AddressTLS (lc_Server c)}" by auto
    with server show ?thesis by auto
  next
    case (made server handler geo decision sockets)
    from NewServer_cases [OF made(4)]
    have s: "set sockets = {hs_listener server} \<union> set_option (hs_listenerTLS server)" by auto
    with made(1,5,6) have opened: "set open = Socket ` ({hs_listener server} \<union> set_option (hs_listenerTLS server))
        \<union> (if lc_GeoLocationDB c = [] then {} else {GeoReader})"
      and g: "geo \<noteq> [] \<longleftrightarrow> lc_GeoLocationDB c \<noteq> []" by auto
    have l: "filter (\<lambda>r. case r of GeoReader \<Rightarrow> geo = []
        | Socket a \<Rightarrow> a \<noteq> hs_listener server \<and> Some a \<noteq> hs_listenerTLS server) open = []"
      unfolding filter_empty_conv opened using g by (auto split: link_resource.splits if_splits)
    have n: "GeoReader \<in> set open \<longleftrightarrow> lc_GeoLocationDB c \<noteq> [] \<and> ll_OpenGeo L (lc_GeoLocationDB c) = None"
      using opened made(1) by auto
    show ?thesis
      using n g by (auto simp: made(5) opened l link_Close_def healthProcess_def combine_two_None max_def)
  qed auto
qed

subsection \<open>For whom certificates are obtained\<close>

definition allowlisted :: "string list \<Rightarrow> string \<Rightarrow> bool" where
  "allowlisted allowlist name \<longleftrightarrow> ''*'' \<in> set allowlist \<or> name \<in> set allowlist"

lemma decision_None:
  assumes "customDomainsOverTLSDecision A E maxTTL dns hosts allowlist tier cnames now name st = Some (None, p, t)"
    and "name \<notin> set hosts"
  obtains res where "FetchAccessForHostNoAccessGrant A E maxTTL dns now name [] st = Some (Inr res, p, t)" "tr_TLS res"
    "allowlisted allowlist name \<or> tier (tr_Access res) name = Inr True \<and> validateCNAME cnames name hosts = None"
  using assms
  by (auto simp: customDomainsOverTLSDecision_def allowlisted_def list_ex_iff split: option.splits sum.splits if_splits)

lemma validateCNAME_None:
  "validateCNAME cnames name hosts = None \<longleftrightarrow>
   (\<exists>answers host target. cnames name = Inr answers \<and> host \<in> set hosts \<and> Some target \<in> set answers
      \<and> (target = host \<or> target = host @ ''.''))"
  by (auto simp: validateCNAME_def list_ex_iff split: sum.splits option.splits)

text \<open>
  C21: a certificate for a domain that is not one of the public hosts is obtained only if the lookup of its
  TXT records finds an access and that it asks for TLS, and the domain is on the list of
  those that need not pay, or else a satellite has said, now or for an earlier query with the same API
  key, that the owner pays, and the domain is an alias of a public host.  Hosts are compared with their
  port: if every public URL has one, no alias is recognised, and only listed domains get a certificate.
\<close>

theorem certificates_for_paying_domains:
  assumes "tier_cache C holds" and "\<forall>k v. \<not> holds c k v"
    and "link_decides A E maxTTL dns hosts allowlist T C (tier_run C qs c) cnames now name st = Some (None, p, t)"
    and "name \<notin> set hosts"
  shows "\<exists>res. FetchAccessForHostNoAccessGrant A E maxTTL dns now name [] st = Some (Inr res, p, t) \<and> tr_TLS res
    \<and> (allowlisted allowlist name
       \<or> told (qs @ [(T, tr_Access res, name)]) (tq_Serialize T (ua_APIKey (tr_Access res))) True
         \<and> (\<exists>answers host target. cnames name = Inr answers \<and> host \<in> set hosts \<and> Some target \<in> set answers
              \<and> (target = host \<or> target = host @ ''.'')))
    \<and> ((\<forall>host \<in> set hosts. CHR '':'' \<in> set host)
         \<and> (\<forall>answers target. cnames name = Inr answers \<longrightarrow> Some target \<in> set answers \<longrightarrow> CHR '':'' \<notin> set target)
       \<longrightarrow> allowlisted allowlist name)"
proof -
  obtain res where r: "FetchAccessForHostNoAccessGrant A E maxTTL dns now name [] st = Some (Inr res, p, t)" "tr_TLS res"
    "allowlisted allowlist name \<or> fst (tier_Do T C (tr_Access res) name (tier_run C qs c)) = Inr True
       \<and> validateCNAME cnames name hosts = None"
    by (rule decision_None [OF assms(3) [unfolded link_decides_def] assms(4)])
  show ?thesis
  proof (cases "allowlisted allowlist name")
    case True
    with r show ?thesis by blast
  next
    case False
    with r(3) have d: "fst (tier_Do T C (tr_Access res) name (tier_run C qs c)) = Inr True"
      and v: "\<exists>answers host target. cnames name = Inr answers \<and> host \<in> set hosts \<and> Some target \<in> set answers
          \<and> (target = host \<or> target = host @ ''.'')"
      unfolding validateCNAME_None by simp_all
    obtain q where "tier_Do T C (tr_Access res) name (tier_run C qs c) = (Inr True, q)"
      using d by (metis fst_conv surj_pair)
    from paid_tier_was_told [OF assms(1,2) this]
    have "told (qs @ [(T, tr_Access res, name)]) (tq_Serialize T (ua_APIKey (tr_Access res))) True" by simp
    moreover have "\<not> ((\<forall>host \<in> set hosts. CHR '':'' \<in> set host)
         \<and> (\<forall>answers target. cnames name = Inr answers \<longrightarrow> Some target \<in> set answers \<longrightarrow> CHR '':'' \<notin> set target))"
      using v by (metis UnI1 set_append)
    ultimately show ?thesis using r(1,2) v by blast
  qed
qed

subsection \<open>Examples\<close>

definition demo_link_lib :: link_lib where
  "demo_link_lib =
     \<lparr>ll_ParseURL = (\<lambda>u. Inr \<lparr>bu_Scheme = ''https'', bu_Host = u, bu_User = False, bu_RawQuery = [], bu_Fragment = []\<rparr>),
      ll_String = (\<lambda>u. ''https://'' @ bu_Host u @ ''/''), ll_ParseGlob = (\<lambda>g. None), ll_SetConnectionPool = None,
      ll_OpenGeo = (\<lambda>f. None), ll_LoadIdentity = None, ll_NewTLSOptions = None\<rparr>"

definition demo_link_config :: "string list \<Rightarrow> link_config" where
  "demo_link_config bases =
     \<lparr>lc_Server = demo_server_config '':20012'',
      lc_Handler = \<lparr>hc_URLBases = bases, hc_Templates = ''web'', hc_RedirectHTTPS = True, hc_LandingRedirectTarget = [],
        hc_TXTRecordTTL = 0, hc_ClientTrustedIPsList = [], hc_UseClientIPHeaders = True, hc_StandardRendersContent = False,
        hc_StandardViewsHTML = False\<rparr>,
      lc_ShutdownDelay = 45, lc_GeoLocationDB = ''geo.mmdb''\<rparr>"

lemma demo_link_fails:
  "link_New demo_link_lib demo_tls_env demo_check_env (demo_link_config []) =
     (Inl (Detail ''unable to create handler'' (Message ''requires at least one url base'')), [GeoReader])"
  by (simp add: link_New_def demo_link_config_def demo_link_lib_def NewHandler_def)

text \<open>No base: the reader stays open.  One base: closing closes it, with what closing the reader reports.\<close>

lemma link_service_resources_witness:
  "GeoReader \<in> set (snd (link_New demo_link_lib demo_tls_env demo_check_env (demo_link_config [])))
   \<and> (\<exists>p. fst (link_New demo_link_lib demo_tls_env demo_check_env (demo_link_config [''link.x''])) = Inr p
        \<and> (case link_Close None (Some (Message ''unmap'')) p
              (snd (link_New demo_link_lib demo_tls_env demo_check_env (demo_link_config [''link.x'']))) of
             (e, slept, p', left) \<Rightarrow> e \<noteq> None \<and> slept = 45 \<and> left = []))"
proof -
  obtain p opened where n: "link_New demo_link_lib demo_tls_env demo_check_env (demo_link_config [''link.x'']) = (Inr p, opened)"
    by (simp add: link_New_def demo_link_config_def demo_link_lib_def NewHandler_def parseURLBase_def link_decision_def
        NewServer_def configureTLS_def key_pair_files_def demo_server_config_def demo_tls_options_def demo_tls_env_def Let_def)
  have g: "lc_GeoLocationDB (demo_link_config bases) = ''geo.mmdb''" "lc_ShutdownDelay (demo_link_config bases) = 45" for bases
    by (simp_all add: demo_link_config_def)
  from link_service_resources [OF n, of "\<lambda>_. None" "\<lparr>wr_Header = [], wr_Status = None, wr_Parts = []\<rparr>" None "Some (Message ''unmap'')"]
  show ?thesis
    by (simp add: demo_link_fails n g split: prod.splits)
qed

definition demo_paid_access_lib :: "uplink_access access_lib" where
  "demo_paid_access_lib = \<lparr>al_ParseAccess = (\<lambda>s. Inr demo_access), al_CheckDecode = (\<lambda>s. None)\<rparr>"

definition demo_txt_state :: "uplink_access txt_cache \<times> unit" where
  "demo_txt_state =
     ([(''site'', \<lparr>tx_queryResult = \<lparr>tr_Access = demo_access, tr_Root = [], tr_TLS = True\<rparr>, tx_expiration = 10\<rparr>)], ())"

definition demo_decides :: "string list \<Rightarrow> (err option \<times> pending option \<times> uplink_access txt_cache \<times> unit) option" where
  "demo_decides hosts =
     link_decides demo_paid_access_lib demo_env 0 (\<lambda>_. Inr []) hosts [] (demo_tier_env True) (lru_list 2)
       (tier_run (lru_list 2) [] []) (\<lambda>_. Inr [Some ''link.x.'']) 0 ''site'' demo_txt_state"

lemma demo_decides_eq:
  "demo_decides [''link.x''] = Some (None, None, demo_txt_state)"
  "demo_decides [''link.x:8443''] \<noteq> Some (None, None, demo_txt_state)"
  by (simp_all add: demo_decides_def link_decides_def customDomainsOverTLSDecision_def FetchAccessForHostNoAccessGrant_def
      fetchAccessForHost_def demo_txt_state_def tier_Do_def queryTier_def makeUserAgent_def demo_tier_env_def demo_access_def
      lru_list_def validateCNAME_def)

theorem certificates_for_paying_domains_witness:
  "demo_decides [''link.x''] = Some (None, None, demo_txt_state)
   \<and> told [(demo_tier_env True, demo_access, ''site'')] ''paid'' True
   \<and> demo_decides [''link.x:8443''] \<noteq> Some (None, None, demo_txt_state)"
proof -
  have f: "FetchAccessForHostNoAccessGrant demo_paid_access_lib demo_env 0 (\<lambda>_. Inr []) 0 ''site'' [] demo_txt_state
      = Some (Inr \<lparr>tr_Access = demo_access, tr_Root = [], tr_TLS = True\<rparr>, None, demo_txt_state)"
    by (simp add: FetchAccessForHostNoAccessGrant_def fetchAccessForHost_def demo_txt_state_def)
  have k: "tq_Serialize (demo_tier_env True) (ua_APIKey demo_access) = ''paid''"
    by (simp add: demo_tier_env_def demo_access_def)
  from certificates_for_paying_domains [OF tier_list.tier_cache_axioms [of 2] _
      demo_decides_eq(1) [unfolded demo_decides_def]] f k
  show ?thesis using demo_decides_eq by (auto simp: allowlisted_def)
qed

end
