(* ===== verification/Gateway.thy ===== *)
theory Gateway
  imports GatewayServer MultiTenant GoCalendar
begin

section \<open>A request through the gateway (pkg/server/server.go, pkg/minio/util.go, api-response.go)\<close>

text \<open>
  The parts of the gateway composed as \<open>server.New\<close> registers them: the middleware \<open>AccessKey\<close> puts the
  resolved credentials into the context of a request; the handlers of minio verify its signature with
  the identity they read from the store of theory GatewayServer, and call the layer of theory
  MultiTenant.  The handlers of minio are the parameter \<open>minio\<close>: with the store it is given, the call that
  a request makes of the layer, or \<open>None\<close> for a request that is answered without one.
\<close>

subsection \<open>One request\<close>

datatype 'r gateway_answer = Refused "api_err option" err | Unserved | Served 'r "err option"

type_synonym identity_store = "string \<Rightarrow> err + user_identity"

definition gateway_request :: "client_lib \<Rightarrow> (cached, 'c) lru option \<Rightarrow> client_config \<Rightarrow> (access_request \<Rightarrow> nat \<Rightarrow> answer)
    \<Rightarrow> (nat \<Rightarrow> err option) \<Rightarrow> string \<Rightarrow> trusted_list \<Rightarrow> form_source \<Rightarrow> (identity_store \<Rightarrow> http_req \<Rightarrow> 'o layer_call option)
    \<Rightarrow> ('a, 'p, 'o, 'r, 'w) mt_env \<Rightarrow> http_req \<Rightarrow> 'c \<Rightarrow> 'w mt_state \<Rightarrow> ('r gateway_answer \<times> 'c \<times> 'w mt_state) option" where
  "gateway_request CL cache a svc ctx requestID trusted F minio E r u s =
     (case AccessKey CL cache a svc ctx requestID trusted F r u of
        None \<Rightarrow> None
      | Some (AnswerError api e, v) \<Rightarrow> Some (Refused api e, v, s)
      | Some (CallNext creds, v) \<Rightarrow>
          (case minio (iam_GetObjectNInfo creds) r of
             None \<Rightarrow> Some (Unserved, v, s)
           | Some call \<Rightarrow> map_option (\<lambda>((res, e), t). (Served res e, v, t)) (mt_run call E creds s)))"

subsection \<open>Starting minio (util.go, \<open>Peer.Run\<close>)\<close>

text \<open>The global variables of minio that are set, once in a process.\<close>

record minio_globals =
  gl_Quiet :: bool
  gl_StrictS3Compat :: bool
  gl_IsTLS :: bool
  gl_ObjectLayer :: "string option"
  gl_IAMStore :: "string option"
  gl_PolicyAllowsAll :: bool
  gl_IsGateway :: bool

definition StartMinio :: "bool \<Rightarrow> minio_globals \<Rightarrow> minio_globals" where
  "StartMinio secureConn g =
     g\<lparr>gl_Quiet := True, gl_StrictS3Compat := True, gl_IsTLS := secureConn,
       gl_ObjectLayer := Some ''NotImplementedObjectStore'', gl_IAMStore := Some ''IAMAuthStore'',
       gl_PolicyAllowsAll := True, gl_IsGateway := True\<rparr>"

text \<open>The state of a process: whether \<open>minioOnce\<close> was done, and the variables.\<close>

definition gateway_Run :: "gateway_config \<Rightarrow> 'c gateway_peer \<Rightarrow> (node_check \<Rightarrow> err option) \<Rightarrow> (server_task \<times> err) list
    \<Rightarrow> bool \<times> minio_globals \<Rightarrow> err option option \<times> bool \<times> minio_globals" where
  "gateway_Run c p check served g =
     (server_Run (gp_server p) check served,
      (if fst g then g else (True, StartMinio (\<not> gc_InsecureDisableTLS c) (snd g))))"

text \<open>A second gateway in the process changes nothing, whatever its own setting of TLS.\<close>

lemma gateway_Run_once:
  "snd (gateway_Run c p check served (snd (gateway_Run c' p' check' served' (False, g))))
   = (True, StartMinio (\<not> gc_InsecureDisableTLS c') g)"
  by (simp add: gateway_Run_def)

record client_settings =
  cf_DialTimeout :: int
  cf_MaximumBufferSize :: int
  cf_PieceHashAlgorithmBlake3 :: bool
  cf_RefactoredCodePath :: bool

record uplink_settings =
  us_DialTimeout :: int
  us_MaximumBufferSize :: int
  us_Uploads :: upload_config

definition configureUplinkConfig :: "client_settings \<Rightarrow> uplink_settings" where
  "configureUplinkConfig c =
     \<lparr>us_DialTimeout = cf_DialTimeout c, us_MaximumBufferSize = cf_MaximumBufferSize c,
      us_Uploads = \<lparr>uc_PieceHashAlgorithmBlake3 = cf_PieceHashAlgorithmBlake3 c,
        uc_RefactoredCodePath = cf_RefactoredCodePath c\<rparr>\<rparr>"

subsection \<open>The listing with attributions (api-response.go)\<close>

text \<open>The layout \<open>2006-01-02T15:04:05.000Z\<close>, of a time in UTC in nanoseconds.\<close>

definition format_millis :: "time \<Rightarrow> string" where
  "format_millis t =
     (let c = unix_civil (t div 1000000000)
      in dec_width 4 (cv_year c) @ ''-'' @ dec_width 2 (cv_month c) @ ''-'' @ dec_width 2 (cv_day c) @ ''T''
         @ dec_width 2 (cv_hour c) @ '':'' @ dec_width 2 (cv_min c) @ '':'' @ dec_width 2 (cv_sec c) @ ''.''
         @ dec_width 3 (nat (t mod 1000000000 div 1000000)) @ ''Z'')"

record bucket_with_attribution =
  bw_CreationDate :: string
  bw_Name :: string
  bw_Attribution :: string

record list_response =
  lr_OwnerID :: string
  lr_OwnerDisplayName :: string
  lr_Buckets :: "bucket_with_attribution list"

definition generateListBucketsWithAttributionResponse :: "string \<Rightarrow> bucket_attribution list \<Rightarrow> list_response" where
  "generateListBucketsWithAttributionResponse ownerID info =
     \<lparr>lr_OwnerID = ownerID, lr_OwnerDisplayName = ''minio'',
      lr_Buckets = map (\<lambda>v. \<lparr>bw_CreationDate = format_millis (ba_Created v), bw_Name = ba_Name v,
        bw_Attribution = ba_Attribution v\<rparr>) info\<rparr>"

subsection \<open>From a registration to the project\<close>

lemma getAccessGrant_of:
  "k \<noteq> [] \<Longrightarrow> getAccessGrant (Some \<lparr>cr_AccessKey = k, cr_Response = a, cr_Error = e\<rparr>) = au_AccessGrant a"
  by (simp add: getAccessGrant_def)

lemma identity_of_credentials:
  assumes "k \<noteq> []"
  shows "iam_GetObjectNInfo (Some \<lparr>cr_AccessKey = k, cr_Response = a, cr_Error = None\<rparr>) (''config/iam/users/'' @ k @ ''/identity.json'')
    = Inr \<lparr>ui_Version = 1, ui_AccessKey = k, ui_SecretKey = au_SecretKey a, ui_Status = ''on''\<rparr>"
  unfolding iam_identity using assms by auto

subsection \<open>The cache of the client over the requests of a gateway\<close>

text \<open>
  The cache after requests of any kind, each with its context, its ID and what is read of its form; a
  request that panics, or for which no key is resolved, leaves it as it was.
\<close>

type_synonym arrival = "(nat \<Rightarrow> err option) \<times> string \<times> form_source \<times> http_req"

fun cache_after :: "client_lib \<Rightarrow> (cached, 'c) lru option \<Rightarrow> client_config \<Rightarrow> (access_request \<Rightarrow> nat \<Rightarrow> answer)
    \<Rightarrow> trusted_list \<Rightarrow> arrival list \<Rightarrow> 'c \<Rightarrow> 'c" where
  "cache_after CL cache a svc trusted [] u = u"
| "cache_after CL cache a svc trusted ((ctx, requestID, F, r) # rs) u =
     (case AccessKey CL cache a svc ctx requestID trusted F r u of
        None \<Rightarrow> cache_after CL cache a svc trusted rs u
      | Some (_, v) \<Rightarrow> cache_after CL cache a svc trusted rs v)"

text \<open>What the cache holds for a key, if it holds anything, is a given response.\<close>

definition cached_as :: "client_lib \<Rightarrow> (cached, 'c) lru option \<Rightarrow> ('c \<Rightarrow> string \<Rightarrow> cached \<Rightarrow> bool) \<Rightarrow> string \<Rightarrow> auth_response \<Rightarrow> 'c \<Rightarrow> bool" where
  "cached_as CL cache holds keyID response u \<longleftrightarrow>
     (case cache of None \<Rightarrow> True
      | Some C \<Rightarrow> lru_cache C holds \<and> (\<forall>v. holds u keyID v \<longrightarrow> entry_value CL keyID v = Inr response))"

lemma finish_entry:
  "(case decryptResponse L v k of Inl e \<Rightarrow> (Inl e, d)
      | Inr a \<Rightarrow> (case ca_err v of Some e \<Rightarrow> (Inl e, d) | None \<Rightarrow> (Inr a, d))) = (entry_value L k v, d)"
  by (simp add: entry_value_def split: sum.split option.split)

lemma ResolveWithCache_Some:
  "ResolveWithCache L (Some C) a svc ctx requestID k ip c =
     (case lru_Load C k c of
        (Some v, d) \<Rightarrow> Some (entry_value L k v, d)
      | (None, d) \<Rightarrow>
          (case Resolve L a svc ctx requestID k ip of
             None \<Rightarrow> None
           | Some r \<Rightarrow>
               (case fill_cache L k r of
                  Inl e \<Rightarrow> Some (Inl e, d)
                | Inr v \<Rightarrow> Some (entry_value L k v, lru_Store C k v d))))"
  unfolding ResolveWithCache_def option.case Let_def finish_entry ..

text \<open>Resolving any key keeps what is held for \<open>keyID\<close>, if the service answers for it with the response.\<close>

lemma resolve_keeps:
  assumes "crypto (cl_crypto CL)" and "cached_as CL cache holds keyID response u"
    and "Resolve CL a svc ctx requestID keyID ip = Some (Inr response)"
    and "ResolveWithCache CL cache a svc ctx requestID k ip u = Some (x, v)"
  shows "cached_as CL cache holds keyID response v"
proof (cases cache)
  case (Some C)
  with assms(2) have lru: "lru_cache C holds" by (simp add: cached_as_def)
  define P where "P = (\<lambda>k v. k = keyID \<longrightarrow> entry_value CL k v = Inr response)"
  have good: "cached_as CL cache holds keyID response u \<longleftrightarrow> lru_cache.sound holds P u" for u
    by (simp add: cached_as_def Some lru lru_cache.sound_def [OF lru] P_def)
  obtain l d where load: "lru_Load C k u = (l, d)" by fastforce
  note d = lru_cache.sound_Load [OF lru _ load, of P, folded good, OF assms(2)]
  show ?thesis
  proof (cases l)
    case None
    show ?thesis
    proof (cases "\<exists>r w. Resolve CL a svc ctx requestID k ip = Some r \<and> fill_cache CL k r = Inr w")
      case True
      then obtain r w where w: "Resolve CL a svc ctx requestID k ip = Some r" "fill_cache CL k r = Inr w" by blast
      have "P k w" unfolding P_def
      proof
        assume "k = keyID"
        with w assms(3) fill_cache_value [OF assms(1) w(2)] show "entry_value CL k w = Inr response" by simp
      qed
      with d lru_cache.sound_Store [OF lru] have "lru_cache.sound holds P (lru_Store C k w d)" by (simp add: good)
      moreover have "v = lru_Store C k w d" using assms(4) by (simp add: Some ResolveWithCache_Some load None w)
      ultimately show ?thesis by (simp add: good)
    next
      case False
      with assms(4) have "v = d"
        by (auto simp: Some ResolveWithCache_Some load None split: option.splits sum.splits)
      with d show ?thesis by simp
    qed
  next
    case (Some w)
    with d assms(4) show ?thesis by (simp add: \<open>cache = Some C\<close> ResolveWithCache_Some load)
  qed
qed (simp add: cached_as_def)

text \<open>A key is resolved with its response, from the cache or by asking, if the cache can encrypt it.\<close>

lemma resolve_cached:
  assumes "crypto (cl_crypto CL)" and "cached_as CL cache holds keyID response u"
    and "Resolve CL a svc ctx requestID keyID ip = Some (Inr response)"
    and "cl_NewKey CL keyID = Inr ck" and "\<And>d n. \<exists>c. lib_Encrypt (cl_crypto CL) d ck n = Inr c"
  shows "\<exists>v. ResolveWithCache CL cache a svc ctx requestID keyID ip u = Some (Inr response, v)"
proof (cases cache)
  case None
  then show ?thesis by (simp add: ResolveWithCache_def assms(3))
next
  case (Some C)
  with assms(2) have lru: "lru_cache C holds" and held: "\<And>v. holds u keyID v \<Longrightarrow> entry_value CL keyID v = Inr response"
    by (auto simp: cached_as_def)
  obtain l d where load: "lru_Load C keyID u = (l, d)" by fastforce
  show ?thesis
  proof (cases l)
    case None
    obtain c1 c2 where "lib_Encrypt (cl_crypto CL) (au_SecretKey response) ck secret_nonce = Inr c1"
        "lib_Encrypt (cl_crypto CL) (au_AccessGrant response) ck grant_nonce = Inr c2"
      using assms(5) by metis
    then obtain v where v: "fill_cache CL keyID (Inr response) = Inr v"
      by (simp add: fill_cache_def encryptResponse_def assms(4) Let_def)
    show ?thesis
      by (simp add: Some ResolveWithCache_Some load None assms(3) v fill_cache_value [OF assms(1) v])
  next
    case (Some v)
    with load lru_cache.Load_holds [OF lru] held have "entry_value CL keyID v = Inr response" by blast
    then show ?thesis by (simp add: \<open>cache = Some C\<close> ResolveWithCache_Some load Some)
  qed
qed

lemma requests_keep:
  assumes "crypto (cl_crypto CL)" and "\<And>ctx requestID ip. Resolve CL a svc ctx requestID keyID ip = Some (Inr response)"
  shows "cached_as CL cache holds keyID response u \<Longrightarrow> cached_as CL cache holds keyID response (cache_after CL cache a svc trusted rs u)"
proof (induction rs arbitrary: u)
  case (Cons arrival rs)
  obtain ctx requestID F r where arrival: "arrival = (ctx, requestID, F, r)" by (cases arrival)
  have "cached_as CL cache holds keyID response v"
    if "AccessKey CL cache a svc ctx requestID trusted F r u = Some (outcome, v)" for outcome v
    using that Cons.prems resolve_keeps [OF assms(1) Cons.prems assms(2)]
    by (auto simp: AccessKey_def split: option.splits sum.splits prod.splits if_splits)
  with Cons show ?case by (auto simp: arrival split: option.split)
qed simp

text \<open>An entry with an error for the key: the request goes on without a grant.\<close>

lemma cached_error_refuses:
  assumes "GetAccessKeyID F r = Some (Inr keyID)" and "GetClientIP trusted (hr_RemoteAddr r) (hr_Header r) \<noteq> None"
    and "lru_Load C keyID u = (Some v, d)" and "entry_value CL keyID v = Inl e"
  defines "creds \<equiv> Some \<lparr>cr_AccessKey = [], cr_Response = no_response, cr_Error = Some e\<rparr>"
  shows "AccessKey CL (Some C) a svc ctx requestID trusted F r u = Some (CallNext creds, d)"
    and "one_error call \<Longrightarrow> mt_run call E creds s = Some ((me_zero E call, Some (anonymous_error call)), s)"
proof -
  obtain ip where "GetClientIP trusted (hr_RemoteAddr r) (hr_Header r) = Some ip" using assms(2) by auto
  then show "AccessKey CL (Some C) a svc ctx requestID trusted F r u = Some (CallNext creds, d)"
    by (simp add: AccessKey_def assms(1,3,4) ResolveWithCache_Some creds_def)
  show "mt_run call E creds s = Some ((me_zero E call, Some (anonymous_error call)), s)" if "one_error call"
    using mt_run_with_project [OF that, of E creds s] by (simp add: creds_def getAccessGrant_def)
qed

text \<open>
  C13: a credential that the authentication service has handed out for an access grant, named in the
  authorization of an S3 request, gives the handlers of minio the identity of that access key with the
  secret that was handed out; and if the handlers, with this identity, make a call with a single error as
  its result, it is done on one project that is opened with the registered grant, and the project is
  closed when the call has returned.  This holds as long as the record of the registration lives and the
  service is not asked to change it, without the cache of the client and with it, after any
  requests of any clients to the gateway, whatever the cache has kept or dropped of them, provided that
  it held no other answer for this key when it was registered.  The provision is needed: as long as the cache holds an
  error for the key, from a request that was made before the key was registered, the request goes on
  without a grant, and the layer refuses every such call without opening a project.
\<close>

theorem registered_credential_reaches_its_project:
  assumes "badger_db D view live" and "crypto L" and "store_ok (db_proto D) live (view st)"
    and "length key = 16" and "length sk = 32" and "K = node_kv D answers ctx now"
    and "Resources_ServeHTTP L res K allowed (Inr key) (Inr sk) req st = Some (rsp, t)"
    and "rq_Path req = ''/v1/access''" and "rq_Body req = BodyDecoded accessGrant public"
    and "rp_Body rsp = AccessCreated keyID secret ep"
    and "\<And>r. make_record L allowed (Inr sk) key accessGrant public = Inr (sk, r) \<Longrightarrow> live (expiry (record_at now r))"
    and "0 \<le> rs_postSizeLimit res" and "rs_authToken res = [] \<or> cc_Token a \<in> set (rs_authToken res)"
    and "cl_Parse CL (cc_BaseURL a) = Inr base" and "url_Path base = []"
    and "bears_authorization r c names sig" and "vc_AccessKeyID c = keyID"
    and "parse_iso8601 (header_get (hr_Header r) ''X-Amz-Date'') \<noteq> None"
    and "GetClientIP trusted (hr_RemoteAddr r) (hr_Header r) \<noteq> None"
    and grant: "accessGrant \<noteq> []" "me_ParseAccess E accessGrant = Inr access"
    and pools: "me_SetConnectionPool E = None" "me_SetSatelliteConnectionPool E = None"
    and encrypts: "crypto (cl_crypto CL)" "cl_NewKey CL keyID = Inr ck" "\<And>d n. \<exists>c. lib_Encrypt (cl_crypto CL) d ck n = Inr c"
    and before: "cached_as CL cache holds keyID \<lparr>au_AccessGrant = accessGrant, au_SecretKey = secret, au_Public = public\<rparr> u0"
    and after: "u = cache_after CL cache a (auth_server L res K allowed t) trusted rs u0"
    and minio: "minio (iam_GetObjectNInfo (Some \<lparr>cr_AccessKey = keyID, cr_Response =
        \<lparr>au_AccessGrant = accessGrant, au_SecretKey = secret, au_Public = public\<rparr>, cr_Error = None\<rparr>)) r = Some call"
    and one: "one_error call"
  shows "iam_GetObjectNInfo (Some \<lparr>cr_AccessKey = keyID, cr_Response = \<lparr>au_AccessGrant = accessGrant, au_SecretKey = secret,
        au_Public = public\<rparr>, cr_Error = None\<rparr>) (''config/iam/users/'' @ keyID @ ''/identity.json'')
      = Inr \<lparr>ui_Version = 1, ui_AccessKey = keyID, ui_SecretKey = secret, ui_Status = ''on''\<rparr>
    \<and> (\<exists>res1 e v s'. gateway_request CL cache a (auth_server L res K allowed t) sleeps requestID trusted F minio E r u s
        = Some (Served res1 e, v, s')
      \<and> (case me_OpenProject E \<lparr>oa_UserAgent = getUserAgent E (ms_reqInfo s),
              oa_PieceHashAlgorithmBlake3 = uc_PieceHashAlgorithmBlake3 (me_uploads E),
              oa_RefactoredCodePath = uc_RefactoredCodePath (me_uploads E)\<rparr> access (ms_world s) of
           (Inl x, w) \<Rightarrow> res1 = me_zero E call \<and> e = Some x \<and> ms_world s' = w
         | (Inr p, w) \<Rightarrow>
             (case me_layer E call p w of
                ((r1, e1), w1) \<Rightarrow>
                  (case me_Close E p w1 of
                     (ce, w2) \<Rightarrow> res1 = r1 \<and> e = (if named_result call then combine [e1, ce] else e1) \<and> ms_world s' = w2))))
    \<and> (\<forall>C u1 v d x. cache = Some C \<longrightarrow> lru_Load C keyID u1 = (Some v, d) \<longrightarrow> entry_value CL keyID v = Inl x \<longrightarrow>
        (let creds = Some \<lparr>cr_AccessKey = [], cr_Response = no_response, cr_Error = Some x\<rparr>
         in AccessKey CL cache a (auth_server L res K allowed t) sleeps requestID trusted F r u1 = Some (CallNext creds, d)
          \<and> mt_run call E creds s = Some ((me_zero E call, Some (anonymous_error call)), s)))"
proof (intro conjI allI impI)
  let ?response = "\<lparr>au_AccessGrant = accessGrant, au_SecretKey = secret, au_Public = public\<rparr>"
  let ?creds = "Some \<lparr>cr_AccessKey = keyID, cr_Response = ?response, cr_Error = None\<rparr>"
  have k: "keyID \<noteq> []" using assms(16,17) by (auto simp: bears_authorization_def credential_ok_def)
  have id: "GetAccessKeyID F r = Some (Inr keyID)" using key_of_authorization [OF assms(16,18)] assms(17) by simp
  obtain ip where ip: "GetClientIP trusted (hr_RemoteAddr r) (hr_Header r) = Some ip" using assms(19) by auto
  have resolve: "Resolve CL a (auth_server L res K allowed t) sleeps requestID keyID ip = Some (Inr ?response)" for sleeps requestID ip
    by (rule client_resolves_registered [OF assms(1-15)])
  have now: "cached_as CL cache holds keyID ?response u"
    unfolding after by (rule requests_keep [OF encrypts(1) resolve before])
  obtain v where "ResolveWithCache CL cache a (auth_server L res K allowed t) sleeps requestID keyID ip u = Some (Inr ?response, v)"
    using resolve_cached [OF encrypts(1) now resolve encrypts(2,3)] by blast
  then have key: "AccessKey CL cache a (auth_server L res K allowed t) sleeps requestID trusted F r u = Some (CallNext ?creds, v)"
    by (simp add: AccessKey_def id ip)
  have g: "getAccessGrant ?creds = accessGrant" using k by (simp add: getAccessGrant_of)
  obtain out where run: "mt_run call E ?creds s = Some out" and out: "out = with_project (named_result call) E ?creds call s"
    using mt_run_with_project [OF one, of E ?creds s] g grant(1) by simp
  show "iam_GetObjectNInfo ?creds (''config/iam/users/'' @ keyID @ ''/identity.json'')
      = Inr \<lparr>ui_Version = 1, ui_AccessKey = keyID, ui_SecretKey = secret, ui_Status = ''on''\<rparr>"
    using identity_of_credentials [OF k] by simp
  have req: "gateway_request CL cache a (auth_server L res K allowed t) sleeps requestID trusted F minio E r u s
      = Some (Served (fst (fst out)) (snd (fst out)), v, snd out)"
    unfolding gateway_request_def key by (simp add: minio run case_prod_beta)
  show "\<exists>res1 e v s'. gateway_request CL cache a (auth_server L res K allowed t) sleeps requestID trusted F minio E r u s
        = Some (Served res1 e, v, s')
      \<and> (case me_OpenProject E \<lparr>oa_UserAgent = getUserAgent E (ms_reqInfo s),
              oa_PieceHashAlgorithmBlake3 = uc_PieceHashAlgorithmBlake3 (me_uploads E),
              oa_RefactoredCodePath = uc_RefactoredCodePath (me_uploads E)\<rparr> access (ms_world s) of
           (Inl x, w) \<Rightarrow> res1 = me_zero E call \<and> e = Some x \<and> ms_world s' = w
         | (Inr p, w) \<Rightarrow>
             (case me_layer E call p w of
                ((r1, e1), w1) \<Rightarrow>
                  (case me_Close E p w1 of
                     (ce, w2) \<Rightarrow> res1 = r1 \<and> e = (if named_result call then combine [e1, ce] else e1) \<and> ms_world s' = w2)))"
    unfolding req using out
    by (auto simp: with_project_def g openProject_def grant setupProject_opens [OF pools] close_project_def Let_def
        split: sum.split prod.split)
  fix C u1 v d x
  assume c: "cache = Some C" "lru_Load C keyID u1 = (Some v, d)" "entry_value CL keyID v = Inl x"
  show "let creds = Some \<lparr>cr_AccessKey = [], cr_Response = no_response, cr_Error = Some x\<rparr>
      in AccessKey CL cache a (auth_server L res K allowed t) sleeps requestID trusted F r u1 = Some (CallNext creds, d)
       \<and> mt_run call E creds s = Some ((me_zero E call, Some (anonymous_error call)), s)"
    unfolding Let_def c(1) using cached_error_refuses [OF id assms(19) c(2,3)] one by blast
qed

text \<open>A handler that lists the buckets of a user whose identity it finds.\<close>

definition demo_minio :: "identity_store \<Rightarrow> http_req \<Rightarrow> unit layer_call option" where
  "demo_minio iam r =
     (case iam (''config/iam/users/'' @ demo_keyID @ ''/identity.json'') of Inl e \<Rightarrow> None | Inr i \<Rightarrow> Some CListBuckets)"

text \<open>Two requests in a row, the second of which finds the answer of the first in the cache.\<close>

theorem registered_credential_reaches_its_project_witness:
  defines "s \<equiv> \<lparr>ms_world = (0, [''a'']), ms_reqInfo = None, ms_log = None\<rparr> :: (nat \<times> string list) mt_state"
  shows "\<exists>rsp t secret u v s'. rp_Body rsp = AccessCreated demo_keyID secret ''https://gw''
     \<and> Resources_ServeHTTP demo_lib demo_resources demo_kv {demo_url} (Inr (replicate 16 CHR ''k''))
         (Inr (replicate 32 CHR ''s'')) demo_post [] = Some (rsp, t)
     \<and> u = cache_after demo_client (Some (lru_list 2)) demo_client_config (auth_server demo_lib demo_resources demo_kv {demo_url} t)
         NewListUntrustAll [(\<lambda>_. None, [], demo_form, demo_s3_request)] [] \<and> map fst u = [demo_keyID]
     \<and> gateway_request demo_client (Some (lru_list 2)) demo_client_config (auth_server demo_lib demo_resources demo_kv {demo_url} t)
         (\<lambda>_. None) [] NewListUntrustAll demo_form demo_minio demo_mt demo_s3_request u s = Some (Served [''a''] None, v, s')
     \<and> ms_world s' = (0, [''a''])"
proof -
  let ?secret = "secret_ToBase32 (replicate 32 CHR ''s'')"
  let ?response = "\<lparr>au_AccessGrant = ''grant'', au_SecretKey = ?secret, au_Public = True\<rparr>"
  obtain rsp t where r: "Resources_ServeHTTP demo_lib demo_resources demo_kv {demo_url} (Inr (replicate 16 CHR ''k''))
       (Inr (replicate 32 CHR ''s'')) demo_post [] = Some (rsp, t)"
    and b: "rp_Body rsp = AccessCreated (key_ToBase32 (replicate 16 CHR ''k'')) ?secret ''https://gw''"
    and live: "\<And>r. make_record demo_lib {demo_url} (Inr (replicate 32 CHR ''s'')) (replicate 16 CHR ''k'') ''grant'' True =
      Inr (replicate 32 CHR ''s'', r) \<Longrightarrow> unexpired 1000 (expiry (record_at 7 r))"
    by (rule demo_registered) (rule that)
  have date: "parse_iso8601 (header_get (hr_Header demo_s3_request) ''X-Amz-Date'') \<noteq> None"
    by (simp add: demo_s3_request_def demo_credential_def equal_fold_def to_lower_def lower_char_def
        parse_format_iso8601 civil_ok_def days_in_month_def)
  have "stripPort ''1.2.3.4:5'' \<noteq> None" by code_simp
  then have ip: "GetClientIP NewListUntrustAll (hr_RemoteAddr demo_s3_request) (hr_Header demo_s3_request) \<noteq> None"
    by (auto simp: GetClientIP_def IsTrusted_def NewListUntrustAll_def demo_s3_request_def)
  have k: "demo_keyID \<noteq> []" using demo_bears by (simp add: bears_authorization_def credential_ok_def demo_credential_def)
  have key: "key_ToBase32 (replicate 16 CHR ''k'') = demo_keyID" by (simp add: demo_keyID_def)
  have m: "demo_minio (iam_GetObjectNInfo (Some \<lparr>cr_AccessKey = key_ToBase32 (replicate 16 CHR ''k''), cr_Response =
        ?response, cr_Error = None\<rparr>)) demo_s3_request = Some CListBuckets"
    unfolding key demo_minio_def identity_of_credentials [OF k] by simp
  have cr: "crypto (cl_crypto demo_client)" using demo_lib.crypto_axioms by (simp add: demo_client_def)
  have empty: "cached_as demo_client (Some (lru_list 2)) (\<lambda>c k v. (k, v) \<in> set c) (key_ToBase32 (replicate 16 CHR ''k'')) ?response []"
    using lru_list.lru_cache_axioms by (simp add: cached_as_def)
  let ?server = "auth_server demo_lib demo_resources demo_kv {demo_url} t"
  define u where "u = cache_after demo_client (Some (lru_list 2)) demo_client_config ?server NewListUntrustAll
      [(\<lambda>_. None, [], demo_form, demo_s3_request)] []"
  have resolve: "Resolve demo_client demo_client_config ?server (\<lambda>_. None) [] (key_ToBase32 (replicate 16 CHR ''k'')) ip
      = Some (Inr ?response)" for ip
    by (rule client_resolves_registered [OF demo_ok demo_lib.crypto_axioms store_ok_Nil _ _ refl r _ _ b live,
          where base = "\<lparr>url_Scheme = ''http'', url_Host = ''auth'', url_Path = []\<rparr>"])
      (simp_all add: demo_post_def demo_resources_def demo_client_def demo_client_config_def)
  have id: "GetAccessKeyID demo_form demo_s3_request = Some (Inr demo_keyID)"
    using key_of_authorization [OF demo_bears date] by (simp add: demo_credential_def)
  obtain i where i: "GetClientIP NewListUntrustAll (hr_RemoteAddr demo_s3_request) (hr_Header demo_s3_request) = Some i"
    using ip by auto
  obtain v where v: "fill_cache demo_client demo_keyID (Inr ?response) = Inr v"
    by (simp add: fill_cache_def encryptResponse_def demo_client_def demo_lib_def Let_def)
  have held: "map fst u = [demo_keyID]"
    using resolve [unfolded key, of i] v
    by (simp add: u_def AccessKey_def id i ResolveWithCache_Some lru_list_def split: sum.split)
  have post: "rq_Path demo_post = ''/v1/access''" "rq_Body demo_post = BodyDecoded ''grant'' True"
    "0 \<le> rs_postSizeLimit demo_resources"
    "rs_authToken demo_resources = [] \<or> cc_Token demo_client_config \<in> set (rs_authToken demo_resources)"
    by (simp_all add: demo_post_def demo_resources_def demo_client_config_def)
  have client: "cl_Parse demo_client (cc_BaseURL demo_client_config) = Inr \<lparr>url_Scheme = ''http'', url_Host = ''auth'', url_Path = []\<rparr>"
    "vc_AccessKeyID demo_credential = key_ToBase32 (replicate 16 CHR ''k'')"
    "cl_NewKey demo_client (key_ToBase32 (replicate 16 CHR ''k'')) = Inr (pad32 (key_ToBase32 (replicate 16 CHR ''k'')))"
    by (simp_all add: demo_client_def demo_client_config_def demo_credential_def demo_keyID_def)
  have encrypts: "\<exists>c. lib_Encrypt (cl_crypto demo_client) d k n = Inr c" for d k n
    by (simp add: demo_client_def demo_lib_def)
  have layer: "''grant'' \<noteq> []" "me_ParseAccess demo_mt ''grant'' = Inr ''grant''" "me_SetConnectionPool demo_mt = None"
    "me_SetSatelliteConnectionPool demo_mt = None"
    by (simp_all add: demo_mt_def)
  have trivial: "url_Path \<lparr>url_Scheme = ''http'', url_Host = ''auth'', url_Path = []\<rparr> = []" "one_error (CListBuckets :: unit layer_call)"
    by simp_all
  obtain res1 e v s' where served: "gateway_request demo_client (Some (lru_list 2)) demo_client_config ?server (\<lambda>_. None) []
      NewListUntrustAll demo_form demo_minio demo_mt demo_s3_request u s = Some (Served res1 e, v, s')"
    and out: "case me_OpenProject demo_mt \<lparr>oa_UserAgent = getUserAgent demo_mt (ms_reqInfo s),
              oa_PieceHashAlgorithmBlake3 = uc_PieceHashAlgorithmBlake3 (me_uploads demo_mt),
              oa_RefactoredCodePath = uc_RefactoredCodePath (me_uploads demo_mt)\<rparr> ''grant'' (ms_world s) of
           (Inl x, w) \<Rightarrow> res1 = me_zero demo_mt CListBuckets \<and> e = Some x \<and> ms_world s' = w
         | (Inr p, w) \<Rightarrow>
             (case me_layer demo_mt CListBuckets p w of
                ((r1, e1), w1) \<Rightarrow>
                  (case me_Close demo_mt p w1 of
                     (ce, w2) \<Rightarrow> res1 = r1 \<and> e = (if named_result (CListBuckets :: unit layer_call) then combine [e1, ce] else e1) \<and> ms_world s' = w2))"
    by (rule conjunct1 [OF conjunct2 [OF registered_credential_reaches_its_project [where F = demo_form and sleeps = "\<lambda>_. None"
          and requestID = "[]" and s = s and minio = demo_minio and rs = "[(\<lambda>_. None, [], demo_form, demo_s3_request)]",
          OF demo_ok demo_lib.crypto_axioms store_ok_Nil length_replicate length_replicate refl r post(1,2) b live post(3,4) client(1)
            trivial(1) demo_bears client(2) date ip layer cr client(3) encrypts empty u_def m trivial(2)]], THEN exE],
        assumption) (elim exE conjE, rule that)
  have "me_OpenProject demo_mt args g (ms_world s) = (Inr g, (1, [''a'']))" "me_layer demo_mt CListBuckets g (n, bs) = ((bs, None), (n, bs))"
    "me_Close demo_mt ''grant'' (n, bs) = (None, (n - 1, bs))" for args g n bs
    by (simp_all add: demo_mt_def s_def)
  with out have result: "res1 = [''a'']" "e = None" "ms_world s' = (0, [''a''])" by simp_all
  show ?thesis
    by (rule exI [of _ rsp], rule exI [of _ t], rule exI [of _ ?secret], rule exI [of _ u], rule exI [of _ v], rule exI [of _ s'])
      (intro conjI b [unfolded key] r u_def held served [unfolded result] result)
qed

end
