(* ===== verification/Commands.thy ===== *)
theory Commands
  imports Peers GatewayServer LinkPeer
begin

section \<open>The services as commands (cmd/gateway-mt, cmd/linksharing, cmd/authservice)\<close>

text \<open>
  What the run commands of the three services make of their flags, how they wait for a service and close
  it, the migration of the authentication service, and the help of the gateway.  The start of telemetry,
  cobra, the configuration file and which errors \<open>errs2.IgnoreCanceled\<close> takes for a cancellation are
  parameters; flags are given by their values.
\<close>

subsection \<open>Waiting for a service (the end of both \<open>cmdRun\<close>)\<close>

text \<open>
  Two tasks of an \<open>errgroup\<close> with a context, which is done after a signal or when a task of the group has
  returned an error: one waits for the context and closes the peer, the other runs it.  A step is a
  signal or the return of a task.
\<close>

datatype command_task = ClosePeer | RunPeer

record command_state =
  cs_signalled :: bool
  cs_returned :: "(command_task \<times> err option) list"

definition ignoreCanceled :: "(err \<Rightarrow> bool) \<Rightarrow> err option \<Rightarrow> err option" where
  "ignoreCanceled canceled e = (case e of None \<Rightarrow> None | Some x \<Rightarrow> if canceled x then None else Some x)"

definition command_start :: command_state where
  "command_start = \<lparr>cs_signalled = False, cs_returned = []\<rparr>"

definition ctx_done :: "command_state \<Rightarrow> bool" where
  "ctx_done s \<longleftrightarrow> cs_signalled s \<or> list_ex (\<lambda>(t, e). e \<noteq> None) (cs_returned s)"

definition task_returns :: "(err \<Rightarrow> bool) \<Rightarrow> command_task \<Rightarrow> err option \<Rightarrow> command_state \<Rightarrow> command_state" where
  "task_returns canceled t e s = s\<lparr>cs_returned := cs_returned s @ [(t, ignoreCanceled canceled e)]\<rparr>"

definition task_running :: "command_task \<Rightarrow> command_state \<Rightarrow> bool" where
  "task_running t s \<longleftrightarrow> t \<notin> fst ` set (cs_returned s)"

inductive command_step :: "(err \<Rightarrow> bool) \<Rightarrow> command_state \<Rightarrow> command_state \<Rightarrow> bool" for canceled where
  signal: "command_step canceled s (s\<lparr>cs_signalled := True\<rparr>)"
| run_returns: "task_running RunPeer s \<Longrightarrow> command_step canceled s (task_returns canceled RunPeer e s)"
| close_returns: "task_running ClosePeer s \<Longrightarrow> ctx_done s \<Longrightarrow> command_step canceled s (task_returns canceled ClosePeer e s)"

inductive_cases command_stepE: "command_step canceled s s'"

inductive command_reach :: "(err \<Rightarrow> bool) \<Rightarrow> command_state \<Rightarrow> bool" for canceled where
  start: "command_reach canceled command_start"
| step: "command_reach canceled s \<Longrightarrow> command_step canceled s s' \<Longrightarrow> command_reach canceled s'"

definition command_wait :: "command_state \<Rightarrow> err option option" where
  "command_wait s = group_wait [ClosePeer, RunPeer] (cs_returned s)"

subsection \<open>The gateway\<close>

text \<open>From the flags: whom to trust about the client's address, and the allowed origins.\<close>

definition gateway_flags :: "bool \<Rightarrow> string list \<Rightarrow> string \<Rightarrow> trusted_list \<times> string list" where
  "gateway_flags useClientIPHeaders clientTrustedIPSList corsOrigins =
     (client_ip_list useClientIPHeaders clientTrustedIPSList, split_on CHR '','' corsOrigins)"

definition gateway_cmdRun :: "err option \<Rightarrow> client_lib \<Rightarrow> client_config \<Rightarrow> 'c tls_env \<Rightarrow> 'i check_env \<Rightarrow> err + string list
    \<Rightarrow> gateway_config \<Rightarrow> (err + 'c gateway_peer) \<times> string list" where
  "gateway_cmdRun telemetry L auth E I setup c =
     (case telemetry of
        Some e \<Rightarrow> (Inl (Detail ''Failed to initialize telemetry batcher'' e), [])
      | None \<Rightarrow> (case Config_Validate L auth of Some e \<Rightarrow> (Inl e, []) | None \<Rightarrow> gateway_New E I setup c))"

text \<open>
  \<open>findBoolFlagEarly\<close>: whether a flag is among the arguments before they are parsed.
\<close>

fun findBoolFlagEarly :: "string \<Rightarrow> string list \<Rightarrow> bool" where
  "findBoolFlagEarly flagName [] = False"
| "findBoolFlagEarly flagName (arg # args) =
     (if \<not> has_prefix arg (''--'' @ flagName) then findBoolFlagEarly flagName args
      else case args of
             next # _ \<Rightarrow>
               if next = ''false'' then False
               else if \<not> has_prefix arg (''--'' @ flagName @ ''=false'') then True
               else findBoolFlagEarly flagName args
           | [] \<Rightarrow> \<not> has_prefix arg (''--'' @ flagName @ ''=false''))"

text \<open>
  The usage text: a line that \<open>fmt.Sscanf\<close> reads as \<open>--%s\<close> is printed only for a flag of the basic
  ones, every other line as it is.  (The test for the dashes that follows in the code holds there.)
\<close>

definition scan_flag :: "string \<Rightarrow> string option" where
  "scan_flag s =
     (if has_prefix s ''--''
      then case takeWhile (\<lambda>c. \<not> is_space c) (dropWhile is_space (drop 2 s)) of [] \<Rightarrow> None | name \<Rightarrow> Some name
      else None)"

definition usage_lines :: "string list \<Rightarrow> string list \<Rightarrow> string list" where
  "usage_lines basicFlags ls =
     concat (map (\<lambda>line.
       case scan_flag (trim_space line) of
         None \<Rightarrow> [line]
       | Some flagName \<Rightarrow>
           (if \<not> has_prefix (trim_space line) ''--'' then [line] else [])
           @ map (\<lambda>_. line) (filter (\<lambda>f. f = flagName) basicFlags)) ls)"

subsection \<open>Link sharing\<close>

record link_flags =
  lf_Address :: string
  lf_AddressTLS :: string
  lf_InsecureDisableTLS :: bool
  lf_CertFile :: string
  lf_KeyFile :: string
  lf_PublicURL :: string
  lf_GeoLocationDB :: string
  lf_TXTRecordTTL :: int
  lf_Templates :: string
  lf_LandingRedirectTarget :: string
  lf_RedirectHTTPS :: bool
  lf_ClientTrustedIPSList :: "string list"
  lf_UseClientIPHeaders :: bool
  lf_StandardRendersContent :: bool
  lf_StandardViewsHTML :: bool
  lf_CertMagic :: bool
  lf_CertMagicKeyFile :: string
  lf_CertMagicEmail :: string
  lf_CertMagicStaging :: bool
  lf_CertMagicBucket :: string
  lf_ShutdownDelay :: int
  lf_CheckEnabled :: bool
  lf_CheckSatellites :: "string list"
  lf_CheckTimeout :: int

definition link_tls :: "link_flags \<Rightarrow> tls_options option" where
  "link_tls f =
     (if lf_InsecureDisableTLS f then None
      else Some \<lparr>to_CertMagic = lf_CertMagic f, to_CertMagicKeyFile = lf_CertMagicKeyFile f, to_DNSChallenge = False,
        to_DNSProject = [], to_OverrideDomain = [], to_CertMagicEmail = lf_CertMagicEmail f, to_TestIssuer = None,
        to_Staging = lf_CertMagicStaging f, to_Bucket = lf_CertMagicBucket f,
        to_PublicURLs = split_on CHR '','' (lf_PublicURL f), to_CertDir = [], to_CertFile = lf_CertFile f,
        to_KeyFile = lf_KeyFile f\<rparr>)"

definition link_config_of :: "link_flags \<Rightarrow> link_config" where
  "link_config_of f =
     \<lparr>lc_Server = \<lparr>sc_Name = ''Link Sharing'', sc_Address = lf_Address f, sc_AddressTLS = lf_AddressTLS f,
        sc_TrafficLogging = True, sc_TLSConfig = link_tls f, sc_ShutdownTimeout = - 1, sc_CheckEnabled = lf_CheckEnabled f,
        sc_CheckSatellites = lf_CheckSatellites f, sc_CheckTimeout = lf_CheckTimeout f\<rparr>,
      lc_Handler = \<lparr>hc_URLBases = split_on CHR '','' (lf_PublicURL f), hc_Templates = lf_Templates f,
        hc_RedirectHTTPS = lf_RedirectHTTPS f, hc_LandingRedirectTarget = lf_LandingRedirectTarget f,
        hc_TXTRecordTTL = lf_TXTRecordTTL f, hc_ClientTrustedIPsList = lf_ClientTrustedIPSList f,
        hc_UseClientIPHeaders = lf_UseClientIPHeaders f, hc_StandardRendersContent = lf_StandardRendersContent f,
        hc_StandardViewsHTML = lf_StandardViewsHTML f\<rparr>,
      lc_ShutdownDelay = lf_ShutdownDelay f, lc_GeoLocationDB = lf_GeoLocationDB f\<rparr>"

definition link_cmdRun :: "err option \<Rightarrow> link_lib \<Rightarrow> 'c tls_env \<Rightarrow> 'i check_env \<Rightarrow> link_flags
    \<Rightarrow> (err + 'c link_peer) \<times> link_resource list" where
  "link_cmdRun telemetry L T I f =
     (case telemetry of
        Some e \<Rightarrow> (Inl (Detail ''failed to initialize telemetry batcher'' e), [])
      | None \<Rightarrow> link_New L T I (link_config_of f))"

subsection \<open>The authentication service\<close>

text \<open>
  The method \<open>MigrateToLatest\<close> of the store that \<open>OpenKV\<close> returns, by which it would support migrations:
  the only store is the \<open>Node\<close> of badgerauth, and it has none.
\<close>

definition MigrateToLatest :: "('c auth_node \<Rightarrow> err option) option" where
  "MigrateToLatest = None"

text \<open>
  \<open>cmdMigrationRun\<close>: \<open>runs\<close> is what running the store returns once it is cancelled, \<open>closed\<close> what closing it
  returns; the result has the resources that are open at the end.
\<close>

definition cmdMigrationRun :: "(err \<Rightarrow> bool) \<Rightarrow> 'c auth_setup \<Rightarrow> 's db \<Rightarrow> auth_config \<Rightarrow> err option \<Rightarrow> err option \<Rightarrow> 's
    \<Rightarrow> (err option \<times> resource list \<times> 's) option" where
  "cmdMigrationRun canceled E D c runs closed s =
     (case OpenKV E D c s of
        None \<Rightarrow> None
      | Some (Inl e, open, t) \<Rightarrow> Some (Some e, open, t)
      | Some (Inr kv, open, t) \<Rightarrow>
          (let err = (case MigrateToLatest of
                 None \<Rightarrow> Some (Message ''database backend does not support migrations'')
               | Some migrate \<Rightarrow> (case migrate kv of Some e \<Rightarrow> Some e | None \<Rightarrow> ignoreCanceled canceled runs))
           in Some (combine [err, closed], node_Close True (Some (nd_address kv)) open, t)))"

definition auth_cmdRun :: "(err \<Rightarrow> bool) \<Rightarrow> auth_lib \<Rightarrow> list_env \<Rightarrow> 'c auth_setup \<Rightarrow> 's db \<Rightarrow> bool \<Rightarrow> auth_config \<Rightarrow> err option
    \<Rightarrow> err option \<Rightarrow> err option \<Rightarrow> ('c auth_peer \<Rightarrow> err option) \<Rightarrow> err option \<Rightarrow> 's \<Rightarrow> (err option \<times> resource list \<times> 's) option" where
  "auth_cmdRun canceled L F E D migration c telemetry migrationRuns migrationClosed runs closed s =
     (case (if migration then cmdMigrationRun canceled E D c migrationRuns migrationClosed s else Some (None, [], s)) of
        None \<Rightarrow> None
      | Some (Some e, open, t) \<Rightarrow> Some (Some e, open, t)
      | Some (None, open, t) \<Rightarrow>
          (case telemetry of
             Some e \<Rightarrow> Some (Some (Detail ''failed to initialize telemetry batcher'' e), open, t)
           | None \<Rightarrow>
               (case auth_New L F E D c t of
                  None \<Rightarrow> None
                | Some (Inl e, open, u) \<Rightarrow> Some (Some e, open, u)
                | Some (Inr p, open, u) \<Rightarrow>
                    Some (combine [ignoreCanceled canceled (runs p), closed], auth_Close p open, u))))"

text \<open>The credentials that \<open>register\<close> prints.\<close>

definition Credentials_String :: "reg_credentials \<Rightarrow> string" where
  "Credentials_String c =
     ''Access Key ID: '' @ rc_AccessKeyID c @ CHR 0x0A # ''Secret Access Key: '' @ rc_SecretKey c
     @ CHR 0x0A # ''Endpoint: '' @ rc_Endpoint c"

definition cmdRegister :: "reg_env \<Rightarrow> string \<Rightarrow> string \<Rightarrow> bool \<Rightarrow> bool \<Rightarrow> err + string" where
  "cmdRegister E address access public formatEnv =
     (case register_Access E address access public of
        (res, Some e) \<Rightarrow> Inl e
      | (res, None) \<Rightarrow>
          Inr (if formatEnv
               then ''AWS_ACCESS_KEY_ID='' @ rc_AccessKeyID res @ CHR 0x0A # ''AWS_SECRET_ACCESS_KEY='' @ rc_SecretKey res
                    @ CHR 0x0A # ''AWS_ENDPOINT='' @ rc_Endpoint res @ [CHR 0x0A]
               else Credentials_String res @ [CHR 0x0A]))"

subsection \<open>The configuration file (\<open>cmdSetup\<close>)\<close>

record setup_env =
  su_Abs :: "string \<Rightarrow> err + string"
  su_IsValidSetupDir :: "string \<Rightarrow> bool"
  su_MkdirAll :: "string \<Rightarrow> err option"
  su_SaveConfig :: "string \<Rightarrow> err option"

definition cmdSetup :: "string \<Rightarrow> setup_env \<Rightarrow> string \<Rightarrow> err option" where
  "cmdSetup exists E confDir =
     (case su_Abs E confDir of
        Inl e \<Rightarrow> Some e
      | Inr setupDir \<Rightarrow>
          if \<not> su_IsValidSetupDir E setupDir then Some (Message (exists @ '' ('' @ setupDir @ '')''))
          else case su_MkdirAll E setupDir of
                 Some e \<Rightarrow> Some e
               | None \<Rightarrow> su_SaveConfig E (path_join [setupDir, ''config.yaml'']))"

definition gateway_cmdSetup :: "setup_env \<Rightarrow> string \<Rightarrow> err option" where
  "gateway_cmdSetup = cmdSetup ''configuration already exists''"

definition link_cmdSetup :: "setup_env \<Rightarrow> string \<Rightarrow> err option" where
  "link_cmdSetup = cmdSetup ''link sharing configuration already exists''"

definition auth_cmdSetup :: "setup_env \<Rightarrow> string \<Rightarrow> err option" where
  "auth_cmdSetup = cmdSetup ''configuration already exists''"

subsection \<open>When a command ends\<close>

lemma group_wait_None_iff: "command_wait s = None \<longleftrightarrow> task_running ClosePeer s \<or> task_running RunPeer s"
  by (auto simp: command_wait_def group_wait_None task_running_def)

lemma command_close_done:
  "command_reach canceled s \<Longrightarrow> \<not> task_running ClosePeer s \<Longrightarrow> ctx_done s"
proof (induction rule: command_reach.induct)
  case (step s s')
  from step.hyps(2) show ?case
    by (rule command_stepE) (use step.IH step.prems in \<open>auto simp: task_returns_def task_running_def ctx_done_def\<close>)
qed (simp add: command_start_def task_running_def)

lemma all_tasks: "set [ClosePeer, RunPeer] = UNIV"
  by (auto intro: command_task.exhaust)

text \<open>
  C39: a command waits until its service has run and has been closed, and closes it only after a signal or
  an error; then it can always close it, once, and its result is the first error that is not a
  cancellation.  A service that ends by itself without an error is not closed: the command goes on
  waiting for a signal with nothing that it serves.
\<close>

theorem command_ends:
  assumes "command_reach canceled s"
  shows "(command_wait s = None \<longleftrightarrow> task_running ClosePeer s \<or> task_running RunPeer s)
    \<and> (command_wait s = Some r \<longrightarrow> ctx_done s \<and> r = first_error (cs_returned s))
    \<and> (ctx_done s \<and> task_running ClosePeer s \<longrightarrow> command_step canceled s (task_returns canceled ClosePeer e s)
         \<and> \<not> task_running ClosePeer (task_returns canceled ClosePeer e s))
    \<and> (\<not> ctx_done s \<and> \<not> task_running RunPeer s \<longrightarrow> command_wait s = None
         \<and> (\<forall>s'. command_step canceled s s' \<longrightarrow> s' = s\<lparr>cs_signalled := True\<rparr>))"
proof -
  have "s' = s\<lparr>cs_signalled := True\<rparr>" if "\<not> ctx_done s" "\<not> task_running RunPeer s" "command_step canceled s s'" for s'
    using that(3) by (rule command_stepE) (use that(1,2) in auto)
  moreover have "r = first_error (cs_returned s)" if "command_wait s = Some r"
    using that by (simp add: command_wait_def group_wait_def all_tasks [simplified] split: if_splits)
  ultimately show ?thesis
    using command_close_done [OF assms] group_wait_None_iff [of s] close_returns [of s canceled e]
    by (auto simp: task_returns_def task_running_def)
qed

definition demo_run_ended :: "err option \<Rightarrow> command_state" where
  "demo_run_ended e = task_returns (\<lambda>_. False) RunPeer e command_start"

lemma demo_run_ended_reach: "command_reach (\<lambda>_. False) (demo_run_ended e)"
  unfolding demo_run_ended_def
  by (rule command_reach.step [OF command_reach.start run_returns]) (simp add: task_running_def command_start_def)

text \<open>A run that ended without an error waits; one that ended with an error is closed.\<close>

theorem command_ends_witness:
  "command_wait (demo_run_ended None) = None \<and> \<not> (\<exists>e. command_step (\<lambda>_. False) (demo_run_ended None)
       (task_returns (\<lambda>_. False) ClosePeer e (demo_run_ended None)))
   \<and> command_step (\<lambda>_. False) (demo_run_ended (Some (Message ''m'')))
       (task_returns (\<lambda>_. False) ClosePeer None (demo_run_ended (Some (Message ''m''))))"
proof -
  have r: "\<not> task_running RunPeer (demo_run_ended e)" "task_running ClosePeer (demo_run_ended e)" for e
    by (simp_all add: demo_run_ended_def task_returns_def task_running_def command_start_def)
  have d: "\<not> ctx_done (demo_run_ended None)" "ctx_done (demo_run_ended (Some (Message ''m'')))"
    by (simp_all add: demo_run_ended_def task_returns_def ctx_done_def command_start_def ignoreCanceled_def)
  note T = command_ends [OF demo_run_ended_reach]
  have "task_returns (\<lambda>_. False) ClosePeer e (demo_run_ended None) \<noteq> (demo_run_ended None)\<lparr>cs_signalled := True\<rparr>" for e
    by (simp add: demo_run_ended_def task_returns_def command_start_def)
  then show ?thesis using T [of None undefined undefined] T [of "Some (Message ''m'')" undefined None] r d by metis
qed

subsection \<open>The migration\<close>

text \<open>
  C38: a migration never succeeds: whatever store was opened, the command fails, and has closed it.  With
  the flag that asks for a migration before the start, the authentication service fails with the error of
  the migration; it is never made, and nothing is open.
\<close>

theorem migration_never_succeeds:
  assumes "cmdMigrationRun canceled E D c migrationRuns migrationClosed s = Some (r, open, t)"
  shows "r \<noteq> None \<and> open = []
    \<and> auth_cmdRun canceled L F E D True c telemetry migrationRuns migrationClosed runs closed s = Some (r, [], t)"
proof -
  have "r \<noteq> None \<and> open = []"
  proof (cases "OpenKV E D c s")
    case None
    with assms show ?thesis by (simp add: cmdMigrationRun_def)
  next
    case (Some x)
    obtain res opn u where x: "x = (res, opn, u)" by (cases x)
    with Some have o: "OpenKV E D c s = Some (res, opn, u)" by simp
    show ?thesis
    proof (cases res)
      case (Inl e)
      with o have "opn = []"
        by (auto simp: OpenKV_def node_New_def node_Close_def split: sum.splits option.splits if_splits prod.splits)
      with assms o Inl show ?thesis by (auto simp: cmdMigrationRun_def)
    next
      case (Inr kv)
      with o have "opn = [Listener (nd_address kv), Storage]"
        by (auto simp: OpenKV_def node_New_def split: sum.splits option.splits if_splits prod.splits)
      with assms o Inr have "open = []"
          "r = combine [Some (Message ''database backend does not support migrations''), migrationClosed]"
        by (auto simp: cmdMigrationRun_def MigrateToLatest_def node_Close_def)
      then show ?thesis by (simp only: combine_two_None) simp
    qed
  qed
  with assms show ?thesis by (auto simp: auth_cmdRun_def)
qed

theorem migration_never_succeeds_witness:
  "\<exists>t. auth_cmdRun (\<lambda>_. False) demo_lib (demo_page (NoPage (Sentinel FsNotExist))) demo_auth_env demo_db True
      (demo_auth_config ''k'') None None None (\<lambda>p. None) None [] =
    Some (Some (Message ''database backend does not support migrations''), [], t)"
proof -
  obtain n t where o: "OpenKV demo_auth_env demo_db (demo_auth_config ''k'') [] = Some (Inr n, [Listener '':20004'', Storage], t)"
    using demo_auth_opens by blast
  then have m: "cmdMigrationRun (\<lambda>_. False) demo_auth_env demo_db (demo_auth_config ''k'') None None [] =
      Some (Some (Message ''database backend does not support migrations''),
        node_Close True (Some (nd_address n)) [Listener '':20004'', Storage], t)"
    by (simp add: cmdMigrationRun_def MigrateToLatest_def combine_def)
  from migration_never_succeeds [OF m] show ?thesis by blast
qed

subsection \<open>What link sharing makes of its flags\<close>

lemma NewServer_made:
  assumes "NewServer E I has_handler decides config = (Inr s, opened)"
  shows "\<exists>tls. configureTLS E decides (sc_AddressTLS config) (sc_TLSConfig config) = Inr tls \<and> hs_tlsConfig s = map_option fst tls
    \<and> hs_shutdownTimeout s = (if sc_ShutdownTimeout config = 0 then DefaultShutdownTimeout else sc_ShutdownTimeout config)"
  using assms by (auto simp: NewServer_def Let_def split: if_splits sum.splits option.splits)

lemma link_tls_None:
  assumes "configureTLS E decides addr (link_tls f) = Inr tls"
  shows "tls = None \<longleftrightarrow> lf_InsecureDisableTLS f \<or> \<not> lf_CertMagic f \<and> lf_CertFile f = [] \<and> lf_KeyFile f = []"
  using assms
  by (auto simp: configureTLS_def link_tls_def key_pair_files_def split: if_splits sum.splits bool.splits)

lemma client_ip_list_trusts:
  "IsTrusted (client_ip_list use ips) ip \<longleftrightarrow> use \<and> (ips = [] \<or> ip \<in> set ips)"
  by (auto simp: client_ip_list_def IsTrusted_def NewList_def NewListTrustAll_def NewListUntrustAll_def List.member_iff)

text \<open>
  Link sharing that could be started closes its servers at once when it is shut down, without waiting
  for requests; it believes the headers about a client's address only when told to, and then only from
  the listed peers, if any are listed.  It serves TLS exactly if it is not disabled and certmagic or a
  certificate is configured: without either, the flag that says not to listen insecurely only is without
  effect, and everything is served in the clear.
\<close>

lemma link_flags_effect:
  assumes "link_cmdRun telemetry L T I f = (Inr p, opened)"
  shows "shutdownWithTimeout close shutdown (hs_shutdownTimeout (lp_server p)) = close
    \<and> (IsTrusted (sc_trustedClientIPs (lp_handler p)) ip
         \<longleftrightarrow> lf_UseClientIPHeaders f \<and> (lf_ClientTrustedIPSList f = [] \<or> ip \<in> set (lf_ClientTrustedIPSList f)))
    \<and> (server_tasks (lp_server p) = [Servers.ServeHTTP]
         \<longleftrightarrow> lf_InsecureDisableTLS f \<or> \<not> lf_CertMagic f \<and> lf_CertFile f = [] \<and> lf_KeyFile f = [])
    \<and> (lp_decision p \<noteq> None \<longleftrightarrow> \<not> lf_InsecureDisableTLS f \<and> lf_CertMagic f)"
proof -
  from assms have "link_New L T I (link_config_of f) = (Inr p, opened)" by (simp add: link_cmdRun_def split: option.splits)
  then show ?thesis
  proof (cases rule: link_New_cases)
    case (made server handler geo decision sockets)
    from NewServer_made [OF made(4)] obtain tls where
      tls: "configureTLS T (decision \<noteq> None) (lf_AddressTLS f) (link_tls f) = Inr tls" "hs_tlsConfig server = map_option fst tls"
        "hs_shutdownTimeout server = - 1"
      by (auto simp: link_config_of_def)
    have h: "sc_trustedClientIPs handler = client_ip_list (lf_UseClientIPHeaders f) (lf_ClientTrustedIPSList f)"
      using made(2) by (auto simp: NewHandler_def link_config_of_def split: sum.splits list.splits option.splits)
    have d: "decision \<noteq> None \<longleftrightarrow> \<not> lf_InsecureDisableTLS f \<and> lf_CertMagic f"
      using link_decision_iff [OF made(3)] by (auto simp: link_config_of_def link_tls_def)
    have p: "p = \<lparr>lp_server = server, lp_handler = handler, lp_mapper = (geo \<noteq> []), lp_decision = decision,
       lp_shutdownDelay = lc_ShutdownDelay (link_config_of f), lp_inShutdown = False\<rparr>" using made(5) by simp
    show ?thesis
      using link_tls_None [OF tls(1)] tls(2,3) d
      by (simp add: p h client_ip_list_trusts shutdownWithTimeout_def server_tasks_def)
  qed simp_all
qed

definition demo_flags :: link_flags where
  "demo_flags = \<lparr>lf_Address = '':20020'', lf_AddressTLS = '':20021'', lf_InsecureDisableTLS = False, lf_CertFile = [],
     lf_KeyFile = [], lf_PublicURL = ''link.x'', lf_GeoLocationDB = [], lf_TXTRecordTTL = 3600, lf_Templates = ''web'',
     lf_LandingRedirectTarget = [], lf_RedirectHTTPS = True, lf_ClientTrustedIPSList = [], lf_UseClientIPHeaders = True,
     lf_StandardRendersContent = False, lf_StandardViewsHTML = False, lf_CertMagic = False, lf_CertMagicKeyFile = [],
     lf_CertMagicEmail = [], lf_CertMagicStaging = False, lf_CertMagicBucket = [], lf_ShutdownDelay = 45,
     lf_CheckEnabled = False, lf_CheckSatellites = [], lf_CheckTimeout = 0\<rparr>"

lemma demo_flags_start:
  "\<exists>p. link_cmdRun None demo_link_lib demo_tls_env demo_check_env demo_flags = (Inr p, [Socket '':20020''])"
  by (simp add: link_cmdRun_def link_New_def link_config_of_def demo_flags_def demo_link_lib_def NewHandler_def parseURLBase_def
      link_decision_def link_tls_def NewServer_def configureTLS_def key_pair_files_def demo_tls_env_def Let_def)

lemma link_flags_effect_witness:
  "\<exists>p. link_cmdRun None demo_link_lib demo_tls_env demo_check_env demo_flags = (Inr p, [Socket '':20020''])
     \<and> \<not> lf_InsecureDisableTLS demo_flags \<and> server_tasks (lp_server p) = [Servers.ServeHTTP]
     \<and> IsTrusted (sc_trustedClientIPs (lp_handler p)) ''6.6.6.6''"
proof -
  obtain p where p: "link_cmdRun None demo_link_lib demo_tls_env demo_check_env demo_flags = (Inr p, [Socket '':20020''])"
    using demo_flags_start by blast
  from link_flags_effect [OF p] have "server_tasks (lp_server p) = [Servers.ServeHTTP]"
    "IsTrusted (sc_trustedClientIPs (lp_handler p)) ''6.6.6.6''"
    by (simp_all add: demo_flags_def)
  with p show ?thesis by (auto simp: demo_flags_def)
qed

subsection \<open>The help of the gateway\<close>

text \<open>A line is printed if it names no flag, or a basic one; flags have distinct names.\<close>

lemma usage_lines_filter:
  assumes "distinct basicFlags"
  shows "usage_lines basicFlags ls =
    filter (\<lambda>line. case scan_flag (trim_space line) of None \<Rightarrow> True | Some n \<Rightarrow> n \<in> set basicFlags) ls"
proof -
  have one: "filter (\<lambda>f. f = n) basicFlags = (if n \<in> set basicFlags then [n] else [])" for n
    using assms by (induction basicFlags) auto
  have dashes: "has_prefix t ''--''" if "scan_flag t = Some n" for t n
    using that by (simp add: scan_flag_def split: if_splits)
  show ?thesis
    by (induction ls) (auto simp: usage_lines_def one dest: dashes split: option.splits)
qed

text \<open>A flag whose name begins with the wanted one counts as well, and so does any value but \<open>false\<close>.\<close>

lemma findBoolFlagEarly_longer:
  "findBoolFlagEarly ''advanced'' [''gateway'', ''--advanced-foo'']"
  "findBoolFlagEarly ''advanced'' [''gateway'', ''--advanced=0'']"
  "\<not> findBoolFlagEarly ''advanced'' [''gateway'', ''--advanced'', ''false'', ''--advanced'']"
  by code_simp+

end
