(* ===== verification/AdminTool.thy ===== *)
theory AdminTool
  imports AdminClient Peers GoCalendar CertAdmin
begin

section \<open>The commands of the operators (cmd/authservice-admin/main.go, cmd/certmagic-admin/main.go)\<close>

text \<open>
  The commands over the client of theory AdminClient: how a record is shown, and the exit code.  A table
  is the lines that are written to the tabwriter, which aligns them; the encoding of a record as JSON is
  an argument.  Parsing of flags is clingy's; the addresses of the nodes are split here.
\<close>

subsection \<open>Tables\<close>

definition rfc3339 :: "int \<Rightarrow> string" where
  "rfc3339 t = format_rfc3339 (unix_civil t)"

definition FormatBool :: "bool \<Rightarrow> string" where
  "FormatBool b = (if b then ''true'' else ''false'')"

definition column :: "bool \<Rightarrow> string \<Rightarrow> string \<Rightarrow> string list \<times> string list \<Rightarrow> string list \<times> string list" where
  "column shown header val cols = (if shown then (fst cols @ [header], snd cols @ [val]) else cols)"

definition record_columns :: "admin_record \<Rightarrow> bool \<Rightarrow> string list \<times> string list" where
  "record_columns r expanded =
     (let cols = ([''CREATED'', ''PUBLIC''], [rfc3339 (pb_CreatedAtUnix (am_Record r)), FormatBool (pb_Public (am_Record r))]);
          cols = column (pb_ExpiresAtUnix (am_Record r) \<noteq> 0) ''EXPIRES'' (rfc3339 (pb_ExpiresAtUnix (am_Record r))) cols;
          cols = column (pb_InvalidatedAtUnix (am_Record r) \<noteq> 0) ''INVALIDATED'' (rfc3339 (pb_InvalidatedAtUnix (am_Record r))) cols;
          cols = column (pb_InvalidationReason (am_Record r) \<noteq> []) ''INVALIDATION REASON'' (pb_InvalidationReason (am_Record r)) cols;
          cols = column expanded ''SATELLITE'' (pb_SatelliteAddress (am_Record r)) cols;
          cols = column expanded ''MACAROON HEAD'' (am_MacaroonHeadHex r) cols;
          cols = column (expanded \<and> am_APIKey r \<noteq> []) ''API KEY'' (am_APIKey r) cols
      in column (expanded \<and> am_DecryptedAccessGrant r \<noteq> []) ''ACCESS GRANT'' (am_DecryptedAccessGrant r) cols)"

definition tab_joined :: "string list \<Rightarrow> string" where
  "tab_joined cols = join [CHR 0x09] cols"

definition printTabbedRecord :: "admin_record \<Rightarrow> bool \<Rightarrow> string list" where
  "printTabbedRecord r expanded = (case record_columns r expanded of (headers, vals) \<Rightarrow> [tab_joined headers, tab_joined vals])"

subsection \<open>The commands\<close>

definition node_addresses :: "string option \<Rightarrow> string list" where
  "node_addresses flag = (case flag of None \<Rightarrow> [] | Some s \<Rightarrow> split_on CHR '','' s)"

definition show_Execute :: "(admin_record \<Rightarrow> err + string list) \<Rightarrow> ('c, 's) cluster \<Rightarrow> string option \<Rightarrow> string \<Rightarrow> bool \<Rightarrow> string
    \<Rightarrow> (string \<Rightarrow> 's) \<Rightarrow> (err + string list) option" where
  "show_Execute json C nodes output expanded key W =
     (case Admin_Get C (node_addresses nodes) key W of
        None \<Rightarrow> None
      | Some (r, Some e) \<Rightarrow> Some (Inl e)
      | Some (None, None) \<Rightarrow> None
      | Some (Some r, None) \<Rightarrow>
          Some (if output = ''tabbed'' \<or> output = [] then Inr (printTabbedRecord r expanded)
                else if output = ''json'' then json r
                else Inl (Message ''unsupported output'')))"

definition invalidate_Execute :: "('c, 's) cluster \<Rightarrow> string option \<Rightarrow> string \<Rightarrow> string \<Rightarrow> (string \<Rightarrow> 's)
    \<Rightarrow> (err option \<times> (string \<Rightarrow> 's)) option" where
  "invalidate_Execute C nodes key reason W = Admin_Invalidate C (node_addresses nodes) key reason W"

definition unpublish_Execute :: "('c, 's) cluster \<Rightarrow> string option \<Rightarrow> string \<Rightarrow> (string \<Rightarrow> 's)
    \<Rightarrow> (err option \<times> (string \<Rightarrow> 's)) option" where
  "unpublish_Execute C nodes key W = Admin_Unpublish C (node_addresses nodes) key W"

definition delete_Execute :: "('c, 's) cluster \<Rightarrow> string option \<Rightarrow> string \<Rightarrow> (string \<Rightarrow> 's)
    \<Rightarrow> (err option \<times> (string \<Rightarrow> 's)) option" where
  "delete_Execute C nodes key W = Admin_Delete C (node_addresses nodes) key W"

text \<open>
  \<open>cmdShow\<close> of certmagic-admin: the certificate that certmagic finds for a name, as the text of its leaf;
  both are arguments.
\<close>

definition cert_show_Execute :: "'c tls_env \<Rightarrow> (bytes \<Rightarrow> err + 's gcs) \<Rightarrow> gcs_lib \<Rightarrow> certmagic_config
    \<Rightarrow> (acme_issuer list \<Rightarrow> string \<Rightarrow> 's \<Rightarrow> (err + 'leaf) \<times> 's) \<Rightarrow> ('leaf \<Rightarrow> err + string) \<Rightarrow> string \<Rightarrow> 's \<Rightarrow> (err + string) \<times> 's" where
  "cert_show_Execute E client L c CacheManagedCertificate CertificateText name s =
     (case admin_configureCertMagic E client L c True True s of
        (Inl e, t) \<Rightarrow> (Inl e, t)
      | (Inr (st, issuers), t) \<Rightarrow>
          (case CacheManagedCertificate issuers name t of
             (Inl e, u) \<Rightarrow> (Inl e, u)
           | (Inr leaf, u) \<Rightarrow> (CertificateText leaf, u)))"

text \<open>The exit code: \<open>ok\<close> says that a command was run.\<close>

definition exit_code :: "bool \<Rightarrow> err option \<Rightarrow> nat" where
  "exit_code ok e = (if \<not> ok \<or> e \<noteq> None then 1 else 0)"

subsection \<open>What is shown\<close>

lemma column_zip:
  "length (fst cols) = length (snd cols) \<Longrightarrow>
   length (fst (column b h v cols)) = length (snd (column b h v cols))
   \<and> zip (fst (column b h v cols)) (snd (column b h v cols)) = zip (fst cols) (snd cols) @ (if b then [(h, v)] else [])"
  by (simp add: column_def)

text \<open>Every header has its value below it.\<close>

lemma record_columns_zip:
  "length (fst (record_columns r x)) = length (snd (record_columns r x))
   \<and> zip (fst (record_columns r x)) (snd (record_columns r x)) =
     [(''CREATED'', rfc3339 (pb_CreatedAtUnix (am_Record r))), (''PUBLIC'', FormatBool (pb_Public (am_Record r)))]
     @ (if pb_ExpiresAtUnix (am_Record r) \<noteq> 0 then [(''EXPIRES'', rfc3339 (pb_ExpiresAtUnix (am_Record r)))] else [])
     @ (if pb_InvalidatedAtUnix (am_Record r) \<noteq> 0 then [(''INVALIDATED'', rfc3339 (pb_InvalidatedAtUnix (am_Record r)))] else [])
     @ (if pb_InvalidationReason (am_Record r) \<noteq> [] then [(''INVALIDATION REASON'', pb_InvalidationReason (am_Record r))] else [])
     @ (if x then [(''SATELLITE'', pb_SatelliteAddress (am_Record r)), (''MACAROON HEAD'', am_MacaroonHeadHex r)] else [])
     @ (if x \<and> am_APIKey r \<noteq> [] then [(''API KEY'', am_APIKey r)] else [])
     @ (if x \<and> am_DecryptedAccessGrant r \<noteq> [] then [(''ACCESS GRANT'', am_DecryptedAccessGrant r)] else [])"
  by (simp add: record_columns_def Let_def column_zip)

text \<open>Without \<open>--expanded\<close> nothing of the grant is shown.\<close>

lemma printTabbedRecord_hides:
  "printTabbedRecord (r\<lparr>am_DecryptedAccessGrant := g, am_APIKey := k, am_MacaroonHeadHex := h\<rparr>) False = printTabbedRecord r False"
  by (simp add: printTabbedRecord_def record_columns_def Let_def column_def)

text \<open>The times that are shown are those of the record.\<close>

lemma rfc3339_time:
  assumes "- 719528 * 86400 \<le> t"
  shows "\<exists>c. rfc3339 t = format_rfc3339 c \<and> civil_time c = t * 1000000000"
  unfolding rfc3339_def using civil_time_unix_civil(1) [OF assms] by blast

end
