(* ===== verification/MinioClient.thy ===== *)
theory MinioClient
  imports Errors
begin

section \<open>The client of the gateway's tests (internal/minioclient/client.go)\<close>

text \<open>
  A client of an S3 service over the library minio-go, which is the parameter \<open>minio_api\<close> over a state of
  the service.  A slice of bytes is its backing array up to its capacity and its length: appending to a
  slice starts after its length, whatever was written behind it.
\<close>

record 's minio_api =
  ma_MakeBucket :: "string \<Rightarrow> string \<Rightarrow> 's \<Rightarrow> err option \<times> 's"
  ma_RemoveBucket :: "string \<Rightarrow> 's \<Rightarrow> err option \<times> 's"
  ma_ListBuckets :: "'s \<Rightarrow> err + string list"
  ma_PutObject :: "string \<Rightarrow> string \<Rightarrow> bytes \<Rightarrow> int \<Rightarrow> 's \<Rightarrow> err option \<times> 's"
  ma_RemoveObject :: "string \<Rightarrow> string \<Rightarrow> 's \<Rightarrow> err option \<times> 's"
  ma_ListObjects :: "string \<Rightarrow> string \<Rightarrow> 's \<Rightarrow> string list"

definition wrap_minio :: "err option \<times> 's \<Rightarrow> err option \<times> 's" where
  "wrap_minio r = (wrap_opt MinioError (fst r), snd r)"

definition minio_MakeBucket :: "'s minio_api \<Rightarrow> string \<Rightarrow> string \<Rightarrow> 's \<Rightarrow> err option \<times> 's" where
  "minio_MakeBucket A bucket region s = wrap_minio (ma_MakeBucket A bucket region s)"

definition minio_RemoveBucket :: "'s minio_api \<Rightarrow> string \<Rightarrow> 's \<Rightarrow> err option \<times> 's" where
  "minio_RemoveBucket A bucket s = wrap_minio (ma_RemoveBucket A bucket s)"

definition minio_ListBuckets :: "'s minio_api \<Rightarrow> 's \<Rightarrow> err + string list" where
  "minio_ListBuckets A s = wrap_res MinioError (ma_ListBuckets A s)"

text \<open>
  The listing with attributions is a signed request of its own: \<open>request\<close> says whether it can be made,
  \<open>answer\<close> is the decoding of the body, \<open>close\<close> what closing the body returns.  An error of closing is
  wrapped by the variable of another error, which is \<open>nil\<close> there.
\<close>

definition minio_ListBucketsAttribution :: "err option \<Rightarrow> err + (err + string list) \<times> err option \<Rightarrow> string list \<times> err option" where
  "minio_ListBucketsAttribution request answer =
     (case request of
        Some e \<Rightarrow> ([], Some (wrap MinioError e))
      | None \<Rightarrow>
          (case answer of
             Inl e \<Rightarrow> ([], Some (wrap MinioError e))
           | Inr (Inl e, _) \<Rightarrow> ([], Some (wrap MinioError e))
           | Inr (Inr attributions, close) \<Rightarrow>
               (if close \<noteq> None then ([], wrap_opt MinioError None) else (attributions, None))))"

definition minio_Upload :: "'s minio_api \<Rightarrow> string \<Rightarrow> string \<Rightarrow> bytes \<Rightarrow> 's \<Rightarrow> err option \<times> 's" where
  "minio_Upload A bucket objectName data s = wrap_minio (ma_PutObject A bucket objectName data (int (length data)) s)"

definition minio_UploadMultipart :: "'s minio_api \<Rightarrow> string \<Rightarrow> string \<Rightarrow> bytes \<Rightarrow> 's \<Rightarrow> err option \<times> 's" where
  "minio_UploadMultipart A bucket objectName data s = wrap_minio (ma_PutObject A bucket objectName data (- 1) s)"

definition minio_Delete :: "'s minio_api \<Rightarrow> string \<Rightarrow> string \<Rightarrow> 's \<Rightarrow> err option \<times> 's" where
  "minio_Delete A bucket objectName s = wrap_minio (ma_RemoveObject A bucket objectName s)"

definition minio_ListObjects :: "'s minio_api \<Rightarrow> string \<Rightarrow> string \<Rightarrow> 's \<Rightarrow> string list" where
  "minio_ListObjects A bucket pre s = ma_ListObjects A bucket pre s"

subsection \<open>Download\<close>

text \<open>
  An object that is being read: \<open>first\<close> are the bytes that its first \<open>Read\<close> puts into a buffer of a given
  capacity with the error it returns, \<open>rest\<close> what \<open>io.ReadAll\<close> then returns.
\<close>

record object_reader =
  or_first :: "nat \<Rightarrow> bytes \<times> err option"
  or_rest :: "bytes \<times> err option"

definition minio_Download :: "err + object_reader \<Rightarrow> bytes \<Rightarrow> nat \<Rightarrow> err + bytes" where
  "minio_Download getObject backing len =
     (case getObject of
        Inl e \<Rightarrow> Inl (wrap MinioError e)
      | Inr reader \<Rightarrow>
          (case or_first reader (length backing) of
             (data, err) \<Rightarrow>
               let written = data @ drop (length data) backing;
                   n = length data
               in if \<not> (case err of Some e \<Rightarrow> is_err IoEOF e | None \<Rightarrow> False)
                  then case or_rest reader of
                         (rest, e) \<Rightarrow>
                           (case (case e of Some x \<Rightarrow> if is_err IoEOF x then None else Some x | None \<Rightarrow> None) of
                              Some x \<Rightarrow> Inl (wrap MinioError x)
                            | None \<Rightarrow> Inr (take len written @ rest))
                  else Inr (take n written)))"

text \<open>A reader of a content, by the contract of \<open>io.Reader\<close>: \<open>n\<close> bytes come first, and the end may be told with them.\<close>

definition reads :: "bytes \<Rightarrow> nat \<Rightarrow> object_reader \<Rightarrow> nat \<Rightarrow> bool" where
  "reads content n reader cap \<longleftrightarrow>
     n \<le> cap \<and> n \<le> length content
     \<and> (or_first reader cap = (take n content, None) \<and> or_rest reader = (drop n content, None)
        \<or> or_first reader cap = (content, Some (Sentinel IoEOF)) \<and> n = length content)"

text \<open>
  A download is the content exactly if the end came with the first read, or the first read filled the
  buffer up to its length and no further.  After a shorter read the result has stale bytes of the buffer
  in its middle, after a longer one it lacks the bytes that were read beyond the length of the buffer; its
  length tells in both cases, and no error does.
\<close>

lemma download_is_content_iff:
  assumes "reads content n reader (length backing)" and "len \<le> length backing"
  shows "\<exists>data. minio_Download (Inr reader) backing len = Inr data
    \<and> (data = content \<longleftrightarrow> or_first reader (length backing) = (content, Some (Sentinel IoEOF)) \<or> n = len)
    \<and> (or_first reader (length backing) \<noteq> (content, Some (Sentinel IoEOF))
        \<longrightarrow> data = take len (take n content @ drop n backing) @ drop n content
          \<and> length data + n = length content + len)"
proof (cases "or_first reader (length backing) = (content, Some (Sentinel IoEOF))")
  case True
  then show ?thesis by (simp add: minio_Download_def Let_def)
next
  case False
  with assms(1) have r: "or_first reader (length backing) = (take n content, None)" "or_rest reader = (drop n content, None)"
    and n: "n \<le> length backing" "n \<le> length content" by (auto simp: reads_def)
  let ?data = "take len (take n content @ drop n backing) @ drop n content"
  have "minio_Download (Inr reader) backing len = Inr ?data" using r n by (simp add: minio_Download_def Let_def min_def)
  moreover have l: "length ?data + n = length content + len" using n assms(2) by simp
  moreover have "?data = content \<longleftrightarrow> n = len"
  proof
    assume "?data = content"
    then have "length ?data = length content" by (rule arg_cong)
    with l show "n = len" by linarith
  next
    assume "n = len"
    with n show "?data = content" by simp
  qed
  ultimately show ?thesis using False by blast
qed

definition short_reader :: object_reader where
  "short_reader = \<lparr>or_first = (\<lambda>cap. (''ab'', None)), or_rest = (''cd'', None)\<rparr>"

lemma download_is_content_iff_witness:
  "minio_Download (Inr short_reader) ''....'' 4 = Inr ''ab..cd'' \<and> minio_Download (Inr short_reader) ''....'' 0 = Inr ''cd''"
proof -
  have r: "reads ''abcd'' 2 short_reader (length ''....'')" by (simp add: reads_def short_reader_def)
  have f: "or_first short_reader c \<noteq> (''abcd'', Some (Sentinel IoEOF))" for c by (simp add: short_reader_def)
  from download_is_content_iff [OF r, of 4] download_is_content_iff [OF r, of 0] f show ?thesis by auto
qed

text \<open>An error of closing the listing is lost: the result is that of a user without buckets.\<close>

lemma close_error_is_lost:
  "minio_ListBucketsAttribution None (Inr (Inr attributions, Some e)) = ([], None)"
  by (simp add: minio_ListBucketsAttribution_def wrap_opt_def)

end
