(* ===== verification/Spec2Isabelle.thy ===== *)
theory Spec2Isabelle
  imports Certstorage Linksharing_Facts MutexGroup S3_Users MultiTenant Limiter BodyCache
    Logging Metrics NodeList AdminClient Servers Peers CertAdmin GatewayServer Lookups
    SyncLogs ServiceLogs GoCalendar LinkPeer Gateway Commands AdminTool MinioClient
begin

text \<open>
  \<^bold>\<open>The multi-tenant gateway: a verification development.\<close>

  The repository holds three services and their tools.  The auth service (\<open>src/cmd/authservice\<close>) keeps
  encrypted access grants under access keys in a replicated store.  The gateway (\<open>src/cmd/gateway-mt\<close>)
  serves the S3 protocol: it finds the access key of a request, asks the auth service for the grant, and
  calls minio's handlers over an object layer that opens a project of that grant.  The link sharing
  service (\<open>src/cmd/linksharing\<close>) serves objects under links and under hosted domains, with the same
  client of the auth service.  Certificates are kept in Cloud Storage behind a distributed lock.

  \<^bold>\<open>Theories and sources\<close> (paths under \<open>src/\<close>).

  Foundations.  \<open>Prelude\<close> has bytes, words and the shared automation.  \<open>GoStrings\<close>, \<open>GoNum\<close>, \<open>GoPath\<close>,
  \<open>GoTime\<close>, \<open>GoHttp\<close> and \<open>GoCrypto\<close> are the parts of Go's library that the program calls, \<open>Base32\<close> its
  encoding of keys.  \<open>Errors\<close> has all errors as one datatype with the wrapping of \<open>errs\<close> and the annotations
  of \<open>pkg/errdata\<close>; a fallible function returns \<open>err + 'a\<close> or \<open>err option\<close>, and \<open>None\<close> around a result is
  a panic or a call that does not return, as the theory says.  \<open>Backoff\<close> is \<open>pkg/backoff\<close>.

  The store (\<open>pkg/auth/badgerauth\<close>).  \<open>Engine\<close> is the interface of the storage engine, the locales
  \<open>badger_txn\<close> and \<open>badger_total\<close> over transactions, interpreted on a list of bindings.  \<open>Keys\<close>, \<open>Clocks\<close>,
  \<open>Records\<close> (clock.go, replication_log.go, nodeid.go, the messages) lay out the contents; \<open>Store\<close> is db.go;
  \<open>Store_Facts\<close>, \<open>Store_Ops\<close>, \<open>Store_Batch\<close> prove the invariant \<open>store_ok\<close> and what each operation does to
  the contents.  \<open>Node\<close> is node.go, admin.go and errorname.go; \<open>Sync\<close> the state of two nodes; \<open>Badgerauth\<close>
  holds the properties.

  The auth service.  \<open>AuthDB\<close> is \<open>pkg/auth/authdb\<close>, with the locales \<open>kv_store\<close> and \<open>crypto\<close>, of which the
  store of \<open>badgerauth\<close> is the first (a \<open>sublocale\<close>); \<open>HttpAuth\<close> is \<open>httpauth\<close> and \<open>drpcauth\<close>; \<open>NodeList\<close>
  the lists of satellites with \<open>pkg/startupcheck\<close> and their reloading; \<open>AdminClient\<close> the client of the
  operators and the TLS between nodes; \<open>Peers\<close> how the node and the service are made, run and closed, with
  backups; \<open>SyncLogs\<close> the clocks that a node logs.

  The client.  \<open>TrustedIP\<close> is \<open>pkg/trustedip\<close>, \<open>AuthClient\<close> is \<open>pkg/authclient\<close> with the locale \<open>lru_cache\<close>
  of its cache, \<open>Lookups\<close> the tier queries (the locale \<open>tier_cache\<close> extends \<open>lru_cache\<close>), the locations of
  addresses and \<open>internal/register\<close>.

  The gateway.  \<open>Credentials\<close> is the middleware that finds the access key and resolves it; \<open>Limiter\<close>,
  \<open>BodyCache\<close>, \<open>Logging\<close>, \<open>Metrics\<close> are the other middlewares; \<open>S3Router\<close> is the table of routes,
  \<open>S3Handlers\<close> the handlers that rewrite a request to the user's bucket (\<open>dws.go\<close>, \<open>api-handlers.go\<close>),
  \<open>S3_Facts\<close> and \<open>S3_Users\<close> what they guarantee; \<open>MultiTenant\<close> is the object layer; \<open>GatewayServer\<close> the
  peer, the identities of minio and critical errors; \<open>Gateway\<close> composes a request through all of them, with
  the start of minio (\<open>pkg/minio/util.go\<close>) and the listing with attributions (\<open>api-response.go\<close>).

  Link sharing.  \<open>Signed\<close> verifies signed requests; \<open>TxtRecords\<close> finds hosted domains in DNS; \<open>Ranges\<close> has
  predicted ranges, \<open>MutexGroup\<close> mutexes by name, \<open>Sharing\<close> and \<open>Linksharing\<close> the handler, and
  \<open>Linksharing_Facts\<close> what it shows.  \<open>LinkPeer\<close> makes the handler, the decision about certificates and
  the server of the service, runs and closes them.

  Servers and certificates.  \<open>Servers\<close> is \<open>pkg/httpserver\<close>, \<open>ServiceLogs\<close> its log, that of the
  auth service and the request IDs; \<open>GcsOps\<close>, \<open>Gcslock\<close>, \<open>Certstorage\<close> are the
  client of Cloud Storage, the lock and the storage of certificates; \<open>CertAdmin\<close> is \<open>pkg/gpublicca\<close> and
  \<open>cmd/certmagic-admin\<close>.

  Commands.  \<open>Commands\<close> has the run commands of the three services (\<open>src/cmd\<close>): what they make of their flags,
  how they wait for a service and close it, the migration and the help; \<open>AdminTool\<close> is what the operators'
  commands print, with the calendar of theory \<open>GoCalendar\<close>; \<open>MinioClient\<close> is the client that the integration
  tests use (\<open>internal/minioclient\<close>).

  \<^bold>\<open>How state and operations correspond.\<close>  A struct is a record with the fields the code uses, an operation
  a function from its arguments and the state to its result and the state.  What runs concurrently is a
  step relation where the interleaving matters (\<open>Gcslock\<close>, \<open>MutexGroup\<close>, \<open>Limiter\<close>, \<open>Commands\<close>), and otherwise a list of
  outcomes in the order in which they arrive (peers asked at once, the tasks of an \<open>errgroup\<close>).  Integers
  that can overflow are words or are wrapped where the code computes them.  Logging and metrics have no
  effect on a result and are left out, except where they are the subject.

  \<^bold>\<open>What the groups of lemmas show.\<close>  The store: every reachable state is well-formed, what is stored is
  read back or refused as the code says, and a synchronisation brings a node up to its peer.  Grants: what
  is registered is what the access key opens, through the service, the client, its cache, the middleware,
  and for the operator.  Locks: mutual exclusion under the conditions under which it holds, and a run in
  which it does not.  Signatures: what is accepted, and what an accepted request is bounded by.  The gateway:
  routes, their types, the confinement of users to their buckets and where it ends, by the sources of copies
  and by the operations that look no user up, one project for one request over the requests of all tenants,
  the limit of concurrent requests, what logs hide, panics included, and metrics observe.  Link sharing: who is
  denied, what is rendered, to what a hosted domain is confined.  Servers: which resources are open after
  every outcome, when they have ended, what TLS offers, and for whom certificates are obtained.  Commands:
  when they end, and that a migration cannot succeed.  \<open>Gateway\<close> joins registration, resolving, identities
  and the layer: a credential leads to a project of its grant, whatever the client's cache holds of other keys.

  \<^bold>\<open>Bounds and fuel.\<close>  Loops that end are structural or have a measure.  Loops that may not end are partial
  functions into \<open>option\<close>, with theorems that say when they return: \<open>Resolve\<close> retries with delays that are
  at their maximum after 63 doublings, as a delay has 64 bits.  Objects of which a range is predicted are
  below \<open>2 ^ 62\<close> bytes, so that no sum of two offsets overflows.  Sorting by indices is modelled as the
  library does it up to twelve elements.  Calendars begin with the year 0.  Lengths hashed by
  SHA-256 are below \<open>2 ^ 61\<close> bytes, the limit of the function.

  \<^bold>\<open>What is assumed.\<close>  The code outside the repository is an argument of the definitions that call it, and
  the locales state the documented behaviour that is relied on: transactions of the engine, encryption that
  can be undone, a codec of messages that round-trips, preconditions of Cloud Storage, caches that return
  only what was stored.  Each has an interpretation on a concrete model.  Also arguments are: the uplink
  library, archives, content that is served by Go's server, DNS, TLS key pairs and certmagic, the node
  service of buckets, minio's handlers, matching of hosts by the router, and the parsing of URLs and user
  agents.  Regular expressions are written out as functions.  Headers are lists with names compared without
  regard to case.  Where Go leaves the order of a map or of evaluations open, the order is an argument.

  \<^bold>\<open>Not modelled.\<close>  The parsing of flags and configuration files (cobra, clingy and a library do it); how the
  router calls the middlewares, which is gorilla's; the rendering of the web templates; generated messages;
  the monitors \<open>mon_minio.go\<close> and \<open>inmemory.go\<close>, which have no effect on an answer; the fixtures of tests
  (\<open>badgerauthtest\<close>, \<open>testconfiglock\<close>, mocks).
\<close>

end
